(* ===== verification/Prelude.thy ===== *)
theory Prelude
  imports Complex_Main "HOL-Library.Word"
begin

unbundle bit_operations_syntax

text \<open>
  Shared vocabulary of the development: the machine integer types of the C++ code, the
  little-endian image of an integer in memory, the memory overwrite that \<open>memcpy\<close> performs,
  the error numbers, and the two collections of facts the component theories fill
  (\<open>codec_simps\<close> for symbolic execution of the buffer operations, \<open>step_simps\<close> for the
  handlers of the state machines).
\<close>

named_theorems codec_simps "symbolic execution of the pack and unpack operations"
named_theorems step_simps "unfolding of the handlers of the state machines"

section \<open>Machine integers and bytes\<close>

type_synonym u8 = "8 word"
type_synonym u16 = "16 word"
type_synonym u32 = "32 word"
type_synonym u64 = "64 word"
type_synonym bytes = "u8 list"

abbreviation EINVAL :: int where "EINVAL \<equiv> 22"
abbreviation EEXIST :: int where "EEXIST \<equiv> 17"

definition sizeof :: "'a::len word \<Rightarrow> nat" where
  "sizeof w = LENGTH('a) div 8"

definition le_bytes :: "'a::len word \<Rightarrow> bytes" where
  "le_bytes w = map (\<lambda>i. ucast (drop_bit (8 * i) w)) [0..<LENGTH('a) div 8]"

fun of_le_bytes :: "bytes \<Rightarrow> 'a::len word" where
  "of_le_bytes [] = 0"
| "of_le_bytes (b # bs) = ucast b OR push_bit 8 (of_le_bytes bs)"

lemma length_le_bytes [simp]: "length (le_bytes w) = sizeof w"
  by (simp add: le_bytes_def sizeof_def)

lemma sizeof_u8 [simp]: "sizeof (w :: u8) = 1"
  by (simp add: sizeof_def)

lemma sizeof_u16 [simp]: "sizeof (w :: u16) = 2"
  by (simp add: sizeof_def)

lemma sizeof_u32 [simp]: "sizeof (w :: u32) = 4"
  by (simp add: sizeof_def)

lemma sizeof_u64 [simp]: "sizeof (w :: u64) = 8"
  by (simp add: sizeof_def)

lemma bit_of_le_bytes:
  "bit (of_le_bytes bs :: 'a::len word) n \<longleftrightarrow>
     n < LENGTH('a) \<and> n div 8 < length bs \<and> bit (bs ! (n div 8)) (n mod 8)"
proof (induction bs arbitrary: n)
  case Nil
  then show ?case by simp
next
  case (Cons b bs)
  show ?case
  proof (cases "n < 8")
    case True
    then show ?thesis
      by (auto simp: bit_or_iff bit_push_bit_iff bit_ucast_iff)
  next
    case False
    then obtain m where m: "n = 8 + m"
      by (metis le_add_diff_inverse not_less)
    have "\<not> bit b (8 + m)" and "(8 + m) div 8 = Suc (m div 8)"
      by (auto dest: bit_imp_le_length)
    with Cons.IH [of m] show ?thesis
      by (auto simp: m bit_or_iff bit_push_bit_iff bit_ucast_iff)
  qed
qed

lemma bit_le_bytes:
  "i < LENGTH('a) div 8 \<Longrightarrow> bit (le_bytes (w :: 'a::len word) ! i) n \<longleftrightarrow> n < 8 \<and> bit w (8 * i + n)"
  by (auto simp: le_bytes_def bit_ucast_iff bit_drop_bit_eq add.commute)

lemma of_le_bytes_le_bytes:
  assumes "8 dvd LENGTH('a)"
  shows "of_le_bytes (le_bytes w) = (w :: 'a::len word)"
proof (rule bit_word_eqI)
  fix n
  assume "n < LENGTH('a)"
  moreover from this assms have "n div 8 < LENGTH('a) div 8"
    by (auto elim!: dvdE)
  ultimately show "bit (of_le_bytes (le_bytes w) :: 'a word) n \<longleftrightarrow> bit w n"
    by (simp add: bit_of_le_bytes bit_le_bytes sizeof_def)
qed

lemma le_bytes_of_le_bytes:
  assumes "length bs = LENGTH('a) div 8" and "8 dvd LENGTH('a)"
  shows "le_bytes (of_le_bytes bs :: 'a::len word) = bs"
proof (rule nth_equalityI)
  show "length (le_bytes (of_le_bytes bs :: 'a word)) = length bs"
    using assms by (simp add: sizeof_def)
next
  fix i
  assume "i < length (le_bytes (of_le_bytes bs :: 'a word))"
  then have i: "i < LENGTH('a) div 8"
    by (simp add: sizeof_def)
  show "le_bytes (of_le_bytes bs :: 'a word) ! i = bs ! i"
  proof (rule bit_word_eqI)
    fix n
    assume n: "n < LENGTH(8)"
    from i n assms(2) have "8 * i + n < LENGTH('a)"
      by (auto elim!: dvdE)
    with i n assms(1) show "bit (le_bytes (of_le_bytes bs :: 'a word) ! i) n \<longleftrightarrow> bit (bs ! i) n"
      by (simp add: bit_le_bytes bit_of_le_bytes)
  qed
qed

lemma le_bytes_u8 [simp]: "le_bytes (b :: u8) = [b]"
  by (simp add: le_bytes_def)

lemma le_bytes_inj:
  assumes "8 dvd LENGTH('a)"
  shows "le_bytes (v :: 'a::len word) = le_bytes w \<longleftrightarrow> v = w"
  by (metis assms of_le_bytes_le_bytes)

section \<open>Writing into memory\<close>

definition overwrite :: "nat \<Rightarrow> bytes \<Rightarrow> bytes \<Rightarrow> bytes" where
  "overwrite pos bs mem = take pos mem @ bs @ drop (pos + length bs) mem"

lemma length_overwrite [simp]:
  "pos + length bs \<le> length mem \<Longrightarrow> length (overwrite pos bs mem) = length mem"
  by (simp add: overwrite_def)

lemma overwrite_append [simp]:
  "overwrite (length pre) bs (pre @ suf) = pre @ bs @ drop (length bs) suf"
  by (simp add: overwrite_def)

section \<open>Interface of a byte codec\<close>

text \<open>
  An encoder and a decoder that peels the encoded value off the front of a byte string. The laws
  say that the decoder undoes the encoder in any context and accepts nothing else. The clients are
  the integers of \<open>PackBuffer\<close> and \<open>UnpackBuffer\<close> and the records made of them.
\<close>

locale byte_codec =
  fixes enc :: "'a \<Rightarrow> bytes" and dec :: "bytes \<Rightarrow> ('a \<times> bytes) option"
  assumes dec_enc: "dec (enc x @ r) = Some (x, r)"
    and dec_sound: "dec bs = Some (x, r) \<Longrightarrow> bs = enc x @ r"
begin

lemma dec_iff: "dec bs = Some (x, r) \<longleftrightarrow> bs = enc x @ r"
  by (auto simp: dec_enc dest: dec_sound)

lemma enc_prefix_free: "enc x @ r = enc y @ s \<Longrightarrow> x = y \<and> r = s"
proof -
  assume "enc x @ r = enc y @ s"
  then have "Some (x, r) = Some (y, s)"
    by (simp only: dec_enc [symmetric])
  then show ?thesis by simp
qed

lemma enc_inj: "enc x = enc y \<longleftrightarrow> x = y"
  using enc_prefix_free [of x "[]" y "[]"] by blast

lemma concat_inj:
  "length xs = length ys \<Longrightarrow> concat (map enc xs) = concat (map enc ys) \<Longrightarrow> xs = ys"
proof (induction xs ys rule: list_induct2)
  case (Cons x xs y ys)
  then have "enc x @ concat (map enc xs) = enc y @ concat (map enc ys)"
    by simp
  then have "x = y" "concat (map enc xs) = concat (map enc ys)"
    by (auto dest!: enc_prefix_free)
  with Cons.IH show ?case by simp
qed simp

end

locale fixed_codec = byte_codec +
  fixes width :: nat
  assumes enc_width: "length (enc x) = width"
begin

lemma dec_None_iff: "dec bs = None \<longleftrightarrow> (\<nexists>x r. bs = enc x @ r)"
  by (metis dec_iff not_Some_eq surj_pair)

lemma dec_short: "length bs < width \<Longrightarrow> dec bs = None"
  by (auto simp: dec_None_iff enc_width)

lemma length_concat_enc: "length (concat (map enc xs)) = width * length xs"
  by (induction xs) (simp_all add: enc_width)

end

section \<open>Interface of a transition system with an invariant\<close>

inductive reach :: "('s \<Rightarrow> bool) \<Rightarrow> ('s \<Rightarrow> 's \<Rightarrow> bool) \<Rightarrow> 's \<Rightarrow> bool"
  for init :: "'s \<Rightarrow> bool" and step :: "'s \<Rightarrow> 's \<Rightarrow> bool" where
  reach_init: "init s \<Longrightarrow> reach init step s"
| reach_step: "reach init step s \<Longrightarrow> step s t \<Longrightarrow> reach init step t"

locale invariant_system =
  fixes init :: "'s \<Rightarrow> bool" and step :: "'s \<Rightarrow> 's \<Rightarrow> bool" and inv :: "'s \<Rightarrow> bool"
  assumes inv_init: "init s \<Longrightarrow> inv s"
    and inv_step: "inv s \<Longrightarrow> step s t \<Longrightarrow> inv t"
begin

lemma reach_inv: "reach init step s \<Longrightarrow> inv s"
  by (induction rule: reach.induct) (auto intro: inv_init inv_step)

lemma reach_steps: "reach init step s \<Longrightarrow> step\<^sup>*\<^sup>* s t \<Longrightarrow> reach init step t"
  by (rotate_tac 1, induction rule: rtranclp_induct) (auto intro: reach_step)

lemma steps_inv: "inv s \<Longrightarrow> step\<^sup>*\<^sup>* s t \<Longrightarrow> inv t"
  by (rotate_tac 1, induction rule: rtranclp_induct) (auto intro: inv_step)

end

end
