(* ===== verification/Pack_Buffer.thy ===== *)
theory Pack_Buffer
  imports Prelude
begin

text \<open>
  The serialisation buffers of \<open>MessagePackUnpackUtils.hpp\<close>. A \<open>PackBuffer\<close> is a window into the
  memory of its caller: \<open>pb_mem\<close> is that memory, \<open>pb_pos\<close> the start of the remaining span. An
  \<open>UnpackBuffer\<close> reads only, so its remaining span is enough. Both carry a sticky error.
  \<open>pack_raw\<close> and \<open>unpack_raw\<close> are the common bodies of the templates, on the bytes \<open>memcpy\<close> moves.
\<close>

section \<open>Host byte order\<close>

datatype endian = LittleEndian | BigEndian

definition memory_image :: "endian \<Rightarrow> 'a::len word \<Rightarrow> bytes" where
  "memory_image host w = (case host of LittleEndian \<Rightarrow> le_bytes w | BigEndian \<Rightarrow> rev (le_bytes w))"

definition of_memory_image :: "endian \<Rightarrow> bytes \<Rightarrow> 'a::len word" where
  "of_memory_image host bs =
     (case host of LittleEndian \<Rightarrow> of_le_bytes bs | BigEndian \<Rightarrow> of_le_bytes (rev bs))"

definition byteswap :: "'a::len word \<Rightarrow> 'a word" where
  "byteswap w = of_le_bytes (rev (le_bytes w))"

text \<open>\<open>htobe16\<close> swaps on a little-endian host and is the identity on a big-endian one.\<close>

definition htobe16 :: "endian \<Rightarrow> u16 \<Rightarrow> u16" where
  "htobe16 host w = (case host of LittleEndian \<Rightarrow> byteswap w | BigEndian \<Rightarrow> w)"

section \<open>PackBuffer\<close>

record pack_buffer =
  pb_mem :: bytes
  pb_pos :: nat
  pb_error :: int

definition PackBuffer :: "bytes \<Rightarrow> pack_buffer" where
  "PackBuffer buf = \<lparr>pb_mem = buf, pb_pos = 0, pb_error = 0\<rparr>"

definition pb_size :: "pack_buffer \<Rightarrow> nat" where
  "pb_size pb = length (pb_mem pb) - pb_pos pb"

definition pack_raw :: "bytes \<Rightarrow> pack_buffer \<Rightarrow> int \<times> pack_buffer" where
  "pack_raw img pb =
     (if pb_error pb \<noteq> 0 then (pb_error pb, pb)
      else if pb_size pb < length img then (EINVAL, pb\<lparr>pb_error := EINVAL\<rparr>)
      else (0, pb\<lparr>pb_mem := overwrite (pb_pos pb) img (pb_mem pb),
                  pb_pos := pb_pos pb + length img\<rparr>))"

definition pack_on :: "endian \<Rightarrow> 'a::len word \<Rightarrow> pack_buffer \<Rightarrow> int \<times> pack_buffer" where
  "pack_on host data pb =
     (let data = (if sizeof data > 1 \<and> host \<noteq> LittleEndian then byteswap data else data)
      in pack_raw (memory_image host data) pb)"

abbreviation pack :: "'a::len word \<Rightarrow> pack_buffer \<Rightarrow> int \<times> pack_buffer" where
  "pack \<equiv> pack_on LittleEndian"

text \<open>A \<open>buffer.pack(x);\<close> statement whose return value the code discards.\<close>

definition put_on :: "endian \<Rightarrow> 'a::len word \<Rightarrow> pack_buffer \<Rightarrow> pack_buffer" where
  "put_on host data pb = snd (pack_on host data pb)"

abbreviation put :: "'a::len word \<Rightarrow> pack_buffer \<Rightarrow> pack_buffer" where
  "put \<equiv> put_on LittleEndian"

section \<open>UnpackBuffer\<close>

record unpack_buffer =
  ub_rest :: bytes
  ub_error :: int

definition UnpackBuffer :: "bytes \<Rightarrow> unpack_buffer" where
  "UnpackBuffer buf = \<lparr>ub_rest = buf, ub_error = 0\<rparr>"

text \<open>
  \<open>unpack\<close> writes through a reference: on failure the variable keeps the value it had, so the old
  value is an argument and the new one a result.
\<close>

definition unpack_on :: "endian \<Rightarrow> 'a::len word \<Rightarrow> unpack_buffer \<Rightarrow> int \<times> 'a word \<times> unpack_buffer" where
  "unpack_on host old ub =
     (if ub_error ub \<noteq> 0 then (ub_error ub, old, ub)
      else if length (ub_rest ub) < sizeof old then (EINVAL, old, ub\<lparr>ub_error := EINVAL\<rparr>)
      else let data = of_memory_image host (take (sizeof old) (ub_rest ub));
               data = (if sizeof old > 1 \<and> host \<noteq> LittleEndian then byteswap data else data)
           in (0, data, ub\<lparr>ub_rest := drop (sizeof old) (ub_rest ub)\<rparr>))"

abbreviation unpack :: "'a::len word \<Rightarrow> unpack_buffer \<Rightarrow> int \<times> 'a word \<times> unpack_buffer" where
  "unpack \<equiv> unpack_on LittleEndian"

definition skip :: "nat \<Rightarrow> unpack_buffer \<Rightarrow> int \<times> unpack_buffer" where
  "skip n ub =
     (if ub_error ub \<noteq> 0 then (ub_error ub, ub)
      else if length (ub_rest ub) < n then (EINVAL, ub\<lparr>ub_error := EINVAL\<rparr>)
      else (0, ub\<lparr>ub_rest := drop n (ub_rest ub)\<rparr>))"

text \<open>A \<open>buffer.unpack(x);\<close> statement whose return value the code discards.\<close>

definition get_on :: "endian \<Rightarrow> 'a::len word \<Rightarrow> unpack_buffer \<Rightarrow> 'a word \<times> unpack_buffer" where
  "get_on host old ub = snd (unpack_on host old ub)"

abbreviation get :: "'a::len word \<Rightarrow> unpack_buffer \<Rightarrow> 'a word \<times> unpack_buffer" where
  "get \<equiv> get_on LittleEndian"

section \<open>The byte order on the wire does not depend on the host\<close>

lemma le_bytes_byteswap:
  "8 dvd LENGTH('a) \<Longrightarrow> le_bytes (byteswap (w :: 'a::len word)) = rev (le_bytes w)"
  by (simp add: byteswap_def le_bytes_of_le_bytes sizeof_def)

lemma byteswap_single:
  "8 dvd LENGTH('a) \<Longrightarrow> sizeof (w :: 'a::len word) \<le> 1 \<Longrightarrow> rev (le_bytes w) = le_bytes w"
  by (cases "le_bytes w" rule: list.exhaust)
    (auto simp flip: length_le_bytes)

lemma pack_on_eq:
  "8 dvd LENGTH('a) \<Longrightarrow> pack_on host (w :: 'a::len word) pb = pack_raw (le_bytes w) pb"
  by (cases host) (auto simp: pack_on_def Let_def memory_image_def le_bytes_byteswap byteswap_single)

definition put_raw :: "bytes \<Rightarrow> pack_buffer \<Rightarrow> pack_buffer" where
  "put_raw img pb = snd (pack_raw img pb)"

lemma put_on_eq:
  "8 dvd LENGTH('a) \<Longrightarrow> put_on host (w :: 'a::len word) pb = put_raw (le_bytes w) pb"
  by (simp add: put_on_def put_raw_def pack_on_eq)

lemma pack_on_fst:
  "8 dvd LENGTH('a) \<Longrightarrow>
     pack_on host (w :: 'a::len word) pb = (pb_error (put_on host w pb), put_on host w pb)"
  by (simp add: put_on_eq pack_on_eq put_raw_def) (simp add: pack_raw_def)

definition take_word :: "bytes \<Rightarrow> ('a::len word \<times> bytes) option" where
  "take_word bs =
     (if length bs < LENGTH('a) div 8 then None
      else Some (of_le_bytes (take (LENGTH('a) div 8) bs), drop (LENGTH('a) div 8) bs))"

lemma byteswap_of_be:
  assumes "8 dvd LENGTH('a)" and "length bs = LENGTH('a) div 8"
  shows "byteswap (of_le_bytes (rev bs) :: 'a::len word) = of_le_bytes bs"
  using assms by (simp add: byteswap_def le_bytes_of_le_bytes)

lemma single_of_be: "length bs \<le> 1 \<Longrightarrow> rev bs = bs"
  by (cases bs) auto

lemma unpack_on_eq:
  assumes "8 dvd LENGTH('a)"
  shows "unpack_on host (old :: 'a::len word) ub =
    (if ub_error ub \<noteq> 0 then (ub_error ub, old, ub)
     else case take_word (ub_rest ub) of
       None \<Rightarrow> (EINVAL, old, ub\<lparr>ub_error := EINVAL\<rparr>)
     | Some (v, r) \<Rightarrow> (0, v, ub\<lparr>ub_rest := r\<rparr>))"
  using assms
  by (cases host) (auto simp: unpack_on_def take_word_def of_memory_image_def sizeof_def Let_def
      byteswap_of_be single_of_be not_less)

lemma take_word_le_bytes:
  "8 dvd LENGTH('a) \<Longrightarrow> take_word (le_bytes w @ r) = Some (w :: 'a::len word, r)"
  by (simp add: take_word_def of_le_bytes_le_bytes flip: sizeof_def [of w])

lemma take_word_sound:
  "8 dvd LENGTH('a) \<Longrightarrow> take_word bs = Some (w :: 'a::len word, r) \<Longrightarrow> bs = le_bytes w @ r"
  by (auto simp: take_word_def le_bytes_of_le_bytes split: if_splits)

interpretation u8c: fixed_codec "le_bytes :: u8 \<Rightarrow> bytes" take_word 1
  by unfold_locales (use take_word_le_bytes [where 'a = 8] take_word_sound [where 'a = 8] in simp_all)

interpretation u16c: fixed_codec "le_bytes :: u16 \<Rightarrow> bytes" take_word 2
  by unfold_locales (auto simp: take_word_le_bytes intro: take_word_sound)

interpretation u32c: fixed_codec "le_bytes :: u32 \<Rightarrow> bytes" take_word 4
  by unfold_locales (auto simp: take_word_le_bytes intro: take_word_sound)

interpretation u64c: fixed_codec "le_bytes :: u64 \<Rightarrow> bytes" take_word 8
  by unfold_locales (auto simp: take_word_le_bytes intro: take_word_sound)

section \<open>A sequence of pack statements\<close>

text \<open>
  \<open>packed pre suf\<close> is the buffer that has written \<open>pre\<close> and still has the bytes \<open>suf\<close> of its
  memory in front of it. A sequence of pack statements writes all its items when they fit;
  otherwise it writes a prefix of them and ends with the sticky error.
\<close>

definition packed :: "bytes \<Rightarrow> bytes \<Rightarrow> pack_buffer" where
  "packed pre suf = \<lparr>pb_mem = pre @ suf, pb_pos = length pre, pb_error = 0\<rparr>"

lemma PackBuffer_packed: "PackBuffer buf = packed [] buf"
  by (simp add: PackBuffer_def packed_def)

lemma put_raw_packed:
  "length img \<le> length suf \<Longrightarrow> put_raw img (packed pre suf) = packed (pre @ img) (drop (length img) suf)"
  by (simp add: put_raw_def pack_raw_def packed_def pb_size_def)

lemma put_raw_full:
  "length suf < length img \<Longrightarrow>
     put_raw img (packed pre suf) = (packed pre suf)\<lparr>pb_error := EINVAL\<rparr>"
  by (simp add: put_raw_def pack_raw_def packed_def pb_size_def)

lemma put_raw_error: "pb_error pb \<noteq> 0 \<Longrightarrow> put_raw img pb = pb"
  by (simp add: put_raw_def pack_raw_def)

fun put_all :: "bytes list \<Rightarrow> pack_buffer \<Rightarrow> pack_buffer" where
  "put_all [] pb = pb"
| "put_all (img # imgs) pb = put_all imgs (put_raw img pb)"

lemma put_all_error: "pb_error pb \<noteq> 0 \<Longrightarrow> put_all imgs pb = pb"
  by (induction imgs) (auto simp: put_raw_error)

lemma put_all_fits:
  "length (concat imgs) \<le> length suf \<Longrightarrow>
     put_all imgs (packed pre suf) = packed (pre @ concat imgs) (drop (length (concat imgs)) suf)"
  by (induction imgs arbitrary: pre suf) (auto simp: put_raw_packed add.commute)

lemma put_all_short:
  assumes "length suf < length (concat imgs)"
  shows "\<exists>k \<le> length suf. pb_error (put_all imgs (packed pre suf)) = EINVAL \<and>
           pb_mem (put_all imgs (packed pre suf)) = pre @ take k (concat imgs) @ drop k suf"
  using assms
proof (induction imgs arbitrary: pre suf)
  case Nil
  then show ?case by simp
next
  case (Cons img imgs)
  show ?case
  proof (cases "length img \<le> length suf")
    case True
    with Cons.prems have "length (drop (length img) suf) < length (concat imgs)"
      by simp
    from Cons.IH [OF this, of "pre @ img"] True obtain k where
      "k \<le> length suf - length img"
      "pb_error (put_all (img # imgs) (packed pre suf)) = EINVAL"
      "pb_mem (put_all (img # imgs) (packed pre suf))
         = (pre @ img) @ take k (concat imgs) @ drop k (drop (length img) suf)"
      by (auto simp: put_raw_packed)
    with True show ?thesis
      by (intro exI [of _ "length img + k"]) (auto simp: add.commute)
  next
    case False
    then have "put_raw img (packed pre suf) = (packed pre suf)\<lparr>pb_error := EINVAL\<rparr>"
      by (intro put_raw_full) simp
    then show ?thesis
      by (intro exI [of _ 0]) (simp add: put_all_error, simp add: packed_def)
  qed
qed

section \<open>Symbolic execution of unpack statements\<close>

abbreviation reader :: "bytes \<Rightarrow> unpack_buffer" where
  "reader bs \<equiv> \<lparr>ub_rest = bs, ub_error = 0\<rparr>"

lemma UnpackBuffer_reader [simp, codec_simps]: "UnpackBuffer bs = reader bs"
  by (simp add: UnpackBuffer_def)

lemma unpack_u8_Cons [codec_simps]: "unpack_on host (old :: u8) (reader (b # r)) = (0, b, reader r)"
  using take_word_le_bytes [where 'a = 8, of b r] by (simp add: unpack_on_eq)

lemma unpack_u16_app [codec_simps]:
  "unpack_on host (old :: u16) (reader (le_bytes w @ r)) = (0, w, reader r)"
  by (simp add: unpack_on_eq u16c.dec_enc)

lemma unpack_u32_app [codec_simps]:
  "unpack_on host (old :: u32) (reader (le_bytes w @ r)) = (0, w, reader r)"
  by (simp add: unpack_on_eq u32c.dec_enc)

lemma unpack_u64_app [codec_simps]:
  "unpack_on host (old :: u64) (reader (le_bytes w @ r)) = (0, w, reader r)"
  by (simp add: unpack_on_eq u64c.dec_enc)

lemma get_u8_Cons [codec_simps]: "get_on host (old :: u8) (reader (b # r)) = (b, reader r)"
  by (simp add: get_on_def unpack_u8_Cons)

lemma get_u16_app [codec_simps]:
  "get_on host (old :: u16) (reader (le_bytes w @ r)) = (w, reader r)"
  by (simp add: get_on_def unpack_u16_app)

lemma get_u32_app [codec_simps]:
  "get_on host (old :: u32) (reader (le_bytes w @ r)) = (w, reader r)"
  by (simp add: get_on_def unpack_u32_app)

lemma get_u64_app [codec_simps]:
  "get_on host (old :: u64) (reader (le_bytes w @ r)) = (w, reader r)"
  by (simp add: get_on_def unpack_u64_app)

lemma skip_app [codec_simps]:
  "length xs = n \<Longrightarrow> skip n (reader (xs @ r)) = (0, reader r)"
  by (auto simp: skip_def)

text \<open>Inversion: what a successful statement says about the bytes it read.\<close>

lemma unpack_ok_iff:
  assumes "8 dvd LENGTH('a)"
  shows "unpack_on host (old :: 'a::len word) ub = (0, v, ub') \<longleftrightarrow>
    ub_error ub = 0 \<and> ub_rest ub = le_bytes v @ ub_rest ub' \<and> ub' = ub\<lparr>ub_rest := ub_rest ub'\<rparr>"
proof -
  have iff: "take_word bs = Some (w :: 'a word, r) \<longleftrightarrow> bs = le_bytes w @ r" for bs w r
    using assms take_word_le_bytes take_word_sound by blast
  have inj: "le_bytes a @ b = le_bytes v @ c \<longleftrightarrow> a = v \<and> b = c" for a :: "'a word" and b c
  proof -
    have "length (le_bytes a) = length (le_bytes v)" by (simp add: sizeof_def)
    then show ?thesis using assms by (simp add: le_bytes_inj)
  qed
  show ?thesis
    using assms by (auto simp: unpack_on_eq iff inj take_word_le_bytes split: option.splits)
qed

lemma unpack_rc:
  assumes "8 dvd LENGTH('a)" and "unpack_on host (old :: 'a::len word) ub = (rc, v, ub')"
  shows "rc = ub_error ub'"
  using assms by (auto simp: unpack_on_eq split: option.splits if_splits)

lemma unpack_error_range:
  assumes "8 dvd LENGTH('a)" and "unpack_on host (old :: 'a::len word) ub = (rc, v, ub')"
    and "ub_error ub = 0" and "rc \<noteq> 0"
  shows "rc = EINVAL" and "v = old"
  using assms by (auto simp: unpack_on_eq split: option.splits if_splits)

lemma get_ok:
  assumes "8 dvd LENGTH('a)" and "get_on host (old :: 'a::len word) ub = (v, ub')"
    and "ub_error ub' = 0"
  shows "ub_error ub = 0" and "ub_rest ub = le_bytes v @ ub_rest ub'"
  using assms
  by (auto simp: get_on_def unpack_on_eq dest!: take_word_sound [OF assms(1)]
      split: option.splits if_splits)

lemma skip_ok:
  "skip n ub = (rc, ub') \<Longrightarrow> ub_error ub' = 0 \<Longrightarrow>
     ub_error ub = 0 \<and> n \<le> length (ub_rest ub) \<and> ub_rest ub' = drop n (ub_rest ub) \<and> rc = 0"
  by (auto simp: skip_def split: if_splits)

end
