(* ===== verification/Ocp_Vdm.thy ===== *)
theory Ocp_Vdm
  imports Pack_Buffer
begin

text \<open>
  The OCP accelerator management layer (\<open>OcpMctpVdm.hpp\<close>, \<open>OcpMctpVdm.cpp\<close>): the message header
  of the vendor defined MCTP messages, completion and reason codes, events, and the aggregate
  (tag, length, value) responses. Enumerations that the code fills by \<open>static_cast\<close> from a received
  byte can hold any byte, so they are bytes here, with the enumerators as constants. An output
  parameter is an argument (its old value) and a component of the result.
\<close>

section \<open>Constants\<close>

definition ocpType :: u8 where [simp]: "ocpType = 8"
definition ocpVersion :: u8 where [simp]: "ocpVersion = 9"
definition ocpTypeBitOffset :: nat where [simp]: "ocpTypeBitOffset = 4"
definition ocpTypeBitMask :: u8 where [simp]: "ocpTypeBitMask = 0b11110000"
definition ocpVersionBitMask :: u8 where [simp]: "ocpVersionBitMask = 0b00001111"
definition instanceIdBitMask :: u8 where [simp]: "instanceIdBitMask = 0b00011111"
definition instanceIdReservedBitMask :: u8 where [simp]: "instanceIdReservedBitMask = 0b00100000"
definition datagramBitMask :: u8 where [simp]: "datagramBitMask = 0b01000000"
definition requestBitMask :: u8 where [simp]: "requestBitMask = 0b10000000"
definition eventAckRequiredBitMask :: u8 where [simp]: "eventAckRequiredBitMask = 0b00010000"
definition eventVersionBitMask :: u8 where [simp]: "eventVersionBitMask = 0b00001111"
definition instanceMax :: u8 where [simp]: "instanceMax = 31"

definition CC_SUCCESS :: u8 where "CC_SUCCESS = 0x00"
definition CC_ERROR :: u8 where [simp]: "CC_ERROR = 0x01"
definition CC_ACCEPTED :: u8 where [simp]: "CC_ACCEPTED = 0x7D"

definition ocp_RESPONSE :: u8 where [simp]: "ocp_RESPONSE = 0"
definition ocp_REQUEST :: u8 where [simp]: "ocp_REQUEST = 2"

definition messageType :: u8 where [simp]: "messageType = 0x7E"
definition messageHeaderSize :: nat where [simp]: "messageHeaderSize = 5"
definition instanceIdOffset :: nat where [simp]: "instanceIdOffset = 2"
definition commonRequestSize :: nat where [simp]: "commonRequestSize = messageHeaderSize + 2"
definition commonResponseSize :: nat where [simp]: "commonResponseSize = messageHeaderSize + 6"
definition eventHeaderSize :: nat where [simp]: "eventHeaderSize = messageHeaderSize + 6"

section \<open>Message header\<close>

definition packHeader ::
  "endian \<Rightarrow> pack_buffer \<Rightarrow> u16 \<Rightarrow> u8 \<Rightarrow> u8 \<Rightarrow> u8 \<Rightarrow> int \<times> pack_buffer" where
  "packHeader host pb pciVendorId ocpMsgType instanceId msgType =
     (if ocpMsgType \<noteq> ocp_RESPONSE \<and> ocpMsgType \<noteq> ocp_REQUEST then (EINVAL, pb)
      else if instanceId > instanceMax then (EINVAL, pb)
      else
        let mid = instanceId AND instanceIdBitMask;
            mid = (if ocpMsgType = ocp_REQUEST then mid OR requestBitMask
                   else mid AND NOT requestBitMask);
            mid = mid AND NOT instanceIdReservedBitMask;
            vt = ocpVersion AND ocpVersionBitMask;
            vt = vt OR (push_bit ocpTypeBitOffset ocpType AND ocpTypeBitMask);
            pb = put_on host (htobe16 host pciVendorId) pb;
            pb = put_on host mid pb;
            pb = put_on host vt pb;
            pb = put_on host msgType pb
        in (0, pb))"

definition unpackHeader ::
  "endian \<Rightarrow> unpack_buffer \<Rightarrow> u16 \<Rightarrow> u8 \<Rightarrow> u8 \<Rightarrow> u8 \<Rightarrow> int \<times> u8 \<times> u8 \<times> u8 \<times> unpack_buffer" where
  "unpackHeader host ub pciVendorId ocpMsgType instanceId msgType =
     (let (vid, ub) = get_on host 0 ub;
          (mid, ub) = get_on host 0 ub;
          (vt, ub) = get_on host 0 ub;
          (msgType, ub) = get_on host msgType ub
      in if ub_error ub \<noteq> 0 then (ub_error ub, ocpMsgType, instanceId, msgType, ub)
         else if vid \<noteq> htobe16 host pciVendorId then (EINVAL, ocpMsgType, instanceId, msgType, ub)
         else
           let instanceId = mid AND instanceIdBitMask;
               ocpMsgType = (if mid AND requestBitMask \<noteq> 0 then ocp_REQUEST else ocp_RESPONSE)
           in if mid AND instanceIdReservedBitMask \<noteq> 0 then (EINVAL, ocpMsgType, instanceId, msgType, ub)
              else if vt AND ocpVersionBitMask \<noteq> ocpVersion
                then (EINVAL, ocpMsgType, instanceId, msgType, ub)
              else if vt AND ocpTypeBitMask \<noteq> push_bit ocpTypeBitOffset ocpType
                then (EINVAL, ocpMsgType, instanceId, msgType, ub)
              else (0, ocpMsgType, instanceId, msgType, ub))"

definition unpackReasonCodeAndCC ::
  "unpack_buffer \<Rightarrow> u8 \<Rightarrow> u16 \<Rightarrow> int \<times> u8 \<times> u16 \<times> unpack_buffer" where
  "unpackReasonCodeAndCC ub cc reasonCode =
     (let (completionCode, ub) = get 0 ub;
          (receivedReasonCode, ub) = get 0 ub
      in if ub_error ub \<noteq> 0 then (ub_error ub, cc, reasonCode, ub)
         else if completionCode = CC_SUCCESS then (0, completionCode, 0, ub)
         else (0, completionCode, receivedReasonCode, ub))"

definition decodeInstanceId :: "bytes \<Rightarrow> u8 \<Rightarrow> int \<times> u8" where
  "decodeInstanceId buf instanceId =
     (if length buf < messageHeaderSize then (EINVAL, instanceId)
      else (0, buf ! instanceIdOffset AND instanceIdBitMask))"

section \<open>Aggregate responses\<close>

text \<open>
  The handler works on the buffer and on its captured variables, here a state \<open>'s\<close>. A failing
  \<open>skip\<close> of an invalid sample is not checked by the code; its error stays in the buffer.
\<close>

type_synonym 's sample_handler = "u8 \<Rightarrow> u8 \<Rightarrow> unpack_buffer \<Rightarrow> 's \<Rightarrow> int \<times> unpack_buffer \<times> 's"

definition sample_length :: "u8 \<Rightarrow> u8" where
  "sample_length tagInfo =
     (let isByteLengthEncoding = 0x80 AND tagInfo \<noteq> 0;
          encodedLength = drop_bit 1 tagInfo AND 0x07
      in if isByteLengthEncoding then encodedLength else push_bit (unat encodedLength) 1)"

fun aggregate_loop :: "nat \<Rightarrow> 's sample_handler \<Rightarrow> unpack_buffer \<Rightarrow> 's \<Rightarrow> int \<times> unpack_buffer \<times> 's" where
  "aggregate_loop 0 handler ub s = (0, ub, s)"
| "aggregate_loop (Suc n) handler ub s =
     (let (rc, tag, ub) = unpack 0 ub in
      if rc \<noteq> 0 then (rc, ub, s)
      else let (rc, tagInfo, ub) = unpack (0 :: u8) ub in
      if rc \<noteq> 0 then (rc, ub, s)
      else let isValid = 0x01 AND tagInfo \<noteq> 0;
               len = sample_length tagInfo
      in if isValid then
           let (rc, ub, s) = handler tag len ub s in
           if rc \<noteq> 0 then (rc, ub, s) else aggregate_loop n handler ub s
         else let (_, ub) = skip (unat len) ub in aggregate_loop n handler ub s)"

definition unpackAggregateResponse ::
  "unpack_buffer \<Rightarrow> 's sample_handler \<Rightarrow> 's \<Rightarrow> int \<times> unpack_buffer \<times> 's" where
  "unpackAggregateResponse ub handler s =
     (let (rc, totalTelemetryCount, ub) = unpack (0 :: u16) ub in
      if rc \<noteq> 0 then (rc, ub, s)
      else aggregate_loop (unat totalTelemetryCount) handler ub s)"

section \<open>Events\<close>

record event_out =
  ev_messageType :: u8
  ev_ackRequired :: bool
  ev_version :: u8
  ev_id :: u8
  ev_class :: u8
  ev_state :: u16
  ev_size :: u8
  ev_data :: bytes

definition decodeEvent :: "bytes \<Rightarrow> u16 \<Rightarrow> event_out \<Rightarrow> int \<times> event_out" where
  "decodeEvent buf pciVendorId ev =
     (let ub = UnpackBuffer buf;
          (vid, ub) = get (0 :: u16) ub;
          (instanceId, ub) = get (0 :: u8) ub;
          (ocpVersionByte, ub) = get (0 :: u8) ub;
          (mt, ub) = get (ev_messageType ev) ub;
          (versionByte, ub) = get (0 :: u8) ub;
          (eid, ub) = get (ev_id ev) ub;
          (ecl, ub) = get (ev_class ev) ub;
          (est, ub) = get (ev_state ev) ub;
          (sz, ub) = get (ev_size ev) ub;
          ev = ev\<lparr>ev_messageType := mt, ev_id := eid, ev_class := ecl, ev_state := est, ev_size := sz\<rparr>
      in if ub_error ub \<noteq> 0 then (ub_error ub, ev)
         else if vid \<noteq> htobe16 LittleEndian pciVendorId then (EINVAL, ev)
         else
           let ev = ev\<lparr>ev_ackRequired := versionByte AND eventAckRequiredBitMask \<noteq> 0,
                       ev_version := versionByte AND eventVersionBitMask\<rparr>
           in if length buf < eventHeaderSize + unat sz then (EINVAL, ev)
              else (0, ev\<lparr>ev_data := take (unat sz) (drop eventHeaderSize buf)\<rparr>))"

section \<open>The header on the wire\<close>

text \<open>The bytes of a header, vendor id most significant byte first.\<close>

definition header_bytes :: "u16 \<Rightarrow> u8 \<Rightarrow> u8 \<Rightarrow> u8 \<Rightarrow> bytes" where
  "header_bytes vid ocpMsgType instanceId msgType =
     rev (le_bytes vid) @ [instanceId OR (if ocpMsgType = ocp_REQUEST then 0x80 else 0), 0x89, msgType]"

lemma iid_masks:
  fixes i :: u8
  assumes "i \<le> 31"
  shows "i AND 31 = i" and "i AND NOT 32 = i" and "(i AND - 129) AND - 33 = i" and "i AND 127 = i"
    and "(i OR 128) AND - 33 = i OR 128" and "(i OR 128) AND 31 = i"
    and "(i OR 128) AND 128 = 128" and "i AND 128 = 0"
    and "i AND 32 = 0" and "(i OR 128) AND 32 = 0" and "i AND 64 = 0" and "(i OR 128) AND 64 = 0"
proof -
  have "unat i < 32" using assms by (simp add: word_le_nat_alt)
  then obtain n where n: "i = word_of_nat n" "n < 32"
    by (intro that [of "unat i"]) simp_all
  have *: "\<forall>n \<in> {..<32}. let i = (word_of_nat n :: u8) in
     i AND 31 = i \<and> i AND NOT 32 = i \<and> (i AND - 129) AND - 33 = i \<and> i AND 127 = i
     \<and> (i OR 128) AND - 33 = i OR 128 \<and> (i OR 128) AND 31 = i
     \<and> (i OR 128) AND 128 = 128 \<and> i AND 128 = 0
     \<and> i AND 32 = 0 \<and> (i OR 128) AND 32 = 0 \<and> i AND 64 = 0 \<and> (i OR 128) AND 64 = 0"
    by (simp add: lessThan_nat_numeral lessThan_Suc)
  from * n show "i AND 31 = i" and "i AND NOT 32 = i" and "(i AND - 129) AND - 33 = i" and "i AND 127 = i"
    and "(i OR 128) AND - 33 = i OR 128" and "(i OR 128) AND 31 = i"
    and "(i OR 128) AND 128 = 128" and "i AND 128 = 0"
    and "i AND 32 = 0" and "(i OR 128) AND 32 = 0" and "i AND 64 = 0" and "(i OR 128) AND 64 = 0"
    by (auto simp: Let_def)
qed

lemma rev_le_bytes_u16: "rev (le_bytes (vid :: u16)) = le_bytes (htobe16 LittleEndian vid)"
  by (simp add: htobe16_def le_bytes_byteswap)

lemma packHeader_put_all:
  assumes "iid \<le> 31" and "mt = ocp_RESPONSE \<or> mt = ocp_REQUEST"
  shows "packHeader LittleEndian pb vid mt iid ty
    = (0, put_all [rev (le_bytes vid), [iid OR (if mt = ocp_REQUEST then 0x80 else 0)], [0x89], [ty]] pb)"
  using assms
  by (auto simp: packHeader_def put_on_eq rev_le_bytes_u16 iid_masks not_less Let_def)

lemma packHeader_packed:
  assumes "iid \<le> 31" and "mt = ocp_RESPONSE \<or> mt = ocp_REQUEST" and "5 \<le> length suf"
  shows "packHeader LittleEndian (packed pre suf) vid mt iid ty
           = (0, packed (pre @ header_bytes vid mt iid ty) (drop 5 suf))"
  by (subst packHeader_put_all [OF assms(1,2)], subst put_all_fits)
    (use assms(3) in \<open>simp_all add: header_bytes_def eval_nat_numeral\<close>)

lemma unpackHeader_header:
  assumes "iid \<le> 31" and "mt = ocp_RESPONSE \<or> mt = ocp_REQUEST"
  shows "unpackHeader LittleEndian (reader (header_bytes vid mt iid ty @ r)) vid mt0 iid0 ty0
           = (0, mt, iid, ty, reader r)"
  using assms
  by (auto simp: unpackHeader_def header_bytes_def rev_le_bytes_u16 codec_simps iid_masks Let_def)

lemma version_byte: "(vt :: u8) AND 15 = 9 \<Longrightarrow> vt AND 240 = 128 \<Longrightarrow> vt = 0x89"
proof -
  assume a: "vt AND 15 = 9" "vt AND 240 = 128"
  have "(15 OR 240 :: u8) = - 1" and "vt AND - 1 = vt" by simp_all
  then have "vt = vt AND (15 OR 240)" by (simp only:)
  also have "\<dots> = (vt AND 15) OR (vt AND 240)"
    by (rule bit.conj_disj_distrib)
  also have "\<dots> = 0x89" by (simp add: a)
  finally show ?thesis .
qed

lemma unpackHeader_sound:
  assumes "unpackHeader LittleEndian ub vid mt0 iid0 ty0 = (0, mt, iid, ty, ub')"
  shows "ub_error ub = 0 \<and> ub_error ub' = 0 \<and>
    (\<exists>mid. ub_rest ub = rev (le_bytes vid) @ [mid, 0x89, ty] @ ub_rest ub' \<and> mid AND 32 = 0 \<and>
       iid = mid AND 31 \<and> mt = (if mid AND 128 \<noteq> 0 then ocp_REQUEST else ocp_RESPONSE))"
proof -
  obtain v ub1 where 1: "get (0 :: u16) ub = (v, ub1)" by (cases "get (0 :: u16) ub")
  obtain mid ub2 where 2: "get (0 :: u8) ub1 = (mid, ub2)" by (cases "get (0 :: u8) ub1")
  obtain vt ub3 where 3: "get (0 :: u8) ub2 = (vt, ub3)" by (cases "get (0 :: u8) ub2")
  obtain t ub4 where 4: "get ty0 ub3 = (t, ub4)" by (cases "get ty0 ub3")
  from assms have f: "ub_error ub4 = 0" "v = htobe16 LittleEndian vid" "vt AND 15 = 9" "vt AND 240 = 128"
     "mid AND 32 = 0" "iid = mid AND 31" "mt = (if mid AND 128 \<noteq> 0 then ocp_REQUEST else ocp_RESPONSE)"
     "ty = t" "ub' = ub4"
    by (simp_all add: unpackHeader_def 1 2 3 4 Let_def split: if_splits)
  note g4 = get_ok [OF _ 4 f(1), simplified]
  note g3 = get_ok [OF _ 3 g4(1), simplified]
  note g2 = get_ok [OF _ 2 g3(1), simplified]
  note g1 = get_ok [OF _ 1 g2(1), simplified]
  show ?thesis
    using f version_byte [OF f(3,4)] g1 g2(2) g3(2) g4(2) by (auto simp: rev_le_bytes_u16)
qed

lemma unpackHeader_rc:
  assumes "ub_error ub = 0" and "unpackHeader LittleEndian ub vid mt0 iid0 ty0 = (rc, mt, iid, ty, ub')"
  shows "rc = 0 \<or> rc = EINVAL"
  using assms
  by (auto simp: unpackHeader_def get_on_def unpack_on_eq Let_def split: option.splits if_splits prod.splits)

end
