(* ===== verification/Gpu_Requests.thy ===== *)
theory Gpu_Requests
  imports Ocp_Vdm
begin

text \<open>
  The request encoders of \<open>NvidiaGpuMctpVdm.cpp\<close>: the enumerations the code casts to a byte, and
  one definition per \<open>encode\<close> function, each returning the return code and the memory of the
  caller's buffer. The abstract specification \<open>encodes\<close> says what a request looks like on the wire;
  every encoder implements it.
\<close>

section \<open>Enumerations and request sizes\<close>

datatype message_type =
    DEVICE_CAPABILITY_DISCOVERY
  | NETWORK_PORT
  | PCIE_LINK
  | PLATFORM_ENVIRONMENTAL

fun message_type_code :: "message_type \<Rightarrow> u8" where
  "message_type_code DEVICE_CAPABILITY_DISCOVERY = 0"
| "message_type_code NETWORK_PORT = 1"
| "message_type_code PCIE_LINK = 2"
| "message_type_code PLATFORM_ENVIRONMENTAL = 3"

datatype device_capability_command =
    GET_SUPPORTED_MESSAGE_TYPES
  | GET_SUPPORTED_COMMAND_CODES
  | SET_CURRENT_EVENT_SOURCES
  | SET_EVENT_SUBSCRIPTION
  | QUERY_DEVICE_IDENTIFICATION

fun device_capability_code :: "device_capability_command \<Rightarrow> u8" where
  "device_capability_code GET_SUPPORTED_MESSAGE_TYPES = 0x01"
| "device_capability_code GET_SUPPORTED_COMMAND_CODES = 0x02"
| "device_capability_code SET_CURRENT_EVENT_SOURCES = 0x5"
| "device_capability_code SET_EVENT_SUBSCRIPTION = 0x6"
| "device_capability_code QUERY_DEVICE_IDENTIFICATION = 0x09"

datatype platform_environmental_command =
    GET_TEMPERATURE_READING
  | READ_THERMAL_PARAMETERS
  | GET_CURRENT_POWER_DRAW
  | GET_MAX_OBSERVED_POWER
  | GET_CURRENT_ENERGY_COUNTER
  | GET_POWER_LIMITS
  | SET_POWER_LIMITS
  | GET_CURRENT_CLOCK_FREQUENCY
  | GET_INVENTORY_INFORMATION
  | GET_DRIVER_INFORMATION
  | GET_VOLTAGE
  | SET_CLOCK_LIMIT
  | GET_CLOCK_LIMIT
  | GET_LEAK_DETECTION_INFO
  | GET_VIOLATION_DURATION
  | GET_CURRENT_UTILIZATION
  | GET_ECC_MODE
  | GET_ECC_ERROR_COUNTS
  | GET_MEMORY_CAPACITY_UTILIZATION

fun platform_environmental_code :: "platform_environmental_command \<Rightarrow> u8" where
  "platform_environmental_code GET_TEMPERATURE_READING = 0x00"
| "platform_environmental_code READ_THERMAL_PARAMETERS = 0x02"
| "platform_environmental_code GET_CURRENT_POWER_DRAW = 0x03"
| "platform_environmental_code GET_MAX_OBSERVED_POWER = 0x04"
| "platform_environmental_code GET_CURRENT_ENERGY_COUNTER = 0x06"
| "platform_environmental_code GET_POWER_LIMITS = 0x07"
| "platform_environmental_code SET_POWER_LIMITS = 0x08"
| "platform_environmental_code GET_CURRENT_CLOCK_FREQUENCY = 0x0B"
| "platform_environmental_code GET_INVENTORY_INFORMATION = 0x0C"
| "platform_environmental_code GET_DRIVER_INFORMATION = 0x0E"
| "platform_environmental_code GET_VOLTAGE = 0x0F"
| "platform_environmental_code SET_CLOCK_LIMIT = 0x10"
| "platform_environmental_code GET_CLOCK_LIMIT = 0x11"
| "platform_environmental_code GET_LEAK_DETECTION_INFO = 0x17"
| "platform_environmental_code GET_VIOLATION_DURATION = 0x45"
| "platform_environmental_code GET_CURRENT_UTILIZATION = 0x47"
| "platform_environmental_code GET_ECC_MODE = 0x4F"
| "platform_environmental_code GET_ECC_ERROR_COUNTS = 0x7D"
| "platform_environmental_code GET_MEMORY_CAPACITY_UTILIZATION = 0xAD"

datatype network_port_command =
    GetEthernetPortTelemetryCounters
  | GetPortNetworkAddresses

fun network_port_code :: "network_port_command \<Rightarrow> u8" where
  "network_port_code GetEthernetPortTelemetryCounters = 0x0F"
| "network_port_code GetPortNetworkAddresses = 0x11"

datatype pcie_link_command =
    QueryScalarGroupTelemetryV1
  | ListPCIePorts
  | QueryScalarGroupTelemetryV2

fun pcie_link_code :: "pcie_link_command \<Rightarrow> u8" where
  "pcie_link_code QueryScalarGroupTelemetryV1 = 0x04"
| "pcie_link_code ListPCIePorts = 0x07"
| "pcie_link_code QueryScalarGroupTelemetryV2 = 0x24"

datatype pcie_scalar_group_id =
    PciIdentity
  | LinkSpeedWidth
  | AerErrorCounters
  | RecoveryCounter
  | DetailedErrorCounters
  | ThroughputCounters
  | LtssmState
  | BarInformation
  | PerLaneErrorCounts
  | AerStatus
  | OutboundTlpCounters

fun pcie_scalar_group_code :: "pcie_scalar_group_id \<Rightarrow> u8" where
  "pcie_scalar_group_code PciIdentity = 0"
| "pcie_scalar_group_code LinkSpeedWidth = 1"
| "pcie_scalar_group_code AerErrorCounters = 2"
| "pcie_scalar_group_code RecoveryCounter = 3"
| "pcie_scalar_group_code DetailedErrorCounters = 4"
| "pcie_scalar_group_code ThroughputCounters = 5"
| "pcie_scalar_group_code LtssmState = 6"
| "pcie_scalar_group_code BarInformation = 7"
| "pcie_scalar_group_code PerLaneErrorCounts = 8"
| "pcie_scalar_group_code AerStatus = 9"
| "pcie_scalar_group_code OutboundTlpCounters = 10"

datatype pcie_port_type =
    UPSTREAM
  | DOWNSTREAM

fun pcie_port_type_code :: "pcie_port_type \<Rightarrow> u8" where
  "pcie_port_type_code UPSTREAM = 0"
| "pcie_port_type_code DOWNSTREAM = 1"

datatype set_power_limits_action =
    NEW_LIMIT
  | DEFAULT_LIMIT

fun set_power_limits_action_code :: "set_power_limits_action \<Rightarrow> u8" where
  "set_power_limits_action_code NEW_LIMIT = 0"
| "set_power_limits_action_code DEFAULT_LIMIT = 1"

datatype set_power_limits_persistence =
    ONE_SHOT
  | PERSISTENT

fun set_power_limits_persistence_code :: "set_power_limits_persistence \<Rightarrow> u8" where
  "set_power_limits_persistence_code ONE_SHOT = 0"
| "set_power_limits_persistence_code PERSISTENT = 1"

datatype clock_type =
    GRAPHICS_CLOCK
  | MEMORY_CLOCK

fun clock_type_code :: "clock_type \<Rightarrow> u8" where
  "clock_type_code GRAPHICS_CLOCK = 0"
| "clock_type_code MEMORY_CLOCK = 1"

datatype clock_limit_flag =
    PERSISTENCE
  | CLEAR

fun clock_limit_flag_code :: "clock_limit_flag \<Rightarrow> u8" where
  "clock_limit_flag_code PERSISTENCE = 1"
| "clock_limit_flag_code CLEAR = 3"

definition queryDeviceIdentificationRequestSize :: nat where [simp]: "queryDeviceIdentificationRequestSize = commonRequestSize"
definition getSupportedMessageTypesRequestSize :: nat where [simp]: "getSupportedMessageTypesRequestSize = commonRequestSize"
definition getSupportedCommandCodesRequestSize :: nat where [simp]: "getSupportedCommandCodesRequestSize = commonRequestSize + 1"
definition getLeakDetectionInfoRequestSize :: nat where [simp]: "getLeakDetectionInfoRequestSize = commonRequestSize"
definition getNumericSensorReadingRequestSize :: nat where [simp]: "getNumericSensorReadingRequestSize = commonRequestSize + 1"
definition getTemperatureReadingRequestSize :: nat where [simp]: "getTemperatureReadingRequestSize = getNumericSensorReadingRequestSize"
definition readThermalParametersRequestSize :: nat where [simp]: "readThermalParametersRequestSize = getNumericSensorReadingRequestSize"
definition getPowerDrawRequestSize :: nat where [simp]: "getPowerDrawRequestSize = commonRequestSize + 2"
definition getPowerLimitsRequestSize :: nat where [simp]: "getPowerLimitsRequestSize = commonRequestSize + 4"
definition setPowerLimitsRequestSize :: nat where [simp]: "setPowerLimitsRequestSize = commonRequestSize + 10"
definition getCurrentEnergyCounterRequestSize :: nat where [simp]: "getCurrentEnergyCounterRequestSize = getNumericSensorReadingRequestSize"
definition getVoltageRequestSize :: nat where [simp]: "getVoltageRequestSize = getNumericSensorReadingRequestSize"
definition getCurrentUtilizationRequestSize :: nat where [simp]: "getCurrentUtilizationRequestSize = commonRequestSize"
definition getViolationDurationRequestSize :: nat where [simp]: "getViolationDurationRequestSize = commonRequestSize"
definition getMemoryCapacityUtilizationRequestSize :: nat where [simp]: "getMemoryCapacityUtilizationRequestSize = commonRequestSize"
definition queryScalarGroupTelemetryV1RequestSize :: nat where [simp]: "queryScalarGroupTelemetryV1RequestSize = commonRequestSize + 2"
definition queryScalarGroupTelemetryV2RequestSize :: nat where [simp]: "queryScalarGroupTelemetryV2RequestSize = commonRequestSize + 3"
definition getPortNetworkAddressesRequestSize :: nat where [simp]: "getPortNetworkAddressesRequestSize = commonRequestSize + 2"
definition getEthernetPortTelemetryCountersRequestSize :: nat where [simp]: "getEthernetPortTelemetryCountersRequestSize = commonRequestSize + 2"
definition getInventoryInformationRequestSize :: nat where [simp]: "getInventoryInformationRequestSize = commonRequestSize + 1"
definition getCurrentClockFrequencyRequestSize :: nat where [simp]: "getCurrentClockFrequencyRequestSize = commonRequestSize + 1"
definition getEccErrorCountsRequestSize :: nat where [simp]: "getEccErrorCountsRequestSize = commonRequestSize"
definition getEccModeRequestSize :: nat where [simp]: "getEccModeRequestSize = commonRequestSize"
definition setEventSubscriptionRequestSize :: nat where [simp]: "setEventSubscriptionRequestSize = commonRequestSize + 2"
definition setEventSourcesRequestSize :: nat where [simp]: "setEventSourcesRequestSize = commonRequestSize + 9"
definition getClockLimitRequestSize :: nat where [simp]: "getClockLimitRequestSize = commonRequestSize + 1"
definition setClockLimitRequestSize :: nat where [simp]: "setClockLimitRequestSize = commonRequestSize + 1 + 1 + 4 + 4"
definition nvidiaPciVendorId :: u16 where "nvidiaPciVendorId = 0x10de"

section \<open>Encoders\<close>

definition encodeRequestCommonHeader ::
  "pack_buffer \<Rightarrow> message_type \<Rightarrow> u8 \<Rightarrow> u8 \<Rightarrow> int \<times> pack_buffer" where
  "encodeRequestCommonHeader pb msgType command instanceId =
     (let (rc, pb) = packHeader LittleEndian pb nvidiaPciVendorId ocp_REQUEST instanceId
                       (message_type_code msgType)
      in if rc \<noteq> 0 then (rc, pb) else pack command pb)"

definition encodeSetEventSubscriptionRequest ::
  "u8 \<Rightarrow> u8 \<Rightarrow> bytes \<Rightarrow> int \<times> bytes" where
  "encodeSetEventSubscriptionRequest generationSetting eid buf =
     (let (rc, pb) = encodeRequestCommonHeader (PackBuffer buf) DEVICE_CAPABILITY_DISCOVERY
                       (device_capability_code SET_EVENT_SUBSCRIPTION) 0
      in if rc \<noteq> 0 then (rc, pb_mem pb)
         else let pb = put (2 :: u8) pb;
                  pb = put generationSetting pb;
                  pb = put eid pb
              in (pb_error pb, pb_mem pb))"

definition encodeSetEventSourcesRequest ::
  "u64 \<Rightarrow> u8 \<Rightarrow> bytes \<Rightarrow> int \<times> bytes" where
  "encodeSetEventSourcesRequest sources msgType buf =
     (let (rc, pb) = encodeRequestCommonHeader (PackBuffer buf) DEVICE_CAPABILITY_DISCOVERY
                       (device_capability_code SET_CURRENT_EVENT_SOURCES) 0
      in if rc \<noteq> 0 then (rc, pb_mem pb)
         else let pb = put (9 :: u8) pb;
                  pb = put msgType pb;
                  pb = put sources pb
              in (pb_error pb, pb_mem pb))"

definition encodeQueryDeviceIdentificationRequest ::
  "u8 \<Rightarrow> bytes \<Rightarrow> int \<times> bytes" where
  "encodeQueryDeviceIdentificationRequest instanceId buf =
     (let (rc, pb) = encodeRequestCommonHeader (PackBuffer buf) DEVICE_CAPABILITY_DISCOVERY
                       (device_capability_code QUERY_DEVICE_IDENTIFICATION) instanceId
      in if rc \<noteq> 0 then (rc, pb_mem pb)
         else let pb = put (0 :: u8) pb
              in (pb_error pb, pb_mem pb))"

definition encodeGetSupportedMessageTypesRequest ::
  "u8 \<Rightarrow> bytes \<Rightarrow> int \<times> bytes" where
  "encodeGetSupportedMessageTypesRequest instanceId buf =
     (let (rc, pb) = encodeRequestCommonHeader (PackBuffer buf) DEVICE_CAPABILITY_DISCOVERY
                       (device_capability_code GET_SUPPORTED_MESSAGE_TYPES) instanceId
      in if rc \<noteq> 0 then (rc, pb_mem pb)
         else let pb = put (0 :: u8) pb
              in (pb_error pb, pb_mem pb))"

definition encodeGetSupportedCommandCodesRequest ::
  "u8 \<Rightarrow> u8 \<Rightarrow> bytes \<Rightarrow> int \<times> bytes" where
  "encodeGetSupportedCommandCodesRequest instanceId nvidiaMessageType buf =
     (let (rc, pb) = encodeRequestCommonHeader (PackBuffer buf) DEVICE_CAPABILITY_DISCOVERY
                       (device_capability_code GET_SUPPORTED_COMMAND_CODES) instanceId
      in if rc \<noteq> 0 then (rc, pb_mem pb)
         else let pb = put (1 :: u8) pb;
                  pb = put nvidiaMessageType pb
              in (pb_error pb, pb_mem pb))"

definition encodeGetTemperatureReadingRequest ::
  "u8 \<Rightarrow> u8 \<Rightarrow> bytes \<Rightarrow> int \<times> bytes" where
  "encodeGetTemperatureReadingRequest instanceId sensorId buf =
     (let (rc, pb) = encodeRequestCommonHeader (PackBuffer buf) PLATFORM_ENVIRONMENTAL
                       (platform_environmental_code GET_TEMPERATURE_READING) instanceId
      in if rc \<noteq> 0 then (rc, pb_mem pb)
         else let pb = put (1 :: u8) pb;
                  pb = put sensorId pb
              in (pb_error pb, pb_mem pb))"

definition encodeReadThermalParametersRequest ::
  "u8 \<Rightarrow> u8 \<Rightarrow> bytes \<Rightarrow> int \<times> bytes" where
  "encodeReadThermalParametersRequest instanceId sensorId buf =
     (let (rc, pb) = encodeRequestCommonHeader (PackBuffer buf) PLATFORM_ENVIRONMENTAL
                       (platform_environmental_code READ_THERMAL_PARAMETERS) instanceId
      in if rc \<noteq> 0 then (rc, pb_mem pb)
         else let pb = put (1 :: u8) pb;
                  pb = put sensorId pb
              in (pb_error pb, pb_mem pb))"

definition encodeGetPowerDrawRequest ::
  "platform_environmental_command \<Rightarrow> u8 \<Rightarrow> u8 \<Rightarrow> u8 \<Rightarrow> bytes \<Rightarrow> int \<times> bytes" where
  "encodeGetPowerDrawRequest commandCode instanceId sensorId averagingInterval buf =
     (let (rc, pb) = encodeRequestCommonHeader (PackBuffer buf) PLATFORM_ENVIRONMENTAL
                       (platform_environmental_code commandCode) instanceId
      in if rc \<noteq> 0 then (rc, pb_mem pb)
         else let pb = put (2 :: u8) pb;
                  pb = put sensorId pb;
                  pb = put averagingInterval pb
              in (pb_error pb, pb_mem pb))"

definition encodeGetCurrentEnergyCounterRequest ::
  "u8 \<Rightarrow> u8 \<Rightarrow> bytes \<Rightarrow> int \<times> bytes" where
  "encodeGetCurrentEnergyCounterRequest instanceId sensorId buf =
     (let (rc, pb) = encodeRequestCommonHeader (PackBuffer buf) PLATFORM_ENVIRONMENTAL
                       (platform_environmental_code GET_CURRENT_ENERGY_COUNTER) instanceId
      in if rc \<noteq> 0 then (rc, pb_mem pb)
         else let pb = put (1 :: u8) pb;
                  pb = put sensorId pb
              in (pb_error pb, pb_mem pb))"

definition encodeGetVoltageRequest ::
  "u8 \<Rightarrow> u8 \<Rightarrow> bytes \<Rightarrow> int \<times> bytes" where
  "encodeGetVoltageRequest instanceId sensorId buf =
     (let (rc, pb) = encodeRequestCommonHeader (PackBuffer buf) PLATFORM_ENVIRONMENTAL
                       (platform_environmental_code GET_VOLTAGE) instanceId
      in if rc \<noteq> 0 then (rc, pb_mem pb)
         else let pb = put (1 :: u8) pb;
                  pb = put sensorId pb
              in (pb_error pb, pb_mem pb))"

definition encodeGetPowerLimitsRequest ::
  "u8 \<Rightarrow> u32 \<Rightarrow> bytes \<Rightarrow> int \<times> bytes" where
  "encodeGetPowerLimitsRequest instanceId powerLimitId buf =
     (let (rc, pb) = encodeRequestCommonHeader (PackBuffer buf) PLATFORM_ENVIRONMENTAL
                       (platform_environmental_code GET_POWER_LIMITS) instanceId
      in if rc \<noteq> 0 then (rc, pb_mem pb)
         else let pb = put (4 :: u8) pb;
                  pb = put powerLimitId pb
              in (pb_error pb, pb_mem pb))"

definition encodeSetPowerLimitsRequest ::
  "u8 \<Rightarrow> u32 \<Rightarrow> set_power_limits_action \<Rightarrow> set_power_limits_persistence \<Rightarrow> u32 \<Rightarrow> bytes \<Rightarrow> int \<times> bytes" where
  "encodeSetPowerLimitsRequest instanceId powerLimitId action persistence powerLimitMilliwatts buf =
     (let (rc, pb) = encodeRequestCommonHeader (PackBuffer buf) PLATFORM_ENVIRONMENTAL
                       (platform_environmental_code SET_POWER_LIMITS) instanceId
      in if rc \<noteq> 0 then (rc, pb_mem pb)
         else let pb = put (4 + 1 + 1 + 4 :: u8) pb;
                  pb = put powerLimitId pb;
                  pb = put (set_power_limits_action_code action) pb;
                  pb = put (set_power_limits_persistence_code persistence) pb;
                  pb = put powerLimitMilliwatts pb
              in (pb_error pb, pb_mem pb))"

definition encodeGetDriverInformationRequest ::
  "u8 \<Rightarrow> bytes \<Rightarrow> int \<times> bytes" where
  "encodeGetDriverInformationRequest instanceId buf =
     (let (rc, pb) = encodeRequestCommonHeader (PackBuffer buf) PLATFORM_ENVIRONMENTAL
                       (platform_environmental_code GET_DRIVER_INFORMATION) instanceId
      in if rc \<noteq> 0 then (rc, pb_mem pb)
         else let pb = put (0 :: u8) pb
              in (pb_error pb, pb_mem pb))"

definition encodeGetInventoryInformationRequest ::
  "u8 \<Rightarrow> u8 \<Rightarrow> bytes \<Rightarrow> int \<times> bytes" where
  "encodeGetInventoryInformationRequest instanceId propertyId buf =
     (let (rc, pb) = encodeRequestCommonHeader (PackBuffer buf) PLATFORM_ENVIRONMENTAL
                       (platform_environmental_code GET_INVENTORY_INFORMATION) instanceId
      in if rc \<noteq> 0 then (rc, pb_mem pb)
         else let pb = put (1 :: u8) pb;
                  pb = put propertyId pb
              in (pb_error pb, pb_mem pb))"

definition encodeGetCurrentUtilizationModeRequest ::
  "u8 \<Rightarrow> bytes \<Rightarrow> int \<times> bytes" where
  "encodeGetCurrentUtilizationModeRequest instanceId buf =
     (let (rc, pb) = encodeRequestCommonHeader (PackBuffer buf) PLATFORM_ENVIRONMENTAL
                       (platform_environmental_code GET_CURRENT_UTILIZATION) instanceId
      in if rc \<noteq> 0 then (rc, pb_mem pb)
         else let pb = put (0 :: u8) pb
              in (pb_error pb, pb_mem pb))"

definition encodeGetClockLimitRequest ::
  "u8 \<Rightarrow> clock_type \<Rightarrow> bytes \<Rightarrow> int \<times> bytes" where
  "encodeGetClockLimitRequest instanceId clockType buf =
     (let (rc, pb) = encodeRequestCommonHeader (PackBuffer buf) PLATFORM_ENVIRONMENTAL
                       (platform_environmental_code GET_CLOCK_LIMIT) instanceId
      in if rc \<noteq> 0 then (rc, pb_mem pb)
         else let pb = put (1 :: u8) pb;
                  pb = put (clock_type_code clockType) pb
              in (pb_error pb, pb_mem pb))"

definition encodeGetViolationDurationRequest ::
  "u8 \<Rightarrow> bytes \<Rightarrow> int \<times> bytes" where
  "encodeGetViolationDurationRequest instanceId buf =
     (let (rc, pb) = encodeRequestCommonHeader (PackBuffer buf) PLATFORM_ENVIRONMENTAL
                       (platform_environmental_code GET_VIOLATION_DURATION) instanceId
      in if rc \<noteq> 0 then (rc, pb_mem pb)
         else let pb = put (0 :: u8) pb
              in (pb_error pb, pb_mem pb))"

definition encodeGetMemoryCapacityUtilizationRequest ::
  "u8 \<Rightarrow> bytes \<Rightarrow> int \<times> bytes" where
  "encodeGetMemoryCapacityUtilizationRequest instanceId buf =
     (let (rc, pb) = encodeRequestCommonHeader (PackBuffer buf) PLATFORM_ENVIRONMENTAL
                       (platform_environmental_code GET_MEMORY_CAPACITY_UTILIZATION) instanceId
      in if rc \<noteq> 0 then (rc, pb_mem pb)
         else let pb = put (0 :: u8) pb
              in (pb_error pb, pb_mem pb))"

definition encodeSetClockLimitRequest ::
  "u8 \<Rightarrow> clock_type \<Rightarrow> clock_limit_flag \<Rightarrow> u32 \<Rightarrow> u32 \<Rightarrow> bytes \<Rightarrow> int \<times> bytes" where
  "encodeSetClockLimitRequest instanceId clockType flag limitMinMHz limitMaxMHz buf =
     (let (rc, pb) = encodeRequestCommonHeader (PackBuffer buf) PLATFORM_ENVIRONMENTAL
                       (platform_environmental_code SET_CLOCK_LIMIT) instanceId
      in if rc \<noteq> 0 then (rc, pb_mem pb)
         else let pb = put (1 + 1 + 4 + 4 :: u8) pb;
                  pb = put (clock_type_code clockType) pb;
                  pb = put (clock_limit_flag_code flag) pb;
                  pb = put limitMinMHz pb;
                  pb = put limitMaxMHz pb
              in (pb_error pb, pb_mem pb))"

definition encodeQueryScalarGroupTelemetryV1Request ::
  "u8 \<Rightarrow> u8 \<Rightarrow> pcie_scalar_group_id \<Rightarrow> bytes \<Rightarrow> int \<times> bytes" where
  "encodeQueryScalarGroupTelemetryV1Request instanceId deviceIndex groupId buf =
     (let (rc, pb) = encodeRequestCommonHeader (PackBuffer buf) PCIE_LINK
                       (pcie_link_code QueryScalarGroupTelemetryV1) instanceId
      in if rc \<noteq> 0 then (rc, pb_mem pb)
         else let pb = put (2 :: u8) pb;
                  pb = put deviceIndex pb;
                  pb = put (pcie_scalar_group_code groupId) pb
              in (pb_error pb, pb_mem pb))"

definition encodeQueryScalarGroupTelemetryV2Request ::
  "u8 \<Rightarrow> pcie_port_type \<Rightarrow> u8 \<Rightarrow> u8 \<Rightarrow> pcie_scalar_group_id \<Rightarrow> bytes \<Rightarrow> int \<times> bytes" where
  "encodeQueryScalarGroupTelemetryV2Request instanceId portType upstreamPortNumber portNumber groupId buf =
     (let (rc, pb) = encodeRequestCommonHeader (PackBuffer buf) PCIE_LINK
                       (pcie_link_code QueryScalarGroupTelemetryV2) instanceId
      in if rc \<noteq> 0 then (rc, pb_mem pb)
         else let pb = put (3 :: u8) pb;
                  pb = put (push_bit 7 (pcie_port_type_code portType) OR (upstreamPortNumber AND 0x7F)) pb;
                  pb = put portNumber pb;
                  pb = put (pcie_scalar_group_code groupId) pb
              in (pb_error pb, pb_mem pb))"

definition encodeListPciePortsRequest ::
  "u8 \<Rightarrow> bytes \<Rightarrow> int \<times> bytes" where
  "encodeListPciePortsRequest instanceId buf =
     (let (rc, pb) = encodeRequestCommonHeader (PackBuffer buf) PCIE_LINK
                       (pcie_link_code ListPCIePorts) instanceId
      in if rc \<noteq> 0 then (rc, pb_mem pb)
         else let pb = put (0 :: u8) pb
              in (pb_error pb, pb_mem pb))"

definition encodeGetPortNetworkAddressesRequest ::
  "u8 \<Rightarrow> u16 \<Rightarrow> bytes \<Rightarrow> int \<times> bytes" where
  "encodeGetPortNetworkAddressesRequest instanceId portNumber buf =
     (let (rc, pb) = encodeRequestCommonHeader (PackBuffer buf) NETWORK_PORT
                       (network_port_code GetPortNetworkAddresses) instanceId
      in if rc \<noteq> 0 then (rc, pb_mem pb)
         else let pb = put (2 :: u8) pb;
                  pb = put portNumber pb
              in (pb_error pb, pb_mem pb))"

definition encodeGetEthernetPortTelemetryCountersRequest ::
  "u8 \<Rightarrow> u16 \<Rightarrow> bytes \<Rightarrow> int \<times> bytes" where
  "encodeGetEthernetPortTelemetryCountersRequest instanceId portNumber buf =
     (let (rc, pb) = encodeRequestCommonHeader (PackBuffer buf) NETWORK_PORT
                       (network_port_code GetEthernetPortTelemetryCounters) instanceId
      in if rc \<noteq> 0 then (rc, pb_mem pb)
         else let pb = put (2 :: u8) pb;
                  pb = put portNumber pb
              in (pb_error pb, pb_mem pb))"

definition encodeGetCurrentClockFrequencyRequest ::
  "u8 \<Rightarrow> clock_type \<Rightarrow> bytes \<Rightarrow> int \<times> bytes" where
  "encodeGetCurrentClockFrequencyRequest instanceId clockId buf =
     (let (rc, pb) = encodeRequestCommonHeader (PackBuffer buf) PLATFORM_ENVIRONMENTAL
                       (platform_environmental_code GET_CURRENT_CLOCK_FREQUENCY) instanceId
      in if rc \<noteq> 0 then (rc, pb_mem pb)
         else let pb = put (1 :: u8) pb;
                  pb = put (clock_type_code clockId) pb
              in (pb_error pb, pb_mem pb))"

definition encodeGetEccErrorCountsRequest ::
  "u8 \<Rightarrow> bytes \<Rightarrow> int \<times> bytes" where
  "encodeGetEccErrorCountsRequest instanceId buf =
     (let (rc, pb) = encodeRequestCommonHeader (PackBuffer buf) PLATFORM_ENVIRONMENTAL
                       (platform_environmental_code GET_ECC_ERROR_COUNTS) instanceId
      in if rc \<noteq> 0 then (rc, pb_mem pb)
         else let pb = put (0 :: u8) pb
              in (pb_error pb, pb_mem pb))"

definition encodeGetEccModeRequest ::
  "u8 \<Rightarrow> bytes \<Rightarrow> int \<times> bytes" where
  "encodeGetEccModeRequest instanceId buf =
     (let (rc, pb) = encodeRequestCommonHeader (PackBuffer buf) PLATFORM_ENVIRONMENTAL
                       (platform_environmental_code GET_ECC_MODE) instanceId
      in if rc \<noteq> 0 then (rc, pb_mem pb)
         else let pb = put (0 :: u8) pb
              in (pb_error pb, pb_mem pb))"

definition encodeGetLeakDetectionInfoRequest ::
  "u8 \<Rightarrow> bytes \<Rightarrow> int \<times> bytes" where
  "encodeGetLeakDetectionInfoRequest instanceId buf =
     (let (rc, pb) = encodeRequestCommonHeader (PackBuffer buf) PLATFORM_ENVIRONMENTAL
                       (platform_environmental_code GET_LEAK_DETECTION_INFO) instanceId
      in if rc \<noteq> 0 then (rc, pb_mem pb)
         else let pb = put (0 :: u8) pb
              in (pb_error pb, pb_mem pb))"

section \<open>Specification of a request\<close>

text \<open>
  \<open>request_bytes\<close> is the frame of a request: header, command code, size of the payload, payload.
  \<open>encodes iid frame buf res\<close> says that the result \<open>res\<close> of an encoder on the buffer \<open>buf\<close> is the
  rejection of an instance id above 31 without touching the buffer, the frame at the start of the
  buffer with the rest unchanged, or, in a buffer that is too short, the error with some prefix of
  the frame written.
\<close>

definition request_bytes :: "message_type \<Rightarrow> u8 \<Rightarrow> u8 \<Rightarrow> bytes \<Rightarrow> bytes" where
  "request_bytes mt cmd iid payload =
     header_bytes nvidiaPciVendorId ocp_REQUEST iid (message_type_code mt) @
     [cmd, word_of_nat (length payload)] @ payload"

definition encodes :: "u8 \<Rightarrow> bytes \<Rightarrow> bytes \<Rightarrow> int \<times> bytes \<Rightarrow> bool" where
  "encodes iid frame buf res \<longleftrightarrow>
     (if iid > instanceMax then res = (EINVAL, buf)
      else if length frame \<le> length buf then res = (0, frame @ drop (length frame) buf)
      else \<exists>k \<le> length buf. res = (EINVAL, take k frame @ drop k buf))"

lemma encodes_length: "encodes iid frame buf res \<Longrightarrow> length (snd res) = length buf"
  by (auto simp: encodes_def split: if_splits)

lemma encodes_rc: "encodes iid frame buf res \<Longrightarrow>
    fst res = 0 \<longleftrightarrow> iid \<le> instanceMax \<and> length frame \<le> length buf"
  by (auto simp: encodes_def split: if_splits)

lemma encodes_rc_error: "encodes iid frame buf res \<Longrightarrow> fst res \<noteq> 0 \<Longrightarrow> fst res = EINVAL"
  by (auto simp: encodes_def split: if_splits)

lemma encodes_frame: "encodes iid frame buf res \<Longrightarrow> fst res = 0 \<Longrightarrow> take (length frame) (snd res) = frame"
  by (auto simp: encodes_def split: if_splits)

lemma length_request_bytes: "length (request_bytes mt cmd iid payload) = commonRequestSize + length payload"
  by (simp add: request_bytes_def header_bytes_def)

lemma encodeRequestCommonHeader_put_all:
  assumes "iid \<le> 31"
  shows "encodeRequestCommonHeader pb mt cmd iid =
    (let pb = put_all [rev (le_bytes nvidiaPciVendorId), [iid OR 0x80], [0x89], [message_type_code mt], [cmd]] pb
     in (pb_error pb, pb))"
  using assms
  by (simp add: encodeRequestCommonHeader_def packHeader_put_all pack_on_fst Let_def)
    (simp add: put_on_eq)

lemma put_all_append: "put_all (xs @ ys) pb = put_all ys (put_all xs pb)"
  by (induction xs arbitrary: pb) auto

lemma encode_pattern:
  assumes "concat imgs = word_of_nat (length payload) # payload"
  shows "encodes iid (request_bytes mt cmd iid payload) buf
    (let (rc, pb) = encodeRequestCommonHeader (PackBuffer buf) mt cmd iid
     in if rc \<noteq> 0 then (rc, pb_mem pb)
        else (pb_error (put_all imgs pb), pb_mem (put_all imgs pb)))" (is "encodes _ ?frame _ ?res")
proof (cases "iid \<le> 31")
  case False
  then show ?thesis
    by (simp add: encodes_def encodeRequestCommonHeader_def packHeader_def not_le PackBuffer_def)
next
  case True
  define all where "all = [rev (le_bytes nvidiaPciVendorId), [iid OR 0x80], [0x89], [message_type_code mt], [cmd]] @ imgs"
  have frame: "concat all = ?frame"
    using assms by (simp add: all_def request_bytes_def header_bytes_def)
  have res: "?res = (pb_error (put_all all (packed [] buf)), pb_mem (put_all all (packed [] buf)))"
    unfolding all_def put_all_append
    by (auto simp: encodeRequestCommonHeader_put_all [OF True] Let_def PackBuffer_packed put_all_error)
  show ?thesis
  proof (cases "length ?frame \<le> length buf")
    case fits: True
    then have "put_all all (packed [] buf) = packed ?frame (drop (length ?frame) buf)"
      using put_all_fits [of all buf "[]"] frame by simp
    with True fits show ?thesis
      unfolding encodes_def res by (simp add: packed_def not_le)
  next
    case False
    then obtain k where "k \<le> length buf" "pb_error (put_all all (packed [] buf)) = EINVAL"
      "pb_mem (put_all all (packed [] buf)) = take k ?frame @ drop k buf"
      using put_all_short [of buf all "[]"] frame by auto
    with True False show ?thesis
      unfolding encodes_def res by auto
  qed
qed

section \<open>Every encoder implements the specification\<close>

lemma encodeSetEventSubscriptionRequest_encodes:
  "encodes 0 (request_bytes DEVICE_CAPABILITY_DISCOVERY (device_capability_code SET_EVENT_SUBSCRIPTION) 0 ([generationSetting] @ [eid])) buf (encodeSetEventSubscriptionRequest generationSetting eid buf)"
  using encode_pattern [of "[[word_of_nat (length ([generationSetting] @ [eid] :: bytes))], [generationSetting], [eid]]" "[generationSetting] @ [eid]" "0" DEVICE_CAPABILITY_DISCOVERY "(device_capability_code SET_EVENT_SUBSCRIPTION)" buf]
  by (simp add: encodeSetEventSubscriptionRequest_def put_on_eq Let_def cong: if_cong)

lemma encodeSetEventSourcesRequest_encodes:
  "encodes 0 (request_bytes DEVICE_CAPABILITY_DISCOVERY (device_capability_code SET_CURRENT_EVENT_SOURCES) 0 ([msgType] @ le_bytes sources)) buf (encodeSetEventSourcesRequest sources msgType buf)"
  using encode_pattern [of "[[word_of_nat (length ([msgType] @ le_bytes sources :: bytes))], [msgType], le_bytes sources]" "[msgType] @ le_bytes sources" "0" DEVICE_CAPABILITY_DISCOVERY "(device_capability_code SET_CURRENT_EVENT_SOURCES)" buf]
  by (simp add: encodeSetEventSourcesRequest_def put_on_eq Let_def cong: if_cong)

lemma encodeQueryDeviceIdentificationRequest_encodes:
  "encodes instanceId (request_bytes DEVICE_CAPABILITY_DISCOVERY (device_capability_code QUERY_DEVICE_IDENTIFICATION) instanceId ([])) buf (encodeQueryDeviceIdentificationRequest instanceId buf)"
  using encode_pattern [of "[[word_of_nat (length ([] :: bytes))]]" "[]" "instanceId" DEVICE_CAPABILITY_DISCOVERY "(device_capability_code QUERY_DEVICE_IDENTIFICATION)" buf]
  by (simp add: encodeQueryDeviceIdentificationRequest_def put_on_eq Let_def cong: if_cong)

lemma encodeGetSupportedMessageTypesRequest_encodes:
  "encodes instanceId (request_bytes DEVICE_CAPABILITY_DISCOVERY (device_capability_code GET_SUPPORTED_MESSAGE_TYPES) instanceId ([])) buf (encodeGetSupportedMessageTypesRequest instanceId buf)"
  using encode_pattern [of "[[word_of_nat (length ([] :: bytes))]]" "[]" "instanceId" DEVICE_CAPABILITY_DISCOVERY "(device_capability_code GET_SUPPORTED_MESSAGE_TYPES)" buf]
  by (simp add: encodeGetSupportedMessageTypesRequest_def put_on_eq Let_def cong: if_cong)

lemma encodeGetSupportedCommandCodesRequest_encodes:
  "encodes instanceId (request_bytes DEVICE_CAPABILITY_DISCOVERY (device_capability_code GET_SUPPORTED_COMMAND_CODES) instanceId ([nvidiaMessageType])) buf (encodeGetSupportedCommandCodesRequest instanceId nvidiaMessageType buf)"
  using encode_pattern [of "[[word_of_nat (length ([nvidiaMessageType] :: bytes))], [nvidiaMessageType]]" "[nvidiaMessageType]" "instanceId" DEVICE_CAPABILITY_DISCOVERY "(device_capability_code GET_SUPPORTED_COMMAND_CODES)" buf]
  by (simp add: encodeGetSupportedCommandCodesRequest_def put_on_eq Let_def cong: if_cong)

lemma encodeGetTemperatureReadingRequest_encodes:
  "encodes instanceId (request_bytes PLATFORM_ENVIRONMENTAL (platform_environmental_code GET_TEMPERATURE_READING) instanceId ([sensorId])) buf (encodeGetTemperatureReadingRequest instanceId sensorId buf)"
  using encode_pattern [of "[[word_of_nat (length ([sensorId] :: bytes))], [sensorId]]" "[sensorId]" "instanceId" PLATFORM_ENVIRONMENTAL "(platform_environmental_code GET_TEMPERATURE_READING)" buf]
  by (simp add: encodeGetTemperatureReadingRequest_def put_on_eq Let_def cong: if_cong)

lemma encodeReadThermalParametersRequest_encodes:
  "encodes instanceId (request_bytes PLATFORM_ENVIRONMENTAL (platform_environmental_code READ_THERMAL_PARAMETERS) instanceId ([sensorId])) buf (encodeReadThermalParametersRequest instanceId sensorId buf)"
  using encode_pattern [of "[[word_of_nat (length ([sensorId] :: bytes))], [sensorId]]" "[sensorId]" "instanceId" PLATFORM_ENVIRONMENTAL "(platform_environmental_code READ_THERMAL_PARAMETERS)" buf]
  by (simp add: encodeReadThermalParametersRequest_def put_on_eq Let_def cong: if_cong)

lemma encodeGetPowerDrawRequest_encodes:
  "encodes instanceId (request_bytes PLATFORM_ENVIRONMENTAL (platform_environmental_code commandCode) instanceId ([sensorId] @ [averagingInterval])) buf (encodeGetPowerDrawRequest commandCode instanceId sensorId averagingInterval buf)"
  using encode_pattern [of "[[word_of_nat (length ([sensorId] @ [averagingInterval] :: bytes))], [sensorId], [averagingInterval]]" "[sensorId] @ [averagingInterval]" "instanceId" PLATFORM_ENVIRONMENTAL "(platform_environmental_code commandCode)" buf]
  by (simp add: encodeGetPowerDrawRequest_def put_on_eq Let_def cong: if_cong)

lemma encodeGetCurrentEnergyCounterRequest_encodes:
  "encodes instanceId (request_bytes PLATFORM_ENVIRONMENTAL (platform_environmental_code GET_CURRENT_ENERGY_COUNTER) instanceId ([sensorId])) buf (encodeGetCurrentEnergyCounterRequest instanceId sensorId buf)"
  using encode_pattern [of "[[word_of_nat (length ([sensorId] :: bytes))], [sensorId]]" "[sensorId]" "instanceId" PLATFORM_ENVIRONMENTAL "(platform_environmental_code GET_CURRENT_ENERGY_COUNTER)" buf]
  by (simp add: encodeGetCurrentEnergyCounterRequest_def put_on_eq Let_def cong: if_cong)

lemma encodeGetVoltageRequest_encodes:
  "encodes instanceId (request_bytes PLATFORM_ENVIRONMENTAL (platform_environmental_code GET_VOLTAGE) instanceId ([sensorId])) buf (encodeGetVoltageRequest instanceId sensorId buf)"
  using encode_pattern [of "[[word_of_nat (length ([sensorId] :: bytes))], [sensorId]]" "[sensorId]" "instanceId" PLATFORM_ENVIRONMENTAL "(platform_environmental_code GET_VOLTAGE)" buf]
  by (simp add: encodeGetVoltageRequest_def put_on_eq Let_def cong: if_cong)

lemma encodeGetPowerLimitsRequest_encodes:
  "encodes instanceId (request_bytes PLATFORM_ENVIRONMENTAL (platform_environmental_code GET_POWER_LIMITS) instanceId (le_bytes powerLimitId)) buf (encodeGetPowerLimitsRequest instanceId powerLimitId buf)"
  using encode_pattern [of "[[word_of_nat (length (le_bytes powerLimitId :: bytes))], le_bytes powerLimitId]" "le_bytes powerLimitId" "instanceId" PLATFORM_ENVIRONMENTAL "(platform_environmental_code GET_POWER_LIMITS)" buf]
  by (simp add: encodeGetPowerLimitsRequest_def put_on_eq Let_def cong: if_cong)

lemma encodeSetPowerLimitsRequest_encodes:
  "encodes instanceId (request_bytes PLATFORM_ENVIRONMENTAL (platform_environmental_code SET_POWER_LIMITS) instanceId (le_bytes powerLimitId @ [(set_power_limits_action_code action)] @ [(set_power_limits_persistence_code persistence)] @ le_bytes powerLimitMilliwatts)) buf (encodeSetPowerLimitsRequest instanceId powerLimitId action persistence powerLimitMilliwatts buf)"
  using encode_pattern [of "[[word_of_nat (length (le_bytes powerLimitId @ [(set_power_limits_action_code action)] @ [(set_power_limits_persistence_code persistence)] @ le_bytes powerLimitMilliwatts :: bytes))], le_bytes powerLimitId, [(set_power_limits_action_code action)], [(set_power_limits_persistence_code persistence)], le_bytes powerLimitMilliwatts]" "le_bytes powerLimitId @ [(set_power_limits_action_code action)] @ [(set_power_limits_persistence_code persistence)] @ le_bytes powerLimitMilliwatts" "instanceId" PLATFORM_ENVIRONMENTAL "(platform_environmental_code SET_POWER_LIMITS)" buf]
  by (simp add: encodeSetPowerLimitsRequest_def put_on_eq Let_def cong: if_cong)

lemma encodeGetDriverInformationRequest_encodes:
  "encodes instanceId (request_bytes PLATFORM_ENVIRONMENTAL (platform_environmental_code GET_DRIVER_INFORMATION) instanceId ([])) buf (encodeGetDriverInformationRequest instanceId buf)"
  using encode_pattern [of "[[word_of_nat (length ([] :: bytes))]]" "[]" "instanceId" PLATFORM_ENVIRONMENTAL "(platform_environmental_code GET_DRIVER_INFORMATION)" buf]
  by (simp add: encodeGetDriverInformationRequest_def put_on_eq Let_def cong: if_cong)

lemma encodeGetInventoryInformationRequest_encodes:
  "encodes instanceId (request_bytes PLATFORM_ENVIRONMENTAL (platform_environmental_code GET_INVENTORY_INFORMATION) instanceId ([propertyId])) buf (encodeGetInventoryInformationRequest instanceId propertyId buf)"
  using encode_pattern [of "[[word_of_nat (length ([propertyId] :: bytes))], [propertyId]]" "[propertyId]" "instanceId" PLATFORM_ENVIRONMENTAL "(platform_environmental_code GET_INVENTORY_INFORMATION)" buf]
  by (simp add: encodeGetInventoryInformationRequest_def put_on_eq Let_def cong: if_cong)

lemma encodeGetCurrentUtilizationModeRequest_encodes:
  "encodes instanceId (request_bytes PLATFORM_ENVIRONMENTAL (platform_environmental_code GET_CURRENT_UTILIZATION) instanceId ([])) buf (encodeGetCurrentUtilizationModeRequest instanceId buf)"
  using encode_pattern [of "[[word_of_nat (length ([] :: bytes))]]" "[]" "instanceId" PLATFORM_ENVIRONMENTAL "(platform_environmental_code GET_CURRENT_UTILIZATION)" buf]
  by (simp add: encodeGetCurrentUtilizationModeRequest_def put_on_eq Let_def cong: if_cong)

lemma encodeGetClockLimitRequest_encodes:
  "encodes instanceId (request_bytes PLATFORM_ENVIRONMENTAL (platform_environmental_code GET_CLOCK_LIMIT) instanceId ([(clock_type_code clockType)])) buf (encodeGetClockLimitRequest instanceId clockType buf)"
  using encode_pattern [of "[[word_of_nat (length ([(clock_type_code clockType)] :: bytes))], [(clock_type_code clockType)]]" "[(clock_type_code clockType)]" "instanceId" PLATFORM_ENVIRONMENTAL "(platform_environmental_code GET_CLOCK_LIMIT)" buf]
  by (simp add: encodeGetClockLimitRequest_def put_on_eq Let_def cong: if_cong)

lemma encodeGetViolationDurationRequest_encodes:
  "encodes instanceId (request_bytes PLATFORM_ENVIRONMENTAL (platform_environmental_code GET_VIOLATION_DURATION) instanceId ([])) buf (encodeGetViolationDurationRequest instanceId buf)"
  using encode_pattern [of "[[word_of_nat (length ([] :: bytes))]]" "[]" "instanceId" PLATFORM_ENVIRONMENTAL "(platform_environmental_code GET_VIOLATION_DURATION)" buf]
  by (simp add: encodeGetViolationDurationRequest_def put_on_eq Let_def cong: if_cong)

lemma encodeGetMemoryCapacityUtilizationRequest_encodes:
  "encodes instanceId (request_bytes PLATFORM_ENVIRONMENTAL (platform_environmental_code GET_MEMORY_CAPACITY_UTILIZATION) instanceId ([])) buf (encodeGetMemoryCapacityUtilizationRequest instanceId buf)"
  using encode_pattern [of "[[word_of_nat (length ([] :: bytes))]]" "[]" "instanceId" PLATFORM_ENVIRONMENTAL "(platform_environmental_code GET_MEMORY_CAPACITY_UTILIZATION)" buf]
  by (simp add: encodeGetMemoryCapacityUtilizationRequest_def put_on_eq Let_def cong: if_cong)

lemma encodeSetClockLimitRequest_encodes:
  "encodes instanceId (request_bytes PLATFORM_ENVIRONMENTAL (platform_environmental_code SET_CLOCK_LIMIT) instanceId ([(clock_type_code clockType)] @ [(clock_limit_flag_code flag)] @ le_bytes limitMinMHz @ le_bytes limitMaxMHz)) buf (encodeSetClockLimitRequest instanceId clockType flag limitMinMHz limitMaxMHz buf)"
  using encode_pattern [of "[[word_of_nat (length ([(clock_type_code clockType)] @ [(clock_limit_flag_code flag)] @ le_bytes limitMinMHz @ le_bytes limitMaxMHz :: bytes))], [(clock_type_code clockType)], [(clock_limit_flag_code flag)], le_bytes limitMinMHz, le_bytes limitMaxMHz]" "[(clock_type_code clockType)] @ [(clock_limit_flag_code flag)] @ le_bytes limitMinMHz @ le_bytes limitMaxMHz" "instanceId" PLATFORM_ENVIRONMENTAL "(platform_environmental_code SET_CLOCK_LIMIT)" buf]
  by (simp add: encodeSetClockLimitRequest_def put_on_eq Let_def cong: if_cong)

lemma encodeQueryScalarGroupTelemetryV1Request_encodes:
  "encodes instanceId (request_bytes PCIE_LINK (pcie_link_code QueryScalarGroupTelemetryV1) instanceId ([deviceIndex] @ [(pcie_scalar_group_code groupId)])) buf (encodeQueryScalarGroupTelemetryV1Request instanceId deviceIndex groupId buf)"
  using encode_pattern [of "[[word_of_nat (length ([deviceIndex] @ [(pcie_scalar_group_code groupId)] :: bytes))], [deviceIndex], [(pcie_scalar_group_code groupId)]]" "[deviceIndex] @ [(pcie_scalar_group_code groupId)]" "instanceId" PCIE_LINK "(pcie_link_code QueryScalarGroupTelemetryV1)" buf]
  by (simp add: encodeQueryScalarGroupTelemetryV1Request_def put_on_eq Let_def cong: if_cong)

lemma encodeQueryScalarGroupTelemetryV2Request_encodes:
  "encodes instanceId (request_bytes PCIE_LINK (pcie_link_code QueryScalarGroupTelemetryV2) instanceId ([(push_bit 7 (pcie_port_type_code portType) OR (upstreamPortNumber AND 0x7F))] @ [portNumber] @ [(pcie_scalar_group_code groupId)])) buf (encodeQueryScalarGroupTelemetryV2Request instanceId portType upstreamPortNumber portNumber groupId buf)"
  using encode_pattern [of "[[word_of_nat (length ([(push_bit 7 (pcie_port_type_code portType) OR (upstreamPortNumber AND 0x7F))] @ [portNumber] @ [(pcie_scalar_group_code groupId)] :: bytes))], [(push_bit 7 (pcie_port_type_code portType) OR (upstreamPortNumber AND 0x7F))], [portNumber], [(pcie_scalar_group_code groupId)]]" "[(push_bit 7 (pcie_port_type_code portType) OR (upstreamPortNumber AND 0x7F))] @ [portNumber] @ [(pcie_scalar_group_code groupId)]" "instanceId" PCIE_LINK "(pcie_link_code QueryScalarGroupTelemetryV2)" buf]
  by (simp add: encodeQueryScalarGroupTelemetryV2Request_def put_on_eq Let_def cong: if_cong)

lemma encodeListPciePortsRequest_encodes:
  "encodes instanceId (request_bytes PCIE_LINK (pcie_link_code ListPCIePorts) instanceId ([])) buf (encodeListPciePortsRequest instanceId buf)"
  using encode_pattern [of "[[word_of_nat (length ([] :: bytes))]]" "[]" "instanceId" PCIE_LINK "(pcie_link_code ListPCIePorts)" buf]
  by (simp add: encodeListPciePortsRequest_def put_on_eq Let_def cong: if_cong)

lemma encodeGetPortNetworkAddressesRequest_encodes:
  "encodes instanceId (request_bytes NETWORK_PORT (network_port_code GetPortNetworkAddresses) instanceId (le_bytes portNumber)) buf (encodeGetPortNetworkAddressesRequest instanceId portNumber buf)"
  using encode_pattern [of "[[word_of_nat (length (le_bytes portNumber :: bytes))], le_bytes portNumber]" "le_bytes portNumber" "instanceId" NETWORK_PORT "(network_port_code GetPortNetworkAddresses)" buf]
  by (simp add: encodeGetPortNetworkAddressesRequest_def put_on_eq Let_def cong: if_cong)

lemma encodeGetEthernetPortTelemetryCountersRequest_encodes:
  "encodes instanceId (request_bytes NETWORK_PORT (network_port_code GetEthernetPortTelemetryCounters) instanceId (le_bytes portNumber)) buf (encodeGetEthernetPortTelemetryCountersRequest instanceId portNumber buf)"
  using encode_pattern [of "[[word_of_nat (length (le_bytes portNumber :: bytes))], le_bytes portNumber]" "le_bytes portNumber" "instanceId" NETWORK_PORT "(network_port_code GetEthernetPortTelemetryCounters)" buf]
  by (simp add: encodeGetEthernetPortTelemetryCountersRequest_def put_on_eq Let_def cong: if_cong)

lemma encodeGetCurrentClockFrequencyRequest_encodes:
  "encodes instanceId (request_bytes PLATFORM_ENVIRONMENTAL (platform_environmental_code GET_CURRENT_CLOCK_FREQUENCY) instanceId ([(clock_type_code clockId)])) buf (encodeGetCurrentClockFrequencyRequest instanceId clockId buf)"
  using encode_pattern [of "[[word_of_nat (length ([(clock_type_code clockId)] :: bytes))], [(clock_type_code clockId)]]" "[(clock_type_code clockId)]" "instanceId" PLATFORM_ENVIRONMENTAL "(platform_environmental_code GET_CURRENT_CLOCK_FREQUENCY)" buf]
  by (simp add: encodeGetCurrentClockFrequencyRequest_def put_on_eq Let_def cong: if_cong)

lemma encodeGetEccErrorCountsRequest_encodes:
  "encodes instanceId (request_bytes PLATFORM_ENVIRONMENTAL (platform_environmental_code GET_ECC_ERROR_COUNTS) instanceId ([])) buf (encodeGetEccErrorCountsRequest instanceId buf)"
  using encode_pattern [of "[[word_of_nat (length ([] :: bytes))]]" "[]" "instanceId" PLATFORM_ENVIRONMENTAL "(platform_environmental_code GET_ECC_ERROR_COUNTS)" buf]
  by (simp add: encodeGetEccErrorCountsRequest_def put_on_eq Let_def cong: if_cong)

lemma encodeGetEccModeRequest_encodes:
  "encodes instanceId (request_bytes PLATFORM_ENVIRONMENTAL (platform_environmental_code GET_ECC_MODE) instanceId ([])) buf (encodeGetEccModeRequest instanceId buf)"
  using encode_pattern [of "[[word_of_nat (length ([] :: bytes))]]" "[]" "instanceId" PLATFORM_ENVIRONMENTAL "(platform_environmental_code GET_ECC_MODE)" buf]
  by (simp add: encodeGetEccModeRequest_def put_on_eq Let_def cong: if_cong)

lemma encodeGetLeakDetectionInfoRequest_encodes:
  "encodes instanceId (request_bytes PLATFORM_ENVIRONMENTAL (platform_environmental_code GET_LEAK_DETECTION_INFO) instanceId ([])) buf (encodeGetLeakDetectionInfoRequest instanceId buf)"
  using encode_pattern [of "[[word_of_nat (length ([] :: bytes))]]" "[]" "instanceId" PLATFORM_ENVIRONMENTAL "(platform_environmental_code GET_LEAK_DETECTION_INFO)" buf]
  by (simp add: encodeGetLeakDetectionInfoRequest_def put_on_eq Let_def cong: if_cong)

end
