(* ===== verification/Gpu_Responses.thy ===== *)
theory Gpu_Responses
  imports Gpu_Requests
begin

text \<open>
  The response decoders of \<open>NvidiaGpuMctpVdm.cpp\<close> for responses of a fixed layout. A decoder takes
  the received bytes and the old values of its output parameters and returns the return code and
  the new values. \<open>decode_payload\<close> is the sequence of statements every decoder with a payload starts
  with, up to the check of the data size; its left results are the early returns.
\<close>

section \<open>Common header\<close>

definition decodeResponseCommonHeader ::
  "unpack_buffer \<Rightarrow> message_type \<Rightarrow> u8 \<Rightarrow> u8 \<Rightarrow> u16 \<Rightarrow> int \<times> u8 \<times> u16 \<times> unpack_buffer" where
  "decodeResponseCommonHeader ub msgType command cc reasonCode =
     (let (rc, receivedMsgType, instanceId, receivedMessageType, ub) =
            unpackHeader LittleEndian ub nvidiaPciVendorId 0 0 0
      in if rc \<noteq> 0 then (rc, cc, reasonCode, ub)
         else if receivedMsgType \<noteq> ocp_RESPONSE then (EINVAL, cc, reasonCode, ub)
         else if receivedMessageType \<noteq> message_type_code msgType then (EINVAL, cc, reasonCode, ub)
         else
           let (rc, receivedCommand, ub) = unpack 0 ub
           in if rc \<noteq> 0 then (rc, cc, reasonCode, ub)
              else if command \<noteq> receivedCommand then (EINVAL, cc, reasonCode, ub)
              else unpackReasonCodeAndCC ub cc reasonCode)"

definition decode_payload ::
  "message_type \<Rightarrow> u8 \<Rightarrow> (u16 \<Rightarrow> bool) \<Rightarrow> bytes \<Rightarrow> u8 \<Rightarrow> u16
     \<Rightarrow> (int \<times> u8 \<times> u16) + (u8 \<times> u16 \<times> u16 \<times> unpack_buffer)" where
  "decode_payload msgType command size_ok buf cc reasonCode =
     (let (rc, cc, reasonCode, ub) =
            decodeResponseCommonHeader (UnpackBuffer buf) msgType command cc reasonCode
      in if rc \<noteq> 0 \<or> cc \<noteq> CC_SUCCESS then Inl (rc, cc, reasonCode)
         else
           let (rc, dataSize, ub) = unpack 0 ub
           in if rc \<noteq> 0 then Inl (rc, cc, reasonCode)
              else if \<not> size_ok dataSize then Inl (EINVAL, cc, reasonCode)
              else Inr (cc, reasonCode, dataSize, ub))"

section \<open>Decoders\<close>

definition decode_no_payload :: "message_type \<Rightarrow> u8 \<Rightarrow> bytes \<Rightarrow> u8 \<Rightarrow> u16 \<Rightarrow> int \<times> u8 \<times> u16" where
  "decode_no_payload msgType command buf cc reasonCode =
     (let (rc, cc, reasonCode, ub) =
            decodeResponseCommonHeader (UnpackBuffer buf) msgType command cc reasonCode
      in if rc \<noteq> 0 \<or> cc \<noteq> CC_SUCCESS then (rc, cc, reasonCode) else (0, cc, reasonCode))"

definition decodeSetEventSubscriptionResponse :: "bytes \<Rightarrow> u8 \<Rightarrow> u16 \<Rightarrow> int \<times> u8 \<times> u16" where
  "decodeSetEventSubscriptionResponse buf cc reasonCode =
     decode_no_payload DEVICE_CAPABILITY_DISCOVERY (device_capability_code SET_EVENT_SUBSCRIPTION)
       buf cc reasonCode"

definition decodeSetEventSourcesResponse :: "bytes \<Rightarrow> u8 \<Rightarrow> u16 \<Rightarrow> int \<times> u8 \<times> u16" where
  "decodeSetEventSourcesResponse buf cc reasonCode =
     decode_no_payload DEVICE_CAPABILITY_DISCOVERY (device_capability_code SET_CURRENT_EVENT_SOURCES)
       buf cc reasonCode"

definition decodeSetPowerLimitsResponse :: "bytes \<Rightarrow> u8 \<Rightarrow> u16 \<Rightarrow> int \<times> u8 \<times> u16" where
  "decodeSetPowerLimitsResponse buf cc reasonCode =
     decode_no_payload PLATFORM_ENVIRONMENTAL (platform_environmental_code SET_POWER_LIMITS)
       buf cc reasonCode"

definition decodeSetClockLimitResponse :: "bytes \<Rightarrow> u8 \<Rightarrow> u16 \<Rightarrow> int \<times> u8 \<times> u16" where
  "decodeSetClockLimitResponse buf cc reasonCode =
     decode_no_payload PLATFORM_ENVIRONMENTAL (platform_environmental_code SET_CLOCK_LIMIT)
       buf cc reasonCode"

definition longRunningResponseEventSize :: nat where [simp]: "longRunningResponseEventSize = 4"

definition decodeLongRunningResponseEvent ::
  "bytes \<Rightarrow> u8 \<Rightarrow> u16 \<Rightarrow> u8 \<Rightarrow> bytes \<Rightarrow> int \<times> u8 \<times> u16 \<times> u8 \<times> bytes" where
  "decodeLongRunningResponseEvent buf cc reasonCode instanceId responseData =
     (let ub = UnpackBuffer buf;
          (instanceId, ub) = get instanceId ub;
          (completionCode, ub) = get 0 ub;
          (reasonCode, ub) = get reasonCode ub
      in if ub_error ub \<noteq> 0 then (ub_error ub, cc, reasonCode, instanceId, responseData)
         else (0, completionCode, reasonCode, instanceId, drop longRunningResponseEventSize buf))"

definition decodeQueryDeviceIdentificationResponse ::
  "bytes \<Rightarrow> u8 \<Rightarrow> u16 \<Rightarrow> u8 \<Rightarrow> u8 \<Rightarrow> int \<times> u8 \<times> u16 \<times> u8 \<times> u8" where
  "decodeQueryDeviceIdentificationResponse buf cc reasonCode deviceIdentification deviceInstance =
     (case decode_payload DEVICE_CAPABILITY_DISCOVERY (device_capability_code QUERY_DEVICE_IDENTIFICATION)
             (\<lambda>dataSize. dataSize = 1 * 2) buf cc reasonCode of
        Inl (rc, cc, reasonCode) \<Rightarrow> (rc, cc, reasonCode, deviceIdentification, deviceInstance)
      | Inr (cc, reasonCode, _, ub) \<Rightarrow>
          let (deviceIdentification, ub) = get deviceIdentification ub;
              (deviceInstance, ub) = get deviceInstance ub
          in (ub_error ub, cc, reasonCode, deviceIdentification, deviceInstance))"

text \<open>A range loop \<open>for (auto& byte : bytes) buffer.unpack(byte)\<close> over an array of bytes.\<close>

fun get_each :: "bytes \<Rightarrow> unpack_buffer \<Rightarrow> bytes \<times> unpack_buffer" where
  "get_each [] ub = ([], ub)"
| "get_each (b # bs) ub =
     (let (b, ub) = get b ub; (bs, ub) = get_each bs ub in (b # bs, ub))"

definition decodeGetSupportedMessageTypesResponse ::
  "bytes \<Rightarrow> u8 \<Rightarrow> u16 \<Rightarrow> bytes \<Rightarrow> int \<times> u8 \<times> u16 \<times> bytes" where
  "decodeGetSupportedMessageTypesResponse buf cc reasonCode supportedTypes =
     (case decode_payload DEVICE_CAPABILITY_DISCOVERY (device_capability_code GET_SUPPORTED_MESSAGE_TYPES)
             (\<lambda>dataSize. unat dataSize = length supportedTypes) buf cc reasonCode of
        Inl (rc, cc, reasonCode) \<Rightarrow> (rc, cc, reasonCode, supportedTypes)
      | Inr (cc, reasonCode, _, ub) \<Rightarrow>
          let (supportedTypes, ub) = get_each supportedTypes ub
          in (ub_error ub, cc, reasonCode, supportedTypes))"

definition decodeGetSupportedCommandCodesResponse ::
  "bytes \<Rightarrow> u8 \<Rightarrow> u16 \<Rightarrow> bytes \<Rightarrow> int \<times> u8 \<times> u16 \<times> bytes" where
  "decodeGetSupportedCommandCodesResponse buf cc reasonCode supportedCommands =
     (case decode_payload DEVICE_CAPABILITY_DISCOVERY (device_capability_code GET_SUPPORTED_COMMAND_CODES)
             (\<lambda>dataSize. unat dataSize = length supportedCommands) buf cc reasonCode of
        Inl (rc, cc, reasonCode) \<Rightarrow> (rc, cc, reasonCode, supportedCommands)
      | Inr (cc, reasonCode, _, ub) \<Rightarrow>
          let (supportedCommands, ub) = get_each supportedCommands ub
          in (ub_error ub, cc, reasonCode, supportedCommands))"

text \<open>
  The temperature is a \<open>double\<close>, an \<open>int32_t\<close> divided by 256, which a double represents exactly.
\<close>

definition decodeGetTemperatureReadingResponse ::
  "bytes \<Rightarrow> u8 \<Rightarrow> u16 \<Rightarrow> rat \<Rightarrow> int \<times> u8 \<times> u16 \<times> rat" where
  "decodeGetTemperatureReadingResponse buf cc reasonCode temperatureReading =
     (case decode_payload PLATFORM_ENVIRONMENTAL (platform_environmental_code GET_TEMPERATURE_READING)
             (\<lambda>dataSize. dataSize = 4) buf cc reasonCode of
        Inl (rc, cc, reasonCode) \<Rightarrow> (rc, cc, reasonCode, temperatureReading)
      | Inr (cc, reasonCode, _, ub) \<Rightarrow>
          let (rc, reading, ub) = unpack (0 :: u32) ub
          in if rc \<noteq> 0 then (rc, cc, reasonCode, temperatureReading)
             else (0, cc, reasonCode, of_int (sint reading) / of_int (push_bit 8 1)))"

text \<open>The \<open>int32_t\<close> threshold is kept as its 32-bit word.\<close>

definition decodeReadThermalParametersResponse ::
  "bytes \<Rightarrow> u8 \<Rightarrow> u16 \<Rightarrow> u32 \<Rightarrow> int \<times> u8 \<times> u16 \<times> u32" where
  "decodeReadThermalParametersResponse buf cc reasonCode threshold =
     (case decode_payload PLATFORM_ENVIRONMENTAL (platform_environmental_code READ_THERMAL_PARAMETERS)
             (\<lambda>dataSize. dataSize = 4) buf cc reasonCode of
        Inl (rc, cc, reasonCode) \<Rightarrow> (rc, cc, reasonCode, threshold)
      | Inr (cc, reasonCode, _, ub) \<Rightarrow>
          let (rc, threshold, ub) = unpack threshold ub in (rc, cc, reasonCode, threshold))"

text \<open>This decoder serves two commands and does not look at the command of the response.\<close>

definition decodeGetPowerDrawResponse ::
  "bytes \<Rightarrow> u8 \<Rightarrow> u16 \<Rightarrow> u32 \<Rightarrow> int \<times> u8 \<times> u16 \<times> u32" where
  "decodeGetPowerDrawResponse buf cc reasonCode powerValue =
     (let (rc, receivedMsgType, instanceId, receivedMessageType, ub) =
            unpackHeader LittleEndian (UnpackBuffer buf) nvidiaPciVendorId 0 0 0
      in if rc \<noteq> 0 then (rc, cc, reasonCode, powerValue)
         else if receivedMsgType \<noteq> ocp_RESPONSE then (EINVAL, cc, reasonCode, powerValue)
         else if receivedMessageType \<noteq> message_type_code PLATFORM_ENVIRONMENTAL
           then (EINVAL, cc, reasonCode, powerValue)
         else
           let (rc, receivedCommand, ub) = unpack (0 :: u8) ub
           in if rc \<noteq> 0 then (rc, cc, reasonCode, powerValue)
              else
                let (rc, cc, reasonCode, ub) = unpackReasonCodeAndCC ub cc reasonCode
                in if rc \<noteq> 0 \<or> cc \<noteq> CC_SUCCESS then (rc, cc, reasonCode, powerValue)
                   else
                     let (rc, dataSize, ub) = unpack (0 :: u16) ub
                     in if rc \<noteq> 0 then (rc, cc, reasonCode, powerValue)
                        else if dataSize \<noteq> 4 then (EINVAL, cc, reasonCode, powerValue)
                        else let (rc, powerValue, ub) = unpack powerValue ub in (rc, cc, reasonCode, powerValue))"

definition decodeGetCurrentEnergyCounterResponse ::
  "bytes \<Rightarrow> u8 \<Rightarrow> u16 \<Rightarrow> u64 \<Rightarrow> int \<times> u8 \<times> u16 \<times> u64" where
  "decodeGetCurrentEnergyCounterResponse buf cc reasonCode energy =
     (case decode_payload PLATFORM_ENVIRONMENTAL (platform_environmental_code GET_CURRENT_ENERGY_COUNTER)
             (\<lambda>dataSize. dataSize = 8) buf cc reasonCode of
        Inl (rc, cc, reasonCode) \<Rightarrow> (rc, cc, reasonCode, energy)
      | Inr (cc, reasonCode, _, ub) \<Rightarrow>
          let (rc, energy, ub) = unpack energy ub in (rc, cc, reasonCode, energy))"

definition decodeGetVoltageResponse ::
  "bytes \<Rightarrow> u8 \<Rightarrow> u16 \<Rightarrow> u32 \<Rightarrow> int \<times> u8 \<times> u16 \<times> u32" where
  "decodeGetVoltageResponse buf cc reasonCode voltage =
     (case decode_payload PLATFORM_ENVIRONMENTAL (platform_environmental_code GET_VOLTAGE)
             (\<lambda>dataSize. dataSize = 4) buf cc reasonCode of
        Inl (rc, cc, reasonCode) \<Rightarrow> (rc, cc, reasonCode, voltage)
      | Inr (cc, reasonCode, _, ub) \<Rightarrow>
          let (rc, voltage, ub) = unpack voltage ub in (rc, cc, reasonCode, voltage))"

definition decodeGetPowerLimitsResponse ::
  "bytes \<Rightarrow> u8 \<Rightarrow> u16 \<Rightarrow> u32 \<Rightarrow> u32 \<Rightarrow> u32 \<Rightarrow> int \<times> u8 \<times> u16 \<times> u32 \<times> u32 \<times> u32" where
  "decodeGetPowerLimitsResponse buf cc reasonCode persistent oneshot enforced =
     (case decode_payload PLATFORM_ENVIRONMENTAL (platform_environmental_code GET_POWER_LIMITS)
             (\<lambda>dataSize. dataSize = 4 * 3) buf cc reasonCode of
        Inl (rc, cc, reasonCode) \<Rightarrow> (rc, cc, reasonCode, persistent, oneshot, enforced)
      | Inr (cc, reasonCode, _, ub) \<Rightarrow>
          let (persistent, ub) = get persistent ub;
              (oneshot, ub) = get oneshot ub;
              (enforced, ub) = get enforced ub
          in (ub_error ub, cc, reasonCode, persistent, oneshot, enforced))"

text \<open>
  The version is every byte after the state byte but the last, whatever the data size says.
\<close>

definition decodeGetDriverInformationResponse ::
  "bytes \<Rightarrow> u8 \<Rightarrow> u16 \<Rightarrow> u8 \<Rightarrow> bytes \<Rightarrow> int \<times> u8 \<times> u16 \<times> u8 \<times> bytes" where
  "decodeGetDriverInformationResponse buf cc reasonCode driverState driverVersion =
     (case decode_payload PLATFORM_ENVIRONMENTAL (platform_environmental_code GET_DRIVER_INFORMATION)
             (\<lambda>dataSize. \<not> dataSize < 2) buf cc reasonCode of
        Inl (rc, cc, reasonCode) \<Rightarrow> (rc, cc, reasonCode, driverState, driverVersion)
      | Inr (cc, reasonCode, _, ub) \<Rightarrow>
          let (rc, driverStateValue, ub) = unpack 0 ub
          in if rc \<noteq> 0 then (rc, cc, reasonCode, driverState, driverVersion)
             else if ub_rest ub = [] then (EINVAL, cc, reasonCode, driverStateValue, driverVersion)
             else (0, cc, reasonCode, driverStateValue, butlast (ub_rest ub)))"

datatype inventory_property_id =
    BOARD_PART_NUMBER | SERIAL_NUMBER | MARKETING_NAME | DEVICE_PART_NUMBER | FRU_PART_NUMBER
  | MEMORY_VENDOR | MEMORY_PART_NUMBER | MAX_MEMORY_CAPACITY | BUILD_DATE | FIRMWARE_VERSION
  | DEVICE_GUID | INFOROM_VERSION | PRODUCT_LENGTH | PRODUCT_WIDTH | PRODUCT_HEIGHT
  | RATED_DEVICE_POWER_LIMIT | MIN_DEVICE_POWER_LIMIT | MAX_DEVICE_POWER_LIMIT
  | MAX_MODULE_POWER_LIMIT | MIN_MODULE_POWER_LIMIT | RATED_MODULE_POWER_LIMIT
  | DEFAULT_BOOST_CLOCKS | DEFAULT_BASE_CLOCKS | DEFAULT_EDPP_SCALING | MIN_EDPP_SCALING
  | MAX_EDPP_SCALING | MIN_GRAPHICS_CLOCK | MAX_GRAPHICS_CLOCK | MIN_MEMORY_CLOCK
  | MAX_MEMORY_CLOCK | INFINIBAND_GUID | RACK_GUID | RACK_SLOT_NUMBER | COMPUTE_SLOT_INDEX
  | NODE_INDEX | GPU_NODE_ID | NVLINK_PEER_TYPE

datatype inventory_value = InvString bytes | InvBytes bytes | InvU32 u32

definition maxInventoryDataSize :: nat where [simp]: "maxInventoryDataSize = 256"

definition decodeGetInventoryInformationResponse ::
  "bytes \<Rightarrow> u8 \<Rightarrow> u16 \<Rightarrow> inventory_property_id \<Rightarrow> inventory_value
     \<Rightarrow> int \<times> u8 \<times> u16 \<times> inventory_value" where
  "decodeGetInventoryInformationResponse buf cc reasonCode propertyId value =
     (case decode_payload PLATFORM_ENVIRONMENTAL (platform_environmental_code GET_INVENTORY_INFORMATION)
             (\<lambda>dataSize. \<not> (dataSize = 0 \<or> unat dataSize > maxInventoryDataSize)) buf cc reasonCode of
        Inl (rc, cc, reasonCode) \<Rightarrow> (rc, cc, reasonCode, value)
      | Inr (cc, reasonCode, dataSize, ub) \<Rightarrow>
          if propertyId \<in> {BOARD_PART_NUMBER, SERIAL_NUMBER, MARKETING_NAME, DEVICE_PART_NUMBER} then
            if length (ub_rest ub) < unat dataSize then (EINVAL, cc, reasonCode, value)
            else (0, cc, reasonCode, InvString (take (unat dataSize) (ub_rest ub)))
          else if propertyId = DEVICE_GUID then
            if length (ub_rest ub) < unat dataSize then (EINVAL, cc, reasonCode, value)
            else (0, cc, reasonCode, InvBytes (take (unat dataSize) (ub_rest ub)))
          else if propertyId \<in> {DEFAULT_BOOST_CLOCKS, DEFAULT_BASE_CLOCKS, MIN_GRAPHICS_CLOCK,
              MAX_GRAPHICS_CLOCK, RATED_DEVICE_POWER_LIMIT, MIN_DEVICE_POWER_LIMIT,
              MAX_DEVICE_POWER_LIMIT, MAX_MEMORY_CAPACITY, MIN_MEMORY_CLOCK, MAX_MEMORY_CLOCK} then
            let (rc, intValue, ub) = unpack 0 ub
            in if rc \<noteq> 0 then (rc, cc, reasonCode, value) else (0, cc, reasonCode, InvU32 intValue)
          else (EINVAL, cc, reasonCode, value))"

definition decodeGetCurrentUtilizationModeResponse ::
  "bytes \<Rightarrow> u8 \<Rightarrow> u16 \<Rightarrow> u32 \<Rightarrow> u32 \<Rightarrow> int \<times> u8 \<times> u16 \<times> u32 \<times> u32" where
  "decodeGetCurrentUtilizationModeResponse buf cc reasonCode gpuUtilization memoryUtilization =
     (case decode_payload PLATFORM_ENVIRONMENTAL (platform_environmental_code GET_CURRENT_UTILIZATION)
             (\<lambda>dataSize. dataSize = 4 * 2) buf cc reasonCode of
        Inl (rc, cc, reasonCode) \<Rightarrow> (rc, cc, reasonCode, gpuUtilization, memoryUtilization)
      | Inr (cc, reasonCode, _, ub) \<Rightarrow>
          let (gpuUtilization, ub) = get gpuUtilization ub;
              (memoryUtilization, ub) = get memoryUtilization ub
          in (ub_error ub, cc, reasonCode, gpuUtilization, memoryUtilization))"

definition decodeGetCurrentUtilizationModePayload :: "bytes \<Rightarrow> u32 \<Rightarrow> u32 \<Rightarrow> int \<times> u32 \<times> u32" where
  "decodeGetCurrentUtilizationModePayload buf gpuUtilization memoryUtilization =
     (let ub = UnpackBuffer buf;
          (gpuUtilization, ub) = get gpuUtilization ub;
          (memoryUtilization, ub) = get memoryUtilization ub
      in (ub_error ub, gpuUtilization, memoryUtilization))"

definition decodeGetClockLimitResponse ::
  "bytes \<Rightarrow> u8 \<Rightarrow> u16 \<Rightarrow> u32 \<Rightarrow> u32 \<Rightarrow> u32 \<Rightarrow> u32 \<Rightarrow> int \<times> u8 \<times> u16 \<times> u32 \<times> u32 \<times> u32 \<times> u32" where
  "decodeGetClockLimitResponse buf cc reasonCode requestedMin requestedMax presentMin presentMax =
     (case decode_payload PLATFORM_ENVIRONMENTAL (platform_environmental_code GET_CLOCK_LIMIT)
             (\<lambda>dataSize. dataSize = 4 * 4) buf cc reasonCode of
        Inl (rc, cc, reasonCode) \<Rightarrow> (rc, cc, reasonCode, requestedMin, requestedMax, presentMin, presentMax)
      | Inr (cc, reasonCode, _, ub) \<Rightarrow>
          let (requestedMin, ub) = get requestedMin ub;
              (requestedMax, ub) = get requestedMax ub;
              (presentMin, ub) = get presentMin ub;
              (presentMax, ub) = get presentMax ub
          in (ub_error ub, cc, reasonCode, requestedMin, requestedMax, presentMin, presentMax))"

definition decodeGetViolationDurationResponse ::
  "bytes \<Rightarrow> u8 \<Rightarrow> u16 \<Rightarrow> u64 \<Rightarrow> u64 \<Rightarrow> u64 \<Rightarrow> u64 \<Rightarrow> int \<times> u8 \<times> u16 \<times> u64 \<times> u64 \<times> u64 \<times> u64" where
  "decodeGetViolationDurationResponse buf cc reasonCode hw globalSw powerValue thermal =
     (case decode_payload PLATFORM_ENVIRONMENTAL (platform_environmental_code GET_VIOLATION_DURATION)
             (\<lambda>dataSize. dataSize = 8 * 4) buf cc reasonCode of
        Inl (rc, cc, reasonCode) \<Rightarrow> (rc, cc, reasonCode, hw, globalSw, powerValue, thermal)
      | Inr (cc, reasonCode, _, ub) \<Rightarrow>
          let (hw, ub) = get hw ub;
              (globalSw, ub) = get globalSw ub;
              (powerValue, ub) = get powerValue ub;
              (thermal, ub) = get thermal ub
          in (ub_error ub, cc, reasonCode, hw, globalSw, powerValue, thermal))"

definition decodeGetViolationDurationPayload ::
  "bytes \<Rightarrow> u64 \<Rightarrow> u64 \<Rightarrow> u64 \<Rightarrow> u64 \<Rightarrow> int \<times> u64 \<times> u64 \<times> u64 \<times> u64" where
  "decodeGetViolationDurationPayload buf hw globalSw powerValue thermal =
     (let ub = UnpackBuffer buf;
          (hw, ub) = get hw ub;
          (globalSw, ub) = get globalSw ub;
          (powerValue, ub) = get powerValue ub;
          (thermal, ub) = get thermal ub
      in (ub_error ub, hw, globalSw, powerValue, thermal))"

definition decodeGetMemoryCapacityUtilizationResponse ::
  "bytes \<Rightarrow> u8 \<Rightarrow> u16 \<Rightarrow> u32 \<Rightarrow> u32 \<Rightarrow> int \<times> u8 \<times> u16 \<times> u32 \<times> u32" where
  "decodeGetMemoryCapacityUtilizationResponse buf cc reasonCode reservedMemory usedMemory =
     (case decode_payload PLATFORM_ENVIRONMENTAL (platform_environmental_code GET_MEMORY_CAPACITY_UTILIZATION)
             (\<lambda>dataSize. dataSize = 4 * 2) buf cc reasonCode of
        Inl (rc, cc, reasonCode) \<Rightarrow> (rc, cc, reasonCode, reservedMemory, usedMemory)
      | Inr (cc, reasonCode, _, ub) \<Rightarrow>
          let (reservedMemory, ub) = get reservedMemory ub;
              (usedMemory, ub) = get usedMemory ub
          in (ub_error ub, cc, reasonCode, reservedMemory, usedMemory))"

definition decodeGetMemoryCapacityUtilizationPayload :: "bytes \<Rightarrow> u32 \<Rightarrow> u32 \<Rightarrow> int \<times> u32 \<times> u32" where
  "decodeGetMemoryCapacityUtilizationPayload buf reservedMemory usedMemory =
     (let ub = UnpackBuffer buf;
          (reservedMemory, ub) = get reservedMemory ub;
          (usedMemory, ub) = get usedMemory ub
      in (ub_error ub, reservedMemory, usedMemory))"

definition decodeXidEvent ::
  "bytes \<Rightarrow> u8 \<Rightarrow> u32 \<Rightarrow> u32 \<Rightarrow> u64 \<Rightarrow> bytes \<Rightarrow> int \<times> u8 \<times> u32 \<times> u32 \<times> u64 \<times> bytes" where
  "decodeXidEvent buf flags eventMessageReason sequenceNumber timestamp messageTextString =
     (let ub = UnpackBuffer buf;
          (flags, ub) = get flags ub;
          (_, ub) = skip 3 ub;
          (eventMessageReason, ub) = get eventMessageReason ub;
          (sequenceNumber, ub) = get sequenceNumber ub;
          (timestamp, ub) = get timestamp ub
      in if ub_error ub \<noteq> 0
         then (ub_error ub, flags, eventMessageReason, sequenceNumber, timestamp, messageTextString)
         else (0, flags, eventMessageReason, sequenceNumber, timestamp, ub_rest ub))"

definition decodeGetCurrentClockFrequencyResponse ::
  "bytes \<Rightarrow> u8 \<Rightarrow> u16 \<Rightarrow> u32 \<Rightarrow> int \<times> u8 \<times> u16 \<times> u32" where
  "decodeGetCurrentClockFrequencyResponse buf cc reasonCode clockFreqMHz =
     (case decode_payload PLATFORM_ENVIRONMENTAL (platform_environmental_code GET_CURRENT_CLOCK_FREQUENCY)
             (\<lambda>dataSize. dataSize = 4) buf cc reasonCode of
        Inl (rc, cc, reasonCode) \<Rightarrow> (rc, cc, reasonCode, clockFreqMHz)
      | Inr (cc, reasonCode, _, ub) \<Rightarrow>
          let (rc, clockFreqMHz, ub) = unpack clockFreqMHz ub in (rc, cc, reasonCode, clockFreqMHz))"

definition decodeGetEccErrorCountsResponse ::
  "bytes \<Rightarrow> u8 \<Rightarrow> u16 \<Rightarrow> u16 \<Rightarrow> u32 \<Rightarrow> u32 \<Rightarrow> u32 \<Rightarrow> u32 \<Rightarrow> u32
     \<Rightarrow> int \<times> u8 \<times> u16 \<times> u16 \<times> u32 \<times> u32 \<times> u32 \<times> u32 \<times> u32" where
  "decodeGetEccErrorCountsResponse buf cc reasonCode flags sramC sramUSecded sramUParity dramC dramU =
     (case decode_payload PLATFORM_ENVIRONMENTAL (platform_environmental_code GET_ECC_ERROR_COUNTS)
             (\<lambda>dataSize. dataSize = 2 + 4 * 5) buf cc reasonCode of
        Inl (rc, cc, reasonCode) \<Rightarrow>
          (rc, cc, reasonCode, flags, sramC, sramUSecded, sramUParity, dramC, dramU)
      | Inr (cc, reasonCode, _, ub) \<Rightarrow>
          let (flags, ub) = get flags ub;
              (sramC, ub) = get sramC ub;
              (sramUSecded, ub) = get sramUSecded ub;
              (sramUParity, ub) = get sramUParity ub;
              (dramC, ub) = get dramC ub;
              (dramU, ub) = get dramU ub
          in (ub_error ub, cc, reasonCode, flags, sramC, sramUSecded, sramUParity, dramC, dramU))"

definition eccModeCurrentEnabledMask :: u8 where [simp]: "eccModeCurrentEnabledMask = 0x01"
definition eccModePendingEnabledMask :: u8 where [simp]: "eccModePendingEnabledMask = 0x02"

definition decodeGetEccModeResponse ::
  "bytes \<Rightarrow> u8 \<Rightarrow> u16 \<Rightarrow> bool \<Rightarrow> bool \<Rightarrow> int \<times> u8 \<times> u16 \<times> bool \<times> bool" where
  "decodeGetEccModeResponse buf cc reasonCode currentEnabled pendingEnabled =
     (case decode_payload PLATFORM_ENVIRONMENTAL (platform_environmental_code GET_ECC_MODE)
             (\<lambda>dataSize. dataSize = 1) buf cc reasonCode of
        Inl (rc, cc, reasonCode) \<Rightarrow> (rc, cc, reasonCode, currentEnabled, pendingEnabled)
      | Inr (cc, reasonCode, _, ub) \<Rightarrow>
          let (rc, flags, ub) = unpack 0 ub
          in if rc \<noteq> 0 then (rc, cc, reasonCode, currentEnabled, pendingEnabled)
             else (ub_error ub, cc, reasonCode, flags AND eccModeCurrentEnabledMask \<noteq> 0,
                   flags AND eccModePendingEnabledMask \<noteq> 0))"

definition decodeGetEccModePayload :: "bytes \<Rightarrow> bool \<Rightarrow> bool \<Rightarrow> int \<times> bool \<times> bool" where
  "decodeGetEccModePayload buf currentEnabled pendingEnabled =
     (let (rc, flags, ub) = unpack 0 (UnpackBuffer buf)
      in if rc \<noteq> 0 then (rc, currentEnabled, pendingEnabled)
         else (ub_error ub, flags AND eccModeCurrentEnabledMask \<noteq> 0,
               flags AND eccModePendingEnabledMask \<noteq> 0))"

end
