(* ===== verification/Gpu_Response_Specs.thy ===== *)
theory Gpu_Response_Specs
  imports Gpu_Responses
begin

text \<open>
  What the decoders accept. \<open>response_frame\<close> is a response on the wire up to its reason code,
  \<open>success_frame\<close> a successful one with its data size and payload. Each decoder reports success
  exactly on the success frames of its command and size, and returns the payload's fields.
\<close>

definition response_id :: "u8 \<Rightarrow> bool" where
  "response_id mid \<longleftrightarrow> mid AND requestBitMask = 0 \<and> mid AND instanceIdReservedBitMask = 0"

definition response_frame :: "message_type \<Rightarrow> u8 \<Rightarrow> u8 \<Rightarrow> u8 \<Rightarrow> u16 \<Rightarrow> bytes \<Rightarrow> bytes" where
  "response_frame mt cmd mid cc reason rest =
     rev (le_bytes nvidiaPciVendorId) @ [mid, 0x89, message_type_code mt, cmd, cc] @ le_bytes reason @ rest"

definition success_frame :: "message_type \<Rightarrow> u8 \<Rightarrow> u8 \<Rightarrow> u16 \<Rightarrow> u16 \<Rightarrow> bytes \<Rightarrow> bytes" where
  "success_frame mt cmd mid reason ds rest =
     response_frame mt cmd mid CC_SUCCESS reason (le_bytes ds @ rest)"

lemma reader_eq_iff: "ub = reader (ub_rest ub) \<longleftrightarrow> ub_error ub = 0"
  by (cases ub) simp

lemma unpackHeader_iff:
  "unpackHeader LittleEndian (reader bs) vid mt0 iid0 ty0 = (0, mt, iid, ty, ub') \<longleftrightarrow>
     (\<exists>mid r. bs = rev (le_bytes vid) @ [mid, 0x89, ty] @ r \<and> ub' = reader r \<and> mid AND 32 = 0 \<and>
        iid = mid AND 31 \<and> mt = (if mid AND 128 \<noteq> 0 then ocp_REQUEST else ocp_RESPONSE))"
proof
  assume "unpackHeader LittleEndian (reader bs) vid mt0 iid0 ty0 = (0, mt, iid, ty, ub')"
  from unpackHeader_sound [OF this]
  show "\<exists>mid r. bs = rev (le_bytes vid) @ [mid, 0x89, ty] @ r \<and> ub' = reader r \<and> mid AND 32 = 0 \<and>
        iid = mid AND 31 \<and> mt = (if mid AND 128 \<noteq> 0 then ocp_REQUEST else ocp_RESPONSE)"
    using reader_eq_iff [of ub'] by force
next
  assume "\<exists>mid r. bs = rev (le_bytes vid) @ [mid, 0x89, ty] @ r \<and> ub' = reader r \<and> mid AND 32 = 0 \<and>
        iid = mid AND 31 \<and> mt = (if mid AND 128 \<noteq> 0 then ocp_REQUEST else ocp_RESPONSE)"
  then show "unpackHeader LittleEndian (reader bs) vid mt0 iid0 ty0 = (0, mt, iid, ty, ub')"
    by (auto simp: unpackHeader_def rev_le_bytes_u16 codec_simps Let_def)
qed

lemma unpackReasonCodeAndCC_iff:
  "unpackReasonCodeAndCC (reader bs) cc0 rs0 = (0, cc, rs, ub') \<longleftrightarrow>
     (\<exists>reason r. bs = cc # le_bytes reason @ r \<and> ub' = reader r \<and>
        rs = (if cc = CC_SUCCESS then 0 else reason))"
proof
  assume a: "unpackReasonCodeAndCC (reader bs) cc0 rs0 = (0, cc, rs, ub')"
  obtain c ub1 where 1: "get (0 :: u8) (reader bs) = (c, ub1)" by (cases "get (0 :: u8) (reader bs)")
  obtain r ub2 where 2: "get (0 :: u16) ub1 = (r, ub2)" by (cases "get (0 :: u16) ub1")
  from a have f: "ub_error ub2 = 0" "cc = c" "rs = (if c = CC_SUCCESS then 0 else r)" "ub' = ub2"
    by (auto simp: unpackReasonCodeAndCC_def 1 2 split: if_splits)
  note g2 = get_ok [OF _ 2 f(1), simplified] and g1 = get_ok [OF _ 1 get_ok(1) [OF _ 2 f(1)], simplified]
  show "\<exists>reason r. bs = cc # le_bytes reason @ r \<and> ub' = reader r \<and>
        rs = (if cc = CC_SUCCESS then 0 else reason)"
    using f g1 g2 reader_eq_iff [of ub2] by (intro exI [of _ r] exI [of _ "ub_rest ub2"]) simp
qed (auto simp: unpackReasonCodeAndCC_def codec_simps)

lemma decodeResponseCommonHeader_iff:
  "decodeResponseCommonHeader (reader buf) mt cmd cc0 rs0 = (0, cc, rs, ub') \<longleftrightarrow>
     (\<exists>mid reason r. response_id mid \<and> buf = response_frame mt cmd mid cc reason r \<and>
        ub' = reader r \<and> rs = (if cc = CC_SUCCESS then 0 else reason))" (is "?l \<longleftrightarrow> ?r")
proof
  assume a: ?l
  obtain rc m i t ub1 where 1: "unpackHeader LittleEndian (reader buf) nvidiaPciVendorId 0 0 0 = (rc, m, i, t, ub1)"
    by (metis surj_pair)
  obtain rc2 c ub2 where 2: "unpack (0 :: u8) ub1 = (rc2, c, ub2)" by (metis surj_pair)
  from a have f: "rc = 0" "m = ocp_RESPONSE" "t = message_type_code mt" "rc2 = 0" "c = cmd"
    "unpackReasonCodeAndCC ub2 cc0 rs0 = (0, cc, rs, ub')"
    by (auto simp: decodeResponseCommonHeader_def 1 2 split: if_splits)
  from 1 f(1-3) obtain mid r where h: "buf = rev (le_bytes nvidiaPciVendorId) @ [mid, 0x89, message_type_code mt] @ r"
    "ub1 = reader r" "mid AND 32 = 0" "mid AND 128 = 0"
    by (auto simp: unpackHeader_iff split: if_splits)
  from 2 f(4,5) h(2) obtain s where s: "r = cmd # s" "ub2 = reader s"
    by (cases ub2) (auto simp: unpack_ok_iff)
  from f(6) s(2) obtain reason q where "s = cc # le_bytes reason @ q" "ub' = reader q"
    "rs = (if cc = CC_SUCCESS then 0 else reason)"
    unfolding s(2) unpackReasonCodeAndCC_iff by blast
  with h s(1) show ?r
    by (intro exI [of _ mid] exI [of _ reason] exI [of _ q])
      (simp add: response_frame_def response_id_def)
next
  assume ?r
  then obtain mid reason r where b: "response_id mid" "buf = response_frame mt cmd mid cc reason r"
    "ub' = reader r" "rs = (if cc = CC_SUCCESS then 0 else reason)" by blast
  have "unpackHeader LittleEndian (reader buf) nvidiaPciVendorId 0 0 0
      = (0, ocp_RESPONSE, mid AND 31, message_type_code mt, reader (cmd # cc # le_bytes reason @ r))"
    using b by (simp add: unpackHeader_iff response_frame_def response_id_def)
  moreover have "unpackReasonCodeAndCC (reader (cc # le_bytes reason @ r)) cc0 rs0 = (0, cc, rs, ub')"
    using b unfolding unpackReasonCodeAndCC_iff by blast
  ultimately show ?l
    by (simp add: decodeResponseCommonHeader_def codec_simps)
qed

lemma decode_payload_Inl: "decode_payload mt cmd ok buf cc0 rs0 = Inl (rc, cc, rs) \<Longrightarrow> \<not> (rc = 0 \<and> cc = CC_SUCCESS)"
  by (auto simp: decode_payload_def Let_def split: prod.splits if_splits)

lemma decode_payload_Inr_iff:
  "decode_payload mt cmd ok buf cc0 rs0 = Inr (cc, rs, ds, ub') \<longleftrightarrow>
     cc = CC_SUCCESS \<and> rs = 0 \<and> ok ds \<and>
     (\<exists>mid reason r. response_id mid \<and> buf = success_frame mt cmd mid reason ds r \<and> ub' = reader r)"
  (is "?l \<longleftrightarrow> ?r")
proof
  assume a: ?l
  obtain rc c s ub1 where 1: "decodeResponseCommonHeader (reader buf) mt cmd cc0 rs0 = (rc, c, s, ub1)"
    by (metis surj_pair)
  obtain rc2 d ub2 where 2: "unpack (0 :: u16) ub1 = (rc2, d, ub2)" by (metis surj_pair)
  from a have f: "rc = 0" "c = CC_SUCCESS" "rc2 = 0" "ok d" "cc = c" "rs = s" "ds = d" "ub' = ub2"
    by (auto simp: decode_payload_def 1 2 split: if_splits)
  with 1 2 show ?r
    by (cases ub2) (force simp: decodeResponseCommonHeader_iff success_frame_def unpack_ok_iff)
next
  assume r: ?r
  then obtain mid reason r where b: "response_id mid" "buf = success_frame mt cmd mid reason ds r"
    "ub' = reader r" by blast
  have "decodeResponseCommonHeader (reader buf) mt cmd cc0 rs0 = (0, CC_SUCCESS, 0, reader (le_bytes ds @ r))"
    using b by (auto simp: decodeResponseCommonHeader_iff success_frame_def)
  with r b(3) show ?l
    by (simp add: decode_payload_def codec_simps)
qed

lemma decode_payload_cases:
  obtains (early) rc cc rs where "decode_payload mt cmd ok buf cc0 rs0 = Inl (rc, cc, rs)"
      "\<not> (rc = 0 \<and> cc = CC_SUCCESS)"
      "\<not> (\<exists>mid reason ds r. response_id mid \<and> ok ds \<and> buf = success_frame mt cmd mid reason ds r)"
  | (payload) mid reason ds r where
      "decode_payload mt cmd ok buf cc0 rs0 = Inr (CC_SUCCESS, 0, ds, reader r)"
      "response_id mid" "ok ds" "buf = success_frame mt cmd mid reason ds r"
proof (cases "decode_payload mt cmd ok buf cc0 rs0")
  case (Inl e)
  then obtain rc cc rs where e: "decode_payload mt cmd ok buf cc0 rs0 = Inl (rc, cc, rs)"
    by (cases e) auto
  moreover have "\<not> (\<exists>mid reason ds r. response_id mid \<and> ok ds \<and> buf = success_frame mt cmd mid reason ds r)"
    using decode_payload_Inr_iff [of mt cmd ok buf cc0 rs0] e by fastforce
  ultimately show ?thesis
    using early decode_payload_Inl [OF e] by blast
next
  case (Inr v)
  then obtain cc rs ds ub where "decode_payload mt cmd ok buf cc0 rs0 = Inr (cc, rs, ds, ub)"
    by (cases v) auto
  moreover from this obtain mid reason r where "cc = CC_SUCCESS" "rs = 0" "ok ds" "response_id mid"
    "buf = success_frame mt cmd mid reason ds r" "ub = reader r"
    by (auto simp: decode_payload_Inr_iff)
  ultimately show ?thesis
    using payload by blast
qed

lemma success_frame_inj:
  "success_frame mt cmd mid reason ds r = success_frame mt cmd mid' reason' ds' r' \<longleftrightarrow>
     mid = mid' \<and> reason = reason' \<and> ds = ds' \<and> r = r'"
  by (auto simp: success_frame_def response_frame_def u16c.enc_inj)

text \<open>
  The common shape of the exactness proofs: \<open>parse\<close> is the part of a decoder after the header, on
  the bytes that remain, and \<open>layout v\<close> the byte string of the field values \<open>v\<close>.
\<close>

lemma exact_pattern:
  assumes dec: "D = (case decode_payload mt cmd ok buf cc0 rs0 of
                   Inl (rc, cc, rs) \<Rightarrow> (rc, cc, rs, old) | Inr (cc, rs, ds, ub) \<Rightarrow> body cc rs ds ub)"
    and body: "\<And>ds r rs cc v. ok ds \<Longrightarrow>
      body CC_SUCCESS 0 ds (reader r) = (0, cc, rs, v) \<longleftrightarrow> cc = CC_SUCCESS \<and> rs = 0 \<and> parses ds r v"
  shows "D = (0, CC_SUCCESS, rs, v) \<longleftrightarrow>
    rs = 0 \<and> (\<exists>mid reason ds r. response_id mid \<and> ok ds \<and> buf = success_frame mt cmd mid reason ds r \<and> parses ds r v)"
proof (cases rule: decode_payload_cases [of mt cmd ok buf cc0 rs0])
  case (early rc cc rs)
  then show ?thesis unfolding dec by auto
next
  case (payload mid reason ds r)
  then show ?thesis
    unfolding dec by (auto simp: body success_frame_inj)
qed

section \<open>Reading fields\<close>

named_theorems field_read "reading a field from a buffer without error"

lemma unpack_u8_field [field_read]:
  "unpack (old :: u8) (reader r) =
     (case take_word r of None \<Rightarrow> (EINVAL, old, \<lparr>ub_rest = r, ub_error = EINVAL\<rparr>) | Some (v, t) \<Rightarrow> (0, v, reader t))"
  by (simp add: unpack_on_eq split: option.splits)

lemma unpack_u16_field [field_read]:
  "unpack (old :: u16) (reader r) =
     (case take_word r of None \<Rightarrow> (EINVAL, old, \<lparr>ub_rest = r, ub_error = EINVAL\<rparr>) | Some (v, t) \<Rightarrow> (0, v, reader t))"
  by (simp add: unpack_on_eq split: option.splits)

lemma unpack_u32_field [field_read]:
  "unpack (old :: u32) (reader r) =
     (case take_word r of None \<Rightarrow> (EINVAL, old, \<lparr>ub_rest = r, ub_error = EINVAL\<rparr>) | Some (v, t) \<Rightarrow> (0, v, reader t))"
  by (simp add: unpack_on_eq split: option.splits)

lemma unpack_u64_field [field_read]:
  "unpack (old :: u64) (reader r) =
     (case take_word r of None \<Rightarrow> (EINVAL, old, \<lparr>ub_rest = r, ub_error = EINVAL\<rparr>) | Some (v, t) \<Rightarrow> (0, v, reader t))"
  by (simp add: unpack_on_eq split: option.splits)

lemma unpack_error [field_read]:
  "unpack old \<lparr>ub_rest = r, ub_error = 22\<rparr> = (22, old, \<lparr>ub_rest = r, ub_error = 22\<rparr>)"
  by (simp add: unpack_on_def)

lemma take_word_u8_iff [field_read]: "take_word bs = Some (w :: u8, r) \<longleftrightarrow> bs = w # r"
  using u8c.dec_iff [of bs w r] by simp

lemmas take_word_iff [field_read] = u16c.dec_iff u32c.dec_iff u64c.dec_iff

lemma take_word_u8_Cons [field_read]: "take_word (w # r) = Some (w :: u8, r)"
  by (simp add: take_word_u8_iff)

lemmas take_word_enc [field_read] = u16c.dec_enc u32c.dec_enc u64c.dec_enc

lemma le_u16_app [field_read]: "le_bytes (a :: u16) @ x = le_bytes b @ y \<longleftrightarrow> a = b \<and> x = y"
  using u16c.enc_prefix_free by blast

lemma le_u32_app [field_read]: "le_bytes (a :: u32) @ x = le_bytes b @ y \<longleftrightarrow> a = b \<and> x = y"
  using u32c.enc_prefix_free by blast

lemma le_u64_app [field_read]: "le_bytes (a :: u64) @ x = le_bytes b @ y \<longleftrightarrow> a = b \<and> x = y"
  using u64c.enc_prefix_free by blast

lemmas read_fields = field_read get_on_def

section \<open>Exactness of the decoders\<close>

lemma decodeQueryDeviceIdentificationResponse_exact:
  "decodeQueryDeviceIdentificationResponse buf cc0 rs0 i' n' = (0, CC_SUCCESS, rs, i, n) \<longleftrightarrow>
     rs = 0 \<and> (\<exists>mid reason ds r. response_id mid \<and> ds = 1 * 2 \<and>
       buf = success_frame DEVICE_CAPABILITY_DISCOVERY (device_capability_code QUERY_DEVICE_IDENTIFICATION) mid reason ds r \<and>
       (\<exists>t. r = [i, n] @ t))"
  unfolding decodeQueryDeviceIdentificationResponse_def
  by (rule exact_pattern [where parses = "\<lambda>ds r (i, n). \<exists>t. r = [i, n] @ t" and v = "(i, n)", simplified prod.case, OF refl])
    (auto simp: read_fields split: option.splits prod.splits)

lemma decodeReadThermalParametersResponse_exact:
  "decodeReadThermalParametersResponse buf cc0 rs0 v' = (0, CC_SUCCESS, rs, v) \<longleftrightarrow>
     rs = 0 \<and> (\<exists>mid reason ds r. response_id mid \<and> ds = 4 \<and>
       buf = success_frame PLATFORM_ENVIRONMENTAL (platform_environmental_code READ_THERMAL_PARAMETERS) mid reason ds r \<and>
       (\<exists>t. r = le_bytes v @ t))"
  unfolding decodeReadThermalParametersResponse_def
  by (rule exact_pattern [where parses = "\<lambda>ds r (v). \<exists>t. r = le_bytes v @ t" and v = "(v)", simplified prod.case, OF refl])
    (auto simp: read_fields split: option.splits prod.splits)

lemma decodeGetCurrentEnergyCounterResponse_exact:
  "decodeGetCurrentEnergyCounterResponse buf cc0 rs0 v' = (0, CC_SUCCESS, rs, v) \<longleftrightarrow>
     rs = 0 \<and> (\<exists>mid reason ds r. response_id mid \<and> ds = 8 \<and>
       buf = success_frame PLATFORM_ENVIRONMENTAL (platform_environmental_code GET_CURRENT_ENERGY_COUNTER) mid reason ds r \<and>
       (\<exists>t. r = le_bytes v @ t))"
  unfolding decodeGetCurrentEnergyCounterResponse_def
  by (rule exact_pattern [where parses = "\<lambda>ds r (v). \<exists>t. r = le_bytes v @ t" and v = "(v)", simplified prod.case, OF refl])
    (auto simp: read_fields split: option.splits prod.splits)

lemma decodeGetVoltageResponse_exact:
  "decodeGetVoltageResponse buf cc0 rs0 v' = (0, CC_SUCCESS, rs, v) \<longleftrightarrow>
     rs = 0 \<and> (\<exists>mid reason ds r. response_id mid \<and> ds = 4 \<and>
       buf = success_frame PLATFORM_ENVIRONMENTAL (platform_environmental_code GET_VOLTAGE) mid reason ds r \<and>
       (\<exists>t. r = le_bytes v @ t))"
  unfolding decodeGetVoltageResponse_def
  by (rule exact_pattern [where parses = "\<lambda>ds r (v). \<exists>t. r = le_bytes v @ t" and v = "(v)", simplified prod.case, OF refl])
    (auto simp: read_fields split: option.splits prod.splits)

lemma decodeGetPowerLimitsResponse_exact:
  "decodeGetPowerLimitsResponse buf cc0 rs0 p' q' e' = (0, CC_SUCCESS, rs, p, q, e) \<longleftrightarrow>
     rs = 0 \<and> (\<exists>mid reason ds r. response_id mid \<and> ds = 4 * 3 \<and>
       buf = success_frame PLATFORM_ENVIRONMENTAL (platform_environmental_code GET_POWER_LIMITS) mid reason ds r \<and>
       (\<exists>t. r = le_bytes p @ le_bytes q @ le_bytes e @ t))"
  unfolding decodeGetPowerLimitsResponse_def
  by (rule exact_pattern [where parses = "\<lambda>ds r (p, q, e). \<exists>t. r = le_bytes p @ le_bytes q @ le_bytes e @ t" and v = "(p, q, e)", simplified prod.case, OF refl])
    (auto simp: read_fields split: option.splits prod.splits)

lemma decodeGetCurrentUtilizationModeResponse_exact:
  "decodeGetCurrentUtilizationModeResponse buf cc0 rs0 g' m' = (0, CC_SUCCESS, rs, g, m) \<longleftrightarrow>
     rs = 0 \<and> (\<exists>mid reason ds r. response_id mid \<and> ds = 4 * 2 \<and>
       buf = success_frame PLATFORM_ENVIRONMENTAL (platform_environmental_code GET_CURRENT_UTILIZATION) mid reason ds r \<and>
       (\<exists>t. r = le_bytes g @ le_bytes m @ t))"
  unfolding decodeGetCurrentUtilizationModeResponse_def
  by (rule exact_pattern [where parses = "\<lambda>ds r (g, m). \<exists>t. r = le_bytes g @ le_bytes m @ t" and v = "(g, m)", simplified prod.case, OF refl])
    (auto simp: read_fields split: option.splits prod.splits)

lemma decodeGetClockLimitResponse_exact:
  "decodeGetClockLimitResponse buf cc0 rs0 a' b' c' d' = (0, CC_SUCCESS, rs, a, b, c, d) \<longleftrightarrow>
     rs = 0 \<and> (\<exists>mid reason ds r. response_id mid \<and> ds = 4 * 4 \<and>
       buf = success_frame PLATFORM_ENVIRONMENTAL (platform_environmental_code GET_CLOCK_LIMIT) mid reason ds r \<and>
       (\<exists>t. r = le_bytes a @ le_bytes b @ le_bytes c @ le_bytes d @ t))"
  unfolding decodeGetClockLimitResponse_def
  by (rule exact_pattern [where parses = "\<lambda>ds r (a, b, c, d). \<exists>t. r = le_bytes a @ le_bytes b @ le_bytes c @ le_bytes d @ t" and v = "(a, b, c, d)", simplified prod.case, OF refl])
    (auto simp: read_fields split: option.splits prod.splits)

lemma decodeGetViolationDurationResponse_exact:
  "decodeGetViolationDurationResponse buf cc0 rs0 a' b' c' d' = (0, CC_SUCCESS, rs, a, b, c, d) \<longleftrightarrow>
     rs = 0 \<and> (\<exists>mid reason ds r. response_id mid \<and> ds = 8 * 4 \<and>
       buf = success_frame PLATFORM_ENVIRONMENTAL (platform_environmental_code GET_VIOLATION_DURATION) mid reason ds r \<and>
       (\<exists>t. r = le_bytes a @ le_bytes b @ le_bytes c @ le_bytes d @ t))"
  unfolding decodeGetViolationDurationResponse_def
  by (rule exact_pattern [where parses = "\<lambda>ds r (a, b, c, d). \<exists>t. r = le_bytes a @ le_bytes b @ le_bytes c @ le_bytes d @ t" and v = "(a, b, c, d)", simplified prod.case, OF refl])
    (auto simp: read_fields split: option.splits prod.splits)

lemma decodeGetMemoryCapacityUtilizationResponse_exact:
  "decodeGetMemoryCapacityUtilizationResponse buf cc0 rs0 a' b' = (0, CC_SUCCESS, rs, a, b) \<longleftrightarrow>
     rs = 0 \<and> (\<exists>mid reason ds r. response_id mid \<and> ds = 4 * 2 \<and>
       buf = success_frame PLATFORM_ENVIRONMENTAL (platform_environmental_code GET_MEMORY_CAPACITY_UTILIZATION) mid reason ds r \<and>
       (\<exists>t. r = le_bytes a @ le_bytes b @ t))"
  unfolding decodeGetMemoryCapacityUtilizationResponse_def
  by (rule exact_pattern [where parses = "\<lambda>ds r (a, b). \<exists>t. r = le_bytes a @ le_bytes b @ t" and v = "(a, b)", simplified prod.case, OF refl])
    (auto simp: read_fields split: option.splits prod.splits)

lemma decodeGetCurrentClockFrequencyResponse_exact:
  "decodeGetCurrentClockFrequencyResponse buf cc0 rs0 v' = (0, CC_SUCCESS, rs, v) \<longleftrightarrow>
     rs = 0 \<and> (\<exists>mid reason ds r. response_id mid \<and> ds = 4 \<and>
       buf = success_frame PLATFORM_ENVIRONMENTAL (platform_environmental_code GET_CURRENT_CLOCK_FREQUENCY) mid reason ds r \<and>
       (\<exists>t. r = le_bytes v @ t))"
  unfolding decodeGetCurrentClockFrequencyResponse_def
  by (rule exact_pattern [where parses = "\<lambda>ds r (v). \<exists>t. r = le_bytes v @ t" and v = "(v)", simplified prod.case, OF refl])
    (auto simp: read_fields split: option.splits prod.splits)

lemma decodeGetEccErrorCountsResponse_exact:
  "decodeGetEccErrorCountsResponse buf cc0 rs0 f' a' b' c' d' e' = (0, CC_SUCCESS, rs, f, a, b, c, d, e) \<longleftrightarrow>
     rs = 0 \<and> (\<exists>mid reason ds r. response_id mid \<and> ds = 2 + 4 * 5 \<and>
       buf = success_frame PLATFORM_ENVIRONMENTAL (platform_environmental_code GET_ECC_ERROR_COUNTS) mid reason ds r \<and>
       (\<exists>t. r = le_bytes f @ le_bytes a @ le_bytes b @ le_bytes c @ le_bytes d @ le_bytes e @ t))"
  unfolding decodeGetEccErrorCountsResponse_def
  by (rule exact_pattern [where parses = "\<lambda>ds r (f, a, b, c, d, e). \<exists>t. r = le_bytes f @ le_bytes a @ le_bytes b @ le_bytes c @ le_bytes d @ le_bytes e @ t" and v = "(f, a, b, c, d, e)", simplified prod.case, OF refl])
    (auto simp: read_fields split: option.splits prod.splits)

lemma decodeGetTemperatureReadingResponse_exact:
  "decodeGetTemperatureReadingResponse buf cc0 rs0 v' = (0, CC_SUCCESS, rs, v) \<longleftrightarrow>
     rs = 0 \<and> (\<exists>mid reason ds r. response_id mid \<and> ds = 4 \<and>
       buf = success_frame PLATFORM_ENVIRONMENTAL (platform_environmental_code GET_TEMPERATURE_READING) mid reason ds r \<and>
       (\<exists>w t. r = le_bytes w @ t \<and> v = of_int (sint (w :: u32)) / 256))"
  unfolding decodeGetTemperatureReadingResponse_def
  by (rule exact_pattern [where parses = "\<lambda>ds r v. \<exists>w t. r = le_bytes w @ t \<and> v = of_int (sint (w :: u32)) / 256", OF refl])
    (auto simp: read_fields split: option.splits prod.splits)

lemma decodeGetEccModeResponse_exact:
  "decodeGetEccModeResponse buf cc0 rs0 c' p' = (0, CC_SUCCESS, rs, c, p) \<longleftrightarrow>
     rs = 0 \<and> (\<exists>mid reason ds r. response_id mid \<and> ds = 1 \<and>
       buf = success_frame PLATFORM_ENVIRONMENTAL (platform_environmental_code GET_ECC_MODE) mid reason ds r \<and>
       (\<exists>flags t. r = flags # t \<and> c = bit flags 0 \<and> p = bit flags 1))"
  unfolding decodeGetEccModeResponse_def
  by (rule exact_pattern [where parses = "\<lambda>ds r (c, p). \<exists>flags t. r = flags # t \<and> c = bit flags 0 \<and> p = bit flags 1"
        and v = "(c, p)", simplified prod.case, OF refl])
    (auto simp: read_fields and_exp_eq_0_iff_not_bit [where n = 0, simplified]
      and_exp_eq_0_iff_not_bit [where n = 1, simplified] split: option.splits prod.splits)

lemma decodeGetDriverInformationResponse_exact:
  "decodeGetDriverInformationResponse buf cc0 rs0 st' ver' = (0, CC_SUCCESS, rs, st, ver) \<longleftrightarrow>
     rs = 0 \<and> (\<exists>mid reason ds r. response_id mid \<and> \<not> ds < 2 \<and>
       buf = success_frame PLATFORM_ENVIRONMENTAL (platform_environmental_code GET_DRIVER_INFORMATION) mid reason ds r \<and>
       (\<exists>term. r = st # ver @ [term]))"
  unfolding decodeGetDriverInformationResponse_def
  by (rule exact_pattern [where parses = "\<lambda>ds r (st, ver). \<exists>term. r = st # ver @ [term]"
        and v = "(st, ver)", simplified prod.case, OF refl])
    (auto simp: read_fields split: option.splits prod.splits intro: append_butlast_last_id [symmetric])

lemma get_each_reader:
  "get_each old (reader r) =
     (if length old \<le> length r then (take (length old) r, reader (drop (length old) r))
      else (r @ drop (length r) old, \<lparr>ub_rest = [], ub_error = EINVAL\<rparr>))"
proof (induction old arbitrary: r)
  case Nil
  then show ?case by simp
next
  case (Cons b bs)
  have err: "get_each xs \<lparr>ub_rest = q, ub_error = 22\<rparr> = (xs, \<lparr>ub_rest = q, ub_error = 22\<rparr>)" for xs q
    by (induction xs) (simp_all add: read_fields)
  show ?case
    using Cons.IH by (cases r) (auto simp: read_fields take_word_def err)
qed

lemma supported_list_body:
  "(case get_each old (reader r) of (xs, ub) \<Rightarrow> (ub_error ub, cc0, rs0, xs)) = (0, cc, rs, v) \<longleftrightarrow>
     cc = cc0 \<and> rs = rs0 \<and> length v = length old \<and> (\<exists>t. r = v @ t)"
  by (auto simp: get_each_reader not_le intro: exI [of _ "drop (length old) r"])

lemma decodeGetSupportedMessageTypesResponse_exact:
  "decodeGetSupportedMessageTypesResponse buf cc0 rs0 old = (0, CC_SUCCESS, rs, v) \<longleftrightarrow>
     rs = 0 \<and> (\<exists>mid reason ds r. response_id mid \<and> unat ds = length old \<and>
       buf = success_frame DEVICE_CAPABILITY_DISCOVERY (device_capability_code GET_SUPPORTED_MESSAGE_TYPES) mid reason ds r \<and>
       (length v = length old \<and> (\<exists>t. r = v @ t)))"
  unfolding decodeGetSupportedMessageTypesResponse_def
  by (rule exact_pattern [where parses = "\<lambda>ds r v. length v = length old \<and> (\<exists>t. r = v @ t)", OF refl])
    (auto simp: supported_list_body)

lemma decodeGetSupportedCommandCodesResponse_exact:
  "decodeGetSupportedCommandCodesResponse buf cc0 rs0 old = (0, CC_SUCCESS, rs, v) \<longleftrightarrow>
     rs = 0 \<and> (\<exists>mid reason ds r. response_id mid \<and> unat ds = length old \<and>
       buf = success_frame DEVICE_CAPABILITY_DISCOVERY (device_capability_code GET_SUPPORTED_COMMAND_CODES) mid reason ds r \<and>
       (length v = length old \<and> (\<exists>t. r = v @ t)))"
  unfolding decodeGetSupportedCommandCodesResponse_def
  by (rule exact_pattern [where parses = "\<lambda>ds r v. length v = length old \<and> (\<exists>t. r = v @ t)", OF refl])
    (auto simp: supported_list_body)

text \<open>
  What an inventory property holds: a string, raw bytes, a 32-bit number, or nothing the decoder
  knows.
\<close>

datatype inventory_kind = StringKind | BytesKind | NumberKind | UnknownKind

definition inventory_kind_of :: "inventory_property_id \<Rightarrow> inventory_kind" where
  "inventory_kind_of p =
     (if p \<in> {BOARD_PART_NUMBER, SERIAL_NUMBER, MARKETING_NAME, DEVICE_PART_NUMBER} then StringKind
      else if p = DEVICE_GUID then BytesKind
      else if p \<in> {DEFAULT_BOOST_CLOCKS, DEFAULT_BASE_CLOCKS, MIN_GRAPHICS_CLOCK, MAX_GRAPHICS_CLOCK,
              RATED_DEVICE_POWER_LIMIT, MIN_DEVICE_POWER_LIMIT, MAX_DEVICE_POWER_LIMIT,
              MAX_MEMORY_CAPACITY, MIN_MEMORY_CLOCK, MAX_MEMORY_CLOCK} then NumberKind
      else UnknownKind)"

fun inventory_parses :: "inventory_kind \<Rightarrow> u16 \<Rightarrow> bytes \<Rightarrow> inventory_value \<Rightarrow> bool" where
  "inventory_parses StringKind ds r v \<longleftrightarrow> (\<exists>s t. r = s @ t \<and> length s = unat ds \<and> v = InvString s)"
| "inventory_parses BytesKind ds r v \<longleftrightarrow> (\<exists>s t. r = s @ t \<and> length s = unat ds \<and> v = InvBytes s)"
| "inventory_parses NumberKind ds r v \<longleftrightarrow> (\<exists>w t. r = le_bytes w @ t \<and> v = InvU32 w)"
| "inventory_parses UnknownKind ds r v \<longleftrightarrow> False"

lemma prefix_of_length: "(\<exists>s. (\<exists>t. r = s @ t) \<and> length s = n \<and> v = C s) \<longleftrightarrow> n \<le> length r \<and> v = C (take n r)"
proof
  assume "n \<le> length r \<and> v = C (take n r)"
  moreover have "r = take n r @ drop n r" by simp
  ultimately show "\<exists>s. (\<exists>t. r = s @ t) \<and> length s = n \<and> v = C s"
    by (intro exI [of _ "take n r"]) (auto simp del: append_take_drop_id)
qed auto

lemma decodeGetInventoryInformationResponse_kind:
  "decodeGetInventoryInformationResponse buf cc0 rs0 p value =
    (case decode_payload PLATFORM_ENVIRONMENTAL (platform_environmental_code GET_INVENTORY_INFORMATION)
             (\<lambda>ds. ds \<noteq> 0 \<and> unat ds \<le> 256) buf cc0 rs0 of
       Inl (rc, cc, rs) \<Rightarrow> (rc, cc, rs, value)
     | Inr (cc, rs, ds, ub) \<Rightarrow>
         (case inventory_kind_of p of
            StringKind \<Rightarrow> if length (ub_rest ub) < unat ds then (EINVAL, cc, rs, value)
                          else (0, cc, rs, InvString (take (unat ds) (ub_rest ub)))
          | BytesKind \<Rightarrow> if length (ub_rest ub) < unat ds then (EINVAL, cc, rs, value)
                         else (0, cc, rs, InvBytes (take (unat ds) (ub_rest ub)))
          | NumberKind \<Rightarrow> let (rc, w, ub) = unpack 0 ub
                          in if rc \<noteq> 0 then (rc, cc, rs, value) else (0, cc, rs, InvU32 w)
          | UnknownKind \<Rightarrow> (EINVAL, cc, rs, value)))"
proof -
  have "(\<lambda>dataSize :: u16. \<not> (dataSize = 0 \<or> unat dataSize > maxInventoryDataSize)) = (\<lambda>ds. ds \<noteq> 0 \<and> unat ds \<le> 256)"
    by auto
  then show ?thesis
    unfolding decodeGetInventoryInformationResponse_def inventory_kind_of_def
    by (cases p) (simp_all split: sum.split)
qed

lemma decodeGetInventoryInformationResponse_exact:
  "decodeGetInventoryInformationResponse buf cc0 rs0 p value = (0, CC_SUCCESS, rs, v) \<longleftrightarrow>
     rs = 0 \<and> (\<exists>mid reason ds r. response_id mid \<and> (ds \<noteq> 0 \<and> unat ds \<le> 256) \<and>
       buf = success_frame PLATFORM_ENVIRONMENTAL (platform_environmental_code GET_INVENTORY_INFORMATION) mid reason ds r \<and>
       inventory_parses (inventory_kind_of p) ds r v)"
  by (rule exact_pattern [OF decodeGetInventoryInformationResponse_kind])
    (cases "inventory_kind_of p"; auto simp: read_fields prefix_of_length split: option.splits prod.splits)

lemma decodeGetPowerDrawResponse_exact:
  "decodeGetPowerDrawResponse buf cc0 rs0 v' = (0, CC_SUCCESS, rs, v) \<longleftrightarrow>
     rs = 0 \<and> (\<exists>cmd mid reason ds r. response_id mid \<and> ds = 4 \<and>
       buf = success_frame PLATFORM_ENVIRONMENTAL cmd mid reason ds r \<and> (\<exists>t. r = le_bytes v @ t))" (is "?l \<longleftrightarrow> ?r")
proof
  assume a: ?l
  obtain rc m i t ub1 where 1: "unpackHeader LittleEndian (reader buf) nvidiaPciVendorId 0 0 0 = (rc, m, i, t, ub1)"
    by (metis surj_pair)
  obtain rc2 cmd ub2 where 2: "unpack (0 :: u8) ub1 = (rc2, cmd, ub2)" by (metis surj_pair)
  from a have f: "rc = 0" "m = ocp_RESPONSE" "t = message_type_code PLATFORM_ENVIRONMENTAL" "rc2 = 0"
    by (auto simp: decodeGetPowerDrawResponse_def 1 2 split: if_splits)
  have "decodeGetPowerDrawResponse buf cc0 rs0 v' =
    (case decode_payload PLATFORM_ENVIRONMENTAL cmd (\<lambda>ds. ds = 4) buf cc0 rs0 of
       Inl (rc, cc, rs) \<Rightarrow> (rc, cc, rs, v') | Inr (cc, rs, ds, ub) \<Rightarrow> let (rc, v, ub) = unpack v' ub in (rc, cc, rs, v))"
    using f by (auto simp: decodeGetPowerDrawResponse_def decode_payload_def decodeResponseCommonHeader_def
        1 2 Let_def split: prod.splits)
  then have "?l \<longleftrightarrow> rs = 0 \<and> (\<exists>mid reason ds r. response_id mid \<and> ds = 4 \<and>
       buf = success_frame PLATFORM_ENVIRONMENTAL cmd mid reason ds r \<and> (\<exists>t. r = le_bytes v @ t))"
    by (rule exact_pattern [where parses = "\<lambda>ds r v. \<exists>t. r = le_bytes v @ t"])
      (auto simp: read_fields split: option.splits prod.splits)
  with a show ?r by blast
next
  assume ?r
  then obtain cmd mid reason t where b: "rs = 0" "response_id mid"
    "buf = success_frame PLATFORM_ENVIRONMENTAL cmd mid reason 4 (le_bytes v @ t)" by blast
  then have "unpackHeader LittleEndian (reader buf) nvidiaPciVendorId 0 0 0
      = (0, ocp_RESPONSE, mid AND 31, message_type_code PLATFORM_ENVIRONMENTAL,
         reader (cmd # CC_SUCCESS # le_bytes reason @ le_bytes (4 :: u16) @ le_bytes v @ t))"
    by (simp add: unpackHeader_iff success_frame_def response_frame_def response_id_def)
  moreover have "unpackReasonCodeAndCC (reader (CC_SUCCESS # le_bytes reason @ q)) cc0 rs0
      = (0, CC_SUCCESS, 0, reader q)" for q
    by (auto simp: unpackReasonCodeAndCC_iff)
  ultimately show ?l
    using b(1) by (simp add: decodeGetPowerDrawResponse_def codec_simps)
qed

lemma decode_no_payload_iff:
  "decode_no_payload mt cmd buf cc0 rs0 = (0, cc, rs) \<longleftrightarrow>
     (\<exists>mid reason r. response_id mid \<and> buf = response_frame mt cmd mid cc reason r \<and>
        rs = (if cc = CC_SUCCESS then 0 else reason))"
proof -
  have "decode_no_payload mt cmd buf cc0 rs0 = (0, cc, rs) \<longleftrightarrow>
      (\<exists>ub. decodeResponseCommonHeader (reader buf) mt cmd cc0 rs0 = (0, cc, rs, ub))"
    by (cases "decodeResponseCommonHeader (reader buf) mt cmd cc0 rs0")
      (auto simp: decode_no_payload_def)
  then show ?thesis
    unfolding decodeResponseCommonHeader_iff by blast
qed

lemma decodeLongRunningResponseEvent_exact:
  "decodeLongRunningResponseEvent buf cc0 rs0 i0 d0 = (0, cc, rs, i, d) \<longleftrightarrow>
     buf = [i, cc] @ le_bytes rs @ d"
  by (auto simp: decodeLongRunningResponseEvent_def read_fields split: option.splits prod.splits)

lemma decodeXidEvent_exact:
  "decodeXidEvent buf f0 r0 s0 t0 m0 = (0, flags, reason, seq, ts, msg) \<longleftrightarrow>
     (\<exists>a b c. buf = [flags, a, b, c] @ le_bytes reason @ le_bytes seq @ le_bytes ts @ msg)"
  by (auto simp: decodeXidEvent_def read_fields skip_def numeral_3_eq_3 Suc_le_length_iff not_less
      split: option.splits prod.splits)

lemma decode_payload_only_exact:
  "decodeGetCurrentUtilizationModePayload buf g0 m0 = (0, g, m) \<longleftrightarrow> (\<exists>t. buf = le_bytes g @ le_bytes m @ t)"
  "decodeGetMemoryCapacityUtilizationPayload buf a0 b0 = (0, g, m) \<longleftrightarrow> (\<exists>t. buf = le_bytes g @ le_bytes m @ t)"
  "decodeGetViolationDurationPayload buf w0 x0 y0 z0 = (0, w, x, y, z) \<longleftrightarrow>
     (\<exists>t. buf = le_bytes w @ le_bytes x @ le_bytes y @ le_bytes z @ t)"
  "decodeGetEccModePayload buf c0 p0 = (0, c, p) \<longleftrightarrow> (\<exists>flags t. buf = flags # t \<and> c = bit flags 0 \<and> p = bit flags 1)"
  by (auto simp: decodeGetCurrentUtilizationModePayload_def decodeGetMemoryCapacityUtilizationPayload_def
      decodeGetViolationDurationPayload_def decodeGetEccModePayload_def read_fields
      and_exp_eq_0_iff_not_bit [where n = 0, simplified] and_exp_eq_0_iff_not_bit [where n = 1, simplified]
      split: option.splits prod.splits)

end
