(* ===== verification/Gpu_Aggregate.thy ===== *)
theory Gpu_Aggregate
  imports Gpu_Response_Specs
begin

text \<open>
  The decoders of \<open>NvidiaGpuMctpVdm.cpp\<close> that loop: scalar group telemetry, PCIe ports, leak
  detection, and the aggregate responses of the network ports. The lambda a decoder hands to the
  aggregate loop is a definition of its own whose state is what the lambda captures by reference.
\<close>

section \<open>Scalar group telemetry\<close>

fun telemetry_loop :: "nat \<Rightarrow> nat \<Rightarrow> u32 list \<Rightarrow> unpack_buffer \<Rightarrow> int \<times> u32 list" where
  "telemetry_loop 0 i vals ub = (0, vals)"
| "telemetry_loop (Suc n) i vals ub =
     (let (rc, v, ub) = unpack (vals ! i) ub
      in if rc \<noteq> 0 then (rc, vals) else telemetry_loop n (Suc i) (vals[i := v]) ub)"

definition decodeQueryScalarGroupTelemetryResponseImpl ::
  "bytes \<Rightarrow> u8 \<Rightarrow> u8 \<Rightarrow> u16 \<Rightarrow> nat \<Rightarrow> u32 list \<Rightarrow> int \<times> u8 \<times> u16 \<times> nat \<times> u32 list" where
  "decodeQueryScalarGroupTelemetryResponseImpl buf expectedCommand cc reasonCode num vals =
     (case decode_payload PCIE_LINK expectedCommand (\<lambda>dataSize. True) buf cc reasonCode of
        Inl (rc, cc, reasonCode) \<Rightarrow> (rc, cc, reasonCode, num, vals)
      | Inr (cc, reasonCode, dataSize, ub) \<Rightarrow>
          let num = unat dataSize div 4;
              vals = (if length vals < num then vals @ replicate (num - length vals) 0 else vals);
              (rc, vals) = telemetry_loop num 0 vals ub
          in (rc, cc, reasonCode, num, vals))"

definition decodeQueryScalarGroupTelemetryV1Response ::
  "bytes \<Rightarrow> u8 \<Rightarrow> u16 \<Rightarrow> nat \<Rightarrow> u32 list \<Rightarrow> int \<times> u8 \<times> u16 \<times> nat \<times> u32 list" where
  "decodeQueryScalarGroupTelemetryV1Response buf =
     decodeQueryScalarGroupTelemetryResponseImpl buf (pcie_link_code QueryScalarGroupTelemetryV1)"

definition decodeQueryScalarGroupTelemetryV2Response ::
  "bytes \<Rightarrow> u8 \<Rightarrow> u16 \<Rightarrow> nat \<Rightarrow> u32 list \<Rightarrow> int \<times> u8 \<times> u16 \<times> nat \<times> u32 list" where
  "decodeQueryScalarGroupTelemetryV2Response buf =
     decodeQueryScalarGroupTelemetryResponseImpl buf (pcie_link_code QueryScalarGroupTelemetryV2)"

section \<open>PCIe ports\<close>

fun ports_loop :: "nat \<Rightarrow> u16 \<Rightarrow> u8 list \<Rightarrow> unpack_buffer \<Rightarrow> int \<times> u16 \<times> u8 list" where
  "ports_loop 0 numUp ports ub = (0, numUp, ports)"
| "ports_loop (Suc n) numUp ports ub =
     (let (isInternal, ub) = get (0 :: u8) ub;
          (count, ub) = get (0 :: u8) ub
      in if ub_error ub \<noteq> 0 then (EINVAL, numUp, ports)
         else if isInternal = 0 then ports_loop n (numUp + 1) (ports @ [count]) ub
         else ports_loop n numUp ports ub)"

definition decodeListPciePortsResponse ::
  "bytes \<Rightarrow> u8 \<Rightarrow> u16 \<Rightarrow> u16 \<Rightarrow> u8 list \<Rightarrow> int \<times> u8 \<times> u16 \<times> u16 \<times> u8 list" where
  "decodeListPciePortsResponse buf cc reasonCode numUp ports =
     (case decode_payload PCIE_LINK (pcie_link_code ListPCIePorts) (\<lambda>dataSize. \<not> dataSize < 2) buf cc reasonCode of
        Inl (rc, cc, reasonCode) \<Rightarrow> (rc, cc, reasonCode, numUp, ports)
      | Inr (cc, reasonCode, _, ub) \<Rightarrow>
          let (rc, upstreamPorts, ub) = unpack (0 :: u16) ub
          in if rc \<noteq> 0 then (rc, cc, reasonCode, numUp, ports)
             else let (rc, numUp, ports) = ports_loop (unat upstreamPorts) 0 [] ub
                  in (rc, cc, reasonCode, numUp, ports))"

section \<open>Aggregate responses\<close>

definition decodeAggregateResponse ::
  "unpack_buffer \<Rightarrow> message_type \<Rightarrow> u8 \<Rightarrow> u8 \<Rightarrow> u16 \<Rightarrow> 's sample_handler \<Rightarrow> 's \<Rightarrow> int \<times> u8 \<times> u16 \<times> 's" where
  "decodeAggregateResponse ub msgType command cc reasonCode handler s =
     (let (rc, receivedMsgType, instanceId, receivedMessageType, ub) =
            unpackHeader LittleEndian ub nvidiaPciVendorId 0 0 0
      in if rc \<noteq> 0 then (rc, cc, reasonCode, s)
         else if receivedMsgType \<noteq> ocp_RESPONSE then (EINVAL, cc, reasonCode, s)
         else if receivedMessageType \<noteq> message_type_code msgType then (EINVAL, cc, reasonCode, s)
         else
           let (rc, receivedCommand, ub) = unpack 0 ub
           in if rc \<noteq> 0 then (rc, cc, reasonCode, s)
              else if command \<noteq> receivedCommand then (EINVAL, cc, reasonCode, s)
              else
                let (rc, completionCode, ub) = unpack 0 ub
                in if rc \<noteq> 0 then (rc, cc, reasonCode, s)
                   else if completionCode \<noteq> CC_SUCCESS then
                     let (rc, receivedReasonCode, ub) = unpack 0 ub
                     in if rc \<noteq> 0 then (rc, completionCode, reasonCode, s)
                        else (0, completionCode, receivedReasonCode, s)
                   else let (rc, ub, s) = unpackAggregateResponse ub handler s
                        in (rc, completionCode, 0, s))"

definition address_handler :: "(u8 \<times> (u8 \<times> u64) list) sample_handler" where
  "address_handler tag len ub st =
     (let (linkType, addresses) = st in
      if tag = 0 \<and> len = 1 then
        let (rc, linkTypeValue, ub) = unpack 0 ub
        in if rc \<noteq> 0 then (rc, ub, linkType, addresses) else (0, ub, linkTypeValue, addresses)
      else if len = 8 then
        let (rc, telemetryData, ub) = unpack 0 ub
        in if rc \<noteq> 0 then (rc, ub, linkType, addresses)
           else (0, ub, linkType, addresses @ [(tag, telemetryData)])
      else let (_, ub) = skip (unat len) ub in (0, ub, linkType, addresses))"

definition decodeGetPortNetworkAddressesResponse ::
  "bytes \<Rightarrow> u8 \<Rightarrow> u16 \<Rightarrow> u8 \<Rightarrow> (u8 \<times> u64) list \<Rightarrow> int \<times> u8 \<times> u16 \<times> u8 \<times> (u8 \<times> u64) list" where
  "decodeGetPortNetworkAddressesResponse buf cc reasonCode linkType addresses =
     decodeAggregateResponse (UnpackBuffer buf) NETWORK_PORT (network_port_code GetPortNetworkAddresses)
       cc reasonCode address_handler (linkType, [])"

definition counter_handler :: "(u8 \<times> u64) list sample_handler" where
  "counter_handler tag len ub values =
     (if len = 4 then
        let (rc, telemetryValue, ub) = unpack (0 :: u32) ub
        in if rc \<noteq> 0 then (rc, ub, values) else (0, ub, values @ [(tag, ucast telemetryValue)])
      else if len = 8 then
        let (rc, telemetryData, ub) = unpack 0 ub
        in if rc \<noteq> 0 then (rc, ub, values) else (0, ub, values @ [(tag, telemetryData)])
      else let (_, ub) = skip (unat len) ub in (0, ub, values))"

definition decodeGetEthernetPortTelemetryCountersResponse ::
  "bytes \<Rightarrow> u8 \<Rightarrow> u16 \<Rightarrow> (u8 \<times> u64) list \<Rightarrow> int \<times> u8 \<times> u16 \<times> (u8 \<times> u64) list" where
  "decodeGetEthernetPortTelemetryCountersResponse buf cc reasonCode telemetryValues =
     decodeAggregateResponse (UnpackBuffer buf) NETWORK_PORT
       (network_port_code GetEthernetPortTelemetryCounters) cc reasonCode counter_handler []"

section \<open>Leak detection\<close>

record leak_sensor =
  sensorId :: u8
  leakState :: u8
  thresholds :: "u16 list"
  adcReadingMv :: u16

fun thresholds_loop :: "nat \<Rightarrow> u16 list \<Rightarrow> unpack_buffer \<Rightarrow> int \<times> u16 list \<times> unpack_buffer" where
  "thresholds_loop 0 ts ub = (0, ts, ub)"
| "thresholds_loop (Suc n) ts ub =
     (let (rc, t, ub) = unpack (0 :: u16) ub
      in if rc \<noteq> 0 then (rc, ts, ub) else thresholds_loop n (ts @ [t]) ub)"

fun sensors_loop :: "nat \<Rightarrow> nat \<Rightarrow> leak_sensor list \<Rightarrow> unpack_buffer \<Rightarrow> int \<times> leak_sensor list" where
  "sensors_loop 0 levels ss ub = (0, ss)"
| "sensors_loop (Suc n) levels ss ub =
     (let (rc, sid, ub) = unpack (0 :: u8) ub in
      if rc \<noteq> 0 then (rc, ss)
      else let (rc, st, ub) = unpack (0 :: u8) ub in
      if rc \<noteq> 0 then (rc, ss)
      else let (rc, ts, ub) = thresholds_loop levels [] ub in
      if rc \<noteq> 0 then (rc, ss)
      else let (rc, adc, ub) = unpack (0 :: u16) ub in
      if rc \<noteq> 0 then (rc, ss)
      else sensors_loop n levels
             (ss @ [\<lparr>sensorId = sid, leakState = st, thresholds = ts, adcReadingMv = adc\<rparr>]) ub)"

definition decodeGetLeakDetectionInfoResponse ::
  "bytes \<Rightarrow> u8 \<Rightarrow> u16 \<Rightarrow> leak_sensor list \<Rightarrow> int \<times> u8 \<times> u16 \<times> leak_sensor list" where
  "decodeGetLeakDetectionInfoResponse buf cc reasonCode parsedSensors =
     (case decode_payload PLATFORM_ENVIRONMENTAL (platform_environmental_code GET_LEAK_DETECTION_INFO)
             (\<lambda>dataSize. True) buf cc reasonCode of
        Inl (rc, cc, reasonCode) \<Rightarrow> (rc, cc, reasonCode, parsedSensors)
      | Inr (cc, reasonCode, _, ub) \<Rightarrow>
          let (rc, numSensors, ub) = unpack (0 :: u8) ub
          in if rc \<noteq> 0 then (rc, cc, reasonCode, [])
             else
               let (rc, numThresholdLevels, ub) = unpack (0 :: u8) ub
               in if rc \<noteq> 0 then (rc, cc, reasonCode, [])
                  else let (rc, ss) = sensors_loop (unat numSensors) (unat numThresholdLevels) [] ub
                       in (rc, cc, reasonCode, ss))"

section \<open>What the loops accept\<close>

lemma telemetry_loop_ok:
  "i + n \<le> length vals \<Longrightarrow>
   telemetry_loop n i vals (reader r) = (0, vs) \<longleftrightarrow>
     (\<exists>ws t. length ws = n \<and> r = concat (map le_bytes ws) @ t \<and> vs = take i vals @ ws @ drop (i + n) vals)"
proof (induction n arbitrary: i vals r)
  case 0
  then show ?case by auto
next
  case (Suc n)
  show ?case
  proof (cases "take_word r :: (u32 \<times> bytes) option")
    case None
    then have "r \<noteq> concat (map le_bytes ws) @ t" if "length ws = Suc n" for ws :: "u32 list" and t
      using that by (cases ws) (auto simp: read_fields)
    with None show ?thesis by (auto simp: read_fields)
  next
    case (Some p)
    then obtain v r' where r: "r = le_bytes (v :: u32) @ r'"
      by (cases p) (auto simp: read_fields)
    have len: "Suc i + n \<le> length (vals[i := v])" using Suc.prems by simp
    have upd: "take (Suc i) (vals[i := v]) = take i vals @ [v]"
      using Suc.prems by (simp add: take_Suc_conv_app_nth)
    have "telemetry_loop (Suc n) i vals (reader r) = (0, vs) \<longleftrightarrow>
        telemetry_loop n (Suc i) (vals[i := v]) (reader r') = (0, vs)"
      by (simp add: r codec_simps)
    also have "\<dots> \<longleftrightarrow> (\<exists>ws t. length ws = n \<and> r' = concat (map le_bytes ws) @ t \<and>
        vs = take i vals @ v # ws @ drop (Suc i + n) vals)"
      unfolding Suc.IH [OF len] upd using Suc.prems by simp
    also have "\<dots> \<longleftrightarrow> (\<exists>ws t. length ws = Suc n \<and> r = concat (map le_bytes ws) @ t \<and>
        vs = take i vals @ ws @ drop (i + Suc n) vals)" (is "?a \<longleftrightarrow> ?b")
    proof
      assume ?a
      then obtain ws t where "length ws = n" "r' = concat (map le_bytes ws) @ t"
        "vs = take i vals @ v # ws @ drop (Suc i + n) vals" by blast
      then show ?b by (intro exI [of _ "v # ws"] exI [of _ t]) (simp add: r)
    next
      assume ?b
      then obtain w ws t where "length ws = n" "r = le_bytes w @ concat (map le_bytes ws) @ t"
        "vs = take i vals @ (w # ws) @ drop (i + Suc n) vals"
        by (auto simp: length_Suc_conv)
      then show ?a by (intro exI [of _ ws] exI [of _ t]) (auto simp: r read_fields)
    qed
    finally show ?thesis .
  qed
qed

lemma decodeQueryScalarGroupTelemetryResponseImpl_exact:
  "decodeQueryScalarGroupTelemetryResponseImpl buf cmd cc0 rs0 n0 old = (0, CC_SUCCESS, rs, num, vals) \<longleftrightarrow>
     rs = 0 \<and> (\<exists>mid reason ds r. response_id mid \<and> True \<and>
       buf = success_frame PCIE_LINK cmd mid reason ds r \<and>
       (num = unat ds div 4 \<and> (\<exists>ws t. length ws = num \<and> r = concat (map le_bytes ws) @ t \<and>
          vals = ws @ drop num old)))"
  unfolding decodeQueryScalarGroupTelemetryResponseImpl_def
proof (rule exact_pattern [where v = "(num, vals)" and
      parses = "\<lambda>ds r (num, vals). num = unat ds div 4 \<and> (\<exists>ws t. length ws = num \<and>
          r = concat (map le_bytes ws) @ t \<and> vals = ws @ drop num old)", simplified prod.case, OF refl])
  fix ds :: u16 and r rs cc v
  let ?n = "unat ds div 4"
  define vals' where "vals' = (if length old < ?n then old @ replicate (?n - length old) 0 else old)"
  have len: "0 + ?n \<le> length vals'" and drop: "drop ?n vals' = drop ?n old"
    by (auto simp: vals'_def)
  show "((let num = ?n; vals = (if length old < num then old @ replicate (num - length old) 0 else old);
             (rc, vals) = telemetry_loop num 0 vals (reader r)
         in (rc, CC_SUCCESS, 0, num, vals)) = (0, cc, rs, v)) =
    (cc = CC_SUCCESS \<and> rs = 0 \<and> (case v of (num, vals) \<Rightarrow> num = unat ds div 4 \<and>
        (\<exists>ws t. length ws = num \<and> r = concat (map le_bytes ws) @ t \<and> vals = ws @ drop num old)))"
  proof -
    have split: "(case L of (rc, vals) \<Rightarrow> (rc, CC_SUCCESS, 0, ?n, vals)) = (0, cc, rs, v) \<longleftrightarrow>
        L = (0, snd v) \<and> cc = CC_SUCCESS \<and> rs = 0 \<and> fst v = ?n" for L
      by (cases L; cases v) auto
    have loop: "telemetry_loop ?n 0 vals' (reader r) = (0, vs) \<longleftrightarrow>
        (\<exists>ws t. length ws = ?n \<and> r = concat (map le_bytes ws) @ t \<and> vs = ws @ drop ?n old)" for vs
      using telemetry_loop_ok [OF len, of r vs] by (simp add: drop)
    show ?thesis
      unfolding Let_def vals'_def [symmetric] split loop
      by (cases v) auto
  qed
qed

lemma ports_loop_ok:
  "ports_loop n num ports (reader r) = (0, num', ports') \<longleftrightarrow>
     (\<exists>ps t. length ps = n \<and> r = concat (map (\<lambda>(i, c). [i, c]) ps) @ t \<and>
        ports' = ports @ map snd (filter (\<lambda>p. fst p = 0) ps) \<and>
        num' = num + word_of_nat (length (filter (\<lambda>p. fst p = 0) ps)))"
proof (induction n arbitrary: num ports r)
  case 0
  then show ?case by auto
next
  case (Suc n)
  show ?case
  proof (cases "length r < 2")
    case True
    have none: "r \<noteq> concat (map (\<lambda>(i, c). [i, c]) ps) @ t" if "length ps = Suc n" for ps :: "(u8 \<times> u8) list" and t
      using that True by (cases ps) auto
    have "ports_loop (Suc n) num ports (reader r) = (EINVAL, num, ports)"
      using True by (cases r; cases "tl r") (auto simp: get_on_def unpack_on_eq take_word_def Let_def)
    with none show ?thesis by auto
  next
    case False
    then obtain i c q where r: "r = i # c # q"
      by (cases r; cases "tl r") auto
    define num1 where "num1 = (if i = 0 then num + 1 else num)"
    define ports1 where "ports1 = (if i = 0 then ports @ [c] else ports)"
    have "ports_loop (Suc n) num ports (reader r) = (0, num', ports') \<longleftrightarrow>
        ports_loop n num1 ports1 (reader q) = (0, num', ports')"
      by (simp add: r codec_simps num1_def ports1_def)
    also have "\<dots> \<longleftrightarrow> (\<exists>ps t. length ps = n \<and> q = concat (map (\<lambda>(i, c). [i, c]) ps) @ t \<and>
        ports' = ports1 @ map snd (filter (\<lambda>p. fst p = 0) ps) \<and>
        num' = num1 + word_of_nat (length (filter (\<lambda>p. fst p = 0) ps)))"
      by (rule Suc.IH)
    also have "\<dots> \<longleftrightarrow> (\<exists>ps t. length ps = Suc n \<and> r = concat (map (\<lambda>(i, c). [i, c]) ps) @ t \<and>
        ports' = ports @ map snd (filter (\<lambda>p. fst p = 0) ps) \<and>
        num' = num + word_of_nat (length (filter (\<lambda>p. fst p = 0) ps)))" (is "?a \<longleftrightarrow> ?b")
    proof
      assume ?a
      then obtain ps t where "length ps = n" "q = concat (map (\<lambda>(i, c). [i, c]) ps) @ t"
        "ports' = ports1 @ map snd (filter (\<lambda>p. fst p = 0) ps)"
        "num' = num1 + word_of_nat (length (filter (\<lambda>p. fst p = 0) ps))" by blast
      then show ?b
        by (intro exI [of _ "(i, c) # ps"] exI [of _ t]) (simp add: r num1_def ports1_def)
    next
      assume ?b
      then obtain ps t where "length ps = n" "r = i # c # concat (map (\<lambda>(i, c). [i, c]) ps) @ t"
        "ports' = ports @ map snd (filter (\<lambda>p. fst p = 0) ((i, c) # ps))"
        "num' = num + word_of_nat (length (filter (\<lambda>p. fst p = 0) ((i, c) # ps)))"
        by (auto simp: length_Suc_conv r)
      then show ?a
        by (intro exI [of _ ps] exI [of _ t]) (simp add: r num1_def ports1_def)
    qed
    finally show ?thesis .
  qed
qed

lemma decodeListPciePortsResponse_exact:
  "decodeListPciePortsResponse buf cc0 rs0 num0 ports0 = (0, CC_SUCCESS, rs, num, ports) \<longleftrightarrow>
     rs = 0 \<and> (\<exists>mid reason ds r. response_id mid \<and> \<not> ds < 2 \<and>
       buf = success_frame PCIE_LINK (pcie_link_code ListPCIePorts) mid reason ds r \<and>
       (\<exists>up ps t. length ps = unat up \<and> r = le_bytes (up :: u16) @ concat (map (\<lambda>(i, c). [i, c]) ps) @ t \<and>
          ports = map snd (filter (\<lambda>p. fst p = 0) ps) \<and> num = word_of_nat (length ports)))"
  unfolding decodeListPciePortsResponse_def
proof (rule exact_pattern [where v = "(num, ports)" and parses = "\<lambda>ds r (num, ports).
      \<exists>up ps t. length ps = unat up \<and> r = le_bytes (up :: u16) @ concat (map (\<lambda>(i, c). [i, c]) ps) @ t \<and>
          ports = map snd (filter (\<lambda>p. fst p = 0) ps) \<and> num = word_of_nat (length ports)",
      simplified prod.case, OF refl])
  fix ds :: u16 and r and rs :: u16 and cc :: u8 and v :: "u16 \<times> u8 list"
  have split: "(case L of (rc, num, ports) \<Rightarrow> (rc, CC_SUCCESS, 0 :: u16, num, ports)) = (0, cc, rs, a, b) \<longleftrightarrow>
        L = (0, a, b) \<and> cc = CC_SUCCESS \<and> rs = 0" for L :: "int \<times> u16 \<times> u8 list" and a b
    by (cases L) auto
  show "((let (rc, up, ub) = unpack (0 :: u16) (reader r)
          in if rc \<noteq> 0 then (rc, CC_SUCCESS, 0, num0, ports0)
             else let (rc, num, ports) = ports_loop (unat up) 0 [] ub in (rc, CC_SUCCESS, 0, num, ports))
          = (0, cc, rs, v)) =
    (cc = CC_SUCCESS \<and> rs = 0 \<and> (case v of (num, ports) \<Rightarrow>
      \<exists>up ps t. length ps = unat up \<and> r = le_bytes (up :: u16) @ concat (map (\<lambda>(i, c). [i, c]) ps) @ t \<and>
          ports = map snd (filter (\<lambda>p. fst p = 0) ps) \<and> num = word_of_nat (length ports)))"
  proof (cases "take_word r :: (u16 \<times> bytes) option")
    case None
    then show ?thesis by (cases v) (auto simp: read_fields)
  next
    case (Some p)
    then obtain up q where r: "r = le_bytes (up :: u16) @ q"
      by (cases p) (auto simp: read_fields)
    show ?thesis
      by (cases v) (auto simp: r codec_simps split ports_loop_ok read_fields)
  qed
qed

lemma thresholds_loop_ok:
  "thresholds_loop n ts (reader r) = (0, ts', ub') \<longleftrightarrow>
     (\<exists>ws t. length ws = n \<and> r = concat (map le_bytes ws) @ t \<and> ts' = ts @ ws \<and> ub' = reader t)"
proof (induction n arbitrary: ts r)
  case 0
  then show ?case by auto
next
  case (Suc n)
  show ?case
  proof (cases "take_word r :: (u16 \<times> bytes) option")
    case None
    then have "r \<noteq> concat (map le_bytes ws) @ t" if "length ws = Suc n" for ws :: "u16 list" and t
      using that by (cases ws) (auto simp: read_fields)
    with None show ?thesis by (auto simp: read_fields)
  next
    case (Some p)
    then obtain v q where r: "r = le_bytes (v :: u16) @ q"
      by (cases p) (auto simp: read_fields)
    show ?thesis
      by (auto simp: r codec_simps Suc.IH length_Suc_conv read_fields)
  qed
qed

definition leak_bytes :: "leak_sensor \<Rightarrow> bytes" where
  "leak_bytes x = [sensorId x, leakState x] @ concat (map le_bytes (thresholds x)) @ le_bytes (adcReadingMv x)"

lemma concat_le_u16_app:
  "length xs = length ys \<Longrightarrow>
     concat (map le_bytes (xs :: u16 list)) @ a = concat (map le_bytes ys) @ b \<longleftrightarrow> xs = ys \<and> a = b"
  by (induction xs ys rule: list_induct2) (auto simp: read_fields)

definition leak_read :: "nat \<Rightarrow> bytes \<Rightarrow> (leak_sensor \<times> bytes) option" where
  "leak_read levels r =
     (case r of
        sid # st # q \<Rightarrow>
          (case thresholds_loop levels [] (reader q) of (rc, ts, ub) \<Rightarrow>
             if rc \<noteq> 0 then None
             else (case take_word (ub_rest ub) of None \<Rightarrow> None
                   | Some (adc, t) \<Rightarrow> Some (\<lparr>sensorId = sid, leakState = st, thresholds = ts, adcReadingMv = adc\<rparr>, t)))
      | _ \<Rightarrow> None)"

lemma leak_read_iff:
  "leak_read levels r = Some (x, t) \<longleftrightarrow> r = leak_bytes x @ t \<and> length (thresholds x) = levels"
proof -
  have *: "(case thresholds_loop levels [] (reader q) of (rc, ts, ub) \<Rightarrow>
             if rc \<noteq> 0 then None
             else (case take_word (ub_rest ub) of None \<Rightarrow> None
                   | Some (adc, t) \<Rightarrow> Some (\<lparr>sensorId = sid, leakState = st, thresholds = ts, adcReadingMv = adc\<rparr>, t)))
          = Some (x, t) \<longleftrightarrow>
        q = concat (map le_bytes (thresholds x)) @ le_bytes (adcReadingMv x) @ t \<and>
        length (thresholds x) = levels \<and> sensorId x = sid \<and> leakState x = st" for sid st q
  proof (cases "\<exists>ws p. length ws = levels \<and> q = concat (map le_bytes (ws :: u16 list)) @ p")
    case True
    then obtain ws p where q: "length ws = levels" "q = concat (map le_bytes (ws :: u16 list)) @ p" by blast
    then have "thresholds_loop levels [] (reader q) = (0, ws, reader p)"
      unfolding thresholds_loop_ok by auto
    with q show ?thesis
      by (cases x) (auto simp: concat_le_u16_app read_fields split: option.splits)
  next
    case False
    then have "thresholds_loop levels [] (reader q) \<noteq> (0, ts, ub)" for ts ub
      unfolding thresholds_loop_ok by blast
    with False show ?thesis
      by (cases "thresholds_loop levels [] (reader q)") auto
  qed
  show ?thesis
    by (auto simp: leak_read_def * leak_bytes_def split: list.splits)
qed

lemma sensors_loop_step:
  "sensors_loop (Suc n) levels ss (reader r) = (0, ss') \<longleftrightarrow>
     (\<exists>x t. leak_read levels r = Some (x, t) \<and> sensors_loop n levels (ss @ [x]) (reader t) = (0, ss'))"
proof (cases r rule: list.exhaust)
  case Nil
  then show ?thesis by (simp add: leak_read_def read_fields take_word_def)
next
  case (Cons sid r1)
  show ?thesis
  proof (cases r1)
    case Nil
    then show ?thesis by (simp add: Cons leak_read_def read_fields take_word_def)
  next
    case r1: (Cons st q)
    obtain rc ts ub where th: "thresholds_loop levels [] (reader q) = (rc, ts, ub)"
      by (metis surj_pair)
    show ?thesis
    proof (cases "rc = 0")
      case True
      with th obtain t where "ub = reader t" by (auto simp: thresholds_loop_ok)
      with True show ?thesis
        by (auto simp: Cons r1 leak_read_def codec_simps th read_fields split: option.splits)
    next
      case False
      then show ?thesis by (simp add: Cons r1 leak_read_def codec_simps th)
    qed
  qed
qed

lemma sensors_loop_ok:
  "sensors_loop n levels ss (reader r) = (0, ss') \<longleftrightarrow>
     (\<exists>xs t. length xs = n \<and> (\<forall>x \<in> set xs. length (thresholds x) = levels) \<and>
        r = concat (map leak_bytes xs) @ t \<and> ss' = ss @ xs)"
proof (induction n arbitrary: ss r)
  case 0
  then show ?case by auto
next
  case (Suc n)
  show ?case
    unfolding sensors_loop_step leak_read_iff Suc.IH by (fastforce simp: length_Suc_conv)
qed

lemma decodeGetLeakDetectionInfoResponse_exact:
  "decodeGetLeakDetectionInfoResponse buf cc0 rs0 old = (0, CC_SUCCESS, rs, ss) \<longleftrightarrow>
     rs = 0 \<and> (\<exists>mid reason ds r. response_id mid \<and> True \<and>
       buf = success_frame PLATFORM_ENVIRONMENTAL (platform_environmental_code GET_LEAK_DETECTION_INFO) mid reason ds r \<and>
       (\<exists>n k t. r = [n, k] @ concat (map leak_bytes ss) @ t \<and> length ss = unat n \<and>
          (\<forall>x \<in> set ss. length (thresholds x) = unat k)))"
  unfolding decodeGetLeakDetectionInfoResponse_def
proof (rule exact_pattern [where parses = "\<lambda>ds r ss. \<exists>n k t. r = [n, k] @ concat (map leak_bytes ss) @ t \<and>
      length ss = unat n \<and> (\<forall>x \<in> set ss. length (thresholds x) = unat k)", OF refl])
  fix ds :: u16 and r and rs :: u16 and cc :: u8 and v :: "leak_sensor list"
  have split: "(case L of (rc, ss) \<Rightarrow> (rc, CC_SUCCESS, 0, ss)) = (0, cc, rs, v) \<longleftrightarrow>
        L = (0, v) \<and> cc = CC_SUCCESS \<and> rs = 0" for L
    by (cases L) auto
  show "((let (rc, numSensors, ub) = unpack (0 :: u8) (reader r)
          in if rc \<noteq> 0 then (rc, CC_SUCCESS, 0, [])
             else let (rc, levels, ub) = unpack (0 :: u8) ub
                  in if rc \<noteq> 0 then (rc, CC_SUCCESS, 0, [])
                     else let (rc, ss) = sensors_loop (unat numSensors) (unat levels) [] ub
                          in (rc, CC_SUCCESS, 0, ss)) = (0, cc, rs, v)) =
    (cc = CC_SUCCESS \<and> rs = 0 \<and> (\<exists>n k t. r = [n, k] @ concat (map leak_bytes v) @ t \<and>
      length v = unat n \<and> (\<forall>x \<in> set v. length (thresholds x) = unat k)))"
  proof (cases "\<exists>n k q. r = n # k # q")
    case True
    then obtain n k q where r: "r = n # k # q" by blast
    show ?thesis
      by (auto simp: r codec_simps split sensors_loop_ok)
  next
    case False
    then have "r = [] \<or> (\<exists>x. r = [x])" by (cases r; cases "tl r") auto
    then show ?thesis by (auto simp: read_fields take_word_def)
  qed
qed
section \<open>Aggregate responses\<close>

text \<open>
  A sample on the wire is a tag, a tag byte with its length encoding and validity bit, and as many data
  bytes as the encoding announces. The contract of a handler: on a sample it succeeds, takes exactly the
  sample's data, and updates its state by a function of tag and data.
\<close>

type_synonym sample = "u8 \<times> u8 \<times> bytes"

fun sample_bytes :: "sample \<Rightarrow> bytes" where
  "sample_bytes (tag, info, data) = tag # info # data"

fun sample_wf :: "sample \<Rightarrow> bool" where
  "sample_wf (tag, info, data) = (length data = unat (sample_length info))"

fun sample_valid :: "sample \<Rightarrow> bool" where
  "sample_valid (tag, info, data) = (0x01 AND info \<noteq> 0)"

fun apply_sample :: "(u8 \<Rightarrow> bytes \<Rightarrow> 's \<Rightarrow> 's) \<Rightarrow> sample \<Rightarrow> 's \<Rightarrow> 's" where
  "apply_sample upd (tag, info, data) s = upd tag data s"

definition apply_samples :: "(u8 \<Rightarrow> bytes \<Rightarrow> 's \<Rightarrow> 's) \<Rightarrow> sample list \<Rightarrow> 's \<Rightarrow> 's" where
  "apply_samples upd samples s = fold (apply_sample upd) (filter sample_valid samples) s"

definition aggregate_frame :: "message_type \<Rightarrow> u8 \<Rightarrow> u8 \<Rightarrow> sample list \<Rightarrow> bytes \<Rightarrow> bytes" where
  "aggregate_frame mt cmd mid samples t =
     rev (le_bytes nvidiaPciVendorId) @ [mid, 0x89, message_type_code mt, cmd, CC_SUCCESS] @
     le_bytes (word_of_nat (length samples) :: u16) @ concat (map sample_bytes samples) @ t"

lemma decodeAggregateResponse_header:
  assumes "response_id mid"
  shows "decodeAggregateResponse
      (reader (rev (le_bytes nvidiaPciVendorId) @ [mid, 0x89, message_type_code mt, cmd, CC_SUCCESS] @ le_bytes (n :: u16) @ r))
      mt cmd cc0 rs0 handler s =
    (case aggregate_loop (unat n) handler (reader r) s of (rc, ub, s) \<Rightarrow> (rc, CC_SUCCESS, 0, s))"
proof -
  have "unpackHeader LittleEndian
      (reader (rev (le_bytes nvidiaPciVendorId) @ [mid, 0x89, message_type_code mt, cmd, CC_SUCCESS] @ le_bytes n @ r))
      nvidiaPciVendorId 0 0 0
    = (0, ocp_RESPONSE, mid AND 31, message_type_code mt, reader (cmd # CC_SUCCESS # le_bytes n @ r))"
    using assms by (simp add: unpackHeader_iff response_id_def)
  then show ?thesis
    by (simp add: decodeAggregateResponse_def unpackAggregateResponse_def codec_simps)
qed

locale sample_consumer =
  fixes handler :: "'s sample_handler" and upd :: "u8 \<Rightarrow> bytes \<Rightarrow> 's \<Rightarrow> 's"
  assumes consume: "length data = unat len \<Longrightarrow>
      handler tag len (reader (data @ r)) s = (0, reader r, upd tag data s)"
begin

lemma loop_samples:
  "\<forall>x \<in> set samples. sample_wf x \<Longrightarrow>
     aggregate_loop (length samples + n) handler (reader (concat (map sample_bytes samples) @ r)) s =
     aggregate_loop n handler (reader r) (apply_samples upd samples s)"
proof (induction samples arbitrary: s)
  case Nil
  then show ?case by (simp add: apply_samples_def)
next
  case (Cons x samples)
  obtain tag info data where x: "x = (tag, info, data)" by (cases x)
  with Cons.prems have len: "length data = unat (sample_length info)" by simp
  show ?case
    using Cons.IH Cons.prems
    by (simp add: x codec_simps consume [OF len] skip_app [OF len] apply_samples_def Let_def)
qed

lemma decode_samples:
  assumes "response_id mid" and "\<forall>x \<in> set samples. sample_wf x" and "length samples < 65536"
  shows "decodeAggregateResponse (UnpackBuffer (aggregate_frame mt cmd mid samples t)) mt cmd cc0 rs0 handler s
    = (0, CC_SUCCESS, 0, apply_samples upd samples s)"
proof -
  have n: "unat (word_of_nat (length samples) :: u16) = length samples"
    using assms(3) by (simp add: unat_of_nat take_bit_nat_eq_self_iff)
  have "aggregate_loop (length samples) handler (reader (concat (map sample_bytes samples) @ t)) s
      = (0, reader t, apply_samples upd samples s)"
    using loop_samples [OF assms(2), of 0 t s] by simp
  then show ?thesis
    using decodeAggregateResponse_header [OF assms(1), of mt cmd "word_of_nat (length samples) :: u16"
        "concat (map sample_bytes samples) @ t" cc0 rs0 handler s] n
    by (simp add: aggregate_frame_def)
qed

text \<open>The failing \<open>skip\<close> of a truncated invalid sample is not noticed when that sample is the last.\<close>

lemma decode_truncated:
  assumes "response_id mid" and "\<forall>x \<in> set samples. sample_wf x" and "Suc (length samples) < 65536"
    and "0x01 AND info = 0"
  shows "decodeAggregateResponse (UnpackBuffer (rev (le_bytes nvidiaPciVendorId) @
        [mid, 0x89, message_type_code mt, cmd, CC_SUCCESS] @ le_bytes (word_of_nat (Suc (length samples)) :: u16) @
        concat (map sample_bytes samples) @ [tag, info])) mt cmd cc0 rs0 handler s
    = (0, CC_SUCCESS, 0, apply_samples upd samples s)"
proof -
  have n: "unat (word_of_nat (Suc (length samples)) :: u16) = length samples + Suc 0"
    using assms(3) by (simp add: unat_of_nat take_bit_nat_eq_self_iff del: of_nat_Suc)
  have "aggregate_loop (Suc 0) handler (reader [tag, info]) s' = (0, snd (skip (unat (sample_length info)) (reader [])), s')" for s'
    using assms(4) by (simp add: codec_simps Let_def split: prod.split)
  then show ?thesis
    unfolding UnpackBuffer_reader decodeAggregateResponse_header [OF assms(1)] n loop_samples [OF assms(2)]
    by simp
qed

end

definition address_upd :: "u8 \<Rightarrow> bytes \<Rightarrow> u8 \<times> (u8 \<times> u64) list \<Rightarrow> u8 \<times> (u8 \<times> u64) list" where
  "address_upd tag data st =
     (if tag = 0 \<and> length data = 1 then (hd data, snd st)
      else if length data = 8 then (fst st, snd st @ [(tag, of_le_bytes data)])
      else st)"

definition counter_upd :: "u8 \<Rightarrow> bytes \<Rightarrow> (u8 \<times> u64) list \<Rightarrow> (u8 \<times> u64) list" where
  "counter_upd tag data vs =
     (if length data = 4 then vs @ [(tag, ucast (of_le_bytes data :: u32))]
      else if length data = 8 then vs @ [(tag, of_le_bytes data)]
      else vs)"

lemma u8_length: "unat (len :: u8) = n \<Longrightarrow> len = word_of_nat n"
  by auto

lemma unpack_u64_data: "length data = 8 \<Longrightarrow> unpack (old :: u64) (reader (data @ r)) = (0, of_le_bytes data, reader r)"
  using unpack_u64_app [of LittleEndian old "of_le_bytes data" r] by (simp add: le_bytes_of_le_bytes)

lemma unpack_u32_data: "length data = 4 \<Longrightarrow> unpack (old :: u32) (reader (data @ r)) = (0, of_le_bytes data, reader r)"
  using unpack_u32_app [of LittleEndian old "of_le_bytes data" r] by (simp add: le_bytes_of_le_bytes)

interpretation addresses: sample_consumer address_handler address_upd
proof
  fix data :: bytes and len tag :: u8 and r :: bytes and s :: "u8 \<times> (u8 \<times> u64) list"
  assume len: "length data = unat len"
  obtain lt as where s: "s = (lt, as)" by (cases s)
  have l: "len = 1 \<longleftrightarrow> length data = 1" "len = 8 \<longleftrightarrow> length data = 8"
    using len by (auto simp: word_unat_eq_iff)
  show "address_handler tag len (reader (data @ r)) s = (0, reader r, address_upd tag data s)"
  proof (cases "tag = 0 \<and> length data = 1")
    case True
    then obtain b where "data = [b]" by (auto simp: length_Suc_conv)
    with True l show ?thesis by (simp add: address_handler_def address_upd_def s codec_simps)
  next
    case False
    with l show ?thesis
      by (auto simp: address_handler_def address_upd_def s unpack_u64_data skip_app [OF len])
  qed
qed

interpretation counters: sample_consumer counter_handler counter_upd
proof
  fix data :: bytes and len tag :: u8 and r :: bytes and s :: "(u8 \<times> u64) list"
  assume len: "length data = unat len"
  have "len = 4 \<longleftrightarrow> length data = 4" "len = 8 \<longleftrightarrow> length data = 8"
    using len by (auto simp: word_unat_eq_iff)
  then show "counter_handler tag len (reader (data @ r)) s = (0, reader r, counter_upd tag data s)"
    by (auto simp: counter_handler_def counter_upd_def unpack_u32_data unpack_u64_data skip_app [OF len])
qed

end
