(* ===== verification/Codec_Properties.thy ===== *)
theory Codec_Properties
  imports Gpu_Aggregate
begin

text \<open>
  The properties of the NVIDIA GPU message codec, over the request specification \<open>encodes\<close> and the
  exactness lemmas of the decoders.
\<close>

section \<open>Requests\<close>

text \<open>The device capability, PCIe link and network port encoders implement the request format: an instance
  id above 31 is rejected with the buffer untouched; a buffer that is large enough gets header, command,
  payload length and payload at its start and keeps its remaining bytes; a shorter one fails with
  \<open>EINVAL\<close> after some prefix of the frame, never past its end. The V2 telemetry request packs the port
  type into bit 7 and the upstream port number modulo 128 into the low bits of one byte.\<close>

lemma discovery_and_port_requests:
  "encodes 0
      (request_bytes DEVICE_CAPABILITY_DISCOVERY (device_capability_code SET_EVENT_SUBSCRIPTION) 0 ([generationSetting] @ [eid])) buf
      (encodeSetEventSubscriptionRequest generationSetting eid buf) \<and>
   encodes 0
      (request_bytes DEVICE_CAPABILITY_DISCOVERY (device_capability_code SET_CURRENT_EVENT_SOURCES) 0 ([msgType] @ le_bytes sources)) buf
      (encodeSetEventSourcesRequest sources msgType buf) \<and>
   encodes instanceId
      (request_bytes DEVICE_CAPABILITY_DISCOVERY (device_capability_code QUERY_DEVICE_IDENTIFICATION) instanceId []) buf
      (encodeQueryDeviceIdentificationRequest instanceId buf) \<and>
   encodes instanceId
      (request_bytes DEVICE_CAPABILITY_DISCOVERY (device_capability_code GET_SUPPORTED_MESSAGE_TYPES) instanceId []) buf
      (encodeGetSupportedMessageTypesRequest instanceId buf) \<and>
   encodes instanceId
      (request_bytes DEVICE_CAPABILITY_DISCOVERY (device_capability_code GET_SUPPORTED_COMMAND_CODES) instanceId [nvidiaMessageType]) buf
      (encodeGetSupportedCommandCodesRequest instanceId nvidiaMessageType buf) \<and>
   encodes instanceId
      (request_bytes PCIE_LINK (pcie_link_code QueryScalarGroupTelemetryV1) instanceId ([deviceIndex] @ [(pcie_scalar_group_code groupId)])) buf
      (encodeQueryScalarGroupTelemetryV1Request instanceId deviceIndex groupId buf) \<and>
   encodes instanceId
      (request_bytes PCIE_LINK (pcie_link_code QueryScalarGroupTelemetryV2) instanceId ([(push_bit 7 (pcie_port_type_code portType) OR (upstreamPortNumber AND 0x7F))] @ [portNumber] @ [(pcie_scalar_group_code groupId)])) buf
      (encodeQueryScalarGroupTelemetryV2Request instanceId portType upstreamPortNumber portNumber groupId buf) \<and>
   encodes instanceId
      (request_bytes PCIE_LINK (pcie_link_code ListPCIePorts) instanceId []) buf
      (encodeListPciePortsRequest instanceId buf) \<and>
   encodes instanceId
      (request_bytes NETWORK_PORT (network_port_code GetPortNetworkAddresses) instanceId (le_bytes port)) buf
      (encodeGetPortNetworkAddressesRequest instanceId port buf) \<and>
   encodes instanceId
      (request_bytes NETWORK_PORT (network_port_code GetEthernetPortTelemetryCounters) instanceId (le_bytes port)) buf
      (encodeGetEthernetPortTelemetryCountersRequest instanceId port buf)"
  by (intro conjI
      encodeSetEventSubscriptionRequest_encodes
      encodeSetEventSourcesRequest_encodes
      encodeQueryDeviceIdentificationRequest_encodes
      encodeGetSupportedMessageTypesRequest_encodes
      encodeGetSupportedCommandCodesRequest_encodes
      encodeQueryScalarGroupTelemetryV1Request_encodes
      encodeQueryScalarGroupTelemetryV2Request_encodes
      encodeListPciePortsRequest_encodes
      encodeGetPortNetworkAddressesRequest_encodes
      encodeGetEthernetPortTelemetryCountersRequest_encodes)

text \<open>C10: the platform environmental encoders implement the request format, with the fields of each
  command in the order of the protocol and multi-byte fields least significant byte first.\<close>

theorem environmental_requests:
  "encodes instanceId
      (request_bytes PLATFORM_ENVIRONMENTAL (platform_environmental_code GET_TEMPERATURE_READING) instanceId [sensor]) buf
      (encodeGetTemperatureReadingRequest instanceId sensor buf) \<and>
   encodes instanceId
      (request_bytes PLATFORM_ENVIRONMENTAL (platform_environmental_code READ_THERMAL_PARAMETERS) instanceId [sensor]) buf
      (encodeReadThermalParametersRequest instanceId sensor buf) \<and>
   encodes instanceId
      (request_bytes PLATFORM_ENVIRONMENTAL (platform_environmental_code commandCode) instanceId ([sensor] @ [averagingInterval])) buf
      (encodeGetPowerDrawRequest commandCode instanceId sensor averagingInterval buf) \<and>
   encodes instanceId
      (request_bytes PLATFORM_ENVIRONMENTAL (platform_environmental_code GET_CURRENT_ENERGY_COUNTER) instanceId [sensor]) buf
      (encodeGetCurrentEnergyCounterRequest instanceId sensor buf) \<and>
   encodes instanceId
      (request_bytes PLATFORM_ENVIRONMENTAL (platform_environmental_code GET_VOLTAGE) instanceId [sensor]) buf
      (encodeGetVoltageRequest instanceId sensor buf) \<and>
   encodes instanceId
      (request_bytes PLATFORM_ENVIRONMENTAL (platform_environmental_code GET_POWER_LIMITS) instanceId (le_bytes powerLimitId)) buf
      (encodeGetPowerLimitsRequest instanceId powerLimitId buf) \<and>
   encodes instanceId
      (request_bytes PLATFORM_ENVIRONMENTAL (platform_environmental_code SET_POWER_LIMITS) instanceId (le_bytes powerLimitId @ [(set_power_limits_action_code action)] @ [(set_power_limits_persistence_code persistence)] @ le_bytes powerLimitMilliwatts)) buf
      (encodeSetPowerLimitsRequest instanceId powerLimitId action persistence powerLimitMilliwatts buf) \<and>
   encodes instanceId
      (request_bytes PLATFORM_ENVIRONMENTAL (platform_environmental_code GET_DRIVER_INFORMATION) instanceId []) buf
      (encodeGetDriverInformationRequest instanceId buf) \<and>
   encodes instanceId
      (request_bytes PLATFORM_ENVIRONMENTAL (platform_environmental_code GET_INVENTORY_INFORMATION) instanceId [propertyId]) buf
      (encodeGetInventoryInformationRequest instanceId propertyId buf) \<and>
   encodes instanceId
      (request_bytes PLATFORM_ENVIRONMENTAL (platform_environmental_code GET_CURRENT_UTILIZATION) instanceId []) buf
      (encodeGetCurrentUtilizationModeRequest instanceId buf) \<and>
   encodes instanceId
      (request_bytes PLATFORM_ENVIRONMENTAL (platform_environmental_code GET_CLOCK_LIMIT) instanceId ([(clock_type_code clockType)])) buf
      (encodeGetClockLimitRequest instanceId clockType buf) \<and>
   encodes instanceId
      (request_bytes PLATFORM_ENVIRONMENTAL (platform_environmental_code GET_VIOLATION_DURATION) instanceId []) buf
      (encodeGetViolationDurationRequest instanceId buf) \<and>
   encodes instanceId
      (request_bytes PLATFORM_ENVIRONMENTAL (platform_environmental_code GET_MEMORY_CAPACITY_UTILIZATION) instanceId []) buf
      (encodeGetMemoryCapacityUtilizationRequest instanceId buf) \<and>
   encodes instanceId
      (request_bytes PLATFORM_ENVIRONMENTAL (platform_environmental_code SET_CLOCK_LIMIT) instanceId ([(clock_type_code clockType)] @ [(clock_limit_flag_code flag)] @ le_bytes limitMinMHz @ le_bytes limitMaxMHz)) buf
      (encodeSetClockLimitRequest instanceId clockType flag limitMinMHz limitMaxMHz buf) \<and>
   encodes instanceId
      (request_bytes PLATFORM_ENVIRONMENTAL (platform_environmental_code GET_CURRENT_CLOCK_FREQUENCY) instanceId ([(clock_type_code clockId)])) buf
      (encodeGetCurrentClockFrequencyRequest instanceId clockId buf) \<and>
   encodes instanceId
      (request_bytes PLATFORM_ENVIRONMENTAL (platform_environmental_code GET_ECC_ERROR_COUNTS) instanceId []) buf
      (encodeGetEccErrorCountsRequest instanceId buf) \<and>
   encodes instanceId
      (request_bytes PLATFORM_ENVIRONMENTAL (platform_environmental_code GET_ECC_MODE) instanceId []) buf
      (encodeGetEccModeRequest instanceId buf) \<and>
   encodes instanceId
      (request_bytes PLATFORM_ENVIRONMENTAL (platform_environmental_code GET_LEAK_DETECTION_INFO) instanceId []) buf
      (encodeGetLeakDetectionInfoRequest instanceId buf)"
  by (intro conjI
      encodeGetTemperatureReadingRequest_encodes
      encodeReadThermalParametersRequest_encodes
      encodeGetPowerDrawRequest_encodes
      encodeGetCurrentEnergyCounterRequest_encodes
      encodeGetVoltageRequest_encodes
      encodeGetPowerLimitsRequest_encodes
      encodeSetPowerLimitsRequest_encodes
      encodeGetDriverInformationRequest_encodes
      encodeGetInventoryInformationRequest_encodes
      encodeGetCurrentUtilizationModeRequest_encodes
      encodeGetClockLimitRequest_encodes
      encodeGetViolationDurationRequest_encodes
      encodeGetMemoryCapacityUtilizationRequest_encodes
      encodeSetClockLimitRequest_encodes
      encodeGetCurrentClockFrequencyRequest_encodes
      encodeGetEccErrorCountsRequest_encodes
      encodeGetEccModeRequest_encodes
      encodeGetLeakDetectionInfoRequest_encodes)

text \<open>The request size constants are exact: encoding succeeds if and only if the instance id is at most
  31 and the buffer has at least the number of bytes the constant of that request announces.\<close>

lemma request_sizes_exact:
  "(fst (encodeSetEventSubscriptionRequest generationSetting eid buf) = 0 \<longleftrightarrow>
      setEventSubscriptionRequestSize \<le> length buf) \<and>
   (fst (encodeSetEventSourcesRequest sources msgType buf) = 0 \<longleftrightarrow>
      setEventSourcesRequestSize \<le> length buf) \<and>
   (fst (encodeQueryDeviceIdentificationRequest instanceId buf) = 0 \<longleftrightarrow>
      instanceId \<le> instanceMax \<and> queryDeviceIdentificationRequestSize \<le> length buf) \<and>
   (fst (encodeGetSupportedMessageTypesRequest instanceId buf) = 0 \<longleftrightarrow>
      instanceId \<le> instanceMax \<and> getSupportedMessageTypesRequestSize \<le> length buf) \<and>
   (fst (encodeGetSupportedCommandCodesRequest instanceId nvidiaMessageType buf) = 0 \<longleftrightarrow>
      instanceId \<le> instanceMax \<and> getSupportedCommandCodesRequestSize \<le> length buf) \<and>
   (fst (encodeGetTemperatureReadingRequest instanceId sensor buf) = 0 \<longleftrightarrow>
      instanceId \<le> instanceMax \<and> getTemperatureReadingRequestSize \<le> length buf) \<and>
   (fst (encodeReadThermalParametersRequest instanceId sensor buf) = 0 \<longleftrightarrow>
      instanceId \<le> instanceMax \<and> readThermalParametersRequestSize \<le> length buf) \<and>
   (fst (encodeGetPowerDrawRequest commandCode instanceId sensor averagingInterval buf) = 0 \<longleftrightarrow>
      instanceId \<le> instanceMax \<and> getPowerDrawRequestSize \<le> length buf) \<and>
   (fst (encodeGetCurrentEnergyCounterRequest instanceId sensor buf) = 0 \<longleftrightarrow>
      instanceId \<le> instanceMax \<and> getCurrentEnergyCounterRequestSize \<le> length buf) \<and>
   (fst (encodeGetVoltageRequest instanceId sensor buf) = 0 \<longleftrightarrow>
      instanceId \<le> instanceMax \<and> getVoltageRequestSize \<le> length buf) \<and>
   (fst (encodeGetPowerLimitsRequest instanceId powerLimitId buf) = 0 \<longleftrightarrow>
      instanceId \<le> instanceMax \<and> getPowerLimitsRequestSize \<le> length buf) \<and>
   (fst (encodeSetPowerLimitsRequest instanceId powerLimitId action persistence powerLimitMilliwatts buf) = 0 \<longleftrightarrow>
      instanceId \<le> instanceMax \<and> setPowerLimitsRequestSize \<le> length buf) \<and>
   (fst (encodeGetInventoryInformationRequest instanceId propertyId buf) = 0 \<longleftrightarrow>
      instanceId \<le> instanceMax \<and> getInventoryInformationRequestSize \<le> length buf) \<and>
   (fst (encodeGetCurrentUtilizationModeRequest instanceId buf) = 0 \<longleftrightarrow>
      instanceId \<le> instanceMax \<and> getCurrentUtilizationRequestSize \<le> length buf) \<and>
   (fst (encodeGetClockLimitRequest instanceId clockType buf) = 0 \<longleftrightarrow>
      instanceId \<le> instanceMax \<and> getClockLimitRequestSize \<le> length buf) \<and>
   (fst (encodeGetViolationDurationRequest instanceId buf) = 0 \<longleftrightarrow>
      instanceId \<le> instanceMax \<and> getViolationDurationRequestSize \<le> length buf) \<and>
   (fst (encodeGetMemoryCapacityUtilizationRequest instanceId buf) = 0 \<longleftrightarrow>
      instanceId \<le> instanceMax \<and> getMemoryCapacityUtilizationRequestSize \<le> length buf) \<and>
   (fst (encodeSetClockLimitRequest instanceId clockType flag limitMinMHz limitMaxMHz buf) = 0 \<longleftrightarrow>
      instanceId \<le> instanceMax \<and> setClockLimitRequestSize \<le> length buf) \<and>
   (fst (encodeQueryScalarGroupTelemetryV1Request instanceId deviceIndex groupId buf) = 0 \<longleftrightarrow>
      instanceId \<le> instanceMax \<and> queryScalarGroupTelemetryV1RequestSize \<le> length buf) \<and>
   (fst (encodeQueryScalarGroupTelemetryV2Request instanceId portType upstreamPortNumber portNumber groupId buf) = 0 \<longleftrightarrow>
      instanceId \<le> instanceMax \<and> queryScalarGroupTelemetryV2RequestSize \<le> length buf) \<and>
   (fst (encodeGetPortNetworkAddressesRequest instanceId port buf) = 0 \<longleftrightarrow>
      instanceId \<le> instanceMax \<and> getPortNetworkAddressesRequestSize \<le> length buf) \<and>
   (fst (encodeGetEthernetPortTelemetryCountersRequest instanceId port buf) = 0 \<longleftrightarrow>
      instanceId \<le> instanceMax \<and> getEthernetPortTelemetryCountersRequestSize \<le> length buf) \<and>
   (fst (encodeGetCurrentClockFrequencyRequest instanceId clockId buf) = 0 \<longleftrightarrow>
      instanceId \<le> instanceMax \<and> getCurrentClockFrequencyRequestSize \<le> length buf) \<and>
   (fst (encodeGetEccErrorCountsRequest instanceId buf) = 0 \<longleftrightarrow>
      instanceId \<le> instanceMax \<and> getEccErrorCountsRequestSize \<le> length buf) \<and>
   (fst (encodeGetEccModeRequest instanceId buf) = 0 \<longleftrightarrow>
      instanceId \<le> instanceMax \<and> getEccModeRequestSize \<le> length buf) \<and>
   (fst (encodeGetLeakDetectionInfoRequest instanceId buf) = 0 \<longleftrightarrow>
      instanceId \<le> instanceMax \<and> getLeakDetectionInfoRequestSize \<le> length buf)"
  by (intro conjI)
    (simp_all add: length_request_bytes
      encodes_rc [OF encodeSetEventSubscriptionRequest_encodes]
      encodes_rc [OF encodeSetEventSourcesRequest_encodes]
      encodes_rc [OF encodeQueryDeviceIdentificationRequest_encodes]
      encodes_rc [OF encodeGetSupportedMessageTypesRequest_encodes]
      encodes_rc [OF encodeGetSupportedCommandCodesRequest_encodes]
      encodes_rc [OF encodeGetTemperatureReadingRequest_encodes]
      encodes_rc [OF encodeReadThermalParametersRequest_encodes]
      encodes_rc [OF encodeGetPowerDrawRequest_encodes]
      encodes_rc [OF encodeGetCurrentEnergyCounterRequest_encodes]
      encodes_rc [OF encodeGetVoltageRequest_encodes]
      encodes_rc [OF encodeGetPowerLimitsRequest_encodes]
      encodes_rc [OF encodeSetPowerLimitsRequest_encodes]
      encodes_rc [OF encodeGetInventoryInformationRequest_encodes]
      encodes_rc [OF encodeGetCurrentUtilizationModeRequest_encodes]
      encodes_rc [OF encodeGetClockLimitRequest_encodes]
      encodes_rc [OF encodeGetViolationDurationRequest_encodes]
      encodes_rc [OF encodeGetMemoryCapacityUtilizationRequest_encodes]
      encodes_rc [OF encodeSetClockLimitRequest_encodes]
      encodes_rc [OF encodeQueryScalarGroupTelemetryV1Request_encodes]
      encodes_rc [OF encodeQueryScalarGroupTelemetryV2Request_encodes]
      encodes_rc [OF encodeGetPortNetworkAddressesRequest_encodes]
      encodes_rc [OF encodeGetEthernetPortTelemetryCountersRequest_encodes]
      encodes_rc [OF encodeGetCurrentClockFrequencyRequest_encodes]
      encodes_rc [OF encodeGetEccErrorCountsRequest_encodes]
      encodes_rc [OF encodeGetEccModeRequest_encodes]
      encodes_rc [OF encodeGetLeakDetectionInfoRequest_encodes])

section \<open>The message header\<close>

text \<open>The header round trip: unpacking the header that \<open>packHeader\<close> wrote gives back message kind,
  instance id and message type and stops right after it.\<close>

lemma header_roundtrip:
  assumes "iid \<le> instanceMax" and "mt = ocp_RESPONSE \<or> mt = ocp_REQUEST" and "5 \<le> length buf"
  shows "let (rc, pb) = packHeader LittleEndian (PackBuffer buf) vid mt iid ty in
    rc = 0 \<and> pb_error pb = 0 \<and>
    unpackHeader LittleEndian (UnpackBuffer (pb_mem pb)) vid mt0 iid0 ty0 = (0, mt, iid, ty, UnpackBuffer (drop 5 buf))"
proof -
  have p: "packHeader LittleEndian (PackBuffer buf) vid mt iid ty
      = (0, packed (header_bytes vid mt iid ty) (drop 5 buf))"
    using packHeader_packed [of iid mt buf "[]" vid ty] assms by (simp add: PackBuffer_packed)
  from assms(1,2) show ?thesis
    by (simp add: p packed_def unpackHeader_header)
qed

lemma header_roundtrip_witness:
  "let (rc, pb) = packHeader LittleEndian (PackBuffer [0, 0, 0, 0, 0, 7]) 0x10DE ocp_REQUEST 3 1 in
    rc = 0 \<and> pb_error pb = 0 \<and>
    unpackHeader LittleEndian (UnpackBuffer (pb_mem pb)) 0x10DE 0 0 0 = (0, ocp_REQUEST, 3, 1, UnpackBuffer [7])"
  using header_roundtrip [of 3 ocp_REQUEST "[0, 0, 0, 0, 0, 7]" "0x10DE" 1 0 0 0] by simp

text \<open>Integers are little-endian on the wire whatever the byte order of the host, in both directions.
  The vendor id is the exception: \<open>htobe16\<close> before \<open>pack\<close> gives big-endian bytes on a little-endian
  host only; on a big-endian host the two bytes come out swapped.\<close>

lemma wire_byte_order:
  "pack_on host (w8 :: u8) pb = pack w8 pb \<and> pack_on host (w16 :: u16) pb = pack w16 pb \<and>
   pack_on host (w32 :: u32) pb = pack w32 pb \<and> pack_on host (w64 :: u64) pb = pack w64 pb \<and>
   unpack_on host w8 ub = unpack w8 ub \<and> unpack_on host w16 ub = unpack w16 ub \<and>
   unpack_on host w32 ub = unpack w32 ub \<and> unpack_on host w64 ub = unpack w64 ub \<and>
   pb_mem (snd (packHeader LittleEndian (PackBuffer [0, 0, 0, 0, 0]) nvidiaPciVendorId ocp_REQUEST 0 3)) =
     [0x10, 0xDE, 0x80, 0x89, 3] \<and>
   pb_mem (snd (packHeader BigEndian (PackBuffer [0, 0, 0, 0, 0]) nvidiaPciVendorId ocp_REQUEST 0 3)) =
     [0xDE, 0x10, 0x80, 0x89, 3]"
proof (intro conjI)
  show "pb_mem (snd (packHeader LittleEndian (PackBuffer [0, 0, 0, 0, 0]) nvidiaPciVendorId ocp_REQUEST 0 3)) =
     [0x10, 0xDE, 0x80, 0x89, 3]" by code_simp
  show "pb_mem (snd (packHeader BigEndian (PackBuffer [0, 0, 0, 0, 0]) nvidiaPciVendorId ocp_REQUEST 0 3)) =
     [0xDE, 0x10, 0x80, 0x89, 3]" by code_simp
qed (simp_all add: pack_on_eq unpack_on_eq)

section \<open>Responses\<close>

text \<open>
  \<open>carries mt cmd ds buf r\<close>: the datagram \<open>buf\<close> is a successful response of the message type and
  command, announces \<open>ds\<close> bytes of data, and \<open>r\<close> is what follows the data size.
\<close>

definition carries :: "message_type \<Rightarrow> u8 \<Rightarrow> u16 \<Rightarrow> bytes \<Rightarrow> bytes \<Rightarrow> bool" where
  "carries mt cmd ds buf r \<longleftrightarrow> (\<exists>mid reason. response_id mid \<and> buf = success_frame mt cmd mid reason ds r)"

text \<open>C9: the fixed-layout platform environmental decoders are exact: a decoder reports success if and only
  if the datagram is a successful response to its command whose data size is the size of its fields and
  which holds all of them; the fields are then the received ones, in this order. Bytes after them are
  ignored.\<close>

theorem fixed_layout_responses:
  "(decodeReadThermalParametersResponse buf cc0 rs0 v' = (0, CC_SUCCESS, rs, v) \<longleftrightarrow>
      rs = 0 \<and> (\<exists>t. carries PLATFORM_ENVIRONMENTAL (platform_environmental_code READ_THERMAL_PARAMETERS) 4 buf (le_bytes v @ t))) \<and>
   (decodeGetCurrentEnergyCounterResponse buf cc0 rs0 v64' = (0, CC_SUCCESS, rs, v64) \<longleftrightarrow>
      rs = 0 \<and> (\<exists>t. carries PLATFORM_ENVIRONMENTAL (platform_environmental_code GET_CURRENT_ENERGY_COUNTER) 8 buf (le_bytes v64 @ t))) \<and>
   (decodeGetVoltageResponse buf cc0 rs0 v' = (0, CC_SUCCESS, rs, v) \<longleftrightarrow>
      rs = 0 \<and> (\<exists>t. carries PLATFORM_ENVIRONMENTAL (platform_environmental_code GET_VOLTAGE) 4 buf (le_bytes v @ t))) \<and>
   (decodeGetCurrentClockFrequencyResponse buf cc0 rs0 v' = (0, CC_SUCCESS, rs, v) \<longleftrightarrow>
      rs = 0 \<and> (\<exists>t. carries PLATFORM_ENVIRONMENTAL (platform_environmental_code GET_CURRENT_CLOCK_FREQUENCY) 4 buf (le_bytes v @ t))) \<and>
   (decodeGetPowerLimitsResponse buf cc0 rs0 a' b' c' = (0, CC_SUCCESS, rs, a, b, c) \<longleftrightarrow>
      rs = 0 \<and> (\<exists>t. carries PLATFORM_ENVIRONMENTAL (platform_environmental_code GET_POWER_LIMITS) 12 buf (le_bytes a @ le_bytes b @ le_bytes c @ t))) \<and>
   (decodeGetCurrentUtilizationModeResponse buf cc0 rs0 a' b' = (0, CC_SUCCESS, rs, a, b) \<longleftrightarrow>
      rs = 0 \<and> (\<exists>t. carries PLATFORM_ENVIRONMENTAL (platform_environmental_code GET_CURRENT_UTILIZATION) 8 buf (le_bytes a @ le_bytes b @ t))) \<and>
   (decodeGetMemoryCapacityUtilizationResponse buf cc0 rs0 a' b' = (0, CC_SUCCESS, rs, a, b) \<longleftrightarrow>
      rs = 0 \<and> (\<exists>t. carries PLATFORM_ENVIRONMENTAL (platform_environmental_code GET_MEMORY_CAPACITY_UTILIZATION) 8 buf (le_bytes a @ le_bytes b @ t))) \<and>
   (decodeGetClockLimitResponse buf cc0 rs0 a' b' c' d' = (0, CC_SUCCESS, rs, a, b, c, d) \<longleftrightarrow>
      rs = 0 \<and> (\<exists>t. carries PLATFORM_ENVIRONMENTAL (platform_environmental_code GET_CLOCK_LIMIT) 16 buf (le_bytes a @ le_bytes b @ le_bytes c @ le_bytes d @ t))) \<and>
   (decodeGetViolationDurationResponse buf cc0 rs0 p' q' r' s' = (0, CC_SUCCESS, rs, p, q, r, s) \<longleftrightarrow>
      rs = 0 \<and> (\<exists>t. carries PLATFORM_ENVIRONMENTAL (platform_environmental_code GET_VIOLATION_DURATION) 32 buf (le_bytes p @ le_bytes q @ le_bytes r @ le_bytes s @ t))) \<and>
   (decodeGetEccErrorCountsResponse buf cc0 rs0 f' a' b' c' d' e' = (0, CC_SUCCESS, rs, f, a, b, c, d, e) \<longleftrightarrow>
      rs = 0 \<and> (\<exists>t. carries PLATFORM_ENVIRONMENTAL (platform_environmental_code GET_ECC_ERROR_COUNTS) 22 buf (le_bytes f @ le_bytes a @ le_bytes b @ le_bytes c @ le_bytes d @ le_bytes e @ t)))"
  unfolding carries_def
    decodeReadThermalParametersResponse_exact
    decodeGetCurrentEnergyCounterResponse_exact
    decodeGetVoltageResponse_exact
    decodeGetCurrentClockFrequencyResponse_exact
    decodeGetPowerLimitsResponse_exact
    decodeGetCurrentUtilizationModeResponse_exact
    decodeGetMemoryCapacityUtilizationResponse_exact
    decodeGetClockLimitResponse_exact
    decodeGetViolationDurationResponse_exact
    decodeGetEccErrorCountsResponse_exact
  by (intro conjI) auto

text \<open>Responses whose field is converted: a temperature is the received 32-bit word read as a signed
  number of 1/256 degrees; of the ECC flag byte, bit 0 is the current mode and bit 1 the pending one.\<close>

lemma converted_responses:
  "(decodeGetTemperatureReadingResponse buf cc0 rs0 v' = (0, CC_SUCCESS, rs, v) \<longleftrightarrow>
      rs = 0 \<and> (\<exists>w t. carries PLATFORM_ENVIRONMENTAL (platform_environmental_code GET_TEMPERATURE_READING) 4 buf
        (le_bytes w @ t) \<and> v = of_int (sint (w :: u32)) / 256)) \<and>
   (decodeGetEccModeResponse buf cc0 rs0 c' p' = (0, CC_SUCCESS, rs, c, p) \<longleftrightarrow>
      rs = 0 \<and> (\<exists>flags t. carries PLATFORM_ENVIRONMENTAL (platform_environmental_code GET_ECC_MODE) 1 buf (flags # t) \<and>
        c = bit flags 0 \<and> p = bit flags 1))"
  unfolding decodeGetTemperatureReadingResponse_exact decodeGetEccModeResponse_exact carries_def
  by (intro conjI) blast+

text \<open>Device discovery: the identification response holds two bytes; the supported message type and
  command lists are accepted only when the announced size is the size of the caller's array, which is
  then filled completely.\<close>

lemma discovery_responses:
  "(decodeQueryDeviceIdentificationResponse buf cc0 rs0 i' n' = (0, CC_SUCCESS, rs, i, n) \<longleftrightarrow>
      rs = 0 \<and> (\<exists>t. carries DEVICE_CAPABILITY_DISCOVERY (device_capability_code QUERY_DEVICE_IDENTIFICATION) 2 buf
        ([i, n] @ t))) \<and>
   (decodeGetSupportedMessageTypesResponse buf cc0 rs0 old = (0, CC_SUCCESS, rs, xs) \<longleftrightarrow>
      rs = 0 \<and> length xs = length old \<and>
      (\<exists>ds t. unat ds = length old \<and>
        carries DEVICE_CAPABILITY_DISCOVERY (device_capability_code GET_SUPPORTED_MESSAGE_TYPES) ds buf (xs @ t))) \<and>
   (decodeGetSupportedCommandCodesResponse buf cc0 rs0 old = (0, CC_SUCCESS, rs, xs) \<longleftrightarrow>
      rs = 0 \<and> length xs = length old \<and>
      (\<exists>ds t. unat ds = length old \<and>
        carries DEVICE_CAPABILITY_DISCOVERY (device_capability_code GET_SUPPORTED_COMMAND_CODES) ds buf (xs @ t)))"
  unfolding decodeQueryDeviceIdentificationResponse_exact decodeGetSupportedMessageTypesResponse_exact
    decodeGetSupportedCommandCodesResponse_exact carries_def
  by (intro conjI) (auto simp: success_frame_inj)

text \<open>Inventory: the kind of the property, not the response, decides how the data is read. Strings and
  GUIDs take exactly the announced number of bytes, between 1 and 256, and need them to be present; numeric
  properties take four bytes; for the other properties every response is refused.\<close>

lemma inventory_response:
  "decodeGetInventoryInformationResponse buf cc0 rs0 p old = (0, CC_SUCCESS, rs, v) \<longleftrightarrow>
     rs = 0 \<and> (\<exists>ds r. ds \<noteq> 0 \<and> unat ds \<le> maxInventoryDataSize \<and>
       carries PLATFORM_ENVIRONMENTAL (platform_environmental_code GET_INVENTORY_INFORMATION) ds buf r \<and>
       (case inventory_kind_of p of
          StringKind \<Rightarrow> \<exists>s t. r = s @ t \<and> length s = unat ds \<and> v = InvString s
        | BytesKind \<Rightarrow> \<exists>s t. r = s @ t \<and> length s = unat ds \<and> v = InvBytes s
        | NumberKind \<Rightarrow> \<exists>w t. r = le_bytes w @ t \<and> v = InvU32 w
        | UnknownKind \<Rightarrow> False))"
  unfolding decodeGetInventoryInformationResponse_exact carries_def
  by (cases "inventory_kind_of p") (auto simp: success_frame_inj)

text \<open>The two lax decoders. The driver version is every byte of the datagram after the state byte except
  the last, whatever the announced data size says: an announced size of 2 with a long tail yields the whole
  tail. The power draw decoder, which serves two commands, accepts the response of any platform
  environmental command that carries four bytes.\<close>

lemma lax_responses:
  "(decodeGetDriverInformationResponse buf cc0 rs0 st' ver' = (0, CC_SUCCESS, rs, st, ver) \<longleftrightarrow>
      rs = 0 \<and> (\<exists>ds last. 2 \<le> unat ds \<and>
        carries PLATFORM_ENVIRONMENTAL (platform_environmental_code GET_DRIVER_INFORMATION) ds buf (st # ver @ [last]))) \<and>
   (decodeGetPowerDrawResponse buf cc0 rs0 v' = (0, CC_SUCCESS, rs, v) \<longleftrightarrow>
      rs = 0 \<and> (\<exists>cmd t. carries PLATFORM_ENVIRONMENTAL cmd 4 buf (le_bytes v @ t)))"
proof
  show "decodeGetDriverInformationResponse buf cc0 rs0 st' ver' = (0, CC_SUCCESS, rs, st, ver) \<longleftrightarrow>
      rs = 0 \<and> (\<exists>ds last. 2 \<le> unat ds \<and>
        carries PLATFORM_ENVIRONMENTAL (platform_environmental_code GET_DRIVER_INFORMATION) ds buf (st # ver @ [last]))"
    unfolding decodeGetDriverInformationResponse_exact carries_def
    by (auto simp: word_less_nat_alt not_less success_frame_inj)
  show "decodeGetPowerDrawResponse buf cc0 rs0 v' = (0, CC_SUCCESS, rs, v) \<longleftrightarrow>
      rs = 0 \<and> (\<exists>cmd t. carries PLATFORM_ENVIRONMENTAL cmd 4 buf (le_bytes v @ t))"
    unfolding decodeGetPowerDrawResponse_exact carries_def by blast
qed

text \<open>The decoders of responses without data accept every response of their command and report its
  completion code, with the reason code when it is an error and 0 when it is a success.\<close>

lemma no_payload_responses:
  "(decodeSetEventSubscriptionResponse buf cc0 rs0 = (0, cc, rs) \<longleftrightarrow> (\<exists>mid reason r. response_id mid \<and>
      rs = (if cc = CC_SUCCESS then 0 else reason) \<and> buf = response_frame DEVICE_CAPABILITY_DISCOVERY
        (device_capability_code SET_EVENT_SUBSCRIPTION) mid cc reason r)) \<and>
   (decodeSetEventSourcesResponse buf cc0 rs0 = (0, cc, rs) \<longleftrightarrow> (\<exists>mid reason r. response_id mid \<and>
      rs = (if cc = CC_SUCCESS then 0 else reason) \<and> buf = response_frame DEVICE_CAPABILITY_DISCOVERY
        (device_capability_code SET_CURRENT_EVENT_SOURCES) mid cc reason r)) \<and>
   (decodeSetPowerLimitsResponse buf cc0 rs0 = (0, cc, rs) \<longleftrightarrow> (\<exists>mid reason r. response_id mid \<and>
      rs = (if cc = CC_SUCCESS then 0 else reason) \<and> buf = response_frame PLATFORM_ENVIRONMENTAL
        (platform_environmental_code SET_POWER_LIMITS) mid cc reason r)) \<and>
   (decodeSetClockLimitResponse buf cc0 rs0 = (0, cc, rs) \<longleftrightarrow> (\<exists>mid reason r. response_id mid \<and>
      rs = (if cc = CC_SUCCESS then 0 else reason) \<and> buf = response_frame PLATFORM_ENVIRONMENTAL
        (platform_environmental_code SET_CLOCK_LIMIT) mid cc reason r))"
  unfolding decodeSetEventSubscriptionResponse_def decodeSetEventSourcesResponse_def
    decodeSetPowerLimitsResponse_def decodeSetClockLimitResponse_def decode_no_payload_iff
  by (intro conjI) blast+

text \<open>The payload decoders used when a long-running command's answer arrives as an event, and the Xid
  event decoder, read their fields in order and refuse a payload that is too short.\<close>

lemma event_payloads:
  "(decodeGetCurrentUtilizationModePayload buf a' b' = (0, a, b) \<longleftrightarrow> (\<exists>t. buf = le_bytes a @ le_bytes b @ t)) \<and>
   (decodeGetMemoryCapacityUtilizationPayload buf a' b' = (0, a, b) \<longleftrightarrow> (\<exists>t. buf = le_bytes a @ le_bytes b @ t)) \<and>
   (decodeGetViolationDurationPayload buf p' q' r' s' = (0, p, q, r, s) \<longleftrightarrow>
      (\<exists>t. buf = le_bytes p @ le_bytes q @ le_bytes r @ le_bytes s @ t)) \<and>
   (decodeGetEccModePayload buf x' y' = (0, x, y) \<longleftrightarrow> (\<exists>flags t. buf = flags # t \<and> x = bit flags 0 \<and> y = bit flags 1)) \<and>
   (decodeXidEvent buf f' m' n' t' g' = (0, flags, reason, seqn, ts, msg) \<longleftrightarrow>
      (\<exists>x y z. buf = [flags, x, y, z] @ le_bytes reason @ le_bytes seqn @ le_bytes ts @ msg))"
  by (simp add: decode_payload_only_exact decodeXidEvent_exact)

text \<open>Scalar group telemetry, both versions: the number of values is a quarter of the announced size,
  rounded down; all of them must be present; they replace the front of the caller's vector, which grows
  when it is too short and keeps its remaining entries when it is longer. Listing the PCIe ports: of the
  announced pairs (internal flag, downstream count) the result keeps the counts of the external ports, in
  order, and their number.\<close>

lemma pcie_responses:
  "(decodeQueryScalarGroupTelemetryV1Response buf cc0 rs0 n0 old = (0, CC_SUCCESS, rs, num, vals) \<longleftrightarrow>
      rs = 0 \<and> (\<exists>ds ws t. carries PCIE_LINK (pcie_link_code QueryScalarGroupTelemetryV1) ds buf
          (concat (map le_bytes ws) @ t) \<and>
        num = unat ds div 4 \<and> length ws = num \<and> vals = ws @ drop num old)) \<and>
   (decodeQueryScalarGroupTelemetryV2Response buf cc0 rs0 n0 old = (0, CC_SUCCESS, rs, num, vals) \<longleftrightarrow>
      rs = 0 \<and> (\<exists>ds ws t. carries PCIE_LINK (pcie_link_code QueryScalarGroupTelemetryV2) ds buf
          (concat (map le_bytes ws) @ t) \<and>
        num = unat ds div 4 \<and> length ws = num \<and> vals = ws @ drop num old)) \<and>
   (decodeListPciePortsResponse buf cc0 rs0 up0 ports0 = (0, CC_SUCCESS, rs, up, ports) \<longleftrightarrow>
      rs = 0 \<and> (\<exists>ds n ps t. 2 \<le> unat ds \<and> length ps = unat n \<and>
        carries PCIE_LINK (pcie_link_code ListPCIePorts) ds buf
          (le_bytes (n :: u16) @ concat (map (\<lambda>(internal, count). [internal, count]) ps) @ t) \<and>
        ports = [count. (internal, count) \<leftarrow> ps, internal = 0] \<and> up = word_of_nat (length ports)))"
proof -
  have f: "[count. (internal, count) \<leftarrow> ps, internal = 0] = map snd (filter (\<lambda>p. fst p = 0) ps)"
    for ps :: "(u8 \<times> u8) list"
    by (induction ps) auto
  have size: "\<not> (ds :: u16) < 2 \<longleftrightarrow> 2 \<le> unat ds" for ds
    by (simp add: word_less_nat_alt not_less)
  show ?thesis
    unfolding decodeQueryScalarGroupTelemetryV1Response_def decodeQueryScalarGroupTelemetryV2Response_def
      decodeQueryScalarGroupTelemetryResponseImpl_exact decodeListPciePortsResponse_exact carries_def f size
    by (intro conjI) blast+
qed

text \<open>Leak detection: the announced numbers of sensors and of threshold levels determine the layout; the
  result holds every sensor, in order, each with exactly that many thresholds.\<close>

lemma leak_detection_response:
  "decodeGetLeakDetectionInfoResponse buf cc0 rs0 old = (0, CC_SUCCESS, rs, sensors) \<longleftrightarrow>
     rs = 0 \<and> (\<exists>ds n k t. carries PLATFORM_ENVIRONMENTAL (platform_environmental_code GET_LEAK_DETECTION_INFO) ds buf
       ([n, k] @ concat (map leak_bytes sensors) @ t) \<and>
       length sensors = unat n \<and> (\<forall>x \<in> set sensors. length (thresholds x) = unat k))"
  unfolding decodeGetLeakDetectionInfoResponse_exact carries_def by blast

text \<open>C15: responses of variable layout. Scalar group telemetry, both versions: the number of values is a
  quarter of the announced size, rounded down; all of them must be present; they replace the front of the
  caller's vector, which grows when it is too short and keeps its remaining entries when it is longer.
  Listing the PCIe ports: of the announced pairs (internal flag, downstream count) the result keeps the
  counts of the external ports, in order, and their number. Leak detection: the announced numbers of
  sensors and of threshold levels determine the layout; the result holds every sensor, in order, each with
  exactly that many thresholds. Inventory: the kind of the property, not the response, decides how the data
  is read; strings and GUIDs take exactly the announced number of bytes, between 1 and 256, numeric
  properties take four bytes, and for other properties every response is refused.\<close>

theorem variable_layout_responses:
  "(decodeQueryScalarGroupTelemetryV1Response buf cc0 rs0 n0 old = (0, CC_SUCCESS, rs, num, vals) \<longleftrightarrow>
      rs = 0 \<and> (\<exists>ds ws t. carries PCIE_LINK (pcie_link_code QueryScalarGroupTelemetryV1) ds buf
          (concat (map le_bytes ws) @ t) \<and>
        num = unat ds div 4 \<and> length ws = num \<and> vals = ws @ drop num old)) \<and>
   (decodeQueryScalarGroupTelemetryV2Response buf cc0 rs0 n0 old = (0, CC_SUCCESS, rs, num, vals) \<longleftrightarrow>
      rs = 0 \<and> (\<exists>ds ws t. carries PCIE_LINK (pcie_link_code QueryScalarGroupTelemetryV2) ds buf
          (concat (map le_bytes ws) @ t) \<and>
        num = unat ds div 4 \<and> length ws = num \<and> vals = ws @ drop num old)) \<and>
   (decodeListPciePortsResponse buf cc0 rs0 up0 ports0 = (0, CC_SUCCESS, rs, up, ports) \<longleftrightarrow>
      rs = 0 \<and> (\<exists>ds n ps t. 2 \<le> unat ds \<and> length ps = unat n \<and>
        carries PCIE_LINK (pcie_link_code ListPCIePorts) ds buf
          (le_bytes (n :: u16) @ concat (map (\<lambda>(internal, count). [internal, count]) ps) @ t) \<and>
        ports = [count. (internal, count) \<leftarrow> ps, internal = 0] \<and> up = word_of_nat (length ports))) \<and>
   (decodeGetLeakDetectionInfoResponse buf cc0 rs0 sensors0 = (0, CC_SUCCESS, rs, sensors) \<longleftrightarrow>
     rs = 0 \<and> (\<exists>ds n k t. carries PLATFORM_ENVIRONMENTAL (platform_environmental_code GET_LEAK_DETECTION_INFO) ds buf
       ([n, k] @ concat (map leak_bytes sensors) @ t) \<and>
       length sensors = unat n \<and> (\<forall>x \<in> set sensors. length (thresholds x) = unat k))) \<and>
   (decodeGetInventoryInformationResponse buf cc0 rs0 p v0 = (0, CC_SUCCESS, rs, v) \<longleftrightarrow>
     rs = 0 \<and> (\<exists>ds r. ds \<noteq> 0 \<and> unat ds \<le> maxInventoryDataSize \<and>
       carries PLATFORM_ENVIRONMENTAL (platform_environmental_code GET_INVENTORY_INFORMATION) ds buf r \<and>
       (case inventory_kind_of p of
          StringKind \<Rightarrow> \<exists>s t. r = s @ t \<and> length s = unat ds \<and> v = InvString s
        | BytesKind \<Rightarrow> \<exists>s t. r = s @ t \<and> length s = unat ds \<and> v = InvBytes s
        | NumberKind \<Rightarrow> \<exists>w t. r = le_bytes w @ t \<and> v = InvU32 w
        | UnknownKind \<Rightarrow> False)))"
  by (intro conjI inventory_response leak_detection_response pcie_responses [THEN conjunct1]
      pcie_responses [THEN conjunct2, THEN conjunct1] pcie_responses [THEN conjunct2, THEN conjunct2])

lemma variable_layout_responses_witness:
  "decodeGetLeakDetectionInfoResponse (success_frame PLATFORM_ENVIRONMENTAL 0x17 3 0 8
      [1, 1, 5, 0, 0x34, 0x12, 0x78, 0x56]) 0 0 [] =
    (0, CC_SUCCESS, 0, [\<lparr>sensorId = 5, leakState = 0, thresholds = [0x1234], adcReadingMv = 0x5678\<rparr>])"
proof -
  have "[1, 1, 5, 0, 0x34, 0x12, 0x78, 0x56] = [1, 1] @ concat (map leak_bytes
      [\<lparr>sensorId = 5, leakState = 0, thresholds = [0x1234], adcReadingMv = 0x5678\<rparr>]) @ []"
    by (simp add: leak_bytes_def) code_simp
  moreover have "response_id 3" by (simp add: response_id_def)
  ultimately have "carries PLATFORM_ENVIRONMENTAL (platform_environmental_code GET_LEAK_DETECTION_INFO) 8
      (success_frame PLATFORM_ENVIRONMENTAL 0x17 3 0 8 [1, 1, 5, 0, 0x34, 0x12, 0x78, 0x56])
      ([1, 1] @ concat (map leak_bytes
        [\<lparr>sensorId = 5, leakState = 0, thresholds = [0x1234], adcReadingMv = 0x5678\<rparr>]) @ [])"
    unfolding carries_def by (auto simp: success_frame_inj)
  then show ?thesis
    unfolding variable_layout_responses [THEN conjunct2, THEN conjunct2, THEN conjunct2, THEN conjunct1]
    by - (rule conjI [OF refl], rule exI [of _ 8], rule exI [of _ 1], rule exI [of _ 1], rule exI [of _ "[]"], simp)
qed

section \<open>Error responses\<close>

text \<open>
  A response with a completion code other than success ends every decoder with a payload at once.
\<close>

lemma decode_payload_error:
  assumes "response_id mid" and "cc \<noteq> CC_SUCCESS"
  shows "decode_payload mt cmd ok (response_frame mt cmd mid cc reason r) cc0 rs0 = Inl (0, cc, reason)"
proof -
  have "decodeResponseCommonHeader (reader (response_frame mt cmd mid cc reason r)) mt cmd cc0 rs0
      = (0, cc, reason, reader r)"
    using assms unfolding decodeResponseCommonHeader_iff by auto
  then show ?thesis
    using assms(2) by (simp add: decode_payload_def)
qed

text \<open>An error response is reported as such: the decoder returns 0 with the received completion and
  reason codes, and leaves every output as it was.\<close>

lemma error_response_reported:
  assumes "response_id mid" and "cc \<noteq> CC_SUCCESS"
  shows "decodeQueryDeviceIdentificationResponse (response_frame DEVICE_CAPABILITY_DISCOVERY (device_capability_code QUERY_DEVICE_IDENTIFICATION) mid cc reason rest) cc0 rs0 i n =
      (0, cc, reason, i, n) \<and>
    decodeGetSupportedMessageTypesResponse (response_frame DEVICE_CAPABILITY_DISCOVERY (device_capability_code GET_SUPPORTED_MESSAGE_TYPES) mid cc reason rest) cc0 rs0 bs =
      (0, cc, reason, bs) \<and>
    decodeGetSupportedCommandCodesResponse (response_frame DEVICE_CAPABILITY_DISCOVERY (device_capability_code GET_SUPPORTED_COMMAND_CODES) mid cc reason rest) cc0 rs0 bs =
      (0, cc, reason, bs) \<and>
    decodeGetTemperatureReadingResponse (response_frame PLATFORM_ENVIRONMENTAL (platform_environmental_code GET_TEMPERATURE_READING) mid cc reason rest) cc0 rs0 x =
      (0, cc, reason, x) \<and>
    decodeReadThermalParametersResponse (response_frame PLATFORM_ENVIRONMENTAL (platform_environmental_code READ_THERMAL_PARAMETERS) mid cc reason rest) cc0 rs0 a =
      (0, cc, reason, a) \<and>
    decodeGetCurrentEnergyCounterResponse (response_frame PLATFORM_ENVIRONMENTAL (platform_environmental_code GET_CURRENT_ENERGY_COUNTER) mid cc reason rest) cc0 rs0 p =
      (0, cc, reason, p) \<and>
    decodeGetVoltageResponse (response_frame PLATFORM_ENVIRONMENTAL (platform_environmental_code GET_VOLTAGE) mid cc reason rest) cc0 rs0 a =
      (0, cc, reason, a) \<and>
    decodeGetPowerLimitsResponse (response_frame PLATFORM_ENVIRONMENTAL (platform_environmental_code GET_POWER_LIMITS) mid cc reason rest) cc0 rs0 a b c =
      (0, cc, reason, a, b, c) \<and>
    decodeGetDriverInformationResponse (response_frame PLATFORM_ENVIRONMENTAL (platform_environmental_code GET_DRIVER_INFORMATION) mid cc reason rest) cc0 rs0 i bs =
      (0, cc, reason, i, bs) \<and>
    decodeGetInventoryInformationResponse (response_frame PLATFORM_ENVIRONMENTAL (platform_environmental_code GET_INVENTORY_INFORMATION) mid cc reason rest) cc0 rs0 prop v =
      (0, cc, reason, v) \<and>
    decodeGetCurrentUtilizationModeResponse (response_frame PLATFORM_ENVIRONMENTAL (platform_environmental_code GET_CURRENT_UTILIZATION) mid cc reason rest) cc0 rs0 a b =
      (0, cc, reason, a, b) \<and>
    decodeGetClockLimitResponse (response_frame PLATFORM_ENVIRONMENTAL (platform_environmental_code GET_CLOCK_LIMIT) mid cc reason rest) cc0 rs0 a b c d =
      (0, cc, reason, a, b, c, d) \<and>
    decodeGetViolationDurationResponse (response_frame PLATFORM_ENVIRONMENTAL (platform_environmental_code GET_VIOLATION_DURATION) mid cc reason rest) cc0 rs0 p q r s =
      (0, cc, reason, p, q, r, s) \<and>
    decodeGetMemoryCapacityUtilizationResponse (response_frame PLATFORM_ENVIRONMENTAL (platform_environmental_code GET_MEMORY_CAPACITY_UTILIZATION) mid cc reason rest) cc0 rs0 a b =
      (0, cc, reason, a, b) \<and>
    decodeGetCurrentClockFrequencyResponse (response_frame PLATFORM_ENVIRONMENTAL (platform_environmental_code GET_CURRENT_CLOCK_FREQUENCY) mid cc reason rest) cc0 rs0 a =
      (0, cc, reason, a) \<and>
    decodeGetEccErrorCountsResponse (response_frame PLATFORM_ENVIRONMENTAL (platform_environmental_code GET_ECC_ERROR_COUNTS) mid cc reason rest) cc0 rs0 f a b c d e =
      (0, cc, reason, f, a, b, c, d, e) \<and>
    decodeGetEccModeResponse (response_frame PLATFORM_ENVIRONMENTAL (platform_environmental_code GET_ECC_MODE) mid cc reason rest) cc0 rs0 y z =
      (0, cc, reason, y, z) \<and>
    decodeListPciePortsResponse (response_frame PCIE_LINK (pcie_link_code ListPCIePorts) mid cc reason rest) cc0 rs0 f bs =
      (0, cc, reason, f, bs) \<and>
    decodeGetLeakDetectionInfoResponse (response_frame PLATFORM_ENVIRONMENTAL (platform_environmental_code GET_LEAK_DETECTION_INFO) mid cc reason rest) cc0 rs0 ss =
      (0, cc, reason, ss)"
  unfolding decodeQueryDeviceIdentificationResponse_def
    decodeGetSupportedMessageTypesResponse_def
    decodeGetSupportedCommandCodesResponse_def
    decodeGetTemperatureReadingResponse_def
    decodeReadThermalParametersResponse_def
    decodeGetCurrentEnergyCounterResponse_def
    decodeGetVoltageResponse_def
    decodeGetPowerLimitsResponse_def
    decodeGetDriverInformationResponse_def
    decodeGetInventoryInformationResponse_def
    decodeGetCurrentUtilizationModeResponse_def
    decodeGetClockLimitResponse_def
    decodeGetViolationDurationResponse_def
    decodeGetMemoryCapacityUtilizationResponse_def
    decodeGetCurrentClockFrequencyResponse_def
    decodeGetEccErrorCountsResponse_def
    decodeGetEccModeResponse_def
    decodeListPciePortsResponse_def
    decodeGetLeakDetectionInfoResponse_def
    decode_payload_error [OF assms]
  by simp

lemma error_response_reported_witness:
  "decodeGetVoltageResponse (response_frame PLATFORM_ENVIRONMENTAL 0x0F 3 CC_ERROR 0x1234 []) 0 0 77 = (0, CC_ERROR, 0x1234, 77)"
  using error_response_reported [of 3 CC_ERROR "0x1234" "[]" 0 0] by (simp add: response_id_def CC_SUCCESS_def)

section \<open>Aggregate responses of the network ports\<close>

text \<open>C14: a well-formed aggregate response decodes to the samples marked valid, in order: invalid samples are
  skipped, and valid ones of a length the reader does not know are ignored. For addresses, a one-byte sample
  with tag 0 is the link type and every eight-byte sample an address. For counters, a four-byte sample is
  widened to 64 bits and an eight-byte one is taken as it is.\<close>

theorem port_responses:
  assumes "response_id mid" and "\<forall>x \<in> set samples. sample_wf x" and "length samples < 65536"
  shows "decodeGetPortNetworkAddressesResponse
      (aggregate_frame NETWORK_PORT (network_port_code GetPortNetworkAddresses) mid samples t) cc0 rs0 link as0 =
    (0, CC_SUCCESS, 0,
      last (link # [hd data. (tag, info, data) \<leftarrow> filter sample_valid samples, tag = 0 \<and> length data = 1]),
      [(tag, of_le_bytes data). (tag, info, data) \<leftarrow> filter sample_valid samples, length data = 8]) \<and>
    decodeGetEthernetPortTelemetryCountersResponse
      (aggregate_frame NETWORK_PORT (network_port_code GetEthernetPortTelemetryCounters) mid samples t) cc0 rs0 vs0 =
    (0, CC_SUCCESS, 0,
     [(tag, if length data = 4 then ucast (of_le_bytes data :: u32) else of_le_bytes data).
        (tag, info, data) \<leftarrow> filter sample_valid samples, length data \<in> {4, 8}])"
proof -
  have "fold (apply_sample address_upd) xs (l, as) =
      (last (l # [hd data. (tag, info, data) \<leftarrow> xs, tag = 0 \<and> length data = 1]),
       as @ [(tag, of_le_bytes data). (tag, info, data) \<leftarrow> xs, length data = 8])" for xs :: "sample list" and l as
    by (induction xs arbitrary: l as) (auto simp: address_upd_def)
  moreover have "fold (apply_sample counter_upd) xs vs =
      vs @ [(tag, if length data = 4 then ucast (of_le_bytes data :: u32) else of_le_bytes data).
        (tag, info, data) \<leftarrow> xs, length data \<in> {4, 8}]" for xs :: "sample list" and vs
    by (induction xs arbitrary: vs) (auto simp: counter_upd_def)
  ultimately show ?thesis
    unfolding decodeGetPortNetworkAddressesResponse_def addresses.decode_samples [OF assms]
      decodeGetEthernetPortTelemetryCountersResponse_def counters.decode_samples [OF assms] apply_samples_def
    by simp
qed

lemma port_responses_witness:
  "decodeGetPortNetworkAddressesResponse
     (aggregate_frame NETWORK_PORT 0x11 3 [(0, 0x83, [1]), (4, 0x07, [1, 2, 3, 4, 5, 6, 0, 0]), (5, 0x80, [])] []) 0 0 9 []
   = (0, CC_SUCCESS, 0, 1, [(4, 0x060504030201)]) \<and>
   decodeGetEthernetPortTelemetryCountersResponse
     (aggregate_frame NETWORK_PORT 0x0F 3 [(0, 0x83, [1]), (4, 0x07, [1, 2, 3, 4, 5, 6, 0, 0]), (5, 0x80, [])] []) 0 0 []
   = (0, CC_SUCCESS, 0, [(4, 0x060504030201)])"
  using port_responses [of 3 "[(0, 0x83, [1]), (4, 0x07, [1, 2, 3, 4, 5, 6, 0, 0]), (5, 0x80, [])]" "[]" 0 0 9 "[]" "[]"]
  by (simp add: response_id_def sample_length_def Let_def)

text \<open>The loop does not look at the result of skipping an invalid sample: a response cut off inside its
  last sample, when that one is marked invalid, is accepted like a complete one.\<close>

lemma truncated_sample_accepted:
  assumes "response_id mid" and "\<forall>x \<in> set samples. sample_wf x" and "Suc (length samples) < 65536"
    and "0x01 AND info = 0"
  shows "decodeGetEthernetPortTelemetryCountersResponse (rev (le_bytes nvidiaPciVendorId) @
        [mid, 0x89, message_type_code NETWORK_PORT, network_port_code GetEthernetPortTelemetryCounters, CC_SUCCESS] @
        le_bytes (word_of_nat (Suc (length samples)) :: u16) @ concat (map sample_bytes samples) @ [tag, info])
        cc0 rs0 old =
    decodeGetEthernetPortTelemetryCountersResponse
      (aggregate_frame NETWORK_PORT (network_port_code GetEthernetPortTelemetryCounters) mid samples []) cc0 rs0 old"
proof -
  have "length samples < 65536" using assms(3) by simp
  from counters.decode_samples [OF assms(1,2) this] show ?thesis
    unfolding decodeGetEthernetPortTelemetryCountersResponse_def counters.decode_truncated [OF assms]
    by (rule sym)
qed

end
