(* ===== verification/Reactive_Graph.thy ===== *)
theory Reactive_Graph
  imports Prelude "HOL-Library.Multiset"
begin

text \<open>
  The reactive boolean graph of \<open>nvidia-fw-write-protect/ReactiveGraph.cpp\<close>. Nodes are named by
  their index in the node vector; an index out of range is undefined behaviour in the source, so
  every operation is considered on indices in range. Observers are opaque values of type \<open>'cb\<close>;
  the calls \<open>propagate\<close> makes are the list of pairs it returns, in call order.
\<close>

section \<open>Data\<close>

datatype BoolOp = OpAnd | OpOr

datatype NodeType = NodeSource | NodeAnd | NodeOr

record 'cb node =
  node_type :: NodeType
  node_output :: bool
  node_dirty :: bool
  node_snapshot :: bool
  incoming :: "nat list"
  outgoing :: "nat list"
  observers :: "'cb list"

record 'cb graph =
  nodes :: "'cb node list"
  dirty :: "nat list"

definition empty_graph :: "'cb graph" where
  "empty_graph = \<lparr>nodes = [], dirty = []\<rparr>"

definition new_node :: "NodeType \<Rightarrow> bool \<Rightarrow> 'cb node" where
  "new_node t initial =
     \<lparr>node_type = t, node_output = initial, node_dirty = False, node_snapshot = initial,
      incoming = [], outgoing = [], observers = []\<rparr>"

section \<open>Operations\<close>

definition addSource :: "bool \<Rightarrow> 'cb graph \<Rightarrow> nat \<times> 'cb graph" where
  "addSource initial g = (length (nodes g), g\<lparr>nodes := nodes g @ [new_node NodeSource initial]\<rparr>)"

definition addNode :: "BoolOp \<Rightarrow> 'cb graph \<Rightarrow> nat \<times> 'cb graph" where
  "addNode op g =
     (length (nodes g),
      g\<lparr>nodes := nodes g @ [new_node (if op = OpAnd then NodeAnd else NodeOr) False]\<rparr>)"

definition evaluate :: "'cb node list \<Rightarrow> 'cb node \<Rightarrow> bool" where
  "evaluate ns node =
     (if node_type node = NodeAnd
      then incoming node \<noteq> [] \<and> list_all (\<lambda>i. node_output (ns ! i)) (incoming node)
      else list_ex (\<lambda>i. node_output (ns ! i)) (incoming node))"

definition touch :: "nat \<Rightarrow> 'cb graph \<Rightarrow> 'cb graph" where
  "touch i g =
     (let node = nodes g ! i in
      if \<not> node_dirty node
      then g\<lparr>nodes := (nodes g)[i := node\<lparr>node_dirty := True, node_snapshot := node_output node\<rparr>],
             dirty := dirty g @ [i]\<rparr>
      else g)"

definition write_output :: "nat \<Rightarrow> bool \<Rightarrow> 'cb node list \<Rightarrow> 'cb node list" where
  "write_output i v ns = ns[i := (ns ! i)\<lparr>node_output := v\<rparr>]"

definition set_source :: "nat \<Rightarrow> bool \<Rightarrow> 'cb graph \<Rightarrow> 'cb graph" where
  "set_source i v g = (let g = touch i g in g\<lparr>nodes := write_output i v (nodes g)\<rparr>)"

text \<open>
  The breadth-first search of \<open>isReachable\<close>. \<open>scan_next\<close> is the inner loop over the children of
  one node; \<open>None\<close> is its early return on the target.
\<close>

fun scan_next :: "nat \<Rightarrow> nat list \<Rightarrow> bool list \<Rightarrow> nat list \<Rightarrow> (bool list \<times> nat list) option" where
  "scan_next target [] visited queue = Some (visited, queue)"
| "scan_next target (next # rest) visited queue =
     (if next = target then None
      else if \<not> visited ! next then scan_next target rest (visited[next := True]) (queue @ [next])
      else scan_next target rest visited queue)"

partial_function (option) reachable_loop ::
  "'cb node list \<Rightarrow> nat \<Rightarrow> bool list \<Rightarrow> nat list \<Rightarrow> bool option" where
  "reachable_loop ns target visited queue =
     (case queue of
        [] \<Rightarrow> Some False
      | cur # queue \<Rightarrow>
          (case scan_next target (outgoing (ns ! cur)) visited queue of
             None \<Rightarrow> Some True
           | Some (visited, queue) \<Rightarrow> reachable_loop ns target visited queue))"

declare reachable_loop.simps [code]

definition isReachable :: "'cb graph \<Rightarrow> nat \<Rightarrow> nat \<Rightarrow> bool option" where
  "isReachable g start target =
     reachable_loop (nodes g) target ((replicate (length (nodes g)) False)[start := True]) [start]"

datatype graph_error = ConnectToSource nat | WouldCreateCycle nat nat

definition add_edge :: "nat \<Rightarrow> nat \<Rightarrow> 'cb node list \<Rightarrow> 'cb node list" where
  "add_edge a b ns =
     (let ns = ns[a := (ns ! a)\<lparr>outgoing := outgoing (ns ! a) @ [b]\<rparr>]
      in ns[b := (ns ! b)\<lparr>incoming := incoming (ns ! b) @ [a]\<rparr>])"

definition connect :: "nat \<Rightarrow> nat \<Rightarrow> 'cb graph \<Rightarrow> (graph_error + 'cb graph) option" where
  "connect a b g =
     (if node_type (nodes g ! b) = NodeSource then Some (Inl (ConnectToSource b))
      else if a = b then Some (Inl (WouldCreateCycle a b))
      else case isReachable g b a of
             None \<Rightarrow> None
           | Some True \<Rightarrow> Some (Inl (WouldCreateCycle a b))
           | Some False \<Rightarrow>
               let g = touch b (g\<lparr>nodes := add_edge a b (nodes g)\<rparr>)
               in Some (Inr (g\<lparr>nodes := write_output b (evaluate (nodes g) (nodes g ! b)) (nodes g)\<rparr>)))"

text \<open>
  \<open>propagate\<close>: the seeding loop over the dirty list, the worklist loop, and the loop that calls
  the observers of the nodes whose output differs from their snapshot.
\<close>

fun seed_dirty :: "nat list \<Rightarrow> 'cb node list \<Rightarrow> bool list \<Rightarrow> nat list \<Rightarrow> nat list \<Rightarrow>
    'cb node list \<times> bool list \<times> nat list \<times> nat list" where
  "seed_dirty [] ns affected changed queue = (ns, affected, changed, queue)"
| "seed_dirty (src # rest) ns affected changed queue =
     (let (affected, changed) =
            (if \<not> affected ! src then (affected[src := True], changed @ [src]) else (affected, changed));
          ns = ns[src := (ns ! src)\<lparr>node_dirty := False\<rparr>]
      in seed_dirty rest ns affected changed (queue @ outgoing (ns ! src)))"

partial_function (option) propagate_loop ::
  "'cb node list \<Rightarrow> bool list \<Rightarrow> nat list \<Rightarrow> nat list \<Rightarrow> ('cb node list \<times> nat list) option" where
  "propagate_loop ns affected changed queue =
     (case queue of
        [] \<Rightarrow> Some (ns, changed)
      | cur # queue \<Rightarrow>
          let result = evaluate ns (ns ! cur) in
          if result \<noteq> node_output (ns ! cur)
          then let ns = write_output cur result ns;
                   (affected, changed) =
                     (if \<not> affected ! cur then (affected[cur := True], changed @ [cur])
                      else (affected, changed))
               in propagate_loop ns affected changed (queue @ outgoing (ns ! cur))
          else propagate_loop ns affected changed queue)"

declare propagate_loop.simps [code]

fun notify :: "nat list \<Rightarrow> 'cb node list \<Rightarrow> 'cb node list \<times> ('cb \<times> bool) list" where
  "notify [] ns = (ns, [])"
| "notify (i # rest) ns =
     (let node = ns ! i;
          calls = (if node_output node \<noteq> node_snapshot node
                   then map (\<lambda>cb. (cb, node_output node)) (observers node) else []);
          (ns, later) = notify rest (ns[i := node\<lparr>node_snapshot := node_output node\<rparr>])
      in (ns, calls @ later))"

definition propagate :: "'cb graph \<Rightarrow> ('cb graph \<times> ('cb \<times> bool) list) option" where
  "propagate g =
     (if dirty g = [] then Some (g, [])
      else
        let (ns, affected, changed, queue) =
              seed_dirty (dirty g) (nodes g) (replicate (length (nodes g)) False) [] []
        in case propagate_loop ns affected changed queue of
             None \<Rightarrow> None
           | Some (ns, changed) \<Rightarrow>
               let (ns, calls) = notify changed ns in Some (\<lparr>nodes = ns, dirty = []\<rparr>, calls))"

definition output_of :: "'cb graph \<Rightarrow> nat \<Rightarrow> bool" where
  "output_of g i =
     (let node = nodes g ! i in
      if node_type node \<noteq> NodeSource \<and> incoming node = [] then False else node_output node)"

definition subscribe :: "nat \<Rightarrow> 'cb \<Rightarrow> 'cb graph \<Rightarrow> 'cb graph" where
  "subscribe i cb g =
     g\<lparr>nodes := (nodes g)[i := (nodes g ! i)\<lparr>observers := observers (nodes g ! i) @ [cb]\<rparr>]\<rparr>"

definition clearObservers :: "nat \<Rightarrow> 'cb graph \<Rightarrow> 'cb graph" where
  "clearObservers i g = g\<lparr>nodes := (nodes g)[i := (nodes g ! i)\<lparr>observers := []\<rparr>]\<rparr>"

fun erase_outgoing :: "nat \<Rightarrow> nat list \<Rightarrow> 'cb node list \<Rightarrow> 'cb node list" where
  "erase_outgoing i [] ns = ns"
| "erase_outgoing i (p # ps) ns =
     erase_outgoing i ps (ns[p := (ns ! p)\<lparr>outgoing := removeAll i (outgoing (ns ! p))\<rparr>])"

fun erase_incoming :: "nat \<Rightarrow> nat list \<Rightarrow> 'cb node list \<Rightarrow> 'cb node list" where
  "erase_incoming i [] ns = ns"
| "erase_incoming i (c # cs) ns =
     erase_incoming i cs (ns[c := (ns ! c)\<lparr>incoming := removeAll i (incoming (ns ! c))\<rparr>])"

fun reevaluate :: "nat list \<Rightarrow> 'cb graph \<Rightarrow> 'cb graph" where
  "reevaluate [] g = g"
| "reevaluate (c # cs) g =
     (let result = evaluate (nodes g) (nodes g ! c) in
      if result \<noteq> node_output (nodes g ! c)
      then let g = touch c g in reevaluate cs (g\<lparr>nodes := write_output c result (nodes g)\<rparr>)
      else reevaluate cs g)"

definition deactivate :: "nat \<Rightarrow> 'cb graph \<Rightarrow> 'cb graph" where
  "deactivate i g =
     (let ns = erase_outgoing i (incoming (nodes g ! i)) (nodes g);
          children = outgoing (ns ! i);
          ns = erase_incoming i children ns
      in reevaluate children (g\<lparr>nodes := ns[i := new_node NodeSource False]\<rparr>))"

end
