(* ===== verification/Reactive_Graph_Correct.thy ===== *)
theory Reactive_Graph_Correct
  imports Reactive_Graph
begin

text \<open>
  Correctness of the reactive graph: the search of \<open>isReachable\<close> decides reachability, every
  operation keeps the graph a well-formed DAG whose inconsistent nodes sit below a dirty node, and
  \<open>propagate\<close> returns with every compute node consistent and each changed node's observers called
  once.
\<close>

section \<open>Structure of the graph\<close>

definition edges :: "'cb node list \<Rightarrow> (nat \<times> nat) set" where
  "edges ns = {(i, j). i < length ns \<and> j \<in> set (outgoing (ns ! i))}"

definition wf_struct :: "'cb node list \<Rightarrow> bool" where
  "wf_struct ns \<longleftrightarrow>
     (\<forall>i < length ns. set (outgoing (ns ! i)) \<subseteq> {..<length ns} \<and> set (incoming (ns ! i)) \<subseteq> {..<length ns}) \<and>
     (\<forall>i < length ns. \<forall>j < length ns. j \<in> set (outgoing (ns ! i)) \<longleftrightarrow> i \<in> set (incoming (ns ! j))) \<and>
     (\<forall>i < length ns. node_type (ns ! i) = NodeSource \<longrightarrow> incoming (ns ! i) = []) \<and>
     acyclic (edges ns)"

definition skel :: "'cb node list \<Rightarrow> (NodeType \<times> nat list \<times> nat list \<times> 'cb list) list" where
  "skel ns = map (\<lambda>n. (node_type n, incoming n, outgoing n, observers n)) ns"

lemma skel_length: "skel ns = skel ns' \<Longrightarrow> length ns = length ns'"
  by (drule arg_cong [where f = length]) (simp add: skel_def)

lemma skel_nth:
  assumes "skel ns = skel ns'" and "i < length ns"
  shows "node_type (ns ! i) = node_type (ns' ! i)" and "incoming (ns ! i) = incoming (ns' ! i)"
    and "outgoing (ns ! i) = outgoing (ns' ! i)" and "observers (ns ! i) = observers (ns' ! i)"
proof -
  have "skel ns ! i = skel ns' ! i" using assms(1) by simp
  then show "node_type (ns ! i) = node_type (ns' ! i)" "incoming (ns ! i) = incoming (ns' ! i)"
    "outgoing (ns ! i) = outgoing (ns' ! i)" "observers (ns ! i) = observers (ns' ! i)"
    using assms skel_length [OF assms(1)] by (simp_all add: skel_def)
qed

lemma skel_update:
  assumes "i < length ns" and "node_type n = node_type (ns ! i)" and "incoming n = incoming (ns ! i)"
   "outgoing n = outgoing (ns ! i)" "observers n = observers (ns ! i)"
 shows "skel (ns[i := n]) = skel ns"
proof -
  let ?f = "\<lambda>n. (node_type n, incoming n, outgoing n, observers n)"
  have "skel (ns[i := n]) = (map ?f ns)[i := ?f n]" by (simp only: skel_def map_update)
  also have "?f n = map ?f ns ! i" by (simp only: nth_map [OF assms(1)] assms)
  finally show ?thesis by (simp only: skel_def list_update_id)
qed

lemma skel_write_output [simp]: "skel (write_output i v ns) = skel ns"
proof (cases "i < length ns")
  case True
  then show ?thesis unfolding write_output_def by (rule skel_update) simp_all
next
  case False
  then have "write_output i v ns = ns" by (simp add: write_output_def list_update_beyond)
  then show ?thesis by simp
qed

lemma skel_edges: "skel ns = skel ns' \<Longrightarrow> edges ns = edges ns'"
  using skel_length [of ns ns'] skel_nth(3) [of ns ns'] by (auto simp: edges_def)

lemma skel_wf: "skel ns = skel ns' \<Longrightarrow> wf_struct ns \<longleftrightarrow> wf_struct ns'"
proof -
  assume s: "skel ns = skel ns'"
  show ?thesis
    unfolding wf_struct_def skel_edges [OF s] skel_length [OF s, symmetric]
    by (simp add: skel_nth [OF s])
qed

lemma wf_out: "wf_struct ns \<Longrightarrow> i < length ns \<Longrightarrow> j \<in> set (outgoing (ns ! i)) \<Longrightarrow> j < length ns"
  unfolding wf_struct_def by blast

lemma wf_in: "wf_struct ns \<Longrightarrow> i < length ns \<Longrightarrow> j \<in> set (incoming (ns ! i)) \<Longrightarrow> j < length ns"
  unfolding wf_struct_def by blast

lemma wf_sym:
  "wf_struct ns \<Longrightarrow> i < length ns \<Longrightarrow> j < length ns \<Longrightarrow>
     j \<in> set (outgoing (ns ! i)) \<longleftrightarrow> i \<in> set (incoming (ns ! j))"
  unfolding wf_struct_def by blast

lemma wf_source:
  "wf_struct ns \<Longrightarrow> i < length ns \<Longrightarrow> node_type (ns ! i) = NodeSource \<Longrightarrow> incoming (ns ! i) = []"
  unfolding wf_struct_def by blast

lemma wf_acyclic: "wf_struct ns \<Longrightarrow> acyclic (edges ns)"
  unfolding wf_struct_def by blast

lemma wf_structI:
  assumes "\<And>i j. i < length ns \<Longrightarrow> j \<in> set (outgoing (ns ! i)) \<Longrightarrow> j < length ns"
    and "\<And>i j. i < length ns \<Longrightarrow> j \<in> set (incoming (ns ! i)) \<Longrightarrow> j < length ns"
    and "\<And>i j. i < length ns \<Longrightarrow> j < length ns \<Longrightarrow>
           j \<in> set (outgoing (ns ! i)) \<longleftrightarrow> i \<in> set (incoming (ns ! j))"
    and "\<And>i. i < length ns \<Longrightarrow> node_type (ns ! i) = NodeSource \<Longrightarrow> incoming (ns ! i) = []"
    and "acyclic (edges ns)"
  shows "wf_struct ns"
  unfolding wf_struct_def using assms by blast

lemma edges_range: "wf_struct ns \<Longrightarrow> edges ns \<subseteq> {..<length ns} \<times> {..<length ns}"
  by (auto simp: edges_def dest: wf_out)

lemma wf_converse_edges:
  assumes "wf_struct ns"
  shows "wf ((edges ns)\<inverse>)"
  using finite_subset [OF edges_range [OF assms]] assms
  by (auto intro: finite_acyclic_wf_converse wf_acyclic)

lemma edge_iff_incoming:
  "wf_struct ns \<Longrightarrow> j < length ns \<Longrightarrow> (i, j) \<in> edges ns \<longleftrightarrow> i \<in> set (incoming (ns ! j))"
  using wf_in [of ns j i] wf_sym [of ns i j] by (auto simp: edges_def)

lemma edge_irrefl: "wf_struct ns \<Longrightarrow> (i, i) \<notin> edges ns"
  using wf_acyclic by (fastforce simp: acyclic_def)

lemma child_not_source:
  "wf_struct ns \<Longrightarrow> i < length ns \<Longrightarrow> j \<in> set (outgoing (ns ! i)) \<Longrightarrow>
     j < length ns \<and> node_type (ns ! j) \<noteq> NodeSource"
  using wf_out [of ns i j] wf_sym [of ns i j] wf_source [of ns j] by auto

section \<open>The search\<close>

definition unvisited :: "bool list \<Rightarrow> nat" where
  "unvisited v = card {i. i < length v \<and> \<not> v ! i}"

lemma unvisited_mark:
  assumes "i < length v" and "\<not> v ! i"
  shows "unvisited v = Suc (unvisited (v[i := True]))"
proof -
  have "{j. j < length v \<and> \<not> v ! j} = insert i {j. j < length v \<and> \<not> v[i := True] ! j}"
    using assms by (auto simp: nth_list_update split: if_splits)
  then show ?thesis
    unfolding unvisited_def using assms by (subst (1) \<open>_ = insert i _\<close>) (auto intro!: card_insert_disjoint)
qed

lemma scan_next_None: "scan_next t xs v q = None \<longleftrightarrow> t \<in> set xs"
  by (induction t xs v q rule: scan_next.induct) auto

lemma scan_next_Some:
  assumes "scan_next t xs v q = Some (v', q')" and "set xs \<subseteq> {..<length v}"
  shows "length v' = length v \<and> (\<forall>i < length v. v' ! i \<longleftrightarrow> v ! i \<or> i \<in> set xs) \<and>
    set q' = set q \<union> {i \<in> set xs. \<not> v ! i} \<and> length q' + unvisited v' = length q + unvisited v"
  using assms
proof (induction t xs v q rule: scan_next.induct)
  case (1 t v q)
  then show ?case by auto
next
  case (2 t x xs v q)
  then have "x \<noteq> t" by auto
  show ?case
  proof (cases "v ! x")
    case True
    with 2 \<open>x \<noteq> t\<close> show ?thesis by auto
  next
    case False
    with 2 \<open>x \<noteq> t\<close> have "scan_next t xs (v[x := True]) (q @ [x]) = Some (v', q')"
      and "set xs \<subseteq> {..<length (v[x := True])}" by auto
    from 2(1) [OF \<open>x \<noteq> t\<close> False this] show ?thesis
      using unvisited_mark [of x v] False 2(4) by (auto simp: nth_list_update split: if_splits)
  qed
qed

definition bfs_inv :: "'cb node list \<Rightarrow> nat \<Rightarrow> nat \<Rightarrow> bool list \<Rightarrow> nat list \<Rightarrow> bool" where
  "bfs_inv ns start target visited queue \<longleftrightarrow>
     length visited = length ns \<and> start < length ns \<and> visited ! start \<and>
     (\<forall>i \<in> set queue. i < length ns \<and> visited ! i) \<and>
     (\<forall>i < length ns. visited ! i \<longrightarrow> (start, i) \<in> (edges ns)\<^sup>*) \<and>
     (\<forall>i < length ns. visited ! i \<longrightarrow> i \<notin> set queue \<longrightarrow>
        (\<forall>j \<in> set (outgoing (ns ! i)). j \<noteq> target \<and> visited ! j))"

lemma bfs_inv_done:
  assumes "wf_struct ns" and "bfs_inv ns start target visited []"
  shows "(start, target) \<notin> (edges ns)\<^sup>+"
proof
  have closed: "i < length ns \<and> visited ! i" if "(start, i) \<in> (edges ns)\<^sup>*" for i
    using that
  proof (induction rule: rtrancl_induct)
    case base
    then show ?case using assms(2) by (auto simp: bfs_inv_def)
  next
    case (step y z)
    then show ?case using assms edges_range [OF assms(1)] by (auto simp: bfs_inv_def edges_def)
  qed
  assume "(start, target) \<in> (edges ns)\<^sup>+"
  then obtain y where "(start, y) \<in> (edges ns)\<^sup>*" "(y, target) \<in> edges ns"
    by (meson tranclD2)
  with closed [of y] assms(2) show False by (auto simp: bfs_inv_def edges_def)
qed

lemma bfs_inv_step:
  assumes "wf_struct ns" and "bfs_inv ns start target visited (cur # queue)"
    and "scan_next target (outgoing (ns ! cur)) visited queue = Some (visited', queue')"
  shows "bfs_inv ns start target visited' queue'"
    and "length queue' + unvisited visited' < length (cur # queue) + unvisited visited"
proof -
  have cur: "cur < length ns" "visited ! cur" and len: "length visited = length ns"
    using assms(2) by (auto simp: bfs_inv_def)
  have sub: "set (outgoing (ns ! cur)) \<subseteq> {..<length visited}"
    using cur len wf_out [OF assms(1)] by auto
  note S = scan_next_Some [OF assms(3) sub]
  from S show "length queue' + unvisited visited' < length (cur # queue) + unvisited visited" by simp
  have notin: "target \<notin> set (outgoing (ns ! cur))"
    using assms(3) scan_next_None [of target "outgoing (ns ! cur)" visited queue] by auto
  have reach: "(start, i) \<in> (edges ns)\<^sup>*" if "i < length ns" "visited' ! i" for i
  proof (cases "visited ! i")
    case True
    with that assms(2) show ?thesis by (auto simp: bfs_inv_def)
  next
    case False
    with that S len have "i \<in> set (outgoing (ns ! cur))" by auto
    with cur assms(2) show ?thesis
      by (auto simp: bfs_inv_def edges_def intro: rtrancl_into_rtrancl)
  qed
  have closed: "j \<noteq> target \<and> visited' ! j"
    if i: "i < length ns" "visited' ! i" "i \<notin> set queue'" and j: "j \<in> set (outgoing (ns ! i))" for i j
  proof -
    from i S len have v: "visited ! i" by auto
    from i(1) j assms(1) have jn: "j < length visited" using wf_out len by metis
    show ?thesis
    proof (cases "i = cur")
      case True
      with j notin S jn show ?thesis by auto
    next
      case False
      with i v S have "i \<notin> set (cur # queue)" by auto
      with assms(2) i(1) v j have "j \<noteq> target \<and> visited ! j" by (auto simp: bfs_inv_def)
      with S jn show ?thesis by auto
    qed
  qed
  show "bfs_inv ns start target visited' queue'"
    unfolding bfs_inv_def
  proof (intro conjI ballI allI impI)
    fix i assume "i \<in> set queue'"
    with S assms(2) sub len have "i < length ns \<and> visited' ! i" by (auto simp: bfs_inv_def)
    then show "i < length ns" "visited' ! i" by auto
  next
    show "length visited' = length ns" using S len by simp
  next
    show "start < length ns" using assms(2) by (simp add: bfs_inv_def)
  next
    show "visited' ! start" using assms(2) S len by (simp add: bfs_inv_def)
  next
    fix i assume "i < length ns" "visited' ! i"
    then show "(start, i) \<in> (edges ns)\<^sup>*" by (rule reach)
  next
    fix i j assume "i < length ns" "visited' ! i" "i \<notin> set queue'" "j \<in> set (outgoing (ns ! i))"
    then show "j \<noteq> target" "visited' ! j" using closed by blast+
  qed
qed

lemma reachable_loop_correct:
  assumes "wf_struct ns"
  shows "bfs_inv ns start target visited queue \<Longrightarrow>
    reachable_loop ns target visited queue = Some ((start, target) \<in> (edges ns)\<^sup>+)"
proof (induction "length queue + unvisited visited" arbitrary: visited queue rule: less_induct)
  case less
  show ?case
  proof (cases queue)
    case Nil
    with less.prems bfs_inv_done [OF assms] show ?thesis
      by (subst reachable_loop.simps) auto
  next
    case (Cons cur rest)
    show ?thesis
    proof (cases "scan_next target (outgoing (ns ! cur)) visited rest")
      case None
      then have "target \<in> set (outgoing (ns ! cur))" by (simp add: scan_next_None)
      with less.prems Cons have "(start, target) \<in> (edges ns)\<^sup>+"
        by (auto simp: bfs_inv_def edges_def intro!: rtrancl_into_trancl1 [of _ cur])
      with None Cons show ?thesis by (subst reachable_loop.simps) auto
    next
      case (Some p)
      then obtain v' q' where p: "scan_next target (outgoing (ns ! cur)) visited rest = Some (v', q')"
        by (cases p) auto
      note step = bfs_inv_step [OF assms less.prems [unfolded Cons] p]
      show ?thesis
        using less.hyps [OF step(2) [folded Cons] step(1)] p Cons
        by (subst reachable_loop.simps) auto
    qed
  qed
qed

lemma isReachable_correct:
  assumes "wf_struct (nodes g)" and "start < length (nodes g)"
  shows "isReachable g start target = Some ((start, target) \<in> (edges (nodes g))\<^sup>+)"
  unfolding isReachable_def
  by (rule reachable_loop_correct [OF assms(1)])
    (use assms(2) in \<open>auto simp: bfs_inv_def nth_list_update\<close>)

section \<open>Consistency of outputs\<close>

definition consistent :: "'cb node list \<Rightarrow> nat \<Rightarrow> bool" where
  "consistent ns i \<longleftrightarrow>
     (node_type (ns ! i) \<noteq> NodeSource \<longrightarrow> node_output (ns ! i) = evaluate ns (ns ! i))"

lemma evaluate_cong:
  "node_type a = node_type b \<Longrightarrow> incoming a = incoming b \<Longrightarrow>
   (\<And>p. p \<in> set (incoming a) \<Longrightarrow> node_output (ns ! p) = node_output (ns' ! p)) \<Longrightarrow>
   evaluate ns a = evaluate ns' b"
  unfolding evaluate_def by (auto simp: list_all_iff list_ex_iff)

lemma consistent_cong:
  assumes "skel ns = skel ns'" and "i < length ns"
    and "\<And>j. j = i \<or> j \<in> set (incoming (ns ! i)) \<Longrightarrow> node_output (ns ! j) = node_output (ns' ! j)"
  shows "consistent ns i \<longleftrightarrow> consistent ns' i"
proof -
  have "evaluate ns (ns ! i) = evaluate ns' (ns' ! i)"
    by (rule evaluate_cong) (use assms skel_nth [OF assms(1,2)] in auto)
  with assms(3) [of i] skel_nth(1) [OF assms(1,2)] show ?thesis
    by (simp add: consistent_def)
qed

lemma length_write_output [simp]: "length (write_output i v ns) = length ns"
  by (simp add: write_output_def)

lemma write_output_nth:
  assumes "j < length ns"
  shows "node_output (write_output i v ns ! j) = (if j = i then v else node_output (ns ! j))"
    and "node_dirty (write_output i v ns ! j) = node_dirty (ns ! j)"
    and "node_snapshot (write_output i v ns ! j) = node_snapshot (ns ! j)"
  using assms by (cases "i = j"; simp add: write_output_def)+

lemma write_output_skel_nth:
  assumes "j < length ns"
  shows "node_type (write_output i v ns ! j) = node_type (ns ! j)"
    and "incoming (write_output i v ns ! j) = incoming (ns ! j)"
    and "outgoing (write_output i v ns ! j) = outgoing (ns ! j)"
    and "observers (write_output i v ns ! j) = observers (ns ! j)"
  using skel_nth [of "write_output i v ns" ns j] assms by simp_all

text \<open>
  Writing the evaluated value into a node makes that node consistent and can only disturb its
  children.
\<close>

lemma consistent_write:
  assumes wf: "wf_struct ns" and c: "c < length ns" and i: "i < length ns"
    and "consistent ns i \<or> i = c" and "c \<notin> set (incoming (ns ! i))"
  shows "consistent (write_output c (evaluate ns (ns ! c)) ns) i"
proof (cases "i = c")
  case True
  have "evaluate (write_output c (evaluate ns (ns ! c)) ns) (write_output c (evaluate ns (ns ! c)) ns ! c)
      = evaluate ns (ns ! c)"
    by (rule evaluate_cong)
      (use c i True assms(5) wf_in [OF wf] in \<open>auto simp: write_output_skel_nth write_output_nth\<close>)
  with True c show ?thesis by (simp add: consistent_def write_output_nth)
next
  case False
  have "consistent (write_output c (evaluate ns (ns ! c)) ns) i \<longleftrightarrow> consistent ns i"
    by (rule consistent_cong)
      (use False i assms(5) wf_in [OF wf i] in
        \<open>auto simp: write_output_skel_nth write_output_nth split: if_splits\<close>)
  with False assms(4) show ?thesis by simp
qed

lemma not_own_parent: "wf_struct ns \<Longrightarrow> c < length ns \<Longrightarrow> c \<notin> set (incoming (ns ! c))"
  using edge_irrefl edge_iff_incoming by blast

section \<open>The worklist loop\<close>

definition loop_inv :: "'cb node list \<Rightarrow> bool list \<Rightarrow> nat list \<Rightarrow> nat list \<Rightarrow> bool" where
  "loop_inv ns affected changed queue \<longleftrightarrow>
     length affected = length ns \<and>
     (\<forall>i \<in> set queue. i < length ns \<and> node_type (ns ! i) \<noteq> NodeSource) \<and>
     distinct changed \<and> set changed = {i. i < length ns \<and> affected ! i} \<and>
     (\<forall>i < length ns. i \<notin> set queue \<longrightarrow> consistent ns i) \<and>
     (\<forall>i < length ns. i \<notin> set changed \<longrightarrow> node_output (ns ! i) = node_snapshot (ns ! i))"

definition mark :: "nat \<Rightarrow> bool list \<Rightarrow> nat list \<Rightarrow> bool list \<times> nat list" where
  "mark i affected changed =
     (if \<not> affected ! i then (affected[i := True], changed @ [i]) else (affected, changed))"

lemma mark_spec:
  assumes i: "i < length affected" and "distinct changed"
    and ch: "set changed = {j. j < length affected \<and> affected ! j}" and m: "mark i affected changed = (a, c)"
  shows "length a = length affected \<and> distinct c \<and> set c = insert i (set changed) \<and>
    set c = {j. j < length affected \<and> a ! j}"
proof (cases "affected ! i")
  case True
  with m have "a = affected" "c = changed" by (simp_all add: mark_def)
  moreover have "i \<in> set changed" unfolding ch using True i by simp
  ultimately show ?thesis using assms(2) ch by (simp add: insert_absorb)
next
  case False
  with m have ac: "a = affected[i := True]" "c = changed @ [i]" by (simp_all add: mark_def)
  have "i \<notin> set changed" unfolding ch using False by simp
  moreover have "insert i (set changed) = {j. j < length affected \<and> a ! j}"
    unfolding ch ac using i by (auto simp: nth_list_update)
  ultimately show ?thesis using assms(2) ac by simp
qed

lemma loop_inv_change:
  assumes wf: "wf_struct ns" and inv: "loop_inv ns affected changed (cur # queue)"
    and m: "mark cur affected changed = (a, c)"
  shows "loop_inv (write_output cur (evaluate ns (ns ! cur)) ns) a c
           (queue @ outgoing (ns ! cur))"
proof -
  let ?ns = "write_output cur (evaluate ns (ns ! cur)) ns"
  have len: "length affected = length ns" and cur: "cur < length ns"
    using inv by (auto simp: loop_inv_def)
  have ch: "distinct changed" "set changed = {j. j < length affected \<and> affected ! j}"
    using inv len by (simp_all add: loop_inv_def)
  note M' = mark_spec [OF cur [folded len] ch m, unfolded len]
  have q: "i < length ns \<and> node_type (ns ! i) \<noteq> NodeSource" if "i \<in> set (queue @ outgoing (ns ! cur))" for i
    using that inv child_not_source [OF wf cur] by (auto simp: loop_inv_def)
  have cons: "consistent ?ns i" if "i < length ns" "i \<notin> set (queue @ outgoing (ns ! cur))" for i
  proof (rule consistent_write [OF wf cur that(1)])
    show "consistent ns i \<or> i = cur" using inv that by (auto simp: loop_inv_def)
    show "cur \<notin> set (incoming (ns ! i))" using that wf_sym [OF wf cur that(1)] by simp
  qed
  show ?thesis
    unfolding loop_inv_def length_write_output
  proof (intro conjI ballI allI impI)
    fix i assume "i \<in> set (queue @ outgoing (ns ! cur))"
    with q show "i < length ns" "node_type (?ns ! i) \<noteq> NodeSource"
      by (auto simp: write_output_skel_nth)
  next
    fix i assume "i < length ns" "i \<notin> set c"
    with M' inv show "node_output (?ns ! i) = node_snapshot (?ns ! i)"
      by (auto simp: write_output_nth loop_inv_def)
  next
    fix i assume "i < length ns" "i \<notin> set (queue @ outgoing (ns ! cur))"
    then show "consistent ?ns i" by (rule cons)
  qed (use M' in blast)+
qed

lemma loop_inv_same:
  assumes inv: "loop_inv ns affected changed (cur # queue)"
    and "evaluate ns (ns ! cur) = node_output (ns ! cur)"
  shows "loop_inv ns affected changed queue"
  using assms by (auto simp: loop_inv_def consistent_def)

lemma propagate_loop_unfold:
  "propagate_loop ns affected changed (cur # queue) =
     (if evaluate ns (ns ! cur) \<noteq> node_output (ns ! cur)
      then case mark cur affected changed of (a, c) \<Rightarrow>
             propagate_loop (write_output cur (evaluate ns (ns ! cur)) ns) a c
               (queue @ outgoing (write_output cur (evaluate ns (ns ! cur)) ns ! cur))
      else propagate_loop ns affected changed queue)"
  by (subst propagate_loop.simps) (simp add: Let_def mark_def)

definition frame :: "'cb node list \<Rightarrow> 'cb node list \<Rightarrow> bool" where
  "frame ns ns' \<longleftrightarrow> skel ns' = skel ns \<and>
     (\<forall>i < length ns. node_dirty (ns' ! i) = node_dirty (ns ! i) \<and>
        node_snapshot (ns' ! i) = node_snapshot (ns ! i) \<and>
        (node_type (ns ! i) = NodeSource \<longrightarrow> node_output (ns' ! i) = node_output (ns ! i)))"

lemma frame_refl: "frame ns ns"
  by (simp add: frame_def)

lemma frame_trans: "frame a b \<Longrightarrow> frame b c \<Longrightarrow> frame a c"
  unfolding frame_def using skel_length [of b a] skel_nth(1) [of b a] by simp

lemma frame_write:
  "c < length ns \<Longrightarrow> node_type (ns ! c) \<noteq> NodeSource \<Longrightarrow> frame ns (write_output c v ns)"
  by (auto simp: frame_def write_output_nth)

lemma propagate_loop_correct:
  assumes "wf_struct ns" and "loop_inv ns affected changed queue"
  shows "\<exists>ns' affected' changed'. propagate_loop ns affected changed queue = Some (ns', changed') \<and>
           frame ns ns' \<and> loop_inv ns' affected' changed' []"
proof -
  define E where "E = edges ns"
  have wf_E: "wf (E\<inverse>)" unfolding E_def by (rule wf_converse_edges [OF assms(1)])
  have "\<lbrakk>wf_struct ns; edges ns = E; loop_inv ns affected changed queue; M = mset queue\<rbrakk> \<Longrightarrow> ?thesis" for M
    using wf_mult [OF wf_E]
  proof (induction M arbitrary: ns affected changed queue rule: wf_induct_rule)
    case (less M)
    show ?case
    proof (cases queue)
      case Nil
      then have "propagate_loop ns affected changed queue = Some (ns, changed)"
        by (subst propagate_loop.simps) simp
      with Nil less.prems(3) frame_refl show ?thesis by blast
    next
      case (Cons cur q)
      note inv = less.prems(3) [unfolded Cons]
      have cur: "cur < length ns" "node_type (ns ! cur) \<noteq> NodeSource"
        using inv by (auto simp: loop_inv_def)
      show ?thesis
      proof (cases "evaluate ns (ns ! cur) = node_output (ns ! cur)")
        case True
        have "(mset q, M) \<in> mult (E\<inverse>)"
          using one_step_implies_mult [of "{#cur#}" "{#}" "E\<inverse>" "mset q"] less.prems(4) Cons by simp
        from less.IH [OF this less.prems(1,2) loop_inv_same [OF inv True] refl] True
        show ?thesis by (simp add: Cons propagate_loop_unfold)
      next
        case False
        let ?ns = "write_output cur (evaluate ns (ns ! cur)) ns"
        obtain a c where m: "mark cur affected changed = (a, c)" by (cases "mark cur affected changed")
        have "(mset (q @ outgoing (ns ! cur)), M) \<in> mult (E\<inverse>)"
          using one_step_implies_mult [of "{#cur#}" "mset (outgoing (ns ! cur))" "E\<inverse>" "mset q"]
            less.prems(2,4) Cons cur(1) by (auto simp: edges_def)
        moreover have "wf_struct ?ns" "edges ?ns = E"
          using less.prems(1,2) skel_wf [of ?ns ns] skel_edges [of ?ns ns] by simp_all
        ultimately obtain ns' affected' changed' where
          "propagate_loop ?ns a c (q @ outgoing (ns ! cur)) = Some (ns', changed')"
          "frame ?ns ns'" "loop_inv ns' affected' changed' []"
          using less.IH loop_inv_change [OF less.prems(1) inv m] by blast
        with False m cur(1) show ?thesis
          using frame_trans [OF frame_write [OF cur]]
          by (auto simp: Cons propagate_loop_unfold write_output_skel_nth)
      qed
    qed
  qed
  with assms E_def show ?thesis by blast
qed

section \<open>The invariant\<close>

text \<open>
  \<open>graph_inv_but P\<close>: well-formed structure, the dirty flags agree with the dirty list, an untouched
  node's snapshot is its output, and every compute node outside \<open>P\<close> is consistent or has a parent
  in the dirty list. The operations work with \<open>P\<close> the nodes still to be re-evaluated.
\<close>

definition graph_inv_but :: "nat set \<Rightarrow> 'cb graph \<Rightarrow> bool" where
  "graph_inv_but P g \<longleftrightarrow>
     wf_struct (nodes g) \<and> set (dirty g) \<subseteq> {..<length (nodes g)} \<and>
     (\<forall>i < length (nodes g). node_dirty (nodes g ! i) \<longrightarrow> i \<in> set (dirty g)) \<and>
     (\<forall>i < length (nodes g). \<not> node_dirty (nodes g ! i) \<longrightarrow> node_snapshot (nodes g ! i) = node_output (nodes g ! i)) \<and>
     (\<forall>i < length (nodes g). i \<notin> P \<longrightarrow> consistent (nodes g) i \<or>
        (\<exists>p \<in> set (incoming (nodes g ! i)). p \<in> set (dirty g)))"

definition graph_inv :: "'cb graph \<Rightarrow> bool" where
  "graph_inv g = graph_inv_but {} g"

lemma inv_wf: "graph_inv_but P g \<Longrightarrow> wf_struct (nodes g)"
  by (simp add: graph_inv_but_def)

lemma inv_dirty_range: "graph_inv_but P g \<Longrightarrow> i \<in> set (dirty g) \<Longrightarrow> i < length (nodes g)"
  by (auto simp: graph_inv_but_def)

lemma inv_dirty: "graph_inv_but P g \<Longrightarrow> i < length (nodes g) \<Longrightarrow> node_dirty (nodes g ! i) \<Longrightarrow> i \<in> set (dirty g)"
  by (simp add: graph_inv_but_def)

lemma inv_snapshot:
  "graph_inv_but P g \<Longrightarrow> i < length (nodes g) \<Longrightarrow> \<not> node_dirty (nodes g ! i) \<Longrightarrow>
     node_snapshot (nodes g ! i) = node_output (nodes g ! i)"
  by (simp add: graph_inv_but_def)

lemma inv_consistent:
  "graph_inv_but P g \<Longrightarrow> i < length (nodes g) \<Longrightarrow> i \<notin> P \<Longrightarrow>
     consistent (nodes g) i \<or> (\<exists>p \<in> set (incoming (nodes g ! i)). p \<in> set (dirty g))"
  by (simp add: graph_inv_but_def)

lemma graph_inv_butI:
  assumes "wf_struct (nodes g)"
    and "\<And>i. i \<in> set (dirty g) \<Longrightarrow> i < length (nodes g)"
    and "\<And>i. i < length (nodes g) \<Longrightarrow> node_dirty (nodes g ! i) \<Longrightarrow> i \<in> set (dirty g)"
    and "\<And>i. i < length (nodes g) \<Longrightarrow> \<not> node_dirty (nodes g ! i) \<Longrightarrow>
           node_snapshot (nodes g ! i) = node_output (nodes g ! i)"
    and "\<And>i. i < length (nodes g) \<Longrightarrow> i \<notin> P \<Longrightarrow>
           consistent (nodes g) i \<or> (\<exists>p \<in> set (incoming (nodes g ! i)). p \<in> set (dirty g))"
  shows "graph_inv_but P g"
  unfolding graph_inv_but_def using assms by blast

lemma touch_spec:
  assumes inv: "graph_inv_but P g" and i: "i < length (nodes g)"
  shows "skel (nodes (touch i g)) = skel (nodes g)"
    and "set (dirty (touch i g)) = insert i (set (dirty g))"
    and "j < length (nodes g) \<Longrightarrow> node_output (nodes (touch i g) ! j) = node_output (nodes g ! j)"
    and "j < length (nodes g) \<Longrightarrow> node_snapshot (nodes (touch i g) ! j) = node_snapshot (nodes g ! j)"
    and "j < length (nodes g) \<Longrightarrow>
      node_dirty (nodes (touch i g) ! j) \<longleftrightarrow> node_dirty (nodes g ! j) \<or> j = i"
proof -
  have sk: "skel ((nodes g)[i := (nodes g ! i)\<lparr>node_dirty := True, node_snapshot := s\<rparr>]) = skel (nodes g)" for s
    by (rule skel_update [OF i]) simp_all
  show "skel (nodes (touch i g)) = skel (nodes g)"
    by (simp add: touch_def Let_def sk)
  show "set (dirty (touch i g)) = insert i (set (dirty g))"
    using inv_dirty [OF inv i] by (auto simp: touch_def Let_def)
  assume j: "j < length (nodes g)"
  show "node_output (nodes (touch i g) ! j) = node_output (nodes g ! j)"
    using i by (cases "i = j") (simp_all add: touch_def Let_def)
  show "node_snapshot (nodes (touch i g) ! j) = node_snapshot (nodes g ! j)"
    using i inv_snapshot [OF inv i] by (cases "i = j") (simp_all add: touch_def Let_def)
  show "node_dirty (nodes (touch i g) ! j) \<longleftrightarrow> node_dirty (nodes g ! j) \<or> j = i"
    using i by (cases "i = j") (auto simp: touch_def Let_def)
qed

definition touch_write :: "nat \<Rightarrow> bool \<Rightarrow> 'cb graph \<Rightarrow> 'cb graph" where
  "touch_write i v g = (touch i g)\<lparr>nodes := write_output i v (nodes (touch i g))\<rparr>"

lemma touch_write_skel:
  "graph_inv_but P g \<Longrightarrow> i < length (nodes g) \<Longrightarrow> skel (nodes (touch_write i v g)) = skel (nodes g)"
  by (simp add: touch_write_def touch_spec(1))

lemma touch_write_nth:
  assumes inv: "graph_inv_but P g" and i: "i < length (nodes g)" and j: "j < length (nodes g)"
  shows "node_output (nodes (touch_write i v g) ! j) = (if j = i then v else node_output (nodes g ! j))"
    and "node_snapshot (nodes (touch_write i v g) ! j) = node_snapshot (nodes g ! j)"
    and "node_dirty (nodes (touch_write i v g) ! j) \<longleftrightarrow> node_dirty (nodes g ! j) \<or> j = i"
  using skel_length [OF touch_spec(1) [OF inv i]] touch_spec(3-5) [OF inv i j] j
  by (simp_all add: touch_write_def write_output_nth)

lemma touch_write_inv:
  assumes inv: "graph_inv_but P g" and i: "i < length (nodes g)"
    and v: "node_type (nodes g ! i) = NodeSource \<or> v = evaluate (nodes g) (nodes g ! i)"
  shows "graph_inv_but (P - {i}) (touch_write i v g)"
proof -
  let ?g = "touch_write i v g"
  have sk: "skel (nodes ?g) = skel (nodes g)" by (rule touch_write_skel [OF inv i])
  have len: "length (nodes ?g) = length (nodes g)" by (rule skel_length [OF sk])
  have d: "set (dirty ?g) = insert i (set (dirty g))"
    by (simp add: touch_write_def touch_spec(2) [OF inv i])
  note wf = inv_wf [OF inv]
  note nth = touch_write_nth [OF inv i, where v = v]
  have cons: "consistent (nodes ?g) j \<or> (\<exists>p \<in> set (incoming (nodes ?g ! j)). p \<in> set (dirty ?g))"
    if j: "j < length (nodes g)" and P: "j \<notin> P - {i}" for j
  proof (cases "j = i")
    case True
    show ?thesis
    proof (cases "node_type (nodes g ! i) = NodeSource")
      case True
      then show ?thesis using skel_nth(1) [OF sk] \<open>j = i\<close> i len by (simp add: consistent_def)
    next
      case False
      have "evaluate (nodes ?g) (nodes ?g ! i) = evaluate (nodes g) (nodes g ! i)"
        by (rule evaluate_cong)
          (use skel_nth [OF sk] i len not_own_parent [OF wf i] wf_in [OF wf i] nth(1) in auto)
      then show ?thesis using False v nth(1) i True by (simp add: consistent_def)
    qed
  next
    case False
    with P have "j \<notin> P" by simp
    show ?thesis
    proof (cases "i \<in> set (incoming (nodes g ! j))")
      case True
      then show ?thesis using d skel_nth(2) [OF sk] j len by auto
    next
      case notin: False
      have "consistent (nodes ?g) j \<longleftrightarrow> consistent (nodes g) j"
        by (rule consistent_cong [OF sk])
          (use len j False notin skel_nth(2) [OF sk] wf_in [OF wf j] nth(1) in \<open>auto split: if_splits\<close>)
      with inv_consistent [OF inv j \<open>j \<notin> P\<close>] show ?thesis
        using d skel_nth(2) [OF sk] j len by auto
    qed
  qed
  show ?thesis
    unfolding graph_inv_but_def len
  proof (intro conjI allI impI)
    show "wf_struct (nodes ?g)" using wf skel_wf [OF sk] by simp
    show "set (dirty ?g) \<subseteq> {..<length (nodes g)}" using d i inv_dirty_range [OF inv] by auto
  next
    fix j assume "j < length (nodes g)" "node_dirty (nodes ?g ! j)"
    then show "j \<in> set (dirty ?g)" using nth(3) inv_dirty [OF inv] d by auto
  next
    fix j assume "j < length (nodes g)" "\<not> node_dirty (nodes ?g ! j)"
    then show "node_snapshot (nodes ?g ! j) = node_output (nodes ?g ! j)"
      using nth inv_snapshot [OF inv] by auto
  next
    fix j assume "j < length (nodes g)" "j \<notin> P - {i}"
    then show "consistent (nodes ?g) j \<or> (\<exists>p \<in> set (incoming (nodes ?g ! j)). p \<in> set (dirty ?g))"
      by (rule cons)
  qed
qed

lemma touch_write_consistent:
  assumes inv: "graph_inv_but P g" and i: "i < length (nodes g)"
  shows "consistent (nodes (touch_write i (evaluate (nodes g) (nodes g ! i)) g)) i"
proof -
  let ?g = "touch_write i (evaluate (nodes g) (nodes g ! i)) g"
  note wf = inv_wf [OF inv]
  have sk: "skel (nodes ?g) = skel (nodes g)" by (rule touch_write_skel [OF inv i])
  have "evaluate (nodes ?g) (nodes ?g ! i) = evaluate (nodes g) (nodes g ! i)"
    by (rule evaluate_cong)
      (use skel_nth [OF sk] i skel_length [OF sk] not_own_parent [OF wf i] wf_in [OF wf i]
        touch_write_nth(1) [OF inv i] in auto)
  then show ?thesis using touch_write_nth(1) [OF inv i i] by (simp add: consistent_def)
qed

lemma set_source_inv:
  "graph_inv g \<Longrightarrow> i < length (nodes g) \<Longrightarrow> node_type (nodes g ! i) = NodeSource \<Longrightarrow> graph_inv (set_source i v g)"
  using touch_write_inv [of "{}" g i v] by (simp add: graph_inv_def set_source_def touch_write_def Let_def)

lemma touch_inv:
  assumes "graph_inv g" and "i < length (nodes g)" and "node_type (nodes g ! i) = NodeSource"
  shows "graph_inv (touch i g)"
proof -
  have "touch i g = touch_write i (node_output (nodes (touch i g) ! i)) g"
    by (cases "touch i g") (simp add: touch_write_def write_output_def)
  then show ?thesis
    using touch_write_inv [of "{}" g i "node_output (nodes (touch i g) ! i)"] assms
    unfolding graph_inv_def by simp
qed
section \<open>New nodes\<close>

lemma new_node_simps [simp]:
  "node_type (new_node t b) = t" "node_output (new_node t b) = b" "node_dirty (new_node t b) = False"
  "node_snapshot (new_node t b) = b" "incoming (new_node t b) = []" "outgoing (new_node t b) = []"
  "observers (new_node t b) = []"
  by (simp_all add: new_node_def)

lemma append_node_wf:
  assumes wf: "wf_struct ns"
  shows "wf_struct (ns @ [new_node t b])"
proof -
  have "edges (ns @ [new_node t b]) = edges ns"
    by (auto simp: edges_def nth_append split: if_splits)
  then have acyclic: "acyclic (edges (ns @ [new_node t b]))" using wf_acyclic [OF wf] by simp
  have old: "i < length ns \<or> i = length ns" if "i < length (ns @ [new_node t b])" for i
    using that by auto
  show ?thesis
  proof (rule wf_structI [OF _ _ _ _ acyclic])
    fix i j assume "i < length (ns @ [new_node t b])" "j \<in> set (outgoing ((ns @ [new_node t b]) ! i))"
    then show "j < length (ns @ [new_node t b])"
      using wf_out [OF wf, of i j] old [of i] by (auto simp: nth_append)
  next
    fix i j assume "i < length (ns @ [new_node t b])" "j \<in> set (incoming ((ns @ [new_node t b]) ! i))"
    then show "j < length (ns @ [new_node t b])"
      using wf_in [OF wf, of i j] old [of i] by (auto simp: nth_append)
  next
    fix i j assume ij: "i < length (ns @ [new_node t b])" "j < length (ns @ [new_node t b])"
    then show "j \<in> set (outgoing ((ns @ [new_node t b]) ! i)) \<longleftrightarrow> i \<in> set (incoming ((ns @ [new_node t b]) ! j))"
      using wf_out [OF wf, of i j] wf_in [OF wf, of j i] wf_sym [OF wf, of i j] old [of i] old [of j]
      by (auto simp: nth_append)
  next
    fix i assume "i < length (ns @ [new_node t b])" "node_type ((ns @ [new_node t b]) ! i) = NodeSource"
    then show "incoming ((ns @ [new_node t b]) ! i) = []"
      using wf_source [OF wf, of i] old [of i] by (auto simp: nth_append)
  qed
qed

lemma append_node_inv:
  assumes inv: "graph_inv g" and t: "t \<noteq> NodeSource \<Longrightarrow> \<not> b"
  shows "graph_inv (g\<lparr>nodes := nodes g @ [new_node t b]\<rparr>)"
proof -
  let ?ns = "nodes g @ [new_node t b]"
  note inv' = inv [unfolded graph_inv_def]
  note wf = inv_wf [OF inv']
  have "consistent ?ns (length (nodes g))"
    using t by (auto simp: consistent_def evaluate_def)
  moreover have "consistent ?ns i \<longleftrightarrow> consistent (nodes g) i" if i: "i < length (nodes g)" for i
  proof -
    have "evaluate ?ns (nodes g ! i) = evaluate (nodes g) (nodes g ! i)"
      by (rule evaluate_cong) (use wf_in [OF wf i] in \<open>auto simp: nth_append\<close>)
    with i show ?thesis by (simp add: consistent_def nth_append)
  qed
  ultimately show ?thesis
    unfolding graph_inv_def graph_inv_but_def
    using append_node_wf [OF wf] inv_dirty [OF inv'] inv_snapshot [OF inv'] inv_dirty_range [OF inv']
      inv_consistent [OF inv']
    by (auto simp: nth_append less_Suc_eq)
qed

lemma addSource_inv: "graph_inv g \<Longrightarrow> graph_inv (snd (addSource b g))"
  by (auto simp: addSource_def intro: append_node_inv)

lemma addNode_inv: "graph_inv g \<Longrightarrow> graph_inv (snd (addNode op g))"
  by (auto simp: addNode_def intro: append_node_inv)

section \<open>Connecting\<close>

lemma add_edge_nth:
  assumes "a < length ns" and "b < length ns" and "a \<noteq> b" and "i < length ns"
  shows "add_edge a b ns ! i =
    (ns ! i)\<lparr>outgoing := outgoing (ns ! i) @ (if i = a then [b] else []),
            incoming := incoming (ns ! i) @ (if i = b then [a] else [])\<rparr>"
  using assms by (cases "i = a"; cases "i = b") (simp_all add: add_edge_def Let_def nth_list_update)

lemma length_add_edge [simp]: "length (add_edge a b ns) = length ns"
  by (simp add: add_edge_def Let_def)

lemma add_edge_edges:
  assumes "a < length ns" and "b < length ns" and "a \<noteq> b"
  shows "edges (add_edge a b ns) = insert (a, b) (edges ns)"
  using assms(1) by (auto simp: edges_def add_edge_nth [OF assms])

lemma add_edge_wf:
  assumes wf: "wf_struct ns" and ab: "a < length ns" "b < length ns" "a \<noteq> b"
    and b: "node_type (ns ! b) \<noteq> NodeSource" and r: "(b, a) \<notin> (edges ns)\<^sup>+"
  shows "wf_struct (add_edge a b ns)"
proof -
  note nth = add_edge_nth [OF ab]
  have "(b, a) \<notin> (edges ns)\<^sup>*" using r ab(3) by (auto simp: rtrancl_eq_or_trancl)
  then have "acyclic (edges (add_edge a b ns))"
    using wf_acyclic [OF wf] by (simp add: add_edge_edges [OF ab])
  moreover have "j < length ns" if "i < length ns" "j \<in> set (outgoing (add_edge a b ns ! i))" for i j
    using that wf_out [OF wf, of i j] ab by (auto simp: nth split: if_splits)
  moreover have "j < length ns" if "i < length ns" "j \<in> set (incoming (add_edge a b ns ! i))" for i j
    using that wf_in [OF wf, of i j] ab by (auto simp: nth split: if_splits)
  moreover have "j \<in> set (outgoing (add_edge a b ns ! i)) \<longleftrightarrow> i \<in> set (incoming (add_edge a b ns ! j))"
    if "i < length ns" "j < length ns" for i j
    using that wf_sym [OF wf that] by (auto simp: nth)
  moreover have "incoming (add_edge a b ns ! i) = []"
    if "i < length ns" "node_type (add_edge a b ns ! i) = NodeSource" for i
    using that wf_source [OF wf that(1)] b by (auto simp: nth)
  ultimately show ?thesis
    by (rule wf_structI [where ns = "add_edge a b ns", unfolded length_add_edge, rotated -1]) blast+
qed

lemma add_edge_inv:
  assumes inv: "graph_inv g" and ab: "a < length (nodes g)" "b < length (nodes g)" "a \<noteq> b"
    and b: "node_type (nodes g ! b) \<noteq> NodeSource" and r: "(b, a) \<notin> (edges (nodes g))\<^sup>+"
  shows "graph_inv_but {b} (g\<lparr>nodes := add_edge a b (nodes g)\<rparr>)"
proof -
  note inv' = inv [unfolded graph_inv_def]
  note nth = add_edge_nth [OF ab]
  have wf: "wf_struct (add_edge a b (nodes g))"
    by (rule add_edge_wf [OF inv_wf [OF inv'] ab b r])
  have cons: "consistent (add_edge a b (nodes g)) i \<longleftrightarrow> consistent (nodes g) i"
    if i: "i < length (nodes g)" "i \<noteq> b" for i
  proof -
    have "evaluate (add_edge a b (nodes g)) (add_edge a b (nodes g) ! i) = evaluate (nodes g) (nodes g ! i)"
      by (rule evaluate_cong) (use i wf_in [OF inv_wf [OF inv'] i(1)] in \<open>auto simp: nth\<close>)
    then show ?thesis using i by (simp add: consistent_def nth)
  qed
  show ?thesis
  proof (rule graph_inv_butI)
    fix i assume "i < length (nodes (g\<lparr>nodes := add_edge a b (nodes g)\<rparr>))" "i \<notin> {b}"
    then have i: "i < length (nodes g)" "i \<noteq> b" by simp_all
    from inv_consistent [OF inv' i(1)] show
      "consistent (nodes (g\<lparr>nodes := add_edge a b (nodes g)\<rparr>)) i \<or>
        (\<exists>p \<in> set (incoming (nodes (g\<lparr>nodes := add_edge a b (nodes g)\<rparr>) ! i)).
           p \<in> set (dirty (g\<lparr>nodes := add_edge a b (nodes g)\<rparr>)))"
      using cons [OF i] i by (simp add: nth)
  qed (use wf inv_dirty [OF inv'] inv_snapshot [OF inv'] inv_dirty_range [OF inv'] in \<open>simp_all add: nth\<close>)
qed

lemma connect_result:
  assumes inv: "graph_inv g" and ab: "a < length (nodes g)" "b < length (nodes g)"
  shows "connect a b g = Some
    (if node_type (nodes g ! b) = NodeSource then Inl (ConnectToSource b)
     else if a = b \<or> (b, a) \<in> (edges (nodes g))\<^sup>+ then Inl (WouldCreateCycle a b)
     else let g1 = g\<lparr>nodes := add_edge a b (nodes g)\<rparr> in
          Inr (touch_write b (evaluate (nodes g1) (nodes g1 ! b)) g1))"
proof (cases "node_type (nodes g ! b) = NodeSource \<or> a = b \<or> (b, a) \<in> (edges (nodes g))\<^sup>+")
  case True
  then show ?thesis
    using isReachable_correct [OF inv_wf [OF inv [unfolded graph_inv_def]] ab(2), of a]
    by (auto simp: connect_def)
next
  case False
  let ?g1 = "g\<lparr>nodes := add_edge a b (nodes g)\<rparr>"
  have inv1: "graph_inv_but {b} ?g1"
    using add_edge_inv [OF inv ab] False by blast
  have b1: "b < length (nodes ?g1)" using ab by simp
  note sk = touch_spec(1) [OF inv1 b1]
  have ev: "evaluate (nodes (touch b ?g1)) (nodes (touch b ?g1) ! b) = evaluate (nodes ?g1) (nodes ?g1 ! b)"
  proof (rule evaluate_cong)
    show "node_type (nodes (touch b ?g1) ! b) = node_type (nodes ?g1 ! b)"
      "incoming (nodes (touch b ?g1) ! b) = incoming (nodes ?g1 ! b)"
      using skel_nth(1,2) [OF sk [symmetric] b1] by simp_all
    fix p assume "p \<in> set (incoming (nodes (touch b ?g1) ! b))"
    then have "p < length (nodes ?g1)"
      using wf_in [OF inv_wf [OF inv1] b1] skel_nth(2) [OF sk [symmetric] b1] by simp
    then show "node_output (nodes (touch b ?g1) ! p) = node_output (nodes ?g1 ! p)"
      by (rule touch_spec(3) [OF inv1 b1])
  qed
  show ?thesis
    using False ev isReachable_correct [OF inv_wf [OF inv [unfolded graph_inv_def]] ab(2), of a]
    by (simp add: connect_def touch_write_def Let_def)
qed

lemma connect_inv:
  assumes inv: "graph_inv g" and ab: "a < length (nodes g)" "b < length (nodes g)"
    and c: "connect a b g = Some (Inr g')"
  shows "graph_inv g'"
proof -
  let ?g1 = "g\<lparr>nodes := add_edge a b (nodes g)\<rparr>"
  from c have ok: "node_type (nodes g ! b) \<noteq> NodeSource" "a \<noteq> b" "(b, a) \<notin> (edges (nodes g))\<^sup>+"
    and g': "g' = touch_write b (evaluate (nodes ?g1) (nodes ?g1 ! b)) ?g1"
    unfolding connect_result [OF inv ab] by (auto simp: Let_def split: if_splits)
  have "graph_inv_but {b} ?g1"
    by (rule add_edge_inv [OF inv ab ok(2,1,3)])
  from touch_write_inv [OF this, of b] ab g' show ?thesis
    by (simp add: graph_inv_def)
qed
section \<open>Observers\<close>

lemma observers_update_inv:
  assumes inv: "graph_inv g"
  shows "graph_inv (g\<lparr>nodes := (nodes g)[i := (nodes g ! i)\<lparr>observers := cbs\<rparr>]\<rparr>)"
proof (cases "i < length (nodes g)")
  case False
  then have "(nodes g)[i := (nodes g ! i)\<lparr>observers := cbs\<rparr>] = nodes g"
    by (simp add: list_update_beyond)
  with inv show ?thesis by simp
next
  case True
  let ?ns = "(nodes g)[i := (nodes g ! i)\<lparr>observers := cbs\<rparr>]"
  note inv' = inv [unfolded graph_inv_def]
  note wf = inv_wf [OF inv']
  have same: "node_type (?ns ! j) = node_type (nodes g ! j)" "incoming (?ns ! j) = incoming (nodes g ! j)"
    "outgoing (?ns ! j) = outgoing (nodes g ! j)" "node_output (?ns ! j) = node_output (nodes g ! j)"
    "node_dirty (?ns ! j) = node_dirty (nodes g ! j)" "node_snapshot (?ns ! j) = node_snapshot (nodes g ! j)" for j
    using True by (cases "i = j"; simp)+
  have "edges ?ns = edges (nodes g)" by (simp add: edges_def same)
  then have wf': "wf_struct ?ns" using wf by (simp add: wf_struct_def same)
  have "consistent ?ns j = consistent (nodes g) j" for j
    by (simp add: consistent_def same evaluate_def)
  with wf' show ?thesis
    using inv' unfolding graph_inv_def graph_inv_but_def by (simp add: same)
qed

lemma subscribe_inv: "graph_inv g \<Longrightarrow> graph_inv (subscribe i cb g)"
  by (simp add: subscribe_def observers_update_inv)

lemma clearObservers_inv: "graph_inv g \<Longrightarrow> graph_inv (clearObservers i g)"
  by (simp add: clearObservers_def observers_update_inv)

section \<open>Deactivating\<close>

lemma erase_outgoing_nth:
  "set ps \<subseteq> {..<length ns} \<Longrightarrow> length (erase_outgoing i ps ns) = length ns \<and>
   (\<forall>j < length ns. erase_outgoing i ps ns ! j =
      (if j \<in> set ps then (ns ! j)\<lparr>outgoing := removeAll i (outgoing (ns ! j))\<rparr> else ns ! j))"
proof (induction ps arbitrary: ns)
  case (Cons p ps)
  show ?case
    using Cons.IH [of "ns[p := (ns ! p)\<lparr>outgoing := removeAll i (outgoing (ns ! p))\<rparr>]"] Cons.prems
    by (auto simp: nth_list_update)
qed simp

lemma erase_incoming_nth:
  "set cs \<subseteq> {..<length ns} \<Longrightarrow> length (erase_incoming i cs ns) = length ns \<and>
   (\<forall>j < length ns. erase_incoming i cs ns ! j =
      (if j \<in> set cs then (ns ! j)\<lparr>incoming := removeAll i (incoming (ns ! j))\<rparr> else ns ! j))"
proof (induction cs arbitrary: ns)
  case (Cons c cs)
  show ?case
    using Cons.IH [of "ns[c := (ns ! c)\<lparr>incoming := removeAll i (incoming (ns ! c))\<rparr>]"] Cons.prems
    by (auto simp: nth_list_update)
qed simp

definition isolate :: "nat \<Rightarrow> 'cb node list \<Rightarrow> 'cb node list" where
  "isolate i ns =
     (erase_incoming i (outgoing (ns ! i)) (erase_outgoing i (incoming (ns ! i)) ns))
       [i := new_node NodeSource False]"

lemma erased_outgoing:
  assumes "wf_struct ns" and "i < length ns"
  shows "length (erase_outgoing i (incoming (ns ! i)) ns) = length ns"
    and "j < length ns \<Longrightarrow> erase_outgoing i (incoming (ns ! i)) ns ! j =
      (if j \<in> set (incoming (ns ! i)) then (ns ! j)\<lparr>outgoing := removeAll i (outgoing (ns ! j))\<rparr> else ns ! j)"
proof -
  have "set (incoming (ns ! i)) \<subseteq> {..<length ns}" using wf_in [OF assms] by blast
  from erase_outgoing_nth [OF this, of i]
  show "length (erase_outgoing i (incoming (ns ! i)) ns) = length ns"
    and "j < length ns \<Longrightarrow> erase_outgoing i (incoming (ns ! i)) ns ! j =
      (if j \<in> set (incoming (ns ! i)) then (ns ! j)\<lparr>outgoing := removeAll i (outgoing (ns ! j))\<rparr> else ns ! j)"
    by blast+
qed

lemma erased_incoming:
  assumes "wf_struct ns" and "i < length ns"
  defines "os \<equiv> erase_outgoing i (incoming (ns ! i)) ns"
  shows "length (erase_incoming i (outgoing (ns ! i)) os) = length ns"
    and "j < length ns \<Longrightarrow> erase_incoming i (outgoing (ns ! i)) os ! j =
      (if j \<in> set (outgoing (ns ! i)) then (os ! j)\<lparr>incoming := removeAll i (incoming (os ! j))\<rparr> else os ! j)"
proof -
  note len = erased_outgoing(1) [OF assms(1,2), folded os_def]
  have "set (outgoing (ns ! i)) \<subseteq> {..<length os}" unfolding len using wf_out [OF assms(1,2)] by blast
  from erase_incoming_nth [OF this, of i, unfolded len]
  show "length (erase_incoming i (outgoing (ns ! i)) os) = length ns"
    and "j < length ns \<Longrightarrow> erase_incoming i (outgoing (ns ! i)) os ! j =
      (if j \<in> set (outgoing (ns ! i)) then (os ! j)\<lparr>incoming := removeAll i (incoming (os ! j))\<rparr> else os ! j)"
    by blast+
qed

lemma isolate_length:
  "wf_struct ns \<Longrightarrow> i < length ns \<Longrightarrow> length (isolate i ns) = length ns"
  by (simp add: isolate_def erased_incoming(1))

lemma isolate_nth:
  assumes wf: "wf_struct ns" and i: "i < length ns" and j: "j < length ns"
  shows "isolate i ns ! j =
    (if j = i then new_node NodeSource False
     else (ns ! j)\<lparr>outgoing := removeAll i (outgoing (ns ! j)), incoming := removeAll i (incoming (ns ! j))\<rparr>)"
proof (cases "j = i")
  case True
  then show ?thesis using i by (simp add: isolate_def erased_incoming(1) [OF wf i])
next
  case False
  have o: "removeAll i (outgoing (ns ! j)) = outgoing (ns ! j)" if "j \<notin> set (incoming (ns ! i))"
    using that wf_sym [OF wf j i] by (simp add: removeAll_id)
  have n: "removeAll i (incoming (ns ! j)) = incoming (ns ! j)" if "j \<notin> set (outgoing (ns ! i))"
    using that wf_sym [OF wf i j] by (simp add: removeAll_id)
  have "isolate i ns ! j = erase_incoming i (outgoing (ns ! i)) (erase_outgoing i (incoming (ns ! i)) ns) ! j"
    using False by (simp add: isolate_def)
  then show ?thesis
    using False o n by (simp add: erased_incoming(2) [OF wf i j] erased_outgoing(2) [OF wf i j])
qed

lemma deactivate_isolate:
  assumes "wf_struct (nodes g)" and "i < length (nodes g)"
  shows "deactivate i g = reevaluate (outgoing (nodes g ! i)) (g\<lparr>nodes := isolate i (nodes g)\<rparr>)"
proof -
  have "outgoing (erase_outgoing i (incoming (nodes g ! i)) (nodes g) ! i) = outgoing (nodes g ! i)"
    using not_own_parent [OF assms] by (simp add: erased_outgoing(2) [OF assms assms(2)])
  then show ?thesis by (simp add: deactivate_def isolate_def Let_def)
qed

lemma isolate_wf:
  assumes wf: "wf_struct ns" and i: "i < length ns"
  shows "wf_struct (isolate i ns)"
proof (rule wf_structI)
  note len = isolate_length [OF wf i] and nth = isolate_nth [OF wf i]
  show "acyclic (edges (isolate i ns))"
    by (rule acyclic_subset [OF wf_acyclic [OF wf]]) (auto simp: edges_def len nth split: if_splits)
  fix j assume "j < length (isolate i ns)"
  then have j: "j < length ns" by (simp add: len)
  show "node_type (isolate i ns ! j) = NodeSource \<Longrightarrow> incoming (isolate i ns ! j) = []"
    using wf_source [OF wf j] j by (auto simp: nth split: if_splits)
  fix k
  show "k \<in> set (outgoing (isolate i ns ! j)) \<Longrightarrow> k < length (isolate i ns)"
    using wf_out [OF wf j] j by (auto simp: nth len split: if_splits)
  show "k \<in> set (incoming (isolate i ns ! j)) \<Longrightarrow> k < length (isolate i ns)"
    using wf_in [OF wf j] j by (auto simp: nth len split: if_splits)
  assume "k < length (isolate i ns)"
  then show "k \<in> set (outgoing (isolate i ns ! j)) \<longleftrightarrow> j \<in> set (incoming (isolate i ns ! k))"
    using wf_sym [OF wf j, of k] j by (auto simp: nth len)
qed

lemma isolate_inv:
  assumes inv: "graph_inv g" and i: "i < length (nodes g)"
  shows "graph_inv_but (set (outgoing (nodes g ! i))) (g\<lparr>nodes := isolate i (nodes g)\<rparr>)"
proof (rule graph_inv_butI)
  note inv' = inv [unfolded graph_inv_def]
  note wf = inv_wf [OF inv']
  note len = isolate_length [OF wf i] and nth = isolate_nth [OF wf i]
  let ?ns = "isolate i (nodes g)" and ?g = "g\<lparr>nodes := isolate i (nodes g)\<rparr>"
  show "wf_struct (nodes ?g)" using isolate_wf [OF wf i] by simp
  show "j < length (nodes ?g)" if "j \<in> set (dirty ?g)" for j
    using that inv_dirty_range [OF inv'] by (simp add: len)
  fix j assume "j < length (nodes ?g)"
  then have j: "j < length (nodes g)" by (simp add: len)
  show "node_dirty (nodes ?g ! j) \<Longrightarrow> j \<in> set (dirty ?g)"
    using inv_dirty [OF inv' j] j by (auto simp: nth split: if_splits)
  show "\<not> node_dirty (nodes ?g ! j) \<Longrightarrow> node_snapshot (nodes ?g ! j) = node_output (nodes ?g ! j)"
    using inv_snapshot [OF inv' j] j by (auto simp: nth split: if_splits)
  assume "j \<notin> set (outgoing (nodes g ! i))"
  then have notin: "i \<notin> set (incoming (nodes g ! j))" using wf_sym [OF wf i j] by simp
  show "consistent (nodes ?g) j \<or> (\<exists>p \<in> set (incoming (nodes ?g ! j)). p \<in> set (dirty ?g))"
  proof (cases "j = i")
    case True
    then show ?thesis using j by (simp add: nth consistent_def)
  next
    case False
    have inc: "incoming (?ns ! j) = incoming (nodes g ! j)"
      using False j notin by (simp add: nth removeAll_id)
    have "evaluate ?ns (?ns ! j) = evaluate (nodes g) (nodes g ! j)"
      by (rule evaluate_cong) (use False j notin inc wf_in [OF wf j] in \<open>auto simp: nth\<close>)
    then have "consistent ?ns j = consistent (nodes g) j"
      using False j by (simp add: consistent_def nth)
    with inc inv_consistent [OF inv' j] show ?thesis by simp
  qed
qed

lemma reevaluate_inv:
  "graph_inv_but (set cs) g \<Longrightarrow> set cs \<subseteq> {..<length (nodes g)} \<Longrightarrow>
     graph_inv (reevaluate cs g) \<and> skel (nodes (reevaluate cs g)) = skel (nodes g)"
proof (induction cs arbitrary: g)
  case Nil
  then show ?case by (simp add: graph_inv_def)
next
  case (Cons c cs)
  from Cons.prems have c: "c < length (nodes g)" by simp
  let ?v = "evaluate (nodes g) (nodes g ! c)"
  show ?case
  proof (cases "?v = node_output (nodes g ! c)")
    case True
    then have "consistent (nodes g) c" by (simp add: consistent_def)
    then have "graph_inv_but (set cs) g"
      using Cons.prems(1) unfolding graph_inv_but_def by auto
    with Cons True show ?thesis by simp
  next
    case False
    let ?g = "touch_write c ?v g"
    have sk: "skel (nodes ?g) = skel (nodes g)" by (rule touch_write_skel [OF Cons.prems(1) c])
    have "graph_inv_but (set (c # cs) - {c}) ?g"
      by (rule touch_write_inv [OF Cons.prems(1) c]) simp
    then have "graph_inv_but (set cs) ?g"
      unfolding graph_inv_but_def by auto
    moreover have "reevaluate (c # cs) g = reevaluate cs ?g"
      using False by (simp add: touch_write_def Let_def)
    ultimately show ?thesis
      using Cons.IH [of ?g] Cons.prems(2) sk skel_length [OF sk] by simp
  qed
qed

lemma deactivate_inv:
  assumes inv: "graph_inv g" and i: "i < length (nodes g)"
  shows "graph_inv (deactivate i g)" and "skel (nodes (deactivate i g)) = skel (isolate i (nodes g))"
proof -
  note wf = inv_wf [OF inv [unfolded graph_inv_def]]
  have "set (outgoing (nodes g ! i)) \<subseteq> {..<length (nodes (g\<lparr>nodes := isolate i (nodes g)\<rparr>))}"
    using wf_out [OF wf i] by (auto simp: isolate_length [OF wf i])
  from reevaluate_inv [OF isolate_inv [OF inv i] this]
  show "graph_inv (deactivate i g)" "skel (nodes (deactivate i g)) = skel (isolate i (nodes g))"
    by (simp_all add: deactivate_isolate [OF wf i])
qed
section \<open>Propagation\<close>

lemma seed_dirty_mark:
  "seed_dirty (src # rest) ns affected changed queue =
     (case mark src affected changed of (a, c) \<Rightarrow>
        seed_dirty rest (ns[src := (ns ! src)\<lparr>node_dirty := False\<rparr>]) a c
          (queue @ outgoing (ns[src := (ns ! src)\<lparr>node_dirty := False\<rparr>] ! src)))"
  by (simp add: mark_def Let_def)

lemma seed_dirty_spec:
  assumes "seed_dirty ds ns af ch q = (ns', af', ch', q')" and "set ds \<subseteq> {..<length ns}"
    and "length af = length ns" and "distinct ch" and "set ch = {j. j < length ns \<and> af ! j}"
  shows "skel ns' = skel ns \<and>
    (\<forall>i < length ns. node_output (ns' ! i) = node_output (ns ! i) \<and>
       node_snapshot (ns' ! i) = node_snapshot (ns ! i) \<and>
       (node_dirty (ns' ! i) \<longleftrightarrow> node_dirty (ns ! i) \<and> i \<notin> set ds)) \<and>
    length af' = length ns \<and> distinct ch' \<and> set ch' = set ch \<union> set ds \<and>
    set ch' = {j. j < length ns \<and> af' ! j} \<and>
    set q' = set q \<union> (\<Union>d \<in> set ds. set (outgoing (ns ! d)))"
  using assms
proof (induction ds arbitrary: ns af ch q)
  case Nil
  then show ?case by auto
next
  case (Cons d ds)
  let ?ns = "ns[d := (ns ! d)\<lparr>node_dirty := False\<rparr>]"
  have d: "d < length ns" using Cons.prems(2) by simp
  obtain a c where m: "mark d af ch = (a, c)" by (cases "mark d af ch")
  have M: "length a = length ns \<and> distinct c \<and> set c = insert d (set ch) \<and> set c = {j. j < length ns \<and> a ! j}"
    by (rule mark_spec [of d af ch a c, unfolded Cons.prems(3), OF d Cons.prems(4,5) m])
  have sk: "skel ?ns = skel ns" by (rule skel_update [OF d]) simp_all
  have out: "outgoing (?ns ! i) = outgoing (ns ! i)" if "i < length ns" for i
    using skel_nth(3) [OF sk] that by simp
  have "seed_dirty ds ?ns a c (q @ outgoing (?ns ! d)) = (ns', af', ch', q')"
    using Cons.prems(1) m unfolding seed_dirty_mark by simp
  moreover have "set ds \<subseteq> {..<length ?ns}" using Cons.prems(2) by simp
  moreover have "length a = length ?ns" "distinct c" "set c = {j. j < length ?ns \<and> a ! j}"
    using M unfolding length_list_update by blast+
  ultimately have IH: "skel ns' = skel ?ns \<and>
    (\<forall>i < length ?ns. node_output (ns' ! i) = node_output (?ns ! i) \<and>
       node_snapshot (ns' ! i) = node_snapshot (?ns ! i) \<and>
       (node_dirty (ns' ! i) \<longleftrightarrow> node_dirty (?ns ! i) \<and> i \<notin> set ds)) \<and>
    length af' = length ?ns \<and> distinct ch' \<and> set ch' = set c \<union> set ds \<and>
    set ch' = {j. j < length ?ns \<and> af' ! j} \<and>
    set q' = set (q @ outgoing (?ns ! d)) \<union> (\<Union>d \<in> set ds. set (outgoing (?ns ! d)))"
    by (rule Cons.IH)
  have fields: "node_output (?ns ! i) = node_output (ns ! i)" "node_snapshot (?ns ! i) = node_snapshot (ns ! i)"
    "node_dirty (?ns ! i) \<longleftrightarrow> node_dirty (ns ! i) \<and> i \<noteq> d" for i
    using d by (cases "i = d"; simp)+
  have outs: "(\<Union>d \<in> set ds. set (outgoing (?ns ! d))) = (\<Union>d \<in> set ds. set (outgoing (ns ! d)))"
    using Cons.prems(2) by (intro SUP_cong) (auto simp: out)
  show ?case
  proof (intro conjI allI impI)
    fix i assume "i < length ns"
    with IH show "node_output (ns' ! i) = node_output (ns ! i)"
      "node_snapshot (ns' ! i) = node_snapshot (ns ! i)"
      "node_dirty (ns' ! i) \<longleftrightarrow> node_dirty (ns ! i) \<and> i \<notin> set (d # ds)"
      unfolding fields length_list_update by auto
  next
    show "skel ns' = skel ns" using IH sk by simp
    show "length af' = length ns" using IH by simp
    show "distinct ch'" using IH by blast
    show "set ch' = set ch \<union> set (d # ds)" using IH M by auto
    show "set ch' = {j. j < length ns \<and> af' ! j}" using IH unfolding length_list_update by blast
    show "set q' = set q \<union> (\<Union>d \<in> set (d # ds). set (outgoing (ns ! d)))"
      using IH unfolding outs out [OF d] by auto
  qed
qed

lemma notify_spec:
  assumes "notify xs ns = (ns', calls)" and "distinct xs" and "set xs \<subseteq> {..<length ns}"
  shows "skel ns' = skel ns \<and>
    (\<forall>i < length ns. node_output (ns' ! i) = node_output (ns ! i) \<and> node_dirty (ns' ! i) = node_dirty (ns ! i) \<and>
       node_snapshot (ns' ! i) = (if i \<in> set xs then node_output (ns ! i) else node_snapshot (ns ! i))) \<and>
    calls = concat (map (\<lambda>i. map (\<lambda>cb. (cb, node_output (ns ! i))) (observers (ns ! i)))
      (filter (\<lambda>i. node_output (ns ! i) \<noteq> node_snapshot (ns ! i)) xs))"
  using assms
proof (induction xs arbitrary: ns calls)
  case Nil
  then show ?case by simp
next
  case (Cons x xs)
  let ?ns = "ns[x := (ns ! x)\<lparr>node_snapshot := node_output (ns ! x)\<rparr>]"
  have x: "x < length ns" "x \<notin> set xs" using Cons.prems by auto
  obtain later where n: "notify xs ?ns = (ns', later)"
    and calls: "calls = (if node_output (ns ! x) \<noteq> node_snapshot (ns ! x)
       then map (\<lambda>cb. (cb, node_output (ns ! x))) (observers (ns ! x)) else []) @ later"
    using Cons.prems(1) by (auto simp: Let_def split: prod.splits)
  have same: "?ns ! i = ns ! i" if "i \<in> set xs" for i
    using that x by (cases "i = x") auto
  have sk: "skel ?ns = skel ns" by (rule skel_update [OF x(1)]) simp_all
  have fields: "node_output (?ns ! i) = node_output (ns ! i)" "node_dirty (?ns ! i) = node_dirty (ns ! i)"
    "node_snapshot (?ns ! i) = (if i = x then node_output (ns ! i) else node_snapshot (ns ! i))" for i
    using x(1) by (cases "i = x"; simp)+
  have filt: "filter (\<lambda>i. node_output (?ns ! i) \<noteq> node_snapshot (?ns ! i)) xs
      = filter (\<lambda>i. node_output (ns ! i) \<noteq> node_snapshot (ns ! i)) xs"
    by (rule filter_cong) (auto simp: same)
  have mp: "map (\<lambda>i. map (\<lambda>cb. (cb, node_output (?ns ! i))) (observers (?ns ! i)))
        (filter (\<lambda>i. node_output (ns ! i) \<noteq> node_snapshot (ns ! i)) xs)
      = map (\<lambda>i. map (\<lambda>cb. (cb, node_output (ns ! i))) (observers (ns ! i)))
        (filter (\<lambda>i. node_output (ns ! i) \<noteq> node_snapshot (ns ! i)) xs)"
    by (rule map_cong) (auto simp: same)
  have IH: "skel ns' = skel ?ns \<and>
    (\<forall>i < length ns. node_output (ns' ! i) = node_output (?ns ! i) \<and> node_dirty (ns' ! i) = node_dirty (?ns ! i) \<and>
       node_snapshot (ns' ! i) = (if i \<in> set xs then node_output (?ns ! i) else node_snapshot (?ns ! i))) \<and>
    later = concat (map (\<lambda>i. map (\<lambda>cb. (cb, node_output (?ns ! i))) (observers (?ns ! i)))
      (filter (\<lambda>i. node_output (?ns ! i) \<noteq> node_snapshot (?ns ! i)) xs))"
    using Cons.IH [OF n] Cons.prems(2,3) by simp
  have "node_output (ns' ! i) = node_output (ns ! i) \<and> node_dirty (ns' ! i) = node_dirty (ns ! i) \<and>
     node_snapshot (ns' ! i) = (if i \<in> set (x # xs) then node_output (ns ! i) else node_snapshot (ns ! i))"
    if "i < length ns" for i
    using IH that unfolding fields by (cases "i = x") simp_all
  moreover have "calls = concat (map (\<lambda>i. map (\<lambda>cb. (cb, node_output (ns ! i))) (observers (ns ! i)))
      (filter (\<lambda>i. node_output (ns ! i) \<noteq> node_snapshot (ns ! i)) (x # xs)))"
    using IH unfolding calls filt mp by simp
  ultimately show ?case using IH sk by simp
qed

text \<open>
  The calls \<open>propagate\<close> owes: one per observer of every node whose output differs from its
  snapshot, that is from the value its observers were last told.
\<close>

definition calls_for :: "'cb graph \<Rightarrow> 'cb graph \<Rightarrow> nat list \<Rightarrow> ('cb \<times> bool) list" where
  "calls_for g g' order =
     concat (map (\<lambda>i. map (\<lambda>cb. (cb, node_output (nodes g' ! i))) (observers (nodes g ! i))) order)"

definition settled :: "'cb graph \<Rightarrow> bool" where
  "settled g \<longleftrightarrow> dirty g = [] \<and> (\<forall>i < length (nodes g). consistent (nodes g) i \<and>
     \<not> node_dirty (nodes g ! i) \<and> node_snapshot (nodes g ! i) = node_output (nodes g ! i))"

definition propagated :: "'cb graph \<Rightarrow> 'cb graph \<Rightarrow> ('cb \<times> bool) list \<Rightarrow> bool" where
  "propagated g g' calls \<longleftrightarrow>
     skel (nodes g') = skel (nodes g) \<and> settled g' \<and>
     (\<forall>i < length (nodes g). node_type (nodes g ! i) = NodeSource \<longrightarrow>
        node_output (nodes g' ! i) = node_output (nodes g ! i)) \<and>
     (\<exists>order. distinct order \<and>
        set order = {i. i < length (nodes g) \<and> node_output (nodes g' ! i) \<noteq> node_snapshot (nodes g ! i)} \<and>
        calls = calls_for g g' order)"

lemma settled_inv:
  assumes "settled g" and "wf_struct (nodes g)"
  shows "graph_inv g"
  using assms unfolding graph_inv_def graph_inv_but_def settled_def by simp

lemma propagate_correct:
  assumes inv: "graph_inv g"
  shows "\<exists>g' calls. propagate g = Some (g', calls) \<and> propagated g g' calls"
proof (cases "dirty g = []")
  case True
  note inv' = inv [unfolded graph_inv_def]
  have s: "settled g"
    unfolding settled_def
    using True inv_dirty [OF inv'] inv_snapshot [OF inv'] inv_consistent [OF inv'] by fastforce
  then have "propagated g g []"
    unfolding propagated_def by (intro conjI exI [of _ "[]"]) (auto simp: settled_def calls_for_def)
  with True show ?thesis by (auto simp: propagate_def)
next
  case False
  note inv' = inv [unfolded graph_inv_def]
  note wf = inv_wf [OF inv']
  let ?n = "length (nodes g)"
  obtain ns1 af ch q where seed: "seed_dirty (dirty g) (nodes g) (replicate ?n False) [] [] = (ns1, af, ch, q)"
    by (metis prod_cases4)
  have range: "set (dirty g) \<subseteq> {..<?n}" using inv_dirty_range [OF inv'] by auto
  have S: "skel ns1 = skel (nodes g)"
    "\<And>i. i < ?n \<Longrightarrow> node_output (ns1 ! i) = node_output (nodes g ! i)"
    "\<And>i. i < ?n \<Longrightarrow> node_snapshot (ns1 ! i) = node_snapshot (nodes g ! i)"
    "\<And>i. i < ?n \<Longrightarrow> \<not> node_dirty (ns1 ! i)"
    "length af = ?n" "distinct ch" "set ch = set (dirty g)" "set ch = {j. j < ?n \<and> af ! j}"
    "set q = (\<Union>d \<in> set (dirty g). set (outgoing (nodes g ! d)))"
    using seed_dirty_spec [OF seed range] inv_dirty [OF inv'] by auto
  have len1: "length ns1 = ?n" by (rule skel_length [OF S(1)])
  have wf1: "wf_struct ns1" using skel_wf [OF S(1)] wf by simp
  have cons1: "consistent ns1 i \<longleftrightarrow> consistent (nodes g) i" if i: "i < ?n" for i
    by (rule consistent_cong [OF S(1)])
      (use i len1 S(2) skel_nth(2) [OF S(1)] wf_in [OF wf i] in auto)
  have "loop_inv ns1 af ch q"
    unfolding loop_inv_def len1
  proof (intro conjI ballI allI impI)
    fix i assume "i \<in> set q"
    then obtain d where d: "d \<in> set (dirty g)" "i \<in> set (outgoing (nodes g ! d))" using S(9) by blast
    from child_not_source [OF wf inv_dirty_range [OF inv' d(1)] d(2)]
    show "i < ?n" "node_type (ns1 ! i) \<noteq> NodeSource" using skel_nth(1) [OF S(1)] len1 by auto
  next
    fix i assume i: "i < ?n" "i \<notin> set q"
    have "p \<notin> set (dirty g)" if "p \<in> set (incoming (nodes g ! i))" for p
      using i(2) that wf_sym [OF wf wf_in [OF wf i(1) that] i(1)] S(9) by blast
    with inv_consistent [OF inv' i(1)] have "consistent (nodes g) i" by auto
    with cons1 [OF i(1)] show "consistent ns1 i" by simp
  next
    fix i assume i: "i < ?n" "i \<notin> set ch"
    then have "\<not> node_dirty (nodes g ! i)" using inv_dirty [OF inv' i(1)] S(7) by blast
    with inv_snapshot [OF inv' i(1)] i(1) show "node_output (ns1 ! i) = node_snapshot (ns1 ! i)"
      by (simp add: S(2,3))
  qed (use S in auto)
  from propagate_loop_correct [OF wf1 this] obtain ns2 af2 ch2 where
    loop: "propagate_loop ns1 af ch q = Some (ns2, ch2)" and fr: "frame ns1 ns2"
    and inv2: "loop_inv ns2 af2 ch2 []" by blast
  have sk2: "skel ns2 = skel ns1" using fr by (simp add: frame_def)
  have len2: "length ns2 = ?n" using skel_length [OF sk2] len1 by simp
  have L: "distinct ch2" "set ch2 \<subseteq> {..<length ns2}" "\<And>i. i < ?n \<Longrightarrow> consistent ns2 i"
    "\<And>i. i < ?n \<Longrightarrow> i \<notin> set ch2 \<Longrightarrow> node_output (ns2 ! i) = node_snapshot (ns2 ! i)"
    using inv2 len2 by (auto simp: loop_inv_def)
  obtain ns3 calls where nt: "notify ch2 ns2 = (ns3, calls)" by (cases "notify ch2 ns2")
  note N = notify_spec [OF nt L(1,2), unfolded len2]
  have sk3: "skel ns3 = skel (nodes g)" using N sk2 S(1) by simp
  have len3: "length ns3 = ?n" by (rule skel_length [OF sk3])
  have out3: "node_output (ns3 ! i) = node_output (ns2 ! i)" if "i < ?n" for i using N that by blast
  have snap2: "node_snapshot (ns2 ! i) = node_snapshot (nodes g ! i)" if "i < ?n" for i
    using fr that len1 S(3) by (simp add: frame_def)
  have dirty3: "\<not> node_dirty (ns3 ! i)" if "i < ?n" for i
    using N fr that len1 S(4) by (simp add: frame_def)
  have cons3: "consistent ns3 i" if i: "i < ?n" for i
  proof -
    have "consistent ns3 i \<longleftrightarrow> consistent ns2 i"
      by (rule consistent_cong)
        (use sk3 sk2 S(1) i len3 out3 skel_nth(2) [OF sk3] wf_in [OF wf i] in auto)
    with L(3) [OF i] show ?thesis by simp
  qed
  have snap3: "node_snapshot (ns3 ! i) = node_output (ns3 ! i)" if i: "i < ?n" for i
    using N i L(4) [OF i] by auto
  let ?g' = "\<lparr>nodes = ns3, dirty = []\<rparr>"
  have settled: "settled ?g'"
    using cons3 dirty3 snap3 len3 by (simp add: settled_def)
  have src: "node_output (ns3 ! i) = node_output (nodes g ! i)" if "i < ?n" "node_type (nodes g ! i) = NodeSource" for i
    using that out3 fr len1 S(2) skel_nth(1) [OF S(1)] by (simp add: frame_def)
  let ?order = "filter (\<lambda>i. node_output (ns2 ! i) \<noteq> node_snapshot (ns2 ! i)) ch2"
  have "distinct ?order" using L(1) by simp
  moreover have "set ?order = {i. i < ?n \<and> node_output (ns3 ! i) \<noteq> node_snapshot (nodes g ! i)}"
    using L(2,4) len2 out3 snap2 by auto
  moreover have "calls = calls_for g ?g' ?order"
  proof -
    have "map (\<lambda>i. map (\<lambda>cb. (cb, node_output (ns2 ! i))) (observers (ns2 ! i))) ?order
        = map (\<lambda>i. map (\<lambda>cb. (cb, node_output (ns3 ! i))) (observers (nodes g ! i))) ?order"
      by (rule map_cong)
        (use L(2) len2 out3 skel_nth(4) [OF sk2 [unfolded S(1)]] in \<open>auto simp: subset_iff\<close>)
    with N show ?thesis unfolding calls_for_def graph.simps by argo
  qed
  ultimately have "propagated g ?g' calls"
    unfolding propagated_def using sk3 settled src by auto
  then show ?thesis using False seed loop nt by (auto simp: propagate_def)
qed

lemma propagate_inv:
  assumes "graph_inv g" and "propagate g = Some (g', calls)"
  shows "graph_inv g'" and "propagated g g' calls"
proof -
  show p: "propagated g g' calls" using propagate_correct [OF assms(1)] assms(2) by auto
  then show "graph_inv g'"
    using skel_wf [of "nodes g'" "nodes g"] inv_wf [OF assms(1) [unfolded graph_inv_def]]
    by (intro settled_inv) (auto simp: propagated_def)
qed
section \<open>Outputs are a function of the sources\<close>

lemma consistent_outputs_unique:
  assumes wf: "wf_struct ns" and sk: "skel ns' = skel ns"
    and cons: "\<And>i. i < length ns \<Longrightarrow> consistent ns i \<and> consistent ns' i"
    and src: "\<And>i. i < length ns \<Longrightarrow> node_type (ns ! i) = NodeSource \<Longrightarrow> node_output (ns' ! i) = node_output (ns ! i)"
  shows "i < length ns \<Longrightarrow> node_output (ns' ! i) = node_output (ns ! i)"
proof -
  have wfE: "wf (edges ns)"
    using finite_subset [OF edges_range [OF wf]] wf_acyclic [OF wf] by (auto intro: finite_acyclic_wf)
  show "i < length ns \<Longrightarrow> node_output (ns' ! i) = node_output (ns ! i)"
  proof (induction i rule: wf_induct_rule [OF wfE])
    case (1 i)
    show ?case
    proof (cases "node_type (ns ! i) = NodeSource")
      case True
      with src 1 show ?thesis by blast
    next
      case False
      have "node_output (ns' ! p) = node_output (ns ! p)" if "p \<in> set (incoming (ns ! i))" for p
        using 1(1) [of p] that edge_iff_incoming [OF wf 1(2)] wf_in [OF wf 1(2) that] by blast
      then have "evaluate ns' (ns' ! i) = evaluate ns (ns ! i)"
        using skel_nth(1,2) [OF sk [symmetric] 1(2)] by (intro evaluate_cong) simp_all
      with cons [OF 1(2)] False skel_nth(1) [OF sk [symmetric] 1(2)] show ?thesis
        by (simp add: consistent_def)
    qed
  qed
qed

lemma output_of_stored:
  assumes inv: "graph_inv g" and i: "i < length (nodes g)"
  shows "output_of g i = node_output (nodes g ! i)"
  using inv_consistent [OF inv [unfolded graph_inv_def] i]
  by (auto simp: output_of_def Let_def consistent_def evaluate_def split: if_splits)

section \<open>The graph as a transition system\<close>

inductive graph_step :: "'cb graph \<Rightarrow> 'cb graph \<Rightarrow> bool" where
  step_addSource: "graph_step g (snd (addSource b g))"
| step_addNode: "graph_step g (snd (addNode op g))"
| step_connect: "a < length (nodes g) \<Longrightarrow> b < length (nodes g) \<Longrightarrow> connect a b g = Some (Inr g') \<Longrightarrow> graph_step g g'"
| step_set: "i < length (nodes g) \<Longrightarrow> node_type (nodes g ! i) = NodeSource \<Longrightarrow> graph_step g (set_source i v g)"
| step_touch: "i < length (nodes g) \<Longrightarrow> node_type (nodes g ! i) = NodeSource \<Longrightarrow> graph_step g (touch i g)"
| step_propagate: "propagate g = Some (g', calls) \<Longrightarrow> graph_step g g'"
| step_subscribe: "i < length (nodes g) \<Longrightarrow> graph_step g (subscribe i cb g)"
| step_clearObservers: "i < length (nodes g) \<Longrightarrow> graph_step g (clearObservers i g)"
| step_deactivate: "i < length (nodes g) \<Longrightarrow> graph_step g (deactivate i g)"

lemma graph_step_inv: "graph_step g g' \<Longrightarrow> graph_inv g \<Longrightarrow> graph_inv g'"
  by (induction rule: graph_step.induct)
    (auto intro: addSource_inv addNode_inv connect_inv set_source_inv touch_inv propagate_inv(1)
      subscribe_inv clearObservers_inv deactivate_inv(1))

lemma empty_graph_inv: "graph_inv empty_graph"
  by (simp add: graph_inv_def graph_inv_but_def empty_graph_def wf_struct_def edges_def acyclic_def)

interpretation graph_system: invariant_system "\<lambda>g. g = empty_graph" graph_step graph_inv
  by unfold_locales (auto intro: graph_step_inv empty_graph_inv)

abbreviation reachable_graph :: "'cb graph \<Rightarrow> bool" where
  "reachable_graph \<equiv> reach (\<lambda>g. g = empty_graph) graph_step"

lemmas reachable_graph_inv = graph_system.reach_inv
lemmas reachable_graph_wf = reachable_graph_inv [unfolded graph_inv_def, THEN inv_wf]

section \<open>Properties\<close>

text \<open>A graph used by the witnesses: sources 0 and 1, the And node 2 over both, one observer.\<close>

definition demo_graph :: "nat graph" where
  "demo_graph =
     (let g = snd (addNode OpAnd (snd (addSource True (snd (addSource False empty_graph)))));
          g = subscribe 2 7 g;
          g = (case connect 0 2 g of Some (Inr g) \<Rightarrow> g | _ \<Rightarrow> g);
          g = (case connect 1 2 g of Some (Inr g) \<Rightarrow> g | _ \<Rightarrow> g)
      in set_source 0 True g)"
definition demo_built :: "nat graph" where
  "demo_built = subscribe 2 7 (snd (addNode OpAnd (snd (addSource True (snd (addSource False empty_graph))))))"

definition try_connect :: "nat \<Rightarrow> nat \<Rightarrow> 'cb graph \<Rightarrow> 'cb graph" where
  "try_connect a b g = (case connect a b g of Some (Inr g') \<Rightarrow> g' | _ \<Rightarrow> g)"

lemma try_connect_reachable:
  "reachable_graph g \<Longrightarrow> a < length (nodes g) \<Longrightarrow> b < length (nodes g) \<Longrightarrow> reachable_graph (try_connect a b g)"
  by (auto simp: try_connect_def split: option.split sum.split intro: reach_step step_connect)

lemma demo_built_reachable: "reachable_graph demo_built"
proof -
  have "reachable_graph (empty_graph :: nat graph)" by (rule reach_init) (rule refl)
  then have "reachable_graph (snd (addSource False (empty_graph :: nat graph)))"
    by (rule reach_step) (rule step_addSource)
  then have "reachable_graph (snd (addSource True (snd (addSource False (empty_graph :: nat graph)))))"
    by (rule reach_step) (rule step_addSource)
  then have "reachable_graph (snd (addNode OpAnd (snd (addSource True (snd (addSource False (empty_graph :: nat graph)))))))"
    by (rule reach_step) (rule step_addNode)
  then show ?thesis
    unfolding demo_built_def by (rule reach_step) (rule step_subscribe, code_simp)
qed

lemma demo_graph_reachable: "reachable_graph demo_graph"
proof -
  have "reachable_graph (try_connect 1 2 (try_connect 0 2 demo_built))"
    by (intro try_connect_reachable demo_built_reachable; code_simp)
  then have "reachable_graph (set_source 0 True (try_connect 1 2 (try_connect 0 2 demo_built)))"
    by (rule reach_step) (rule step_set; code_simp)
  then show ?thesis by (simp add: demo_graph_def demo_built_def try_connect_def Let_def)
qed

text \<open>C13: in every graph the operations can build, from the empty graph and by any sequence of
  them, the edges form a DAG whose incoming and outgoing lists agree, sources have no inputs, an
  untouched node's snapshot is its output, and every compute node whose output is stale has a parent
  in the dirty list.\<close>

theorem graph_invariant:
  assumes "reachable_graph g"
  shows "graph_inv g"
  by (rule reachable_graph_inv [OF assms])

lemma graph_invariant_witness: "graph_inv demo_graph"
  by (rule graph_invariant [OF demo_graph_reachable])

text \<open>C2: \<open>propagate\<close> always returns on a graph the operations can build, and returns a settled
  graph: nothing dirty, every compute node's output the operator applied to its inputs, sources and
  structure untouched. It calls exactly the observers of the nodes whose output changed since their
  observers last heard of them, once each, with the final value (a node that flips and flips back
  during the traversal is not reported).\<close>

theorem propagate_settles:
  assumes "reachable_graph g"
  shows "\<exists>g' calls. propagate g = Some (g', calls) \<and> propagated g g' calls"
  by (rule propagate_correct [OF reachable_graph_inv [OF assms]])

lemma propagate_settles_witness:
  "\<exists>g' calls. propagate demo_graph = Some (g', calls) \<and> propagated demo_graph g' calls"
  by (rule propagate_settles [OF demo_graph_reachable])

text \<open>C4: \<open>connect\<close> always returns. It refuses a source target, and otherwise refuses exactly the
  edges that would close a cycle, self loops included; an accepted edge adds that one edge and leaves
  the target's output evaluated with it.\<close>

theorem connect_outcome:
  assumes "reachable_graph g" and "a < length (nodes g)" and "b < length (nodes g)"
  shows "if node_type (nodes g ! b) = NodeSource then connect a b g = Some (Inl (ConnectToSource b))
    else if \<not> acyclic (insert (a, b) (edges (nodes g))) then connect a b g = Some (Inl (WouldCreateCycle a b))
    else \<exists>g'. connect a b g = Some (Inr g') \<and> edges (nodes g') = insert (a, b) (edges (nodes g)) \<and>
           graph_inv g' \<and> consistent (nodes g') b \<and> b \<in> set (dirty g')"
proof -
  note inv = reachable_graph_inv [OF assms(1)]
  note wf = reachable_graph_wf [OF assms(1)]
  have cyc: "acyclic (insert (a, b) (edges (nodes g))) \<longleftrightarrow> \<not> (a = b \<or> (b, a) \<in> (edges (nodes g))\<^sup>+)"
    using wf_acyclic [OF wf] by (auto simp: rtrancl_eq_or_trancl)
  show ?thesis
  proof (cases "node_type (nodes g ! b) = NodeSource \<or> \<not> acyclic (insert (a, b) (edges (nodes g)))")
    case True
    then show ?thesis unfolding cyc connect_result [OF inv assms(2,3)] by auto
  next
    case False
    then have ok: "a \<noteq> b" "node_type (nodes g ! b) \<noteq> NodeSource" "(b, a) \<notin> (edges (nodes g))\<^sup>+"
      using cyc by auto
    let ?g1 = "g\<lparr>nodes := add_edge a b (nodes g)\<rparr>"
    let ?g' = "touch_write b (evaluate (nodes ?g1) (nodes ?g1 ! b)) ?g1"
    have c: "connect a b g = Some (Inr ?g')"
      using ok by (simp add: connect_result [OF inv assms(2,3)] Let_def)
    have inv1: "graph_inv_but {b} ?g1" by (rule add_edge_inv [OF inv assms(2,3) ok])
    have b1: "b < length (nodes ?g1)" using assms(3) by simp
    have "edges (nodes ?g') = insert (a, b) (edges (nodes g))"
      using skel_edges [OF touch_write_skel [OF inv1 b1]] add_edge_edges [OF assms(2,3) ok(1)] by simp
    moreover have "b \<in> set (dirty ?g')" by (simp add: touch_write_def touch_spec(2) [OF inv1 b1])
    moreover have "consistent (nodes ?g') b"
      by (rule touch_write_consistent [OF inv1 b1])
    ultimately show ?thesis
      using False c connect_inv [OF inv assms(2,3) c] by simp
  qed
qed

lemma connect_outcome_witness:
  "if node_type (nodes demo_graph ! 2) = NodeSource then connect 0 2 demo_graph = Some (Inl (ConnectToSource 2))
    else if \<not> acyclic (insert (0, 2) (edges (nodes demo_graph)))
      then connect 0 2 demo_graph = Some (Inl (WouldCreateCycle 0 2))
    else \<exists>g'. connect 0 2 demo_graph = Some (Inr g') \<and> edges (nodes g') = insert (0, 2) (edges (nodes demo_graph)) \<and>
           graph_inv g' \<and> consistent (nodes g') 2 \<and> 2 \<in> set (dirty g')"
  by (rule connect_outcome [OF demo_graph_reachable]; code_simp)

text \<open>The breadth-first search of \<open>isReachable\<close> returns, and returns true exactly when a path
  of at least one edge leads from the start to the target.\<close>

lemma isReachable_decides:
  assumes "reachable_graph g" and "start < length (nodes g)"
  shows "isReachable g start target = Some ((start, target) \<in> (edges (nodes g))\<^sup>+)"
  by (rule isReachable_correct [OF reachable_graph_wf [OF assms(1)] assms(2)])

lemma isReachable_decides_witness:
  "isReachable demo_graph 0 2 = Some ((0, 2) \<in> (edges (nodes demo_graph))\<^sup>+)"
  by (rule isReachable_decides [OF demo_graph_reachable]) code_simp

text \<open>The outcome of propagation does not depend on the order in which the graph was touched or
  traversed: two settled graphs of the same structure whose sources agree have the same output at
  every node, and so has the value that \<open>output\<close> returns with its mask for nodes without inputs.\<close>

lemma settled_outputs_determined:
  assumes "reachable_graph g" and "reachable_graph h" and "propagate g = Some (g', c)" and "propagate h = Some (h', d)"
    and sk: "skel (nodes h) = skel (nodes g)"
    and src: "\<And>i. i < length (nodes g) \<Longrightarrow> node_type (nodes g ! i) = NodeSource \<Longrightarrow>
      node_output (nodes h ! i) = node_output (nodes g ! i)"
    and i: "i < length (nodes g)"
  shows "output_of h' i = output_of g' i \<and> output_of g' i = node_output (nodes g' ! i)"
proof -
  note pg = propagate_inv [OF reachable_graph_inv [OF assms(1)] assms(3)]
  note ph = propagate_inv [OF reachable_graph_inv [OF assms(2)] assms(4)]
  have sk_g: "skel (nodes g') = skel (nodes g)" and sk_h: "skel (nodes h') = skel (nodes g)"
    using pg(2) ph(2) sk by (simp_all add: propagated_def)
  have len: "length (nodes g') = length (nodes g)" "length (nodes h') = length (nodes g)"
    "length (nodes h) = length (nodes g)"
    using skel_length [OF sk_g] skel_length [OF sk_h] skel_length [OF sk] by simp_all
  have "node_output (nodes h' ! i) = node_output (nodes g' ! i)"
  proof (rule consistent_outputs_unique [of "nodes g'" "nodes h'"])
    show "wf_struct (nodes g')" using skel_wf [OF sk_g] reachable_graph_wf [OF assms(1)] by simp
    show "skel (nodes h') = skel (nodes g')" using sk_g sk_h by simp
    show "i < length (nodes g')" using i len by simp
    fix j assume j: "j < length (nodes g')"
    then show "consistent (nodes g') j \<and> consistent (nodes h') j"
      using pg(2) ph(2) len by (auto simp: propagated_def settled_def)
    assume "node_type (nodes g' ! j) = NodeSource"
    then show "node_output (nodes h' ! j) = node_output (nodes g' ! j)"
      using pg(2) ph(2) len j src [of j] skel_nth(1) [OF sk_g j] skel_nth(1) [OF sk, of j]
      by (simp add: propagated_def)
  qed
  with output_of_stored [OF pg(1)] output_of_stored [OF ph(1)] i len show ?thesis by simp
qed

lemma settled_outputs_determined_witness:
  "output_of (fst (the (propagate demo_graph))) 2 = output_of (fst (the (propagate demo_graph))) 2 \<and>
   output_of (fst (the (propagate demo_graph))) 2 = node_output (nodes (fst (the (propagate demo_graph))) ! 2)"
  by (rule settled_outputs_determined [OF demo_graph_reachable demo_graph_reachable, of _ "[(7, True)]" _ "[(7, True)]"];
      (rule refl)?; code_simp?)

text \<open>\<open>deactivate\<close> leaves the node a false source without neighbours or observers, removes no
  other edge, and keeps the invariant, so the descendants whose value changes are flushed by the next
  \<open>propagate\<close>.\<close>

lemma deactivate_disconnects:
  assumes "reachable_graph g" and "i < length (nodes g)"
  shows "edges (nodes (deactivate i g)) = {(a, b) \<in> edges (nodes g). a \<noteq> i \<and> b \<noteq> i} \<and>
    node_type (nodes (deactivate i g) ! i) = NodeSource \<and> observers (nodes (deactivate i g) ! i) = [] \<and>
    graph_inv (deactivate i g)"
proof -
  note inv = reachable_graph_inv [OF assms(1)] and wf = reachable_graph_wf [OF assms(1)]
  note D = deactivate_inv [OF inv assms(2)]
  note nth = isolate_nth [OF wf assms(2)] and len = isolate_length [OF wf assms(2)]
  have "edges (isolate i (nodes g)) = {(a, b) \<in> edges (nodes g). a \<noteq> i \<and> b \<noteq> i}"
    by (auto simp: edges_def len nth split: if_splits)
  moreover have "i < length (nodes (deactivate i g))" using skel_length [OF D(2)] len assms(2) by simp
  ultimately show ?thesis
    using D(1) skel_edges [OF D(2)] skel_nth(1,4) [OF D(2)] nth [OF assms(2)] by simp
qed

lemma deactivate_disconnects_witness:
  "edges (nodes (deactivate 1 demo_graph)) = {(a, b) \<in> edges (nodes demo_graph). a \<noteq> 1 \<and> b \<noteq> 1} \<and>
    node_type (nodes (deactivate 1 demo_graph) ! 1) = NodeSource \<and> observers (nodes (deactivate 1 demo_graph) ! 1) = [] \<and>
    graph_inv (deactivate 1 demo_graph)"
  by (rule deactivate_disconnects [OF demo_graph_reachable]) code_simp

end
