(* ===== verification/Mctp_Requester.thy ===== *)
theory Mctp_Requester
  imports Ocp_Vdm
begin

text \<open>
  The request scheduler \<open>MctpRequester\<close> (\<open>MctpRequester.cpp\<close>) with the endpoint accessors it uses
  (\<open>MctpAsioEndpoint.cpp\<close>). One record field per data member; what \<open>boost::asio\<close> holds for the
  requester is part of the state too: the number of outstanding \<open>async_receive_from\<close> operations,
  the EIDs with an outstanding \<open>async_send_to\<close>, and whether an EID's timer has a pending wait. The
  last three fields only record history: requests accepted, datagrams handed to the socket, and
  callbacks invoked.

  A client callback is a value of type \<open>'c\<close>. What it does is the parameter \<open>react\<close>: the requests it
  submits, in order, before it returns. An exception leaves the event loop, so a status other than
  \<open>Running\<close> stops everything.
\<close>

section \<open>Data\<close>

datatype net_error = TimedOut | HostUnreachable | InvalidArgument | NoSuchDevice | OtherError nat

datatype endpoint = EndpointTooSmall | Endpoint u8 u8

fun endpoint_eid :: "endpoint \<Rightarrow> u8 option" where
  "endpoint_eid EndpointTooSmall = None"
| "endpoint_eid (Endpoint e t) = Some e"

fun endpoint_type :: "endpoint \<Rightarrow> u8 option" where
  "endpoint_type EndpointTooSmall = None"
| "endpoint_type (Endpoint e t) = Some t"

record 'c request_context =
  reqMsg :: bytes
  callback :: 'c

record 'c eid_context =
  ctx_iid :: u8
  ctx_queue :: "'c request_context list"
  ctx_armed :: bool

datatype status = Running | FatalError u8 net_error | FrontOfEmptyQueue u8 | OutOfFuel

record 'c requester =
  contexts :: "u8 \<Rightarrow> 'c eid_context option"
  receives :: nat
  sends :: "u8 list"
  status :: status
  handled_events :: "(u8 \<times> bytes) list"
  submitted :: "(u8 \<times> bytes \<times> 'c) list"
  transmitted :: "(u8 \<times> bytes) list"
  calls :: "(u8 \<times> 'c \<times> net_error option \<times> bytes) list"

type_synonym 'c react = "'c \<Rightarrow> net_error option \<Rightarrow> bytes \<Rightarrow> (u8 \<times> bytes \<times> 'c) list"

definition fresh_context :: "'c eid_context" where
  "fresh_context = \<lparr>ctx_iid = 0xFF, ctx_queue = [], ctx_armed = False\<rparr>"

definition startReceive :: "'c requester \<Rightarrow> 'c requester" where
  "startReceive s = s\<lparr>receives := receives s + 1\<rparr>"

text \<open>The constructor: the bind may fail without consequence, then the first receive is started.\<close>

definition new_requester :: "'c requester" where
  "new_requester = startReceive
     \<lparr>contexts = Map.empty, receives = 0, sends = [], status = Running, handled_events = [],
      submitted = [], transmitted = [], calls = []\<rparr>"

section \<open>Header bytes\<close>

definition getIid :: "bytes \<Rightarrow> u8 option" where
  "getIid buf = (if length buf < messageHeaderSize then None
     else Some (buf ! instanceIdOffset AND instanceIdBitMask))"

definition getRequestBit :: "bytes \<Rightarrow> bool option" where
  "getRequestBit buf = (if length buf < messageHeaderSize then None
     else Some (buf ! instanceIdOffset AND requestBitMask \<noteq> 0))"

definition getDatagramBit :: "bytes \<Rightarrow> bool option" where
  "getDatagramBit buf = (if length buf < messageHeaderSize then None
     else Some (buf ! instanceIdOffset AND datagramBitMask \<noteq> 0))"

definition injectIid :: "bytes \<Rightarrow> u8 \<Rightarrow> net_error + bytes" where
  "injectIid buf iid =
     (if length buf < messageHeaderSize then Inl InvalidArgument
      else if iid > instanceIdBitMask then Inl InvalidArgument
      else let buf = buf[instanceIdOffset := buf ! instanceIdOffset AND NOT instanceIdBitMask];
               buf = buf[instanceIdOffset := buf ! instanceIdOffset OR iid]
           in Inr buf)"

fun isFatalError :: "net_error option \<Rightarrow> bool" where
  "isFatalError None = False"
| "isFatalError (Some e) = (e \<noteq> TimedOut \<and> e \<noteq> HostUnreachable)"

section \<open>Updates of one EID's context\<close>

definition update_context :: "u8 \<Rightarrow> ('c eid_context \<Rightarrow> 'c eid_context) \<Rightarrow> 'c requester \<Rightarrow> 'c requester" where
  "update_context eid f s = s\<lparr>contexts := (contexts s)(eid := map_option f (contexts s eid))\<rparr>"

definition getNextIid :: "u8 \<Rightarrow> 'c requester \<Rightarrow> u8 option \<times> 'c requester" where
  "getNextIid eid s =
     (case contexts s eid of
        None \<Rightarrow> (None, s)
      | Some ctx \<Rightarrow>
          let iid = (ctx_iid ctx + 1) AND instanceIdBitMask
          in (Some iid, update_context eid (ctx_iid_update (\<lambda>_. iid)) s))"

definition set_front_msg :: "u8 \<Rightarrow> bytes \<Rightarrow> 'c requester \<Rightarrow> 'c requester" where
  "set_front_msg eid msg =
     update_context eid (ctx_queue_update (\<lambda>q. (hd q)\<lparr>reqMsg := msg\<rparr> # tl q))"

definition pop_front :: "u8 \<Rightarrow> 'c requester \<Rightarrow> 'c requester" where
  "pop_front eid = update_context eid (ctx_queue_update tl)"

definition cancel_timer :: "u8 \<Rightarrow> 'c requester \<Rightarrow> 'c requester" where
  "cancel_timer eid = update_context eid (ctx_armed_update (\<lambda>_. False))"

definition push_request :: "u8 \<Rightarrow> bytes \<Rightarrow> 'c \<Rightarrow> 'c requester \<Rightarrow> 'c requester" where
  "push_request eid msg cb s =
     (let ctx = (case contexts s eid of None \<Rightarrow> fresh_context | Some ctx \<Rightarrow> ctx);
          ctx = ctx\<lparr>ctx_queue := ctx_queue ctx @ [\<lparr>reqMsg = msg, callback = cb\<rparr>]\<rparr>
      in s\<lparr>contexts := (contexts s)(eid \<mapsto> ctx), submitted := submitted s @ [(eid, msg, cb)]\<rparr>)"

definition async_send :: "u8 \<Rightarrow> bytes \<Rightarrow> 'c requester \<Rightarrow> 'c requester" where
  "async_send eid msg s = s\<lparr>sends := sends s @ [eid], transmitted := transmitted s @ [(eid, msg)]\<rparr>"

section \<open>Submitting, dispatching, completing\<close>

text \<open>
  The three methods call each other through the client's callbacks. The first argument bounds the
  depth of the C++ call stack; \<open>fuel_suffices\<close> below shows that \<open>call_depth\<close> is never exhausted.
\<close>

function (sequential) sendRecvMsg :: "nat \<Rightarrow> 'c react \<Rightarrow> u8 \<Rightarrow> bytes \<Rightarrow> 'c \<Rightarrow> 'c requester \<Rightarrow> 'c requester"
  and processQueue :: "nat \<Rightarrow> 'c react \<Rightarrow> u8 \<Rightarrow> 'c requester \<Rightarrow> 'c requester"
  and handleResult :: "nat \<Rightarrow> 'c react \<Rightarrow> u8 \<Rightarrow> net_error option \<Rightarrow> bytes \<Rightarrow> 'c requester \<Rightarrow> 'c requester"
where
  "sendRecvMsg 0 react eid msg cb s = s\<lparr>status := OutOfFuel\<rparr>"
| "sendRecvMsg (Suc n) react eid msg cb s =
     (if status s \<noteq> Running then s
      else
        let s = push_request eid msg cb s
        in if length (ctx_queue (the (contexts s eid))) = 1 then processQueue n react eid s else s)"
| "processQueue 0 react eid s = s\<lparr>status := OutOfFuel\<rparr>"
| "processQueue (Suc n) react eid s =
     (case contexts s eid of
        None \<Rightarrow> s
      | Some ctx \<Rightarrow>
          (case ctx_queue ctx of
             [] \<Rightarrow> s
           | req # _ \<Rightarrow>
               (case getNextIid eid s of
                  (None, s) \<Rightarrow> handleResult n react eid (Some NoSuchDevice) [] s
                | (Some iid, s) \<Rightarrow>
                    (case injectIid (reqMsg req) iid of
                       Inl e \<Rightarrow> handleResult n react eid (Some e) [] s
                     | Inr msg \<Rightarrow> async_send eid msg (set_front_msg eid msg s)))))"
| "handleResult 0 react eid ec buf s = s\<lparr>status := OutOfFuel\<rparr>"
| "handleResult (Suc n) react eid ec buf s =
     (case contexts s eid of
        None \<Rightarrow> startReceive s
      | Some ctx \<Rightarrow>
          (case ctx_queue ctx of
             [] \<Rightarrow> s\<lparr>status := FrontOfEmptyQueue eid\<rparr>
           | req # _ \<Rightarrow>
               let s = cancel_timer eid s;
                   s = s\<lparr>calls := calls s @ [(eid, callback req, ec, buf)]\<rparr>;
                   s = fold (\<lambda>(e, m, c). sendRecvMsg n react e m c) (react (callback req) ec buf) s
               in if status s \<noteq> Running then s
                  else if isFatalError ec then s\<lparr>status := FatalError eid (the ec)\<rparr>
                  else processQueue n react eid (pop_front eid (startReceive s))))"

  by pat_completeness auto

termination
  by (relation "measure (\<lambda>x. case x of Inl (n, _) \<Rightarrow> n | Inr (Inl (n, _)) \<Rightarrow> n | Inr (Inr (n, _)) \<Rightarrow> n)")
    (simp_all (no_asm))

definition call_depth :: nat where
  "call_depth = 1024"

section \<open>Completion handlers\<close>

definition processRecvMsg ::
  "'c react \<Rightarrow> endpoint \<Rightarrow> net_error option \<Rightarrow> bytes \<Rightarrow> 'c requester \<Rightarrow> 'c requester" where
  "processRecvMsg react recvEndPoint ec buf s =
     (case (endpoint_eid recvEndPoint, endpoint_type recvEndPoint) of
        (Some eid, Some receivedMsgType) \<Rightarrow>
          if receivedMsgType \<noteq> messageType then s
          else if ec \<noteq> None then handleResult call_depth react eid ec [] s
          else
            (case (getIid buf, getRequestBit buf, getDatagramBit buf) of
               (Some iid, Some isRq, Some isDatagram) \<Rightarrow>
                 if isRq then
                   if \<not> isDatagram then s
                   else startReceive (s\<lparr>handled_events := handled_events s @ [(eid, buf)]\<rparr>)
                 else if isDatagram then s
                 else
                   (case contexts s eid of
                      None \<Rightarrow> s
                    | Some ctx \<Rightarrow> if iid \<noteq> ctx_iid ctx then s else handleResult call_depth react eid None buf s)
             | _ \<Rightarrow> s)
      | _ \<Rightarrow> s)"

definition handleSendMsgCompletion ::
  "'c react \<Rightarrow> u8 \<Rightarrow> net_error option \<Rightarrow> 'c requester \<Rightarrow> 'c requester" where
  "handleSendMsgCompletion react eid ec s =
     (if ec \<noteq> None then handleResult call_depth react eid ec [] s
      else
        (case contexts s eid of
           None \<Rightarrow> s
         | Some ctx \<Rightarrow> update_context eid (ctx_armed_update (\<lambda>_. True)) s))"

definition timer_expired :: "'c react \<Rightarrow> u8 \<Rightarrow> 'c requester \<Rightarrow> 'c requester" where
  "timer_expired react eid s = handleResult call_depth react eid (Some TimedOut) [] s"

section \<open>Events\<close>

text \<open>
  What the event loop can deliver: a client submits, an outstanding send completes, an outstanding
  receive completes, or a pending wait expires. The completed operation leaves the state before its
  handler runs.
\<close>

datatype 'c req_event =
    Submit u8 bytes 'c
  | SendDone u8 "net_error option"
  | Received endpoint "net_error option" bytes
  | TimerExpired u8

definition armed :: "'c requester \<Rightarrow> u8 \<Rightarrow> bool" where
  "armed s eid = (case contexts s eid of None \<Rightarrow> False | Some ctx \<Rightarrow> ctx_armed ctx)"

definition queue_of :: "'c requester \<Rightarrow> u8 \<Rightarrow> 'c request_context list" where
  "queue_of s eid = (case contexts s eid of None \<Rightarrow> [] | Some ctx \<Rightarrow> ctx_queue ctx)"

fun enabled :: "'c req_event \<Rightarrow> 'c requester \<Rightarrow> bool" where
  "enabled (Submit eid msg cb) s = (status s = Running)"
| "enabled (SendDone eid ec) s = (status s = Running \<and> eid \<in> set (sends s))"
| "enabled (Received ep ec buf) s = (status s = Running \<and> receives s > 0)"
| "enabled (TimerExpired eid) s = (status s = Running \<and> armed s eid)"

fun handle :: "'c react \<Rightarrow> 'c req_event \<Rightarrow> 'c requester \<Rightarrow> 'c requester" where
  "handle react (Submit eid msg cb) s = sendRecvMsg call_depth react eid msg cb s"
| "handle react (SendDone eid ec) s =
     handleSendMsgCompletion react eid ec (s\<lparr>sends := remove1 eid (sends s)\<rparr>)"
| "handle react (Received ep ec buf) s =
     processRecvMsg react ep ec buf (s\<lparr>receives := receives s - 1\<rparr>)"
| "handle react (TimerExpired eid) s =
     timer_expired react eid (update_context eid (ctx_armed_update (\<lambda>_. False)) s)"

inductive req_step :: "'c react \<Rightarrow> 'c requester \<Rightarrow> 'c requester \<Rightarrow> bool" for react where
  req_step_event: "enabled ev s \<Longrightarrow> req_step react s (handle react ev s)"

end
