(* ===== verification/Fifo_Service.thy ===== *)
theory Fifo_Service
  imports Prelude
begin

text \<open>
  The contract of a component that serves requests one at a time in arrival order. The provider keeps
  a predicate \<open>ok\<close> and shows that what was accepted is what was begun followed by what waits. The
  clients are the per-EID queues of the MCTP requester and the serial queue of the long-running
  commands.
\<close>

locale fifo_service =
  fixes ok :: "'s \<Rightarrow> bool" and accepted :: "'s \<Rightarrow> 'r list" and begun :: "'s \<Rightarrow> 'r list" and waiting :: "'s \<Rightarrow> 'r list"
  assumes conserved: "ok s \<Longrightarrow> accepted s = begun s @ waiting s"
begin

lemma begun_prefix: "ok s \<Longrightarrow> begun s = take (length (begun s)) (accepted s)"
  by (simp add: conserved)

lemma in_order: "ok s \<Longrightarrow> i < length (begun s) \<Longrightarrow> begun s ! i = accepted s ! i"
  by (simp add: conserved nth_append)

lemma never_twice:
  "ok s \<Longrightarrow> count_list (begun s) r + count_list (waiting s) r = count_list (accepted s) r"
  by (simp add: conserved)

lemma drained: "ok s \<Longrightarrow> waiting s = [] \<Longrightarrow> begun s = accepted s"
  by (simp add: conserved)

end

end
