(* ===== verification/Mctp_Requester_Correct.thy ===== *)
theory Mctp_Requester_Correct
  imports Mctp_Requester Fifo_Service
begin

text \<open>
  Correctness of the request scheduler: the call stack is bounded; with requests that hold a header,
  and responses that arrive only while one is awaited, every EID has at most one request in flight,
  requests are transmitted and answered in submission order, exactly once, with cycling instance
  identifiers. The last section states what happens outside those conditions.
\<close>

section \<open>The call stack is bounded\<close>

definition idle_eids :: "'c requester \<Rightarrow> u8 set" where
  "idle_eids s = {e. queue_of s e = []}"

lemma idle_finite [simp]: "finite (idle_eids s)"
  by (rule finite_subset [OF subset_UNIV]) simp

lemma idle_bound: "card (idle_eids s) \<le> 256"
proof -
  have "card (idle_eids s) \<le> card (UNIV :: u8 set)" by (rule card_mono) auto
  then show ?thesis by (simp add: card_word)
qed

lemma queue_of_push:
  "queue_of (push_request eid msg cb s) e =
     (if e = eid then queue_of s eid @ [\<lparr>reqMsg = msg, callback = cb\<rparr>] else queue_of s e)"
  by (auto simp: queue_of_def push_request_def fresh_context_def Let_def split: option.splits)

lemma queue_of_update:
  "queue_of (update_context eid f s) e =
     (if e = eid then (case contexts s eid of None \<Rightarrow> [] | Some ctx \<Rightarrow> ctx_queue (f ctx)) else queue_of s e)"
  by (auto simp: queue_of_def update_context_def split: option.splits)

lemma queue_of_same:
  "(\<And>ctx. ctx_queue (f ctx) = ctx_queue ctx) \<Longrightarrow> queue_of (update_context eid f s) e = queue_of s e"
  by (auto simp: queue_of_update) (auto simp: queue_of_def split: option.splits)

lemma queue_of_map:
  "(\<And>ctx. ctx_queue (f ctx) = h (ctx_queue ctx)) \<Longrightarrow> h [] = [] \<Longrightarrow>
     queue_of (update_context eid f s) e = (if e = eid then h (queue_of s e) else queue_of s e)"
  by (auto simp: queue_of_update) (auto simp: queue_of_def split: option.splits)

lemma queue_of_frame [simp]:
  "queue_of (async_send eid msg s) e = queue_of s e"
  "queue_of (startReceive s) e = queue_of s e"
  "queue_of (s\<lparr>calls := cs\<rparr>) e = queue_of s e"
  "queue_of (s\<lparr>status := st\<rparr>) e = queue_of s e"
  by (simp_all add: async_send_def startReceive_def queue_of_def)

lemma queue_of_context [simp]:
  "queue_of (cancel_timer eid s) e = queue_of s e"
  "queue_of (update_context eid (ctx_iid_update i) s) e = queue_of s e"
  "queue_of (update_context eid (ctx_armed_update a) s) e = queue_of s e"
  "queue_of (pop_front eid s) e = (if e = eid then tl (queue_of s e) else queue_of s e)"
  by (simp_all add: cancel_timer_def pop_front_def queue_of_same queue_of_map)

lemma status_simps [simp]:
  "status (update_context eid f s) = status s" "status (push_request eid msg cb s) = status s"
  "status (async_send eid msg s) = status s" "status (startReceive s) = status s"
  "status (cancel_timer eid s) = status s" "status (pop_front eid s) = status s"
  "status (set_front_msg eid msg s) = status s"
  by (simp_all add: update_context_def push_request_def async_send_def startReceive_def cancel_timer_def
      pop_front_def set_front_msg_def Let_def)

lemma contexts_push:
  "contexts (push_request eid msg cb s) eid =
     Some ((case contexts s eid of None \<Rightarrow> fresh_context | Some ctx \<Rightarrow> ctx)
       \<lparr>ctx_queue := queue_of s eid @ [\<lparr>reqMsg = msg, callback = cb\<rparr>]\<rparr>)"
  by (auto simp: queue_of_def push_request_def fresh_context_def Let_def split: option.splits)

lemma queue_of_Cons: "queue_of s eid = req # rest \<Longrightarrow> \<exists>ctx. contexts s eid = Some ctx \<and> ctx_queue ctx = req # rest"
  by (auto simp: queue_of_def split: option.splits)

lemma sendRecvMsg_unfold:
  "sendRecvMsg (Suc n) react eid msg cb s =
     (if status s \<noteq> Running then s
      else if queue_of s eid = [] then processQueue n react eid (push_request eid msg cb s)
      else push_request eid msg cb s)"
  by (simp add: Let_def contexts_push)

definition in_fuel :: "'c requester \<Rightarrow> bool" where
  "in_fuel s \<longleftrightarrow> status s \<noteq> OutOfFuel"

text \<open>
  A nested \<open>handleResult\<close> is only ever reached because the identifier could not be injected, which is
  fatal, so it never pops; the EIDs with an empty queue therefore only decrease down the call stack.
\<close>

definition bounded_send :: "'c react \<Rightarrow> nat \<Rightarrow> bool" where
  "bounded_send react k \<longleftrightarrow>
     (\<forall>n eid msg cb s. 3 * k + 1 \<le> n \<longrightarrow> card (idle_eids s) \<le> k \<longrightarrow> in_fuel s \<longrightarrow>
        in_fuel (sendRecvMsg n react eid msg cb s) \<and>
        (status (sendRecvMsg n react eid msg cb s) = Running \<longrightarrow>
           idle_eids (sendRecvMsg n react eid msg cb s) \<subseteq> idle_eids s))"

lemma fold_not_running:
  "status s \<noteq> Running \<Longrightarrow> fold (\<lambda>(e, m, c). sendRecvMsg (Suc n) react e m c) xs s = s"
  by (induction xs) auto

lemma bounded_fold:
  assumes b: "bounded_send react k" and n: "3 * k + 1 \<le> n"
  shows "card (idle_eids s) \<le> k \<Longrightarrow> in_fuel s \<Longrightarrow>
    in_fuel (fold (\<lambda>(e, m, c). sendRecvMsg n react e m c) xs s)"
proof (induction xs arbitrary: s)
  case Nil
  then show ?case by simp
next
  case (Cons x xs)
  obtain e m c where x: "x = (e, m, c)" by (cases x)
  let ?s = "sendRecvMsg n react e m c s"
  obtain n' where n': "n = Suc n'" using n by (cases n) auto
  from b n Cons.prems have s': "in_fuel ?s" "status ?s = Running \<longrightarrow> idle_eids ?s \<subseteq> idle_eids s"
    unfolding bounded_send_def by blast+
  show ?case
  proof (cases "status ?s = Running")
    case True
    then have "card (idle_eids ?s) \<le> card (idle_eids s)" using s'(2) by (intro card_mono) auto
    then have "card (idle_eids ?s) \<le> k" using Cons.prems(1) by simp
    from Cons.IH [OF this s'(1)] show ?thesis by (simp add: x)
  next
    case False
    then have "fold (\<lambda>(e, m, c). sendRecvMsg n react e m c) xs ?s = ?s"
      unfolding n' by (rule fold_not_running)
    with s'(1) show ?thesis by (simp add: x)
  qed
qed

lemma injectIid_error: "injectIid buf iid = Inl e \<Longrightarrow> e = InvalidArgument"
  by (auto simp: injectIid_def Let_def split: if_splits)

lemma handleResult_fatal_fuel:
  assumes b: "bounded_send react k" and n: "3 * k + 2 \<le> n"
    and "card (idle_eids s) \<le> k" and "in_fuel s" and fatal: "isFatalError ec" and q: "queue_of s eid \<noteq> []"
  shows "in_fuel (handleResult n react eid ec buf s) \<and> status (handleResult n react eid ec buf s) \<noteq> Running"
proof -
  obtain m where m: "n = Suc m" "3 * k + 1 \<le> m" using n by (cases n) auto
  from q obtain ctx req rest where ctx: "contexts s eid = Some ctx" "ctx_queue ctx = req # rest"
    by (auto simp: neq_Nil_conv dest!: queue_of_Cons)
  let ?s1 = "(cancel_timer eid s)\<lparr>calls := calls (cancel_timer eid s) @ [(eid, callback req, ec, buf)]\<rparr>"
  let ?s2 = "fold (\<lambda>(e, m', c). sendRecvMsg m react e m' c) (react (callback req) ec buf) ?s1"
  have "idle_eids ?s1 = idle_eids s" by (simp add: idle_eids_def)
  moreover have "in_fuel ?s1" using assms(4) by (simp add: in_fuel_def)
  ultimately have "in_fuel ?s2"
    using assms(3) by (intro bounded_fold [OF b m(2)]) auto
  then show ?thesis
    using fatal by (auto simp: m(1) ctx Let_def in_fuel_def)
qed

lemma processQueue_fuel:
  assumes b: "bounded_send react k" and n: "3 * k + 3 \<le> n"
    and "card (idle_eids s) \<le> k" and "in_fuel s"
  shows "in_fuel (processQueue n react eid s) \<and>
    (status (processQueue n react eid s) = Running \<longrightarrow> idle_eids (processQueue n react eid s) = idle_eids s)"
proof -
  obtain m where m: "n = Suc m" "3 * k + 2 \<le> m" using n by (cases n) auto
  show ?thesis
  proof (cases "queue_of s eid")
    case Nil
    then show ?thesis using assms(4) by (auto simp: m(1) queue_of_def split: option.splits list.splits)
  next
    case (Cons req rest)
    then obtain ctx where ctx: "contexts s eid = Some ctx" "ctx_queue ctx = req # rest"
      using queue_of_Cons by blast
    obtain iid where iid: "getNextIid eid s = (Some iid, update_context eid (ctx_iid_update (\<lambda>_. iid)) s)"
      using ctx by (simp add: getNextIid_def Let_def)
    let ?s = "update_context eid (ctx_iid_update (\<lambda>_. iid)) s"
    have q: "queue_of ?s e = queue_of s e" for e by simp
    have idle: "idle_eids ?s = idle_eids s" by (simp add: idle_eids_def)
    show ?thesis
    proof (cases "injectIid (reqMsg req) iid")
      case (Inl e)
      have "in_fuel (handleResult m react eid (Some e) [] ?s) \<and>
          status (handleResult m react eid (Some e) [] ?s) \<noteq> Running"
        by (rule handleResult_fatal_fuel [OF b m(2)])
          (use assms idle q Cons injectIid_error [OF Inl] in \<open>simp_all add: in_fuel_def\<close>)
      then show ?thesis by (simp add: m(1) ctx iid Inl)
    next
      case (Inr msg)
      have "queue_of (set_front_msg eid msg ?s) e = [] \<longleftrightarrow> queue_of s e = []" for e
        using Cons ctx by (auto simp: set_front_msg_def queue_of_update update_context_def queue_of_def split: option.splits)
      then show ?thesis
        using assms(4) by (simp add: m(1) ctx iid Inr in_fuel_def idle_eids_def)
    qed
  qed
qed

lemma bounded_send_all: "bounded_send react k"
proof (induction k)
  case 0
  show ?case
    unfolding bounded_send_def
  proof (intro allI impI)
    fix n :: nat and eid msg and cb :: 'a and s :: "'a requester"
    assume n: "3 * 0 + 1 \<le> n" and "card (idle_eids s) \<le> 0" and f: "in_fuel s"
    then have "idle_eids s = {}" by simp
    then have q: "queue_of s eid \<noteq> []" by (auto simp: idle_eids_def)
    obtain m where m: "n = Suc m" using n by (cases n) auto
    show "in_fuel (sendRecvMsg n react eid msg cb s) \<and>
        (status (sendRecvMsg n react eid msg cb s) = Running \<longrightarrow>
           idle_eids (sendRecvMsg n react eid msg cb s) \<subseteq> idle_eids s)"
      using f q unfolding m sendRecvMsg_unfold
      by (auto simp: in_fuel_def idle_eids_def queue_of_push)
  qed
next
  case (Suc k)
  show ?case
    unfolding bounded_send_def
  proof (intro allI impI)
    fix n :: nat and eid msg and cb :: 'a and s :: "'a requester"
    assume n: "3 * Suc k + 1 \<le> n" and card: "card (idle_eids s) \<le> Suc k" and f: "in_fuel s"
    obtain m where m: "n = Suc m" "3 * k + 3 \<le> m" using n by (cases n) auto
    let ?s = "push_request eid msg cb s"
    have idle: "idle_eids ?s = idle_eids s - {eid}"
      by (auto simp: idle_eids_def queue_of_push)
    have f': "in_fuel ?s" using f by (simp add: in_fuel_def)
    show "in_fuel (sendRecvMsg n react eid msg cb s) \<and>
        (status (sendRecvMsg n react eid msg cb s) = Running \<longrightarrow>
           idle_eids (sendRecvMsg n react eid msg cb s) \<subseteq> idle_eids s)"
    proof (cases "queue_of s eid = []")
      case True
      then have "eid \<in> idle_eids s" by (simp add: idle_eids_def)
      then have "card (idle_eids ?s) \<le> k" using card by (simp add: idle)
      from processQueue_fuel [OF Suc.IH m(2) this f'] show ?thesis
        using f True idle unfolding m(1) sendRecvMsg_unfold by auto
    next
      case False
      then show ?thesis using f f' idle unfolding m(1) sendRecvMsg_unfold by auto
    qed
  qed
qed

lemma handleResult_fuel:
  assumes n: "776 \<le> n" and "in_fuel s"
  shows "in_fuel (handleResult n react eid ec buf s)"
proof -
  obtain m where m: "n = Suc m" "775 \<le> m" using n by (cases n) auto
  show ?thesis
  proof (cases "queue_of s eid")
    case Nil
    then show ?thesis
      using assms(2) by (auto simp: m(1) in_fuel_def queue_of_def split: option.splits list.splits)
  next
    case (Cons req rest)
    then obtain ctx where ctx: "contexts s eid = Some ctx" "ctx_queue ctx = req # rest"
      using queue_of_Cons by blast
    let ?s1 = "(cancel_timer eid s)\<lparr>calls := calls (cancel_timer eid s) @ [(eid, callback req, ec, buf)]\<rparr>"
    let ?s2 = "fold (\<lambda>(e, m', c). sendRecvMsg m react e m' c) (react (callback req) ec buf) ?s1"
    have "in_fuel ?s1" using assms(2) by (simp add: in_fuel_def)
    then have s2: "in_fuel ?s2"
      using m(2) idle_bound by (intro bounded_fold [OF bounded_send_all [of react 256]]) auto
    let ?s3 = "pop_front eid (startReceive ?s2)"
    have "in_fuel ?s3" using s2 by (simp add: in_fuel_def)
    then have "in_fuel (processQueue m react eid ?s3)"
      using processQueue_fuel [OF bounded_send_all [of react 256], of m ?s3 eid] m(2) idle_bound by auto
    with s2 show ?thesis by (simp add: m(1) ctx Let_def in_fuel_def)
  qed
qed

lemma handle_fuel:
  assumes "in_fuel s"
  shows "in_fuel (handle react ev s)"
proof -
  have d: "776 \<le> call_depth" by (simp add: call_depth_def)
  have h: "in_fuel (handleResult call_depth react eid ec buf t)" if "in_fuel t" for eid ec buf t
    by (rule handleResult_fuel [OF d that])
  show ?thesis
  proof (cases ev)
    case (Submit eid msg cb)
    have "3 * 256 + 1 \<le> call_depth" by (simp add: call_depth_def)
    then show ?thesis
      using bounded_send_all [of react 256] idle_bound [of s] assms Submit
      unfolding bounded_send_def by simp
  next
    case (SendDone eid ec)
    have "in_fuel (s\<lparr>sends := remove1 eid (sends s)\<rparr>)" using assms by (simp add: in_fuel_def)
    then show ?thesis
      using h by (auto simp: SendDone handleSendMsgCompletion_def in_fuel_def split: option.splits)
  next
    case (Received ep ec buf)
    have "in_fuel (s\<lparr>receives := receives s - 1\<rparr>)" using assms by (simp add: in_fuel_def)
    moreover from this have "in_fuel (startReceive (s\<lparr>receives := receives s - 1, handled_events := es\<rparr>))" for es
      by (simp add: in_fuel_def)
    ultimately show ?thesis
      using h by (simp add: Received processRecvMsg_def split: option.splits)
  next
    case (TimerExpired eid)
    have "in_fuel (update_context eid (ctx_armed_update (\<lambda>_. False)) s)" using assms by (simp add: in_fuel_def)
    then show ?thesis using h by (simp add: TimerExpired timer_expired_def)
  qed
qed
section \<open>What one EID sees\<close>

text \<open>
  Every operation touches one EID; the rest of the state it leaves alone. \<open>view s e\<close> collects what
  concerns \<open>e\<close>, and the operations become functions on views.
\<close>

definition for_eid :: "u8 \<Rightarrow> (u8 \<times> 'b) list \<Rightarrow> 'b list" where
  "for_eid e xs = map snd (filter (\<lambda>p. fst p = e) xs)"

lemma for_eid_simps [simp]:
  "for_eid e [] = []" "for_eid e (xs @ ys) = for_eid e xs @ for_eid e ys"
  "for_eid e ((e', x) # xs) = (if e' = e then x # for_eid e xs else for_eid e xs)"
  by (simp_all add: for_eid_def)

record 'c eid_view =
  v_ctx :: "'c eid_context option"
  v_subs :: "(bytes \<times> 'c) list"
  v_sent :: "bytes list"
  v_answers :: "('c \<times> net_error option \<times> bytes) list"
  v_sends :: nat

definition view :: "'c requester \<Rightarrow> u8 \<Rightarrow> 'c eid_view" where
  "view s e = \<lparr>v_ctx = contexts s e, v_subs = for_eid e (submitted s), v_sent = for_eid e (transmitted s),
     v_answers = for_eid e (calls s), v_sends = count_list (sends s) e\<rparr>"

definition v_queue :: "'c eid_view \<Rightarrow> 'c request_context list" where
  "v_queue v = (case v_ctx v of None \<Rightarrow> [] | Some ctx \<Rightarrow> ctx_queue ctx)"

definition v_armed :: "'c eid_view \<Rightarrow> bool" where
  "v_armed v = (case v_ctx v of None \<Rightarrow> False | Some ctx \<Rightarrow> ctx_armed ctx)"

lemma v_queue_view [simp]: "v_queue (view s e) = queue_of s e"
  by (simp add: v_queue_def view_def queue_of_def)

lemma v_armed_view [simp]: "v_armed (view s e) = armed s e"
  by (simp add: v_armed_def view_def armed_def)

definition stamp :: "bytes \<Rightarrow> nat \<Rightarrow> bytes" where
  "stamp m k = m[2 := (m ! 2 AND NOT 31) OR word_of_nat (k mod 32)]"

lemma iid_unat: "unat (word_of_nat (k mod 32) :: u8) = k mod 32"
  by (simp add: unat_of_nat take_bit_nat_eq_self_iff)

lemma mask31: "(w :: u8) AND 31 = word_of_nat (unat w mod 32)"
proof -
  have "w AND 31 = take_bit 5 w" by (simp add: take_bit_eq_mask mask_eq_exp_minus_1)
  also have "\<dots> = word_of_nat (unat w mod 32)"
    by (simp add: word_unat_eq_iff iid_unat unsigned_take_bit_eq take_bit_eq_mod unat_mod)
  finally show ?thesis .
qed

definition next_ctx_iid :: "nat \<Rightarrow> u8" where
  "next_ctx_iid k = (if k = 0 then 0xFF else word_of_nat ((k - 1) mod 32))"

lemma next_iid:
  "(next_ctx_iid k + 1) AND 31 = word_of_nat (k mod 32)"
proof (cases "k = 0")
  case False
  then obtain j where k: "k = Suc j" by (cases k) auto
  have "unat (word_of_nat (j mod 32) + 1 :: u8) = j mod 32 + 1"
    by (subst unat_plus_simple [THEN iffD1]) (simp_all add: iid_unat word_le_nat_alt unat_word_ariths)
  then show ?thesis by (simp add: k mask31 mod_Suc_eq next_ctx_iid_def)
qed (simp add: next_ctx_iid_def)

lemma injectIid_stamp:
  "5 \<le> length m \<Longrightarrow> injectIid m (word_of_nat (k mod 32)) = Inr (stamp m k)"
proof -
  assume m: "5 \<le> length m"
  have "\<not> (31 :: u8) < word_of_nat (k mod 32)" by (simp add: word_less_nat_alt iid_unat)
  with m show ?thesis by (simp add: injectIid_def stamp_def Let_def)
qed

section \<open>The invariant of one EID\<close>

definition v_push :: "bytes \<Rightarrow> 'c \<Rightarrow> 'c eid_view \<Rightarrow> 'c eid_view" where
  "v_push msg cb v =
     v\<lparr>v_ctx := Some ((case v_ctx v of None \<Rightarrow> fresh_context | Some ctx \<Rightarrow> ctx)
         \<lparr>ctx_queue := v_queue v @ [\<lparr>reqMsg = msg, callback = cb\<rparr>]\<rparr>),
       v_subs := v_subs v @ [(msg, cb)]\<rparr>"

definition v_dispatch :: "'c eid_view \<Rightarrow> 'c eid_view" where
  "v_dispatch v =
     (case v_queue v of [] \<Rightarrow> v
      | req # rest \<Rightarrow>
          let msg = stamp (reqMsg req) (length (v_sent v)) in
          v\<lparr>v_ctx := map_option (\<lambda>ctx. ctx\<lparr>ctx_iid := word_of_nat (length (v_sent v) mod 32),
               ctx_queue := req\<lparr>reqMsg := msg\<rparr> # rest\<rparr>) (v_ctx v),
            v_sent := v_sent v @ [msg], v_sends := v_sends v + 1\<rparr>)"

definition v_answer :: "net_error option \<Rightarrow> bytes \<Rightarrow> 'c eid_view \<Rightarrow> 'c eid_view" where
  "v_answer ec buf v =
     v\<lparr>v_ctx := map_option (ctx_armed_update (\<lambda>_. False)) (v_ctx v),
       v_answers := v_answers v @ [(callback (hd (v_queue v)), ec, buf)]\<rparr>"

definition v_pop :: "'c eid_view \<Rightarrow> 'c eid_view" where
  "v_pop v = v\<lparr>v_ctx := map_option (ctx_queue_update tl) (v_ctx v)\<rparr>"

lemma v_queue_ops [simp]:
  "v_queue (v_push msg cb v) = v_queue v @ [\<lparr>reqMsg = msg, callback = cb\<rparr>]"
  "v_queue (v_answer ec buf v) = v_queue v" "v_queue (v_pop v) = tl (v_queue v)"
  by (auto simp: v_queue_def v_push_def v_answer_def v_pop_def split: option.splits)

lemma v_armed_ops [simp]:
  "v_armed (v_push msg cb v) = v_armed v" "\<not> v_armed (v_answer ec buf v)" "v_armed (v_pop v) = v_armed v"
  by (auto simp: v_armed_def v_push_def v_answer_def v_pop_def fresh_context_def split: option.splits)

lemma push_fields [simp]:
  "v_subs (v_push msg cb v) = v_subs v @ [(msg, cb)]" "v_sent (v_push msg cb v) = v_sent v"
  "v_answers (v_push msg cb v) = v_answers v" "v_sends (v_push msg cb v) = v_sends v"
  "v_ctx (v_push msg cb v) \<noteq> None"
  by (simp_all add: v_push_def)

lemma answer_fields [simp]:
  "v_subs (v_answer ec buf v) = v_subs v" "v_sent (v_answer ec buf v) = v_sent v"
  "v_answers (v_answer ec buf v) = v_answers v @ [(callback (hd (v_queue v)), ec, buf)]"
  "v_sends (v_answer ec buf v) = v_sends v"
  "v_ctx (v_answer ec buf v) = None \<longleftrightarrow> v_ctx v = None"
  by (simp_all add: v_answer_def)

lemma pop_fields [simp]:
  "v_subs (v_pop v) = v_subs v" "v_sent (v_pop v) = v_sent v" "v_answers (v_pop v) = v_answers v"
  "v_sends (v_pop v) = v_sends v" "v_ctx (v_pop v) = None \<longleftrightarrow> v_ctx v = None"
  by (simp_all add: v_pop_def)

definition v_iid :: "'c eid_view \<Rightarrow> u8" where
  "v_iid v = (case v_ctx v of None \<Rightarrow> 0xFF | Some ctx \<Rightarrow> ctx_iid ctx)"

lemma v_iid_ops [simp]:
  "v_iid (v_push msg cb v) = v_iid v" "v_iid (v_answer ec buf v) = v_iid v" "v_iid (v_pop v) = v_iid v"
  by (auto simp: v_iid_def v_push_def v_answer_def v_pop_def fresh_context_def split: option.splits)

text \<open>
  Between events every EID is \<open>Stable\<close>: idle, sending, or waiting with its timer armed. \<open>Ready\<close> is an
  EID whose operation just completed, \<open>Completing\<close> one whose callback is running with the request
  still at the head of the queue, \<open>Undispatched\<close> one whose head is yet to be sent.
\<close>

datatype phase = Stable | Ready | Completing | Undispatched

definition eid_inv :: "phase \<Rightarrow> nat \<Rightarrow> 'c eid_view \<Rightarrow> bool" where
  "eid_inv ph d v \<longleftrightarrow>
     (let u = (if ph = Undispatched then 0 else 1); q = v_queue v in
      d \<le> length (v_subs v) \<and>
      map callback q = map snd (drop d (v_subs v)) \<and>
      map reqMsg (drop u q) = map fst (drop (d + u) (v_subs v)) \<and>
      v_sent v = map2 stamp (map fst (take (d + u) (v_subs v))) [0..<d + u] \<and>
      map fst (v_answers v) = map snd (take (d + (if ph = Completing then 1 else 0)) (v_subs v)) \<and>
      (\<forall>m \<in> fst ` set (v_subs v). 5 \<le> length m) \<and>
      (v_ctx v = None \<longrightarrow> v_subs v = []) \<and>
      v_iid v = next_ctx_iid (length (v_sent v)) \<and>
      (case ph of
         Stable \<Rightarrow> if q = [] then \<not> v_armed v \<and> v_sends v = 0
                   else v_sends v = (if v_armed v then 0 else 1)
       | Ready \<Rightarrow> q \<noteq> [] \<and> v_sends v = 0
       | Completing \<Rightarrow> q \<noteq> [] \<and> \<not> v_armed v \<and> v_sends v = 0
       | Undispatched \<Rightarrow> \<not> v_armed v \<and> v_sends v = 0))"

lemma queue_length: "eid_inv ph d v \<Longrightarrow> length (v_queue v) = length (v_subs v) - d"
  unfolding eid_inv_def Let_def by (metis length_drop length_map)

lemma push_idle:
  assumes inv: "eid_inv Stable d v" and q: "v_queue v = []" and m: "5 \<le> length msg"
  shows "eid_inv Undispatched d (v_push msg cb v)"
proof -
  have d: "d = length (v_subs v)"
    using queue_length [OF inv] inv q by (simp add: eid_inv_def Let_def)
  have sent: "v_sent v = map2 stamp (map fst (v_subs v)) [0..<length (v_subs v)]"
    using inv unfolding d eid_inv_def Let_def by (simp add: zip_append2)
  show ?thesis
    using inv m q sent unfolding eid_inv_def Let_def d by simp
qed

lemma push_busy:
  assumes inv: "eid_inv ph d v" and q: "v_queue v \<noteq> []" and ph: "ph \<noteq> Undispatched" and m: "5 \<le> length msg"
  shows "eid_inv ph d (v_push msg cb v)"
proof -
  have d: "d < length (v_subs v)" using queue_length [OF inv] q by (cases "v_queue v") auto
  have z: "Suc 0 - length (v_queue v) = 0" using q by (cases "v_queue v") auto
  show ?thesis
    using inv m q d ph unfolding eid_inv_def Let_def
    by (cases ph) (simp_all add: z)
qed

lemma answer_waiting:
  assumes inv: "eid_inv Ready d v"
  shows "eid_inv Completing d (v_answer ec buf v)"
proof -
  from inv have q: "v_queue v \<noteq> []" by (simp add: eid_inv_def Let_def)
  have d: "d < length (v_subs v)" using queue_length [OF inv] q by (cases "v_queue v") auto
  have "map callback (v_queue v) = map snd (drop d (v_subs v))" using inv by (simp add: eid_inv_def Let_def)
  then have "callback (hd (v_queue v)) = snd (v_subs v ! d)"
    using q d by (cases "v_queue v") (auto simp flip: Cons_nth_drop_Suc)
  with inv q d show ?thesis
    unfolding eid_inv_def Let_def by (simp add: take_Suc_conv_app_nth)
qed

lemma pop_completing:
  assumes inv: "eid_inv Completing d v"
  shows "eid_inv Undispatched (Suc d) (v_pop v)"
proof -
  from inv have q: "v_queue v \<noteq> []" by (simp add: eid_inv_def Let_def)
  have d: "d < length (v_subs v)" using queue_length [OF inv] q by (cases "v_queue v") auto
  have "map callback (v_queue v) = map snd (drop d (v_subs v))"
    and "map reqMsg (drop 1 (v_queue v)) = map fst (drop (d + 1) (v_subs v))"
    using inv by (simp_all add: eid_inv_def Let_def)
  then have "map callback (tl (v_queue v)) = map snd (drop (Suc d) (v_subs v))"
    and "map reqMsg (tl (v_queue v)) = map fst (drop (Suc d) (v_subs v))"
    by (metis drop_Suc tl_drop map_tl) (use \<open>map reqMsg _ = _\<close> in \<open>simp add: drop_Suc\<close>)
  with inv d show ?thesis
    unfolding eid_inv_def Let_def by simp
qed

lemma dispatch_undispatched:
  assumes inv: "eid_inv Undispatched d v"
  shows "eid_inv Stable d (v_dispatch v)"
proof (cases "v_queue v")
  case Nil
  then have "d = length (v_subs v)" using queue_length [OF inv] inv by (simp add: eid_inv_def Let_def)
  with Nil inv show ?thesis
    unfolding eid_inv_def Let_def v_dispatch_def by (simp add: zip_append2)
next
  case (Cons req rest)
  then obtain ctx where ctx: "v_ctx v = Some ctx" "ctx_queue ctx = req # rest"
    by (auto simp: v_queue_def split: option.splits)
  have d: "d < length (v_subs v)" using queue_length [OF inv] Cons by simp
  have q: "map callback (req # rest) = map snd (drop d (v_subs v))"
    "map reqMsg (req # rest) = map fst (drop d (v_subs v))"
    using inv Cons by (simp_all add: eid_inv_def Let_def)
  then have rest: "map reqMsg rest = map fst (drop (Suc d) (v_subs v))" "reqMsg req = fst (v_subs v ! d)"
    using d by (auto simp flip: Cons_nth_drop_Suc)
  have sent: "v_sent v = map2 stamp (map fst (take d (v_subs v))) [0..<d]"
    using inv by (simp add: eid_inv_def Let_def)
  then have len: "length (v_sent v) = d" using d by simp
  let ?v = "v_dispatch v"
  have v: "v_queue ?v = req\<lparr>reqMsg := stamp (reqMsg req) d\<rparr> # rest" "v_subs ?v = v_subs v"
    "v_sent ?v = v_sent v @ [stamp (reqMsg req) d]" "v_answers ?v = v_answers v"
    "v_sends ?v = Suc (v_sends v)" "v_iid ?v = word_of_nat (d mod 32)" "v_armed ?v = v_armed v"
    "v_ctx ?v = Some (ctx\<lparr>ctx_iid := word_of_nat (d mod 32), ctx_queue := req\<lparr>reqMsg := stamp (reqMsg req) d\<rparr> # rest\<rparr>)"
    using ctx by (simp_all add: v_dispatch_def Cons Let_def v_queue_def v_iid_def v_armed_def len)
  have "v_sent ?v = map2 stamp (map fst (take (d + 1) (v_subs v))) [0..<d + 1]"
    using d sent rest(2) by (simp add: v(3) take_Suc_conv_app_nth)
  then show ?thesis
    using inv q rest d len v unfolding eid_inv_def Let_def by (simp add: next_ctx_iid_def)
qed

section \<open>The operations on the views\<close>

lemma view_push:
  "view (push_request eid msg cb s) e = (if e = eid then v_push msg cb (view s e) else view s e)"
  by (auto simp: view_def v_push_def push_request_def Let_def v_queue_def fresh_context_def split: option.splits)

lemma view_answer:
  "view ((cancel_timer eid s)\<lparr>calls := calls (cancel_timer eid s) @ [(eid, callback (hd (queue_of s eid)), ec, buf)]\<rparr>) e
     = (if e = eid then v_answer ec buf (view s e) else view s e)"
  by (auto simp: view_def v_answer_def cancel_timer_def update_context_def v_queue_def queue_of_def)

lemma view_pop: "view (pop_front eid s) e = (if e = eid then v_pop (view s e) else view s e)"
  by (auto simp: view_def v_pop_def pop_front_def update_context_def)

lemma view_startReceive [simp]: "view (startReceive s) e = view s e"
  by (simp add: view_def startReceive_def)

lemma processQueue_dispatch:
  assumes inv: "eid_inv Undispatched d (view s eid)"
  shows "view (processQueue (Suc n) react eid s) e = (if e = eid then v_dispatch (view s e) else view s e)"
    and "status (processQueue (Suc n) react eid s) = status s"
    and "receives (processQueue (Suc n) react eid s) = receives s"
proof -
  have "view (processQueue (Suc n) react eid s) e = (if e = eid then v_dispatch (view s e) else view s e) \<and>
    status (processQueue (Suc n) react eid s) = status s \<and>
    receives (processQueue (Suc n) react eid s) = receives s"
  proof (cases "queue_of s eid")
    case Nil
    then have "processQueue (Suc n) react eid s = s"
      by (auto simp: queue_of_def split: option.splits)
    with Nil show ?thesis by (simp add: v_dispatch_def)
  next
    case (Cons req rest)
    then obtain ctx where ctx: "contexts s eid = Some ctx" "ctx_queue ctx = req # rest"
      using queue_of_Cons by blast
    have len: "length (reqMsg req) \<ge> 5" and iid: "ctx_iid ctx = next_ctx_iid (length (v_sent (view s eid)))"
    proof -
      have "reqMsg req \<in> set (map fst (drop d (v_subs (view s eid))))"
      proof -
        have "map fst (drop d (v_subs (view s eid))) = map reqMsg (queue_of s eid)"
          using inv by (simp add: eid_inv_def Let_def)
        then show ?thesis by (simp add: Cons)
      qed
      then have "reqMsg req \<in> fst ` set (v_subs (view s eid))" by (auto dest: in_set_dropD)
      then show "length (reqMsg req) \<ge> 5" using inv by (auto simp: eid_inv_def Let_def)
      show "ctx_iid ctx = next_ctx_iid (length (v_sent (view s eid)))"
        using inv ctx by (simp add: eid_inv_def Let_def v_iid_def) (simp add: view_def)
    qed
    let ?k = "length (v_sent (view s eid))"
    have nxt: "(ctx_iid ctx + 1) AND instanceIdBitMask = word_of_nat (?k mod 32)"
      by (simp add: iid next_iid)
    have run: "processQueue (Suc n) react eid s = async_send eid (stamp (reqMsg req) ?k)
      (set_front_msg eid (stamp (reqMsg req) ?k)
        (update_context eid (ctx_iid_update (\<lambda>_. word_of_nat (?k mod 32))) s))"
      using ctx by (simp add: getNextIid_def Let_def nxt injectIid_stamp [OF len] del: instanceIdBitMask_def)
    show ?thesis
      unfolding run using ctx Cons
      by (auto simp: view_def v_dispatch_def v_queue_def async_send_def set_front_msg_def update_context_def Let_def)
  qed
  then show "view (processQueue (Suc n) react eid s) e = (if e = eid then v_dispatch (view s e) else view s e)"
    and "status (processQueue (Suc n) react eid s) = status s"
    and "receives (processQueue (Suc n) react eid s) = receives s"
    by blast+
qed
section \<open>The invariant of the whole requester\<close>

declare processQueue.simps [simp del] handleResult.simps [simp del] sendRecvMsg.simps [simp del]

definition state_inv :: "(u8 \<Rightarrow> phase) \<Rightarrow> 'c requester \<Rightarrow> bool" where
  "state_inv ph s \<longleftrightarrow> (\<forall>e. \<exists>d. eid_inv (ph e) d (view s e))"

definition wellsized :: "'c react \<Rightarrow> bool" where
  "wellsized react \<longleftrightarrow> (\<forall>cb ec buf. \<forall>(e, m, c) \<in> set (react cb ec buf). messageHeaderSize \<le> length m)"

lemma handleResult_unknown:
  "contexts s eid = None \<Longrightarrow> handleResult (Suc n) react eid ec buf s = startReceive s"
  by (simp add: handleResult.simps)

lemma sendRecvMsg_inv:
  assumes inv: "state_inv ph s" and run: "status s = Running" and ph: "\<And>e. ph e \<noteq> Undispatched"
    and m: "5 \<le> length msg"
  shows "state_inv ph (sendRecvMsg (Suc (Suc n)) react eid msg cb s) \<and>
    status (sendRecvMsg (Suc (Suc n)) react eid msg cb s) = Running \<and>
    receives (sendRecvMsg (Suc (Suc n)) react eid msg cb s) = receives s"
proof -
  let ?s = "push_request eid msg cb s"
  have rc: "receives ?s = receives s" by (simp add: push_request_def Let_def)
  obtain d where d: "eid_inv (ph eid) d (view s eid)" using inv by (auto simp: state_inv_def)
  show ?thesis
  proof (cases "queue_of s eid = []")
    case True
    then have "ph eid = Stable" using d ph [of eid] by (cases "ph eid") (auto simp: eid_inv_def Let_def)
    then have "eid_inv Undispatched d (view ?s eid)"
      using push_idle [of d "view s eid"] d True m by (simp add: view_push)
    note P = processQueue_dispatch [OF this, where n = n and react = react]
    have "state_inv ph (processQueue (Suc n) react eid ?s)"
      unfolding state_inv_def
    proof
      fix e
      show "\<exists>d. eid_inv (ph e) d (view (processQueue (Suc n) react eid ?s) e)"
      proof (cases "e = eid")
        case True
        then show ?thesis
          using P(1) dispatch_undispatched [OF \<open>eid_inv Undispatched d (view ?s eid)\<close>] \<open>ph eid = Stable\<close> by auto
      next
        case False
        then show ?thesis using P(1) inv by (simp add: view_push state_inv_def)
      qed
    qed
    with P rc run True show ?thesis by (simp add: sendRecvMsg_unfold)
  next
    case False
    have "state_inv ph ?s"
      unfolding state_inv_def
    proof
      fix e
      show "\<exists>d. eid_inv (ph e) d (view ?s e)"
        using push_busy [OF d _ ph m] False inv by (auto simp: view_push state_inv_def)
    qed
    with False run rc show ?thesis by (simp add: sendRecvMsg_unfold)
  qed
qed

lemma sends_inv:
  "state_inv ph s \<Longrightarrow> status s = Running \<Longrightarrow> (\<And>e. ph e \<noteq> Undispatched) \<Longrightarrow>
   \<forall>(e, m, c) \<in> set xs. 5 \<le> length m \<Longrightarrow>
   state_inv ph (fold (\<lambda>(e, m, c). sendRecvMsg (Suc (Suc n)) react e m c) xs s) \<and>
   status (fold (\<lambda>(e, m, c). sendRecvMsg (Suc (Suc n)) react e m c) xs s) = Running \<and>
   receives (fold (\<lambda>(e, m, c). sendRecvMsg (Suc (Suc n)) react e m c) xs s) = receives s"
proof (induction xs arbitrary: s)
  case Nil
  then show ?case by simp
next
  case (Cons x xs)
  obtain e m c where x: "x = (e, m, c)" by (cases x)
  have "5 \<le> length m" using Cons.prems(4) by (simp add: x)
  from sendRecvMsg_inv [OF Cons.prems(1,2,3) this, of n react e c] Cons.IH Cons.prems(3,4)
  show ?case by (simp add: x)
qed

lemma handleResult_inv:
  assumes inv: "state_inv ((\<lambda>_. Stable)(eid := Ready)) s" and run: "status s = Running" and w: "wellsized react"
    and s'_def: "s' = handleResult (Suc (Suc (Suc n))) react eid ec buf s"
  shows "if isFatalError ec then status s' = FatalError eid (the ec)
    else status s' = Running \<and> state_inv (\<lambda>_. Stable) s' \<and> receives s' = receives s + 1"
proof -
  obtain d0 where d0: "eid_inv Ready d0 (view s eid)"
    using inv by (auto simp: state_inv_def dest: spec [of _ eid])
  then have q: "queue_of s eid \<noteq> []" by (simp add: eid_inv_def Let_def)
  obtain ctx req rest where ctx: "contexts s eid = Some ctx" "ctx_queue ctx = req # rest"
    using q queue_of_Cons [of s eid] by (cases "queue_of s eid") auto
  then have hd: "callback req = callback (hd (queue_of s eid))" by (simp add: queue_of_def)
  let ?s1 = "(cancel_timer eid s)\<lparr>calls := calls (cancel_timer eid s) @ [(eid, callback req, ec, buf)]\<rparr>"
  let ?ph = "(\<lambda>_. Stable)(eid := Completing)"
  have s1: "state_inv ?ph ?s1"
    unfolding state_inv_def
  proof
    fix e
    show "\<exists>d. eid_inv (?ph e) d (view ?s1 e)"
    proof (cases "e = eid")
      case True
      have "eid_inv Completing d0 (v_answer ec buf (view s eid))" by (rule answer_waiting [OF d0])
      then show ?thesis unfolding hd view_answer using True by auto
    next
      case False
      have "\<exists>d. eid_inv (((\<lambda>_. Stable)(eid := Ready)) e) d (view s e)"
        using inv unfolding state_inv_def by (rule spec)
      with False show ?thesis unfolding hd view_answer by simp
    qed
  qed
  have small: "\<forall>(e, m, c) \<in> set (react (callback req) ec buf). 5 \<le> length m"
    using w by (auto simp: wellsized_def)
  have r1: "receives ?s1 = receives s" by (simp add: cancel_timer_def update_context_def)
  let ?s2 = "fold (\<lambda>(e, m, c). sendRecvMsg (Suc (Suc n)) react e m c) (react (callback req) ec buf) ?s1"
  have S2: "state_inv ?ph ?s2" "status ?s2 = Running" "receives ?s2 = receives s"
    using sends_inv [OF s1 _ _ small, of n react] run r1 by auto
  let ?s3 = "pop_front eid (startReceive ?s2)"
  obtain d where "eid_inv Completing d (view ?s2 eid)" using S2(1) by (auto simp: state_inv_def dest: spec [of _ eid])
  then have s3: "eid_inv Undispatched (Suc d) (view ?s3 eid)" by (simp add: view_pop pop_completing)
  note P = processQueue_dispatch [OF this, where n = "Suc n" and react = react]
  have r3: "receives ?s3 = receives s + 1"
    using S2(3) by (simp add: pop_front_def update_context_def startReceive_def)
  have "state_inv (\<lambda>_. Stable) (processQueue (Suc (Suc n)) react eid ?s3)"
    unfolding state_inv_def
  proof
    fix e
    show "\<exists>d. eid_inv Stable d (view (processQueue (Suc (Suc n)) react eid ?s3) e)"
    proof (cases "e = eid")
      case True
      then show ?thesis using P(1) dispatch_undispatched [OF s3] by auto
    next
      case False
      have "\<exists>d. eid_inv (?ph e) d (view ?s2 e)"
        using S2(1) unfolding state_inv_def by (rule spec)
      then obtain d' where "eid_inv Stable d' (view ?s2 e)" using False by auto
      moreover have "view (processQueue (Suc (Suc n)) react eid ?s3) e = view ?s2 e"
        unfolding P(1) using False by (simp add: view_pop)
      ultimately show ?thesis by auto
    qed
  qed
  then show ?thesis
    using P(2,3) r3 S2(2) by (simp add: s'_def ctx Let_def handleResult.simps)
qed

section \<open>Events\<close>

text \<open>A datagram that reaches the request at the head of the queue of a known EID.\<close>

definition completes :: "'c requester \<Rightarrow> u8 \<Rightarrow> net_error option \<Rightarrow> bytes \<Rightarrow> bool" where
  "completes s eid ec buf \<longleftrightarrow>
     (case contexts s eid of None \<Rightarrow> False
      | Some ctx \<Rightarrow> ec \<noteq> None \<or>
          getIid buf = Some (ctx_iid ctx) \<and> getRequestBit buf = Some False \<and> getDatagramBit buf = Some False)"

fun expected :: "'c req_event \<Rightarrow> 'c requester \<Rightarrow> bool" where
  "expected (Submit eid msg cb) s = (messageHeaderSize \<le> length msg)"
| "expected (SendDone eid ec) s = True"
| "expected (Received ep ec buf) s =
     (case ep of EndpointTooSmall \<Rightarrow> True
      | Endpoint eid t \<Rightarrow> t = messageType \<longrightarrow> completes s eid ec buf \<longrightarrow> armed s eid)"
| "expected (TimerExpired eid) s = True"

inductive expected_step :: "'c react \<Rightarrow> 'c requester \<Rightarrow> 'c requester \<Rightarrow> bool" for react where
  expected_step_event:
    "wellsized react \<Longrightarrow> enabled ev s \<Longrightarrow> expected ev s \<Longrightarrow> expected_step react s (handle react ev s)"

definition req_inv :: "'c requester \<Rightarrow> bool" where
  "req_inv s \<longleftrightarrow>
     (status s = Running \<and> state_inv (\<lambda>_. Stable) s) \<or> (\<exists>e err. status s = FatalError e err)"

lemma handleResult_req_inv:
  assumes "state_inv ((\<lambda>_. Stable)(eid := Ready)) s" and "status s = Running" and "wellsized react"
  shows "req_inv (handleResult call_depth react eid ec buf s)"
proof -
  have "call_depth = Suc (Suc (Suc 1021))" by (simp add: call_depth_def)
  with handleResult_inv [OF assms refl, of ec 1021 buf] show ?thesis
    by (auto simp: req_inv_def split: if_splits)
qed

lemma state_inv_ready:
  assumes inv: "state_inv (\<lambda>_. Stable) s" and other: "\<And>e. e \<noteq> eid \<Longrightarrow> view s' e = view s e"
    and ready: "\<And>d. eid_inv Stable d (view s eid) \<Longrightarrow> eid_inv Ready d (view s' eid)"
  shows "state_inv ((\<lambda>_. Stable)(eid := Ready)) s'"
  unfolding state_inv_def
proof
  fix e
  obtain d where d: "eid_inv Stable d (view s e)" using inv by (auto simp: state_inv_def)
  show "\<exists>d. eid_inv (((\<lambda>_. Stable)(eid := Ready)) e) d (view s' e)"
    using d other [of e] ready [of d] by (cases "e = eid") auto
qed

lemma processRecvMsg_cases:
  "processRecvMsg react ep ec buf s =
     (case ep of
        EndpointTooSmall \<Rightarrow> s
      | Endpoint eid t \<Rightarrow>
          if t \<noteq> messageType then s
          else if completes s eid ec buf \<or> ec \<noteq> None
            then handleResult call_depth react eid ec (if ec = None then buf else []) s
          else if getRequestBit buf = Some True \<and> getDatagramBit buf = Some True
            then startReceive (s\<lparr>handled_events := handled_events s @ [(eid, buf)]\<rparr>)
          else s)"
  by (cases ep; cases ec; cases "length buf < messageHeaderSize")
    (auto simp: processRecvMsg_def completes_def getIid_def getRequestBit_def getDatagramBit_def
      simp del: messageHeaderSize_def split: option.splits)

lemma view_frame [simp]:
  "view (s\<lparr>receives := r\<rparr>) e = view s e" "view (s\<lparr>handled_events := h\<rparr>) e = view s e"
  by (simp_all add: view_def)

lemma state_inv_frame [simp]:
  "state_inv ph (s\<lparr>receives := r\<rparr>) = state_inv ph s" "state_inv ph (s\<lparr>handled_events := h\<rparr>) = state_inv ph s"
  "state_inv ph (startReceive s) = state_inv ph s"
  by (simp_all add: state_inv_def)

lemma stable_armed: "eid_inv Stable d v \<Longrightarrow> v_armed v \<Longrightarrow> eid_inv Ready d v"
  by (auto simp: eid_inv_def Let_def split: if_splits)

lemma received_inv:
  assumes "state_inv (\<lambda>_. Stable) s" and "status s = Running" and "wellsized react"
    and "expected (Received ep ec buf) s"
  shows "req_inv (processRecvMsg react ep ec buf s)"
proof -
  have h: "req_inv (handleResult call_depth react eid ec b s)"
    if e: "ep = Endpoint eid messageType" and c: "completes s eid ec buf \<or> ec \<noteq> None" for eid b
  proof (cases "contexts s eid")
    case None
    have "call_depth = Suc 1023" by (simp add: call_depth_def)
    have "handleResult call_depth react eid ec b s = startReceive s"
      unfolding \<open>call_depth = Suc 1023\<close> by (rule handleResult_unknown [OF None])
    with assms(1,2) show ?thesis by (simp add: req_inv_def)
  next
    case (Some ctx)
    then have "completes s eid ec buf" using c by (auto simp: completes_def)
    then have "armed s eid" using assms(4) e by simp
    then have "state_inv ((\<lambda>_. Stable)(eid := Ready)) s"
      by (intro state_inv_ready [OF assms(1)] stable_armed) simp_all
    then show ?thesis using assms(2,3) by (rule handleResult_req_inv)
  qed
  show ?thesis
    using assms(1,2) h unfolding processRecvMsg_cases
    by (auto simp: req_inv_def [of s] req_inv_def [of "startReceive _"] simp del: messageType_def split: endpoint.split)
qed

lemma view_update:
  "view (update_context eid f s) e =
     (if e = eid then (view s e)\<lparr>v_ctx := map_option f (v_ctx (view s e))\<rparr> else view s e)"
  by (simp add: view_def update_context_def)

lemma view_sends:
  "view (s\<lparr>sends := remove1 eid (sends s)\<rparr>) e =
     (if e = eid then (view s e)\<lparr>v_sends := v_sends (view s e) - 1\<rparr> else view s e)"
  by (simp add: view_def count_list_remove1)

lemma sends_count: "eid \<in> set (sends s) \<Longrightarrow> v_sends (view s eid) > 0"
  by (simp add: view_def count_list_0_iff flip: neq0_conv)

lemma handle_req_inv:
  assumes w: "wellsized react" and en: "enabled ev s" and ex: "expected ev s" and inv: "req_inv s"
  shows "req_inv (handle react ev s)"
proof -
  from en have run: "status s = Running" by (cases ev) simp_all
  with inv have stable: "state_inv (\<lambda>_. Stable) s" by (auto simp: req_inv_def)
  show ?thesis
  proof (cases ev)
    case (Submit eid msg cb)
    have "call_depth = Suc (Suc 1022)" by (simp add: call_depth_def)
    then show ?thesis
      using sendRecvMsg_inv [OF stable run, of msg 1022 react eid cb] ex Submit by (simp add: req_inv_def)
  next
    case (SendDone eid ec)
    let ?s = "s\<lparr>sends := remove1 eid (sends s)\<rparr>"
    have pos: "v_sends (view s eid) > 0" by (rule sends_count) (use en SendDone in simp)
    show ?thesis
    proof (cases ec)
      case (Some e)
      have "state_inv ((\<lambda>_. Stable)(eid := Ready)) ?s"
        by (rule state_inv_ready [OF stable])
          (use pos in \<open>auto simp: view_sends eid_inv_def Let_def v_queue_def v_armed_def v_iid_def split: if_splits\<close>)
      then show ?thesis
        using handleResult_req_inv [OF _ _ w] run by (simp add: SendDone handleSendMsgCompletion_def Some)
    next
      case None
      obtain d where d: "eid_inv Stable d (view s eid)" using stable by (auto simp: state_inv_def)
      have "v_ctx (view s eid) \<noteq> None"
        using d pos by (auto simp: eid_inv_def Let_def v_queue_def split: if_splits)
      then obtain ctx where ctx: "contexts s eid = Some ctx" by (auto simp: view_def)
      let ?t = "update_context eid (ctx_armed_update (\<lambda>_. True)) ?s"
      have "eid_inv Stable d (view ?t eid)"
        using d pos ctx
        by (auto simp: view_update view_sends eid_inv_def Let_def v_queue_def v_armed_def v_iid_def split: if_splits option.splits)
      then have "state_inv (\<lambda>_. Stable) ?t"
        using stable by (auto simp: state_inv_def view_update view_sends)
      with ctx run show ?thesis
        by (simp add: SendDone handleSendMsgCompletion_def None req_inv_def)
    qed
  next
    case (Received ep ec buf)
    let ?s = "s\<lparr>receives := receives s - 1\<rparr>"
    have frame: "completes ?s e c b = completes s e c b" "armed ?s e = armed s e" for e c b
      by (simp_all add: completes_def armed_def)
    have "expected (Received ep ec buf) ?s"
      using ex Received by (simp only: expected.simps frame)
    then have "req_inv (processRecvMsg react ep ec buf ?s)"
      using stable run w by (intro received_inv) simp_all
    then show ?thesis by (simp add: Received)
  next
    case (TimerExpired eid)
    let ?s = "update_context eid (ctx_armed_update (\<lambda>_. False)) s"
    have a: "v_armed (view s eid)" using en TimerExpired by simp
    have "state_inv ((\<lambda>_. Stable)(eid := Ready)) ?s"
      by (rule state_inv_ready [OF stable])
        (use a in \<open>auto simp: view_update eid_inv_def Let_def v_queue_def v_armed_def v_iid_def
          split: if_splits option.splits\<close>)
    then show ?thesis
      using handleResult_req_inv [OF _ _ w] run by (simp add: TimerExpired timer_expired_def)
  qed
qed

lemma new_requester_inv: "req_inv new_requester"
  by (simp add: req_inv_def state_inv_def eid_inv_def Let_def new_requester_def startReceive_def view_def
      v_queue_def v_armed_def v_iid_def next_ctx_iid_def)

interpretation requests: invariant_system "\<lambda>s. s = new_requester" "expected_step react" req_inv for react
  by unfold_locales (auto simp: new_requester_inv elim: expected_step.cases intro: handle_req_inv)
section \<open>Properties\<close>

interpretation stack: invariant_system "\<lambda>s. s = new_requester" "req_step react" in_fuel for react
  by unfold_locales
    (auto simp: in_fuel_def new_requester_def startReceive_def elim!: req_step.cases
      dest: handle_fuel [unfolded in_fuel_def])

text \<open>Each EID's queue is a first-in first-out service: accepted are the submitted requests, begun the answered ones.\<close>

interpretation request_fifo: fifo_service "\<lambda>s. status s = Running \<and> req_inv s"
  "\<lambda>s. map snd (for_eid eid (submitted s))" "\<lambda>s. map fst (for_eid eid (calls s))"
  "\<lambda>s. map callback (queue_of s eid)" for eid
proof
  fix s :: "'c requester"
  assume "status s = Running \<and> req_inv s"
  then obtain d where "eid_inv Stable d (view s eid)" by (auto simp: req_inv_def state_inv_def)
  then have "map fst (for_eid eid (calls s)) = map snd (take d (for_eid eid (submitted s)))"
    and "map callback (queue_of s eid) = map snd (drop d (for_eid eid (submitted s)))"
    by (simp_all add: eid_inv_def Let_def, simp_all add: view_def)
  then show "map snd (for_eid eid (submitted s)) = map fst (for_eid eid (calls s)) @ map callback (queue_of s eid)"
    by (simp flip: map_append)
qed

abbreviation run_of :: "'c react \<Rightarrow> 'c requester \<Rightarrow> bool" where
  "run_of react \<equiv> reach (\<lambda>s. s = new_requester) (req_step react)"

abbreviation expected_run_of :: "'c react \<Rightarrow> 'c requester \<Rightarrow> bool" where
  "expected_run_of react \<equiv> reach (\<lambda>s. s = new_requester) (expected_step react)"

text \<open>A run used by the witnesses: two requests to EID 8, the first one sent and answered, the second in flight.\<close>

definition quiet :: "nat react" where
  "quiet = (\<lambda>_ _ _. [])"

definition demo_run :: "nat req_event list" where
  "demo_run = [Submit 8 [0x10, 0xDE, 0x80, 0x89, 1, 2, 0] 1, Submit 8 [0x10, 0xDE, 0x80, 0x89, 3, 2, 0] 2,
     SendDone 8 None, Received (Endpoint 8 0x7E) None [0x10, 0xDE, 0, 0x89, 1, 2, 0]]"

fun run_events :: "'c react \<Rightarrow> 'c req_event list \<Rightarrow> 'c requester \<Rightarrow> 'c requester" where
  "run_events react [] s = s"
| "run_events react (ev # evs) s = run_events react evs (handle react ev s)"

fun all_enabled :: "'c react \<Rightarrow> ('c req_event \<Rightarrow> 'c requester \<Rightarrow> bool) \<Rightarrow> 'c req_event list \<Rightarrow> 'c requester \<Rightarrow> bool" where
  "all_enabled react ok [] s = True"
| "all_enabled react ok (ev # evs) s =
     (enabled ev s \<and> ok ev s \<and> all_enabled react ok evs (handle react ev s))"

lemma run_events_reach:
  "run_of react s \<Longrightarrow> all_enabled react (\<lambda>_ _. True) evs s \<Longrightarrow> run_of react (run_events react evs s)"
  by (induction evs arbitrary: s) (auto intro: reach_step req_step_event)

lemma run_events_expected:
  "wellsized react \<Longrightarrow> expected_run_of react s \<Longrightarrow> all_enabled react expected evs s \<Longrightarrow>
     expected_run_of react (run_events react evs s)"
  by (induction evs arbitrary: s) (auto intro: reach_step expected_step_event)

lemma quiet_wellsized: "wellsized quiet"
  by (simp add: wellsized_def quiet_def)

lemma demo_run_reachable: "run_of quiet (run_events quiet demo_run new_requester)"
  by (rule run_events_reach, rule reach_init, rule refl, code_simp)

lemma demo_run_expected: "expected_run_of quiet (run_events quiet demo_run new_requester)"
  by (rule run_events_expected [OF quiet_wellsized], rule reach_init, rule refl, code_simp)

text \<open>C12: the mutual recursion of \<open>sendRecvMsg\<close>, \<open>processQueue\<close> and \<open>handleResult\<close> through the client
  callbacks is bounded, whatever the clients submit and in whatever order the event loop delivers
  events: \<open>call_depth\<close> nested calls are never exhausted.\<close>

theorem call_stack_bounded:
  assumes "run_of react s"
  shows "status s \<noteq> OutOfFuel"
  using stack.reach_inv [OF assms] by (simp add: in_fuel_def)

lemma call_stack_bounded_witness: "status (run_events quiet demo_run new_requester) \<noteq> OutOfFuel"
  by (rule call_stack_bounded [OF demo_run_reachable])

text \<open>C3: as long as requests hold a message header and a response (or receive error) of an EID arrives
  only while that EID awaits one, the daemon never reads the front of an empty queue, and every EID has
  at most one operation in flight: none when its queue is empty, otherwise exactly one of an outstanding
  send and an armed response timer.\<close>

theorem one_request_in_flight:
  assumes "expected_run_of react s"
  shows "(status s = Running \<or> (\<exists>e err. status s = FatalError e err)) \<and>
    (status s = Running \<longrightarrow>
       count_list (sends s) eid + (if armed s eid then 1 else 0) = (if queue_of s eid = [] then 0 else 1))"
proof -
  have inv: "req_inv s" by (rule requests.reach_inv [OF assms])
  moreover have "count_list (sends s) eid + (if armed s eid then 1 else 0) = (if queue_of s eid = [] then 0 else 1)"
    if "status s = Running"
  proof -
    from inv that obtain d where "eid_inv Stable d (view s eid)" by (auto simp: req_inv_def state_inv_def)
    then show ?thesis
      unfolding eid_inv_def Let_def v_queue_view v_armed_view by (auto simp: view_def split: if_splits)
  qed
  ultimately show ?thesis by (auto simp: req_inv_def)
qed

lemma one_request_in_flight_witness:
  "let s = run_events quiet demo_run new_requester in
   status s = Running \<and> queue_of s 8 \<noteq> [] \<and> count_list (sends s) 8 + (if armed s 8 then 1 else 0) = 1"
proof -
  let ?s = "run_events quiet demo_run new_requester"
  have "status ?s = Running" "queue_of ?s 8 \<noteq> []" by code_simp+
  then show ?thesis
    using one_request_in_flight [OF demo_run_expected, of 8] unfolding Let_def by simp
qed

text \<open>C1: per EID, requests are transmitted and answered in the order they were submitted: with \<open>d\<close>
  requests answered, their callbacks were called in submission order, once each; the queue holds the
  remaining ones in order; and what was handed to the socket is the first \<open>d + 1\<close> requests (all of them
  when none is waiting) with instance identifiers \<open>0, 1, ..., 31, 0, ...\<close> written into the low five bits
  of byte 2 and nothing else changed.\<close>

theorem requests_in_order:
  assumes "expected_run_of react s" and "status s = Running"
  shows "\<exists>d \<le> length (for_eid eid (submitted s)).
    map fst (for_eid eid (calls s)) = map snd (take d (for_eid eid (submitted s))) \<and>
    map callback (queue_of s eid) = map snd (drop d (for_eid eid (submitted s))) \<and>
    for_eid eid (transmitted s) = map2 stamp (map fst (take (d + 1) (for_eid eid (submitted s)))) [0..<d + 1]"
proof -
  have "req_inv s" by (rule requests.reach_inv [OF assms(1)])
  with assms(2) obtain d where "eid_inv Stable d (view s eid)" by (auto simp: req_inv_def state_inv_def)
  then show ?thesis by (intro exI [of _ d]) (simp add: eid_inv_def Let_def, simp add: view_def)
qed

lemma requests_in_order_witness:
  "let s = run_events quiet demo_run new_requester in
   \<exists>d \<le> length (for_eid 8 (submitted s)).
    map fst (for_eid 8 (calls s)) = map snd (take d (for_eid 8 (submitted s))) \<and>
    map callback (queue_of s 8) = map snd (drop d (for_eid 8 (submitted s))) \<and>
    for_eid 8 (transmitted s) = map2 stamp (map fst (take (d + 1) (for_eid 8 (submitted s)))) [0..<d + 1]"
  unfolding Let_def by (rule requests_in_order [OF demo_run_expected]) code_simp

text \<open>No request is forgotten and none is answered twice: of every callback submitted to an EID, the
  number of answers and the number still waiting add up to the number of submissions, and an EID with an
  empty queue has answered every request it was given, in order.\<close>

lemma every_request_answered_once:
  assumes "expected_run_of react s" and "status s = Running"
  shows "count_list (map fst (for_eid eid (calls s))) cb + count_list (map callback (queue_of s eid)) cb =
      count_list (map snd (for_eid eid (submitted s))) cb \<and>
    (queue_of s eid = [] \<longrightarrow> map fst (for_eid eid (calls s)) = map snd (for_eid eid (submitted s)))"
proof -
  have ok: "status s = Running \<and> req_inv s"
    using requests.reach_inv [OF assms(1)] assms(2) by simp
  from request_fifo.never_twice [OF ok] request_fifo.drained [OF ok] show ?thesis by simp
qed

lemma every_request_answered_once_witness:
  "let s = run_events quiet demo_run new_requester in
   count_list (map fst (for_eid 8 (calls s))) 1 + count_list (map callback (queue_of s 8)) 1 =
      count_list (map snd (for_eid 8 (submitted s))) 1 \<and>
    queue_of s 9 = [] \<and> map fst (for_eid 9 (calls s)) = map snd (for_eid 9 (submitted s))"
proof -
  let ?s = "run_events quiet demo_run new_requester"
  have run: "status ?s = Running" by code_simp
  have "queue_of ?s 9 = []" by code_simp
  then show ?thesis
    using every_request_answered_once [OF demo_run_expected run, of 8 1]
      every_request_answered_once [OF demo_run_expected run, of 9]
    unfolding Let_def by blast
qed

text \<open>Outside that condition the scheduler is not safe. After a request has timed out and its queue
  is empty the stored instance identifier is still that of the timed-out request, so a late response to it
  matches, and \<open>handleResult\<close> takes the front of an empty queue; a duplicated response does the same.\<close>

lemma late_response_reads_empty_queue:
  "\<exists>s. run_of quiet s \<and> status s = FrontOfEmptyQueue 8 \<and>
     map fst (for_eid 8 (calls s)) = [1]"
proof -
  let ?evs = "[Submit 8 [0x10, 0xDE, 0x80, 0x89, 1, 2, 0] (1 :: nat), SendDone 8 None, TimerExpired 8,
    Received (Endpoint 8 0x7E) None [0x10, 0xDE, 0, 0x89, 1, 2, 0]]"
  have "run_of quiet (run_events quiet ?evs new_requester)"
    by (rule run_events_reach, rule reach_init, rule refl, code_simp)
  moreover have "status (run_events quiet ?evs new_requester) = FrontOfEmptyQueue 8" by code_simp
  moreover have "map fst (for_eid 8 (calls (run_events quiet ?evs new_requester))) = [1]"
    by code_simp
  ultimately show ?thesis by (intro exI conjI)
qed

text \<open>Which received datagrams complete a request. A datagram from a well-formed endpoint of the
  right message type completes the head request of its EID exactly when it is a receive error or a
  response (request and datagram bits clear) carrying the identifier last sent to that EID; an event
  (both bits set) is handed to the event handlers and the receive restarted; every other datagram
  changes nothing, and in particular does not restart the receive.\<close>

lemma received_datagram_dispatch:
  "processRecvMsg react ep ec buf s =
     (case ep of
        EndpointTooSmall \<Rightarrow> s
      | Endpoint eid t \<Rightarrow>
          if t \<noteq> messageType then s
          else (case ec of
              Some e \<Rightarrow> handleResult call_depth react eid (Some e) [] s
            | None \<Rightarrow>
                if completes s eid None buf then handleResult call_depth react eid None buf s
                else if getRequestBit buf = Some True \<and> getDatagramBit buf = Some True
                  then startReceive (s\<lparr>handled_events := handled_events s @ [(eid, buf)]\<rparr>)
                else s))"
  unfolding processRecvMsg_cases by (cases ec) (auto split: endpoint.split)

text \<open>Accounting of the outstanding \<open>async_receive_from\<close> operations. A timeout and a failed send
  each start one more receive although none completed, so the number of receives armed on the one
  shared buffer grows with every timeout; a received datagram that completes nothing and is not an event
  ends a receive without starting another.\<close>

lemma timeout_adds_a_receive:
  assumes "expected_run_of react s" and "wellsized react" and "enabled (TimerExpired eid) s"
  shows "status (handle react (TimerExpired eid) s) = Running \<and>
    receives (handle react (TimerExpired eid) s) = receives s + 1"
proof -
  from assms(3) have run: "status s = Running" and a: "v_armed (view s eid)" by simp_all
  have "req_inv s" by (rule requests.reach_inv [OF assms(1)])
  with run have stable: "state_inv (\<lambda>_. Stable) s" by (auto simp: req_inv_def)
  let ?s = "update_context eid (ctx_armed_update (\<lambda>_. False)) s"
  have "state_inv ((\<lambda>_. Stable)(eid := Ready)) ?s"
    by (rule state_inv_ready [OF stable])
      (use a in \<open>auto simp: view_update eid_inv_def Let_def v_queue_def v_armed_def v_iid_def
        split: if_splits option.splits\<close>)
  moreover have "call_depth = Suc (Suc (Suc 1021))" by (simp add: call_depth_def)
  moreover have "receives ?s = receives s" by (simp add: update_context_def)
  ultimately show ?thesis
    using handleResult_inv [of eid ?s react, OF _ _ assms(2) refl, of "Some TimedOut" 1021 "[]"] run
    by (simp add: timer_expired_def)
qed

lemma timeout_adds_a_receive_witness:
  "let s = run_events quiet (demo_run @ [SendDone 8 None]) new_requester in
   status (handle quiet (TimerExpired 8) s) = Running \<and>
   receives (handle quiet (TimerExpired 8) s) = receives s + 1"
  unfolding Let_def
proof (rule timeout_adds_a_receive [OF _ quiet_wellsized])
  show "expected_run_of quiet (run_events quiet (demo_run @ [SendDone 8 None]) new_requester)"
    by (rule run_events_expected [OF quiet_wellsized], rule reach_init, rule refl, code_simp)
  show "enabled (TimerExpired 8) (run_events quiet (demo_run @ [SendDone 8 None]) new_requester)"
    by code_simp
qed

text \<open>A request too short for a message header, submitted to an idle EID, is answered at once with
  \<open>InvalidArgument\<close> and then ends the daemon: the error of the submitting client counts as fatal.\<close>

lemma short_request_is_fatal:
  assumes "status s = Running" and "queue_of s eid = []" and "length msg < messageHeaderSize"
    and "react cb (Some InvalidArgument) [] = []"
  shows "status (sendRecvMsg call_depth react eid msg cb s) = FatalError eid InvalidArgument \<and>
    calls (sendRecvMsg call_depth react eid msg cb s) = calls s @ [(eid, cb, Some InvalidArgument, [])] \<and>
    transmitted (sendRecvMsg call_depth react eid msg cb s) = transmitted s"
proof -
  have d: "call_depth = Suc (Suc (Suc 1021))" by (simp add: call_depth_def)
  let ?s = "push_request eid msg cb s"
  obtain ctx where ctx: "contexts ?s eid = Some ctx" "ctx_queue ctx = [\<lparr>reqMsg = msg, callback = cb\<rparr>]"
    using contexts_push [of eid msg cb s] assms(2) by simp
  have c: "calls ?s = calls s" "transmitted ?s = transmitted s" by (simp_all add: push_request_def Let_def)
  show ?thesis
    unfolding d sendRecvMsg_unfold using assms ctx c
    by (simp del: Suc_numeral add: processQueue.simps handleResult.simps getNextIid_def injectIid_def Let_def update_context_def
        cancel_timer_def)
qed

lemma short_request_is_fatal_witness:
  "status (sendRecvMsg call_depth quiet 9 [0x10, 0xDE] 5 new_requester) = FatalError 9 InvalidArgument \<and>
   calls (sendRecvMsg call_depth quiet 9 [0x10, 0xDE] 5 new_requester)
     = calls new_requester @ [(9, 5, Some InvalidArgument, [])] \<and>
   transmitted (sendRecvMsg call_depth quiet 9 [0x10, 0xDE] 5 new_requester) = transmitted (new_requester :: nat requester)"
  by (rule short_request_is_fatal; code_simp)

end
