(* ===== verification/Event_Reporting.thy ===== *)
theory Event_Reporting
  imports Gpu_Response_Specs
begin

text \<open>
  Event subscription and dispatch (\<open>NvidiaEventReporting.cpp\<close>): the per message type masks of event
  sources, the set-up exchange that subscribes and then enables the sources of one message type after
  another, and the dispatch of received events. Handlers are opaque values of type \<open>'h\<close>; the static
  handler table is the map argument \<open>eventHandlers\<close>. A method that may call
  \<open>requester.sendRecvMsg\<close> returns the request it sends, or \<open>None\<close>.
\<close>

definition messageTypeCount :: nat where "messageTypeCount = 6"

record 'h event_descriptor =
  ed_messageType :: message_type
  ed_eventCode :: u8
  ed_eventHandler :: 'h

definition buildEventSourceMasks :: "'h event_descriptor list \<Rightarrow> u64 list" where
  "buildEventSourceMasks events =
     fold (\<lambda>ev masks.
             let idx = unat (message_type_code (ed_messageType ev)) in
             if idx \<ge> messageTypeCount then masks
             else if ed_eventCode ev \<ge> 64 then masks
             else masks[idx := masks ! idx OR push_bit (unat (ed_eventCode ev)) 1])
       events (replicate messageTypeCount 0)"

type_synonym 'h event_table = "u8 \<times> u8 \<times> u8 \<Rightarrow> 'h option"

definition registerEventHandler :: "u8 \<Rightarrow> message_type \<Rightarrow> u8 \<Rightarrow> 'h \<Rightarrow> 'h event_table \<Rightarrow> 'h event_table" where
  "registerEventHandler eid mt eventCode h eventHandlers =
     eventHandlers((eid, message_type_code mt, eventCode) \<mapsto> h)"

record event_config =
  cfg_eid :: u8
  bmc_eid :: u8
  eventMasks :: "u64 list"
  currentMessageTypeIdx :: nat
  sourcesReq :: bytes
  subscriptionReq :: bytes

definition generationSettingEnablePush :: u8 where "generationSettingEnablePush = 2"

text \<open>The constructor also fills the handler table.\<close>

definition NvidiaEventReportingConfig ::
  "u8 \<Rightarrow> 'h event_descriptor list \<Rightarrow> 'h event_table \<Rightarrow> event_config \<times> 'h event_table" where
  "NvidiaEventReportingConfig eid events eventHandlers =
     (\<lparr>cfg_eid = eid, bmc_eid = 8, eventMasks = buildEventSourceMasks events, currentMessageTypeIdx = 0,
       sourcesReq = replicate setEventSourcesRequestSize 0,
       subscriptionReq = replicate setEventSubscriptionRequestSize 0\<rparr>,
      fold (\<lambda>ev. registerEventHandler eid (ed_messageType ev) (ed_eventCode ev) (ed_eventHandler ev))
        events eventHandlers)"

definition init_config :: "event_config \<Rightarrow> event_config \<times> bytes option" where
  "init_config cfg =
     (let (rc, req) = encodeSetEventSubscriptionRequest generationSettingEnablePush (bmc_eid cfg) (subscriptionReq cfg);
          cfg = cfg\<lparr>subscriptionReq := req\<rparr>
      in if rc \<noteq> 0 then (cfg, None) else (cfg, Some req))"

text \<open>The loop of \<open>sendNextEventSource\<close>; the first argument counts the message types left.\<close>

fun next_source_loop :: "nat \<Rightarrow> event_config \<Rightarrow> event_config" where
  "next_source_loop 0 cfg = cfg"
| "next_source_loop (Suc n) cfg =
     (if currentMessageTypeIdx cfg \<ge> messageTypeCount then cfg
      else if eventMasks cfg ! currentMessageTypeIdx cfg = 0
        then next_source_loop n (cfg\<lparr>currentMessageTypeIdx := currentMessageTypeIdx cfg + 1\<rparr>)
      else
        let events = eventMasks cfg ! currentMessageTypeIdx cfg;
            mt = word_of_nat (currentMessageTypeIdx cfg);
            (rc, req) = encodeSetEventSourcesRequest events mt (sourcesReq cfg);
            cfg = cfg\<lparr>sourcesReq := req\<rparr>
        in if rc \<noteq> 0 then next_source_loop n (cfg\<lparr>currentMessageTypeIdx := currentMessageTypeIdx cfg + 1\<rparr>)
           else cfg)"

definition sendNextEventSource :: "event_config \<Rightarrow> event_config \<times> bytes option" where
  "sendNextEventSource cfg =
     (let cfg = next_source_loop (messageTypeCount - currentMessageTypeIdx cfg) cfg
      in if currentMessageTypeIdx cfg \<ge> messageTypeCount then (cfg, None)
         else (cfg, Some (sourcesReq cfg)))"

text \<open>The completion handlers get the error of the exchange, if any, and the response.\<close>

definition handleSetupSubscription :: "bool \<Rightarrow> bytes \<Rightarrow> event_config \<Rightarrow> event_config \<times> bytes option" where
  "handleSetupSubscription ec buf cfg =
     (if ec then (cfg, None)
      else
        let (rc, cc, reasonCode) = decodeSetEventSubscriptionResponse buf 0 0
        in if rc \<noteq> 0 \<or> cc \<noteq> CC_SUCCESS then (cfg, None)
           else sendNextEventSource (cfg\<lparr>currentMessageTypeIdx := 0\<rparr>))"

definition handleSetupEvents :: "bool \<Rightarrow> bytes \<Rightarrow> event_config \<Rightarrow> event_config \<times> bytes option" where
  "handleSetupEvents ec buf cfg =
     (if ec then sendNextEventSource (cfg\<lparr>currentMessageTypeIdx := currentMessageTypeIdx cfg + 1\<rparr>)
      else
        let (rc, cc, reasonCode) = decodeSetEventSourcesResponse buf 0 0
        in if rc \<noteq> 0 \<or> cc \<noteq> CC_SUCCESS
           then sendNextEventSource (cfg\<lparr>currentMessageTypeIdx := currentMessageTypeIdx cfg + 1\<rparr>)
           else sendNextEventSource (cfg\<lparr>currentMessageTypeIdx := currentMessageTypeIdx cfg + 1\<rparr>))"

record event_info =
  ackRequired :: bool
  version :: u8
  eventClass :: u8
  eventState :: u16

definition no_event :: event_out where
  "no_event = \<lparr>ev_messageType = 0, ev_ackRequired = False, ev_version = 0, ev_id = 0, ev_class = 0,
     ev_state = 0, ev_size = 0, ev_data = []\<rparr>"

text \<open>The handler called, with its arguments.\<close>

definition handleEvent :: "'h event_table \<Rightarrow> u8 \<Rightarrow> bytes \<Rightarrow> ('h \<times> event_info \<times> bytes) option" where
  "handleEvent eventHandlers eid buf =
     (let (rc, ev) = decodeEvent buf nvidiaPciVendorId no_event
      in if rc \<noteq> 0 then None
         else
           (case eventHandlers (eid, ev_messageType ev, ev_id ev) of
              None \<Rightarrow> None
            | Some h \<Rightarrow>
                Some (h, \<lparr>ackRequired = ev_ackRequired ev, version = ev_version ev,
                          eventClass = ev_class ev, eventState = ev_state ev\<rparr>, ev_data ev)))"

section \<open>The masks\<close>

lemma message_type_small: "unat (message_type_code m) < messageTypeCount"
  by (cases m) (simp_all add: messageTypeCount_def)

lemma buildEventSourceMasks_spec:
  "length (buildEventSourceMasks evs) = messageTypeCount \<and>
   (\<forall>i < messageTypeCount. \<forall>c. bit (buildEventSourceMasks evs ! i) c \<longleftrightarrow>
      (\<exists>ev \<in> set evs. unat (message_type_code (ed_messageType ev)) = i \<and> unat (ed_eventCode ev) = c \<and> c < 64))"
proof (induction evs rule: rev_induct)
  case Nil
  then show ?case by (simp add: buildEventSourceMasks_def)
next
  case (snoc ev evs)
  let ?m = "buildEventSourceMasks evs" and ?i = "unat (message_type_code (ed_messageType ev))"
  have step: "buildEventSourceMasks (evs @ [ev]) =
      (if ed_eventCode ev \<ge> 64 then ?m else ?m[?i := ?m ! ?i OR push_bit (unat (ed_eventCode ev)) 1])"
    using message_type_small [of "ed_messageType ev"] by (simp add: buildEventSourceMasks_def Let_def)
  have c64: "ed_eventCode ev \<ge> 64 \<longleftrightarrow> unat (ed_eventCode ev) \<ge> 64" by (simp add: word_le_nat_alt)
  have b: "bit (2 ^ k :: u64) c \<longleftrightarrow> c = k \<and> k < 64" for k c
    by (auto simp: bit_exp_iff dest: bit_imp_le_length)
  show ?case
    unfolding step using snoc message_type_small [of "ed_messageType ev"]
    by (auto simp: c64 nth_list_update bit_or_iff b not_le)
qed

section \<open>The set-up sequence\<close>

text \<open>The request that enables the sources of message type \<open>i\<close>.\<close>

definition source_request :: "u64 list \<Rightarrow> nat \<Rightarrow> bytes" where
  "source_request masks i =
     request_bytes DEVICE_CAPABILITY_DISCOVERY (device_capability_code SET_CURRENT_EVENT_SOURCES) 0
       ([word_of_nat i] @ le_bytes (masks ! i))"

definition masked_types :: "u64 list \<Rightarrow> nat \<Rightarrow> nat list" where
  "masked_types masks i = filter (\<lambda>j. masks ! j \<noteq> 0) [i..<messageTypeCount]"

lemma encode_source_request:
  "length req = setEventSourcesRequestSize \<Longrightarrow>
     encodeSetEventSourcesRequest (masks ! i) (word_of_nat i) req = (0, source_request masks i) \<and>
     length (source_request masks i) = setEventSourcesRequestSize"
proof -
  assume len: "length req = setEventSourcesRequestSize"
  have l: "length (source_request masks i) = setEventSourcesRequestSize"
    by (simp add: source_request_def request_bytes_def header_bytes_def sizeof_def)
  with encodeSetEventSourcesRequest_encodes [of "word_of_nat i" "masks ! i" req] len show ?thesis
    by (simp add: encodes_def source_request_def del: setEventSourcesRequestSize_def)
qed

lemma masked_types_step:
  "i < messageTypeCount \<Longrightarrow>
     masked_types masks i = (if masks ! i \<noteq> 0 then i # masked_types masks (Suc i) else masked_types masks (Suc i))"
  by (simp add: masked_types_def upt_rec [of i])

lemma next_source_loop_spec:
  assumes "n = messageTypeCount - currentMessageTypeIdx cfg" and "length (sourcesReq cfg) = setEventSourcesRequestSize"
  shows "next_source_loop n cfg =
    (case masked_types (eventMasks cfg) (currentMessageTypeIdx cfg) of
       [] \<Rightarrow> cfg\<lparr>currentMessageTypeIdx := max messageTypeCount (currentMessageTypeIdx cfg)\<rparr>
     | i # _ \<Rightarrow> cfg\<lparr>currentMessageTypeIdx := i, sourcesReq := source_request (eventMasks cfg) i\<rparr>)"
  using assms
proof (induction n arbitrary: cfg)
  case 0
  then have "messageTypeCount \<le> currentMessageTypeIdx cfg" by simp
  then show ?case by (simp add: masked_types_def max_def)
next
  case (Suc n)
  then have lt: "currentMessageTypeIdx cfg < messageTypeCount" by simp
  show ?case
  proof (cases "eventMasks cfg ! currentMessageTypeIdx cfg = 0")
    case True
    let ?cfg = "cfg\<lparr>currentMessageTypeIdx := currentMessageTypeIdx cfg + 1\<rparr>"
    have "n = messageTypeCount - currentMessageTypeIdx ?cfg" using Suc.prems(1) by simp
    from Suc.IH [OF this] Suc.prems(2) True lt show ?thesis
      by (simp add: masked_types_step not_le max_def split: list.split)
  next
    case False
    with lt show ?thesis
      using encode_source_request [OF Suc.prems(2)] by (simp add: masked_types_step not_le)
  qed
qed

lemma sendNextEventSource_spec:
  assumes "length (sourcesReq cfg) = setEventSourcesRequestSize"
  shows "sendNextEventSource cfg =
    (case masked_types (eventMasks cfg) (currentMessageTypeIdx cfg) of
       [] \<Rightarrow> (cfg\<lparr>currentMessageTypeIdx := max messageTypeCount (currentMessageTypeIdx cfg)\<rparr>, None)
     | i # _ \<Rightarrow> (cfg\<lparr>currentMessageTypeIdx := i, sourcesReq := source_request (eventMasks cfg) i\<rparr>,
                  Some (source_request (eventMasks cfg) i)))"
proof -
  have "i < messageTypeCount" if "masked_types (eventMasks cfg) (currentMessageTypeIdx cfg) = i # is" for i "is"
  proof -
    have "i \<in> set (masked_types (eventMasks cfg) (currentMessageTypeIdx cfg))" by (simp add: that)
    then show ?thesis by (simp add: masked_types_def)
  qed
  then show ?thesis
    by (auto simp: sendNextEventSource_def next_source_loop_spec [OF refl assms] Let_def split: list.splits)
qed

text \<open>
  The exchange as the requester drives it: after a successful subscription, each reply (or error) to a
  sources request is handed to \<open>handleSetupEvents\<close>. The result is the list of requests sent.
\<close>

fun drive_setup :: "(bool \<times> bytes) list \<Rightarrow> event_config \<times> bytes option \<Rightarrow> bytes list" where
  "drive_setup replies (cfg, None) = []"
| "drive_setup [] (cfg, Some req) = [req]"
| "drive_setup ((ec, buf) # replies) (cfg, Some req) = req # drive_setup replies (handleSetupEvents ec buf cfg)"

lemma handleSetupEvents_next:
  "handleSetupEvents ec buf cfg = sendNextEventSource (cfg\<lparr>currentMessageTypeIdx := currentMessageTypeIdx cfg + 1\<rparr>)"
  by (simp add: handleSetupEvents_def split: prod.split)

lemma masked_types_tail:
  "masked_types masks i = j # js \<Longrightarrow> masked_types masks (j + 1) = js \<and> j < messageTypeCount"
proof (induction "messageTypeCount - i" arbitrary: i)
  case 0
  then show ?case by (simp add: masked_types_def)
next
  case (Suc n)
  then have i: "i < messageTypeCount" by simp
  have n: "n = messageTypeCount - Suc i" using Suc.hyps(2) by simp
  show ?case
    using Suc.hyps(1) [OF n] Suc.prems i by (auto simp: masked_types_step split: if_splits)
qed

lemma drive_setup_spec:
  "length (sourcesReq cfg) = setEventSourcesRequestSize \<Longrightarrow>
   length (masked_types (eventMasks cfg) (currentMessageTypeIdx cfg)) \<le> length replies \<Longrightarrow>
     drive_setup replies (sendNextEventSource cfg) =
     map (source_request (eventMasks cfg)) (masked_types (eventMasks cfg) (currentMessageTypeIdx cfg))"
proof (induction replies arbitrary: cfg)
  case Nil
  then show ?case by (simp add: sendNextEventSource_spec del: setEventSourcesRequestSize_def)
next
  case (Cons reply replies)
  obtain ec buf where reply: "reply = (ec, buf)" by (cases reply)
  show ?case
  proof (cases "masked_types (eventMasks cfg) (currentMessageTypeIdx cfg)")
    case Nil
    then show ?thesis
      using Cons.prems(1) by (simp add: sendNextEventSource_spec del: setEventSourcesRequestSize_def)
  next
    case (Cons j js)
    have "length (source_request (eventMasks cfg) j) = setEventSourcesRequestSize"
      using encode_source_request [OF Cons.prems(1)] by blast
    moreover have "drive_setup (reply # replies) (sendNextEventSource cfg) = source_request (eventMasks cfg) j #
        drive_setup replies (handleSetupEvents ec buf (cfg\<lparr>currentMessageTypeIdx := j, sourcesReq := source_request (eventMasks cfg) j\<rparr>))"
      using Cons Cons.prems(1) by (simp add: sendNextEventSource_spec reply del: setEventSourcesRequestSize_def)
    ultimately show ?thesis
      using Cons.IH [of "cfg\<lparr>sourcesReq := source_request (eventMasks cfg) j, currentMessageTypeIdx := j + 1\<rparr>"]
        masked_types_tail [OF Cons] Cons.prems(2) Cons
      by (simp add: handleSetupEvents_next del: setEventSourcesRequestSize_def)
  qed
qed
section \<open>Properties\<close>

text \<open>The bytes of an event datagram; \<open>iid\<close> and \<open>ocp\<close> are not looked at.\<close>

definition event_frame :: "u8 \<Rightarrow> u8 \<Rightarrow> u8 \<Rightarrow> event_out \<Rightarrow> bytes" where
  "event_frame iid ocp vb ev =
     rev (le_bytes nvidiaPciVendorId) @ [iid, ocp, ev_messageType ev, vb, ev_id ev, ev_class ev] @
     le_bytes (ev_state ev) @ [ev_size ev] @ ev_data ev"

lemma decodeEvent_exact:
  "decodeEvent buf nvidiaPciVendorId ev0 = (0, ev) \<longleftrightarrow>
     (\<exists>iid ocp vb t. buf = event_frame iid ocp vb ev @ t \<and> length (ev_data ev) = unat (ev_size ev) \<and>
        ev_ackRequired ev = (vb AND eventAckRequiredBitMask \<noteq> 0) \<and> ev_version ev = vb AND eventVersionBitMask)"
  (is "?l \<longleftrightarrow> ?r")
proof
  assume ?l
  moreover have "\<exists>t. xs = take n xs @ t" for xs :: bytes and n
    by (rule exI [of _ "drop n xs"]) simp
  ultimately show ?r
    by (cases ev; cases ev0) (auto simp: decodeEvent_def event_frame_def read_fields rev_le_bytes_u16 Let_def
        split: option.splits prod.splits if_splits)
next
  assume ?r
  then obtain iid ocp vb t where buf: "buf = event_frame iid ocp vb ev @ t"
    and len: "length (ev_data ev) = unat (ev_size ev)" "ev_ackRequired ev = (vb AND eventAckRequiredBitMask \<noteq> 0)"
      "ev_version ev = vb AND eventVersionBitMask" by blast
  then show ?l
    by (cases ev; cases ev0) (simp add: decodeEvent_def event_frame_def rev_le_bytes_u16 codec_simps Let_def sizeof_def)
qed
text \<open>The event source masks: one 64-bit mask per message type, in which bit \<open>c\<close> is set exactly
  when some registered event has that message type and event code \<open>c\<close>, codes of 64 and more being
  skipped rather than wrapped around.\<close>

lemma event_source_masks:
  assumes "i < messageTypeCount"
  shows "bit (buildEventSourceMasks evs ! i) c \<longleftrightarrow>
    (\<exists>ev \<in> set evs. unat (message_type_code (ed_messageType ev)) = i \<and> unat (ed_eventCode ev) = c \<and> c < 64)"
  using buildEventSourceMasks_spec [of evs] assms by blast

definition demo_events :: "nat event_descriptor list" where
  "demo_events = [\<lparr>ed_messageType = PLATFORM_ENVIRONMENTAL, ed_eventCode = 1, ed_eventHandler = 11\<rparr>,
     \<lparr>ed_messageType = DEVICE_CAPABILITY_DISCOVERY, ed_eventCode = 2, ed_eventHandler = 12\<rparr>]"

lemma event_source_masks_witness:
  "bit (buildEventSourceMasks demo_events ! 3) 1 \<longleftrightarrow>
    (\<exists>ev \<in> set demo_events. unat (message_type_code (ed_messageType ev)) = 3 \<and> unat (ed_eventCode ev) = 1 \<and> (1 :: nat) < 64)"
  by (rule event_source_masks) (simp add: messageTypeCount_def)

text \<open>The set-up exchange: after a successful subscription the device is sent one request per message
  type that has events, in ascending order, each carrying that type's mask, and nothing else; a failed or
  refused request does not stop the ones after it. An unsuccessful subscription sends none.\<close>

lemma event_setup_sequence:
  assumes "cfg = fst (NvidiaEventReportingConfig eid evs table)" and "messageTypeCount \<le> length replies"
  shows "drive_setup replies (handleSetupSubscription ec buf cfg) =
    (if \<not> ec \<and> (\<exists>rs. decodeSetEventSubscriptionResponse buf 0 0 = (0, CC_SUCCESS, rs))
     then map (source_request (buildEventSourceMasks evs))
            (filter (\<lambda>i. buildEventSourceMasks evs ! i \<noteq> 0) [0..<messageTypeCount])
     else [])"
proof -
  have m: "eventMasks cfg = buildEventSourceMasks evs" "length (sourcesReq cfg) = setEventSourcesRequestSize"
    using assms(1) by (simp_all add: NvidiaEventReportingConfig_def)
  have len: "length (masked_types (buildEventSourceMasks evs) 0) \<le> length replies"
    unfolding masked_types_def by (rule le_trans [OF length_filter_le]) (use assms(2) in simp)
  have drive: "drive_setup replies (sendNextEventSource (cfg\<lparr>currentMessageTypeIdx := 0\<rparr>)) =
      map (source_request (buildEventSourceMasks evs)) (masked_types (buildEventSourceMasks evs) 0)"
    using drive_setup_spec [of "cfg\<lparr>currentMessageTypeIdx := 0\<rparr>" replies] m len by simp
  obtain rc cc rs where d: "decodeSetEventSubscriptionResponse buf 0 0 = (rc, cc, rs)"
    by (metis prod_cases3)
  show ?thesis
    using drive by (auto simp: handleSetupSubscription_def d masked_types_def)
qed

lemma event_setup_sequence_witness:
  "drive_setup (replicate 6 (True, []))
      (handleSetupSubscription False (success_frame DEVICE_CAPABILITY_DISCOVERY (device_capability_code SET_EVENT_SUBSCRIPTION) 0 0 0 [])
        (fst (NvidiaEventReportingConfig 9 demo_events Map.empty))) =
    (if \<not> False \<and> (\<exists>rs. decodeSetEventSubscriptionResponse
          (success_frame DEVICE_CAPABILITY_DISCOVERY (device_capability_code SET_EVENT_SUBSCRIPTION) 0 0 0 []) 0 0 = (0, CC_SUCCESS, rs))
     then map (source_request (buildEventSourceMasks demo_events))
            (filter (\<lambda>i. buildEventSourceMasks demo_events ! i \<noteq> 0) [0..<messageTypeCount])
     else [])"
  by (rule event_setup_sequence [OF refl]) (simp add: messageTypeCount_def)

text \<open>A received event reaches a handler exactly when it has the NVIDIA vendor id, holds its whole
  header and the data its size byte announces, and a handler is registered for its (EID, message type,
  event id); the handler then gets the decoded fields and exactly the announced data bytes, never bytes
  past the end of the datagram.\<close>

lemma handleEvent_dispatch:
  "handleEvent table eid buf = Some (h, info, data) \<longleftrightarrow>
     (\<exists>iid ocp vb ev t. buf = event_frame iid ocp vb ev @ t \<and> length (ev_data ev) = unat (ev_size ev) \<and>
        table (eid, ev_messageType ev, ev_id ev) = Some h \<and> data = ev_data ev \<and>
        info = \<lparr>ackRequired = (vb AND eventAckRequiredBitMask \<noteq> 0), version = vb AND eventVersionBitMask,
                eventClass = ev_class ev, eventState = ev_state ev\<rparr>)"
  (is "?l \<longleftrightarrow> ?r")
proof
  assume ?l
  then obtain ev where "decodeEvent buf nvidiaPciVendorId no_event = (0, ev)"
    and rest: "table (eid, ev_messageType ev, ev_id ev) = Some h" "data = ev_data ev"
      "info = \<lparr>ackRequired = ev_ackRequired ev, version = ev_version ev, eventClass = ev_class ev, eventState = ev_state ev\<rparr>"
    by (auto simp: handleEvent_def split: prod.splits if_splits option.splits)
  then show ?r unfolding decodeEvent_exact by blast
next
  assume ?r
  then obtain iid ocp vb ev t where *: "buf = event_frame iid ocp vb ev @ t" "length (ev_data ev) = unat (ev_size ev)"
    "table (eid, ev_messageType ev, ev_id ev) = Some h" "data = ev_data ev"
    "info = \<lparr>ackRequired = (vb AND eventAckRequiredBitMask \<noteq> 0), version = vb AND eventVersionBitMask,
             eventClass = ev_class ev, eventState = ev_state ev\<rparr>" by blast
  let ?ev = "ev\<lparr>ev_ackRequired := (vb AND eventAckRequiredBitMask \<noteq> 0), ev_version := vb AND eventVersionBitMask\<rparr>"
  have "event_frame iid ocp vb ?ev = event_frame iid ocp vb ev" by (simp add: event_frame_def)
  then have "decodeEvent buf nvidiaPciVendorId no_event = (0, ?ev)"
    unfolding decodeEvent_exact using * by (intro exI [of _ iid] exI [of _ ocp] exI [of _ vb] exI [of _ t]) simp
  with * show ?l by (simp add: handleEvent_def)
qed

end
