(* ===== verification/Serial_Queue.thy ===== *)
theory Serial_Queue
  imports Fifo_Service
begin

text \<open>
  \<open>SerialQueue.cpp\<close>: tasks that need exclusive use of a device run one at a time. A task receives a
  move-only \<open>ReleaseHandle\<close>; the slot is freed when that handle is destroyed. Moving a handle empties
  its weak pointer, so one logical handle releases once: \<open>handles\<close> lists the running tasks whose handle
  is alive. \<open>posted\<close> are the tasks given to the event loop and not yet run, and \<open>started\<close> records the
  tasks in the order they ran.
\<close>

record 't serial_queue =
  inFlight :: bool
  pending :: "'t list"
  posted :: "'t list"
  handles :: "'t list"
  started :: "'t list"
  queued :: "'t list"

definition new_serial_queue :: "'t serial_queue" where
  "new_serial_queue = \<lparr>inFlight = False, pending = [], posted = [], handles = [], started = [], queued = []\<rparr>"

text \<open>Calling a task: it gets a fresh handle. What it does with the handle comes as later events.\<close>

definition run_task :: "'t \<Rightarrow> 't serial_queue \<Rightarrow> 't serial_queue" where
  "run_task t q = q\<lparr>handles := handles q @ [t], started := started q @ [t]\<rparr>"

definition submit :: "'t \<Rightarrow> 't serial_queue \<Rightarrow> 't serial_queue" where
  "submit t q =
     (let q = q\<lparr>queued := queued q @ [t]\<rparr> in
      if inFlight q then q\<lparr>pending := pending q @ [t]\<rparr>
      else run_task t (q\<lparr>inFlight := True\<rparr>))"

definition release :: "'t serial_queue \<Rightarrow> 't serial_queue" where
  "release q =
     (case pending q of
        [] \<Rightarrow> q\<lparr>inFlight := False\<rparr>
      | nxt # rest \<Rightarrow> q\<lparr>pending := rest, posted := posted q @ [nxt]\<rparr>)"

text \<open>\<open>ReleaseHandle::reset\<close>, run by the destructor of the last copy of a live handle.\<close>

definition drop_handle :: "'t \<Rightarrow> 't serial_queue \<Rightarrow> 't serial_queue" where
  "drop_handle t q = release (q\<lparr>handles := remove1 t (handles q)\<rparr>)"

definition run_posted :: "'t serial_queue \<Rightarrow> 't serial_queue" where
  "run_posted q = run_task (hd (posted q)) (q\<lparr>posted := tl (posted q)\<rparr>)"

inductive queue_step :: "'t serial_queue \<Rightarrow> 't serial_queue \<Rightarrow> bool" where
  queue_submit: "queue_step q (submit t q)"
| queue_drop: "t \<in> set (handles q) \<Longrightarrow> queue_step q (drop_handle t q)"
| queue_run: "posted q \<noteq> [] \<Longrightarrow> queue_step q (run_posted q)"

inductive_cases queue_step_cases: "queue_step q q'"

lemmas queue_defs = submit_def release_def drop_handle_def run_posted_def run_task_def

definition queue_inv :: "'t serial_queue \<Rightarrow> bool" where
  "queue_inv q \<longleftrightarrow>
     length (handles q) + length (posted q) = (if inFlight q then 1 else 0) \<and>
     (\<not> inFlight q \<longrightarrow> pending q = []) \<and>
     queued q = started q @ posted q @ pending q"

lemma holder:
  assumes "queue_inv q" and "t \<in> set (handles q)"
  shows "handles q = [t]" and "posted q = []" and "inFlight q"
proof -
  from assms(1) have l: "length (handles q) + length (posted q) = (if inFlight q then 1 else 0)"
    by (simp add: queue_inv_def)
  obtain x xs where "handles q = x # xs" using assms(2) by (cases "handles q") auto
  with l assms(2) show "handles q = [t]" "posted q = []" "inFlight q" by (auto split: if_splits)
qed

lemma queue_step_inv: "queue_step q q' \<Longrightarrow> queue_inv q \<Longrightarrow> queue_inv q'"
proof (erule queue_step_cases)
  fix t
  assume "queue_inv q" "q' = submit t q"
  then show "queue_inv q'" by (auto simp: queue_inv_def queue_defs Let_def split: if_splits)
next
  fix t
  assume q: "queue_inv q" and q': "q' = drop_handle t q" and t: "t \<in> set (handles q)"
  from holder [OF q t] show "queue_inv q'"
    using q q' by (auto simp: queue_inv_def queue_defs split: list.splits)
next
  assume q: "queue_inv q" and q': "q' = run_posted q" and p: "posted q \<noteq> []"
  from p q have "inFlight q" "handles q = []" "length (posted q) = 1"
    by (cases "posted q"; auto simp: queue_inv_def split: if_splits)+
  moreover from this obtain t where "posted q = [t]" by (auto simp: length_Suc_conv)
  ultimately show "queue_inv q'" using q q' by (simp add: queue_inv_def queue_defs)
qed

interpretation serial: invariant_system "\<lambda>q. q = new_serial_queue" queue_step queue_inv
  by unfold_locales (auto simp: queue_step_inv, simp add: queue_inv_def new_serial_queue_def)

interpretation serial_fifo: fifo_service queue_inv queued started "\<lambda>q. posted q @ pending q"
  by unfold_locales (simp add: queue_inv_def)

section \<open>Properties\<close>

definition demo_queue :: "nat serial_queue" where
  "demo_queue = drop_handle 1 (submit 3 (submit 2 (submit 1 new_serial_queue)))"

lemma demo_queue_reachable: "reach (\<lambda>q. q = new_serial_queue) queue_step demo_queue"
proof -
  have "reach (\<lambda>q. q = new_serial_queue) queue_step (new_serial_queue :: nat serial_queue)"
    by (rule reach_init) (rule refl)
  then have "reach (\<lambda>q. q = new_serial_queue) queue_step (submit 1 (new_serial_queue :: nat serial_queue))"
    by (rule reach_step) (rule queue_submit)
  then have "reach (\<lambda>q. q = new_serial_queue) queue_step (submit 2 (submit 1 (new_serial_queue :: nat serial_queue)))"
    by (rule reach_step) (rule queue_submit)
  then have "reach (\<lambda>q. q = new_serial_queue) queue_step (submit 3 (submit 2 (submit 1 (new_serial_queue :: nat serial_queue))))"
    by (rule reach_step) (rule queue_submit)
  then show ?thesis
    unfolding demo_queue_def by (rule reach_step) (rule queue_drop, code_simp)
qed

text \<open>C11: the serial queue runs one task at a time, in submission order: at most one release handle is
  alive, and never while a further task is already on its way; the tasks that have run are a prefix of
  the tasks submitted; and nothing is stranded, for whenever no handle is alive and no task is posted the
  queue is idle, every submitted task has run, and the next submission runs at once.\<close>

theorem serial_queue_exclusive:
  assumes "reach (\<lambda>q. q = new_serial_queue) queue_step q"
  shows "length (handles q) + length (posted q) \<le> 1 \<and>
    started q = take (length (started q)) (queued q) \<and>
    (handles q = [] \<and> posted q = [] \<longrightarrow> \<not> inFlight q \<and> started q = queued q \<and> handles (submit t q) = [t])"
proof -
  have inv: "queue_inv q" by (rule serial.reach_inv [OF assms])
  then have idle: "\<not> inFlight q \<and> pending q = []" if "handles q = []" "posted q = []"
    using that by (auto simp: queue_inv_def split: if_splits)
  show ?thesis
    using inv serial_fifo.begun_prefix [OF inv] serial_fifo.drained [OF inv] idle
    by (auto simp: queue_inv_def submit_def run_task_def Let_def)
qed

lemma serial_queue_exclusive_witness:
  "let q = drop_handle 1 (submit 1 (new_serial_queue :: nat serial_queue)) in
    length (handles q) + length (posted q) \<le> 1 \<and> started q = take (length (started q)) (queued q) \<and>
    handles q = [] \<and> posted q = [] \<and> \<not> inFlight q \<and> started q = queued q \<and> handles (submit 4 q) = [4]"
proof -
  let ?q = "drop_handle 1 (submit 1 (new_serial_queue :: nat serial_queue))"
  have "reach (\<lambda>q. q = new_serial_queue) queue_step ?q"
    by (rule reach_step, rule reach_step, rule reach_init, rule refl, rule queue_submit, rule queue_drop, code_simp)
  moreover have "handles ?q = []" "posted ?q = []" by code_simp+
  ultimately show ?thesis
    using serial_queue_exclusive [of ?q 4] unfolding Let_def by blast
qed

text \<open>Releasing makes progress: when the holder of the slot drops its handle and tasks are pending,
  exactly the oldest pending task is posted, and running the posted task gives it the only handle.\<close>

lemma release_starts_next:
  assumes "reach (\<lambda>q. q = new_serial_queue) queue_step q" and "t \<in> set (handles q)" and "pending q = nxt # rest"
  shows "posted (drop_handle t q) = [nxt] \<and> handles (drop_handle t q) = [] \<and> pending (drop_handle t q) = rest \<and>
    handles (run_posted (drop_handle t q)) = [nxt] \<and> started (run_posted (drop_handle t q)) = started q @ [nxt]"
proof -
  have inv: "queue_inv q" by (rule serial.reach_inv [OF assms(1)])
  from holder [OF inv assms(2)] assms(3) show ?thesis
    by (simp add: queue_defs)
qed

lemma release_starts_next_witness:
  "let q = run_posted demo_queue in
   posted (drop_handle 2 q) = [3] \<and> handles (drop_handle 2 q) = [] \<and> pending (drop_handle 2 q) = [] \<and>
   handles (run_posted (drop_handle 2 q)) = [3] \<and> started (run_posted (drop_handle 2 q)) = started q @ [3]"
  unfolding Let_def
proof (rule release_starts_next)
  show "reach (\<lambda>q. q = new_serial_queue) queue_step (run_posted demo_queue)"
    by (rule reach_step [OF demo_queue_reachable], rule queue_run, code_simp)
qed (code_simp, code_simp)

end
