(* ===== verification/Long_Running.thy ===== *)
theory Long_Running
  imports Event_Reporting Serial_Queue
begin

text \<open>
  Long-running commands (\<open>NvidiaLongRunningHandler.cpp\<close>, \<open>NvidiaGpuLongRunningCommand.cpp\<close>): a device
  answers a slow command with ACCEPTED and sends the result later as an event. The response handler
  keeps one entry, with a two second timer, per (message type, command, instance id); a command holds
  the serial queue's release handle while its answer is pending.
\<close>

section \<open>The table of pending responses\<close>

definition longRunningResponseEventClass :: u8 where "longRunningResponseEventClass = 128"

type_synonym response_key = "u8 \<times> u8 \<times> u8"

text \<open>
  A handler is an opaque value of type \<open>'h\<close>. \<open>entries\<close> maps the registered keys; an entry's timer runs
  as long as the entry exists. Calls of handlers are the second component of a step.
\<close>

type_synonym 'h response_table = "response_key \<Rightarrow> 'h option"

type_synonym 'h response_call = "'h \<times> bool \<times> u8 \<times> u16 \<times> bytes"

definition registerResponseHandler ::
  "u8 \<Rightarrow> u8 \<Rightarrow> u8 \<Rightarrow> 'h \<Rightarrow> 'h response_table \<Rightarrow> int \<times> 'h response_table" where
  "registerResponseHandler mt commandCode instanceId h entries =
     (let key = (mt, commandCode, instanceId) in
      case entries key of
        Some _ \<Rightarrow> (EEXIST, entries)
      | None \<Rightarrow> (0, entries(key \<mapsto> h)))"

definition onTimeout :: "response_key \<Rightarrow> 'h response_table \<Rightarrow> 'h response_table \<times> 'h response_call option" where
  "onTimeout key entries =
     (case entries key of
        None \<Rightarrow> (entries, None)
      | Some h \<Rightarrow> (entries(key := None), Some (h, True, CC_ERROR, 0, [])))"

definition response_handler ::
  "event_info \<Rightarrow> bytes \<Rightarrow> 'h response_table \<Rightarrow> 'h response_table \<times> 'h response_call option" where
  "response_handler info data entries =
     (if eventClass info \<noteq> longRunningResponseEventClass then (entries, None)
      else
        let mt = ucast (eventState info AND 0xFF);
            commandCode = ucast (drop_bit 8 (eventState info) AND 0xFF);
            (rc, cc, reasonCode, instanceId, responseData) = decodeLongRunningResponseEvent data 0 0 0 []
        in if rc \<noteq> 0 then (entries, None)
           else
             let key = (mt, commandCode, instanceId) in
             case entries key of
               None \<Rightarrow> (entries, None)
             | Some h \<Rightarrow> (entries(key := None), Some (h, False, cc, reasonCode, responseData)))"

section \<open>A command\<close>

text \<open>
  What a command does with the immediate response: fail, hand the response to
  \<open>onImmediateSuccess\<close>, or register for the event. \<open>Registered\<close> is the only outcome in which the
  release handle survives: it moves into the registered handler.
\<close>

record command_config =
  cmd_messageType :: message_type
  cmd_commandId :: u8

datatype response_outcome =
    Failed | ImmediateSuccess bytes | Registered response_key | RegisterFailed

definition processResponse ::
  "command_config \<Rightarrow> 'h \<Rightarrow> bool \<Rightarrow> bytes \<Rightarrow> 'h response_table \<Rightarrow> 'h response_table \<times> response_outcome" where
  "processResponse cmd h ec buf entries =
     (if ec then (entries, Failed)
      else
        let (rc, cc, reasonCode, ub) =
              decodeResponseCommonHeader (UnpackBuffer buf) (cmd_messageType cmd) (cmd_commandId cmd) 0 0
        in if rc \<noteq> 0 then (entries, Failed)
           else if cc = CC_SUCCESS then (entries, ImmediateSuccess buf)
           else if cc = CC_ACCEPTED then
             let (rc, instanceId) = decodeInstanceId buf 0
             in if rc \<noteq> 0 then (entries, Failed)
                else
                  let (rc, entries) = registerResponseHandler (message_type_code (cmd_messageType cmd))
                        (cmd_commandId cmd) instanceId h entries
                  in if rc \<noteq> 0 then (entries, RegisterFailed)
                     else (entries, Registered (message_type_code (cmd_messageType cmd), cmd_commandId cmd, instanceId))
           else (entries, Failed))"

text \<open>The payload passed to \<open>onLongRunningPayload\<close>, if any.\<close>

definition processLongRunningResponse :: "bool \<Rightarrow> u8 \<Rightarrow> u16 \<Rightarrow> bytes \<Rightarrow> bytes option" where
  "processLongRunningResponse ec cc reasonCode responseData =
     (if ec then None else if cc \<noteq> CC_SUCCESS then None else Some responseData)"

fun keeps_handle :: "response_outcome \<Rightarrow> bool" where
  "keeps_handle (Registered key) = True"
| "keeps_handle _ = False"

section \<open>Commands on the serial queue\<close>

text \<open>
  The commands of one device share a serial queue and a response table. A command is its own task and
  its own handler: a natural number naming it. \<open>awaiting\<close> are the commands whose request is with the
  MCTP requester. The steps are the submission, the run of a posted task, the answer of the requester
  (\<open>doUpdate\<close> hands the handle to its callback), the long-running event and the timeout; each drops the
  release handle where the code does. A command whose request did not encode drops it at once.
\<close>

record device =
  dev_queue :: "nat serial_queue"
  dev_entries :: "nat response_table"
  awaiting :: "nat list"
  payloads :: "(nat \<times> bytes) list"

definition doUpdate :: "(nat \<Rightarrow> bool) \<Rightarrow> nat \<Rightarrow> device \<Rightarrow> device" where
  "doUpdate requestEncoded t d =
     (if \<not> requestEncoded t then d\<lparr>dev_queue := drop_handle t (dev_queue d)\<rparr>
      else d\<lparr>awaiting := awaiting d @ [t]\<rparr>)"

definition dev_update :: "(nat \<Rightarrow> bool) \<Rightarrow> nat \<Rightarrow> device \<Rightarrow> device" where
  "dev_update requestEncoded t d =
     (let idle = \<not> inFlight (dev_queue d);
          d = d\<lparr>dev_queue := submit t (dev_queue d)\<rparr>
      in if idle then doUpdate requestEncoded t d else d)"

definition dev_run_posted :: "(nat \<Rightarrow> bool) \<Rightarrow> device \<Rightarrow> device" where
  "dev_run_posted requestEncoded d =
     (let t = hd (posted (dev_queue d))
      in doUpdate requestEncoded t (d\<lparr>dev_queue := run_posted (dev_queue d)\<rparr>))"

definition dev_response :: "(nat \<Rightarrow> command_config) \<Rightarrow> nat \<Rightarrow> bool \<Rightarrow> bytes \<Rightarrow> device \<Rightarrow> device" where
  "dev_response cmds t ec buf d =
     (let (entries, outcome) = processResponse (cmds t) t ec buf (dev_entries d);
          d = d\<lparr>awaiting := remove1 t (awaiting d), dev_entries := entries\<rparr>
      in if keeps_handle outcome then d else d\<lparr>dev_queue := drop_handle t (dev_queue d)\<rparr>)"

definition dev_call :: "nat response_table \<times> nat response_call option \<Rightarrow> device \<Rightarrow> device" where
  "dev_call res d =
     (case res of
        (entries, None) \<Rightarrow> d\<lparr>dev_entries := entries\<rparr>
      | (entries, Some (t, ec, cc, reasonCode, data)) \<Rightarrow>
          d\<lparr>dev_entries := entries, dev_queue := drop_handle t (dev_queue d),
            payloads := payloads d @ (case processLongRunningResponse ec cc reasonCode data of
                                        None \<Rightarrow> [] | Some p \<Rightarrow> [(t, p)])\<rparr>)"

definition new_device :: device where
  "new_device = \<lparr>dev_queue = new_serial_queue, dev_entries = Map.empty, awaiting = [], payloads = []\<rparr>"

inductive device_step :: "(nat \<Rightarrow> bool) \<Rightarrow> (nat \<Rightarrow> command_config) \<Rightarrow> device \<Rightarrow> device \<Rightarrow> bool"
  for enc :: "nat \<Rightarrow> bool" and cmds :: "nat \<Rightarrow> command_config" where
  device_update: "device_step enc cmds d (dev_update enc t d)"
| device_run: "posted (dev_queue d) \<noteq> [] \<Longrightarrow> device_step enc cmds d (dev_run_posted enc d)"
| device_response: "t \<in> set (awaiting d) \<Longrightarrow> device_step enc cmds d (dev_response cmds t ec buf d)"
| device_event: "device_step enc cmds d (dev_call (response_handler info data (dev_entries d)) d)"
| device_timeout: "dev_entries d key \<noteq> None \<Longrightarrow> device_step enc cmds d (dev_call (onTimeout key (dev_entries d)) d)"

inductive_cases device_step_cases: "device_step enc cmds d d'"
section \<open>The slot is accounted for\<close>

definition slot_ok :: "device \<Rightarrow> bool" where
  "slot_ok d \<longleftrightarrow>
     (handles (dev_queue d) = [] \<and> awaiting d = [] \<and> dev_entries d = Map.empty) \<or>
     (\<exists>t. handles (dev_queue d) = [t] \<and> awaiting d = [t] \<and> dev_entries d = Map.empty) \<or>
     (\<exists>t key. handles (dev_queue d) = [t] \<and> awaiting d = [] \<and> dev_entries d = [key \<mapsto> t])"

definition device_inv :: "device \<Rightarrow> bool" where
  "device_inv d \<longleftrightarrow> queue_inv (dev_queue d) \<and> slot_ok d"

lemma drop_only_handle:
  "queue_inv q \<Longrightarrow> handles q = [t] \<Longrightarrow> queue_inv (drop_handle t q) \<and> handles (drop_handle t q) = []"
proof
  assume q: "queue_inv q" and h: "handles q = [t]"
  then show "queue_inv (drop_handle t q)" by (intro queue_step_inv [OF queue_drop]) simp_all
  from h show "handles (drop_handle t q) = []" by (simp add: drop_handle_def release_def split: list.split)
qed

lemma doUpdate_inv:
  assumes "queue_inv (dev_queue d)" and "handles (dev_queue d) = [t]" and "awaiting d = []" and "dev_entries d = Map.empty"
  shows "device_inv (doUpdate enc t d)"
  using assms drop_only_handle [OF assms(1,2)] by (auto simp: doUpdate_def device_inv_def slot_ok_def)

lemma idle_slot: "queue_inv q \<Longrightarrow> \<not> inFlight q \<Longrightarrow> handles q = []"
  by (auto simp: queue_inv_def)

lemma posted_slot: "queue_inv q \<Longrightarrow> posted q \<noteq> [] \<Longrightarrow> handles q = []"
  using holder(2) [of q] by (cases "handles q") auto

lemma update_inv: "device_inv d \<Longrightarrow> device_inv (dev_update enc t d)"
proof -
  assume inv: "device_inv d"
  then have q: "queue_inv (dev_queue d)" and s: "slot_ok d" by (simp_all add: device_inv_def)
  have q': "queue_inv (submit t (dev_queue d))" by (rule queue_step_inv [OF queue_submit q])
  show ?thesis
  proof (cases "inFlight (dev_queue d)")
    case True
    then have "handles (submit t (dev_queue d)) = handles (dev_queue d)" by (simp add: submit_def Let_def)
    with True q' s show ?thesis by (simp add: dev_update_def device_inv_def slot_ok_def Let_def)
  next
    case False
    then have "handles (dev_queue d) = []" by (rule idle_slot [OF q])
    with False s have "handles (submit t (dev_queue d)) = [t]" "awaiting d = []" "dev_entries d = Map.empty"
      by (auto simp: submit_def run_task_def Let_def slot_ok_def)
    with False q' show ?thesis by (simp add: dev_update_def Let_def doUpdate_inv)
  qed
qed

lemma run_posted_inv:
  "device_inv d \<Longrightarrow> posted (dev_queue d) \<noteq> [] \<Longrightarrow> device_inv (dev_run_posted enc d)"
proof -
  assume inv: "device_inv d" and p: "posted (dev_queue d) \<noteq> []"
  then have q: "queue_inv (dev_queue d)" and s: "slot_ok d" by (simp_all add: device_inv_def)
  have h: "handles (dev_queue d) = []" by (rule posted_slot [OF q p])
  have "queue_inv (run_posted (dev_queue d))" by (rule queue_step_inv [OF queue_run [OF p] q])
  moreover have "handles (run_posted (dev_queue d)) = [hd (posted (dev_queue d))]"
    by (simp add: run_posted_def run_task_def h)
  ultimately show ?thesis using h s by (auto simp: dev_run_posted_def Let_def slot_ok_def intro!: doUpdate_inv)
qed

lemma processResponse_entries:
  "processResponse cmd h ec buf entries = (entries', outcome) \<Longrightarrow>
     (\<forall>key. outcome = Registered key \<longrightarrow> entries key = None \<and> entries' = entries(key \<mapsto> h)) \<and>
     (\<not> keeps_handle outcome \<longrightarrow> entries' = entries)"
  by (auto simp: processResponse_def registerResponseHandler_def Let_def split: prod.splits if_splits option.splits)

lemma response_inv: "device_inv d \<Longrightarrow> t \<in> set (awaiting d) \<Longrightarrow> device_inv (dev_response cmds t ec buf d)"
proof -
  assume inv: "device_inv d" and t: "t \<in> set (awaiting d)"
  then have q: "queue_inv (dev_queue d)" and s: "handles (dev_queue d) = [t]" "awaiting d = [t]" "dev_entries d = Map.empty"
    by (auto simp: device_inv_def slot_ok_def)
  obtain entries outcome where p: "processResponse (cmds t) t ec buf (dev_entries d) = (entries, outcome)"
    by (cases "processResponse (cmds t) t ec buf (dev_entries d)")
  note P = processResponse_entries [OF p]
  let ?d = "d\<lparr>awaiting := remove1 t (awaiting d), dev_entries := entries\<rparr>"
  have r: "dev_response cmds t ec buf d =
      (if keeps_handle outcome then ?d else ?d\<lparr>dev_queue := drop_handle t (dev_queue ?d)\<rparr>)"
    unfolding dev_response_def p by (simp add: Let_def)
  show ?thesis
  proof (cases outcome)
    case (Registered key)
    with P s q show ?thesis unfolding r by (cases key) (auto simp: device_inv_def slot_ok_def)
  qed (use P s drop_only_handle [OF q s(1)] in \<open>simp_all add: r device_inv_def slot_ok_def\<close>)
qed

lemma call_inv:
  assumes inv: "device_inv d" and res: "res = (dev_entries d, None) \<or>
      (\<exists>key h ec cc rs data. dev_entries d key = Some h \<and>
         res = ((dev_entries d)(key := None), Some (h, ec, cc, rs, data)))"
  shows "device_inv (dev_call res d)"
  using res
proof (elim disjE exE conjE)
  assume "res = (dev_entries d, None)"
  then show ?thesis using inv by (simp add: dev_call_def)
next
  fix key h ec cc rs data
  assume e: "dev_entries d key = Some h" and r: "res = ((dev_entries d)(key := None), Some (h, ec, cc, rs, data))"
  with inv have q: "queue_inv (dev_queue d)" and s: "handles (dev_queue d) = [h]" "awaiting d = []" "dev_entries d = [key \<mapsto> h]"
    by (auto simp: device_inv_def slot_ok_def split: if_splits)
  then show ?thesis
    using drop_only_handle [OF q s(1)] by (simp add: r dev_call_def device_inv_def slot_ok_def)
qed

lemma response_handler_result:
  "response_handler info data entries = (entries, None) \<or>
   (\<exists>key h ec cc rs d. entries key = Some h \<and>
      response_handler info data entries = (entries(key := None), Some (h, ec, cc, rs, d)))"
proof -
  obtain rc cc rs i resp where d: "decodeLongRunningResponseEvent data 0 0 0 [] = (rc, cc, rs, i, resp)"
    by (metis prod_cases5)
  define key where "key = (ucast (eventState info AND 0xFF) :: u8, ucast (drop_bit 8 (eventState info) AND 0xFF) :: u8, i)"
  have r: "response_handler info data entries =
      (if eventClass info \<noteq> longRunningResponseEventClass \<or> rc \<noteq> 0 then (entries, None)
       else case entries key of None \<Rightarrow> (entries, None)
         | Some h \<Rightarrow> (entries(key := None), Some (h, False, cc, rs, resp)))"
    by (simp add: response_handler_def d key_def Let_def split: option.split)
  show ?thesis
  proof (cases "entries key")
    case None
    then show ?thesis by (simp add: r)
  next
    case (Some h)
    then show ?thesis unfolding r
      by (cases "eventClass info \<noteq> longRunningResponseEventClass \<or> rc \<noteq> 0")
        (simp, rule disjI2, rule exI [of _ key], simp, rule exI [of _ False], simp)
  qed
qed

lemma onTimeout_result:
  "onTimeout key entries = (entries, None) \<or>
   (\<exists>k h ec cc rs d. entries k = Some h \<and>
      onTimeout key entries = (entries(k := None), Some (h, ec, cc, rs, d)))"
proof (cases "entries key")
  case None
  then show ?thesis by (simp add: onTimeout_def)
next
  case (Some h)
  then have "entries key = Some h \<and> onTimeout key entries = (entries(key := None), Some (h, True, CC_ERROR, 0, []))"
    by (simp add: onTimeout_def)
  then show ?thesis by blast
qed

lemma device_step_inv: "device_step enc cmds d d' \<Longrightarrow> device_inv d \<Longrightarrow> device_inv d'"
  by (erule device_step_cases)
    (auto intro: update_inv run_posted_inv response_inv call_inv [OF _ response_handler_result]
      call_inv [OF _ onTimeout_result])

lemma new_device_inv: "device_inv new_device"
  by (simp add: device_inv_def slot_ok_def new_device_def new_serial_queue_def queue_inv_def)

interpretation commands: invariant_system "\<lambda>d. d = new_device" "device_step enc cmds" device_inv for enc cmds
  by unfold_locales (auto simp: new_device_inv intro: device_step_inv)

section \<open>Properties\<close>

definition demo_cmds :: "nat \<Rightarrow> command_config" where
  "demo_cmds t = \<lparr>cmd_messageType = PLATFORM_ENVIRONMENTAL, cmd_commandId = 0x45\<rparr>"

definition accepted_frame :: bytes where
  "accepted_frame = [0x10, 0xDE, 0x05, 0x89, 3, 0x45, 0x7D, 0, 0]"

definition demo_device :: device where
  "demo_device = dev_response demo_cmds 1 False accepted_frame
     (dev_update (\<lambda>_. True) 2 (dev_update (\<lambda>_. True) 1 new_device))"

lemma demo_device_reachable: "reach (\<lambda>d. d = new_device) (device_step (\<lambda>_. True) demo_cmds) demo_device"
  unfolding demo_device_def
  by (rule reach_step, rule reach_step, rule reach_step, rule reach_init, rule refl, rule device_update,
      rule device_update, rule device_response, code_simp)

text \<open>C8: the slot of the serial queue is never lost and never shared: a release handle is alive exactly
  while its command either waits for the MCTP answer or is the one entry of the response table, where its
  timer bounds the wait. In particular at most one entry is ever registered.\<close>

theorem slot_accounted:
  assumes "reach (\<lambda>d. d = new_device) (device_step enc cmds) d"
  shows "handles (dev_queue d) = [] \<and> awaiting d = [] \<and> dom (dev_entries d) = {} \<or>
    (\<exists>t. handles (dev_queue d) = [t] \<and>
       (awaiting d = [t] \<and> dom (dev_entries d) = {} \<or>
        awaiting d = [] \<and> (\<exists>key. dev_entries d = [key \<mapsto> t])))"
  using commands.reach_inv [OF assms] by (auto simp: device_inv_def slot_ok_def)

lemma slot_accounted_witness:
  "handles (dev_queue demo_device) = [] \<and> awaiting demo_device = [] \<and> dom (dev_entries demo_device) = {} \<or>
    (\<exists>t. handles (dev_queue demo_device) = [t] \<and>
       (awaiting demo_device = [t] \<and> dom (dev_entries demo_device) = {} \<or>
        awaiting demo_device = [] \<and> (\<exists>key. dev_entries demo_device = [key \<mapsto> t])))"
  by (rule slot_accounted [OF demo_device_reachable])

text \<open>Because the queue serialises the commands, registering a response handler never finds its key
  taken: the \<open>EEXIST\<close> branch of \<open>processResponse\<close> is unreachable.\<close>

lemma registration_never_collides:
  assumes "reach (\<lambda>d. d = new_device) (device_step enc cmds) d" and "t \<in> set (awaiting d)"
  shows "snd (processResponse (cmds t) t ec buf (dev_entries d)) \<noteq> RegisterFailed"
proof -
  have "dev_entries d = Map.empty"
    using commands.reach_inv [OF assms(1)] assms(2) by (auto simp: device_inv_def slot_ok_def)
  then show ?thesis
    by (auto simp: processResponse_def registerResponseHandler_def Let_def split: prod.splits if_splits)
qed

lemma registration_never_collides_witness:
  "snd (processResponse (demo_cmds 1) 1 False accepted_frame
     (dev_entries (dev_update (\<lambda>_. True) 1 new_device))) \<noteq> RegisterFailed"
proof (rule registration_never_collides)
  show "reach (\<lambda>d. d = new_device) (device_step (\<lambda>_. True) demo_cmds) (dev_update (\<lambda>_. True) 1 new_device)"
    by (rule reach_step, rule reach_init, rule refl, rule device_update)
qed code_simp

text \<open>When the pending answer times out the command is told, its entry is gone, its handle is
  released, and the oldest waiting command is posted in the same step; with none waiting the queue is
  idle.\<close>

lemma timeout_frees_slot:
  assumes "reach (\<lambda>d. d = new_device) (device_step enc cmds) d" and "dev_entries d key = Some t"
  shows "let d' = dev_call (onTimeout key (dev_entries d)) d in
    snd (onTimeout key (dev_entries d)) = Some (t, True, CC_ERROR, 0, []) \<and> dev_entries d' = Map.empty \<and>
    handles (dev_queue d') = [] \<and> posted (dev_queue d') = take 1 (pending (dev_queue d)) \<and>
    inFlight (dev_queue d') = (pending (dev_queue d) \<noteq> [])"
proof -
  have inv: "queue_inv (dev_queue d)" and s: "handles (dev_queue d) = [t]" "dev_entries d = [key \<mapsto> t]"
    using commands.reach_inv [OF assms(1)] assms(2) by (auto simp: device_inv_def slot_ok_def split: if_splits)
  have "posted (dev_queue d) = []" "inFlight (dev_queue d)"
    using holder [OF inv, of t] s by simp_all
  then show ?thesis
    using s by (auto simp: onTimeout_def dev_call_def drop_handle_def release_def Let_def split: list.split)
qed

lemma timeout_frees_slot_witness:
  "let d' = dev_call (onTimeout (3, 0x45, 5) (dev_entries demo_device)) demo_device in
    snd (onTimeout (3, 0x45, 5) (dev_entries demo_device)) = Some (1, True, CC_ERROR, 0, []) \<and> dev_entries d' = Map.empty \<and>
    handles (dev_queue d') = [] \<and> posted (dev_queue d') = take 1 (pending (dev_queue demo_device)) \<and>
    inFlight (dev_queue d') = (pending (dev_queue demo_device) \<noteq> [])"
  by (rule timeout_frees_slot [OF demo_device_reachable]) code_simp

text \<open>A long-running event completes exactly the registered command it names: the event class must
  be 128, the low and high bytes of the event state name the message type and the command, and the first
  four payload bytes are instance id, completion code and reason code; the rest of the payload is the
  response, passed on unchanged.\<close>

lemma long_running_event_dispatch:
  "response_handler info data entries = (entries', Some (h, ec, cc, rs, resp)) \<longleftrightarrow>
     \<not> ec \<and> eventClass info = 128 \<and>
     (\<exists>i. data = [i, cc] @ le_bytes rs @ resp \<and>
        (let key = (ucast (eventState info AND 0xFF), ucast (drop_bit 8 (eventState info) AND 0xFF), i) in
           entries key = Some h \<and> entries' = entries(key := None)))"
proof -
  obtain rc cc' rs' i' resp' where d: "decodeLongRunningResponseEvent data 0 0 0 [] = (rc, cc', rs', i', resp')"
    by (metis prod_cases5)
  have ex: "rc = 0 \<and> cc' = c \<and> rs' = r \<and> i' = i \<and> resp' = p \<longleftrightarrow> data = [i, c] @ le_bytes r @ p" for c r i p
    using decodeLongRunningResponseEvent_exact [of data 0 0 0 "[]" c r i p] d by simp
  define key where "key i = (ucast (eventState info AND 0xFF) :: u8, ucast (drop_bit 8 (eventState info) AND 0xFF) :: u8, i :: u8)" for i
  have r: "response_handler info data entries =
      (if eventClass info \<noteq> 128 \<or> rc \<noteq> 0 then (entries, None)
       else case entries (key i') of None \<Rightarrow> (entries, None)
         | Some h \<Rightarrow> (entries(key i' := None), Some (h, False, cc', rs', resp')))"
    by (simp add: response_handler_def d key_def Let_def longRunningResponseEventClass_def split: option.split)
  have "response_handler info data entries = (entries', Some (h, ec, cc, rs, resp)) \<longleftrightarrow>
     \<not> ec \<and> eventClass info = 128 \<and>
     (\<exists>i. (rc = 0 \<and> cc' = cc \<and> rs' = rs \<and> i' = i \<and> resp' = resp) \<and>
       entries (key i) = Some h \<and> entries' = entries(key i := None))"
    unfolding r by (auto split: option.split)
  then show ?thesis unfolding ex key_def by (simp only: Let_def)
qed

end
