(* ===== verification/Mctp_Repository.thy ===== *)
theory Mctp_Repository
  imports Prelude "HOL-Library.List_Lexorder" "HOL-Library.Char_ord"
begin

text \<open>
  The inventory of MCTP devices \<open>MCTPDeviceRepository\<close> (\<open>mctp/MCTPDeviceRepository.hpp\<close>): the map
  from inventory paths to devices, and its reverse index, the least path and the number of paths of
  each device. A device is an opaque value of type \<open>'d\<close> whose equality is that of the shared pointers.
  The map ordered by path is the association list its iteration yields; strings are compared by
  their unsigned bytes, as \<open>std::string\<close> compares them.
\<close>

section \<open>The ordered map\<close>

text \<open>\<open>emplace\<close> returns the map, the value now held by the key, and whether the key is new.\<close>

fun emplace :: "'k::linorder \<Rightarrow> 'v \<Rightarrow> ('k \<times> 'v) list \<Rightarrow> ('k \<times> 'v) list \<times> 'v \<times> bool" where
  "emplace k v [] = ([(k, v)], v, True)"
| "emplace k v ((a, b) # m) =
     (if k < a then ((k, v) # (a, b) # m, v, True)
      else if k = a then ((a, b) # m, b, False)
      else (let (m', held, fresh) = emplace k v m in ((a, b) # m', held, fresh)))"

fun erase_key :: "'k \<Rightarrow> ('k \<times> 'v) list \<Rightarrow> ('k \<times> 'v) list" where
  "erase_key k [] = []"
| "erase_key k ((a, b) # m) = (if k = a then m else (a, b) # erase_key k m)"

abbreviation ordered_map :: "('k::linorder \<times> 'v) list \<Rightarrow> bool" where
  "ordered_map m \<equiv> sorted_wrt (<) (map fst m)"

lemma emplace_mem: "x \<in> set (fst (emplace k v m)) \<Longrightarrow> fst x = k \<or> x \<in> set m"
  by (induction k v m rule: emplace.induct) (auto split: prod.splits if_splits)

lemma ordered_emplace: "ordered_map m \<Longrightarrow> ordered_map (fst (emplace k v m))"
proof (induction k v m rule: emplace.induct)
  case (2 k v a b m)
  have "a < fst x" if "x \<in> set (fst (emplace k v m))" "\<not> k < a" "k \<noteq> a" for x
    using emplace_mem [OF that(1)] that 2(2) by auto
  moreover have "a < y" if "k < a" "y \<in> fst ` set m" for y
    using that 2(2) by auto
  ultimately show ?case
    using 2 by (force split: prod.splits)
qed simp

lemma ordered_erase: "ordered_map m \<Longrightarrow> ordered_map (erase_key k m)"
proof (induction k m rule: erase_key.induct)
  case (2 k a b m)
  have "set (erase_key k m) \<subseteq> set m"
    by (induction k m rule: erase_key.induct) auto
  with 2 show ?case by auto
qed simp

lemma map_of_emplace:
  "ordered_map m \<Longrightarrow> map_of (fst (emplace k v m)) =
     (case map_of m k of None \<Rightarrow> (map_of m)(k \<mapsto> v) | Some w \<Rightarrow> map_of m)"
proof (induction k v m rule: emplace.induct)
  case (2 k v a b m)
  have "map_of m k = None" if "k < a"
    using 2(2) that by (force simp: map_of_eq_None_iff)
  with 2 show ?case
    by (auto simp: fun_eq_iff split: prod.splits option.splits)
qed auto

lemma emplace_result:
  "ordered_map m \<Longrightarrow> snd (emplace k v m) =
     (case map_of m k of None \<Rightarrow> (v, True) | Some w \<Rightarrow> (w, False))"
proof (induction k v m rule: emplace.induct)
  case (2 k v a b m)
  have "map_of m k = None" if "k < a"
    using 2(2) that by (force simp: map_of_eq_None_iff)
  with 2 show ?case
    by (auto split: prod.splits option.splits)
qed auto

lemma emplace_present: "ordered_map m \<Longrightarrow> map_of m k = Some w \<Longrightarrow> fst (emplace k v m) = m"
proof (induction k v m rule: emplace.induct)
  case (2 k v a b m)
  have "map_of m k = None" if "k < a"
    using 2(2) that by (force simp: map_of_eq_None_iff)
  with 2 show ?case
    by (auto split: prod.splits)
qed auto

lemma set_emplace_new:
  "map_of m k = None \<Longrightarrow> set (fst (emplace k v m)) = insert (k, v) (set m)"
  by (induction k v m rule: emplace.induct) (auto split: prod.splits if_splits)

lemma map_of_erase: "ordered_map m \<Longrightarrow> map_of (erase_key k m) = (map_of m)(k := None)"
proof (induction k m rule: erase_key.induct)
  case (2 k a b m)
  have "map_of m a = None"
    using 2(2) by (force simp: map_of_eq_None_iff)
  with 2 show ?case
    by (auto simp: fun_eq_iff)
qed (simp add: fun_eq_iff)

lemma set_erase_key: "ordered_map m \<Longrightarrow> set (erase_key k m) = {x \<in> set m. fst x \<noteq> k}"
proof (induction m)
  case (Cons x m)
  then have "\<forall>y\<in>set m. fst x < fst y"
    by auto
  with Cons show ?case
    by (cases x) auto
qed simp

section \<open>The repository\<close>

datatype repo_error = DeviceOrResourceBusy | NoSuchDevice

record 'd repository =
  devices :: "(string \<times> 'd) list"
  inventoryByDevice :: "'d \<Rightarrow> string option"
  inventoryCountByDevice :: "'d \<Rightarrow> nat option"

definition empty_repository :: "'d repository" where
  "empty_repository = \<lparr>devices = [], inventoryByDevice = Map.empty, inventoryCountByDevice = Map.empty\<rparr>"

definition addReverseLookup :: "string \<Rightarrow> 'd \<Rightarrow> 'd repository \<Rightarrow> 'd repository" where
  "addReverseLookup inventory device r =
     (let r = (case inventoryByDevice r device of
                 None \<Rightarrow> r\<lparr>inventoryByDevice := (inventoryByDevice r)(device \<mapsto> inventory)\<rparr>
               | Some held \<Rightarrow>
                   if inventory < held
                   then r\<lparr>inventoryByDevice := (inventoryByDevice r)(device \<mapsto> inventory)\<rparr>
                   else r)
      in r\<lparr>inventoryCountByDevice := (inventoryCountByDevice r)
             (device \<mapsto> (case inventoryCountByDevice r device of None \<Rightarrow> 0 | Some n \<Rightarrow> n) + 1)\<rparr>)"

definition erase_reverse :: "'d \<Rightarrow> 'd repository \<Rightarrow> 'd repository" where
  "erase_reverse device r =
     r\<lparr>inventoryByDevice := (inventoryByDevice r)(device := None),
       inventoryCountByDevice := (inventoryCountByDevice r)(device := None)\<rparr>"

fun first_path :: "'d \<Rightarrow> (string \<times> 'd) list \<Rightarrow> string option" where
  "first_path device [] = None"
| "first_path device ((inventory, candidate) # m) =
     (if candidate = device then Some inventory else first_path device m)"

definition refreshReverseLookup :: "'d \<Rightarrow> 'd repository \<Rightarrow> 'd repository" where
  "refreshReverseLookup device r =
     (case first_path device (devices r) of
        Some inventory \<Rightarrow> r\<lparr>inventoryByDevice := (inventoryByDevice r)(device \<mapsto> inventory)\<rparr>
      | None \<Rightarrow> erase_reverse device r)"

definition removeReverseLookup :: "'d \<Rightarrow> 'd repository \<Rightarrow> 'd repository" where
  "removeReverseLookup device r =
     (case inventoryCountByDevice r device of
        None \<Rightarrow> erase_reverse device r
      | Some n \<Rightarrow>
          if n \<le> 1 then erase_reverse device r
          else refreshReverseLookup device
                 (r\<lparr>inventoryCountByDevice := (inventoryCountByDevice r)(device \<mapsto> n - 1)\<rparr>))"

definition repo_add :: "string \<Rightarrow> 'd \<Rightarrow> 'd repository \<Rightarrow> repo_error + 'd repository" where
  "repo_add inventory device r =
     (case emplace inventory device (devices r) of
        (m, held, fresh) \<Rightarrow>
          if \<not> fresh \<and> held \<noteq> device then Inl DeviceOrResourceBusy
          else if fresh then Inr (addReverseLookup inventory device (r\<lparr>devices := m\<rparr>))
          else Inr (r\<lparr>devices := m\<rparr>))"

definition repo_remove :: "'d \<Rightarrow> 'd repository \<Rightarrow> repo_error + 'd repository" where
  "repo_remove device r =
     (case inventoryByDevice r device of
        None \<Rightarrow> Inl NoSuchDevice
      | Some inventory \<Rightarrow>
          Inr (removeReverseLookup device (r\<lparr>devices := erase_key inventory (devices r)\<rparr>)))"

definition contains :: "'d \<Rightarrow> 'd repository \<Rightarrow> bool" where
  "contains device r \<longleftrightarrow> inventoryByDevice r device \<noteq> None"

definition inventoryFor :: "'d \<Rightarrow> 'd repository \<Rightarrow> string option" where
  "inventoryFor device r = inventoryByDevice r device"

definition deviceFor :: "string \<Rightarrow> 'd repository \<Rightarrow> 'd option" where
  "deviceFor inventory r = map_of (devices r) inventory"

text \<open>The remaining queries ask each device in path order; \<open>None\<close> from \<open>ask\<close> passes to the next.\<close>

fun first_answer :: "('d \<Rightarrow> 'a option) \<Rightarrow> (string \<times> 'd) list \<Rightarrow> 'a option" where
  "first_answer ask [] = None"
| "first_answer ask ((path, device) # m) =
     (case ask device of Some x \<Rightarrow> Some x | None \<Rightarrow> first_answer ask m)"

section \<open>The index invariant\<close>

definition paths_of :: "'d \<Rightarrow> (string \<times> 'd) list \<Rightarrow> string list" where
  "paths_of device m = map fst (filter (\<lambda>x. snd x = device) m)"

definition least_path :: "string list \<Rightarrow> string option" where
  "least_path ps = (case ps of [] \<Rightarrow> None | p # _ \<Rightarrow> Some p)"

definition path_count :: "string list \<Rightarrow> nat option" where
  "path_count ps = (if ps = [] then None else Some (length ps))"

definition repo_inv :: "'d repository \<Rightarrow> bool" where
  "repo_inv r \<longleftrightarrow>
     ordered_map (devices r) \<and>
     inventoryByDevice r = (\<lambda>d. least_path (paths_of d (devices r))) \<and>
     inventoryCountByDevice r = (\<lambda>d. path_count (paths_of d (devices r)))"

lemma paths_of_simps [simp]:
  "paths_of d [] = []"
  "paths_of d ((p, x) # m) = (if x = d then p # paths_of d m else paths_of d m)"
  by (simp_all add: paths_of_def)

lemma set_paths_of: "p \<in> set (paths_of d m) \<longleftrightarrow> (p, d) \<in> set m"
  by (force simp: paths_of_def)

lemma sorted_paths_of: "ordered_map m \<Longrightarrow> sorted_wrt (<) (paths_of d m)"
  by (induction m) (auto simp: set_paths_of, force)

lemma first_path_least: "first_path d m = least_path (paths_of d m)"
  by (induction m) (auto simp: least_path_def)

lemma paths_of_emplace:
  "ordered_map m \<Longrightarrow> map_of m k = None \<Longrightarrow>
   paths_of d (fst (emplace k v m)) = (if d = v then insort k (paths_of d m) else paths_of d m)"
proof (induction k v m rule: emplace.induct)
  case (2 k v a b m)
  have above: "k \<le> y" if "k < a" "y \<in> set (paths_of d m)" for y
    using that 2(2) by (force simp: set_paths_of)
  have "insort k (paths_of d m) = k # paths_of d m" if "k < a"
    using above [OF that] by (simp add: insort_is_Cons)
  with 2 show ?case
    by (auto split: prod.splits)
qed simp

lemma paths_of_erase:
  "ordered_map m \<Longrightarrow> map_of m k = Some v \<Longrightarrow>
   paths_of d (erase_key k m) = (if d = v then remove1 k (paths_of d m) else paths_of d m)"
proof (induction m)
  case (Cons x m)
  have "k \<notin> set (paths_of d m)" if "fst x = k"
    using that Cons.prems(1) by (force simp: set_paths_of)
  with Cons show ?case
    by (cases x) (auto split: if_splits)
qed simp

lemma least_path_insort:
  "least_path (insort k ps) =
     (case least_path ps of None \<Rightarrow> Some k | Some p \<Rightarrow> Some (if k \<le> p then k else p))"
  by (cases ps) (auto simp: least_path_def)

lemma least_path_iff_set: "least_path ps = None \<longleftrightarrow> ps = []"
  by (cases ps) (auto simp: least_path_def)

lemma map_of_paths_of:
  assumes "ordered_map m"
  shows "map_of m p = Some d \<longleftrightarrow> p \<in> set (paths_of d m)"
proof -
  have "distinct (map fst m)"
    using assms by (simp add: strict_sorted_iff)
  then show ?thesis
    by (simp add: set_paths_of)
qed

lemma repo_inv_empty [simp]: "repo_inv empty_repository"
  by (simp add: repo_inv_def empty_repository_def least_path_def path_count_def fun_eq_iff)

lemma repo_add_cases:
  assumes "repo_inv r"
  shows "repo_add p d r =
     (case deviceFor p r of
        None \<Rightarrow> Inr (addReverseLookup p d (r\<lparr>devices := fst (emplace p d (devices r))\<rparr>))
      | Some x \<Rightarrow> if x = d then Inr r else Inl DeviceOrResourceBusy)"
proof -
  have ord: "ordered_map (devices r)"
    using assms by (simp add: repo_inv_def)
  obtain m held fresh where e: "emplace p d (devices r) = (m, held, fresh)"
    by (cases "emplace p d (devices r)") auto
  have "(held, fresh) = (case map_of (devices r) p of None \<Rightarrow> (d, True) | Some w \<Rightarrow> (w, False))"
    using emplace_result [OF ord, of p d] e by simp
  moreover have "m = devices r" if "map_of (devices r) p = Some w" for w
    using emplace_present [OF ord that, of d] e by simp
  ultimately show ?thesis
    by (auto simp: repo_add_def deviceFor_def e split: option.splits)
qed

lemma addReverseLookup_inv:
  assumes inv: "repo_inv r" and new: "deviceFor p r = None"
  shows "repo_inv (addReverseLookup p d (r\<lparr>devices := fst (emplace p d (devices r))\<rparr>))"
proof -
  let ?m = "fst (emplace p d (devices r))"
  have ord: "ordered_map (devices r)" and new': "map_of (devices r) p = None"
    using inv new by (simp_all add: repo_inv_def deviceFor_def)
  have paths: "paths_of x ?m = (if x = d then insort p (paths_of x (devices r)) else paths_of x (devices r))"
    for x using paths_of_emplace [OF ord new'] .
  have i: "inventoryByDevice r x = least_path (paths_of x (devices r))"
    and c: "inventoryCountByDevice r x = path_count (paths_of x (devices r))" for x
    using inv by (simp_all add: repo_inv_def)
  have "inventoryByDevice (addReverseLookup p d (r\<lparr>devices := ?m\<rparr>)) x = least_path (paths_of x ?m)" for x
    by (auto simp: addReverseLookup_def Let_def paths least_path_insort i split: option.splits)
  moreover have "inventoryCountByDevice (addReverseLookup p d (r\<lparr>devices := ?m\<rparr>)) x = path_count (paths_of x ?m)" for x
    by (auto simp: addReverseLookup_def Let_def paths c path_count_def insort_not_Nil split: option.splits)
  moreover have "devices (addReverseLookup p d (r\<lparr>devices := ?m\<rparr>)) = ?m"
    by (auto simp: addReverseLookup_def Let_def split: option.splits)
  ultimately show ?thesis
    using ordered_emplace [OF ord] by (simp add: repo_inv_def fun_eq_iff)
qed

lemma devices_addReverseLookup [simp]: "devices (addReverseLookup p d r) = devices r"
  by (auto simp: addReverseLookup_def Let_def split: option.splits)

lemma devices_removeReverseLookup [simp]: "devices (removeReverseLookup d r) = devices r"
  by (auto simp: removeReverseLookup_def refreshReverseLookup_def erase_reverse_def split: option.splits)

lemma removeReverseLookup_inv:
  assumes inv: "repo_inv r" and held: "inventoryByDevice r d = Some p"
  shows "repo_inv (removeReverseLookup d (r\<lparr>devices := erase_key p (devices r)\<rparr>))"
proof -
  let ?m = "erase_key p (devices r)"
  have ord: "ordered_map (devices r)"
    and i: "\<And>x. inventoryByDevice r x = least_path (paths_of x (devices r))"
    and c: "\<And>x. inventoryCountByDevice r x = path_count (paths_of x (devices r))"
    using inv by (simp_all add: repo_inv_def)
  obtain ps where ps: "paths_of d (devices r) = p # ps"
    using held by (cases "paths_of d (devices r)") (auto simp: i least_path_def)
  then have "map_of (devices r) p = Some d"
    by (simp add: map_of_paths_of [OF ord])
  then have paths: "paths_of x ?m = (if x = d then ps else paths_of x (devices r))" for x
    using paths_of_erase [OF ord] ps by simp
  have "inventoryByDevice (removeReverseLookup d (r\<lparr>devices := ?m\<rparr>)) x = least_path (paths_of x ?m)" for x
    by (cases ps) (auto simp: removeReverseLookup_def refreshReverseLookup_def erase_reverse_def
        first_path_least paths i c ps path_count_def least_path_def)
  moreover have "inventoryCountByDevice (removeReverseLookup d (r\<lparr>devices := ?m\<rparr>)) x = path_count (paths_of x ?m)" for x
    by (cases ps) (auto simp: removeReverseLookup_def refreshReverseLookup_def erase_reverse_def
        first_path_least paths c ps path_count_def least_path_def)
  ultimately show ?thesis
    using ordered_erase [OF ord] by (simp add: repo_inv_def fun_eq_iff)
qed

lemma repo_add_inv: "repo_inv r \<Longrightarrow> repo_add p d r = Inr r' \<Longrightarrow> repo_inv r'"
  by (auto simp: repo_add_cases addReverseLookup_inv split: option.splits if_splits)

lemma repo_remove_inv: "repo_inv r \<Longrightarrow> repo_remove d r = Inr r' \<Longrightarrow> repo_inv r'"
  by (auto simp: repo_remove_def removeReverseLookup_inv split: option.splits)

section \<open>Interface of a device registry\<close>

text \<open>
  What the reactor relies on: a registry holds at most one device per path, refuses a path another
  device holds, and removes a device by its identity. The lemmas are about registries in which
  every device has one path, which is how the reactor uses it.
\<close>

definition one_path_each :: "(string \<Rightarrow> 'd option) \<Rightarrow> bool" where
  "one_path_each h \<longleftrightarrow> (\<forall>p q d. h p = Some d \<longrightarrow> h q = Some d \<longrightarrow> p = q)"

locale device_registry =
  fixes ok :: "'r \<Rightarrow> bool" and holds :: "'r \<Rightarrow> string \<Rightarrow> 'd option"
    and ins :: "string \<Rightarrow> 'd \<Rightarrow> 'r \<Rightarrow> repo_error + 'r" and del :: "'d \<Rightarrow> 'r \<Rightarrow> repo_error + 'r"
    and has :: "'d \<Rightarrow> 'r \<Rightarrow> bool"
  assumes ins_free: "ok r \<Longrightarrow> holds r p = None \<Longrightarrow>
      \<exists>r'. ins p d r = Inr r' \<and> ok r' \<and> holds r' = (holds r)(p \<mapsto> d)"
    and ins_held: "ok r \<Longrightarrow> holds r p = Some x \<Longrightarrow>
      ins p d r = (if x = d then Inr r else Inl DeviceOrResourceBusy)"
    and del_held: "ok r \<Longrightarrow> holds r p = Some d \<Longrightarrow>
      \<exists>q r'. holds r q = Some d \<and> del d r = Inr r' \<and> ok r' \<and> holds r' = (holds r)(q := None)"
    and del_absent: "ok r \<Longrightarrow> \<forall>p. holds r p \<noteq> Some d \<Longrightarrow> del d r = Inl NoSuchDevice"
    and has_iff: "ok r \<Longrightarrow> has d r \<longleftrightarrow> (\<exists>p. holds r p = Some d)"
begin

lemma del_only_path:
  assumes "ok r" "one_path_each (holds r)" "holds r p = Some d"
  shows "\<exists>r'. del d r = Inr r' \<and> ok r' \<and> holds r' = (holds r)(p := None) \<and> one_path_each (holds r') \<and> \<not> has d r'"
proof -
  obtain q r' where q: "holds r q = Some d" "del d r = Inr r'" "ok r'" "holds r' = (holds r)(q := None)"
    using del_held [OF assms(1,3)] by blast
  moreover have "q = p"
    using assms(2,3) q(1) by (auto simp: one_path_each_def)
  ultimately show ?thesis
    using assms(2) by (auto simp: has_iff one_path_each_def)
qed

lemma ins_new_device:
  assumes "ok r" "one_path_each (holds r)" "holds r p = None" "\<not> has d r"
  shows "\<exists>r'. ins p d r = Inr r' \<and> ok r' \<and> holds r' = (holds r)(p \<mapsto> d) \<and> one_path_each (holds r') \<and> has d r'"
proof -
  obtain r' where r': "ins p d r = Inr r'" "ok r'" "holds r' = (holds r)(p \<mapsto> d)"
    using ins_free [OF assms(1,3)] by blast
  then show ?thesis
    using assms by (auto simp: has_iff one_path_each_def)
qed

lemma del_undoes_ins:
  assumes "ok r" "one_path_each (holds r)" "holds r p = None" "\<not> has d r" "ins p d r = Inr r'"
  shows "\<exists>r''. del d r' = Inr r'' \<and> ok r'' \<and> holds r'' = holds r"
proof -
  have "ok r' \<and> holds r' = (holds r)(p \<mapsto> d) \<and> one_path_each (holds r')"
    using ins_new_device [OF assms(1-4)] assms(5) by auto
  moreover from this have "\<exists>r''. del d r' = Inr r'' \<and> ok r'' \<and> holds r'' = (holds r')(p := None)"
    using del_only_path [of r' p d] by auto
  ultimately show ?thesis
    using assms(3) by (auto simp: fun_upd_idem)
qed

end

lemma deviceFor_paths_of: "repo_inv r \<Longrightarrow> deviceFor p r = Some d \<longleftrightarrow> p \<in> set (paths_of d (devices r))"
  by (simp add: repo_inv_def deviceFor_def map_of_paths_of)

lemma contains_iff: "repo_inv r \<Longrightarrow> contains d r \<longleftrightarrow> (\<exists>p. deviceFor p r = Some d)"
  by (cases "paths_of d (devices r)")
    (auto simp: deviceFor_paths_of contains_def, auto simp: repo_inv_def least_path_def)

lemma repo_remove_cases:
  assumes "repo_inv r"
  shows "repo_remove d r =
     (case least_path (paths_of d (devices r)) of
        None \<Rightarrow> Inl NoSuchDevice
      | Some p \<Rightarrow> Inr (removeReverseLookup d (r\<lparr>devices := erase_key p (devices r)\<rparr>)))"
  using assms by (simp add: repo_remove_def repo_inv_def)

lemma deviceFor_add:
  "repo_inv r \<Longrightarrow> deviceFor p r = None \<Longrightarrow>
   (\<lambda>q. deviceFor q (addReverseLookup p d (r\<lparr>devices := fst (emplace p d (devices r))\<rparr>))) = (\<lambda>q. deviceFor q r)(p \<mapsto> d)"
  by (simp add: deviceFor_def repo_inv_def map_of_emplace fun_eq_iff)

lemma deviceFor_remove:
  "repo_inv r \<Longrightarrow>
   (\<lambda>q. deviceFor q (removeReverseLookup d (r\<lparr>devices := erase_key p (devices r)\<rparr>))) = (\<lambda>q. deviceFor q r)(p := None)"
  by (simp add: deviceFor_def repo_inv_def map_of_erase fun_eq_iff)

interpretation registry: device_registry repo_inv "\<lambda>r p. deviceFor p r" repo_add repo_remove contains
proof
  fix r :: "'d repository" and p :: string and d :: 'd
  assume r: "repo_inv r"
  show "deviceFor p r = None \<Longrightarrow> \<exists>r'. repo_add p d r = Inr r' \<and> repo_inv r' \<and>
      (\<lambda>q. deviceFor q r') = (\<lambda>q. deviceFor q r)(p \<mapsto> d)"
    using r by (simp add: repo_add_cases addReverseLookup_inv deviceFor_add)
  show "deviceFor p r = Some x \<Longrightarrow> repo_add p d r = (if x = d then Inr r else Inl DeviceOrResourceBusy)" for x
    using r by (simp add: repo_add_cases)
  show "contains d r \<longleftrightarrow> (\<exists>p. deviceFor p r = Some d)"
    using r by (rule contains_iff)
  show "\<forall>p. deviceFor p r \<noteq> Some d \<Longrightarrow> repo_remove d r = Inl NoSuchDevice"
    using contains_iff [OF r, of d] by (simp add: contains_def repo_remove_def)
  assume p: "deviceFor p r = Some d"
  then obtain q ps where q: "paths_of d (devices r) = q # ps"
    by (cases "paths_of d (devices r)") (simp_all add: deviceFor_paths_of [OF r])
  then have "repo_remove d r = Inr (removeReverseLookup d (r\<lparr>devices := erase_key q (devices r)\<rparr>))"
    using r by (simp add: repo_remove_cases least_path_def)
  moreover have "deviceFor q r = Some d"
    using q by (simp add: deviceFor_paths_of [OF r])
  ultimately show "\<exists>q r'. deviceFor q r = Some d \<and> repo_remove d r = Inr r' \<and> repo_inv r' \<and>
      (\<lambda>p. deviceFor p r') = (\<lambda>p. deviceFor p r)(q := None)"
    using repo_remove_inv [OF r] deviceFor_remove [OF r] by blast
qed

section \<open>The repository implements a finite map\<close>

inductive repo_step :: "'d repository \<Rightarrow> 'd repository \<Rightarrow> bool" where
  step_add: "repo_add p d r = Inr r' \<Longrightarrow> repo_step r r'"
| step_remove: "repo_remove d r = Inr r' \<Longrightarrow> repo_step r r'"

inductive_cases repo_step_cases: "repo_step r r'"

interpretation repositories: invariant_system "\<lambda>r. r = empty_repository" repo_step repo_inv
  by unfold_locales (auto elim: repo_step_cases dest: repo_add_inv repo_remove_inv)

text \<open>
  C16: In every reachable repository the reverse index answers as the map itself would: a device is
  contained exactly if some path maps to it, \<open>inventoryFor\<close> is its least path and the count is the
  number of its paths. Adding maps the path to the device and changes nothing else, is idempotent,
  and is refused exactly if another device holds the path; removing an unknown device is refused,
  and removing a known one deletes its least path and nothing else.
\<close>
theorem repository_is_a_map:
  assumes "reach (\<lambda>r. r = empty_repository) repo_step r"
  shows "(contains d r \<longleftrightarrow> (\<exists>p. deviceFor p r = Some d)) \<and>
    inventoryFor d r = least_path (sort (map fst (filter (\<lambda>x. snd x = d) (devices r)))) \<and>
    inventoryCountByDevice r d = path_count (map fst (filter (\<lambda>x. snd x = d) (devices r))) \<and>
    (case repo_add p d r of
           Inl e \<Rightarrow> e = DeviceOrResourceBusy \<and> deviceFor p r \<notin> {None, Some d}
         | Inr r' \<Rightarrow> deviceFor p r \<in> {None, Some d} \<and>
             (\<lambda>q. deviceFor q r') = (\<lambda>q. deviceFor q r)(p \<mapsto> d)) \<and>
    (case repo_remove d r of
           Inl e \<Rightarrow> e = NoSuchDevice \<and> \<not> contains d r
         | Inr r' \<Rightarrow> (\<exists>q. inventoryFor d r = Some q \<and>
             (\<lambda>p. deviceFor p r') = (\<lambda>p. deviceFor p r)(q := None)))"
proof -
  have inv: "repo_inv r"
    using repositories.reach_inv [OF assms] .
  have 1: "contains d r \<longleftrightarrow> (\<exists>p. deviceFor p r = Some d)"
    using inv by (rule contains_iff)
  have "sorted_wrt (<) (paths_of d (devices r))"
    using inv by (simp add: repo_inv_def sorted_paths_of)
  then have "sort (paths_of d (devices r)) = paths_of d (devices r)"
    by (simp add: strict_sorted_iff sorted_sort_id)
  with inv have 2: "inventoryFor d r = least_path (sort (map fst (filter (\<lambda>x. snd x = d) (devices r))))"
    and 3: "inventoryCountByDevice r d = path_count (map fst (filter (\<lambda>x. snd x = d) (devices r)))"
    by (simp_all add: inventoryFor_def repo_inv_def paths_of_def [symmetric])
  have 4: "case repo_add p d r of
           Inl e \<Rightarrow> e = DeviceOrResourceBusy \<and> deviceFor p r \<notin> {None, Some d}
         | Inr r' \<Rightarrow> deviceFor p r \<in> {None, Some d} \<and>
             (\<lambda>q. deviceFor q r') = (\<lambda>q. deviceFor q r)(p \<mapsto> d)"
    using deviceFor_add [OF inv, of p d] by (auto simp: repo_add_cases [OF inv] split: option.splits)
  have 5: "case repo_remove d r of
           Inl e \<Rightarrow> e = NoSuchDevice \<and> \<not> contains d r
         | Inr r' \<Rightarrow> (\<exists>q. inventoryFor d r = Some q \<and>
             (\<lambda>p. deviceFor p r') = (\<lambda>p. deviceFor p r)(q := None))"
    using deviceFor_remove [OF inv, of d]
    by (auto simp: repo_remove_def inventoryFor_def contains_def split: option.splits)
  show ?thesis
    using 1 2 3 4 5 by (intro conjI)
qed

text \<open>A device held under two paths: the smaller one is reported, and goes first.\<close>

definition try_add :: "string \<Rightarrow> 'd \<Rightarrow> 'd repository \<Rightarrow> 'd repository" where
  "try_add p d r = (case repo_add p d r of Inl _ \<Rightarrow> r | Inr r' \<Rightarrow> r')"

lemma reach_try_add:
  "reach (\<lambda>r. r = empty_repository) repo_step r \<Longrightarrow> reach (\<lambda>r. r = empty_repository) repo_step (try_add p d r)"
  by (auto simp: try_add_def split: sum.split intro: reach_step step_add)

definition sample_repository :: "nat repository" where
  "sample_repository = try_add ''a'' 1 (try_add ''b'' 1 empty_repository)"

lemma sample_repository_reachable: "reach (\<lambda>r. r = empty_repository) repo_step sample_repository"
  unfolding sample_repository_def by (intro reach_try_add reach_init refl)

theorem repository_is_a_map_witness: "inventoryFor 1 sample_repository = Some ''a''"
proof -
  have "inventoryFor 1 sample_repository =
      least_path (sort (map fst (filter (\<lambda>x. snd x = 1) (devices sample_repository))))"
    using repository_is_a_map [OF sample_repository_reachable, of 1] by blast
  also have "\<dots> = Some ''a''"
    by code_simp
  finally show ?thesis .
qed

end
