(* ===== verification/Mctp_Device.thy ===== *)
theory Mctp_Device
  imports Mctp_Repository Text_Format
begin

text \<open>
  The endpoint identifiers of an \<open>MCTPDDevice\<close> (\<open>mctp/MCTPEndpoint.hpp\<close>): which EIDs a device manages,
  the names it gives them, the record of the EIDs mctpd has published, and the object paths of
  endpoints with the parser the reactor applies to them. The D-Bus part of the class is in \<open>Mctp_Health\<close>.
\<close>

section \<open>The identifiers of a device\<close>

record mctpd_device =
  name :: string
  deviceNames :: "string list"
  interface :: string
  endpoint_eid_of :: "u8 option"
  staticEID :: "u8 option"
  bridgePoolStartEid :: "u8 option"
  bridgePoolEndEid :: "u8 option"
  discoveredMctpEids :: "u8 list"

definition getEid :: "'a mctpd_device_scheme \<Rightarrow> u8 option" where
  "getEid d = (case endpoint_eid_of d of Some e \<Rightarrow> Some e | None \<Rightarrow> staticEID d)"

definition managesEid :: "'a mctpd_device_scheme \<Rightarrow> u8 \<Rightarrow> bool" where
  "managesEid d eid =
     (if getEid d = Some eid then True
      else (case (bridgePoolStartEid d, bridgePoolEndEid d) of
              (Some start, Some end) \<Rightarrow> start \<le> eid \<and> eid \<le> end
            | _ \<Rightarrow> False))"

text \<open>\<open>size_t offset = eid - start\<close>: the difference is an \<open>int\<close>, the conversion and the sum wrap.\<close>

definition getNameForEid :: "'a mctpd_device_scheme \<Rightarrow> u8 \<Rightarrow> string option" where
  "getNameForEid d eid =
     (if getEid d = Some eid then Some (name d)
      else (case (bridgePoolStartEid d, bridgePoolEndEid d) of
              (Some start, Some end) \<Rightarrow>
                (let offset = (of_int (uint eid - uint start) :: u64); index = 1 + offset in
                 if unat index < length (deviceNames d) then Some (deviceNames d ! unat index) else None)
            | _ \<Rightarrow> None))"

definition markDiscoveredMctpEid :: "u8 \<Rightarrow> 'a mctpd_device_scheme \<Rightarrow> 'a mctpd_device_scheme" where
  "markDiscoveredMctpEid eid d =
     (if \<not> managesEid d eid then d
      else if eid \<in> set (discoveredMctpEids d) then d
      else d\<lparr>discoveredMctpEids := eid # discoveredMctpEids d\<rparr>)"

section \<open>Queries of the repository\<close>

text \<open>\<open>attr\<close> is the \<open>MCTPDDevice\<close> a device pointer points to, or \<open>None\<close> when the cast fails.\<close>

definition repo_getNameForEid :: "('d \<Rightarrow> mctpd_device option) \<Rightarrow> u8 \<Rightarrow> 'd repository \<Rightarrow> string option" where
  "repo_getNameForEid attr eid r =
     first_answer (\<lambda>d. case attr d of None \<Rightarrow> None | Some m \<Rightarrow> getNameForEid m eid) (devices r)"

definition getStaticEidFromInterface :: "('d \<Rightarrow> mctpd_device option) \<Rightarrow> string \<Rightarrow> 'd repository \<Rightarrow> u8 option" where
  "getStaticEidFromInterface attr iface r =
     (case first_answer
             (\<lambda>d. case attr d of None \<Rightarrow> None
                  | Some m \<Rightarrow> if interface m = iface then Some (getEid m) else None) (devices r) of
        None \<Rightarrow> None
      | Some e \<Rightarrow> e)"

definition mark_device :: "u8 \<Rightarrow> 'd \<Rightarrow> ('d \<Rightarrow> mctpd_device option) \<Rightarrow> 'd \<Rightarrow> mctpd_device option" where
  "mark_device eid d attr =
     (case attr d of None \<Rightarrow> attr | Some m \<Rightarrow> attr(d \<mapsto> markDiscoveredMctpEid eid m))"

definition markDiscoveredMctpEndpointEid ::
  "u8 \<Rightarrow> 'd repository \<Rightarrow> ('d \<Rightarrow> mctpd_device option) \<Rightarrow> 'd \<Rightarrow> mctpd_device option" where
  "markDiscoveredMctpEndpointEid eid r attr = fold (\<lambda>entry. mark_device eid (snd entry)) (devices r) attr"

section \<open>Endpoint paths\<close>

definition mctpdControlPath :: string where
  "mctpdControlPath = ''/au/com/codeconstruct/mctp1''"

definition endpoint_path :: "int \<Rightarrow> u8 \<Rightarrow> string" where
  "endpoint_path network eid =
     mctpdControlPath @ ''/networks/'' @ format_int network @ ''/endpoints/'' @ format_nat (unat eid)"

text \<open>\<open>from_chars\<close> has to read the whole text: a non-empty run of decimal digits up to its end.\<close>

definition eidFromMctpdEndpointPath :: "string \<Rightarrow> u8 option" where
  "eidFromMctpdEndpointPath path =
     (case find_after ''/endpoints/'' path of
        None \<Rightarrow> None
      | Some s \<Rightarrow>
          if s = [] \<or> \<not> list_all is_digit s \<or> 2 ^ 64 \<le> decimal s \<or> 255 < decimal s then None
          else Some (of_nat (decimal s)))"

text \<open>The handler of the signal that mctpd has published an object: its path and its interfaces.\<close>

definition mctpdEndpointControlIface :: string where
  "mctpdEndpointControlIface = ''au.com.codeconstruct.MCTP.Endpoint1''"

definition onMctpdEndpointInterfacesAdded ::
  "string \<Rightarrow> string list \<Rightarrow> 'd repository \<Rightarrow> ('d \<Rightarrow> mctpd_device option) \<Rightarrow> 'd \<Rightarrow> mctpd_device option" where
  "onMctpdEndpointInterfacesAdded path interfaces r attr =
     (if mctpdEndpointControlIface \<notin> set interfaces then attr
      else (case eidFromMctpdEndpointPath path of
              None \<Rightarrow> attr
            | Some eid \<Rightarrow> markDiscoveredMctpEndpointEid eid r attr))"

section \<open>Paths are read back\<close>

lemma find_after_skip:
  assumes "list_all (\<lambda>c. c \<noteq> CHR ''/'') ds"
  shows "find_after ''/endpoints/'' (ds @ ''/endpoints/'' @ s) = Some s"
  using assms by (induction ds) auto

lemma not_slash: "is_digit c \<Longrightarrow> c \<noteq> CHR ''/'' \<and> c \<noteq> CHR ''e''"
  by (auto simp: is_digit_def)

lemma format_int_clean:
  "list_all (\<lambda>c. c \<noteq> CHR ''/'') (format_int i)" "\<exists>c cs. format_int i = c # cs \<and> c \<noteq> CHR ''e''"
proof -
  have nat: "list_all (\<lambda>c. c \<noteq> CHR ''/'') (format_nat n)" for n
    using format_nat_digits [of n] by (auto simp: list_all_iff dest: not_slash)
  then show "list_all (\<lambda>c. c \<noteq> CHR ''/'') (format_int i)"
    by (simp add: format_int_def)
  have "\<exists>c cs. format_nat n = c # cs \<and> c \<noteq> CHR ''e''" for n
    using format_nat_digits [of n] format_nat_nonempty [of n]
    by (cases "format_nat n") (auto dest: not_slash)
  then show "\<exists>c cs. format_int i = c # cs \<and> c \<noteq> CHR ''e''"
    by (auto simp: format_int_def)
qed

lemma parse_endpoint_path: "eidFromMctpdEndpointPath (endpoint_path network eid) = Some eid"
proof -
  obtain c cs where net: "format_int network = c # cs" "c \<noteq> CHR ''e''"
    using format_int_clean(2) by blast
  have "find_after ''/endpoints/'' (endpoint_path network eid) =
      find_after ''/endpoints/'' (format_int network @ ''/endpoints/'' @ format_nat (unat eid))"
    using net by (simp add: endpoint_path_def mctpdControlPath_def)
  also have "\<dots> = Some (format_nat (unat eid))"
    by (rule find_after_skip [OF format_int_clean(1)])
  finally have found: "find_after ''/endpoints/'' (endpoint_path network eid) = Some (format_nat (unat eid))" .
  have "unat eid < 2 ^ LENGTH(8)"
    by (rule unsigned_less)
  then show ?thesis
    using format_nat_digits [of "unat eid"]
    by (simp add: eidFromMctpdEndpointPath_def found decimal_format_nat)
qed

text \<open>
  The reactor reads back the EID from the object path the device code builds for an endpoint, for
  every network number and every EID.
\<close>
lemma endpoint_path_roundtrip: "eidFromMctpdEndpointPath (endpoint_path network eid) = Some eid"
  by (rule parse_endpoint_path)

section \<open>Names\<close>

lemma wrapped_above:
  assumes "(n :: nat) < 256" "L \<le> 2 ^ 63"
  shows "L \<le> nat (2 ^ 64 + (int m + 1 - int n))"
proof -
  have "int L \<le> 2 ^ 63"
    using assms(2) by (metis of_nat_le_iff of_nat_numeral of_nat_power)
  also have "(2 ^ 63 :: int) + 256 \<le> 2 ^ 64"
    by simp
  then have "(2 ^ 63 :: int) \<le> 2 ^ 64 + (int m + 1 - int n)"
    using assms(1) by linarith
  finally have "nat (int L) \<le> nat (2 ^ 64 + (int m + 1 - int n))"
    by (rule nat_mono)
  then show ?thesis
    by (simp only: nat_int)
qed

text \<open>
  A device answers its own name for its own EID. For any other EID, when a pool is configured, it
  answers the entry of \<open>deviceNames\<close> at \<open>eid - start + 1\<close> whenever that is an index of the list. The end of
  the pool plays no part, and for \<open>eid = start - 1\<close> the difference wraps so that the answer is entry 0.
\<close>
lemma name_for_eid:
  assumes "length (deviceNames d) \<le> 2 ^ 63"
  shows "getNameForEid d eid =
    (if getEid d = Some eid then Some (name d)
     else case (bridgePoolStartEid d, bridgePoolEndEid d) of
       (Some start, Some end) \<Rightarrow>
         (let k = int (unat eid) + 1 - int (unat start) in
          if 0 \<le> k \<and> k < int (length (deviceNames d)) then Some (deviceNames d ! nat k) else None)
     | _ \<Rightarrow> None)"
proof (cases "getEid d = Some eid")
  case False
  have index: "unat (1 + (of_int (uint eid - uint start) :: u64)) =
      (let k = int (unat eid) + 1 - int (unat start) in if 0 \<le> k then nat k else nat (2 ^ 64 + k))" for start :: u8
  proof -
    have b: "0 \<le> uint eid" "uint eid < 256" "0 \<le> uint start" "uint start < 256"
      using uint_lt2p [of eid] uint_lt2p [of start] by simp_all
    define k where "k = uint eid + 1 - uint start"
    have "1 + (of_int (uint eid - uint start) :: u64) = of_int k"
      by (simp add: k_def)
    then have "uint (1 + (of_int (uint eid - uint start) :: u64)) = k mod 2 ^ 64"
      by (simp add: unsigned_of_int take_bit_eq_mod)
    also have "\<dots> = (if 0 \<le> k then k else 2 ^ 64 + k)"
    proof (cases "0 \<le> k")
      case True
      moreover have "k \<le> 256"
        using b unfolding k_def by linarith
      ultimately show ?thesis by simp
    next
      case False
      have "k mod 2 ^ 64 = (2 ^ 64 + k) mod 2 ^ 64"
        by simp
      also have "\<dots> = 2 ^ 64 + k"
      proof (intro mod_pos_pos_trivial)
        have "- 256 \<le> k"
          using b unfolding k_def by linarith
        with False show "0 \<le> 2 ^ 64 + k" "2 ^ 64 + k < 2 ^ 64"
          by simp_all
      qed
      finally show ?thesis
        using False by simp
    qed
    finally show ?thesis
      unfolding unat_eq_nat_uint k_def by (simp add: Let_def)
  qed
  have far: "nat (2 ^ 64 + (int (unat eid) + 1 - int (unat start))) \<ge> length (deviceNames d)" for start :: u8
  proof -
    have "unat start < 2 ^ LENGTH(8)"
      by (rule unsigned_less)
    then show ?thesis
      by (intro wrapped_above [OF _ assms]) simp
  qed
  show ?thesis
  proof (cases "bridgePoolStartEid d")
    case None
    with False show ?thesis by (simp add: getNameForEid_def)
  next
    case (Some start)
    show ?thesis
    proof (cases "bridgePoolEndEid d")
      case None
      with False Some show ?thesis by (simp add: getNameForEid_def)
    next
      case fin: (Some last)
      define k where "k = int (unat eid) + 1 - int (unat start)"
      have "getNameForEid d eid =
          (if unat (1 + (of_int (uint eid - uint start) :: u64)) < length (deviceNames d)
           then Some (deviceNames d ! unat (1 + (of_int (uint eid - uint start) :: u64))) else None)"
        using False Some fin by (simp add: getNameForEid_def Let_def)
      also have "\<dots> = (if 0 \<le> k \<and> k < int (length (deviceNames d)) then Some (deviceNames d ! nat k) else None)"
        using far [of start] unfolding index Let_def k_def [symmetric] by (auto simp: nat_less_iff)
      finally show ?thesis
        unfolding k_def using False Some fin by (simp only: Let_def) simp
    qed
  qed
qed (simp add: getNameForEid_def)

definition pool_device :: mctpd_device where
  "pool_device = \<lparr>name = ''hub'', deviceNames = [''hub'', ''x'', ''y''], interface = ''usb0'',
     endpoint_eid_of = None, staticEID = Some 20, bridgePoolStartEid = Some 30, bridgePoolEndEid = Some 30,
     discoveredMctpEids = []\<rparr>"

text \<open>The pool is the EID 30 alone; 29 and 31 get names all the same, though the device manages neither.\<close>

lemma name_for_eid_witness:
  "getNameForEid pool_device 29 = Some ''hub'' \<and> getNameForEid pool_device 30 = Some ''x'' \<and>
   getNameForEid pool_device 31 = Some ''y'' \<and> \<not> managesEid pool_device 29 \<and> \<not> managesEid pool_device 31"
proof -
  have "length (deviceNames pool_device) \<le> 2 ^ 63"
    by (simp add: pool_device_def)
  note this [THEN name_for_eid]
  from this [of 29] this [of 30] this [of 31] show ?thesis
    by (simp add: pool_device_def getEid_def managesEid_def)
qed

section \<open>Discovery\<close>

lemma mark_twice: "markDiscoveredMctpEid eid (markDiscoveredMctpEid eid m) = markDiscoveredMctpEid eid m"
  by (simp add: markDiscoveredMctpEid_def managesEid_def getEid_def)

lemma mark_fold:
  "fold (\<lambda>entry. mark_device eid (snd entry)) m attr d =
     (if d \<in> snd ` set m then map_option (markDiscoveredMctpEid eid) (attr d) else attr d)"
  by (induction m arbitrary: attr)
    (auto simp: mark_device_def mark_twice option.map_comp comp_def split: option.splits)

text \<open>
  When mctpd publishes an endpoint object at the path of an EID, the devices of the repository that
  manage this EID record it as discovered, once; the other devices, and any object without the
  endpoint interface, are left alone.
\<close>
lemma discovery_marks:
  assumes "reach (\<lambda>r. r = empty_repository) repo_step r"
  shows "onMctpdEndpointInterfacesAdded (endpoint_path network eid) interfaces r attr d =
    (if contains d r \<and> mctpdEndpointControlIface \<in> set interfaces
     then map_option (\<lambda>m. if managesEid m eid
            then m\<lparr>discoveredMctpEids := List.insert eid (discoveredMctpEids m)\<rparr> else m) (attr d)
     else attr d)"
proof -
  have inv: "repo_inv r"
    using repositories.reach_inv [OF assms] .
  then have "distinct (map fst (devices r))"
    by (simp add: repo_inv_def strict_sorted_iff)
  then have "d \<in> snd ` set (devices r) \<longleftrightarrow> contains d r"
    by (force simp: contains_iff [OF inv] deviceFor_def)
  moreover have "markDiscoveredMctpEid eid =
      (\<lambda>m :: mctpd_device. if managesEid m eid then m\<lparr>discoveredMctpEids := List.insert eid (discoveredMctpEids m)\<rparr> else m)"
    by (auto simp: markDiscoveredMctpEid_def fun_eq_iff List.insert_def)
  ultimately show ?thesis
    by (simp add: onMctpdEndpointInterfacesAdded_def parse_endpoint_path markDiscoveredMctpEndpointEid_def mark_fold)
qed

end
