(* ===== verification/Mctp_Reactor.thy ===== *)
theory Mctp_Reactor
  imports Mctp_Repository
begin

text \<open>
  The MCTP reactor (\<open>mctp/MCTPReactor.cpp\<close>): the state machine that sets up an endpoint for every
  device of the inventory, recovers endpoints that are lost, and removes endpoints whose inventory is
  gone. One record field per data member. What the devices and mctpd hold for the reactor is part of
  the state: the set-up requests and the removal callbacks that are outstanding, and the subscriptions
  to endpoint removals. The last fields record history: the removal requests issued, the calls of the
  association server, and the clear-halt recoveries.

  A handler returns \<open>Done\<close> with the new state, or \<open>Raised\<close> with the exception and the state it left.
  A failure that a device reports inside \<open>setup\<close> (it has no interface yet) is an event after the handler;
  it concerns that device only. Log output is not modelled, but the default insertion by \<open>states[id]\<close>
  in a log argument is.
\<close>

section \<open>Data\<close>

datatype MCTPDeviceState =
  Unmanaged | Assigning | Unassigned | Assigned | Quarantine | Lost | Recovering | Recovered
| Removing | Pending

text \<open>
  A device: its address (devices are compared as pointers), the value of its virtual method \<open>id\<close>, and
  for a \<open>USBMCTPDDevice\<close> its interface and recovery threshold. The identifier is an opaque key, no
  arithmetic is done on it, so the \<open>size_t\<close> is read as a natural number.
\<close>

record mctp_device =
  dev_address :: nat
  dev_id :: nat
  dev_usb :: "(string \<times> u8) option"

record mctp_endpoint =
  ep_path :: string
  ep_device :: mctp_device

datatype association_call = Associate string string | Disassociate string

record reactor =
  repo :: "mctp_device repository"
  states :: "nat \<Rightarrow> MCTPDeviceState option"
  failureCounts :: "(mctp_device \<times> int) list"
  usbSetupFailureCounts :: "mctp_device \<Rightarrow> int option"
  trackedEndpointGenerations :: "string \<Rightarrow> nat option"
  autoUSBRecoveryEnabled :: bool
  usbRecovery :: bool
  istRecovery :: bool
  outstanding :: "mctp_device list"
  removals :: "(string \<times> mctp_device) list"
  subscriptions :: "(mctp_endpoint \<times> nat) list"
  remove_requests :: "mctp_device list"
  association_calls :: "association_call list"
  halts_cleared :: "string list"
  ist_refreshes :: nat

definition new_reactor :: "bool \<Rightarrow> bool \<Rightarrow> reactor" where
  "new_reactor usb ist =
     \<lparr>repo = empty_repository, states = Map.empty, failureCounts = [], usbSetupFailureCounts = Map.empty,
      trackedEndpointGenerations = Map.empty, autoUSBRecoveryEnabled = True, usbRecovery = usb,
      istRecovery = ist, outstanding = [], removals = [], subscriptions = [], remove_requests = [],
      association_calls = [], halts_cleared = [], ist_refreshes = 0\<rparr>"

datatype outcome = Done reactor | Raised repo_error reactor

fun and_then :: "outcome \<Rightarrow> (reactor \<Rightarrow> outcome) \<Rightarrow> outcome" where
  "and_then (Done s) f = f s"
| "and_then (Raised e s) f = Raised e s"

section \<open>The state table\<close>

text \<open>\<open>states[dev->id()]\<close> inserts the default value \<open>Unmanaged\<close> when the key is absent.\<close>

definition state_of :: "mctp_device \<Rightarrow> reactor \<Rightarrow> MCTPDeviceState" where
  "state_of dev s = (case states s (dev_id dev) of None \<Rightarrow> Unmanaged | Some st \<Rightarrow> st)"

definition next_state :: "mctp_device \<Rightarrow> MCTPDeviceState \<Rightarrow> reactor \<Rightarrow> reactor" where
  "next_state dev st s = s\<lparr>states := (states s)(dev_id dev \<mapsto> st)\<rparr>"

abbreviation touch_state :: "mctp_device \<Rightarrow> reactor \<Rightarrow> reactor" where
  "touch_state dev s \<equiv> next_state dev (state_of dev s) s"

definition erase_state :: "mctp_device \<Rightarrow> reactor \<Rightarrow> reactor" where
  "erase_state dev s = s\<lparr>states := (states s)(dev_id dev := None)\<rparr>"

definition erase_failures :: "mctp_device \<Rightarrow> reactor \<Rightarrow> reactor" where
  "erase_failures dev s = s\<lparr>failureCounts := erase_key dev (failureCounts s)\<rparr>"

fun bump :: "'k \<Rightarrow> ('k \<times> int) list \<Rightarrow> ('k \<times> int) list" where
  "bump k [] = [(k, 1)]"
| "bump k ((a, n) # m) = (if k = a then (a, n + 1) # m else (a, n) # bump k m)"

definition terminate :: "mctp_device \<Rightarrow> reactor \<Rightarrow> outcome" where
  "terminate dev s =
     (let s = touch_state dev s in
      case repo_remove dev (repo s) of
        Inl e \<Rightarrow> Raised e s
      | Inr r \<Rightarrow> Done (erase_state dev (erase_failures dev (s\<lparr>repo := r\<rparr>))))"

section \<open>Endpoint set-up\<close>

definition setupEndpoint :: "mctp_device \<Rightarrow> reactor \<Rightarrow> reactor" where
  "setupEndpoint dev s = s\<lparr>outstanding := outstanding s @ [dev]\<rparr>"

definition addDevice :: "string \<Rightarrow> mctp_device \<Rightarrow> reactor \<Rightarrow> outcome" where
  "addDevice path dev s =
     (case repo_add path dev (repo s) of
        Inl e \<Rightarrow> Raised e s
      | Inr r \<Rightarrow> Done (s\<lparr>repo := r\<rparr>))"

text \<open>Whether an IST run is in progress is read from the service: the argument \<open>ist\<close>.\<close>

definition suppressRecoveryForIst :: "bool \<Rightarrow> reactor \<Rightarrow> bool \<times> reactor" where
  "suppressRecoveryForIst ist s =
     (if \<not> istRecovery s \<or> \<not> ist then (False, s)
      else (True, s\<lparr>ist_refreshes := ist_refreshes s + 1\<rparr>))"

definition trackUsbSetupFailure :: "bool \<Rightarrow> mctp_device \<Rightarrow> reactor \<Rightarrow> reactor" where
  "trackUsbSetupFailure ist dev s =
     (case dev_usb dev of
        None \<Rightarrow> s
      | Some (iface, recoveryThreshold) \<Rightarrow>
          if iface = [] then s
          else if recoveryThreshold = 0
          then s\<lparr>usbSetupFailureCounts := (usbSetupFailureCounts s)(dev := None)\<rparr>
          else
            (let failures = (case usbSetupFailureCounts s dev of None \<Rightarrow> 0 | Some n \<Rightarrow> n) + 1 in
             if failures < uint recoveryThreshold
             then s\<lparr>usbSetupFailureCounts := (usbSetupFailureCounts s)(dev \<mapsto> failures)\<rparr>
             else
               (let s = s\<lparr>usbSetupFailureCounts := (usbSetupFailureCounts s)(dev \<mapsto> 0)\<rparr> in
                if \<not> autoUSBRecoveryEnabled s then s
                else
                  (case suppressRecoveryForIst ist s of
                     (suppressed, s) \<Rightarrow>
                       if suppressed then s
                       else if usbRecovery s then s\<lparr>halts_cleared := halts_cleared s @ [iface]\<rparr>
                       else s))))"

definition clearUsbSetupFailureTracking :: "mctp_device \<Rightarrow> reactor \<Rightarrow> reactor" where
  "clearUsbSetupFailureTracking dev s =
     s\<lparr>usbSetupFailureCounts := (usbSetupFailureCounts s)(dev := None)\<rparr>"

text \<open>
  \<open>trackEndpoint\<close>: the subscription comes first, and fails with an exception when \<open>subscribed\<close> is false.
  A fresh generation object is the number of subscriptions made so far.
\<close>

definition serve :: "association_call \<Rightarrow> reactor \<Rightarrow> reactor" where
  "serve c s = s\<lparr>association_calls := association_calls s @ [c]\<rparr>"

definition publish :: "mctp_endpoint \<Rightarrow> nat \<Rightarrow> reactor \<Rightarrow> reactor" where
  "publish ep generation s =
     (case inventoryFor (ep_device ep) (repo s) of
        None \<Rightarrow> s
      | Some item \<Rightarrow>
          (let s = serve (Associate (ep_path ep) item) s in
           s\<lparr>trackedEndpointGenerations := (trackedEndpointGenerations s)(ep_path ep \<mapsto> generation)\<rparr>))"

definition trackEndpoint :: "mctp_endpoint \<Rightarrow> reactor \<Rightarrow> reactor" where
  "trackEndpoint ep s =
     (let generation = length (subscriptions s);
          s = s\<lparr>subscriptions := subscriptions s @ [(ep, generation)]\<rparr>;
          dev = ep_device ep;
          st = state_of dev s;
          s = touch_state dev s
      in if st = Unmanaged then s
         else if st = Assigning then publish ep generation (next_state dev Assigned s)
         else if st = Unassigned \<or> st = Assigned \<or> st = Quarantine
         then publish ep generation (next_state dev Recovered s)
         else if st = Lost then s
         else if st = Recovering then publish ep generation (next_state dev Recovered s)
         else s)"

datatype setup_result = SetupError | AlreadyDiscovered | NewEndpoint mctp_endpoint bool

definition setup_failed :: "mctp_device \<Rightarrow> reactor \<Rightarrow> outcome" where
  "setup_failed dev s =
     (let st = state_of dev s; s = touch_state dev s in
      if st = Assigning then Done (next_state dev Unassigned s)
      else if st = Quarantine then terminate dev s
      else if st = Recovering then Done (next_state dev Lost s)
      else Done s)"

text \<open>The callback of a set-up; \<open>alive\<close> says whether the device object still exists.\<close>

definition setup_done :: "bool \<Rightarrow> bool \<Rightarrow> mctp_device \<Rightarrow> setup_result \<Rightarrow> reactor \<Rightarrow> outcome" where
  "setup_done ist alive dev result s =
     (if \<not> alive then Done s
      else
        (case result of
           SetupError \<Rightarrow>
             and_then (setup_failed dev s)
               (\<lambda>s. Done (trackUsbSetupFailure ist dev (s\<lparr>failureCounts := bump dev (failureCounts s)\<rparr>)))
         | AlreadyDiscovered \<Rightarrow> Done (clearUsbSetupFailureTracking dev (erase_failures dev s))
         | NewEndpoint ep subscribed \<Rightarrow>
             (let s = clearUsbSetupFailureTracking dev (erase_failures dev s) in
              if subscribed then Done (trackEndpoint ep s)
              else Done (next_state dev Quarantine s))))"

text \<open>The removal of a subscribed endpoint; \<open>alive\<close> says whether the endpoint still has its device.\<close>

definition endpoint_removed :: "bool \<Rightarrow> mctp_endpoint \<Rightarrow> nat \<Rightarrow> reactor \<Rightarrow> outcome" where
  "endpoint_removed alive ep generation s =
     (if trackedEndpointGenerations s (ep_path ep) \<noteq> Some generation then Done s
      else
        (let s = s\<lparr>trackedEndpointGenerations := (trackedEndpointGenerations s)(ep_path ep := None)\<rparr>;
             s = serve (Disassociate (ep_path ep)) s;
             dev = ep_device ep
         in if \<not> alive \<or> \<not> contains dev (repo s) then Done s
            else
              (let st = state_of dev s; s = touch_state dev s in
               if st = Assigned then Done (next_state dev Lost s)
               else if st = Quarantine then
                 (if contains dev (repo s) then terminate dev s else Done s)
               else if st = Recovered then Done (next_state dev Lost s)
               else if st = Removing then
                 (if contains dev (repo s) then terminate dev s else Done s)
               else if st = Pending then Done (next_state dev Unassigned s)
               else Done s)))"

section \<open>Inventory\<close>

text \<open>The callback of a removal that \<open>manageMCTPDevice\<close> requested.\<close>

definition remove_done :: "string \<Rightarrow> mctp_device \<Rightarrow> reactor \<Rightarrow> reactor" where
  "remove_done path dev s =
     (if deviceFor path (repo s) \<noteq> Some dev then s
      else if states s (dev_id dev) = Some Pending then next_state dev Unassigned s
      else s)"

text \<open>
  A configuration change of an assigned device. \<open>removed_now\<close> says whether \<open>remove\<close> calls back before
  it returns (a device without an endpoint does).
\<close>

definition replace_device :: "bool \<Rightarrow> string \<Rightarrow> mctp_device \<Rightarrow> reactor \<Rightarrow> outcome" where
  "replace_device removed_now path dev s =
     (case deviceFor path (repo s) of
        None \<Rightarrow> Done s
      | Some current \<Rightarrow>
          and_then (terminate current s)
            (\<lambda>s. let s = s\<lparr>remove_requests := remove_requests s @ [current]\<rparr>;
                     s = (if removed_now then remove_done path dev s
                          else s\<lparr>removals := removals s @ [(path, dev)]\<rparr>)
                 in and_then (addDevice path dev s)
                   (\<lambda>s. let s = next_state dev Pending s in
                        Done (if removed_now then next_state dev Unassigned s else s))))"

definition manageMCTPDevice :: "bool \<Rightarrow> string \<Rightarrow> mctp_device option \<Rightarrow> reactor \<Rightarrow> outcome" where
  "manageMCTPDevice removed_now path device s =
     (case device of
        None \<Rightarrow> Done s
      | Some dev \<Rightarrow>
          (let s = touch_state dev s; st = state_of dev s in
           if st = Unmanaged then
             and_then (addDevice path dev s) (\<lambda>s. Done (setupEndpoint dev (next_state dev Assigning s)))
           else if st = Assigned then replace_device removed_now path dev s
           else if st = Quarantine then Done (next_state dev Assigning s)
           else if st = Recovered then Done (next_state dev Assigned s)
           else if st = Removing then
             and_then (addDevice path dev s) (\<lambda>s. Done (next_state dev Unassigned s))
           else Done s))"

text \<open>Taking a device out of the inventory and asking it to remove its endpoint.\<close>

definition stop_managing :: "mctp_device \<Rightarrow> reactor \<Rightarrow> outcome" where
  "stop_managing dev s =
     (let s = erase_failures dev s in
      case repo_remove dev (repo s) of
        Inl e \<Rightarrow> Raised e s
      | Inr r \<Rightarrow>
          (let s = next_state dev Removing (s\<lparr>repo := r\<rparr>) in
           Done (s\<lparr>remove_requests := remove_requests s @ [dev]\<rparr>)))"

definition unmanageMCTPDevice :: "string \<Rightarrow> reactor \<Rightarrow> outcome" where
  "unmanageMCTPDevice path s =
     (case deviceFor path (repo s) of
        None \<Rightarrow> Done s
      | Some dev \<Rightarrow>
          (let s = clearUsbSetupFailureTracking dev s; st = state_of dev s; s = touch_state dev s in
           if st = Assigning then Done (next_state dev Quarantine s)
           else if st = Unassigned then terminate dev s
           else if st = Assigned then stop_managing dev s
           else if st = Lost then terminate dev s
           else if st = Recovering then Done (next_state dev Quarantine s)
           else if st = Pending then stop_managing dev s
           else Done s))"

section \<open>The tick and the queries\<close>

definition tick_device :: "mctp_device \<Rightarrow> reactor \<Rightarrow> reactor" where
  "tick_device dev s =
     (let st = state_of dev s; s = touch_state dev s in
      if st = Unassigned then setupEndpoint dev (next_state dev Assigning s)
      else if st = Lost then setupEndpoint dev (next_state dev Recovering s)
      else s)"

definition tick :: "reactor \<Rightarrow> reactor" where
  "tick s = fold (\<lambda>entry. tick_device (snd entry)) (devices (repo s)) s"

text \<open>\<open>manages\<close> is \<open>managesEid\<close> of the device, or \<open>None\<close> for a device that is not an \<open>MCTPDDevice\<close>.\<close>

definition isRetrying :: "(mctp_device \<Rightarrow> u8 \<Rightarrow> bool option) \<Rightarrow> u8 \<Rightarrow> reactor \<Rightarrow> bool" where
  "isRetrying manages eid s =
     (if eid = 0 then failureCounts s \<noteq> []
      else list_ex (\<lambda>entry. manages (fst entry) eid = Some True) (failureCounts s))"

definition setAutoUSBRecoveryEnabled :: "bool \<Rightarrow> reactor \<Rightarrow> bool \<times> reactor" where
  "setAutoUSBRecoveryEnabled enabled s =
     (let s = s\<lparr>autoUSBRecoveryEnabled := enabled\<rparr> in (autoUSBRecoveryEnabled s, s))"

text \<open>A clear-halt on request; \<open>clear\<close> is the answer and the status text of the USB backend.\<close>

definition forceUSBRecovery ::
  "(string \<Rightarrow> bool \<times> string) \<Rightarrow> string \<Rightarrow> reactor \<Rightarrow> bool \<times> string \<times> reactor" where
  "forceUSBRecovery clear iface s =
     (if iface = [] then (False, ''Interface is empty'', s)
      else if \<not> usbRecovery s then (False, ''USB recovery backend unavailable'', s)
      else (case clear iface of
              (success, status) \<Rightarrow> (success, status, s\<lparr>halts_cleared := halts_cleared s @ [iface]\<rparr>)))"

section \<open>Events\<close>

datatype reactor_event =
  Manage string "mctp_device option" bool
| Unmanage string
| SetupDone mctp_device setup_result bool bool
| EndpointRemoved mctp_endpoint nat bool
| RemoveDone string mctp_device
| Tick
| RequestSetup mctp_device
| SetAutoUSB bool

fun handle_event :: "reactor_event \<Rightarrow> reactor \<Rightarrow> outcome" where
  "handle_event (Manage path device removed_now) s = manageMCTPDevice removed_now path device s"
| "handle_event (Unmanage path) s = unmanageMCTPDevice path s"
| "handle_event (SetupDone dev result alive ist) s =
     setup_done ist alive dev result (s\<lparr>outstanding := remove1 dev (outstanding s)\<rparr>)"
| "handle_event (EndpointRemoved ep generation alive) s = endpoint_removed alive ep generation s"
| "handle_event (RemoveDone path dev) s =
     Done (remove_done path dev (s\<lparr>removals := remove1 (path, dev) (removals s)\<rparr>))"
| "handle_event Tick s = Done (tick s)"
| "handle_event (RequestSetup dev) s = Done (setupEndpoint dev s)"
| "handle_event (SetAutoUSB enabled) s = Done (snd (setAutoUSBRecoveryEnabled enabled s))"

text \<open>What the environment can deliver: answers only to what is outstanding.\<close>

fun deliverable :: "reactor_event \<Rightarrow> reactor \<Rightarrow> bool" where
  "deliverable (SetupDone dev result alive ist) s \<longleftrightarrow> dev \<in> set (outstanding s)"
| "deliverable (EndpointRemoved ep generation alive) s \<longleftrightarrow> (ep, generation) \<in> set (subscriptions s)"
| "deliverable (RemoveDone path dev) s \<longleftrightarrow> (path, dev) \<in> set (removals s)"
| "deliverable _ s \<longleftrightarrow> True"

end
