(* ===== verification/Mctp_Reactor_Correct.thy ===== *)
theory Mctp_Reactor_Correct
  imports Mctp_Reactor
begin

text \<open>
  Correctness of the reactor. The invariant relates, for every inventory path, the device the
  repository holds there, the state its identifier has in the state table, and what is outstanding
  for it. It holds along the executions in which the inventory names devices by distinct identifiers
  (\<open>cfg\<close>), every publication brings a new device object, and a set-up either fails or yields a
  subscribed endpoint of its device; theory Mctp_Reactor_Faults has executions outside this.
\<close>

section \<open>Expected executions\<close>

definition managed_states :: "MCTPDeviceState set" where
  "managed_states = {Assigning, Unassigned, Assigned, Quarantine, Lost, Recovering, Recovered, Pending}"

definition busy_states :: "MCTPDeviceState set" where
  "busy_states = {Assigning, Quarantine, Recovering}"

abbreviation device_at :: "string \<Rightarrow> reactor \<Rightarrow> mctp_device option" where
  "device_at path s \<equiv> deviceFor path (repo s)"

definition fresh_device :: "mctp_device \<Rightarrow> reactor \<Rightarrow> bool" where
  "fresh_device dev s \<longleftrightarrow>
     \<not> contains dev (repo s) \<and> dev \<notin> set (outstanding s) \<and> dev \<notin> snd ` set (removals s) \<and>
     dev \<notin> fst ` set (failureCounts s) \<and> (\<forall>(ep, g) \<in> set (subscriptions s). ep_device ep \<noteq> dev)"

fun expected :: "(string \<Rightarrow> nat) \<Rightarrow> reactor_event \<Rightarrow> reactor \<Rightarrow> bool" where
  "expected cfg (Manage path None removed_now) s \<longleftrightarrow> True"
| "expected cfg (Manage path (Some dev) removed_now) s \<longleftrightarrow> dev_id dev = cfg path \<and> fresh_device dev s"
| "expected cfg (SetupDone dev result alive ist) s \<longleftrightarrow> dev \<in> set (outstanding s) \<and> alive \<and>
     (case result of SetupError \<Rightarrow> True | AlreadyDiscovered \<Rightarrow> False
      | NewEndpoint ep subscribed \<Rightarrow> ep_device ep = dev \<and> subscribed)"
| "expected cfg (EndpointRemoved ep generation alive) s \<longleftrightarrow> (ep, generation) \<in> set (subscriptions s) \<and>
     (contains (ep_device ep) (repo s) \<longrightarrow> alive)"
| "expected cfg (RemoveDone path dev) s \<longleftrightarrow> (path, dev) \<in> set (removals s)"
| "expected cfg (RequestSetup dev) s \<longleftrightarrow> False"
| "expected cfg _ s \<longleftrightarrow> True"

inductive reactor_step :: "(string \<Rightarrow> nat) \<Rightarrow> reactor \<Rightarrow> reactor \<Rightarrow> bool" for cfg where
  "expected cfg e s \<Longrightarrow> handle_event e s = Done s' \<Longrightarrow> reactor_step cfg s s'"

inductive_cases reactor_step_cases: "reactor_step cfg s s'"

section \<open>The invariant\<close>

definition current :: "reactor \<Rightarrow> mctp_endpoint \<Rightarrow> nat \<Rightarrow> bool" where
  "current s ep g \<longleftrightarrow> trackedEndpointGenerations s (ep_path ep) = Some g \<and> (ep, g) \<in> set (subscriptions s)"

definition device_ok :: "reactor \<Rightarrow> string \<Rightarrow> mctp_device \<Rightarrow> MCTPDeviceState \<Rightarrow> bool" where
  "device_ok s p d st \<longleftrightarrow>
     (d \<in> set (outstanding s) \<longleftrightarrow> st \<in> busy_states) \<and>
     (st = Pending \<longrightarrow> (p, d) \<in> set (removals s)) \<and>
     (\<forall>ep g. current s ep g \<longrightarrow> ep_device ep = d \<longrightarrow> st \<in> {Assigned, Recovered}) \<and>
     (\<forall>ep g ep' g'. current s ep g \<longrightarrow> current s ep' g' \<longrightarrow> ep_device ep = d \<longrightarrow>
        ep_device ep' = d \<longrightarrow> ep = ep')"

definition path_inv :: "(string \<Rightarrow> nat) \<Rightarrow> reactor \<Rightarrow> string \<Rightarrow> bool" where
  "path_inv cfg s p \<longleftrightarrow>
     (case device_at p s of
        None \<Rightarrow> states s (cfg p) \<in> {None, Some Unmanaged, Some Removing}
      | Some d \<Rightarrow> dev_id d = cfg p \<and>
          (\<exists>st \<in> managed_states. states s (cfg p) = Some st \<and> device_ok s p d st))"

definition shared_inv :: "(string \<Rightarrow> nat) \<Rightarrow> reactor \<Rightarrow> bool" where
  "shared_inv cfg s \<longleftrightarrow>
     repo_inv (repo s) \<and> dom (states s) \<subseteq> range cfg \<and> distinct (outstanding s) \<and>
     (\<forall>d \<in> set (outstanding s). contains d (repo s)) \<and>
     (\<forall>(ep, g) \<in> set (subscriptions s). g < length (subscriptions s))"

definition reactor_inv :: "(string \<Rightarrow> nat) \<Rightarrow> reactor \<Rightarrow> bool" where
  "reactor_inv cfg s \<longleftrightarrow> shared_inv cfg s \<and> (\<forall>p. path_inv cfg s p)"

lemma path_inv_frame:
  assumes "path_inv cfg s p" and "device_at p s' = device_at p s"
    and "states s' (cfg p) = states s (cfg p)"
    and "\<And>d. device_at p s = Some d \<Longrightarrow> d \<in> set (outstanding s') \<longleftrightarrow> d \<in> set (outstanding s)"
    and "\<And>d. device_at p s = Some d \<Longrightarrow> (p, d) \<in> set (removals s) \<Longrightarrow> (p, d) \<in> set (removals s')"
    and "\<And>d ep g. device_at p s = Some d \<Longrightarrow> ep_device ep = d \<Longrightarrow> current s' ep g \<Longrightarrow> current s ep g"
  shows "path_inv cfg s' p"
proof (cases "device_at p s")
  case None
  with assms(1-3) show ?thesis
    by (simp add: path_inv_def)
next
  case (Some d)
  with assms(1) obtain st where st: "st \<in> managed_states" "states s (cfg p) = Some st" "dev_id d = cfg p"
    "device_ok s p d st"
    by (auto simp: path_inv_def)
  have "device_ok s' p d st"
    using st(4) assms(4,5) [OF Some] assms(6) [OF Some] unfolding device_ok_def by blast
  with st assms(2,3) Some show ?thesis
    by (auto simp: path_inv_def)
qed

lemma managed_not_rest: "st \<in> managed_states \<Longrightarrow> st \<noteq> Unmanaged \<and> st \<noteq> Removing"
  by (auto simp: managed_states_def)

lemma path_inv_device:
  assumes "path_inv cfg s p" "device_at p s = Some d"
  obtains st where "states s (cfg p) = Some st" "st \<in> managed_states" "dev_id d = cfg p" "device_ok s p d st"
  using assms by (auto simp: path_inv_def)

section \<open>Steps and the documented life cycle\<close>

text \<open>
  The transitions of \<open>docs/mctp/openbmc_usb_mctp.tla\<close> (an erased entry counts as \<open>Unmanaged\<close>), and the
  four the code has beyond them.
\<close>

definition documented :: "(MCTPDeviceState \<times> MCTPDeviceState) list" where
  "documented =
     [(Unmanaged, Assigning), (Assigning, Assigned), (Assigning, Unassigned), (Assigning, Quarantine),
      (Unassigned, Assigning), (Unassigned, Unmanaged), (Assigned, Lost), (Assigned, Removing),
      (Quarantine, Recovering), (Quarantine, Recovered), (Quarantine, Unmanaged), (Lost, Recovering),
      (Lost, Unmanaged), (Recovering, Recovered), (Recovering, Lost), (Recovering, Quarantine),
      (Recovered, Assigned), (Recovered, Lost), (Removing, Unmanaged), (Removing, Pending),
      (Pending, Unassigned), (Pending, Removing)]"

definition undocumented :: "(MCTPDeviceState \<times> MCTPDeviceState) list" where
  "undocumented =
     [(Quarantine, Assigning), (Removing, Unassigned), (Assigned, Pending), (Assigned, Unassigned)]"

definition life_step :: "MCTPDeviceState \<Rightarrow> MCTPDeviceState \<Rightarrow> bool" where
  "life_step st st' \<longleftrightarrow> st' = st \<or> (st, st') \<in> set (documented @ undocumented)"

definition table_state :: "reactor \<Rightarrow> nat \<Rightarrow> MCTPDeviceState" where
  "table_state s i = (case states s i of None \<Rightarrow> Unmanaged | Some st \<Rightarrow> st)"

definition requests_ok :: "reactor \<Rightarrow> reactor \<Rightarrow> bool" where
  "requests_ok s s' \<longleftrightarrow> remove_requests s' = remove_requests s \<or>
     (\<exists>d. contains d (repo s) \<and> table_state s (dev_id d) \<in> {Assigned, Pending} \<and>
          remove_requests s' = remove_requests s @ [d])"

definition step_ok :: "(string \<Rightarrow> nat) \<Rightarrow> reactor \<Rightarrow> reactor \<Rightarrow> bool" where
  "step_ok cfg s s' \<longleftrightarrow> reactor_inv cfg s' \<and> (\<forall>i. life_step (table_state s i) (table_state s' i)) \<and> requests_ok s s'"

lemma life_step_refl [simp]: "life_step st st"
  by (simp add: life_step_def)

lemma requests_ok_same [simp]: "remove_requests s' = remove_requests s \<Longrightarrow> requests_ok s s'"
  by (simp add: requests_ok_def)

lemma state_of_table: "state_of d s = table_state s (dev_id d)"
  by (simp add: state_of_def table_state_def)

lemma step_ok_local:
  assumes "inj cfg" "reactor_inv cfg s" "shared_inv cfg s'" "path_inv cfg s' p"
    and dev: "\<And>q. q \<noteq> p \<Longrightarrow> device_at q s' = device_at q s"
    and st: "\<And>i. i \<noteq> cfg p \<Longrightarrow> states s' i = states s i"
    and out: "\<And>d. dev_id d \<noteq> cfg p \<Longrightarrow> d \<in> set (outstanding s') \<longleftrightarrow> d \<in> set (outstanding s)"
    and rem: "\<And>q d. q \<noteq> p \<Longrightarrow> (q, d) \<in> set (removals s) \<Longrightarrow> (q, d) \<in> set (removals s')"
    and cur: "\<And>ep g. dev_id (ep_device ep) \<noteq> cfg p \<Longrightarrow> current s' ep g \<Longrightarrow> current s ep g"
    and "life_step (table_state s (cfg p)) (table_state s' (cfg p))" "requests_ok s s'"
  shows "step_ok cfg s s'"
proof -
  have "path_inv cfg s' q" for q
  proof (cases "q = p")
    case False
    then have q: "cfg q \<noteq> cfg p"
      using assms(1) by (auto dest: injD)
    have inv: "path_inv cfg s q"
      using assms(2) by (simp add: reactor_inv_def)
    then have "dev_id d \<noteq> cfg p" if "device_at q s = Some d" for d
      using that q by (auto simp: path_inv_def)
    with inv show ?thesis
      by (intro path_inv_frame [OF inv]) (auto simp: dev [OF False] st [OF q] out rem False cur)
  qed (use assms(4) in simp)
  moreover have "life_step (table_state s i) (table_state s' i)" for i
    using assms(10) st [of i] by (cases "i = cfg p") (auto simp: table_state_def)
  ultimately show ?thesis
    using assms(3,11) by (simp add: step_ok_def reactor_inv_def)
qed

lemma step_ok_refl: "reactor_inv cfg s \<Longrightarrow> step_ok cfg s s"
  by (simp add: step_ok_def)

lemma one_path_each_inv:
  assumes "inj cfg" "reactor_inv cfg s"
  shows "one_path_each (\<lambda>q. device_at q s)"
proof -
  have "cfg p = cfg q" if "device_at p s = Some d" "device_at q s = Some d" for p q d
    using assms(2) that by (metis path_inv_device reactor_inv_def)
  with assms(1) show ?thesis
    unfolding one_path_each_def by (blast dest: injD)
qed

lemma repo_inv_of: "reactor_inv cfg s \<Longrightarrow> repo_inv (repo s)"
  by (simp add: reactor_inv_def shared_inv_def)

lemma contains_frame:
  assumes "repo_inv r" "repo_inv r'" "(\<lambda>q. deviceFor q r') = h"
  shows "contains d r' \<longleftrightarrow> (\<exists>p. h p = Some d)"
  using contains_iff [OF assms(2), of d] assms(3) by (simp add: fun_eq_iff)

section \<open>Effects of the shared operations\<close>

lemma touch_known: "states s (dev_id d) = Some st \<Longrightarrow> touch_state d s = s"
  by (simp add: next_state_def state_of_def fun_upd_idem)

lemma terminate_effect:
  assumes "repo_inv (repo s)" "one_path_each (\<lambda>q. device_at q s)" "device_at p s = Some d"
    and "states s (dev_id d) = Some st"
  obtains r' where "repo_inv r'" "(\<lambda>q. deviceFor q r') = (\<lambda>q. device_at q s)(p := None)" "\<not> contains d r'"
    and "terminate d s = Done (s\<lparr>repo := r', failureCounts := erase_key d (failureCounts s),
           states := (states s)(dev_id d := None)\<rparr>)"
proof -
  obtain r' where "repo_remove d (repo s) = Inr r'" "repo_inv r'" "\<not> contains d r'"
    "(\<lambda>q. deviceFor q r') = (\<lambda>q. device_at q s)(p := None)"
    using registry.del_only_path [OF assms(1,2,3)] by blast
  then show thesis
    by (intro that) (simp_all add: terminate_def Let_def touch_known [OF assms(4)] erase_state_def erase_failures_def)
qed

lemma add_effect:
  assumes "repo_inv (repo s)" "device_at p s = None"
  obtains r' where "repo_inv r'" "(\<lambda>q. deviceFor q r') = (\<lambda>q. device_at q s)(p \<mapsto> d)"
    and "addDevice p d s = Done (s\<lparr>repo := r'\<rparr>)"
proof -
  obtain r' where "repo_add p d (repo s) = Inr r'" "repo_inv r'"
    "(\<lambda>q. deviceFor q r') = (\<lambda>q. device_at q s)(p \<mapsto> d)"
    using registry.ins_free [OF assms, of d] by blast
  then show thesis
    by (intro that) (simp_all add: addDevice_def)
qed

section \<open>The three kinds of change at a path\<close>

lemma device_id: "reactor_inv cfg s \<Longrightarrow> device_at p s = Some d \<Longrightarrow> dev_id d = cfg p"
  by (metis path_inv_device reactor_inv_def)

lemma device_state:
  assumes "reactor_inv cfg s" "device_at p s = Some d"
  obtains st where "states s (cfg p) = Some st" "st \<in> managed_states"
  using assms by (metis path_inv_device reactor_inv_def)

lemma device_facts:
  assumes "reactor_inv cfg s" "device_at p s = Some d" "states s (cfg p) = Some st"
  shows "d \<in> set (outstanding s) \<longleftrightarrow> st \<in> busy_states"
    and "st = Pending \<Longrightarrow> (p, d) \<in> set (removals s)"
    and "current s ep g \<Longrightarrow> ep_device ep = d \<Longrightarrow> st \<in> {Assigned, Recovered}"
    and "current s ep g \<Longrightarrow> current s ep' g' \<Longrightarrow> ep_device ep = d \<Longrightarrow> ep_device ep' = d \<Longrightarrow> ep = ep'"
proof -
  have "path_inv cfg s p"
    using assms(1) by (simp add: reactor_inv_def)
  with assms(2,3) have "device_ok s p d st"
    by (auto simp: path_inv_def)
  then show "d \<in> set (outstanding s) \<longleftrightarrow> st \<in> busy_states"
    and "st = Pending \<Longrightarrow> (p, d) \<in> set (removals s)"
    and "current s ep g \<Longrightarrow> ep_device ep = d \<Longrightarrow> st \<in> {Assigned, Recovered}"
    and "current s ep g \<Longrightarrow> current s ep' g' \<Longrightarrow> ep_device ep = d \<Longrightarrow> ep_device ep' = d \<Longrightarrow> ep = ep'"
    unfolding device_ok_def by blast+
qed

text \<open>The device stays and changes its state.\<close>

lemma device_step_ok:
  assumes inj: "inj cfg" and inv: "reactor_inv cfg s" and d: "device_at p s = Some d" "states s (cfg p) = Some st"
    and s': "repo s' = repo s" "states s' = (states s)(cfg p \<mapsto> st')" "remove_requests s' = remove_requests s"
    and st': "st' \<in> managed_states" "life_step st st'"
    and out: "distinct (outstanding s')"
      "set (outstanding s') = (if st' \<in> busy_states then insert d (set (outstanding s)) else set (outstanding s) - {d})"
    and rem: "\<And>q x. (q, x) \<in> set (removals s) \<Longrightarrow> q \<noteq> p \<or> st' = Pending \<Longrightarrow> (q, x) \<in> set (removals s')"
    and pend: "st' = Pending \<Longrightarrow> st = Pending"
    and subs: "\<forall>(ep, g) \<in> set (subscriptions s'). g < length (subscriptions s')"
    and cur: "\<And>ep g. current s' ep g \<Longrightarrow> ep_device ep \<noteq> d \<Longrightarrow> current s ep g"
      "\<And>ep g. current s' ep g \<Longrightarrow> ep_device ep = d \<Longrightarrow> st' \<in> {Assigned, Recovered}"
      "\<And>ep g ep' g'. current s' ep g \<Longrightarrow> current s' ep' g' \<Longrightarrow> ep_device ep = d \<Longrightarrow> ep_device ep' = d \<Longrightarrow> ep = ep'"
  shows "step_ok cfg s s'"
proof -
  have id: "dev_id d = cfg p" and pend0: "st = Pending \<Longrightarrow> (p, d) \<in> set (removals s)"
    using device_id [OF inv d(1)] device_facts(2) [OF inv d] by auto
  have "contains d (repo s)"
    using contains_iff [OF repo_inv_of [OF inv]] d(1) by blast
  then have shared: "shared_inv cfg s'"
    using inv s' out subs id by (auto simp: reactor_inv_def shared_inv_def split: if_splits)
  have path: "path_inv cfg s' p"
  proof -
    have "device_ok s' p d st'"
      using cur(2,3) rem [of p d] pend pend0 out(2) unfolding device_ok_def by auto
    then show ?thesis
      using d s'(1,2) id st'(1) by (simp add: path_inv_def)
  qed
  show ?thesis
  proof (rule step_ok_local [OF inj inv shared path])
    show "d' \<in> set (outstanding s') \<longleftrightarrow> d' \<in> set (outstanding s)" if "dev_id d' \<noteq> cfg p" for d'
      using that id by (auto simp: out(2))
    show "current s ep g" if "dev_id (ep_device ep) \<noteq> cfg p" "current s' ep g" for ep g
      using that id cur(1) [of ep g] by blast
    show "life_step (table_state s (cfg p)) (table_state s' (cfg p))"
      using st'(2) d(2) s'(2) by (simp add: table_state_def)
  qed (use s' rem in auto)
qed

text \<open>The device leaves the repository.\<close>

lemma leave_step_ok:
  assumes inj: "inj cfg" and inv: "reactor_inv cfg s" and d: "device_at p s = Some d" "states s (cfg p) = Some st"
    and s': "repo_inv (repo s')" "(\<lambda>q. device_at q s') = (\<lambda>q. device_at q s)(p := None)"
      "states s' = (states s)(cfg p := st')" "st' \<in> {None, Some Removing}" "requests_ok s s'"
    and life: "life_step st (case st' of None \<Rightarrow> Unmanaged | Some x \<Rightarrow> x)"
    and out: "distinct (outstanding s')" "set (outstanding s') = set (outstanding s) - {d}"
    and same: "removals s' = removals s" "subscriptions s' = subscriptions s"
      "\<And>ep g. current s' ep g \<Longrightarrow> current s ep g"
  shows "step_ok cfg s s'"
proof -
  have id: "dev_id d = cfg p"
    using device_id [OF inv d(1)] .
  have dev: "device_at q s' = (if q = p then None else device_at q s)" for q
    using fun_cong [OF s'(2), of q] by simp
  have in_range: "dom (states s') \<subseteq> range cfg" and subs: "\<forall>(ep, g) \<in> set (subscriptions s'). g < length (subscriptions s')"
    using inv s'(3) same(2) by (auto simp: reactor_inv_def shared_inv_def split: if_splits)
  have "contains x (repo s')" if "x \<in> set (outstanding s')" for x
  proof -
    have "contains x (repo s)" "x \<noteq> d"
      using that out(2) inv by (auto simp: reactor_inv_def shared_inv_def)
    then obtain q where q: "device_at q s = Some x"
      using contains_iff [OF repo_inv_of [OF inv]] by auto
    then have "q \<noteq> p"
      using d(1) \<open>x \<noteq> d\<close> by auto
    with q show ?thesis
      using contains_iff [OF s'(1)] dev by metis
  qed
  then have shared: "shared_inv cfg s'"
    using s'(1) in_range subs out(1) by (simp add: shared_inv_def)
  have path: "path_inv cfg s' p"
    using s'(3,4) dev by (auto simp: path_inv_def)
  show ?thesis
  proof (rule step_ok_local [OF inj inv shared path])
    show "d' \<in> set (outstanding s') \<longleftrightarrow> d' \<in> set (outstanding s)" if "dev_id d' \<noteq> cfg p" for d'
      using that id by (auto simp: out(2))
    show "life_step (table_state s (cfg p)) (table_state s' (cfg p))"
      using life d(2) s'(3) by (simp add: table_state_def)
  qed (use s' same dev in auto)
qed

text \<open>A new device takes the path.\<close>

lemma install_step_ok:
  assumes inj: "inj cfg" and inv: "reactor_inv cfg s" and d: "dev_id d = cfg p" "fresh_device d s"
    and old: "\<And>d0. device_at p s = Some d0 \<Longrightarrow> d0 \<notin> set (outstanding s)"
    and s': "repo_inv (repo s')" "(\<lambda>q. device_at q s') = (\<lambda>q. device_at q s)(p \<mapsto> d)"
      "states s' = (states s)(cfg p \<mapsto> st')" "st' \<in> {Assigning, Unassigned, Pending}" "requests_ok s s'"
    and life: "life_step (table_state s (cfg p)) st'"
    and out: "outstanding s' = (if st' = Assigning then outstanding s @ [d] else outstanding s)"
    and rem: "removals s' = (if st' = Pending then removals s @ [(p, d)] else removals s)"
    and same: "subscriptions s' = subscriptions s" "\<And>ep g. current s' ep g \<Longrightarrow> current s ep g"
  shows "step_ok cfg s s'"
proof -
  have dev: "device_at q s' = (if q = p then Some d else device_at q s)" for q
    using fun_cong [OF s'(2), of q] by simp
  have fresh: "\<not> contains d (repo s)" "d \<notin> set (outstanding s)"
    using d(2) by (auto simp: fresh_device_def)
  have stale: "ep_device ep \<noteq> d" if "current s' ep g" for ep g
    using same(2) [OF that] d(2) by (auto simp: fresh_device_def current_def)
  have in_range: "dom (states s') \<subseteq> range cfg" and subs: "\<forall>(ep, g) \<in> set (subscriptions s'). g < length (subscriptions s')"
    using inv s'(3) same(1) by (auto simp: reactor_inv_def shared_inv_def)
  have "contains x (repo s')" if "x \<in> set (outstanding s')" for x
  proof (cases "x = d")
    case True
    then show ?thesis
      using contains_iff [OF s'(1)] dev by metis
  next
    case False
    then have "contains x (repo s)" "x \<in> set (outstanding s)"
      using that out inv by (auto simp: reactor_inv_def shared_inv_def split: if_splits)
    then obtain q where "device_at q s = Some x" "q \<noteq> p"
      using contains_iff [OF repo_inv_of [OF inv]] old by metis
    then show ?thesis
      using contains_iff [OF s'(1)] dev by metis
  qed
  moreover have "distinct (outstanding s')"
    using inv fresh(2) out by (auto simp: reactor_inv_def shared_inv_def)
  ultimately have shared: "shared_inv cfg s'"
    using s'(1) in_range subs by (simp add: shared_inv_def)
  have "device_ok s' p d st'"
    using stale s'(4) fresh out rem unfolding device_ok_def busy_states_def by auto
  then have path: "path_inv cfg s' p"
    using s'(3,4) dev d(1) by (auto simp: path_inv_def managed_states_def)
  show ?thesis
  proof (rule step_ok_local [OF inj inv shared path])
    show "d' \<in> set (outstanding s') \<longleftrightarrow> d' \<in> set (outstanding s)" if "dev_id d' \<noteq> cfg p" for d'
      using that d(1) by (auto simp: out)
    show "life_step (table_state s (cfg p)) (table_state s' (cfg p))"
      using life s'(3) by (simp add: table_state_def)
  qed (use s' same dev rem in auto)
qed

section \<open>Every handler keeps the invariant\<close>

lemma step_ok_same:
  assumes "reactor_inv cfg s" "repo s' = repo s" "states s' = states s" "outstanding s' = outstanding s"
    "removals s' = removals s" "subscriptions s' = subscriptions s"
    "\<And>ep g. current s' ep g \<Longrightarrow> current s ep g" "remove_requests s' = remove_requests s"
  shows "step_ok cfg s s'"
proof -
  have "path_inv cfg s' p" for p
    using assms(1) by (intro path_inv_frame [of cfg s p s']) (simp_all add: assms(2-6) assms(7) reactor_inv_def)
  with assms show ?thesis
    by (simp add: step_ok_def reactor_inv_def shared_inv_def table_state_def)
qed

lemma next_state_twice [simp]: "next_state d a (next_state d b s) = next_state d a s"
  by (simp add: next_state_def)

lemma clear_usb_simps [simp]:
  "repo (clearUsbSetupFailureTracking d s) = repo s"
  "states (clearUsbSetupFailureTracking d s) = states s"
  "outstanding (clearUsbSetupFailureTracking d s) = outstanding s"
  "removals (clearUsbSetupFailureTracking d s) = removals s"
  "subscriptions (clearUsbSetupFailureTracking d s) = subscriptions s"
  "trackedEndpointGenerations (clearUsbSetupFailureTracking d s) = trackedEndpointGenerations s"
  "remove_requests (clearUsbSetupFailureTracking d s) = remove_requests s"
  "failureCounts (clearUsbSetupFailureTracking d s) = failureCounts s"
  "association_calls (clearUsbSetupFailureTracking d s) = association_calls s"
  by (simp_all add: clearUsbSetupFailureTracking_def)

lemma shared_facts:
  assumes "reactor_inv cfg s"
  shows "distinct (outstanding s)" "\<forall>(ep, g) \<in> set (subscriptions s). g < length (subscriptions s)"
  using assms by (simp_all add: reactor_inv_def shared_inv_def)

lemma current_same:
  "trackedEndpointGenerations s' = trackedEndpointGenerations s \<Longrightarrow> subscriptions s' = subscriptions s \<Longrightarrow>
   current s' ep g \<longleftrightarrow> current s ep g"
  by (simp add: current_def)

lemma device_contained: "reactor_inv cfg s \<Longrightarrow> device_at p s = Some d \<Longrightarrow> contains d (repo s)"
  by (auto simp: contains_iff repo_inv_of)

lemma terminate_ok:
  assumes inj: "inj cfg" and inv: "reactor_inv cfg s" and d: "device_at p s = Some d" "states s (cfg p) = Some st"
    and s1: "repo s1 = repo s" "states s1 = states s" "removals s1 = removals s" "subscriptions s1 = subscriptions s"
      "trackedEndpointGenerations s1 = trackedEndpointGenerations s" "remove_requests s1 = remove_requests s"
    and out: "distinct (outstanding s1)" "set (outstanding s1) = set (outstanding s) - {d}"
    and life: "life_step st Unmanaged"
  obtains s' where "terminate d s1 = Done s'" "step_ok cfg s s'"
    "association_calls s' = association_calls s1" "trackedEndpointGenerations s' = trackedEndpointGenerations s"
proof -
  have id: "dev_id d = cfg p"
    using device_id [OF inv d(1)] .
  obtain r' where r': "repo_inv r'" "(\<lambda>q. deviceFor q r') = (\<lambda>q. device_at q s1)(p := None)"
    and t: "terminate d s1 = Done (s1\<lparr>repo := r', failureCounts := erase_key d (failureCounts s1),
           states := (states s1)(dev_id d := None)\<rparr>)"
  proof (rule terminate_effect)
    show "repo_inv (repo s1)" "one_path_each (\<lambda>q. device_at q s1)" "device_at p s1 = Some d"
      "states s1 (dev_id d) = Some st"
      using repo_inv_of [OF inv] one_path_each_inv [OF inj inv] d id s1 by simp_all
  qed
  have "step_ok cfg s (s1\<lparr>repo := r', failureCounts := erase_key d (failureCounts s1),
           states := (states s1)(dev_id d := None)\<rparr>)"
    by (rule leave_step_ok [where st' = None, OF inj inv d])
      (use r' s1 id life out in \<open>auto simp: current_def\<close>)
  then show thesis
    by (rule that [OF t]) (simp_all add: s1)
qed

lemma stop_managing_ok:
  assumes inj: "inj cfg" and inv: "reactor_inv cfg s" and d: "device_at p s = Some d" "states s (cfg p) = Some st"
    and s1: "repo s1 = repo s" "states s1 = states s" "removals s1 = removals s" "subscriptions s1 = subscriptions s"
      "trackedEndpointGenerations s1 = trackedEndpointGenerations s" "remove_requests s1 = remove_requests s"
      "outstanding s1 = outstanding s"
    and st: "st \<in> {Assigned, Pending}"
  obtains s' where "stop_managing d s1 = Done s'" "step_ok cfg s s'"
proof -
  have id: "dev_id d = cfg p"
    using device_id [OF inv d(1)] .
  have idle: "d \<notin> set (outstanding s)"
    using device_facts(1) [OF inv d] st by (auto simp: busy_states_def)
  obtain r' where r': "repo_remove d (repo s) = Inr r'" "repo_inv r'"
      "(\<lambda>q. deviceFor q r') = (\<lambda>q. device_at q s)(p := None)"
    using registry.del_only_path [OF repo_inv_of [OF inv] one_path_each_inv [OF inj inv] d(1)] by blast
  let ?s = "s1\<lparr>failureCounts := erase_key d (failureCounts s1), repo := r', states := (states s1)(dev_id d \<mapsto> Removing),
     remove_requests := remove_requests s1 @ [d]\<rparr>"
  have "stop_managing d s1 = Done ?s"
    using r'(1) s1 by (simp add: stop_managing_def erase_failures_def next_state_def Let_def)
  moreover have "requests_ok s ?s"
    using device_contained [OF inv d(1)] st d(2) id by (auto simp: requests_ok_def table_state_def s1)
  then have "step_ok cfg s ?s"
    by - (rule leave_step_ok [where st' = "Some Removing", OF inj inv d],
      use r' s1 id st idle shared_facts [OF inv] in \<open>auto simp: current_def life_step_def documented_def\<close>)
  ultimately show thesis
    by (rule that)
qed

lemma unmanage_ok:
  assumes "inj cfg" "reactor_inv cfg s"
  shows "\<exists>s'. unmanageMCTPDevice p s = Done s' \<and> step_ok cfg s s'"
proof (cases "device_at p s")
  case None
  then show ?thesis
    using assms(2) by (simp add: unmanageMCTPDevice_def step_ok_refl)
next
  case (Some d)
  obtain st where st: "states s (cfg p) = Some st" "st \<in> managed_states"
    using device_state [OF assms(2) Some] .
  have id: "dev_id d = cfg p"
    using device_id [OF assms(2) Some] .
  let ?c = "clearUsbSetupFailureTracking d s"
  have known: "state_of d ?c = st" "next_state d st ?c = ?c"
    using st(1) id touch_known [of ?c d st] by (simp_all add: state_of_def)
  note def = unmanageMCTPDevice_def Let_def
  from st(2) consider "st \<in> {Assigning, Recovering}" | "st \<in> {Unassigned, Lost}" | "st \<in> {Assigned, Pending}"
    | "st \<in> {Quarantine, Recovered}"
    by (auto simp: managed_states_def)
  then show ?thesis
  proof cases
    case 1
    have "step_ok cfg s (next_state d Quarantine ?c)"
      by (rule device_step_ok [where st' = Quarantine, OF assms Some st(1)])
        (use 1 id shared_facts [OF assms(2)] device_facts [OF assms(2) Some st(1)] in
          \<open>auto simp: next_state_def life_step_def documented_def managed_states_def busy_states_def current_def\<close>)
    with 1 known show ?thesis
      by (auto simp: def Some)
  next
    case 2
    obtain s' where "terminate d ?c = Done s'" "step_ok cfg s s'"
      by (rule terminate_ok [OF assms Some st(1), of ?c])
        (use 2 shared_facts [OF assms(2)] device_facts(1) [OF assms(2) Some st(1)] in
          \<open>auto simp: life_step_def documented_def busy_states_def\<close>)
    with 2 known show ?thesis
      by (auto simp: def Some)
  next
    case 3
    obtain s' where "stop_managing d ?c = Done s'" "step_ok cfg s s'"
      by (rule stop_managing_ok [OF assms Some st(1), of ?c]) (use 3 in auto)
    with 3 known show ?thesis
      by (auto simp: def Some)
  next
    case 4
    have "step_ok cfg s ?c"
      by (rule step_ok_same [OF assms(2)]) (simp_all add: current_def)
    with 4 known show ?thesis
      by (auto simp: def Some)
  qed
qed

lemma replace_ok:
  assumes inj: "inj cfg" and inv: "reactor_inv cfg s" and cur: "device_at p s = Some d0" "states s (cfg p) = Some Assigned"
    and d: "dev_id d = cfg p" "fresh_device d s"
  shows "\<exists>s'. replace_device removed_now p d s = Done s' \<and> step_ok cfg s s'"
proof -
  have id0: "dev_id d0 = cfg p"
    using device_id [OF inv cur(1)] .
  have idle: "d0 \<notin> set (outstanding s)"
    using device_facts(1) [OF inv cur] by (simp add: busy_states_def)
  obtain r1 where r1: "repo_inv r1" "(\<lambda>q. deviceFor q r1) = (\<lambda>q. device_at q s)(p := None)"
    and t: "terminate d0 s = Done (s\<lparr>repo := r1, failureCounts := erase_key d0 (failureCounts s),
           states := (states s)(dev_id d0 := None)\<rparr>)"
    using terminate_effect [OF repo_inv_of [OF inv] one_path_each_inv [OF inj inv] cur(1)] cur(2) id0 by metis
  have free: "deviceFor p r1 = None"
    using fun_cong [OF r1(2), of p] by simp
  obtain r2 where r2: "repo_add p d r1 = Inr r2" "repo_inv r2" "(\<lambda>q. deviceFor q r2) = (\<lambda>q. deviceFor q r1)(p \<mapsto> d)"
    using registry.ins_free [OF r1(1) free, of d] by blast
  let ?st = "if removed_now then Unassigned else Pending"
  let ?s = "s\<lparr>repo := r2, failureCounts := erase_key d0 (failureCounts s), states := (states s)(cfg p \<mapsto> ?st),
     remove_requests := remove_requests s @ [d0],
     removals := (if removed_now then removals s else removals s @ [(p, d)])\<rparr>"
  have "replace_device removed_now p d s = Done ?s"
    by (cases removed_now)
      (simp_all add: replace_device_def cur(1) t remove_done_def free addDevice_def r2(1) next_state_def d(1) id0 Let_def)
  moreover have "requests_ok s ?s"
    using device_contained [OF inv cur(1)] cur(2) id0 by (auto simp: requests_ok_def table_state_def)
  then have "step_ok cfg s ?s"
    by - (rule install_step_ok [where st' = ?st, OF inj inv d],
      use cur r1 r2 idle in \<open>auto simp: current_def life_step_def undocumented_def table_state_def\<close>)
  ultimately show ?thesis
    by blast
qed

lemma manage_ok:
  assumes inj: "inj cfg" and inv: "reactor_inv cfg s" and d: "dev_id d = cfg p" "fresh_device d s"
  shows "\<exists>s'. manageMCTPDevice removed_now p (Some d) s = Done s' \<and> step_ok cfg s s'"
proof (cases "device_at p s")
  case None
  have idle: "table_state s (cfg p) \<in> {Unmanaged, Removing}"
  proof -
    have "path_inv cfg s p"
      using inv by (simp add: reactor_inv_def)
    with None show ?thesis
      by (auto simp: path_inv_def table_state_def)
  qed
  let ?s1 = "touch_state d s"
  have s1: "repo ?s1 = repo s"
    by (simp add: next_state_def)
  obtain r' where r': "repo_add p d (repo s) = Inr r'" "repo_inv r'" "(\<lambda>q. deviceFor q r') = (\<lambda>q. device_at q s)(p \<mapsto> d)"
    using registry.ins_free [OF repo_inv_of [OF inv] None, of d] by blast
  let ?a = "s\<lparr>repo := r', states := (states s)(cfg p \<mapsto> Assigning), outstanding := outstanding s @ [d]\<rparr>"
  let ?u = "s\<lparr>repo := r', states := (states s)(cfg p \<mapsto> Unassigned)\<rparr>"
  have "step_ok cfg s ?a" if "table_state s (cfg p) = Unmanaged"
    by (rule install_step_ok [where st' = Assigning, OF inj inv d])
      (use that None r' in \<open>auto simp: current_def life_step_def documented_def\<close>)
  moreover have "step_ok cfg s ?u" if "table_state s (cfg p) = Removing"
    by (rule install_step_ok [where st' = Unassigned, OF inj inv d])
      (use that None r' in \<open>auto simp: current_def life_step_def undocumented_def\<close>)
  moreover have "manageMCTPDevice removed_now p (Some d) s =
      (if table_state s (cfg p) = Unmanaged then Done ?a else Done ?u)"
    using idle r'(1) d(1)
    by (auto simp: manageMCTPDevice_def Let_def state_of_table table_state_def next_state_def addDevice_def setupEndpoint_def)
  ultimately show ?thesis
    using idle by auto
next
  case (Some d0)
  obtain st where st: "states s (cfg p) = Some st" "st \<in> managed_states"
    using device_state [OF inv Some] .
  have id0: "dev_id d0 = cfg p"
    using device_id [OF inv Some] .
  have known: "state_of d s = st" "next_state d st s = s"
    using st(1) d(1) touch_known [of s d st] by (simp_all add: state_of_def)
  note def = manageMCTPDevice_def Let_def
  from st(2) consider "st = Assigned" | "st = Quarantine" | "st = Recovered"
    | "st \<in> {Assigning, Unassigned, Lost, Recovering, Pending}"
    by (auto simp: managed_states_def)
  then show ?thesis
  proof cases
    case 1
    with replace_ok [OF inj inv Some _ d, of removed_now] st(1) known show ?thesis
      by (simp add: def)
  next
    case 2
    have "step_ok cfg s (next_state d Assigning s)"
      by (rule device_step_ok [where st' = Assigning, OF inj inv Some st(1)])
        (use 2 d id0 shared_facts [OF inv] device_facts [OF inv Some st(1)] in
          \<open>auto simp: next_state_def life_step_def undocumented_def managed_states_def busy_states_def current_def\<close>)
    with 2 known show ?thesis
      by (simp add: def)
  next
    case 3
    have "step_ok cfg s (next_state d Assigned s)"
      by (rule device_step_ok [where st' = Assigned, OF inj inv Some st(1)])
        (use 3 d id0 shared_facts [OF inv] device_facts [OF inv Some st(1)] in
          \<open>auto simp: next_state_def life_step_def documented_def managed_states_def busy_states_def current_def\<close>)
    with 3 known show ?thesis
      by (simp add: def)
  next
    case 4
    with known step_ok_refl [OF inv] show ?thesis
      by (auto simp: def)
  qed
qed

lemma step_ok_then_same:
  assumes "step_ok cfg s t" "repo t' = repo t" "states t' = states t" "outstanding t' = outstanding t"
    "removals t' = removals t" "subscriptions t' = subscriptions t"
    "trackedEndpointGenerations t' = trackedEndpointGenerations t" "remove_requests t' = remove_requests t"
  shows "step_ok cfg s t'"
proof -
  have "reactor_inv cfg t'"
    using step_ok_same [of cfg t t'] assms by (simp add: step_ok_def current_def)
  with assms show ?thesis
    by (simp add: step_ok_def table_state_def requests_ok_def)
qed

lemma track_usb_simps [simp]:
  "repo (trackUsbSetupFailure ist d s) = repo s"
  "states (trackUsbSetupFailure ist d s) = states s"
  "outstanding (trackUsbSetupFailure ist d s) = outstanding s"
  "removals (trackUsbSetupFailure ist d s) = removals s"
  "subscriptions (trackUsbSetupFailure ist d s) = subscriptions s"
  "trackedEndpointGenerations (trackUsbSetupFailure ist d s) = trackedEndpointGenerations s"
  "remove_requests (trackUsbSetupFailure ist d s) = remove_requests s"
  "failureCounts (trackUsbSetupFailure ist d s) = failureCounts s"
  "association_calls (trackUsbSetupFailure ist d s) = association_calls s"
  by (auto simp: trackUsbSetupFailure_def suppressRecoveryForIst_def Let_def split: option.splits)

lemma setup_failed_ok:
  assumes inj: "inj cfg" and inv: "reactor_inv cfg s" and d: "device_at p s = Some d" "states s (cfg p) = Some st"
    and busy: "st \<in> busy_states"
  shows "\<exists>s'. setup_failed d (s\<lparr>outstanding := remove1 d (outstanding s)\<rparr>) = Done s' \<and> step_ok cfg s s'"
proof -
  let ?s = "s\<lparr>outstanding := remove1 d (outstanding s)\<rparr>"
  have id: "dev_id d = cfg p"
    using device_id [OF inv d(1)] .
  have known: "state_of d ?s = st" "next_state d st ?s = ?s"
    using d(2) id touch_known [of ?s d st] by (simp_all add: state_of_def)
  have out: "distinct (outstanding ?s)" "set (outstanding ?s) = set (outstanding s) - {d}"
    using shared_facts(1) [OF inv] by (auto simp: set_remove1_eq)
  have idle: "\<not> (current s ep g \<and> ep_device ep = d)" for ep g
    using device_facts(3) [OF inv d, of ep g] busy by (auto simp: busy_states_def)
  have moves: "step_ok cfg s (next_state d st' ?s)"
    if "st' \<in> {Unassigned, Lost}" "life_step st st'" for st'
    by (rule device_step_ok [where st' = st', OF inj inv d])
      (use that id out idle shared_facts(2) [OF inv] in
        \<open>auto simp: next_state_def managed_states_def busy_states_def current_def\<close>)
  from busy consider "st = Assigning" | "st = Recovering" | "st = Quarantine"
    by (auto simp: busy_states_def)
  then show ?thesis
  proof cases
    case 1
    with known moves [of Unassigned] show ?thesis
      by (simp add: setup_failed_def Let_def life_step_def documented_def)
  next
    case 2
    with known moves [of Lost] show ?thesis
      by (simp add: setup_failed_def Let_def life_step_def documented_def)
  next
    case 3
    obtain s' where "terminate d ?s = Done s'" "step_ok cfg s s'"
      by (rule terminate_ok [OF inj inv d, of ?s])
        (use 3 out in \<open>auto simp: life_step_def documented_def\<close>)
    with 3 known show ?thesis
      by (simp add: setup_failed_def Let_def)
  qed
qed

lemma track_ok:
  assumes inj: "inj cfg" and inv: "reactor_inv cfg s" and d: "device_at p s = Some d" "states s (cfg p) = Some st"
    and busy: "st \<in> busy_states" and ep: "ep_device ep = d"
    and s1: "repo s1 = repo s" "states s1 = states s" "removals s1 = removals s" "subscriptions s1 = subscriptions s"
      "trackedEndpointGenerations s1 = trackedEndpointGenerations s" "remove_requests s1 = remove_requests s"
      "outstanding s1 = remove1 d (outstanding s)"
  shows "step_ok cfg s (trackEndpoint ep s1)"
proof -
  let ?n = "length (subscriptions s)"
  let ?st = "if st = Assigning then Assigned else Recovered"
  have id: "dev_id d = cfg p"
    using device_id [OF inv d(1)] .
  obtain item where item: "inventoryFor d (repo s) = Some item"
    using device_contained [OF inv d(1)] by (auto simp: contains_def inventoryFor_def)
  have known: "state_of d (s1\<lparr>subscriptions := subscriptions s @ [(ep, ?n)]\<rparr>) = st"
    using d(2) id s1 by (simp add: state_of_def)
  let ?s = "s1\<lparr>subscriptions := subscriptions s @ [(ep, ?n)], states := (states s)(cfg p \<mapsto> ?st),
     association_calls := association_calls s1 @ [Associate (ep_path ep) item],
     trackedEndpointGenerations := (trackedEndpointGenerations s)(ep_path ep \<mapsto> ?n)\<rparr>"
  have track: "trackEndpoint ep s1 = ?s"
    using busy known item ep id s1
    by (auto simp: trackEndpoint_def Let_def busy_states_def publish_def serve_def next_state_def)
  have below: "g < ?n" if "(ep', g) \<in> set (subscriptions s)" for ep' g
    using shared_facts(2) [OF inv] that by auto
  have idle: "\<not> (current s ep' g \<and> ep_device ep' = d)" for ep' g
    using device_facts(3) [OF inv d, of ep' g] busy by (auto simp: busy_states_def)
  have cur: "current s ep' g \<or> (ep' = ep \<and> g = ?n)" if "current ?s ep' g" for ep' g
    using that below [of ep' ?n] by (auto simp: current_def split: if_splits)
  have "step_ok cfg s ?s"
  proof (rule device_step_ok [where st' = ?st, OF inj inv d])
    show "life_step st ?st" "?st \<in> managed_states"
      using busy by (auto simp: busy_states_def life_step_def documented_def managed_states_def)
    show "distinct (outstanding ?s)" "set (outstanding ?s) =
        (if ?st \<in> busy_states then insert d (set (outstanding s)) else set (outstanding s) - {d})"
      using shared_facts(1) [OF inv] s1(7) by (auto simp: busy_states_def set_remove1_eq)
    show "\<forall>(ep, g) \<in> set (subscriptions ?s). g < length (subscriptions ?s)"
      using below by (auto simp: less_Suc_eq)
    show "current s ep' g" if "current ?s ep' g" "ep_device ep' \<noteq> d" for ep' g
      using cur [OF that(1)] that(2) ep by blast
    show "ep1 = ep2" if "current ?s ep1 g1" "current ?s ep2 g2" "ep_device ep1 = d" "ep_device ep2 = d" for ep1 g1 ep2 g2
      using cur [OF that(1)] cur [OF that(2)] idle that(3,4) by blast
  qed (use s1 in \<open>auto split: if_splits\<close>)
  then show ?thesis
    by (simp only: track)
qed

lemma outstanding_device:
  assumes "reactor_inv cfg s" "d \<in> set (outstanding s)"
  obtains p st where "device_at p s = Some d" "states s (cfg p) = Some st" "st \<in> busy_states"
proof -
  have "contains d (repo s)"
    using assms by (auto simp: reactor_inv_def shared_inv_def)
  then obtain p where p: "device_at p s = Some d"
    using contains_iff [OF repo_inv_of [OF assms(1)]] by auto
  obtain st where st: "states s (cfg p) = Some st" "st \<in> managed_states"
    using device_state [OF assms(1) p] .
  with device_facts(1) [OF assms(1) p st(1)] assms(2) p show thesis
    by (intro that) auto
qed

lemma setup_done_ok:
  assumes inj: "inj cfg" and inv: "reactor_inv cfg s" and "expected cfg (SetupDone d result alive ist) s"
  shows "\<exists>s'. handle_event (SetupDone d result alive ist) s = Done s' \<and> step_ok cfg s s'"
proof -
  have "d \<in> set (outstanding s)" "alive"
    using assms(3) by auto
  then obtain p st where d: "device_at p s = Some d" "states s (cfg p) = Some st" and busy: "st \<in> busy_states"
    using outstanding_device [OF inv] by blast
  show ?thesis
  proof (cases result)
    case SetupError
    obtain t where t: "setup_failed d (s\<lparr>outstanding := remove1 d (outstanding s)\<rparr>) = Done t" "step_ok cfg s t"
      using setup_failed_ok [OF inj inv d busy] by blast
    have "step_ok cfg s (trackUsbSetupFailure ist d (t\<lparr>failureCounts := bump d (failureCounts t)\<rparr>))"
      by (rule step_ok_then_same [OF t(2)]) simp_all
    with t(1) SetupError \<open>alive\<close> show ?thesis
      by (simp add: setup_done_def)
  next
    case (NewEndpoint ep subscribed)
    with assms(3) have ep: "ep_device ep = d" "subscribed"
      by auto
    have "step_ok cfg s (trackEndpoint ep (clearUsbSetupFailureTracking d (erase_failures d
        (s\<lparr>outstanding := remove1 d (outstanding s)\<rparr>))))"
      by (rule track_ok [OF inj inv d busy ep(1)]) (simp_all add: erase_failures_def)
    with ep NewEndpoint \<open>alive\<close> show ?thesis
      by (simp add: setup_done_def Let_def)
  qed (use assms(3) in simp)
qed

lemma endpoint_removed_ok:
  assumes inj: "inj cfg" and inv: "reactor_inv cfg s" and "expected cfg (EndpointRemoved ep g alive) s"
  shows "\<exists>s'. handle_event (EndpointRemoved ep g alive) s = Done s' \<and> step_ok cfg s s'"
proof (cases "trackedEndpointGenerations s (ep_path ep) = Some g")
  case False
  then show ?thesis
    by (simp add: endpoint_removed_def step_ok_refl [OF inv])
next
  case True
  then have cur: "current s ep g"
    using assms(3) by (simp add: current_def)
  let ?s = "serve (Disassociate (ep_path ep))
    (s\<lparr>trackedEndpointGenerations := (trackedEndpointGenerations s)(ep_path ep := None)\<rparr>)"
  have s: "repo ?s = repo s" "states ?s = states s" "outstanding ?s = outstanding s" "removals ?s = removals s"
    "subscriptions ?s = subscriptions s" "remove_requests ?s = remove_requests s"
    by (simp_all add: serve_def)
  have fewer: "current s ep' g' \<and> ep_path ep' \<noteq> ep_path ep" if "current ?s ep' g'" for ep' g'
    using that by (auto simp: current_def serve_def split: if_splits)
  show ?thesis
  proof (cases "contains (ep_device ep) (repo s)")
    case False
    have "step_ok cfg s ?s"
      by (rule step_ok_same [OF inv]) (use s fewer in auto)
    with True False s(1) show ?thesis
      by (simp add: endpoint_removed_def Let_def)
  next
    case contained: True
    then obtain p where p: "device_at p s = Some (ep_device ep)"
      using contains_iff [OF repo_inv_of [OF inv]] by auto
    obtain st where st: "states s (cfg p) = Some st" "st \<in> managed_states"
      using device_state [OF inv p] .
    have id: "dev_id (ep_device ep) = cfg p"
      using device_id [OF inv p] .
    have up: "st \<in> {Assigned, Recovered}"
      using device_facts(3) [OF inv p st(1) cur] by simp
    have none: "\<not> (current ?s ep' g' \<and> ep_device ep' = ep_device ep)" for ep' g'
      using fewer [of ep' g'] device_facts(4) [OF inv p st(1) cur, of ep' g'] by auto
    have "step_ok cfg s (next_state (ep_device ep) Lost ?s)"
    proof (rule device_step_ok [where st' = Lost, OF inj inv p st(1)])
      show "life_step st Lost" "Lost \<in> managed_states"
        using up by (auto simp: life_step_def documented_def managed_states_def)
      show "set (outstanding (next_state (ep_device ep) Lost ?s)) =
          (if Lost \<in> busy_states then insert (ep_device ep) (set (outstanding s)) else set (outstanding s) - {ep_device ep})"
        using device_facts(1) [OF inv p st(1)] up s by (auto simp: next_state_def busy_states_def)
      have cur': "current (next_state (ep_device ep) Lost ?s) ep' g' \<longleftrightarrow> current ?s ep' g'" for ep' g'
        by (simp add: current_def next_state_def)
      show "current s ep' g'" if "current (next_state (ep_device ep) Lost ?s) ep' g'" "ep_device ep' \<noteq> ep_device ep" for ep' g'
        using that fewer cur' by blast
      show "Lost \<in> {Assigned, Recovered}"
        if "current (next_state (ep_device ep) Lost ?s) ep' g'" "ep_device ep' = ep_device ep" for ep' g'
        using that none cur' by blast
      show "ep1 = ep2" if "current (next_state (ep_device ep) Lost ?s) ep1 g1"
          "current (next_state (ep_device ep) Lost ?s) ep2 g2" "ep_device ep1 = ep_device ep" "ep_device ep2 = ep_device ep"
        for ep1 g1 ep2 g2
        using that none cur' by blast
    qed (use s id shared_facts [OF inv] in \<open>auto simp: next_state_def\<close>)
    moreover have "state_of (ep_device ep) ?s = st"
      using st(1) id s(2) by (simp add: state_of_def)
    moreover have "alive"
      using assms(3) contained by simp
    ultimately show ?thesis
      using True contained up s(1) by (auto simp: endpoint_removed_def Let_def)
  qed
qed

lemma remove_done_ok:
  assumes inj: "inj cfg" and inv: "reactor_inv cfg s"
  shows "step_ok cfg s (remove_done p d (s\<lparr>removals := remove1 (p, d) (removals s)\<rparr>))"
proof -
  let ?s = "s\<lparr>removals := remove1 (p, d) (removals s)\<rparr>"
  have keep: "(q, x) \<in> set (removals ?s)" if "(q, x) \<in> set (removals s)" "(q, x) \<noteq> (p, d)" for q x
    using that by (simp add: in_set_remove1)
  show ?thesis
  proof (cases "device_at p s = Some d \<and> states s (dev_id d) = Some Pending")
    case True
    then have d: "device_at p s = Some d" "states s (cfg p) = Some Pending" and id: "dev_id d = cfg p"
      using device_id [OF inv] by auto
    have "step_ok cfg s (next_state d Unassigned ?s)"
      by (rule device_step_ok [where st' = Unassigned, OF inj inv d])
        (use id keep shared_facts [OF inv] device_facts [OF inv d] in
          \<open>auto simp: next_state_def life_step_def documented_def managed_states_def busy_states_def current_def\<close>)
    with True show ?thesis
      by (simp add: remove_done_def)
  next
    case False
    have "path_inv cfg ?s q" for q
    proof (cases "device_at q s")
      case None
      moreover have "path_inv cfg s q"
        using inv by (simp add: reactor_inv_def)
      ultimately show ?thesis
        by (simp add: path_inv_def)
    next
      case (Some x)
      obtain st where st: "states s (cfg q) = Some st" "st \<in> managed_states" "dev_id x = cfg q" "device_ok s q x st"
        using inv Some by (metis path_inv_device reactor_inv_def)
      have "(q, x) \<noteq> (p, d)" if "st = Pending"
        using False Some st(1,3) that by auto
      then have "device_ok ?s q x st"
        using st(4) keep by (auto simp: device_ok_def current_def)
      with Some st show ?thesis
        by (simp add: path_inv_def)
    qed
    then have "reactor_inv cfg ?s"
      using inv by (simp add: reactor_inv_def shared_inv_def)
    with False show ?thesis
      by (auto simp: remove_done_def step_ok_def table_state_def)
  qed
qed

section \<open>The tick\<close>

fun ticked :: "MCTPDeviceState \<Rightarrow> MCTPDeviceState" where
  "ticked Unassigned = Assigning"
| "ticked Lost = Recovering"
| "ticked st = st"

definition due :: "reactor \<Rightarrow> mctp_device \<Rightarrow> bool" where
  "due s d \<longleftrightarrow> state_of d s \<in> {Unassigned, Lost}"

lemma tick_device_effect:
  assumes inv: "reactor_inv cfg s" and p: "device_at p s = Some d"
  shows "tick_device d s =
     (if due s d then s\<lparr>states := (states s)(cfg p \<mapsto> ticked (table_state s (cfg p))), outstanding := outstanding s @ [d]\<rparr>
      else s)"
    and "\<not> due s d \<Longrightarrow> ticked (table_state s (cfg p)) = table_state s (cfg p)"
    and "due s d \<Longrightarrow> states s (cfg p) = Some (table_state s (cfg p))"
proof -
  obtain st where st: "states s (cfg p) = Some st" "st \<in> managed_states"
    using device_state [OF inv p] .
  have id: "dev_id d = cfg p"
    using device_id [OF inv p] .
  have known: "state_of d s = st" "next_state d st s = s"
    using st(1) id touch_known [of s d st] by (simp_all add: state_of_def)
  then have "tick_device d s =
      (if st = Unassigned then setupEndpoint d (next_state d Assigning s)
       else if st = Lost then setupEndpoint d (next_state d Recovering s) else s)"
    by (simp add: tick_device_def Let_def)
  moreover have "due s d \<longleftrightarrow> st \<in> {Unassigned, Lost}" "table_state s (cfg p) = st"
    using known(1) st(1) by (simp_all add: due_def table_state_def)
  ultimately show "tick_device d s =
     (if due s d then s\<lparr>states := (states s)(cfg p \<mapsto> ticked (table_state s (cfg p))), outstanding := outstanding s @ [d]\<rparr>
      else s)"
    using id by (auto simp: setupEndpoint_def next_state_def)
  show "\<not> due s d \<Longrightarrow> ticked (table_state s (cfg p)) = table_state s (cfg p)"
    and "due s d \<Longrightarrow> states s (cfg p) = Some (table_state s (cfg p))"
    using st known(1) by (cases st; simp add: due_def table_state_def)+
qed

lemma tick_device_ok:
  assumes inj: "inj cfg" and inv: "reactor_inv cfg s" and p: "device_at p s = Some d"
  shows "step_ok cfg s (tick_device d s)"
proof (cases "due s d")
  case True
  have id: "dev_id d = cfg p"
    using device_id [OF inv p] .
  obtain st where st: "states s (cfg p) = Some st" "st \<in> managed_states"
    using device_state [OF inv p] .
  have st': "st \<in> {Unassigned, Lost}" "table_state s (cfg p) = st"
    using True st id by (simp_all add: due_def state_of_def table_state_def)
  have idle: "d \<notin> set (outstanding s)"
    using device_facts(1) [OF inv p st(1)] st'(1) by (auto simp: busy_states_def)
  have none: "\<not> (current s ep g \<and> ep_device ep = d)" for ep g
    using device_facts(3) [OF inv p st(1), of ep g] st'(1) by auto
  let ?s = "s\<lparr>states := (states s)(cfg p \<mapsto> ticked st), outstanding := outstanding s @ [d]\<rparr>"
  have cur: "current ?s ep g \<longleftrightarrow> current s ep g" for ep g
    by (simp add: current_def)
  have "ticked st \<in> busy_states"
    using st'(1) by (auto simp: busy_states_def)
  have "ticked st \<in> managed_states"
    using st'(1) by (auto simp: managed_states_def)
  have "life_step st (ticked st)"
    using st'(1) by (elim insertE emptyE) (simp_all add: life_step_def documented_def)
  have "step_ok cfg s ?s"
  proof (rule device_step_ok [where st' = "ticked st", OF inj inv p st(1)])
    show "distinct (outstanding ?s)" "\<forall>(ep, g) \<in> set (subscriptions ?s). g < length (subscriptions ?s)"
      using idle shared_facts [OF inv] by auto
    show "set (outstanding ?s) =
        (if ticked st \<in> busy_states then insert d (set (outstanding s)) else set (outstanding s) - {d})"
      using \<open>ticked st \<in> busy_states\<close> by auto
    show "ticked st = Pending \<Longrightarrow> st = Pending"
      using st'(1) by auto
    show "current s ep g" if "current ?s ep g" for ep g
      using that cur by simp
    show "ticked st \<in> {Assigned, Recovered}" if "current ?s ep g" "ep_device ep = d" for ep g
      using that cur none by blast
    show "ep = ep'" if "current ?s ep g" "ep_device ep = d" for ep ep' g
      using that cur none by blast
  qed (use \<open>ticked st \<in> managed_states\<close> \<open>life_step st (ticked st)\<close> in simp_all)
  with True st'(2) show ?thesis
    by (simp add: tick_device_effect(1) [OF inv p])
next
  case False
  then show ?thesis
    by (simp add: tick_device_effect(1) [OF inv p] step_ok_refl [OF inv])
qed

lemma tick_fold:
  assumes "inj cfg" "reactor_inv cfg s" "\<forall>(p, d) \<in> set m. device_at p s = Some d" "distinct (map fst m)"
  defines "t \<equiv> fold (\<lambda>entry. tick_device (snd entry)) m s"
  shows "reactor_inv cfg t \<and> repo t = repo s \<and> remove_requests t = remove_requests s \<and>
    outstanding t = outstanding s @ filter (due s) (map snd m) \<and>
    (\<forall>i. table_state t i = (if i \<in> cfg ` fst ` set m then ticked (table_state s i) else table_state s i))"
  using assms(2-4) unfolding t_def
proof (induction m arbitrary: s)
  case (Cons x m)
  obtain p d where x: "x = (p, d)"
    by (cases x) auto
  have p: "device_at p s = Some d" and inv: "reactor_inv cfg s"
    using Cons.prems x by auto
  let ?s = "tick_device d s"
  have eff: "?s = (if due s d then s\<lparr>states := (states s)(cfg p \<mapsto> ticked (table_state s (cfg p))), outstanding := outstanding s @ [d]\<rparr>
      else s)" and rest: "\<not> due s d \<Longrightarrow> ticked (table_state s (cfg p)) = table_state s (cfg p)"
    using tick_device_effect [OF inv p] by auto
  have same: "repo ?s = repo s" "remove_requests ?s = remove_requests s"
    "outstanding ?s = outstanding s @ filter (due s) [d]"
    by (simp_all add: eff)
  have tab: "table_state ?s i = (if i = cfg p then ticked (table_state s i) else table_state s i)" for i
    using rest by (simp add: eff table_state_def)
  have "reactor_inv cfg ?s"
    using tick_device_ok [OF assms(1) inv p] by (simp add: step_ok_def)
  moreover have "\<forall>(q, e) \<in> set m. device_at q ?s = Some e"
    using Cons.prems(2) same(1) by (auto simp: x)
  ultimately have IH: "reactor_inv cfg (fold (\<lambda>entry. tick_device (snd entry)) m ?s) \<and>
      repo (fold (\<lambda>entry. tick_device (snd entry)) m ?s) = repo ?s \<and>
      remove_requests (fold (\<lambda>entry. tick_device (snd entry)) m ?s) = remove_requests ?s \<and>
      outstanding (fold (\<lambda>entry. tick_device (snd entry)) m ?s) = outstanding ?s @ filter (due ?s) (map snd m) \<and>
      (\<forall>i. table_state (fold (\<lambda>entry. tick_device (snd entry)) m ?s) i =
         (if i \<in> cfg ` fst ` set m then ticked (table_state ?s i) else table_state ?s i))"
    using Cons.IH [of ?s] Cons.prems(3) by simp
  have apart: "cfg q \<noteq> cfg p" if "q \<in> fst ` set m" for q
    using that Cons.prems(3) assms(1) by (auto simp: x inj_eq)
  have "due ?s e = due s e" if "e \<in> snd ` set m" for e
  proof -
    obtain q where q: "(q, e) \<in> set m"
      using \<open>e \<in> snd ` set m\<close> by auto
    then have "device_at q s = Some e" "q \<in> fst ` set m"
      using Cons.prems(2) by (auto simp: x image_iff intro: bexI [of _ "(q, e)"])
    then have "dev_id e = cfg q" "cfg q \<noteq> cfg p"
      using device_id [OF inv] apart by auto
    then show ?thesis
      using tab [of "cfg q"] by (simp add: due_def state_of_table)
  qed
  then have "filter (due ?s) (map snd m) = filter (due s) (map snd m)"
    by (intro filter_cong) auto
  moreover have "cfg p \<notin> cfg ` fst ` set m"
  proof
    assume "cfg p \<in> cfg ` fst ` set m"
    then obtain q where "cfg p = cfg q" "q \<in> fst ` set m"
      by (rule imageE)
    with apart [of q] show False by simp
  qed
  ultimately show ?case
    using IH same tab by (auto simp: x)
qed simp

lemma tick_ok:
  assumes inj: "inj cfg" and inv: "reactor_inv cfg s"
  shows "step_ok cfg s (tick s)"
    and "outstanding (tick s) = outstanding s @ filter (due s) (map snd (devices (repo s)))"
    and "table_state (tick s) i = ticked (table_state s i)"
    and "repo (tick s) = repo s"
proof -
  have ord: "ordered_map (devices (repo s))"
    using repo_inv_of [OF inv] by (simp add: repo_inv_def)
  then have dist: "distinct (map fst (devices (repo s)))"
    by (simp add: strict_sorted_iff)
  then have at: "\<forall>(p, d) \<in> set (devices (repo s)). device_at p s = Some d"
    by (auto simp: deviceFor_def)
  note fold = tick_fold [OF inj inv at dist, folded tick_def]
  have rest: "ticked (table_state s i) = table_state s i" if "i \<notin> cfg ` fst ` set (devices (repo s))" for i
  proof (cases "i \<in> range cfg")
    case True
    then obtain p where p: "i = cfg p" by auto
    with that have "p \<notin> fst ` set (devices (repo s))"
      by blast
    then have "device_at p s = None"
      by (simp add: deviceFor_def map_of_eq_None_iff)
    moreover have "path_inv cfg s p"
      using inv by (simp add: reactor_inv_def)
    ultimately show ?thesis
      by (auto simp: path_inv_def table_state_def p)
  next
    case False
    then have "states s i = None"
      using inv by (auto simp: reactor_inv_def shared_inv_def)
    then show ?thesis
      by (simp add: table_state_def)
  qed
  show tab: "table_state (tick s) i = ticked (table_state s i)" for i
    using fold rest [of i] by auto
  have "life_step st (ticked st)" for st
    by (cases st) (simp_all add: life_step_def documented_def)
  with fold tab show "step_ok cfg s (tick s)"
    by (simp add: step_ok_def)
  show "outstanding (tick s) = outstanding s @ filter (due s) (map snd (devices (repo s)))"
    "repo (tick s) = repo s"
    using fold by auto
qed

lemma event_ok:
  assumes "inj cfg" "reactor_inv cfg s" "expected cfg e s"
  shows "\<exists>s'. handle_event e s = Done s' \<and> step_ok cfg s s'"
proof (cases e)
  case (Manage p dev removed_now)
  with assms manage_ok [OF assms(1,2)] show ?thesis
    by (cases dev) (auto simp: manageMCTPDevice_def step_ok_refl)
next
  case (SetAutoUSB enabled)
  then show ?thesis
    using step_ok_same [OF assms(2), of "s\<lparr>autoUSBRecoveryEnabled := enabled\<rparr>"]
    by (simp add: setAutoUSBRecoveryEnabled_def current_def)
qed (use assms unmanage_ok setup_done_ok endpoint_removed_ok remove_done_ok tick_ok in auto)

section \<open>Reachable reactors\<close>

lemma new_reactor_inv: "reactor_inv cfg (new_reactor usb ist)"
  by (simp add: reactor_inv_def shared_inv_def path_inv_def new_reactor_def deviceFor_def)
    (simp add: empty_repository_def)

interpretation reactors: invariant_system "\<lambda>s. \<exists>usb ist. s = new_reactor usb ist" "reactor_step cfg"
  "\<lambda>s. inj cfg \<longrightarrow> reactor_inv cfg s" for cfg
proof
  show "inj cfg \<longrightarrow> reactor_inv cfg s" if "\<exists>usb ist. s = new_reactor usb ist" for s
    using that new_reactor_inv by blast
  show "inj cfg \<longrightarrow> reactor_inv cfg t" if "inj cfg \<longrightarrow> reactor_inv cfg s" "reactor_step cfg s t" for s t
    using that(2,1) event_ok by (fastforce elim: reactor_step_cases simp: step_ok_def)
qed

abbreviation reachable_reactor :: "(string \<Rightarrow> nat) \<Rightarrow> reactor \<Rightarrow> bool" where
  "reachable_reactor cfg \<equiv> reach (\<lambda>s. \<exists>usb ist. s = new_reactor usb ist) (reactor_step cfg)"

lemma reachable_inv: "inj cfg \<Longrightarrow> reachable_reactor cfg s \<Longrightarrow> reactor_inv cfg s"
  using reactors.reach_inv [of cfg s] by blast

text \<open>Running a list of events, for examples and for scenarios.\<close>

fun run_events :: "reactor_event list \<Rightarrow> reactor \<Rightarrow> reactor option" where
  "run_events [] s = Some s"
| "run_events (e # es) s = (case handle_event e s of Done t \<Rightarrow> run_events es t | Raised _ _ \<Rightarrow> None)"

fun expected_events :: "(string \<Rightarrow> nat) \<Rightarrow> reactor_event list \<Rightarrow> reactor \<Rightarrow> bool" where
  "expected_events cfg [] s \<longleftrightarrow> True"
| "expected_events cfg (e # es) s \<longleftrightarrow> expected cfg e s \<and>
     (case handle_event e s of Done t \<Rightarrow> expected_events cfg es t | Raised _ _ \<Rightarrow> False)"

lemma reach_run:
  "reachable_reactor cfg s \<Longrightarrow> expected_events cfg es s \<Longrightarrow> \<exists>t. run_events es s = Some t \<and> reachable_reactor cfg t"
proof (induction es arbitrary: s)
  case (Cons e es)
  then show ?case
    by (auto split: outcome.splits intro: reach_step reactor_step.intros)
qed auto

text \<open>
  C17: From every reachable state an expected event is handled without an exception, moves every
  identifier along the transitions of the TLA+ design (\<open>documented\<close>) or along one of the four the code
  adds (\<open>undocumented\<close>), never from recovered to removing, and asks for the removal of at most one
  endpoint, whose device is in the repository and assigned or pending.
\<close>
theorem reactor_lifecycle:
  assumes "inj cfg" "reachable_reactor cfg s" "expected cfg e s"
  shows "\<exists>s'. handle_event e s = Done s' \<and>
    (\<forall>i. (table_state s i, table_state s' i) \<in> Id \<union> set documented \<union> set undocumented - {(Recovered, Removing)}) \<and>
    remove_requests s' \<in> {remove_requests s} \<union>
      {remove_requests s @ [d] |d. contains d (repo s) \<and> table_state s (dev_id d) \<in> {Assigned, Pending}}"
proof -
  obtain s' where s': "handle_event e s = Done s'" "step_ok cfg s s'"
    using event_ok [OF assms(1) reachable_inv [OF assms(1,2)] assms(3)] by blast
  have "(Recovered, Removing) \<notin> set documented \<union> set undocumented"
    by (simp add: documented_def undocumented_def)
  then have "life_step st st' \<Longrightarrow> (st, st') \<in> Id \<union> set documented \<union> set undocumented - {(Recovered, Removing)}" for st st'
    by (auto simp: life_step_def)
  with s' show ?thesis
    unfolding step_ok_def requests_ok_def by blast
qed

text \<open>
  C18: In every state that expected events lead to, for configurations with distinct identifiers, the outstanding
  set-ups are for distinct devices of the repository, and a device of the repository has one exactly if it is
  assigning, recovering or quarantined; a pending device has its removal callback outstanding; and an endpoint that
  is tracked for a device of the repository is the only one and its device is assigned or recovered. No device of
  the repository is unmanaged or removing. Expected events are those of the reactor's own exchanges: a new device is
  not known yet, and an answer is to an outstanding set-up, subscription or removal. Not among them are a set-up that
  a device requests itself through the callback that \<open>addDevice\<close> installs, a set-up answered with
  \<open>AlreadyDiscovered\<close>, and a subscription that fails: after a failed one a quarantined device can be left without an
  outstanding set-up (\<open>failed_subscription_strands\<close>).
\<close>
theorem setup_accounted:
  assumes "inj cfg" "reachable_reactor cfg s" "device_at p s = Some d"
  shows "distinct (outstanding s) \<and> (\<forall>x. x \<in> set (outstanding s) \<longrightarrow> contains x (repo s)) \<and>
    (d \<in> set (outstanding s) \<longleftrightarrow> state_of d s \<in> {Assigning, Recovering, Quarantine}) \<and>
    (state_of d s = Pending \<longrightarrow> (p, d) \<in> set (removals s)) \<and> state_of d s \<notin> {Unmanaged, Removing} \<and>
    (\<forall>ep g. current s ep g \<longrightarrow> ep_device ep = d \<longrightarrow> state_of d s \<in> {Assigned, Recovered} \<and>
       (\<forall>ep' g'. current s ep' g' \<longrightarrow> ep_device ep' = d \<longrightarrow> ep' = ep))"
proof -
  have inv: "reactor_inv cfg s"
    using reachable_inv [OF assms(1,2)] .
  obtain st where st: "states s (cfg p) = Some st" "st \<in> managed_states"
    using device_state [OF inv assms(3)] .
  have eq: "state_of d s = st"
    using st(1) device_id [OF inv assms(3)] by (simp add: state_of_def)
  have shared: "distinct (outstanding s)" "\<forall>x. x \<in> set (outstanding s) \<longrightarrow> contains x (repo s)"
    using inv by (auto simp: reactor_inv_def shared_inv_def)
  have busy: "d \<in> set (outstanding s) \<longleftrightarrow> st \<in> {Assigning, Recovering, Quarantine}"
    using device_facts(1) [OF inv assms(3) st(1)] by (auto simp: busy_states_def)
  have pend: "st = Pending \<longrightarrow> (p, d) \<in> set (removals s)"
    using device_facts(2) [OF inv assms(3) st(1)] by blast
  have rest: "st \<notin> {Unmanaged, Removing}"
    using managed_not_rest [OF st(2)] by simp
  have cur: "st \<in> {Assigned, Recovered} \<and> (\<forall>ep' g'. current s ep' g' \<longrightarrow> ep_device ep' = d \<longrightarrow> ep' = ep)"
    if "current s ep g" "ep_device ep = d" for ep g
    using device_facts(3) [OF inv assms(3) st(1) that] device_facts(4) [OF inv assms(3) st(1) that(1) _ that(2)] by blast
  show ?thesis
    unfolding eq using shared busy pend rest cur by blast
qed


text \<open>
  A run for the witnesses: the device at path b is set up at its second attempt, and its configuration
  is replaced; the one at path a is waiting for its first set-up.
\<close>

fun sample_cfg :: "string \<Rightarrow> nat" where
  "sample_cfg [] = 0"
| "sample_cfg (c # cs) = Suc (of_char c + 256 * sample_cfg cs)"

lemma of_char_bound: "of_char c < (256 :: nat)"
  by (simp add: of_char_def)

lemma inj_sample_cfg: "inj sample_cfg"
proof (rule injI)
  fix p q
  assume "sample_cfg p = sample_cfg q"
  then show "p = q"
  proof (induction p arbitrary: q)
    case Nil
    then show ?case by (cases q) auto
  next
    case (Cons c cs)
    then obtain d ds where q: "q = d # ds"
      by (cases q) auto
    with Cons.prems have eq: "of_char c + 256 * sample_cfg cs = of_char d + 256 * sample_cfg ds"
      by simp
    from arg_cong [OF this, of "\<lambda>n. n mod 256"] have "of_char c = (of_char d :: nat)"
      by (simp add: of_char_bound)
    moreover from this eq have "sample_cfg cs = sample_cfg ds"
      by simp
    ultimately have "c = d" "sample_cfg cs = sample_cfg ds"
      by simp_all
    with Cons.IH show ?case
      by (simp add: q)
  qed
qed

definition sample_device :: "nat \<Rightarrow> string \<Rightarrow> mctp_device" where
  "sample_device a p = \<lparr>dev_address = a, dev_id = sample_cfg p, dev_usb = Some (''usb0'', 1)\<rparr>"

definition sample_endpoint :: mctp_endpoint where
  "sample_endpoint = \<lparr>ep_path = ''e'', ep_device = sample_device 1 ''b''\<rparr>"

definition sample_events :: "reactor_event list" where
  "sample_events =
     [Manage ''b'' (Some (sample_device 1 ''b'')) False,
      SetupDone (sample_device 1 ''b'') SetupError True False, Tick,
      SetupDone (sample_device 1 ''b'') (NewEndpoint sample_endpoint True) True False,
      Manage ''a'' (Some (sample_device 2 ''a'')) False]"

definition sample_reactor :: reactor where
  "sample_reactor = the (run_events sample_events (new_reactor True False))"

lemma sample_expected: "expected_events sample_cfg sample_events (new_reactor True False)"
  by code_simp

lemma sample_reachable: "reachable_reactor sample_cfg sample_reactor"
proof -
  have "reachable_reactor sample_cfg (new_reactor True False)"
    by (rule reach_init) blast
  from reach_run [OF this sample_expected] show ?thesis
    by (auto simp: sample_reactor_def)
qed

theorem reactor_lifecycle_witness:
  "\<exists>s'. handle_event (Unmanage ''b'') sample_reactor = Done s' \<and>
    remove_requests s' \<in> {remove_requests sample_reactor} \<union>
      {remove_requests sample_reactor @ [d] |d. contains d (repo sample_reactor) \<and>
         table_state sample_reactor (dev_id d) \<in> {Assigned, Pending}}"
proof -
  have "expected sample_cfg (Unmanage ''b'') sample_reactor"
    by simp
  from reactor_lifecycle [OF inj_sample_cfg sample_reachable this] show ?thesis
    by blast
qed

theorem setup_accounted_witness:
  "sample_device 2 ''a'' \<in> set (outstanding sample_reactor) \<longleftrightarrow>
   state_of (sample_device 2 ''a'') sample_reactor \<in> {Assigning, Recovering, Quarantine}"
proof -
  have "device_at ''a'' sample_reactor = Some (sample_device 2 ''a'')"
    by code_simp
  from setup_accounted [OF inj_sample_cfg sample_reachable this] show ?thesis
    by blast
qed


section \<open>The association server\<close>

text \<open>
  The paths the calls leave associated; \<open>None\<close> when a path is disassociated that is not associated (the
  server warns about that).
\<close>

fun associated :: "association_call list \<Rightarrow> string set \<Rightarrow> string set option" where
  "associated [] P = Some P"
| "associated (Associate p i # cs) P = associated cs (insert p P)"
| "associated (Disassociate p # cs) P = (if p \<in> P then associated cs (P - {p}) else None)"

lemma associated_append:
  "associated (cs @ ds) P = (case associated cs P of None \<Rightarrow> None | Some Q \<Rightarrow> associated ds Q)"
  by (induction cs P rule: associated.induct) auto

definition assoc_inv :: "reactor \<Rightarrow> bool" where
  "assoc_inv s \<longleftrightarrow> associated (association_calls s) {} = Some (dom (trackedEndpointGenerations s))"

fun after :: "outcome \<Rightarrow> reactor" where
  "after (Done s) = s"
| "after (Raised e s) = s"

text \<open>Any event the environment can deliver, expected or not; an exception leaves its state behind.\<close>

inductive any_step :: "reactor \<Rightarrow> reactor \<Rightarrow> bool" where
  "deliverable e s \<Longrightarrow> any_step s (after (handle_event e s))"

inductive_cases any_step_cases: "any_step s s'"

definition same_tracking :: "reactor \<Rightarrow> reactor \<Rightarrow> bool" where
  "same_tracking s s' \<longleftrightarrow> association_calls s' = association_calls s \<and>
     trackedEndpointGenerations s' = trackedEndpointGenerations s"

named_theorems tracking_intros

lemma same_tracking_refl [tracking_intros]: "same_tracking s s"
  by (simp add: same_tracking_def)

lemma same_tracking_next [simp]: "same_tracking s (next_state d st s') \<longleftrightarrow> same_tracking s s'"
  by (simp add: same_tracking_def next_state_def)

lemma same_tracking_terminate [tracking_intros]: "same_tracking s s' \<Longrightarrow> same_tracking s (after (terminate d s'))"
  by (auto simp: same_tracking_def terminate_def Let_def next_state_def erase_state_def erase_failures_def split: sum.splits)

lemma same_tracking_add [tracking_intros]: "same_tracking s s' \<Longrightarrow> same_tracking s (after (addDevice p d s'))"
  by (auto simp: same_tracking_def addDevice_def split: sum.splits)

lemma same_tracking_stop [tracking_intros]: "same_tracking s s' \<Longrightarrow> same_tracking s (after (stop_managing d s'))"
  by (auto simp: same_tracking_def stop_managing_def Let_def next_state_def erase_failures_def split: sum.splits)

lemma same_tracking_then [tracking_intros]:
  assumes "same_tracking s (after x)" "\<And>t. same_tracking s t \<Longrightarrow> same_tracking s (after (f t))"
  shows "same_tracking s (after (and_then x f))"
  using assms by (cases x) auto

lemma same_tracking_clear [simp]: "same_tracking s (clearUsbSetupFailureTracking d s') \<longleftrightarrow> same_tracking s s'"
  by (simp add: same_tracking_def)

lemma same_tracking_usb [simp]: "same_tracking s (trackUsbSetupFailure ist d s') \<longleftrightarrow> same_tracking s s'"
  by (simp add: same_tracking_def)

lemma same_tracking_update [simp]:
  "same_tracking s (s'\<lparr>failureCounts := x\<rparr>) \<longleftrightarrow> same_tracking s s'"
  "same_tracking s (s'\<lparr>outstanding := y\<rparr>) \<longleftrightarrow> same_tracking s s'"
  "same_tracking s (s'\<lparr>removals := z\<rparr>) \<longleftrightarrow> same_tracking s s'"
  "same_tracking s (s'\<lparr>remove_requests := y\<rparr>) \<longleftrightarrow> same_tracking s s'"
  "same_tracking s (s'\<lparr>autoUSBRecoveryEnabled := b\<rparr>) \<longleftrightarrow> same_tracking s s'"
  "same_tracking s (remove_done p d s') \<longleftrightarrow> same_tracking s s'"
  "same_tracking s (setupEndpoint d s') \<longleftrightarrow> same_tracking s s'"
  by (auto simp: same_tracking_def remove_done_def setupEndpoint_def next_state_def)

lemma same_tracking_replace [tracking_intros]:
  "same_tracking s s' \<Longrightarrow> same_tracking s (after (replace_device removed_now p d s'))"
  by (auto simp: replace_device_def Let_def split: option.splits intro!: tracking_intros)

lemma same_tracking_manage: "same_tracking s (after (manageMCTPDevice removed_now p d s))"
  by (auto simp: manageMCTPDevice_def Let_def split: option.splits intro!: tracking_intros)

lemma same_tracking_unmanage: "same_tracking s (after (unmanageMCTPDevice p s))"
  by (auto simp: unmanageMCTPDevice_def Let_def split: option.splits intro!: tracking_intros)

lemma same_tracking_tick: "same_tracking s (tick s)"
proof -
  have step: "same_tracking s t \<Longrightarrow> same_tracking s (tick_device d t)" for t d
    by (auto simp: tick_device_def Let_def)
  have "same_tracking s t \<Longrightarrow> same_tracking s (fold (\<lambda>entry. tick_device (snd entry)) m t)" for m t
    by (induction m arbitrary: t) (simp_all add: step)
  from this [OF same_tracking_refl] show ?thesis
    by (simp add: tick_def)
qed

lemma same_tracking_inv: "assoc_inv s \<Longrightarrow> same_tracking s s' \<Longrightarrow> assoc_inv s'"
  by (simp add: assoc_inv_def same_tracking_def)

lemma assoc_publish: "assoc_inv s \<Longrightarrow> assoc_inv (publish ep g s)"
  by (auto simp: assoc_inv_def publish_def serve_def Let_def associated_append split: option.splits)

lemma assoc_track: "assoc_inv s \<Longrightarrow> assoc_inv (trackEndpoint ep s)"
  by (auto simp: trackEndpoint_def Let_def next_state_def intro!: assoc_publish) (simp_all add: assoc_inv_def)

lemma assoc_setup_done: "assoc_inv s \<Longrightarrow> assoc_inv (after (setup_done ist alive d result s))"
proof (cases result)
  case (NewEndpoint ep subscribed)
  assume "assoc_inv s"
  then have "assoc_inv (clearUsbSetupFailureTracking d (erase_failures d s))"
    by (simp add: assoc_inv_def erase_failures_def)
  with NewEndpoint \<open>assoc_inv s\<close> show ?thesis
    by (auto simp: setup_done_def Let_def assoc_track) (simp_all add: assoc_inv_def next_state_def)
next
  case SetupError
  assume "assoc_inv s"
  moreover have "same_tracking s (after (setup_failed d s))"
    by (auto simp: setup_failed_def Let_def intro!: tracking_intros)
  then have "same_tracking s (after (setup_done ist alive d result s))"
    by (auto simp: SetupError setup_done_def intro!: tracking_intros)
  ultimately show ?thesis
    by (rule same_tracking_inv)
qed (auto simp: setup_done_def assoc_inv_def erase_failures_def)

lemma assoc_removed:
  assumes "assoc_inv s"
  shows "assoc_inv (after (endpoint_removed alive ep g s))"
proof (cases "trackedEndpointGenerations s (ep_path ep) = Some g")
  case True
  let ?s = "serve (Disassociate (ep_path ep))
    (s\<lparr>trackedEndpointGenerations := (trackedEndpointGenerations s)(ep_path ep := None)\<rparr>)"
  have "ep_path ep \<in> dom (trackedEndpointGenerations s)"
    using True by blast
  with assms have "assoc_inv ?s"
    by (simp add: assoc_inv_def serve_def associated_append)
  moreover have "same_tracking ?s (after (endpoint_removed alive ep g s))"
    using True by (auto simp: endpoint_removed_def Let_def intro!: tracking_intros)
  ultimately show ?thesis
    by (rule same_tracking_inv)
qed (use assms in \<open>simp add: endpoint_removed_def\<close>)

lemma assoc_event:
  assumes "assoc_inv s"
  shows "assoc_inv (after (handle_event e s))"
proof (cases e)
  case (SetupDone d result alive ist)
  moreover have "assoc_inv (s\<lparr>outstanding := remove1 d (outstanding s)\<rparr>)"
    using assms by (simp add: assoc_inv_def)
  ultimately show ?thesis
    by (simp add: assoc_setup_done)
next
  case (EndpointRemoved ep g alive)
  with assms show ?thesis by (simp add: assoc_removed)
qed (auto simp: setAutoUSBRecoveryEnabled_def tracking_intros
      intro!: same_tracking_inv [OF assms] same_tracking_manage same_tracking_unmanage same_tracking_tick)

interpretation any_reactors: invariant_system "\<lambda>s. \<exists>usb ist. s = new_reactor usb ist" any_step assoc_inv
proof
  show "assoc_inv s" if "\<exists>usb ist. s = new_reactor usb ist" for s
    using that by (auto simp: assoc_inv_def new_reactor_def)
  show "assoc_inv t" if "assoc_inv s" "any_step s t" for s t
    using that(2) assoc_event [OF that(1)] by (auto elim: any_step_cases)
qed

text \<open>
  C19: In every execution of any events, exceptions included, in which answers are given only to set-ups,
  subscriptions and removals that are outstanding, the association server is told to disassociate only paths that are
  associated, and the associated paths are at every moment exactly those of the endpoints that the reactor tracks.
\<close>
theorem associations_follow_tracking:
  assumes "reach (\<lambda>s. \<exists>usb ist. s = new_reactor usb ist) any_step s"
  shows "associated (association_calls s) {} = Some (dom (trackedEndpointGenerations s))"
  using any_reactors.reach_inv [OF assms] by (simp add: assoc_inv_def)

lemma expected_deliverable: "expected cfg e s \<Longrightarrow> deliverable e s"
  by (cases e) (auto split: option.splits)

lemma reach_any_run:
  "reach I any_step s \<Longrightarrow> expected_events cfg es s \<Longrightarrow> reach I any_step (the (run_events es s))"
proof (induction es arbitrary: s)
  case (Cons e es)
  then obtain t where t: "handle_event e s = Done t" "expected_events cfg es t" "deliverable e s"
    by (auto split: outcome.splits intro: expected_deliverable)
  then have "any_step s t"
    using any_step.intros [of e s] by simp
  with Cons t show ?case
    by (auto intro: reach_step)
qed simp

theorem associations_follow_tracking_witness:
  "associated (association_calls sample_reactor) {} = Some (dom (trackedEndpointGenerations sample_reactor)) \<and>
   association_calls sample_reactor = [Associate ''e'' ''b'']"
proof
  have "reach (\<lambda>s. \<exists>usb ist. s = new_reactor usb ist) any_step (new_reactor True False)"
    by (rule reach_init) blast
  from reach_any_run [OF this sample_expected]
  have "reach (\<lambda>s. \<exists>usb ist. s = new_reactor usb ist) any_step sample_reactor"
    by (simp add: sample_reactor_def)
  then show "associated (association_calls sample_reactor) {} = Some (dom (trackedEndpointGenerations sample_reactor))"
    by (rule associations_follow_tracking)
  show "association_calls sample_reactor = [Associate ''e'' ''b'']"
    by code_simp
qed

end
