(* ===== verification/Mctp_Reactor_Faults.thy ===== *)
theory Mctp_Reactor_Faults
  imports Mctp_Reactor_Correct
begin

text \<open>
  What the reactor does on failures: the USB clear-halt after repeated set-up failures, a set-up that
  fails while its device is quarantined, and a subscription that fails. The last two lose track of
  the device: one leaves a failure count behind, the other a device that is never set up again.
\<close>

section \<open>Clear-halt after repeated failures\<close>

definition recovers :: "bool \<Rightarrow> reactor \<Rightarrow> bool" where
  "recovers ist s \<longleftrightarrow> autoUSBRecoveryEnabled s \<and> \<not> (istRecovery s \<and> ist) \<and> usbRecovery s"

lemma track_usb_config [simp]:
  "autoUSBRecoveryEnabled (trackUsbSetupFailure ist d s) = autoUSBRecoveryEnabled s"
  "istRecovery (trackUsbSetupFailure ist d s) = istRecovery s"
  "usbRecovery (trackUsbSetupFailure ist d s) = usbRecovery s"
  by (auto simp: trackUsbSetupFailure_def suppressRecoveryForIst_def Let_def split: option.splits)

lemma track_usb_once:
  assumes "dev_usb d = Some (iface, th)" "iface \<noteq> []" "th \<noteq> 0"
    and "usbSetupFailureCounts s d = (if n = 0 then None else Some (int (n mod unat th))) \<or>
         usbSetupFailureCounts s d = Some (int (n mod unat th))"
  shows "usbSetupFailureCounts (trackUsbSetupFailure ist d s) d = Some (int (Suc n mod unat th))"
    and "halts_cleared (trackUsbSetupFailure ist d s) =
           halts_cleared s @ (if Suc n mod unat th = 0 \<and> recovers ist s then [iface] else [])"
proof -
  let ?m = "n mod unat th"
  have th: "0 < unat th"
    using assms(3) by (simp add: unat_gt_0)
  have count: "(case usbSetupFailureCounts s d of None \<Rightarrow> 0 | Some k \<Rightarrow> k) = int ?m"
    using assms(4) by (auto split: if_splits)
  have suc: "Suc n mod unat th = (if Suc ?m = unat th then 0 else Suc ?m)"
    using th by (simp add: mod_Suc)
  have less: "int ?m + 1 < uint th \<longleftrightarrow> Suc ?m \<noteq> unat th"
  proof -
    have "uint th = int (unat th)"
      by simp
    moreover have "?m < unat th"
      using th by simp
    ultimately show ?thesis
      by linarith
  qed
  show "usbSetupFailureCounts (trackUsbSetupFailure ist d s) d = Some (int (Suc n mod unat th))"
    using assms(1-3) less suc
    by (auto simp: trackUsbSetupFailure_def count Let_def suppressRecoveryForIst_def split: if_splits)
  show "halts_cleared (trackUsbSetupFailure ist d s) =
           halts_cleared s @ (if Suc n mod unat th = 0 \<and> recovers ist s then [iface] else [])"
    using assms(1-3) less suc
    by (auto simp: trackUsbSetupFailure_def count Let_def suppressRecoveryForIst_def recovers_def split: if_splits)
qed

text \<open>
  Failures of one USB device in a row, with no success and no removal of its inventory between them,
  clear the halt of its interface at every \<open>threshold\<close>-th failure, and not at all when the recovery is
  switched off, suppressed by an IST run, or has no backend; a threshold of 0 never does.
\<close>
lemma usb_halt_every_threshold:
  assumes "dev_usb d = Some (iface, th)" "iface \<noteq> []" "usbSetupFailureCounts s d = None"
  shows "halts_cleared ((trackUsbSetupFailure ist d ^^ n) s) =
    halts_cleared s @ replicate (if recovers ist s then n div unat th else 0) iface"
proof (cases "th = 0")
  case True
  then have "halts_cleared (trackUsbSetupFailure ist d t) = halts_cleared t" for t
    using assms by (simp add: trackUsbSetupFailure_def)
  then have "halts_cleared ((trackUsbSetupFailure ist d ^^ n) s) = halts_cleared s"
    by (induction n) simp_all
  with True show ?thesis by simp
next
  case False
  let ?t = "\<lambda>n. (trackUsbSetupFailure ist d ^^ n) s"
  have th: "0 < unat th"
    using False by (simp add: unat_gt_0)
  have config: "recovers ist (?t n) = recovers ist s" for n
    by (induction n) (simp_all add: recovers_def)
  have "usbSetupFailureCounts (?t n) d = (if n = 0 then None else Some (int (n mod unat th))) \<and>
      halts_cleared (?t n) = halts_cleared s @ replicate (if recovers ist s then n div unat th else 0) iface"
  proof (induction n)
    case 0
    with assms(3) show ?case by simp
  next
    case (Suc n)
    have prev: "usbSetupFailureCounts (?t n) d = (if n = 0 then None else Some (int (n mod unat th))) \<or>
         usbSetupFailureCounts (?t n) d = Some (int (n mod unat th))"
      using Suc by simp
    have div: "Suc n div unat th = n div unat th + (if Suc n mod unat th = 0 then 1 else 0)"
      using th by (simp add: div_Suc)
    show ?case
      using Suc track_usb_once [OF assms(1,2) False prev, of ist] config [of n] div
      by (auto simp: replicate_append_same)
  qed
  then show ?thesis by blast
qed

definition faulty_device :: mctp_device where
  "faulty_device = \<lparr>dev_address = 1, dev_id = 1, dev_usb = Some (''usb0'', 3)\<rparr>"

lemma usb_halt_every_threshold_witness:
  "halts_cleared ((trackUsbSetupFailure False faulty_device ^^ 7) (new_reactor True False)) = [''usb0'', ''usb0'']"
proof -
  have "dev_usb faulty_device = Some (''usb0'', 3)"
    by (simp add: faulty_device_def)
  from usb_halt_every_threshold [where s = "new_reactor True False" and ist = False and n = 7, OF this]
  have "halts_cleared ((trackUsbSetupFailure False faulty_device ^^ 7) (new_reactor True False)) =
      replicate (7 div unat (3 :: u8)) ''usb0''"
    by (simp add: new_reactor_def recovers_def)
  also have "\<dots> = [''usb0'', ''usb0'']"
    by code_simp
  finally show ?thesis .
qed

section \<open>A failed subscription\<close>

text \<open>
  A device that waits for the answer of a set-up nobody has issued, and the inventory events about it.
\<close>

definition stranded :: "string \<Rightarrow> mctp_device \<Rightarrow> reactor \<Rightarrow> bool" where
  "stranded p d s \<longleftrightarrow> device_at p s = Some d \<and> states s (dev_id d) \<in> {Some Assigning, Some Quarantine} \<and>
     d \<notin> set (outstanding s)"

fun inventory_event :: "string \<Rightarrow> nat \<Rightarrow> reactor_event \<Rightarrow> bool" where
  "inventory_event p i (Manage q (Some d) removed_now) \<longleftrightarrow> q = p \<and> dev_id d = i"
| "inventory_event p i (Unmanage q) \<longleftrightarrow> q = p"
| "inventory_event p i Tick \<longleftrightarrow> True"
| "inventory_event p i _ \<longleftrightarrow> False"

lemma stranded_tick_device:
  assumes "stranded p d s"
  shows "stranded p d (tick_device e s)"
proof (cases "dev_id e = dev_id d")
  case True
  with assms have "state_of e s \<in> {Assigning, Quarantine}" "touch_state e s = s"
    using touch_known [of s e] by (auto simp: stranded_def state_of_def)
  with assms show ?thesis
    by (auto simp: tick_device_def Let_def)
next
  case False
  then have "e \<noteq> d" by auto
  with False assms show ?thesis
    by (auto simp: stranded_def tick_device_def Let_def setupEndpoint_def next_state_def)
qed

lemma stranded_tick: "stranded p d s \<Longrightarrow> stranded p d (tick s)"
proof -
  have "stranded p d s \<Longrightarrow> stranded p d (fold (\<lambda>entry. tick_device (snd entry)) m s)" for m s
    by (induction m arbitrary: s) (simp_all add: stranded_tick_device)
  then show "stranded p d s \<Longrightarrow> stranded p d (tick s)"
    by (simp add: tick_def)
qed

lemma stranded_event:
  assumes "stranded p d s" "inventory_event p (dev_id d) e"
  shows "\<exists>s'. handle_event e s = Done s' \<and> stranded p d s'"
proof (cases e)
  case (Manage q dev removed_now)
  with assms(2) obtain x where x: "dev = Some x" "q = p" "dev_id x = dev_id d"
    by (cases dev) auto
  have "state_of x s \<in> {Assigning, Quarantine}" "touch_state x s = s"
    using assms(1) x(3) touch_known [of s x] by (auto simp: stranded_def state_of_def)
  then have "manageMCTPDevice removed_now p (Some x) s = Done s \<or>
      manageMCTPDevice removed_now p (Some x) s = Done (next_state x Assigning s)"
    by (auto simp: manageMCTPDevice_def Let_def)
  moreover have "stranded p d (next_state x Assigning s)"
    using assms(1) x(3) by (simp add: stranded_def next_state_def)
  ultimately show ?thesis
    using assms(1) Manage x by auto
next
  case (Unmanage q)
  let ?c = "clearUsbSetupFailureTracking d s"
  have "state_of d ?c \<in> {Assigning, Quarantine}" "touch_state d ?c = ?c"
    using assms(1) touch_known [of ?c d] by (auto simp: stranded_def state_of_def)
  then have "unmanageMCTPDevice p s = Done ?c \<or> unmanageMCTPDevice p s = Done (next_state d Quarantine ?c)"
    using assms(1) by (auto simp: unmanageMCTPDevice_def Let_def stranded_def)
  moreover have "stranded p d ?c" "stranded p d (next_state d Quarantine ?c)"
    using assms(1) by (simp_all add: stranded_def next_state_def)
  ultimately show ?thesis
    using assms(2) Unmanage by auto
qed (use assms stranded_tick in auto)

text \<open>
  C21: When subscribing to the endpoint of a completed set-up fails, the device is quarantined with no
  set-up outstanding; whatever the inventory then reports about it, and however often the timer
  ticks, it stays assigning or quarantined and no set-up is ever issued for it again.
\<close>
theorem failed_subscription_strands:
  assumes "inj cfg" "reachable_reactor cfg s" "d \<in> set (outstanding s)"
  shows "\<exists>s1 p. handle_event (SetupDone d (NewEndpoint ep False) True ist) s = Done s1 \<and> device_at p s1 = Some d \<and>
    states s1 (dev_id d) = Some Quarantine \<and>
    (\<forall>es. list_all (inventory_event p (dev_id d)) es \<longrightarrow>
       (\<exists>s'. run_events es s1 = Some s' \<and> stranded p d s'))"
proof -
  have inv: "reactor_inv cfg s"
    using reachable_inv [OF assms(1,2)] .
  obtain p where p: "device_at p s = Some d"
    using outstanding_device [OF inv assms(3)] by metis
  let ?s1 = "next_state d Quarantine (clearUsbSetupFailureTracking d (erase_failures d
      (s\<lparr>outstanding := remove1 d (outstanding s)\<rparr>)))"
  have done_eq: "handle_event (SetupDone d (NewEndpoint ep False) True ist) s = Done ?s1"
    by (simp add: setup_done_def Let_def)
  have start: "stranded p d ?s1" "states ?s1 (dev_id d) = Some Quarantine" "device_at p ?s1 = Some d"
    using p shared_facts(1) [OF inv] by (simp_all add: stranded_def next_state_def erase_failures_def)
  have "list_all (inventory_event p (dev_id d)) es \<Longrightarrow> stranded p d t \<Longrightarrow>
      \<exists>s'. run_events es t = Some s' \<and> stranded p d s'" for es t
  proof (induction es arbitrary: t)
    case (Cons e es)
    then obtain t' where "handle_event e t = Done t'" "stranded p d t'"
      using stranded_event [of p d t e] by auto
    with Cons show ?case
      by auto
  qed simp
  with start done_eq show ?thesis
    by blast
qed

theorem failed_subscription_strands_witness:
  "\<exists>s1. handle_event (SetupDone (sample_device 2 ''a'') (NewEndpoint sample_endpoint False) True False) sample_reactor
      = Done s1 \<and> states s1 (dev_id (sample_device 2 ''a'')) = Some Quarantine"
proof -
  have "sample_device 2 ''a'' \<in> set (outstanding sample_reactor)"
    by code_simp
  from failed_subscription_strands [OF inj_sample_cfg sample_reachable this] show ?thesis
    by blast
qed

section \<open>A set-up that fails in quarantine\<close>

text \<open>A device that the reactor no longer manages but still counts as failing.\<close>

definition leaked :: "mctp_device \<Rightarrow> reactor \<Rightarrow> bool" where
  "leaked d s \<longleftrightarrow> \<not> contains d (repo s) \<and> d \<in> fst ` set (failureCounts s)"

lemma keys_bump: "fst ` set (bump k m) = insert k (fst ` set m)"
  by (induction k m rule: bump.induct) auto

lemma keys_erase: "x \<noteq> k \<Longrightarrow> x \<in> fst ` set (erase_key k m) \<longleftrightarrow> x \<in> fst ` set m"
  by (induction k m rule: erase_key.induct) auto

text \<open>What a handler keeps of the failure counts: those of devices outside the repository.\<close>

definition keeps_failures :: "reactor \<Rightarrow> reactor \<Rightarrow> bool" where
  "keeps_failures s s' \<longleftrightarrow> (\<forall>x. x \<in> fst ` set (failureCounts s) \<longrightarrow> \<not> contains x (repo s) \<longrightarrow>
     x \<in> fst ` set (failureCounts s'))"

lemma keeps_same: "failureCounts s' = failureCounts s \<Longrightarrow> keeps_failures s s'"
  by (simp add: keeps_failures_def)

lemma keeps_erase:
  "contains d (repo s) \<Longrightarrow> failureCounts s' = erase_key d (failureCounts s) \<Longrightarrow> keeps_failures s s'"
  unfolding keeps_failures_def by (metis keys_erase)

lemma failures_terminate:
  "terminate d s = Done s' \<Longrightarrow> failureCounts s' = erase_key d (failureCounts s)"
  by (auto simp: terminate_def Let_def erase_failures_def erase_state_def next_state_def split: sum.splits)

lemma failures_add: "addDevice p d s = Done s' \<Longrightarrow> failureCounts s' = failureCounts s"
  by (auto simp: addDevice_def split: sum.splits)

lemma failures_stop: "stop_managing d s = Done s' \<Longrightarrow> failureCounts s' = erase_key d (failureCounts s)"
  by (auto simp: stop_managing_def Let_def erase_failures_def next_state_def split: sum.splits)

lemma failures_simps [simp]:
  "failureCounts (next_state d st s) = failureCounts s"
  "failureCounts (setupEndpoint d s) = failureCounts s"
  "failureCounts (remove_done p d s) = failureCounts s"
  "failureCounts (publish ep g s) = failureCounts s"
  "failureCounts (serve c s) = failureCounts s"
  "failureCounts (trackEndpoint ep s) = failureCounts s"
  by (auto simp: next_state_def setupEndpoint_def remove_done_def publish_def serve_def trackEndpoint_def Let_def
      split: option.splits)

lemma and_then_Done: "and_then x f = Done t \<longleftrightarrow> (\<exists>s. x = Done s \<and> f s = Done t)"
  by (cases x) auto

lemma failures_replace:
  assumes "replace_device removed_now p d s = Done s'" "device_at p s = Some d0"
  shows "failureCounts s' = erase_key d0 (failureCounts s)"
  using assms
  by (auto simp: replace_device_def Let_def and_then_Done dest!: failures_terminate failures_add split: if_splits)

lemma keeps_failures_event:
  assumes inv: "reactor_inv cfg s" and "expected cfg e s" and d: "handle_event e s = Done s'"
  shows "keeps_failures s s'"
proof (cases e)
  case (Manage p dev removed_now)
  show ?thesis
  proof (cases dev)
    case (Some x)
    let ?t = "touch_state x s"
    have t: "repo ?t = repo s"
      by (simp add: next_state_def)
    show ?thesis
    proof (cases "state_of x ?t = Assigned")
      case True
      with d Manage Some have r: "replace_device removed_now p x ?t = Done s'"
        by (simp add: manageMCTPDevice_def Let_def)
      show ?thesis
      proof (cases "device_at p ?t")
        case None
        with r show ?thesis
          by (auto simp: replace_device_def intro: keeps_same)
      next
        case (Some d0)
        then have "contains d0 (repo s)"
          using device_contained [OF inv] t by simp
        with failures_replace [OF r Some] show ?thesis
          by (auto intro: keeps_erase)
      qed
    next
      case False
      with d Manage Some have "failureCounts s' = failureCounts s"
        by (auto simp: manageMCTPDevice_def Let_def and_then_Done dest!: failures_add split: if_splits)
      then show ?thesis
        by (rule keeps_same)
    qed
  qed (use d Manage in \<open>auto simp: manageMCTPDevice_def intro: keeps_same\<close>)
next
  case (Unmanage p)
  show ?thesis
  proof (cases "device_at p s")
    case None
    with d Unmanage show ?thesis
      by (auto simp: unmanageMCTPDevice_def intro: keeps_same)
  next
    case (Some x)
    then have "contains x (repo s)"
      using device_contained [OF inv] by simp
    moreover have "failureCounts s' = failureCounts s \<or> failureCounts s' = erase_key x (failureCounts s)"
      using d Unmanage Some
      by (auto simp: unmanageMCTPDevice_def Let_def dest!: failures_terminate failures_stop split: if_splits)
    ultimately show ?thesis
      by (auto intro: keeps_same keeps_erase)
  qed
next
  case (SetupDone x result alive ist)
  then have x: "contains x (repo s)"
    using assms(2) inv by (auto simp: reactor_inv_def shared_inv_def)
  show ?thesis
  proof (cases result)
    case SetupError
    let ?s = "s\<lparr>outstanding := remove1 x (outstanding s)\<rparr>"
    obtain t where t: "setup_failed x ?s = Done t" "failureCounts s' = bump x (failureCounts t)"
      using d assms(2) SetupDone SetupError by (auto simp: setup_done_def and_then_Done)
    have "failureCounts t = failureCounts s \<or> failureCounts t = erase_key x (failureCounts s)"
      using t(1) by (auto simp: setup_failed_def Let_def dest!: failures_terminate split: if_splits)
    then have "keeps_failures s t"
      using x by (auto intro: keeps_same keeps_erase)
    then show ?thesis
      using t(2) by (simp add: keeps_failures_def keys_bump)
  next
    case (NewEndpoint ep subscribed)
    have "failureCounts s' = erase_key x (failureCounts s)"
      using d assms(2) SetupDone NewEndpoint by (auto simp: setup_done_def Let_def erase_failures_def)
    with x show ?thesis
      by (rule keeps_erase)
  qed (use assms(2) SetupDone in simp)
next
  case (EndpointRemoved ep g alive)
  then have "failureCounts s' = failureCounts s \<or>
      contains (ep_device ep) (repo s) \<and> failureCounts s' = erase_key (ep_device ep) (failureCounts s)"
    using d by (auto simp: endpoint_removed_def Let_def serve_def dest!: failures_terminate split: if_splits)
  then show ?thesis
    by (auto intro: keeps_same keeps_erase)
next
  case Tick
  have "failureCounts (fold (\<lambda>entry. tick_device (snd entry)) m t) = failureCounts t" for m t
    by (induction m arbitrary: t) (simp_all add: tick_device_def Let_def)
  with d Tick show ?thesis
    by (auto simp: tick_def intro: keeps_same)
qed (use d assms(2) in \<open>auto simp: setAutoUSBRecoveryEnabled_def intro: keeps_same\<close>)

text \<open>The repository only gains devices that are fresh.\<close>

definition gains_fresh :: "reactor \<Rightarrow> reactor \<Rightarrow> bool" where
  "gains_fresh s s' \<longleftrightarrow> (\<forall>x. contains x (repo s') \<longrightarrow> contains x (repo s) \<or> fresh_device x s)"

lemma remove_contains:
  assumes "repo_inv r" "repo_remove d r = Inr r'" "contains x r'"
  shows "contains x r"
proof -
  obtain p where p: "deviceFor p r' = Some x"
    using contains_iff [OF repo_remove_inv [OF assms(1,2)]] assms(3) by auto
  obtain q where "deviceFor q r = Some d"
    using assms(2) contains_iff [OF assms(1), of d] by (auto simp: repo_remove_def contains_def split: option.splits)
  from registry.del_held [OF assms(1) this] obtain q' where
    q: "(\<lambda>q. deviceFor q r') = (\<lambda>q. deviceFor q r)(q' := None)"
    using assms(2) by auto
  have "deviceFor p r = Some x"
    using fun_cong [OF q, of p] p by (simp split: if_splits)
  then show ?thesis
    using contains_iff [OF assms(1)] by blast
qed

lemma add_contains:
  assumes "repo_inv r" "repo_add p d r = Inr r'" "contains x r'"
  shows "contains x r \<or> x = d"
proof (cases "deviceFor p r")
  case None
  from registry.ins_free [OF assms(1) this, of d] have q: "(\<lambda>q. deviceFor q r') = (\<lambda>q. deviceFor q r)(p \<mapsto> d)"
    using assms(2) by auto
  obtain p' where p': "deviceFor p' r' = Some x"
    using contains_iff [OF repo_add_inv [OF assms(1,2)]] assms(3) by auto
  then show ?thesis
    using fun_cong [OF q, of p'] contains_iff [OF assms(1), of x] by (auto split: if_splits)
next
  case (Some y)
  with registry.ins_held [OF assms(1) Some, of d] assms(2,3) show ?thesis
    by (auto split: if_splits)
qed

lemma repo_terminate: "terminate d s = Done s' \<Longrightarrow> repo_remove d (repo s) = Inr (repo s')"
  by (auto simp: terminate_def Let_def erase_failures_def erase_state_def next_state_def split: sum.splits)

lemma repo_addDevice: "addDevice p d s = Done s' \<Longrightarrow> repo_add p d (repo s) = Inr (repo s')"
  by (auto simp: addDevice_def split: sum.splits)

lemma repo_stop: "stop_managing d s = Done s' \<Longrightarrow> repo_remove d (repo s) = Inr (repo s')"
  by (auto simp: stop_managing_def Let_def erase_failures_def next_state_def split: sum.splits)

lemma repo_simps [simp]:
  "repo (next_state d st s) = repo s"
  "repo (setupEndpoint d s) = repo s"
  "repo (remove_done p d s) = repo s"
  "repo (publish ep g s) = repo s"
  "repo (serve c s) = repo s"
  "repo (trackEndpoint ep s) = repo s"
  "repo (erase_failures d s) = repo s"
  by (auto simp: next_state_def setupEndpoint_def remove_done_def publish_def serve_def trackEndpoint_def
      erase_failures_def Let_def split: option.splits)

lemma replace_contains:
  assumes inv: "repo_inv (repo s)" and r: "replace_device removed_now p d s = Done s'" and x: "contains x (repo s')"
  shows "contains x (repo s) \<or> x = d"
proof (cases "device_at p s")
  case None
  with r x show ?thesis
    by (auto simp: replace_device_def)
next
  case (Some d0)
  with r obtain t where t: "repo_remove d0 (repo s) = Inr t" "repo_add p d t = Inr (repo s')"
    by (auto simp: replace_device_def Let_def and_then_Done dest!: repo_terminate repo_addDevice split: if_splits)
  show ?thesis
    using add_contains [OF repo_remove_inv [OF inv t(1)] t(2) x] remove_contains [OF inv t(1)] by blast
qed

lemma manage_contains:
  assumes inv: "repo_inv (repo s)" and m: "manageMCTPDevice removed_now p (Some d) s = Done s'" and x: "contains x (repo s')"
  shows "contains x (repo s) \<or> x = d"
proof (cases "state_of d (touch_state d s) = Assigned")
  case True
  with m have "replace_device removed_now p d (touch_state d s) = Done s'"
    by (simp add: manageMCTPDevice_def Let_def)
  from replace_contains [OF _ this x] inv show ?thesis
    by simp
next
  case False
  with m have "repo s' = repo s \<or> repo_add p d (repo s) = Inr (repo s')"
    by (auto simp: manageMCTPDevice_def Let_def and_then_Done dest!: repo_addDevice split: if_splits)
  with add_contains [OF inv _ x] x show ?thesis
    by auto
qed

lemma gains_shrink:
  assumes "repo_inv (repo s)" "repo s' = repo s \<or> repo_remove d (repo s) = Inr (repo s')"
  shows "gains_fresh s s'"
  using assms remove_contains [OF assms(1)] by (auto simp: gains_fresh_def)

lemma gains_fresh_event:
  assumes inv: "repo_inv (repo s)" and "expected cfg e s" and d: "handle_event e s = Done s'"
  shows "gains_fresh s s'"
proof (cases e)
  case (Manage p dev removed_now)
  show ?thesis
  proof (cases dev)
    case None
    with d Manage show ?thesis
      by (simp add: manageMCTPDevice_def gains_fresh_def)
  next
    case (Some x)
    with d Manage assms(2) manage_contains [OF inv, of removed_now p x s'] show ?thesis
      by (auto simp: gains_fresh_def)
  qed
next
  case (Unmanage p)
  show ?thesis
  proof (cases "device_at p s")
    case (Some x)
    have "repo s' = repo s \<or> repo_remove x (repo s) = Inr (repo s')"
      using d Unmanage Some
      by (auto simp: unmanageMCTPDevice_def Let_def dest!: repo_terminate repo_stop split: if_splits)
    then show ?thesis
      by (rule gains_shrink [OF inv])
  qed (use d Unmanage in \<open>auto simp: unmanageMCTPDevice_def gains_fresh_def\<close>)
next
  case (SetupDone x result alive ist)
  show ?thesis
  proof (cases result)
    case SetupError
    let ?s = "s\<lparr>outstanding := remove1 x (outstanding s)\<rparr>"
    obtain t where t: "setup_failed x ?s = Done t" "repo s' = repo t"
      using d assms(2) SetupDone SetupError by (auto simp: setup_done_def and_then_Done)
    have "repo t = repo s \<or> repo_remove x (repo s) = Inr (repo t)"
      using t(1) by (auto simp: setup_failed_def Let_def dest!: repo_terminate split: if_splits)
    then show ?thesis
      using t(2) by (intro gains_shrink [OF inv, of _ x]) simp
  next
    case (NewEndpoint ep subscribed)
    have "repo s' = repo s"
      using d assms(2) SetupDone NewEndpoint by (auto simp: setup_done_def Let_def)
    then show ?thesis
      by (simp add: gains_fresh_def)
  qed (use assms(2) SetupDone in simp)
next
  case (EndpointRemoved ep g alive)
  then have "repo s' = repo s \<or> repo_remove (ep_device ep) (repo s) = Inr (repo s')"
    using d by (auto simp: endpoint_removed_def Let_def dest!: repo_terminate split: if_splits)
  then show ?thesis
    by (rule gains_shrink [OF inv])
next
  case Tick
  have "repo (fold (\<lambda>entry. tick_device (snd entry)) m t) = repo t"
    for m :: "(string \<times> mctp_device) list" and t
    by (induction m arbitrary: t) (simp_all add: tick_device_def Let_def)
  with d Tick show ?thesis
    by (auto simp: tick_def gains_fresh_def)
qed (use d assms(2) in \<open>auto simp: setAutoUSBRecoveryEnabled_def gains_fresh_def\<close>)

lemma leaked_step:
  assumes "inj cfg" "reactor_inv cfg s" "reactor_step cfg s s'" "leaked d s"
  shows "leaked d s'"
proof -
  obtain e where e: "expected cfg e s" "handle_event e s = Done s'"
    using assms(3) by (auto elim: reactor_step_cases)
  have "\<not> fresh_device d s"
    using assms(4) by (auto simp: leaked_def fresh_device_def)
  then have "\<not> contains d (repo s')"
    using gains_fresh_event [OF repo_inv_of [OF assms(2)] e] assms(4) by (auto simp: gains_fresh_def leaked_def)
  moreover have "d \<in> fst ` set (failureCounts s')"
    using keeps_failures_event [OF assms(2) e] assms(4) unfolding keeps_failures_def leaked_def by blast
  ultimately show ?thesis
    by (simp add: leaked_def)
qed

text \<open>
  A set-up that fails while its device is quarantined ends the device's management and then counts
  the failure: the device is gone from the repository and stays in the failure counts along every
  further expected execution, so that from then on the reactor reports forever that it is retrying.
\<close>
lemma quarantine_failure_leaks:
  assumes "inj cfg" "reachable_reactor cfg s" "d \<in> set (outstanding s)" "state_of d s = Quarantine"
  shows "\<exists>s1. handle_event (SetupDone d SetupError True ist) s = Done s1 \<and>
    (\<forall>s'. (reactor_step cfg)\<^sup>*\<^sup>* s1 s' \<longrightarrow>
       \<not> contains d (repo s') \<and> d \<in> fst ` set (failureCounts s') \<and> isRetrying manages 0 s')"
proof -
  have inv: "reactor_inv cfg s"
    using reachable_inv [OF assms(1,2)] .
  have exp: "expected cfg (SetupDone d SetupError True ist) s"
    using assms(3) by simp
  obtain p where p: "device_at p s = Some d"
    using outstanding_device [OF inv assms(3)] by metis
  let ?s = "s\<lparr>outstanding := remove1 d (outstanding s)\<rparr>"
  obtain st where st: "states s (dev_id d) = Some st"
    using device_state [OF inv p] device_id [OF inv p] by metis
  with assms(4) have "st = Quarantine"
    by (simp add: state_of_def)
  then have known: "state_of d ?s = Quarantine" "next_state d Quarantine ?s = ?s"
    using st touch_known [of ?s d st] by (simp_all add: state_of_def)
  obtain s1 where s1: "handle_event (SetupDone d SetupError True ist) s = Done s1" "step_ok cfg s s1"
    using event_ok [OF assms(1) inv exp] by blast
  have "setup_failed d ?s = terminate d ?s"
    using known by (simp add: setup_failed_def Let_def)
  with s1(1) obtain t where t: "terminate d ?s = Done t" "repo s1 = repo t" "failureCounts s1 = bump d (failureCounts t)"
    by (auto simp: setup_done_def and_then_Done)
  have "\<not> contains d (repo t)"
    using registry.del_only_path [OF repo_inv_of [OF inv] one_path_each_inv [OF assms(1) inv] p]
      repo_terminate [OF t(1)] by simp
  then have leak: "leaked d s1" "reactor_inv cfg s1"
    using t(2,3) s1(2) by (simp_all add: leaked_def keys_bump step_ok_def)
  have stays: "leaked d s' \<and> reactor_inv cfg s'" if "(reactor_step cfg)\<^sup>*\<^sup>* s1 s'" for s'
    using that
  proof (induction rule: rtranclp_induct)
    case (step y z)
    then show ?case
      using leaked_step [OF assms(1)] event_ok [OF assms(1)]
      by (fastforce elim: reactor_step_cases simp: step_ok_def)
  qed (use leak in simp)
  have "\<not> contains d (repo s') \<and> d \<in> fst ` set (failureCounts s') \<and> isRetrying manages 0 s'"
    if "(reactor_step cfg)\<^sup>*\<^sup>* s1 s'" for s'
    using stays [OF that] by (auto simp: leaked_def isRetrying_def)
  with s1(1) show ?thesis
    by blast
qed

definition quarantined_reactor :: reactor where
  "quarantined_reactor = the (run_events (sample_events @ [Unmanage ''a'']) (new_reactor True False))"

lemma quarantine_failure_leaks_witness:
  "\<exists>s1. handle_event (SetupDone (sample_device 2 ''a'') SetupError True False) quarantined_reactor = Done s1 \<and>
    isRetrying (\<lambda>_ _. None) 0 s1"
proof -
  have "reachable_reactor sample_cfg (new_reactor True False)"
    by (rule reach_init) blast
  moreover have "expected_events sample_cfg (sample_events @ [Unmanage ''a'']) (new_reactor True False)"
    by code_simp
  ultimately have "reachable_reactor sample_cfg quarantined_reactor"
    using reach_run by (fastforce simp: quarantined_reactor_def)
  moreover have "sample_device 2 ''a'' \<in> set (outstanding quarantined_reactor)"
    "state_of (sample_device 2 ''a'') quarantined_reactor = Quarantine"
    by code_simp+
  ultimately show ?thesis
    using quarantine_failure_leaks [OF inj_sample_cfg, of quarantined_reactor "sample_device 2 ''a''" False "\<lambda>_ _. None"]
    by blast
qed

end
