(* ===== verification/Cpp_Double.thy ===== *)
theory Cpp_Double
  imports Prelude "HOL-Library.Log_Nat"
begin

text \<open>
  The type \<open>double\<close> of the sensor code: IEEE binary64 values with round-half-to-even. A finite value is
  the rational it denotes (the sign of zero is not distinguished: no comparison or operation of the
  code observes it). \<open>round_double\<close> computes the rounding; the lemmas say that it never crosses a
  representable value and leaves representable values alone, which is what the threshold code rests on.
\<close>

section \<open>Values and rounding\<close>

datatype dbl = NaN | Inf bool | Fin rat

definition round_even :: "rat \<Rightarrow> int" where
  "round_even x =
     (let f = \<lfloor>x\<rfloor>; r = x - of_int f in
      if r < 1 / 2 then f else if 1 / 2 < r then f + 1 else if even f then f else f + 1)"

text \<open>The floor of the binary logarithm of a positive rational.\<close>

definition log2_floor :: "rat \<Rightarrow> int" where
  "log2_floor x =
     (let (n, d) = quotient_of x; k = bitlen n - bitlen d in if x < 2 powi k then k - 1 else k)"

text \<open>The exponent of the spacing of the doubles around a value: 53 bits, not below \<open>2 ^ -1074\<close>.\<close>

definition quantum :: "rat \<Rightarrow> int" where
  "quantum x = max (- 1074) (log2_floor \<bar>x\<bar> - 52)"

definition round_rat :: "rat \<Rightarrow> rat" where
  "round_rat x = (if x = 0 then 0 else of_int (round_even (x / 2 powi quantum x)) * 2 powi quantum x)"

definition round_double :: "rat \<Rightarrow> dbl" where
  "round_double x =
     (let r = round_rat x in
      if 2 ^ 1024 \<le> r then Inf False else if r \<le> - (2 ^ 1024) then Inf True else Fin r)"

definition representable :: "rat \<Rightarrow> bool" where
  "representable x \<longleftrightarrow> (\<exists>m q. x = of_int m * 2 powi q \<and> \<bar>m\<bar> < 2 ^ 53 \<and> - 1074 \<le> q) \<and> \<bar>x\<bar> < 2 ^ 1024"

section \<open>Operations\<close>

fun is_nan :: "dbl \<Rightarrow> bool" where
  "is_nan NaN \<longleftrightarrow> True"
| "is_nan _ \<longleftrightarrow> False"

fun dlt :: "dbl \<Rightarrow> dbl \<Rightarrow> bool" where
  "dlt (Fin x) (Fin y) \<longleftrightarrow> x < y"
| "dlt (Inf s) (Fin y) \<longleftrightarrow> s"
| "dlt (Fin x) (Inf s) \<longleftrightarrow> \<not> s"
| "dlt (Inf s) (Inf t) \<longleftrightarrow> s \<and> \<not> t"
| "dlt _ _ \<longleftrightarrow> False"

fun dle :: "dbl \<Rightarrow> dbl \<Rightarrow> bool" where
  "dle (Fin x) (Fin y) \<longleftrightarrow> x \<le> y"
| "dle (Inf s) (Fin y) \<longleftrightarrow> s"
| "dle (Fin x) (Inf s) \<longleftrightarrow> \<not> s"
| "dle (Inf s) (Inf t) \<longleftrightarrow> s \<or> \<not> t"
| "dle _ _ \<longleftrightarrow> False"

fun dneg :: "dbl \<Rightarrow> dbl" where
  "dneg NaN = NaN"
| "dneg (Inf s) = Inf (\<not> s)"
| "dneg (Fin x) = Fin (- x)"

fun dadd :: "dbl \<Rightarrow> dbl \<Rightarrow> dbl" where
  "dadd (Fin x) (Fin y) = round_double (x + y)"
| "dadd (Inf s) (Fin y) = Inf s"
| "dadd (Fin x) (Inf t) = Inf t"
| "dadd (Inf s) (Inf t) = (if s = t then Inf s else NaN)"
| "dadd _ _ = NaN"

definition dsub :: "dbl \<Rightarrow> dbl \<Rightarrow> dbl" where
  "dsub x y = dadd x (dneg y)"

text \<open>The product of two infinities or of an infinity and a number has the product of the signs.\<close>

fun negative :: "dbl \<Rightarrow> bool" where
  "negative (Fin x) \<longleftrightarrow> x < 0"
| "negative (Inf s) \<longleftrightarrow> s"
| "negative NaN \<longleftrightarrow> False"

fun dmul :: "dbl \<Rightarrow> dbl \<Rightarrow> dbl" where
  "dmul (Fin x) (Fin y) = round_double (x * y)"
| "dmul NaN y = NaN"
| "dmul x NaN = NaN"
| "dmul x y = (if x = Fin 0 \<or> y = Fin 0 then NaN else Inf (negative x \<noteq> negative y))"

fun dabs :: "dbl \<Rightarrow> dbl" where
  "dabs NaN = NaN"
| "dabs (Inf s) = Inf False"
| "dabs (Fin x) = Fin \<bar>x\<bar>"

fun is_double :: "dbl \<Rightarrow> bool" where
  "is_double (Fin x) \<longleftrightarrow> representable x"
| "is_double _ \<longleftrightarrow> True"

section \<open>The quantum\<close>

lemma powi_2_mono: "a \<le> b \<Longrightarrow> (2 :: rat) powi a \<le> 2 powi b"
  by (rule power_int_increasing) simp_all

lemma bitlen_rat:
  assumes "0 < n"
  shows "(2 :: rat) powi (bitlen n - 1) \<le> of_int n" "of_int n < (2 :: rat) powi bitlen n"
proof -
  have b: "0 \<le> bitlen n - 1" "2 ^ nat (bitlen n - 1) \<le> n" "n < 2 ^ nat (bitlen n)"
    using bitlen_bounds [OF assms] assms bitlen_nonneg [of n] bitlen_eq_zero_iff [of n] by auto
  have "(2 :: rat) powi (bitlen n - 1) = of_int (2 ^ nat (bitlen n - 1))"
    using b(1) by (simp add: power_int_nonneg_exp)
  with b(2) show "(2 :: rat) powi (bitlen n - 1) \<le> of_int n"
    by (simp only: of_int_le_iff)
  have "(2 :: rat) powi bitlen n = of_int (2 ^ nat (bitlen n))"
    using bitlen_nonneg [of n] by (simp add: power_int_nonneg_exp)
  with b(3) show "of_int n < (2 :: rat) powi bitlen n"
    by (simp only: of_int_less_iff)
qed

lemma log2_floor_bounds:
  assumes "0 < x"
  shows "2 powi log2_floor x \<le> x" "x < 2 powi (log2_floor x + 1)"
proof -
  obtain n d where nd: "quotient_of x = (n, d)"
    by (cases "quotient_of x")
  then have d: "0 < d" and x: "x = of_int n / of_int d"
    using quotient_of_denom_pos quotient_of_div by blast+
  with assms have n: "0 < n"
    by (simp add: zero_less_divide_iff)
  let ?k = "bitlen n - bitlen d"
  have dp: "(0 :: rat) < of_int d"
    using d by simp
  have "(2 :: rat) powi (?k - 1) * of_int d \<le> 2 powi (?k - 1) * 2 powi bitlen d"
    using bitlen_rat(2) [OF d] by (intro mult_left_mono) simp_all
  also have "\<dots> = (2 :: rat) powi (bitlen n - 1)"
    by (simp flip: power_int_add)
  also have "\<dots> \<le> of_int n"
    by (rule bitlen_rat(1) [OF n])
  finally have low: "2 powi (?k - 1) \<le> x"
    using dp by (simp add: x pos_le_divide_eq)
  have "of_int n < (2 :: rat) powi bitlen n"
    by (rule bitlen_rat(2) [OF n])
  also have "\<dots> = 2 powi (?k + 1) * 2 powi (bitlen d - 1)"
    by (simp flip: power_int_add)
  also have "\<dots> \<le> 2 powi (?k + 1) * of_int d"
    using bitlen_rat(1) [OF d] by (intro mult_left_mono) simp_all
  finally have high: "x < 2 powi (?k + 1)"
    using dp by (simp add: x pos_divide_less_eq)
  show "2 powi log2_floor x \<le> x" "x < 2 powi (log2_floor x + 1)"
    using low high by (auto simp: log2_floor_def nd Let_def not_less)
qed

section \<open>Rounding\<close>

lemma round_even_le: "z \<le> of_int k \<Longrightarrow> round_even z \<le> k"
proof -
  assume z: "z \<le> of_int k"
  then have "\<lfloor>z\<rfloor> \<le> k"
    by linarith
  show ?thesis
  proof (cases "\<lfloor>z\<rfloor> = k")
    case True
    with z have "z = of_int k"
      by linarith
    then show ?thesis
      by (simp add: round_even_def)
  next
    case False
    with \<open>\<lfloor>z\<rfloor> \<le> k\<close> have "\<lfloor>z\<rfloor> + 1 \<le> k"
      by simp
    then show ?thesis
      by (auto simp: round_even_def Let_def)
  qed
qed

lemma round_even_minus: "round_even (- z) = - round_even z"
proof (cases "z = of_int \<lfloor>z\<rfloor>")
  case True
  then obtain k where "z = of_int k" by blast
  then show ?thesis
    by (simp add: round_even_def)
next
  case False
  then have f: "\<lfloor>- z\<rfloor> = - \<lfloor>z\<rfloor> - 1"
    by linarith
  have "even (- \<lfloor>z\<rfloor> - 1) \<longleftrightarrow> \<not> even \<lfloor>z\<rfloor>"
    by simp
  then show ?thesis
    unfolding round_even_def Let_def f by (auto simp: field_simps)
qed

lemma round_rat_minus: "round_rat (- x) = - round_rat x"
  by (simp add: round_rat_def quantum_def round_even_minus)

lemma round_rat_le:
  assumes y: "y = of_int m * 2 powi q" "\<bar>m\<bar> < 2 ^ 53" "- 1074 \<le> q" and xy: "x \<le> y"
  shows "round_rat x \<le> y"
proof (cases "x = 0")
  case True
  with xy show ?thesis by (simp add: round_rat_def)
next
  case False
  let ?e = "quantum x"
  have pos: "(0 :: rat) < 2 powi ?e" by simp
  have z: "x / 2 powi ?e \<le> y / 2 powi ?e"
    using xy pos by (simp add: divide_right_mono)
  have "of_int (round_even (x / 2 powi ?e)) * 2 powi ?e \<le> y"
  proof (cases "?e \<le> q")
    case True
    have "y / 2 powi ?e = of_int m * 2 powi (q - ?e)"
      by (simp add: y power_int_diff)
    also have "\<dots> = of_int (m * 2 ^ nat (q - ?e))"
      using True by (simp add: power_int_nonneg_exp)
    finally have k: "y / 2 powi ?e = of_int (m * 2 ^ nat (q - ?e))" .
    have "round_even (x / 2 powi ?e) \<le> m * 2 ^ nat (q - ?e)"
      using z unfolding k by (rule round_even_le)
    then have "(of_int (round_even (x / 2 powi ?e)) :: rat) \<le> y / 2 powi ?e"
      unfolding k by (simp only: of_int_le_iff)
    then show ?thesis
      using pos by (simp add: pos_le_divide_eq)
  next
    case above: False
    then have e: "?e = log2_floor \<bar>x\<bar> - 52"
      using y(3) by (simp add: quantum_def max_def split: if_splits)
    have big: "2 powi (?e + 52) \<le> \<bar>x\<bar>"
      using log2_floor_bounds(1) [of "\<bar>x\<bar>"] False by (simp add: e)
    have "\<bar>y\<bar> = of_int \<bar>m\<bar> * 2 powi q"
      by (simp add: y abs_mult)
    also have "\<dots> < 2 ^ 53 * 2 powi q"
    proof -
      have "(of_int \<bar>m\<bar> :: rat) < of_int (2 ^ 53)"
        using y(2) by (simp only: of_int_less_iff)
      then show ?thesis
        by (intro mult_strict_right_mono) simp_all
    qed
    also have "\<dots> = (2 :: rat) powi (q + 53)"
      by (simp add: power_int_add)
    also have "\<dots> \<le> 2 powi (?e + 52)"
      using above by (intro powi_2_mono) simp
    finally have small: "\<bar>y\<bar> < 2 powi (?e + 52)" .
    then have neg: "x \<le> - (2 powi (?e + 52))"
      using big xy by linarith
    have "x / 2 powi ?e \<le> of_int (- (2 ^ 52))"
      using neg pos by (simp add: pos_divide_le_eq power_int_add)
    then have "round_even (x / 2 powi ?e) \<le> - (2 ^ 52)"
      by (rule round_even_le)
    then have "(of_int (round_even (x / 2 powi ?e)) :: rat) \<le> of_int (- (2 ^ 52))"
      by (simp only: of_int_le_iff)
    then have "of_int (round_even (x / 2 powi ?e)) * 2 powi ?e \<le> (of_int (- (2 ^ 52)) :: rat) * 2 powi ?e"
      using pos by (intro mult_right_mono) simp_all
    also have "\<dots> = - (2 powi (?e + 52))"
      by (simp add: power_int_add)
    also have "\<dots> \<le> y"
      using small by linarith
    finally show ?thesis .
  qed
  with False show ?thesis
    by (simp add: round_rat_def)
qed

lemma round_double_le:
  assumes "representable y" "x \<le> y"
  shows "dle (round_double x) (Fin y)"
proof -
  have "round_rat x \<le> y"
    using assms round_rat_le by (auto simp: representable_def)
  moreover have "y < 2 ^ 1024"
    using assms(1) by (auto simp: representable_def)
  ultimately show ?thesis
    by (auto simp: round_double_def Let_def)
qed

lemma representable_minus: "representable x \<Longrightarrow> representable (- x)"
proof -
  assume "representable x"
  then obtain m q where "x = of_int m * 2 powi q" "\<bar>m\<bar> < 2 ^ 53" "- 1074 \<le> q" "\<bar>x\<bar> < 2 ^ 1024"
    by (auto simp: representable_def)
  then show "representable (- x)"
    unfolding representable_def by (intro conjI exI [of _ "- m"] exI [of _ q]) simp_all
qed

lemma round_double_minus: "round_double (- x) = dneg (round_double x)"
  by (auto simp: round_double_def Let_def round_rat_minus)

lemma round_double_ge:
  assumes "representable y" "y \<le> x"
  shows "dle (Fin y) (round_double x)"
  using round_double_le [OF representable_minus [OF assms(1)], of "- x"] assms(2)
  by (cases "round_double x") (auto simp: round_double_minus)

lemma round_double_exact: "representable x \<Longrightarrow> round_double x = Fin x"
  using round_double_le [of x x] round_double_ge [of x x] by (cases "round_double x") auto

section \<open>Order\<close>

lemma dle_refl: "dle x x \<longleftrightarrow> \<not> is_nan x"
  by (cases x) auto

lemma dle_trans: "dle x y \<Longrightarrow> dle y z \<Longrightarrow> dle x z"
  by (cases x; cases y; cases z) auto

lemma dlt_dle_trans: "dlt x y \<Longrightarrow> dle y z \<Longrightarrow> dlt x z"
  by (cases x; cases y; cases z) auto

lemma dle_dlt_trans: "dle x y \<Longrightarrow> dlt y z \<Longrightarrow> dlt x z"
  by (cases x; cases y; cases z) auto

lemma dlt_irrefl: "\<not> dlt x x"
  by (cases x) auto

lemma dlt_not_dle: "dlt x y \<Longrightarrow> \<not> dle y x"
  by (cases x; cases y) auto

lemma nan_compare [simp]: "\<not> dle NaN x" "\<not> dle x NaN" "\<not> dlt NaN x" "\<not> dlt x NaN"
  by (cases x; simp)+

lemma dsub_le:
  assumes "is_double x" "dle (Fin 0) h"
  shows "is_nan (dsub x h) \<or> dle (dsub x h) x"
proof (cases x)
  case (Fin a)
  then show ?thesis
    using assms round_double_le [of a "a - r" for r] by (cases h) (auto simp: dsub_def)
qed (use assms in \<open>cases h; auto simp: dsub_def\<close>)+

lemma dadd_ge:
  assumes "is_double x" "dle (Fin 0) h"
  shows "is_nan (dadd x h) \<or> dle x (dadd x h)"
proof (cases x)
  case (Fin a)
  then show ?thesis
    using assms round_double_ge [of a "a + r" for r] by (cases h) auto
qed (use assms in \<open>cases h; auto\<close>)+

lemma dsub_nan [simp]: "dsub x NaN = NaN" "dadd x NaN = NaN" "dsub NaN x = NaN" "dadd NaN x = NaN"
  by (cases x; simp add: dsub_def)+

lemma representable_int: "\<bar>m\<bar> < 2 ^ 53 \<Longrightarrow> representable (of_int m)"
proof -
  assume m: "\<bar>m\<bar> < 2 ^ 53"
  then have "(of_int \<bar>m\<bar> :: rat) < of_int (2 ^ 53)"
    by (simp only: of_int_less_iff)
  then have "\<bar>of_int m :: rat\<bar> < 2 ^ 1024"
    by (simp flip: of_int_abs)
  with m show "representable (of_int m)"
    unfolding representable_def by (intro conjI exI [of _ m] exI [of _ 0]) simp_all
qed

lemma representable_numeral [simp]:
  "representable 0" "representable 1" "(numeral n :: int) < 2 ^ 53 \<Longrightarrow> representable (numeral n)"
  using representable_int [of 0] representable_int [of 1] representable_int [of "numeral n"] by simp_all

lemma round_double_numeral [simp]:
  "round_double 0 = Fin 0" "round_double 1 = Fin 1"
  "(numeral n :: int) < 2 ^ 53 \<Longrightarrow> round_double (numeral n) = Fin (numeral n)"
  by (simp_all add: round_double_exact)

end
