(* ===== verification/Sensor_Thresholds.thy ===== *)
theory Sensor_Thresholds
  imports Cpp_Double
begin

text \<open>
  Thresholds of sensors (\<open>Thresholds.cpp\<close>, \<open>Thresholds.hpp\<close>) over the state of the \<open>Sensor\<close> base class
  (\<open>sensor.hpp\<close>): which alarms a reading asserts and clears, the alarm properties and the
  \<open>ThresholdAsserted\<close> signals, and the timers that delay the alarms of low thresholds. The debugging
  counters are not modelled.

  A D-Bus interface object is represented by the values of its properties. sdbusplus is not part of
  the source; \<open>set_property<bool, true>\<close> returns the value of the parameter \<open>report\<close> on the old and new
  value of a registered property and false on an unregistered one. Its documentation says that it
  reports changes only.
\<close>

section \<open>Data\<close>

datatype Level = WARNING | CRITICAL | PERFORMANCELOSS | SOFTSHUTDOWN | HARDSHUTDOWN | LevelERROR

datatype Direction = HIGH | LOW | DirectionERROR

record threshold =
  level :: Level
  direction :: Direction
  th_value :: dbl
  hysteresis :: dbl
  writeable :: bool

definition new_threshold :: "Level \<Rightarrow> Direction \<Rightarrow> dbl \<Rightarrow> dbl \<Rightarrow> threshold" where
  "new_threshold lev dir val hyst =
     \<lparr>level = lev, direction = dir, th_value = val, hysteresis = hyst, writeable = True\<rparr>"

definition thresProp :: "(Level \<times> u8 \<times> string) list" where
  "thresProp =
     [(WARNING, 0, ''Warning''), (CRITICAL, 1, ''Critical''), (PERFORMANCELOSS, 2, ''PerformanceLoss''),
      (SOFTSHUTDOWN, 3, ''SoftShutdown''), (HARDSHUTDOWN, 4, ''HardShutdown'')]"

fun find_level :: "u8 \<Rightarrow> (Level \<times> u8 \<times> string) list \<Rightarrow> Level" where
  "find_level sev [] = LevelERROR"
| "find_level sev ((lev, order, levelName) # ps) = (if order = sev then lev else find_level sev ps)"

definition findThresholdLevel :: "u8 \<Rightarrow> Level" where
  "findThresholdLevel sev = find_level sev thresProp"

definition findThresholdDirection :: "string \<Rightarrow> Direction" where
  "findThresholdDirection direct =
     (if direct = ''greater than'' then HIGH else if direct = ''less than'' then LOW else DirectionERROR)"

fun find_property :: "string \<Rightarrow> string \<Rightarrow> Level \<Rightarrow> Direction \<Rightarrow> (Level \<times> u8 \<times> string) list \<Rightarrow> string" where
  "find_property high low lev dir [] = []"
| "find_property high low lev dir ((l, order, levelName) # ps) =
     (if l = lev \<and> dir = HIGH then levelName @ high
      else if l = lev \<and> dir = LOW then levelName @ low
      else find_property high low lev dir ps)"

definition propertyLevel :: "Level \<Rightarrow> Direction \<Rightarrow> string" where
  "propertyLevel lev dir = find_property ''High'' ''Low'' lev dir thresProp"

definition propertyAlarm :: "Level \<Rightarrow> Direction \<Rightarrow> string" where
  "propertyAlarm lev dir = find_property ''AlarmHigh'' ''AlarmLow'' lev dir thresProp"

fun find_interface :: "Level \<Rightarrow> (Level \<times> u8 \<times> string) list \<Rightarrow> string" where
  "find_interface lev [] = []"
| "find_interface lev ((l, order, levelName) # ps) =
     (if l = lev then ''xyz.openbmc_project.Sensor.Threshold.'' @ levelName else find_interface lev ps)"

definition getInterface :: "Level \<Rightarrow> string" where
  "getInterface lev = find_interface lev thresProp"

section \<open>The sensor\<close>

datatype PowerState = power_on | power_biosPost | power_always | power_chassisOn

text \<open>
  The members of \<open>Sensor\<close>. \<open>value_property\<close> is the Value property on D-Bus, \<open>level_values\<close> and \<open>alarms\<close>
  the properties of the threshold interfaces; \<open>None\<close> is an interface or property that does not exist.
  \<open>persisted\<close>, \<open>signals\<close> and \<open>hook_calls\<close> record history.
\<close>

record sensor =
  isSensorSettable :: bool
  maxValue :: dbl
  minValue :: dbl
  thresholds :: "threshold list"
  sensor_value :: dbl
  value_property :: "dbl option"
  overriddenState :: bool
  internalSet :: bool
  hysteresisTrigger :: dbl
  hysteresisPublish :: dbl
  readState :: PowerState
  errCount :: nat
  thresholdInterfaces :: "Level \<Rightarrow> bool"
  level_values :: "Level \<Rightarrow> string \<Rightarrow> dbl option"
  alarms :: "Level \<Rightarrow> string \<Rightarrow> bool option"
  available :: "bool option"
  functional :: "bool option"
  persisted :: "(Level \<times> string \<times> dbl) list"
  signals :: "(Level \<times> string \<times> bool \<times> dbl) list"
  hook_calls :: nat

text \<open>\<open>getThresholdInterface\<close>: the level \<open>ERROR\<close> is out of range of the array of interfaces.\<close>

definition getThresholdInterface :: "sensor \<Rightarrow> Level \<Rightarrow> bool" where
  "getThresholdInterface s lev \<longleftrightarrow> lev \<noteq> LevelERROR \<and> thresholdInterfaces s lev"

type_synonym report = "bool \<Rightarrow> bool \<Rightarrow> bool"

definition set_alarm :: "report \<Rightarrow> Level \<Rightarrow> string \<Rightarrow> bool \<Rightarrow> sensor \<Rightarrow> bool \<times> sensor" where
  "set_alarm report lev property v s =
     (case alarms s lev property of
        None \<Rightarrow> (False, s)
      | Some old \<Rightarrow> (report old v, s\<lparr>alarms := (alarms s)(lev := (alarms s lev)(property \<mapsto> v))\<rparr>))"

definition assertThresholds ::
  "report \<Rightarrow> dbl \<Rightarrow> Level \<Rightarrow> Direction \<Rightarrow> bool \<Rightarrow> sensor \<Rightarrow> sensor" where
  "assertThresholds report assertValue lev dir assert s =
     (if \<not> getThresholdInterface s lev then s
      else
        (let property = propertyAlarm lev dir in
         if property = [] then s
         else
           (case set_alarm report lev property assert s of
              (reported, s) \<Rightarrow>
                if reported then s\<lparr>signals := signals s @ [(lev, property, assert, assertValue)]\<rparr> else s)))"

section \<open>Checking a value\<close>

record change_param =
  ch_threshold :: threshold
  asserted :: bool
  assertValue :: dbl

text \<open>What one threshold says of a value: assert, clear, or nothing.\<close>

definition threshold_change :: "dbl \<Rightarrow> threshold \<Rightarrow> bool option" where
  "threshold_change v th =
     (if direction th = HIGH then
        (if dle (th_value th) v then Some True
         else if dlt v (dsub (th_value th) (hysteresis th)) then Some False
         else None)
      else if direction th = LOW then
        (if dle v (th_value th) then Some True
         else if dlt (dadd (th_value th) (hysteresis th)) v then Some False
         else None)
      else None)"

fun threshold_changes :: "dbl \<Rightarrow> threshold list \<Rightarrow> change_param list" where
  "threshold_changes v [] = []"
| "threshold_changes v (th # ths) =
     (case threshold_change v th of
        Some b \<Rightarrow> \<lparr>ch_threshold = th, asserted = b, assertValue = v\<rparr> # threshold_changes v ths
      | None \<Rightarrow> threshold_changes v ths)"

fun apply_changes :: "report \<Rightarrow> change_param list \<Rightarrow> bool \<Rightarrow> sensor \<Rightarrow> bool \<times> sensor" where
  "apply_changes report [] status s = (status, s)"
| "apply_changes report (c # cs) status s =
     (let s = assertThresholds report (assertValue c) (level (ch_threshold c)) (direction (ch_threshold c)) (asserted c) s;
          status = (if level (ch_threshold c) = CRITICAL \<and> asserted c then False else status)
      in apply_changes report cs status s)"

definition checkThresholds :: "report \<Rightarrow> sensor \<Rightarrow> bool \<times> sensor" where
  "checkThresholds report s = apply_changes report (threshold_changes (sensor_value s) (thresholds s)) True s"

text \<open>
  Setting a threshold property calls the setter \<open>setInitialProperties\<close> has registered for it: it takes
  over the value into the threshold it captured, asks for its persistence, and invalidates the value
  so that the next reading is checked again. \<open>updateThresholds\<close> sets every property.
\<close>

fun set_first :: "Level \<Rightarrow> string \<Rightarrow> dbl \<Rightarrow> threshold list \<Rightarrow> threshold list" where
  "set_first lev property v [] = []"
| "set_first lev property v (th # ths) =
     (if level th = lev \<and> propertyLevel (level th) (direction th) = property
      then th\<lparr>th_value := v\<rparr> # ths else th # set_first lev property v ths)"

definition set_level_property :: "Level \<Rightarrow> string \<Rightarrow> dbl \<Rightarrow> sensor \<Rightarrow> sensor" where
  "set_level_property lev property v s =
     (if level_values s lev property = None then s
      else s\<lparr>level_values := (level_values s)(lev := (level_values s lev)(property \<mapsto> v)),
             thresholds := set_first lev property v (thresholds s),
             persisted := persisted s @ [(lev, property, v)],
             sensor_value := NaN\<rparr>)"

definition updateThresholds :: "sensor \<Rightarrow> sensor" where
  "updateThresholds s =
     fold (\<lambda>i s.
             let th = thresholds s ! i; property = propertyLevel (level th) (direction th) in
             if \<not> getThresholdInterface s (level th) then s
             else if property = [] then s
             else set_level_property (level th) property (th_value th) s)
       [0..<length (thresholds s)] s"

section \<open>Delayed alarms\<close>

text \<open>
  A timer of \<open>ThresholdTimer\<close>: what its \<open>TimerUsed\<close> says, the value its wait has captured, and whether it
  has been cancelled. A wait is outstanding exactly while the timer is used.
\<close>

record timer =
  used :: bool
  t_level :: Level
  t_direction :: Direction
  t_assert :: bool
  t_value :: dbl
  t_cancelled :: bool

definition timer_for :: "threshold \<Rightarrow> bool \<Rightarrow> timer \<Rightarrow> bool" where
  "timer_for th assert t \<longleftrightarrow>
     used t \<and> t_level t = level th \<and> t_direction t = direction th \<and> t_assert t = assert"

definition hasActiveTimer :: "threshold \<Rightarrow> bool \<Rightarrow> timer list \<Rightarrow> bool" where
  "hasActiveTimer th assert ts \<longleftrightarrow> list_ex (timer_for th assert) ts"

definition stopTimer :: "threshold \<Rightarrow> bool \<Rightarrow> timer list \<Rightarrow> timer list" where
  "stopTimer th assert ts = map (\<lambda>t. if timer_for th assert t then t\<lparr>t_cancelled := True\<rparr> else t) ts"

fun startTimer :: "threshold \<Rightarrow> bool \<Rightarrow> dbl \<Rightarrow> timer list \<Rightarrow> timer list" where
  "startTimer th assert v [] =
     [\<lparr>used = True, t_level = level th, t_direction = direction th, t_assert = assert, t_value = v,
       t_cancelled = False\<rparr>]"
| "startTimer th assert v (t # ts) =
     (if \<not> used t
      then \<lparr>used = True, t_level = level th, t_direction = direction th, t_assert = assert, t_value = v,
             t_cancelled = False\<rparr> # ts
      else t # startTimer th assert v ts)"

text \<open>The wait of the timer at an index ends; \<open>good\<close> is \<open>readingStateGood\<close> at that time.\<close>

definition timer_done :: "report \<Rightarrow> bool \<Rightarrow> nat \<Rightarrow> timer list \<Rightarrow> sensor \<Rightarrow> timer list \<times> sensor" where
  "timer_done report good i ts s =
     (let t = ts ! i; ts = ts[i := t\<lparr>used := False, t_cancelled := False\<rparr>] in
      if t_cancelled t then (ts, s)
      else if good then (ts, assertThresholds report (t_value t) (t_level t) (t_direction t) (t_assert t) s)
      else (ts, s))"

fun delay_changes ::
  "report \<Rightarrow> change_param list \<Rightarrow> bool \<Rightarrow> timer list \<Rightarrow> sensor \<Rightarrow> bool \<times> timer list \<times> sensor" where
  "delay_changes report [] status ts s = (status, ts, s)"
| "delay_changes report (c # cs) status ts s =
     (if direction (ch_threshold c) = LOW \<and>
         (asserted c \<or> hasActiveTimer (ch_threshold c) (\<not> asserted c) ts)
      then delay_changes report cs status (startTimer (ch_threshold c) (asserted c) (assertValue c) ts) s
      else
        (let s = assertThresholds report (assertValue c) (level (ch_threshold c)) (direction (ch_threshold c)) (asserted c) s;
             status = (if level (ch_threshold c) = CRITICAL \<and> asserted c then False else status)
         in delay_changes report cs status ts s))"

definition checkThresholdsPowerDelay :: "report \<Rightarrow> timer list \<Rightarrow> sensor \<Rightarrow> bool \<times> timer list \<times> sensor" where
  "checkThresholdsPowerDelay report ts s =
     delay_changes report (threshold_changes (sensor_value s) (thresholds s)) True ts s"

end
