(* ===== verification/Sensor.thy ===== *)
theory Sensor
  imports Sensor_Thresholds
begin

text \<open>
  The \<open>Sensor\<close> base class (\<open>sensor.hpp\<close>): construction, initial properties, readings, read errors, and
  values set over D-Bus. The power state comes from the argument \<open>env\<close>, which stands for the static
  flags of \<open>Utils.cpp\<close> once \<open>setInitialProperties\<close> has set up their matches. The virtual method
  \<open>checkThresholds\<close> is the parameter \<open>check\<close>; most sensors have \<open>thresholds::checkThresholds\<close> there.
  Instrumentation, associations and the telemetry of an optional build are not modelled.
\<close>

section \<open>Construction\<close>

record env =
  powerStatusOn :: bool
  biosHasPost :: bool
  chassisStatusOn :: bool
  manufacturingMode :: bool
  insecureSensorOverride :: bool

definition readingStateGood :: "env \<Rightarrow> PowerState \<Rightarrow> bool" where
  "readingStateGood e st =
     (if st = power_on \<and> \<not> powerStatusOn e then False
      else if st = power_biosPost \<and> (\<not> biosHasPost e \<or> \<not> powerStatusOn e) then False
      else if st = power_chassisOn \<and> \<not> chassisStatusOn e then False
      else True)"

definition errorThreshold :: nat where "errorThreshold = 5"

definition new_sensor :: "bool \<Rightarrow> dbl \<Rightarrow> dbl \<Rightarrow> threshold list \<Rightarrow> PowerState \<Rightarrow> (Level \<Rightarrow> bool) \<Rightarrow> sensor" where
  "new_sensor settable mx mn ths st ifaces =
     \<lparr>isSensorSettable = settable, maxValue = mx, minValue = mn, thresholds = ths, sensor_value = NaN,
      value_property = None, overriddenState = False, internalSet = False,
      hysteresisTrigger = dmul (dsub mx mn) (round_double (1 / 100)),
      hysteresisPublish = dmul (dsub mx mn) (round_double (1 / 10000)),
      readState = st, errCount = 0, thresholdInterfaces = ifaces,
      level_values = (\<lambda>_. Map.empty), alarms = (\<lambda>_. Map.empty), available = None, functional = None,
      persisted = [], signals = [], hook_calls = 0\<rparr>"

definition opposite :: "Direction \<Rightarrow> Direction" where
  "opposite dir = (if dir = HIGH then LOW else HIGH)"

definition fill_one :: "threshold \<Rightarrow> threshold list \<Rightarrow> threshold list" where
  "fill_one th ths =
     (if list_ex (\<lambda>t. level t = level th \<and> direction t = opposite (direction th)) ths then ths
      else ths @ [new_threshold (level th) (opposite (direction th)) NaN NaN])"

definition fillMissingThresholds :: "threshold list \<Rightarrow> threshold list" where
  "fillMissingThresholds ths = fold fill_one ths ths"

text \<open>Registering the properties of a threshold; a property that exists is not registered again.\<close>

definition register :: "'k \<Rightarrow> 'v \<Rightarrow> ('k \<Rightarrow> 'v option) \<Rightarrow> 'k \<Rightarrow> 'v option" where
  "register k v m = (case m k of None \<Rightarrow> m(k \<mapsto> v) | Some _ \<Rightarrow> m)"

definition register_threshold :: "threshold \<Rightarrow> sensor \<Rightarrow> sensor" where
  "register_threshold th s =
     (if \<not> getThresholdInterface s (level th) then s
      else
        (let lev = propertyLevel (level th) (direction th); alarm = propertyAlarm (level th) (direction th) in
         if lev = [] \<or> alarm = [] then s
         else s\<lparr>level_values := (level_values s)(level th := register lev (th_value th) (level_values s (level th))),
                alarms := (alarms s)(level th := register alarm False (alarms s (level th)))\<rparr>))"

definition default_hysteresis :: "dbl \<Rightarrow> threshold \<Rightarrow> threshold" where
  "default_hysteresis trigger th = (if is_nan (hysteresis th) then th\<lparr>hysteresis := trigger\<rparr> else th)"

definition setInitialProperties :: "sensor \<Rightarrow> sensor" where
  "setInitialProperties s =
     (let s = s\<lparr>value_property := Some (sensor_value s)\<rparr>;
          s = s\<lparr>thresholds := map (default_hysteresis (hysteresisTrigger s)) (fillMissingThresholds (thresholds s))\<rparr>;
          s = fold register_threshold (thresholds s) s
      in s\<lparr>available := (case available s of None \<Rightarrow> Some True | Some a \<Rightarrow> Some a),
           functional := (case functional s of None \<Rightarrow> Some True | Some f \<Rightarrow> Some f)\<rparr>)"

section \<open>Values\<close>

type_synonym check = "sensor \<Rightarrow> sensor"

text \<open>\<open>None\<close>: \<open>SetSensorError\<close> is thrown.\<close>

definition setSensorValue :: "check \<Rightarrow> env \<Rightarrow> dbl \<Rightarrow> sensor \<Rightarrow> sensor option" where
  "setSensorValue check e newValue s =
     (if \<not> internalSet s then
        (if \<not> insecureSensorOverride e \<and> \<not> isSensorSettable s \<and> \<not> manufacturingMode e then None
         else
           (let s = s\<lparr>value_property := Some newValue, overriddenState := True, sensor_value := newValue\<rparr>;
                s = check s
            in Some (s\<lparr>hook_calls := hook_calls s + 1\<rparr>)))
      else if \<not> overriddenState s then Some (s\<lparr>value_property := Some newValue\<rparr>)
      else Some s)"

definition requiresUpdate :: "dbl \<Rightarrow> dbl \<Rightarrow> dbl \<Rightarrow> bool" where
  "requiresUpdate publish l r =
     (let lNan = is_nan l; rNan = is_nan r in
      if lNan \<or> rNan then lNan \<noteq> rNan else dlt publish (dabs (dsub l r)))"

text \<open>
  \<open>updateProperty\<close> for the Value property: setting it on the interface calls \<open>setSensorValue\<close> with
  \<open>internalSet\<close>, which does not throw.
\<close>

definition updateValueProperty :: "check \<Rightarrow> env \<Rightarrow> dbl \<Rightarrow> sensor \<Rightarrow> sensor" where
  "updateValueProperty check e newValue s =
     (let s = s\<lparr>internalSet := True\<rparr>;
          s = (if requiresUpdate (hysteresisPublish s) (sensor_value s) newValue
               then
                 (let s = s\<lparr>sensor_value := newValue\<rparr> in
                  case value_property s of
                    None \<Rightarrow> s
                  | Some _ \<Rightarrow> (case setSensorValue check e newValue s of None \<Rightarrow> s | Some s \<Rightarrow> s))
               else s)
      in s\<lparr>internalSet := False\<rparr>)"

text \<open>The order in which the three mutually recursive methods below call each other.\<close>

fun call_rank :: "(report \<times> check \<times> env \<times> dbl \<times> sensor) + ((report \<times> check \<times> env \<times> bool \<times> sensor) + (report \<times> check \<times> env \<times> bool \<times> sensor)) \<Rightarrow> nat" where
  "call_rank (Inl (_, _, _, _, s)) = (if available s = Some True then 3 else 1)"
| "call_rank (Inr (Inl (_, _, _, b, s))) = (if \<not> b \<and> available s = Some True then 2 else 0)"
| "call_rank (Inr (Inr (_, _, _, b, s))) = (if b then 0 else 4)"

text \<open>
  A reading. Setting the Available property to a new value calls the setter that
  \<open>setInitialProperties\<close> registered, which on false updates the value to NaN.
\<close>

function updateValue :: "report \<Rightarrow> check \<Rightarrow> env \<Rightarrow> dbl \<Rightarrow> sensor \<Rightarrow> sensor"
  and markAvailable :: "report \<Rightarrow> check \<Rightarrow> env \<Rightarrow> bool \<Rightarrow> sensor \<Rightarrow> sensor"
  and markFunctional :: "report \<Rightarrow> check \<Rightarrow> env \<Rightarrow> bool \<Rightarrow> sensor \<Rightarrow> sensor" where
  "updateValue report check e newValue s =
     (if overriddenState s then s
      else if \<not> readingStateGood e (readState s) then
        (let s = markAvailable report check e False s;
             s = fold (\<lambda>th s. assertThresholds report (sensor_value s) (level th) (direction th) False s) (thresholds s) s
         in updateValueProperty check e NaN s)
      else
        (let s = check (updateValueProperty check e newValue s) in
         if \<not> is_nan newValue
         then markAvailable report check e True (markFunctional report check e True s)
         else s))"
| "markAvailable report check e isAvailable s =
     (case available s of
        None \<Rightarrow> s
      | Some old \<Rightarrow>
          (let s = (if isAvailable = old then s
                    else if \<not> isAvailable
                    then updateValue report check e NaN (s\<lparr>available := Some isAvailable\<rparr>)
                    else s\<lparr>available := Some isAvailable\<rparr>)
           in s\<lparr>errCount := 0\<rparr>))"
| "markFunctional report check e isFunctional s =
     (let s = (case functional s of None \<Rightarrow> s | Some _ \<Rightarrow> s\<lparr>functional := Some isFunctional\<rparr>) in
      if isFunctional then s\<lparr>errCount := 0\<rparr> else updateValue report check e NaN s)"
  by pat_completeness auto

termination
  by (relation "measure call_rank") (auto split: option.splits)

declare updateValue.simps [simp del] markAvailable.simps [simp del] markFunctional.simps [simp del]

definition incrementError :: "report \<Rightarrow> check \<Rightarrow> env \<Rightarrow> sensor \<Rightarrow> sensor" where
  "incrementError report check e s =
     (if \<not> readingStateGood e (readState s) then markAvailable report check e False s
      else if errCount s \<ge> errorThreshold then s
      else
        (let s = s\<lparr>errCount := errCount s + 1\<rparr> in
         if errCount s = errorThreshold then markFunctional report check e False s else s))"

definition inError :: "sensor \<Rightarrow> bool" where
  "inError s \<longleftrightarrow> errCount s \<ge> errorThreshold"

end
