(* ===== verification/Sensor_Correct.thy ===== *)
theory Sensor_Correct
  imports Sensor
begin

text \<open>
  Correctness of the threshold and reading logic of sensors: alarms are independent Schmitt triggers,
  low alarms wait for their timer, read errors are counted up to the limit, losing power clears the
  sensor, and the published value follows the readings up to the publishing hysteresis.
\<close>

section \<open>One alarm property\<close>

definition alarm_of :: "threshold \<Rightarrow> sensor \<Rightarrow> bool option" where
  "alarm_of th s = alarms s (level th) (propertyAlarm (level th) (direction th))"

definition alarm_signals :: "threshold \<Rightarrow> sensor \<Rightarrow> (Level \<times> string \<times> bool \<times> dbl) list" where
  "alarm_signals th s =
     filter (\<lambda>(l, p, b, v). l = level th \<and> p = propertyAlarm (level th) (direction th)) (signals s)"

definition key :: "threshold \<Rightarrow> Level \<times> Direction" where
  "key th = (level th, direction th)"

definition changes_only :: "report \<Rightarrow> bool" where
  "changes_only report \<longleftrightarrow> (\<forall>old new. report old new = (old \<noteq> new))"

definition ready :: "threshold \<Rightarrow> sensor \<Rightarrow> bool" where
  "ready th s \<longleftrightarrow> getThresholdInterface s (level th) \<and> direction th \<in> {HIGH, LOW}"

lemma propertyAlarm_nonempty:
  "lev \<noteq> LevelERROR \<Longrightarrow> dir \<in> {HIGH, LOW} \<Longrightarrow> propertyAlarm lev dir \<noteq> []"
  by (cases lev) (auto simp: propertyAlarm_def thresProp_def)

lemma propertyAlarm_inj:
  "lev \<noteq> LevelERROR \<Longrightarrow> dir \<in> {HIGH, LOW} \<Longrightarrow> propertyAlarm lev dir' = propertyAlarm lev dir \<longleftrightarrow> dir' = dir"
  by (cases lev; cases dir; cases dir') (simp_all add: propertyAlarm_def thresProp_def)

lemma assert_frame [simp]:
  "thresholdInterfaces (assertThresholds report v lev dir b s) = thresholdInterfaces s"
  "getThresholdInterface (assertThresholds report v lev dir b s) = getThresholdInterface s"
  "thresholds (assertThresholds report v lev dir b s) = thresholds s"
  "sensor_value (assertThresholds report v lev dir b s) = sensor_value s"
  "value_property (assertThresholds report v lev dir b s) = value_property s"
  "overriddenState (assertThresholds report v lev dir b s) = overriddenState s"
  "internalSet (assertThresholds report v lev dir b s) = internalSet s"
  "hysteresisPublish (assertThresholds report v lev dir b s) = hysteresisPublish s"
  "readState (assertThresholds report v lev dir b s) = readState s"
  "errCount (assertThresholds report v lev dir b s) = errCount s"
  "available (assertThresholds report v lev dir b s) = available s"
  "functional (assertThresholds report v lev dir b s) = functional s"
  by (auto simp: assertThresholds_def set_alarm_def Let_def getThresholdInterface_def fun_eq_iff split: option.splits)

lemma assert_own:
  assumes "ready th s" "alarm_of th s = Some a"
  shows "alarm_of th (assertThresholds report v (level th) (direction th) b s) = Some b"
    and "alarm_signals th (assertThresholds report v (level th) (direction th) b s) =
      alarm_signals th s @
      (if report a b then [(level th, propertyAlarm (level th) (direction th), b, v)] else [])"
proof -
  have "propertyAlarm (level th) (direction th) \<noteq> []"
    using assms(1) by (intro propertyAlarm_nonempty) (auto simp: ready_def getThresholdInterface_def)
  with assms show "alarm_of th (assertThresholds report v (level th) (direction th) b s) = Some b"
    and "alarm_signals th (assertThresholds report v (level th) (direction th) b s) =
      alarm_signals th s @
      (if report a b then [(level th, propertyAlarm (level th) (direction th), b, v)] else [])"
    by (auto simp: assertThresholds_def set_alarm_def ready_def alarm_of_def alarm_signals_def Let_def)
qed

lemma assert_other:
  assumes "ready th s" "(lev, dir) \<noteq> key th"
  shows "alarm_of th (assertThresholds report v lev dir b s) = alarm_of th s"
    and "alarm_signals th (assertThresholds report v lev dir b s) = alarm_signals th s"
proof -
  have "lev \<noteq> level th \<or> propertyAlarm lev dir \<noteq> propertyAlarm (level th) (direction th)"
    using assms propertyAlarm_inj [of "level th" "direction th" dir]
    by (auto simp: ready_def key_def getThresholdInterface_def)
  then show "alarm_of th (assertThresholds report v lev dir b s) = alarm_of th s"
    and "alarm_signals th (assertThresholds report v lev dir b s) = alarm_signals th s"
    by (auto simp: assertThresholds_def set_alarm_def alarm_of_def alarm_signals_def Let_def split: option.splits)
qed

lemma ready_assert [simp]: "ready th (assertThresholds report v lev dir b s) \<longleftrightarrow> ready th s"
  by (simp add: ready_def)

section \<open>Checking as a set of Schmitt triggers\<close>

text \<open>The specification of one alarm: asserted at the threshold, cleared beyond the hysteresis.\<close>

definition crosses :: "threshold \<Rightarrow> dbl \<Rightarrow> bool" where
  "crosses th v \<longleftrightarrow> (direction th = HIGH \<and> dle (th_value th) v) \<or> (direction th = LOW \<and> dle v (th_value th))"

definition clears :: "threshold \<Rightarrow> dbl \<Rightarrow> bool" where
  "clears th v \<longleftrightarrow> (direction th = HIGH \<and> dlt v (dsub (th_value th) (hysteresis th))) \<or>
     (direction th = LOW \<and> dlt (dadd (th_value th) (hysteresis th)) v)"

fun latch_run :: "threshold \<Rightarrow> bool \<Rightarrow> dbl list \<Rightarrow> bool \<times> (bool \<times> dbl) list" where
  "latch_run th a [] = (a, [])"
| "latch_run th a (v # vs) =
     (let a' = (if crosses th v then True else if clears th v then False else a);
          (z, edges) = latch_run th a' vs
      in (z, (if a' \<noteq> a then [(a', v)] else []) @ edges))"

lemma threshold_change_latch:
  "direction th \<in> {HIGH, LOW} \<Longrightarrow>
   threshold_change v th = (if crosses th v then Some True else if clears th v then Some False else None)"
  by (auto simp: threshold_change_def crosses_def clears_def)

lemma apply_changes_frame [simp]:
  "getThresholdInterface (snd (apply_changes report cs status s)) = getThresholdInterface s"
  "thresholds (snd (apply_changes report cs status s)) = thresholds s"
  "sensor_value (snd (apply_changes report cs status s)) = sensor_value s"
  "value_property (snd (apply_changes report cs status s)) = value_property s"
  "overriddenState (snd (apply_changes report cs status s)) = overriddenState s"
  "internalSet (snd (apply_changes report cs status s)) = internalSet s"
  "hysteresisPublish (snd (apply_changes report cs status s)) = hysteresisPublish s"
  "readState (snd (apply_changes report cs status s)) = readState s"
  "errCount (snd (apply_changes report cs status s)) = errCount s"
  "available (snd (apply_changes report cs status s)) = available s"
  "functional (snd (apply_changes report cs status s)) = functional s"
  by (induction report cs status s rule: apply_changes.induct) (simp_all add: Let_def)

lemma apply_changes_other:
  assumes "ready th s" "key th \<notin> key ` set ths"
  shows "alarm_of th (snd (apply_changes report (threshold_changes v ths) status s)) = alarm_of th s"
    and "alarm_signals th (snd (apply_changes report (threshold_changes v ths) status s)) = alarm_signals th s"
  using assms
  by (induction ths arbitrary: s status)
    (auto simp: Let_def assert_other key_def split: option.splits)

lemma apply_changes_own:
  assumes "ready th s" "th \<in> set ths" "distinct (map key ths)" "alarm_of th s = Some a" "changes_only report"
  shows "alarm_of th (snd (apply_changes report (threshold_changes v ths) status s)) = Some (fst (latch_run th a [v]))"
    and "alarm_signals th (snd (apply_changes report (threshold_changes v ths) status s)) =
      alarm_signals th s @
      map (\<lambda>(b, v). (level th, propertyAlarm (level th) (direction th), b, v)) (snd (latch_run th a [v]))"
proof -
  have "alarm_of th (snd (apply_changes report (threshold_changes v ths) status s)) = Some (fst (latch_run th a [v])) \<and>
    alarm_signals th (snd (apply_changes report (threshold_changes v ths) status s)) =
      alarm_signals th s @
      map (\<lambda>(b, v). (level th, propertyAlarm (level th) (direction th), b, v)) (snd (latch_run th a [v]))"
    using assms
  proof (induction ths arbitrary: s status)
    case (Cons t ths)
    have dir: "direction th \<in> {HIGH, LOW}"
      using Cons.prems(1) by (simp add: ready_def)
    show ?case
    proof (cases "t = th")
      case True
      then have "key th \<notin> key ` set ths"
        using Cons.prems(3) by simp
      with Cons.prems True show ?thesis
        by (auto simp: threshold_change_latch [OF dir] Let_def apply_changes_other assert_own changes_only_def)
    next
      case False
      then have "th \<in> set ths" "key t \<noteq> key th"
        using Cons.prems(2,3) by auto
      then have "(level t, direction t) \<noteq> key th"
        by (simp add: key_def)
      with Cons \<open>th \<in> set ths\<close> show ?thesis
        by (auto simp: Let_def assert_other split: option.splits)
    qed
  qed simp
  then show "alarm_of th (snd (apply_changes report (threshold_changes v ths) status s)) = Some (fst (latch_run th a [v]))"
    and "alarm_signals th (snd (apply_changes report (threshold_changes v ths) status s)) =
      alarm_signals th s @
      map (\<lambda>(b, v). (level th, propertyAlarm (level th) (direction th), b, v)) (snd (latch_run th a [v]))"
    by blast+
qed

lemma apply_changes_status:
  "fst (apply_changes report (threshold_changes v ths) status s) \<longleftrightarrow>
     status \<and> \<not> (\<exists>th \<in> set ths. level th = CRITICAL \<and> threshold_change v th = Some True)"
  by (induction ths arbitrary: s status) (auto simp: Let_def split: option.splits)

definition check_at :: "report \<Rightarrow> dbl \<Rightarrow> sensor \<Rightarrow> sensor" where
  "check_at report v s = snd (checkThresholds report (s\<lparr>sensor_value := v\<rparr>))"

lemma latch_run_Cons:
  "latch_run th a (v # vs) =
     (fst (latch_run th (fst (latch_run th a [v])) vs),
      snd (latch_run th a [v]) @ snd (latch_run th (fst (latch_run th a [v])) vs))"
  by (simp add: Let_def split: prod.splits)

lemma check_at_latch:
  assumes "th \<in> set (thresholds s)" "distinct (map key (thresholds s))" "ready th s" "alarm_of th s = Some a"
    and "changes_only report"
  shows "alarm_of th (fold (check_at report) vs s) = Some (fst (latch_run th a vs)) \<and>
    alarm_signals th (fold (check_at report) vs s) = alarm_signals th s @
      map (\<lambda>(b, v). (level th, propertyAlarm (level th) (direction th), b, v)) (snd (latch_run th a vs))"
  using assms(1-4)
proof (induction vs arbitrary: s a)
  case (Cons v vs)
  let ?s = "s\<lparr>sensor_value := v\<rparr>"
  have pre: "ready th ?s" "alarm_of th ?s = Some a" "alarm_signals th ?s = alarm_signals th s"
    using Cons.prems by (simp_all add: ready_def alarm_of_def alarm_signals_def getThresholdInterface_def)
  note own = apply_changes_own [OF pre(1) _ _ pre(2) assms(5), of "thresholds s" v True]
  have "alarm_of th (check_at report v s) = Some (fst (latch_run th a [v]))"
    "alarm_signals th (check_at report v s) = alarm_signals th s @
      map (\<lambda>(b, v). (level th, propertyAlarm (level th) (direction th), b, v)) (snd (latch_run th a [v]))"
    using own Cons.prems(1,2) pre(3) by (simp_all add: check_at_def checkThresholds_def)
  moreover have "ready th (check_at report v s)" "thresholds (check_at report v s) = thresholds s"
    using Cons.prems(3) by (simp_all add: check_at_def checkThresholds_def ready_def getThresholdInterface_def)
  ultimately show ?case
    using Cons.IH [of "check_at report v s"] Cons.prems(1,2)
    by (subst (1 2) latch_run_Cons) simp
qed simp

lemma tests_disjoint:
  assumes "is_double (th_value th)" "dle (Fin 0) (hysteresis th)"
  shows "\<not> (crosses th v \<and> clears th v)"
proof
  assume both: "crosses th v \<and> clears th v"
  then consider "direction th = HIGH" "dle (th_value th) v" "dlt v (dsub (th_value th) (hysteresis th))"
    | "direction th = LOW" "dle v (th_value th)" "dlt (dadd (th_value th) (hysteresis th)) v"
    by (auto simp: crosses_def clears_def)
  then show False
  proof cases
    case 1
    have "dle (dsub (th_value th) (hysteresis th)) (th_value th)"
      using dsub_le [OF assms] 1(3) by (cases "dsub (th_value th) (hysteresis th)") auto
    with 1 show False
      by (meson dlt_dle_trans dlt_not_dle)
  next
    case 2
    have "dle (th_value th) (dadd (th_value th) (hysteresis th))"
      using dadd_ge [OF assms] 2(3) by (cases "dadd (th_value th) (hysteresis th)") auto
    with 2 show False
      by (meson dle_dlt_trans dlt_not_dle)
  qed
qed


definition hot :: threshold where
  "hot = new_threshold CRITICAL HIGH (Fin 100) (Fin 5)"

definition env_on :: env where
  "env_on = \<lparr>powerStatusOn = True, biosHasPost = True, chassisStatusOn = True, manufacturingMode = False,
     insecureSensorOverride = False\<rparr>"

definition demo_sensor :: sensor where
  "demo_sensor = setInitialProperties (new_sensor False (Fin 200) (Fin 0) [hot] power_on (\<lambda>l. l = CRITICAL))"

lemma demo_facts:
  "thresholds demo_sensor = [hot, default_hysteresis (hysteresisTrigger demo_sensor) (new_threshold CRITICAL LOW NaN NaN)]"
  "ready hot demo_sensor" "alarm_of hot demo_sensor = Some False" "changes_only (\<noteq>)" "alarm_signals hot demo_sensor = []"
  by (simp_all add: demo_sensor_def setInitialProperties_def new_sensor_def fillMissingThresholds_def fill_one_def hot_def
      new_threshold_def opposite_def default_hysteresis_def register_threshold_def getThresholdInterface_def
      propertyLevel_def propertyAlarm_def thresProp_def register_def Let_def ready_def alarm_of_def changes_only_def
      alarm_signals_def)


section \<open>Readings\<close>

abbreviation plain :: "report \<Rightarrow> check" where
  "plain report \<equiv> \<lambda>s. snd (checkThresholds report s)"

lemma plain_frame [simp]:
  "getThresholdInterface (plain report s) = getThresholdInterface s"
  "thresholds (plain report s) = thresholds s"
  "sensor_value (plain report s) = sensor_value s"
  "value_property (plain report s) = value_property s"
  "overriddenState (plain report s) = overriddenState s"
  "internalSet (plain report s) = internalSet s"
  "hysteresisPublish (plain report s) = hysteresisPublish s"
  "readState (plain report s) = readState s"
  "errCount (plain report s) = errCount s"
  "available (plain report s) = available s"
  "functional (plain report s) = functional s"
  by (simp_all add: checkThresholds_def)

lemma updateValueProperty_eq:
  "\<not> overriddenState s \<Longrightarrow> updateValueProperty check e v s =
     (if requiresUpdate (hysteresisPublish s) (sensor_value s) v
      then s\<lparr>sensor_value := v, value_property := map_option (\<lambda>_. v) (value_property s), internalSet := False\<rparr>
      else s\<lparr>internalSet := False\<rparr>)"
  by (cases "value_property s") (auto simp: updateValueProperty_def setSensorValue_def Let_def)

lemma updateValueProperty_frame [simp]:
  assumes "\<not> overriddenState s"
  shows "getThresholdInterface (updateValueProperty check e v s) = getThresholdInterface s"
    "thresholds (updateValueProperty check e v s) = thresholds s"
    "overriddenState (updateValueProperty check e v s) = overriddenState s"
    "readState (updateValueProperty check e v s) = readState s"
    "errCount (updateValueProperty check e v s) = errCount s"
    "available (updateValueProperty check e v s) = available s"
    "functional (updateValueProperty check e v s) = functional s"
    "hysteresisPublish (updateValueProperty check e v s) = hysteresisPublish s"
    "alarms (updateValueProperty check e v s) = alarms s"
  using assms by (auto simp: updateValueProperty_eq getThresholdInterface_def fun_eq_iff)

lemma requiresUpdate_nan: "requiresUpdate p NaN NaN = False" "requiresUpdate p x NaN \<longleftrightarrow> \<not> is_nan x"
  by (simp_all add: requiresUpdate_def Let_def)

lemma updateValueProperty_nan:
  "\<not> overriddenState s \<Longrightarrow> sensor_value (updateValueProperty check e NaN s) = NaN"
  by (cases "sensor_value s") (auto simp: updateValueProperty_eq requiresUpdate_nan)

lemma mark_true:
  "markAvailable report check e True (markFunctional report check e True s) =
     s\<lparr>functional := map_option (\<lambda>_. True) (functional s), available := map_option (\<lambda>_. True) (available s), errCount := 0\<rparr>"
  by (cases s; cases "functional s"; cases "available s") (auto simp: markAvailable.simps markFunctional.simps Let_def)

lemma good_reading:
  assumes "readingStateGood e (readState s)" "\<not> overriddenState s"
  shows "updateValue report (plain report) e v s =
    (let s' = plain report (updateValueProperty (plain report) e v s) in
     if is_nan v then s'
     else s'\<lparr>functional := map_option (\<lambda>_. True) (functional s), available := map_option (\<lambda>_. True) (available s),
             errCount := 0\<rparr>)"
proof -
  let ?s = "plain report (updateValueProperty (plain report) e v s)"
  have s: "functional ?s = functional s" "available ?s = available s"
    using assms(2) by simp_all
  show ?thesis
    using assms s by (simp add: updateValue.simps [of report "plain report" e v s] mark_true Let_def)
qed

text \<open>
  With the power state good, read errors in a row are counted up to the limit of five and no further.
  The sensor stays functional with its value before the fifth; the fifth makes it non-functional with
  value NaN, as it stays; and the first reading that is a number makes it functional and available
  again and forgets the errors.
\<close>
lemma errors_counted:
  assumes "readingStateGood e (readState s)" "\<not> overriddenState s" "errCount s = 0" "functional s = Some True"
  shows "let t = (incrementError report (plain report) e ^^ n) s; u = updateValue report (plain report) e v t in
    errCount t = min n 5 \<and> (inError t \<longleftrightarrow> 5 \<le> n) \<and> functional t = Some (n < 5) \<and>
    sensor_value t = (if n < 5 then sensor_value s else NaN) \<and>
    (\<not> is_nan v \<longrightarrow> errCount u = 0 \<and> functional u = Some True \<and> available u = map_option (\<lambda>_. True) (available s))"
proof -
  let ?t = "\<lambda>n. (incrementError report (plain report) e ^^ n) s"
  have t: "errCount (?t n) = min n 5 \<and> functional (?t n) = Some (n < 5) \<and> readState (?t n) = readState s \<and>
      \<not> overriddenState (?t n) \<and> available (?t n) = available s \<and>
      sensor_value (?t n) = (if n < 5 then sensor_value s else NaN)" for n
  proof (induction n)
    case 0
    with assms show ?case by simp
  next
    case (Suc n)
    define u where "u = ?t n"
    have u: "errCount u = min n 5" "functional u = Some (n < 5)" "readState u = readState s" "\<not> overriddenState u"
      "available u = available s" "sensor_value u = (if n < 5 then sensor_value s else NaN)"
      using Suc by (simp_all add: u_def)
    have good: "readingStateGood e (readState u)"
      using u(3) assms(1) by simp
    have step: "?t (Suc n) = incrementError report (plain report) e u"
      by (simp add: u_def)
    consider "n < 4" | "n = 4" | "5 \<le> n"
      by linarith
    then show ?case
    proof cases
      case 1
      then show ?thesis
        unfolding step using u good by (simp add: incrementError_def errorThreshold_def Let_def)
    next
      case 2
      let ?w = "u\<lparr>errCount := 5, functional := Some False\<rparr>"
      have "incrementError report (plain report) e u = updateValue report (plain report) e NaN ?w"
        using u 2 good by (simp add: incrementError_def errorThreshold_def Let_def markFunctional.simps)
      moreover have w: "readingStateGood e (readState ?w)" "\<not> overriddenState ?w"
        using u good by simp_all
      ultimately have "?t (Suc n) = plain report (updateValueProperty (plain report) e NaN ?w)"
        unfolding step by (simp add: good_reading)
      with u 2 w(2) show ?thesis
        by (simp add: updateValueProperty_nan)
    next
      case 3
      then show ?thesis
        unfolding step using u good by (simp add: incrementError_def errorThreshold_def)
    qed
  qed
  have good: "readingStateGood e (readState (?t n))" "\<not> overriddenState (?t n)"
    using t [of n] assms(1) by simp_all
  have "\<not> is_nan v \<longrightarrow> errCount (updateValue report (plain report) e v (?t n)) = 0 \<and>
      functional (updateValue report (plain report) e v (?t n)) = Some True \<and>
      available (updateValue report (plain report) e v (?t n)) = map_option (\<lambda>_. True) (available s)"
    using t [of n] by (simp add: good_reading [OF good] Let_def)
  with t [of n] show ?thesis
    by (simp add: Let_def inError_def errorThreshold_def)
qed

lemma demo_reading:
  "readState demo_sensor = power_on" "\<not> overriddenState demo_sensor" "errCount demo_sensor = 0"
  "functional demo_sensor = Some True" "available demo_sensor = Some True" "sensor_value demo_sensor = NaN"
  "value_property demo_sensor = Some NaN"
  by (simp_all add: demo_sensor_def setInitialProperties_def new_sensor_def fillMissingThresholds_def fill_one_def hot_def
      new_threshold_def opposite_def default_hysteresis_def register_threshold_def getThresholdInterface_def
      propertyLevel_def propertyAlarm_def thresProp_def register_def Let_def)

lemma errors_counted_witness:
  "errCount ((incrementError (\<noteq>) (plain (\<noteq>)) env_on ^^ 7) demo_sensor) = 5 \<and>
   functional (updateValue (\<noteq>) (plain (\<noteq>)) env_on (Fin 7) ((incrementError (\<noteq>) (plain (\<noteq>)) env_on ^^ 7) demo_sensor)) = Some True"
proof -
  have "readingStateGood env_on (readState demo_sensor)"
    by (simp add: demo_reading readingStateGood_def env_on_def)
  from errors_counted [OF this demo_reading(2-4), where report = "(\<noteq>)" and n = 7 and v = "Fin 7"] show ?thesis
    by (simp add: Let_def)
qed

section \<open>Losing power\<close>

abbreviation clear_all :: "report \<Rightarrow> threshold list \<Rightarrow> sensor \<Rightarrow> sensor" where
  "clear_all report ths s \<equiv>
     fold (\<lambda>th s. assertThresholds report (sensor_value s) (level th) (direction th) False s) ths s"

lemma clear_all_frame [simp]:
  "getThresholdInterface (clear_all report ths s) = getThresholdInterface s"
  "thresholds (clear_all report ths s) = thresholds s"
  "sensor_value (clear_all report ths s) = sensor_value s"
  "value_property (clear_all report ths s) = value_property s"
  "overriddenState (clear_all report ths s) = overriddenState s"
  "hysteresisPublish (clear_all report ths s) = hysteresisPublish s"
  "readState (clear_all report ths s) = readState s"
  "errCount (clear_all report ths s) = errCount s"
  "available (clear_all report ths s) = available s"
  "functional (clear_all report ths s) = functional s"
  by (induction ths arbitrary: s) simp_all

lemma assert_false_keeps:
  assumes "ready th s" "alarm_of th s = Some a"
  shows "alarm_of th (assertThresholds report v lev dir False s) \<in> {Some a, Some False}"
  using assert_own(1) [OF assms, of report v False] assert_other(1) [OF assms(1), of lev dir report v False] assms(2)
  by (cases "(lev, dir) = key th") (auto simp: key_def)

lemma clear_all_keeps:
  "ready th s \<Longrightarrow> alarm_of th s = Some False \<Longrightarrow> alarm_of th (clear_all report ths s) = Some False"
proof (induction ths arbitrary: s)
  case (Cons t ths)
  then have "alarm_of th (assertThresholds report (sensor_value s) (level t) (direction t) False s) = Some False"
    using assert_false_keeps by blast
  with Cons show ?case by simp
qed simp

lemma clear_all_clears:
  "th \<in> set ths \<Longrightarrow> ready th s \<Longrightarrow> alarm_of th s = Some a \<Longrightarrow> alarm_of th (clear_all report ths s) = Some False"
proof (induction ths arbitrary: s a)
  case (Cons t ths)
  let ?s = "assertThresholds report (sensor_value s) (level t) (direction t) False s"
  show ?case
  proof (cases "t = th")
    case True
    then have "alarm_of th ?s = Some False"
      using assert_own(1) [OF Cons.prems(2,3)] by simp
    with Cons.prems(2) show ?thesis
      by (simp add: clear_all_keeps)
  next
    case False
    obtain a' where "alarm_of th ?s = Some a'"
      using assert_false_keeps [OF Cons.prems(2,3)] by blast
    with False Cons show ?thesis by simp
  qed
qed simp

text \<open>The state after losing power, from any availability.\<close>

definition powered_off :: "sensor \<Rightarrow> sensor \<Rightarrow> bool" where
  "powered_off s t \<longleftrightarrow> sensor_value t = NaN \<and>
     value_property t = (if is_nan (sensor_value s) then value_property s else map_option (\<lambda>_. NaN) (value_property s)) \<and>
     available t = map_option (\<lambda>_. False) (available s) \<and> functional t = functional s \<and>
     errCount t = (if available s = None then errCount s else 0) \<and>
     overriddenState t = overriddenState s \<and> readState t = readState s \<and> thresholds t = thresholds s \<and>
     getThresholdInterface t = getThresholdInterface s \<and>
     (\<forall>th a. th \<in> set (thresholds s) \<longrightarrow> ready th s \<longrightarrow> alarm_of th s = Some a \<longrightarrow> alarm_of th t = Some False)"

lemma availability_frame [simp]:
  "getThresholdInterface (s\<lparr>functional := x\<rparr>) = getThresholdInterface s"
  "getThresholdInterface (s\<lparr>value_property := p\<rparr>) = getThresholdInterface s"
  "getThresholdInterface (s\<lparr>thresholds := ths\<rparr>) = getThresholdInterface s"
  "getThresholdInterface (s\<lparr>available := x\<rparr>) = getThresholdInterface s"
  "getThresholdInterface (s\<lparr>errCount := n\<rparr>) = getThresholdInterface s"
  "alarm_of th (s\<lparr>available := x\<rparr>) = alarm_of th s" "alarm_of th (s\<lparr>errCount := n\<rparr>) = alarm_of th s"
  "ready th (s\<lparr>available := x\<rparr>) = ready th s" "ready th (s\<lparr>errCount := n\<rparr>) = ready th s"
  by (simp_all add: getThresholdInterface_def fun_eq_iff alarm_of_def ready_def)

lemma powered_off_twice:
  assumes "powered_off s t" "powered_off t u"
  shows "powered_off s u"
  using assms unfolding powered_off_def ready_def by (auto simp: comp_def option.map_comp)

lemma clear_and_nan:
  assumes "\<not> overriddenState s"
  shows "powered_off s ((updateValueProperty check e NaN (clear_all report (thresholds s) s))
    \<lparr>available := map_option (\<lambda>_. False) (available s), errCount := (if available s = None then errCount s else 0)\<rparr>)"
proof -
  let ?c = "clear_all report (thresholds s) s"
  have over: "\<not> overriddenState ?c"
    using assms by simp
  have "alarm_of th (x\<lparr>available := a, errCount := n\<rparr>) = alarm_of th x" for th x a n
    by (simp add: alarm_of_def)
  moreover have "alarm_of th (updateValueProperty check e NaN ?c) = alarm_of th ?c" for th
    using over by (simp add: alarm_of_def)
  moreover have "value_property (updateValueProperty check e NaN ?c) =
      (if is_nan (sensor_value s) then value_property s else map_option (\<lambda>_. NaN) (value_property s))"
    using over by (cases "sensor_value s") (simp_all add: updateValueProperty_eq requiresUpdate_nan)
  moreover have "getThresholdInterface (x\<lparr>available := a, errCount := n\<rparr>) = getThresholdInterface x" for x a n
    by (simp add: getThresholdInterface_def fun_eq_iff)
  ultimately show ?thesis
    using over assms updateValueProperty_nan [OF over] clear_all_clears
    by (simp add: powered_off_def)
qed

lemma bad_reading_idle:
  assumes "\<not> readingStateGood e (readState s)" "\<not> overriddenState s" "available s \<noteq> Some True"
  shows "powered_off s (updateValue report check e v s)"
proof -
  let ?m = "markAvailable report check e False s"
  have m: "?m = (if available s = None then s else s\<lparr>errCount := 0\<rparr>)"
    using assms(3) by (cases "available s") (auto simp: markAvailable.simps Let_def)
  let ?c = "updateValueProperty check e NaN (clear_all report (thresholds ?m) ?m)"
  have over: "\<not> overriddenState ?m" "\<not> overriddenState (clear_all report (thresholds ?m) ?m)"
    using assms(2) m by simp_all
  have "powered_off ?m (?c\<lparr>available := map_option (\<lambda>_. False) (available ?m), errCount := (if available ?m = None then errCount ?m else 0)\<rparr>)"
    by (rule clear_and_nan [OF over(1)])
  moreover have "?c\<lparr>available := map_option (\<lambda>_. False) (available ?m), errCount := (if available ?m = None then errCount ?m else 0)\<rparr> = ?c"
  proof -
    have av: "available ?c = map_option (\<lambda>_. False) (available ?m)"
      using over assms(3) m by (cases "available s") auto
    have er: "errCount ?c = (if available ?m = None then errCount ?m else 0)"
      using over m by auto
    have "x\<lparr>available := available x, errCount := errCount x\<rparr> = x" for x :: sensor
      by simp
    from this [of ?c] show ?thesis
      by (simp only: av er)
  qed
  ultimately have "powered_off ?m ?c"
    by simp
  moreover have "powered_off s u" if "powered_off ?m u" for u
    using that by (auto simp: m powered_off_def split: if_splits)
  moreover have "updateValue report check e v s = ?c"
    using assms(1,2) by (simp add: updateValue.simps [of report check e v s] Let_def)
  ultimately show ?thesis
    by simp
qed

lemma bad_reading:
  assumes "\<not> readingStateGood e (readState s)" "\<not> overriddenState s"
  shows "powered_off s (updateValue report check e v s)"
proof (cases "available s = Some True")
  case True
  let ?a = "s\<lparr>available := Some False\<rparr>"
  let ?u = "updateValue report check e NaN ?a"
  let ?m = "markAvailable report check e False s"
  have m: "?m = ?u\<lparr>errCount := 0\<rparr>"
    using True by (simp add: markAvailable.simps [of report check e False s] Let_def)
  have "powered_off ?a ?u"
    by (rule bad_reading_idle) (use assms in simp_all)
  then have u: "powered_off s ?m"
    using True by (simp add: m powered_off_def split: if_splits)
  then have over: "\<not> overriddenState ?m" "available ?m = Some False" "errCount ?m = 0"
    using assms(2) True by (simp_all add: powered_off_def)
  let ?c = "updateValueProperty check e NaN (clear_all report (thresholds ?m) ?m)"
  have "powered_off ?m (?c\<lparr>available := map_option (\<lambda>_. False) (available ?m), errCount := (if available ?m = None then errCount ?m else 0)\<rparr>)"
    by (rule clear_and_nan [OF over(1)])
  moreover have "?c\<lparr>available := map_option (\<lambda>_. False) (available ?m), errCount := (if available ?m = None then errCount ?m else 0)\<rparr> = ?c"
  proof -
    have c: "\<not> overriddenState (clear_all report (thresholds ?m) ?m)"
      using over(1) by simp
    have av: "available ?c = map_option (\<lambda>_. False) (available ?m)" "errCount ?c = (if available ?m = None then errCount ?m else 0)"
      using c over by simp_all
    have "x\<lparr>available := available x, errCount := errCount x\<rparr> = x" for x :: sensor
      by simp
    from this [of ?c] show ?thesis
      by (simp only: av)
  qed
  ultimately have "powered_off ?m ?c"
    by simp
  moreover have "updateValue report check e v s = ?c"
    using assms by (simp add: updateValue.simps [of report check e v s] Let_def)
  ultimately show ?thesis
    using powered_off_twice [OF u] by simp
qed (rule bad_reading_idle [OF assms])

text \<open>
  C23: Of a sensor that is not overridden, a reading taken while the power state is bad, whatever its value, makes
  the value NaN, clears every alarm that the sensor publishes for one of its thresholds, makes the sensor
  unavailable and resets its errors (both if it publishes its availability) and leaves Functional as it was. The
  published Value becomes NaN as well, unless the value was NaN already: after a threshold has been set over D-Bus,
  which invalidates the value but not the property, the last number stays published.
\<close>
theorem losing_power_clears:
  assumes "\<not> readingStateGood e (readState s)" "\<not> overriddenState s"
  shows "(let t = updateValue report (plain report) e v s in
      sensor_value t = NaN \<and> available t = map_option (\<lambda>_. False) (available s) \<and>
      errCount t = (if available s = None then errCount s else 0) \<and> functional t = functional s \<and>
      value_property t = (if is_nan (sensor_value s) then value_property s else map_option (\<lambda>_. NaN) (value_property s)) \<and>
      (\<forall>th a. th \<in> set (thresholds s) \<longrightarrow> ready th s \<longrightarrow> alarm_of th s = Some a \<longrightarrow> alarm_of th t = Some False)) \<and>
    (level_values s lev property \<noteq> None \<longrightarrow>
      value_property (updateValue report (plain report) e v (set_level_property lev property x s)) = value_property s)"
proof -
  have off: "let t = updateValue report (plain report) e v s in
      sensor_value t = NaN \<and> available t = map_option (\<lambda>_. False) (available s) \<and>
      errCount t = (if available s = None then errCount s else 0) \<and> functional t = functional s \<and>
      value_property t = (if is_nan (sensor_value s) then value_property s else map_option (\<lambda>_. NaN) (value_property s)) \<and>
      (\<forall>th a. th \<in> set (thresholds s) \<longrightarrow> ready th s \<longrightarrow> alarm_of th s = Some a \<longrightarrow> alarm_of th t = Some False)"
    using bad_reading [OF assms, of report "plain report" v] by (simp add: powered_off_def Let_def)
  let ?s = "set_level_property lev property x s"
  have "value_property (updateValue report (plain report) e v ?s) = value_property s"
    if "level_values s lev property \<noteq> None"
  proof -
    have s: "sensor_value ?s = NaN" "value_property ?s = value_property s" "readState ?s = readState s"
      "overriddenState ?s = overriddenState s"
      using that by (auto simp: set_level_property_def)
    then have "powered_off ?s (updateValue report (plain report) e v ?s)"
      using assms by (intro bad_reading) simp_all
    then show ?thesis
      by (simp add: powered_off_def s)
  qed
  with off show ?thesis
    by blast
qed

definition env_off :: env where
  "env_off = env_on\<lparr>powerStatusOn := False\<rparr>"

text \<open>A sensor at 95 whose critical alarm is on.\<close>

definition hot_sensor :: sensor where
  "hot_sensor = check_at (\<noteq>) (Fin 100) (demo_sensor\<lparr>value_property := Some (Fin 100), hysteresisPublish := Fin 2\<rparr>)"

lemma hot_sensor_facts:
  "readState hot_sensor = power_on" "\<not> overriddenState hot_sensor" "value_property hot_sensor = Some (Fin 100)"
  "sensor_value hot_sensor = Fin 100" "available hot_sensor = Some True" "hysteresisPublish hot_sensor = Fin 2"
  by (simp_all add: hot_sensor_def check_at_def demo_reading)

theorem losing_power_clears_witness:
  "value_property (updateValue (\<noteq>) (plain (\<noteq>)) env_off (Fin 3) hot_sensor) = Some NaN \<and>
   available (updateValue (\<noteq>) (plain (\<noteq>)) env_off (Fin 3) hot_sensor) = Some False"
proof -
  have "\<not> readingStateGood env_off (readState hot_sensor)"
    by (simp add: hot_sensor_facts readingStateGood_def env_off_def env_on_def)
  from losing_power_clears [OF this hot_sensor_facts(2), where report = "(\<noteq>)" and v = "Fin 3"] show ?thesis
    by (simp add: hot_sensor_facts Let_def)
qed

text \<open>
  C24: Of a sensor that is not overridden, whose published Value is its value and whose publishing hysteresis is not
  negative, a reading taken while the power state is good keeps the published Value equal to the
  value, which is then either the reading or the previous value; it is the previous one only when the reading does
  not differ from it by more than the publishing hysteresis. Setting the value over D-Bus is refused only if the
  sensor is not settable, the mode is not manufacturing and the insecure override is not built in; a value that is
  set is published and not overwritten by readings.
\<close>
theorem readings_published:
  assumes "readingStateGood e (readState s)" "\<not> overriddenState s" "value_property s = Some (sensor_value s)"
    and "is_double v" "dle (Fin 0) (hysteresisPublish s)"
  shows "(let t = updateValue report (plain report) e v s in
      value_property t = Some (sensor_value t) \<and> sensor_value t \<in> {sensor_value s, v} \<and>
      \<not> requiresUpdate (hysteresisPublish s) (sensor_value t) v) \<and>
    (case setSensorValue (plain report) e w (s\<lparr>internalSet := False\<rparr>) of
       None \<Rightarrow> \<not> insecureSensorOverride e \<and> \<not> isSensorSettable s \<and> \<not> manufacturingMode e
     | Some t \<Rightarrow> value_property t = Some w \<and> sensor_value t = w \<and> updateValue report (plain report) e v t = t)"
proof -
  have same: "\<not> requiresUpdate (hysteresisPublish s) v v"
  proof (cases v)
    case (Fin r)
    then show ?thesis
      using assms(5) by (cases "hysteresisPublish s") (auto simp: requiresUpdate_def dsub_def Let_def)
  qed (auto simp: requiresUpdate_def dsub_def Let_def)
  have "value_property t = Some (sensor_value t) \<and> sensor_value t \<in> {sensor_value s, v} \<and>
      \<not> requiresUpdate (hysteresisPublish s) (sensor_value t) v"
    if "t = updateValue report (plain report) e v s" for t
    using same assms(3) unfolding that good_reading [OF assms(1,2)]
    by (auto simp: Let_def updateValueProperty_eq [OF assms(2)])
  moreover have "case setSensorValue (plain report) e w (s\<lparr>internalSet := False\<rparr>) of
       None \<Rightarrow> \<not> insecureSensorOverride e \<and> \<not> isSensorSettable s \<and> \<not> manufacturingMode e
     | Some t \<Rightarrow> value_property t = Some w \<and> sensor_value t = w \<and> updateValue report (plain report) e v t = t"
    by (auto simp: setSensorValue_def Let_def updateValue.simps [of report "plain report" e v])
  ultimately show ?thesis
    by (simp add: Let_def)
qed

theorem readings_published_witness:
  "value_property (updateValue (\<noteq>) (plain (\<noteq>)) env_on (Fin 103) hot_sensor) =
     Some (sensor_value (updateValue (\<noteq>) (plain (\<noteq>)) env_on (Fin 103) hot_sensor))"
proof -
  have "readingStateGood env_on (readState hot_sensor)" "value_property hot_sensor = Some (sensor_value hot_sensor)"
    "is_double (Fin 103)" "dle (Fin 0) (hysteresisPublish hot_sensor)"
    by (simp_all add: hot_sensor_facts readingStateGood_def env_on_def)
  from readings_published [OF this(1) hot_sensor_facts(2) this(2-4), where report = "(\<noteq>)"] show ?thesis
    by (simp add: Let_def)
qed

section \<open>Initial properties\<close>

lemma fill_fold_prefix: "\<exists>xs. fold fill_one ths acc = acc @ xs"
proof (induction ths arbitrary: acc)
  case (Cons t ths)
  show ?case
    using Cons [of "fill_one t acc"] by (auto simp: fill_one_def)
qed simp

lemma key_fill_one:
  "key ` set (fill_one th acc) = insert (level th, opposite (direction th)) (key ` set acc)"
proof (cases "list_ex (\<lambda>t. level t = level th \<and> direction t = opposite (direction th)) acc")
  case True
  then obtain u where u: "u \<in> set acc" "level u = level th" "direction u = opposite (direction th)"
    by (auto simp: list_ex_iff)
  have "key u = (level th, opposite (direction th))"
    using u by (simp add: key_def)
  with u(1) have "(level th, opposite (direction th)) \<in> key ` set acc"
    by (metis imageI)
  with True show ?thesis
    by (auto simp: fill_one_def)
next
  case False
  then show ?thesis
    by (auto simp: fill_one_def key_def new_threshold_def)
qed

lemma key_fill_fold:
  "key ` set (fold fill_one ths acc) = key ` set acc \<union> (\<lambda>t. (level t, opposite (direction t))) ` set ths"
  by (induction ths arbitrary: acc) (auto simp: key_fill_one)

lemma distinct_fill_one: "distinct (map key acc) \<Longrightarrow> distinct (map key (fill_one th acc))"
  by (auto simp: fill_one_def list_ex_iff key_def new_threshold_def)

lemma distinct_fill_fold: "distinct (map key acc) \<Longrightarrow> distinct (map key (fold fill_one ths acc))"
  by (induction ths arbitrary: acc) (simp_all add: distinct_fill_one)

lemma key_default_hysteresis [simp]: "key (default_hysteresis h th) = key th"
  by (simp add: key_def default_hysteresis_def)

lemma register_frame [simp]:
  "getThresholdInterface (register_threshold th s) = getThresholdInterface s"
  "thresholds (register_threshold th s) = thresholds s"
  "available (register_threshold th s) = available s"
  "functional (register_threshold th s) = functional s"
  "value_property (register_threshold th s) = value_property s"
  "sensor_value (register_threshold th s) = sensor_value s"
  "errCount (register_threshold th s) = errCount s"
  by (auto simp: register_threshold_def Let_def getThresholdInterface_def fun_eq_iff)

lemma register_fold_frame [simp]:
  "getThresholdInterface (fold register_threshold ths s) = getThresholdInterface s"
  "thresholds (fold register_threshold ths s) = thresholds s"
  "available (fold register_threshold ths s) = available s"
  "functional (fold register_threshold ths s) = functional s"
  "value_property (fold register_threshold ths s) = value_property s"
  "sensor_value (fold register_threshold ths s) = sensor_value s"
  "errCount (fold register_threshold ths s) = errCount s"
  by (induction ths arbitrary: s) simp_all

lemma ready_register [simp]: "ready th (register_threshold t s) = ready th s"
  by (simp add: ready_def)

lemma register_alarm:
  assumes "ready th s"
  shows "alarm_of th (register_threshold t s) =
    (if key t = key th \<and> alarm_of th s = None then Some False else alarm_of th s)"
proof (cases "level t = level th")
  case True
  have ok: "level th \<noteq> LevelERROR" "direction th \<in> {HIGH, LOW}"
    using assms by (auto simp: ready_def getThresholdInterface_def)
  have same: "propertyAlarm (level th) (direction t) = propertyAlarm (level th) (direction th) \<longleftrightarrow> direction t = direction th"
    using propertyAlarm_inj [OF ok] .
  have named: "propertyAlarm (level th) (direction th) \<noteq> []" "propertyLevel (level th) (direction th) \<noteq> []"
    using ok by (cases "level th"; auto simp: propertyAlarm_def propertyLevel_def thresProp_def)+
  show ?thesis
  proof (cases "direction t = direction th")
    case eq: True
    have "getThresholdInterface s (level th)"
      using assms by (simp add: ready_def)
    with True eq named show ?thesis
      by (cases "alarms s (level th) (propertyAlarm (level th) (direction th))")
        (simp_all add: register_threshold_def register_def alarm_of_def key_def Let_def)
  next
    case False
    then have "alarm_of th (register_threshold t s) = alarm_of th s"
      using True same
      by (cases "alarms s (level th) (propertyAlarm (level th) (direction t))")
        (simp_all add: register_threshold_def register_def alarm_of_def Let_def)
    with False show ?thesis
      by (simp add: key_def)
  qed
qed (simp add: register_threshold_def alarm_of_def key_def Let_def)

lemma register_fold_alarm:
  assumes "ready th s" "alarm_of th s \<in> {None, Some False}"
  shows "alarm_of th (fold register_threshold ths s) =
    (if key th \<in> key ` set ths then Some False else alarm_of th s)"
  using assms
proof (induction ths arbitrary: s)
  case (Cons t ths)
  then have "alarm_of th (register_threshold t s) \<in> {None, Some False}"
    by (auto simp: register_alarm)
  with Cons show ?case
    by (auto simp: register_alarm)
qed simp

text \<open>
  Setting up a new sensor keeps the configured thresholds in order, adds for every level that has one
  direction the other one, with value NaN, and nothing else; no level and direction occurs twice if
  none did before. Every alarm with an interface exists and is off, and the sensor is available,
  functional and without errors, with value NaN: what the other properties start from.
\<close>
lemma initial_properties:
  assumes "distinct (map key ths)" "s = setInitialProperties (new_sensor settable mx mn ths st ifaces)"
  shows "take (length ths) (map key (thresholds s)) = map key ths \<and> distinct (map key (thresholds s)) \<and>
    key ` set (thresholds s) = key ` set ths \<union> (\<lambda>t. (level t, opposite (direction t))) ` set ths \<and>
    (\<forall>th. th \<in> set (thresholds s) \<longrightarrow> ready th s \<longrightarrow> alarm_of th s = Some False) \<and>
    available s = Some True \<and> functional s = Some True \<and> errCount s = 0 \<and>
    sensor_value s = NaN \<and> value_property s = Some NaN"
proof -
  let ?n = "new_sensor settable mx mn ths st ifaces"
  let ?f = "map (default_hysteresis (hysteresisTrigger ?n)) (fillMissingThresholds ths)"
  let ?b = "?n\<lparr>value_property := Some NaN, thresholds := ?f\<rparr>"
  let ?r = "fold register_threshold ?f ?b"
  have s: "s = ?r\<lparr>available := Some True, functional := Some True\<rparr>"
    by (simp add: assms(2) setInitialProperties_def new_sensor_def Let_def)
  have keys: "map key ?f = map key (fillMissingThresholds ths)"
    by (simp add: comp_def)
  obtain xs where xs: "fillMissingThresholds ths = ths @ xs"
    using fill_fold_prefix by (auto simp: fillMissingThresholds_def)
  have th: "thresholds s = ?f"
    by (simp add: s)
  have rdy: "ready th ?b = ready th s" for th
    by (simp add: s ready_def)
  have "alarm_of th s = Some False" if "th \<in> set (thresholds s)" "ready th s" for th
  proof -
    have "alarm_of th ?b = None"
      by (simp add: alarm_of_def new_sensor_def)
    moreover have "key th \<in> key ` set ?f"
      using that(1) th by simp
    ultimately have "alarm_of th ?r = Some False"
      using register_fold_alarm [of th ?b ?f] that(2) rdy by simp
    then show ?thesis
      by (simp add: s alarm_of_def)
  qed
  moreover have "key ` set ?f = key ` set ths \<union> (\<lambda>t. (level t, opposite (direction t))) ` set ths"
    using arg_cong [OF keys, of set] key_fill_fold [of ths ths] by (simp add: fillMissingThresholds_def image_image)
  moreover have "distinct (map key ?f)"
    unfolding keys using distinct_fill_fold [OF assms(1), of ths] by (simp add: fillMissingThresholds_def)
  moreover have "take (length ths) (map key ?f) = map key ths"
    unfolding keys by (simp add: xs)
  ultimately show ?thesis
    by (simp add: th) (simp add: s new_sensor_def)
qed

lemma initial_properties_witness:
  "key ` set (thresholds demo_sensor) = {(CRITICAL, HIGH), (CRITICAL, LOW)}"
proof -
  have "distinct (map key [hot])"
    by simp
  from initial_properties [OF this demo_sensor_def] show ?thesis
    by (auto simp: key_def hot_def new_threshold_def opposite_def)
qed

end
