(* ===== verification/Config_Value.thy ===== *)
theory Config_Value
  imports Cpp_Double Text_Format
begin

text \<open>
  Values of configurations: the variant \<open>BasicVariantType\<close> and its maps (\<open>Utils.hpp\<close>), the visitors that
  convert them (\<open>VariantVisitors.hpp\<close>), and the text functions of the standard library the parsers use.
  The signed alternatives hold their bit patterns. A conversion that throws yields \<open>Inl\<close>; \<open>Undefined\<close> is a
  conversion without defined behaviour.
\<close>

section \<open>Exceptions\<close>

datatype conf_error = CannotTranslate | InvalidArgument string | OutOfRange | Undefined

fun try_bind :: "'e + 'a \<Rightarrow> ('a \<Rightarrow> 'e + 'b) \<Rightarrow> 'e + 'b" where
  "try_bind (Inl e) f = Inl e"
| "try_bind (Inr x) f = f x"

lemma try_bind_Inr: "try_bind m f = Inr y \<longleftrightarrow> (\<exists>x. m = Inr x \<and> f x = Inr y)"
  by (cases m) auto

lemma try_bind_cong [fundef_cong]:
  "m = m' \<Longrightarrow> (\<And>x. m' = Inr x \<Longrightarrow> f x = f' x) \<Longrightarrow> try_bind m f = try_bind m' f'"
  by (cases m') auto

section \<open>Variants\<close>

datatype variant =
  VStrings "string list" | VBytes "u8 list" | VU64s "u64 list" | VString string
| VI64 u64 | VU64 u64 | VDouble dbl | VI32 u32 | VU32 u32 | VI16 u16 | VU16 u16 | VU8 u8 | VBool bool

type_synonym config_map = "(string \<times> variant) list"

datatype arithmetic = Whole int | Real dbl

text \<open>The value of the arithmetic alternatives.\<close>

fun arithmetic_of :: "variant \<Rightarrow> arithmetic option" where
  "arithmetic_of (VI64 w) = Some (Whole (sint w))"
| "arithmetic_of (VU64 w) = Some (Whole (uint w))"
| "arithmetic_of (VDouble d) = Some (Real d)"
| "arithmetic_of (VI32 w) = Some (Whole (sint w))"
| "arithmetic_of (VU32 w) = Some (Whole (uint w))"
| "arithmetic_of (VI16 w) = Some (Whole (sint w))"
| "arithmetic_of (VU16 w) = Some (Whole (uint w))"
| "arithmetic_of (VU8 w) = Some (Whole (uint w))"
| "arithmetic_of (VBool b) = Some (Whole (if b then 1 else 0))"
| "arithmetic_of _ = None"

text \<open>
  \<open>std::to_string\<close> of a double prints six decimals, rounded to even. The sign of a zero and of a NaN is
  not part of the model; no reader below accepts either text.
\<close>

fun pad_zeros :: "nat \<Rightarrow> string \<Rightarrow> string" where
  "pad_zeros n s = replicate (n - length s) (CHR ''0'') @ s"

definition format_fixed :: "rat \<Rightarrow> string" where
  "format_fixed r =
     (let n = nat (round_even (\<bar>r\<bar> * 1000000)) in
      (if r < 0 then ''-'' else '''') @ format_nat (n div 1000000) @ ''.'' @ pad_zeros 6 (format_nat (n mod 1000000)))"

fun format_double :: "dbl \<Rightarrow> string" where
  "format_double NaN = ''nan''"
| "format_double (Inf s) = (if s then ''-inf'' else ''inf'')"
| "format_double (Fin r) = format_fixed r"

text \<open>\<open>VariantToStringVisitor\<close>.\<close>

definition visit_string :: "variant \<Rightarrow> conf_error + string" where
  "visit_string v =
     (case v of
        VString s \<Rightarrow> Inr s
      | _ \<Rightarrow> (case arithmetic_of v of
                None \<Rightarrow> Inl CannotTranslate
              | Some (Whole i) \<Rightarrow> Inr (format_int i)
              | Some (Real d) \<Rightarrow> Inr (format_double d)))"

text \<open>
  \<open>VariantToNumericVisitor\<close> for \<open>int\<close>, \<open>unsigned int\<close> and \<open>double\<close>. Integers are reduced modulo the width; a
  double is truncated, and has no defined conversion unless the result is in range.
\<close>

definition truncate :: "rat \<Rightarrow> int" where
  "truncate r = (if r < 0 then - \<lfloor>- r\<rfloor> else \<lfloor>r\<rfloor>)"

definition visit_whole :: "int \<Rightarrow> int \<Rightarrow> variant \<Rightarrow> conf_error + 'a::len word" where
  "visit_whole low high v =
     (case arithmetic_of v of
        None \<Rightarrow> Inl CannotTranslate
      | Some (Whole i) \<Rightarrow> Inr (of_int i)
      | Some (Real (Fin r)) \<Rightarrow>
          (if low \<le> truncate r \<and> truncate r \<le> high then Inr (of_int (truncate r)) else Inl Undefined)
      | Some (Real d) \<Rightarrow> Inl Undefined)"

definition visit_int :: "variant \<Rightarrow> conf_error + u32" where
  "visit_int v = visit_whole (- (2 ^ 31)) (2 ^ 31 - 1) v"

definition visit_unsigned :: "variant \<Rightarrow> conf_error + u32" where
  "visit_unsigned v = visit_whole 0 (2 ^ 32 - 1) v"

definition visit_double :: "variant \<Rightarrow> conf_error + dbl" where
  "visit_double v =
     (case arithmetic_of v of
        None \<Rightarrow> Inl CannotTranslate
      | Some (Whole i) \<Rightarrow> Inr (round_double (of_int i))
      | Some (Real d) \<Rightarrow> Inr d)"

text \<open>\<open>VariantToNumArrayVisitor<uint8_t, uint64_t>\<close>.\<close>

definition visit_byte_array :: "variant \<Rightarrow> conf_error + u8 list" where
  "visit_byte_array v = (case v of VU64s ws \<Rightarrow> Inr (map ucast ws) | _ \<Rightarrow> Inl CannotTranslate)"

text \<open>\<open>VariantToVecVisitor\<close>.\<close>

definition visit_strings :: "variant \<Rightarrow> conf_error + string list" where
  "visit_strings v = (case v of VStrings ss \<Rightarrow> Inr ss | VString s \<Rightarrow> Inr [s] | _ \<Rightarrow> Inl CannotTranslate)"

section \<open>Reading numbers\<close>

text \<open>\<open>from_chars\<close>: the longest run of digits at the start; the value and what follows, or an error code.\<close>

definition from_chars_nat :: "int \<Rightarrow> string \<Rightarrow> (nat \<times> string) option" where
  "from_chars_nat limit s =
     (let ds = takeWhile is_digit s in
      if ds = [] \<or> limit < int (decimal ds) then None else Some (decimal ds, dropWhile is_digit s))"

definition from_chars_u8 :: "string \<Rightarrow> (u8 \<times> string) option" where
  "from_chars_u8 s = (case from_chars_nat 255 s of None \<Rightarrow> None | Some (n, r) \<Rightarrow> Some (of_nat n, r))"

definition from_chars_u32 :: "string \<Rightarrow> (u32 \<times> string) option" where
  "from_chars_u32 s = (case from_chars_nat (2 ^ 32 - 1) s of None \<Rightarrow> None | Some (n, r) \<Rightarrow> Some (of_nat n, r))"

definition from_chars_int :: "string \<Rightarrow> (int \<times> string) option" where
  "from_chars_int s =
     (case s of
        c # t \<Rightarrow>
          if c = CHR ''-''
          then (case from_chars_nat (2 ^ 31) t of None \<Rightarrow> None | Some (n, r) \<Rightarrow> Some (- int n, r))
          else (case from_chars_nat (2 ^ 31 - 1) s of None \<Rightarrow> None | Some (n, r) \<Rightarrow> Some (int n, r))
      | [] \<Rightarrow> None)"

definition hex_value :: "char \<Rightarrow> nat option" where
  "hex_value c =
     (let n = of_char c in
      if 48 \<le> n \<and> n \<le> 57 then Some (n - 48)
      else if 65 \<le> n \<and> n \<le> 70 then Some (n - 55)
      else if 97 \<le> n \<and> n \<le> 102 then Some (n - 87)
      else None)"

definition hexadecimal :: "string \<Rightarrow> nat" where
  "hexadecimal s = foldl (\<lambda>v c. 16 * v + the (hex_value c)) 0 s"

definition is_hex :: "char \<Rightarrow> bool" where
  "is_hex c \<longleftrightarrow> hex_value c \<noteq> None"

definition from_chars_hex :: "string \<Rightarrow> (nat \<times> string) option" where
  "from_chars_hex s =
     (let ds = takeWhile is_hex s in
      if ds = [] \<or> 2 ^ 32 \<le> int (hexadecimal ds) then None else Some (hexadecimal ds, dropWhile is_hex s))"

text \<open>\<open>stoll\<close> and \<open>stoul\<close>: leading white space, a sign, digits; what follows is ignored.\<close>

definition is_space :: "char \<Rightarrow> bool" where
  "is_space c \<longleftrightarrow> c = CHR '' '' \<or> (9 \<le> (of_char c :: nat) \<and> (of_char c :: nat) \<le> 13)"

definition read_sign :: "string \<Rightarrow> bool \<times> string" where
  "read_sign s =
     (case s of
        c # t \<Rightarrow> if c = CHR ''-'' then (True, t) else if c = CHR ''+'' then (False, t) else (False, s)
      | [] \<Rightarrow> (False, s))"

definition stoll :: "string \<Rightarrow> conf_error + int" where
  "stoll s =
     (case read_sign (dropWhile is_space s) of
        (neg, t) \<Rightarrow>
          (let ds = takeWhile is_digit t; v = (if neg then - int (decimal ds) else int (decimal ds)) in
           if ds = [] then Inl (InvalidArgument ''stoll'')
           else if v < - (2 ^ 63) \<or> 2 ^ 63 \<le> v then Inl OutOfRange
           else Inr v))"

definition stoul :: "string \<Rightarrow> conf_error + u64" where
  "stoul s =
     (case read_sign (dropWhile is_space s) of
        (neg, t) \<Rightarrow>
          (let ds = takeWhile is_digit t in
           if ds = [] then Inl (InvalidArgument ''stoul'')
           else if 2 ^ 64 \<le> int (decimal ds) then Inl OutOfRange
           else Inr (if neg then - of_nat (decimal ds) else of_nat (decimal ds))))"

section \<open>Lists in text\<close>

lemma dropWhile_shorter: "dropWhile P s = x # r \<Longrightarrow> length r < length s"
  using length_dropWhile_le [of P s] by simp

text \<open>The lines \<open>std::getline\<close> reads with a delimiter: no empty one at the end.\<close>

function getlines :: "char \<Rightarrow> string \<Rightarrow> string list" where
  "getlines d [] = []"
| "getlines d (c # s) =
     takeWhile (\<lambda>x. x \<noteq> d) (c # s) #
     (case dropWhile (\<lambda>x. x \<noteq> d) (c # s) of [] \<Rightarrow> [] | _ # r \<Rightarrow> getlines d r)"
  by pat_completeness auto

termination
  by (relation "measure (\<lambda>(d, s). length s)") (auto dest: dropWhile_shorter split: if_splits)

declare getlines.simps(2) [simp del]

definition is_blank :: "char \<Rightarrow> bool" where
  "is_blank c \<longleftrightarrow> c = CHR '' '' \<or> (of_char c :: nat) = 9"

definition trim :: "string \<Rightarrow> string" where
  "trim s = rev (dropWhile is_blank (rev (dropWhile is_blank s)))"

end
