(* ===== verification/Mctp_Config.thy ===== *)
theory Mctp_Config
  imports Config_Value
begin

unbundle bit_operations_syntax

text \<open>
  MCTP devices from configurations (\<open>mctp/MCTPEndpoint.cpp\<close>, \<open>mctp/MCTPEndpointUtils.cpp\<close>): the \<open>match\<close> and
  \<open>from\<close> functions of the six transports, byte lists, PCIe addresses, device names and polling
  intervals. \<open>from\<close> throws (\<open>Inl\<close>), returns no device (\<open>Inr None\<close>) or the arguments of the constructor of the
  device. The file system is a parameter: \<open>readdir\<close> gives the entries of a directory, with a flag for
  directories, in the order of its iterator.
\<close>

type_synonym file_system = "string \<Rightarrow> (string \<times> bool) list option"

section \<open>Fields\<close>

definition configInterfaceName :: "string \<Rightarrow> string" where
  "configInterfaceName type = ''xyz.openbmc_project.Configuration.'' @ type"

definition match_config :: "string \<Rightarrow> (string \<times> config_map) list \<Rightarrow> config_map option" where
  "match_config configType config = map_of config (configInterfaceName configType)"

definition match_interfaces :: "string \<Rightarrow> string list \<Rightarrow> bool" where
  "match_interfaces configType interfaces \<longleftrightarrow> configInterfaceName configType \<in> set interfaces"

definition name_tokens :: "string \<Rightarrow> string list" where
  "name_tokens s = filter (\<lambda>t. t \<noteq> []) (map trim (getlines (CHR '','') s))"

definition getDeviceNames :: "config_map \<Rightarrow> conf_error + string list" where
  "getDeviceNames iface =
     (case map_of iface ''Name'' of
        None \<Rightarrow> Inl (InvalidArgument ''No 'Name' key in configuration'')
      | Some v \<Rightarrow>
          (let names = (case v of VString s \<Rightarrow> name_tokens s | VStrings ss \<Rightarrow> ss | _ \<Rightarrow> []) in
           if names = [] then Inl (InvalidArgument ''No valid device name in configuration'')
           else Inr names))"

text \<open>Every exception while the interval is read is caught.\<close>

definition getPollingInterval :: "config_map \<Rightarrow> u8 option" where
  "getPollingInterval iface =
     (case map_of iface ''PollingInterval'' of
        None \<Rightarrow> None
      | Some v \<Rightarrow>
          (case try_bind (visit_string v) stoul of
             Inl e \<Rightarrow> None
           | Inr val \<Rightarrow> if val \<le> 180 then Some (ucast val) else None))"

text \<open>A comma separated byte list: entries that are no number or out of range are skipped.\<close>

definition byte_entry :: "string \<Rightarrow> u8 option" where
  "byte_entry token =
     (case stoll token of
        Inl e \<Rightarrow> None
      | Inr v \<Rightarrow> if 0 \<le> v \<and> v \<le> 255 then Some (of_int v) else None)"

definition byte_entries :: "string \<Rightarrow> u8 list" where
  "byte_entries s = List.map_filter byte_entry (filter (\<lambda>t. t \<noteq> []) (map trim (getlines (CHR '','') s)))"

definition parseByteList :: "config_map \<Rightarrow> string \<Rightarrow> u8 list option" where
  "parseByteList iface property =
     (case map_of iface property of
        None \<Rightarrow> None
      | Some v \<Rightarrow>
          (case visit_string v of
             Inl e \<Rightarrow> None
           | Inr s \<Rightarrow> if s = [] then None else Some (byte_entries s)))"

text \<open>A number at the start of an optional field; what follows the digits is not looked at.\<close>

definition optional_u8 :: "string \<Rightarrow> string \<Rightarrow> config_map \<Rightarrow> conf_error + u8 option" where
  "optional_u8 key message iface =
     (case map_of iface key of
        None \<Rightarrow> Inr None
      | Some v \<Rightarrow>
          try_bind (visit_string v)
            (\<lambda>s. case from_chars_u8 s of None \<Rightarrow> Inl (InvalidArgument message) | Some (n, _) \<Rightarrow> Inr (Some n)))"

definition static_eid :: "config_map \<Rightarrow> conf_error + u8 option" where
  "static_eid iface = optional_u8 ''StaticEndpointID'' ''Bad endpoint address'' iface"

definition pool_start :: "string \<Rightarrow> config_map \<Rightarrow> conf_error + u8 option" where
  "pool_start key iface = optional_u8 key ''Bad BridgePool Start address'' iface"

definition pool_end :: "config_map \<Rightarrow> conf_error + u8 option" where
  "pool_end iface = optional_u8 ''BridgePoolEndEID'' ''Bad BridgePool End address'' iface"

definition indeterministic_pool :: "config_map \<Rightarrow> conf_error + bool" where
  "indeterministic_pool iface =
     (case map_of iface ''IndeterministicPoolSpace'' of
        None \<Rightarrow> Inr False
      | Some v \<Rightarrow> try_bind (visit_string v) (\<lambda>s. Inr (s = ''true'' \<or> s = ''True'' \<or> s = ''1'')))"

definition number_field :: "variant \<Rightarrow> string \<Rightarrow> conf_error + int" where
  "number_field v message =
     try_bind (visit_string v)
       (\<lambda>s. case from_chars_int s of None \<Rightarrow> Inl (InvalidArgument message) | Some (n, _) \<Rightarrow> Inr n)"

definition check_type :: "string \<Rightarrow> string \<Rightarrow> config_map \<Rightarrow> conf_error + unit" where
  "check_type configType message iface =
     (case map_of iface ''Type'' of
        None \<Rightarrow> Inl (InvalidArgument ''No 'Type' member found for provided configuration object'')
      | Some v \<Rightarrow>
          try_bind (visit_string v)
            (\<lambda>s. if s = configType then Inr () else Inl (InvalidArgument message)))"

definition require :: "string list \<Rightarrow> string \<Rightarrow> config_map \<Rightarrow> conf_error + (string \<Rightarrow> variant)" where
  "require keys schema iface =
     (if list_all (\<lambda>k. map_of iface k \<noteq> None) keys then Inr (\<lambda>k. the (map_of iface k))
      else Inl (InvalidArgument (''Configuration object violates '' @ schema)))"

section \<open>Devices\<close>

text \<open>The arguments of the constructors; the members that only one transport has in \<open>transport\<close>.\<close>

datatype transport =
  I2C int | I3C int | USB string string u8 u8 | SPI int int | XROT | PCIe

record device_config =
  cfg_transport :: transport
  cfg_name :: string
  cfg_names :: "string list"
  cfg_interface :: string
  cfg_physaddr :: "u8 list"
  cfg_staticEID :: "u8 option"
  cfg_poolStart :: "u8 option"
  cfg_poolEnd :: "u8 option"
  cfg_ignoreEids :: "u8 list option"
  cfg_ignoreMessageTypes :: "u8 list option"
  cfg_recoveryThreshold :: u8
  cfg_pollingInterval :: "u8 option"
  cfg_indeterministic :: bool

text \<open>The branches on the static EID: without one there is no start of the bridge pool.\<close>

definition given_with :: "'a option \<Rightarrow> 'b option \<Rightarrow> 'b option" where
  "given_with eid x = (case eid of None \<Rightarrow> None | Some _ \<Rightarrow> x)"

subsection \<open>I2C and I3C\<close>

definition i2c_interfaceFromBus :: "file_system \<Rightarrow> int \<Rightarrow> string option" where
  "i2c_interfaceFromBus readdir bus =
     (case readdir (''/sys/bus/i2c/devices/i2c-'' @ format_int bus @ ''/net'') of
        None \<Rightarrow> None
      | Some [] \<Rightarrow> None
      | Some ((entry, _) # _) \<Rightarrow> Some entry)"

definition I2C_from :: "file_system \<Rightarrow> config_map \<Rightarrow> conf_error + device_config option" where
  "I2C_from readdir iface =
     try_bind (check_type ''MCTPI2CTarget'' ''Not an SMBus device'' iface) (\<lambda>_.
     try_bind (require [''Address'', ''Bus'', ''Name''] ''MCTPI2CTarget schema'' iface) (\<lambda>field.
     try_bind (getDeviceNames iface) (\<lambda>names.
     try_bind (visit_string (field ''Address'')) (\<lambda>sAddress.
       case from_chars_u8 sAddress of
         None \<Rightarrow> Inl (InvalidArgument ''Bad device address'')
       | Some (address, _) \<Rightarrow>
     try_bind (number_field (field ''Bus'') ''Bad bus index'') (\<lambda>bus.
     try_bind (static_eid iface) (\<lambda>eid.
     try_bind (pool_start ''BridgePoolStartEid'' iface) (\<lambda>start.
     try_bind (pool_end iface) (\<lambda>stop.
     let ignoreMessageTypes = parseByteList iface ''IgnoreMessageTypes'' in
     try_bind (indeterministic_pool iface) (\<lambda>indeterministic.
     let pollingInterval = getPollingInterval iface in
     case i2c_interfaceFromBus readdir bus of
       None \<Rightarrow> Inr None
     | Some iface_name \<Rightarrow>
         Inr (Some \<lparr>cfg_transport = I2C bus, cfg_name = hd names, cfg_names = names,
           cfg_interface = iface_name, cfg_physaddr = [address], cfg_staticEID = eid,
           cfg_poolStart = given_with eid start, cfg_poolEnd = stop, cfg_ignoreEids = None,
           cfg_ignoreMessageTypes = ignoreMessageTypes, cfg_recoveryThreshold = 0,
           cfg_pollingInterval = pollingInterval, cfg_indeterministic = indeterministic\<rparr>))))))))))"

definition i3c_interfaceFromBus :: "file_system \<Rightarrow> int \<Rightarrow> string option" where
  "i3c_interfaceFromBus readdir bus =
     (case readdir ''/sys/devices/virtual/net'' of
        None \<Rightarrow> None
      | Some entries \<Rightarrow>
          (let target = ''mctpi3c'' @ format_int bus in
           if (target, True) \<in> set entries then Some target else None))"

definition I3C_from :: "file_system \<Rightarrow> config_map \<Rightarrow> conf_error + device_config option" where
  "I3C_from readdir iface =
     try_bind (check_type ''MCTPI3CTarget'' ''Not an I3C device'' iface) (\<lambda>_.
     try_bind (require [''Address'', ''Bus'', ''Name''] ''MCTPI3CTarget schema'' iface) (\<lambda>field.
     try_bind (getDeviceNames iface) (\<lambda>names.
     try_bind (visit_byte_array (field ''Address'')) (\<lambda>address.
     if address = [] then Inl (InvalidArgument ''Bad device address'') else
     try_bind (number_field (field ''Bus'') ''Bad bus index'') (\<lambda>bus.
     try_bind (static_eid iface) (\<lambda>eid.
     try_bind (pool_start ''BridgePoolStartEid'' iface) (\<lambda>start.
     try_bind (pool_end iface) (\<lambda>stop.
     try_bind (indeterministic_pool iface) (\<lambda>indeterministic.
     let pollingInterval = getPollingInterval iface in
     case i3c_interfaceFromBus readdir bus of
       None \<Rightarrow> Inr None
     | Some iface_name \<Rightarrow>
         Inr (Some \<lparr>cfg_transport = I3C bus, cfg_name = hd names, cfg_names = names,
           cfg_interface = iface_name, cfg_physaddr = address, cfg_staticEID = eid,
           cfg_poolStart = given_with eid start, cfg_poolEnd = stop, cfg_ignoreEids = None,
           cfg_ignoreMessageTypes = None, cfg_recoveryThreshold = 0,
           cfg_pollingInterval = pollingInterval, cfg_indeterministic = indeterministic\<rparr>))))))))))"

subsection \<open>USB\<close>

definition path_join :: "string \<Rightarrow> string \<Rightarrow> string" where
  "path_join dir s = (if dir = [] \<or> last dir = CHR ''/'' then dir @ s else dir @ ''/'' @ s)"

text \<open>The bus number in the name of a root hub directory, -1 when it is none.\<close>

fun root_hub_number :: "(string \<times> bool) list \<Rightarrow> int" where
  "root_hub_number [] = -1"
| "root_hub_number ((fname, _) # es) =
     (if 3 < length fname \<and> take 3 fname = ''usb''
      then (case from_chars_int (drop 3 fname) of
              Some (n, []) \<Rightarrow> n
            | _ \<Rightarrow> root_hub_number es)
      else root_hub_number es)"

fun port_path :: "int \<Rightarrow> string list \<Rightarrow> string \<Rightarrow> string \<Rightarrow> string" where
  "port_path busNum [] prefix dir = dir"
| "port_path busNum (segment # ss) prefix dir =
     (let prefix = (if prefix = [] then segment else prefix @ ''.'' @ segment) in
      port_path busNum ss prefix (path_join dir (format_int busNum @ ''-'' @ prefix)))"

definition interfaceFromRootHubPort :: "file_system \<Rightarrow> string \<Rightarrow> string \<Rightarrow> u8 \<Rightarrow> u8 \<Rightarrow> string option" where
  "interfaceFromRootHubPort readdir rootHubPath port configuration interfaceNum =
     (case readdir rootHubPath of
        None \<Rightarrow> None
      | Some entries \<Rightarrow>
          (let busNum = root_hub_number entries in
           if busNum < 0 then None
           else
             (let dir = port_path busNum (getlines (CHR ''.'') port) []
                          (path_join rootHubPath (''usb'' @ format_int busNum));
                  dir = path_join dir (format_int busNum @ ''-'' @ port @ '':'' @
                          format_nat (unat configuration) @ ''.'' @ format_nat (unat interfaceNum))
              in case readdir (path_join dir ''net'') of
                   Some ((entry, _) # _) \<Rightarrow> Some entry
                 | _ \<Rightarrow> None)))"

text \<open>The interface of a USB device: given by name, or by topology, which may not be visible yet.\<close>

definition usb_interface :: "file_system \<Rightarrow> config_map \<Rightarrow> conf_error + string \<times> string \<times> string \<times> u8 \<times> u8" where
  "usb_interface readdir iface =
     (case map_of iface ''Interface'' of
        Some v \<Rightarrow> try_bind (visit_string v) (\<lambda>s. Inr (s, [], [], 0, 0))
      | None \<Rightarrow>
          try_bind (require [''RootHubPath'', ''Port'', ''Configuration'', ''InterfaceNum'']
              ''MCTPUSBDevice schema: RootHubPath, Port, Configuration, and InterfaceNum are all required'' iface) (\<lambda>field.
          try_bind (visit_string (field ''RootHubPath'')) (\<lambda>rootHubPath.
          try_bind (visit_string (field ''Port'')) (\<lambda>port.
          try_bind (visit_int (field ''Configuration'')) (\<lambda>configuration.
          try_bind (visit_int (field ''InterfaceNum'')) (\<lambda>interfaceNum.
            Inr (case interfaceFromRootHubPort readdir rootHubPath port (ucast configuration) (ucast interfaceNum) of
                   None \<Rightarrow> []
                 | Some entry \<Rightarrow> entry,
               rootHubPath, port, ucast configuration, ucast interfaceNum)))))))"

definition recovery_threshold :: "config_map \<Rightarrow> conf_error + u8" where
  "recovery_threshold iface =
     (case map_of iface ''RecoveryThreshold'' of
        None \<Rightarrow> Inr 0
      | Some v \<Rightarrow>
          try_bind (visit_string v)
            (\<lambda>s. case from_chars_u32 s of
                   Some (n, []) \<Rightarrow>
                     if 10 < n then Inl (InvalidArgument ''Bad RecoveryThreshold value'') else Inr (ucast n)
                 | _ \<Rightarrow> Inl (InvalidArgument ''Bad RecoveryThreshold value'')))"

definition USB_from :: "file_system \<Rightarrow> config_map \<Rightarrow> conf_error + device_config option" where
  "USB_from readdir iface =
     try_bind (check_type ''MCTPUSBDevice'' ''Not an USB device'' iface) (\<lambda>_.
     try_bind (require [''Name''] ''MCTPUSBDevice schema'' iface) (\<lambda>_.
     try_bind (getDeviceNames iface) (\<lambda>names.
     try_bind (usb_interface readdir iface) (\<lambda>(iface_name, rootHubPath, port, configuration, interfaceNum).
     try_bind (static_eid iface) (\<lambda>eid.
     try_bind (pool_start ''BridgePoolStartEID'' iface) (\<lambda>start.
     try_bind (pool_end iface) (\<lambda>stop.
     let ignoreEids = parseByteList iface ''IgnoreEIDs'';
         ignoreMessageTypes = parseByteList iface ''IgnoreMessageTypes'' in
     try_bind (recovery_threshold iface) (\<lambda>threshold.
     try_bind (indeterministic_pool iface) (\<lambda>indeterministic.
     let pollingInterval = getPollingInterval iface in
       Inr (Some \<lparr>cfg_transport = USB rootHubPath port configuration interfaceNum, cfg_name = hd names,
         cfg_names = names, cfg_interface = iface_name, cfg_physaddr = [], cfg_staticEID = eid,
         cfg_poolStart = given_with eid start, cfg_poolEnd = stop,
         cfg_ignoreEids = given_with eid (given_with start ignoreEids),
         cfg_ignoreMessageTypes = ignoreMessageTypes, cfg_recoveryThreshold = threshold,
         cfg_pollingInterval = pollingInterval, cfg_indeterministic = indeterministic\<rparr>))))))))))"

subsection \<open>SPI and XROT\<close>

definition interfaceFromBusCs :: "file_system \<Rightarrow> int \<Rightarrow> int \<Rightarrow> string option" where
  "interfaceFromBusCs readdir bus chipselect =
     (case readdir (''/sys/bus/spi/devices/spi'' @ format_int bus @ ''.'' @ format_int chipselect @ ''/net'') of
        None \<Rightarrow> None
      | Some [] \<Rightarrow> None
      | Some ((entry, _) # _) \<Rightarrow> Some entry)"

definition SPI_from :: "file_system \<Rightarrow> config_map \<Rightarrow> conf_error + device_config option" where
  "SPI_from readdir iface =
     try_bind (check_type ''MCTPSPIDevice'' ''Not a SPI device'' iface) (\<lambda>_.
     try_bind (require [''ChipSelect'', ''Bus'', ''Name''] ''MCTPSPIDevice schema'' iface) (\<lambda>field.
     try_bind (getDeviceNames iface) (\<lambda>names.
     try_bind (number_field (field ''Bus'') ''Bad bus index'') (\<lambda>bus.
     try_bind (number_field (field ''ChipSelect'') ''Bad chip select'') (\<lambda>chipselect.
     try_bind (static_eid iface) (\<lambda>eid.
     try_bind (indeterministic_pool iface) (\<lambda>indeterministic.
     let pollingInterval = getPollingInterval iface in
       Inr (Some \<lparr>cfg_transport = SPI bus chipselect, cfg_name = hd names, cfg_names = names,
         cfg_interface = (case interfaceFromBusCs readdir bus chipselect of None \<Rightarrow> [] | Some entry \<Rightarrow> entry),
         cfg_physaddr = [], cfg_staticEID = eid, cfg_poolStart = None, cfg_poolEnd = None,
         cfg_ignoreEids = None, cfg_ignoreMessageTypes = None, cfg_recoveryThreshold = 0,
         cfg_pollingInterval = pollingInterval, cfg_indeterministic = indeterministic\<rparr>))))))))"

definition XROT_from :: "config_map \<Rightarrow> conf_error + device_config option" where
  "XROT_from iface =
     try_bind (check_type ''MCTPXROTTarget'' ''Not an XROT device'' iface) (\<lambda>_.
     try_bind (require [''Name'', ''Interface''] ''MCTPXROTTarget schema'' iface) (\<lambda>field.
     try_bind (getDeviceNames iface) (\<lambda>names.
     try_bind (visit_string (field ''Interface'')) (\<lambda>iface_name.
     try_bind (static_eid iface) (\<lambda>eid.
     try_bind (indeterministic_pool iface) (\<lambda>indeterministic.
     let pollingInterval = getPollingInterval iface in
       Inr (Some \<lparr>cfg_transport = XROT, cfg_name = hd names, cfg_names = names, cfg_interface = iface_name,
         cfg_physaddr = [], cfg_staticEID = eid, cfg_poolStart = None, cfg_poolEnd = None,
         cfg_ignoreEids = None, cfg_ignoreMessageTypes = None, cfg_recoveryThreshold = 0,
         cfg_pollingInterval = pollingInterval, cfg_indeterministic = indeterministic\<rparr>)))))))"

subsection \<open>PCIe\<close>

definition parsePcieBdfHexField :: "string \<Rightarrow> string \<Rightarrow> conf_error + nat" where
  "parsePcieBdfHexField field bdf =
     (case from_chars_hex field of
        Some (n, []) \<Rightarrow> Inr n
      | _ \<Rightarrow> Inl (InvalidArgument (''Bad BDF: '' @ bdf)))"

text \<open>The text before and after the first occurrence of a character.\<close>

definition cut :: "char \<Rightarrow> string \<Rightarrow> (string \<times> string) option" where
  "cut c s = (case dropWhile (\<lambda>x. x \<noteq> c) s of [] \<Rightarrow> None | _ # r \<Rightarrow> Some (takeWhile (\<lambda>x. x \<noteq> c) s, r))"

definition device_function :: "string \<Rightarrow> nat \<Rightarrow> string \<Rightarrow> conf_error + u8 list" where
  "device_function bdf bus tail =
     (case cut (CHR ''.'') tail of
        None \<Rightarrow> Inl (InvalidArgument (''Bad BDF: '' @ bdf))
      | Some (dev, fn) \<Rightarrow>
          try_bind (parsePcieBdfHexField dev bdf) (\<lambda>device.
          try_bind (parsePcieBdfHexField fn bdf) (\<lambda>function.
          if 0xFF < bus \<or> 0x1F < device \<or> 7 < function
          then Inl (InvalidArgument (''BDF out of range: '' @ bdf))
          else Inr [of_nat bus, push_bit 3 (of_nat device) OR of_nat function])))"

definition parsePcieBdf :: "string \<Rightarrow> conf_error + u8 list" where
  "parsePcieBdf bdf =
     (case cut (CHR '':'') bdf of
        None \<Rightarrow> Inl (InvalidArgument (''Bad BDF: '' @ bdf))
      | Some (first, rest) \<Rightarrow>
          (case cut (CHR '':'') rest of
             None \<Rightarrow> try_bind (parsePcieBdfHexField first bdf) (\<lambda>bus. device_function bdf bus rest)
           | Some (second, tail) \<Rightarrow>
               if CHR '':'' \<in> set tail then Inl (InvalidArgument (''Bad BDF: '' @ bdf))
               else
                 try_bind (parsePcieBdfHexField first bdf) (\<lambda>_.
                 try_bind (parsePcieBdfHexField second bdf) (\<lambda>bus. device_function bdf bus tail))))"

definition PCIe_from :: "config_map \<Rightarrow> conf_error + device_config option" where
  "PCIe_from iface =
     try_bind (check_type ''MCTPPCIeTarget'' ''Not a PCIe device'' iface) (\<lambda>_.
     try_bind (require [''Address'', ''Interface'', ''Name''] ''MCTPPCIeTarget schema'' iface) (\<lambda>field.
     try_bind (getDeviceNames iface) (\<lambda>names.
     try_bind (visit_string (field ''Interface'')) (\<lambda>iface_name.
     try_bind (visit_string (field ''Address'')) (\<lambda>sAddress.
       case parsePcieBdf sAddress of
         Inl e \<Rightarrow> Inl (InvalidArgument ''Bad PCIe device address (BDF)'')
       | Inr address \<Rightarrow>
     try_bind (static_eid iface) (\<lambda>eid.
     try_bind (pool_start ''BridgePoolStartEID'' iface) (\<lambda>start.
     try_bind (pool_end iface) (\<lambda>stop.
     try_bind (indeterministic_pool iface) (\<lambda>indeterministic.
     let ignoreEids = parseByteList iface ''IgnoreEIDs'';
         pollingInterval = getPollingInterval iface in
       Inr (Some \<lparr>cfg_transport = PCIe, cfg_name = hd names, cfg_names = names, cfg_interface = iface_name,
         cfg_physaddr = address, cfg_staticEID = eid, cfg_poolStart = given_with eid start,
         cfg_poolEnd = stop, cfg_ignoreEids = ignoreEids, cfg_ignoreMessageTypes = None,
         cfg_recoveryThreshold = 0, cfg_pollingInterval = pollingInterval,
         cfg_indeterministic = indeterministic\<rparr>))))))))))"

end
