(* ===== verification/Mctp_Config_Correct.thy ===== *)
theory Mctp_Config_Correct
  imports Mctp_Config
begin

unbundle bit_operations_syntax

text \<open>
  What the configuration parsers accept: PCIe addresses exactly, byte lists read back, the limits every
  configured device respects, and the numbers whose tails are ignored.
\<close>

section \<open>Text\<close>

lemma cut_Some: "cut c s = Some (a, b) \<longleftrightarrow> s = a @ c # b \<and> c \<notin> set a"
proof
  assume a: "cut c s = Some (a, b)"
  then obtain r where r: "dropWhile (\<lambda>x. x \<noteq> c) s = r # b" "a = takeWhile (\<lambda>x. x \<noteq> c) s"
    by (auto simp: cut_def split: list.splits)
  moreover have "r = c"
    using hd_dropWhile [of "\<lambda>x. x \<noteq> c" s] r(1) by simp
  ultimately show "s = a @ c # b \<and> c \<notin> set a"
    using takeWhile_dropWhile_id [of "\<lambda>x. x \<noteq> c" s] by (auto dest: set_takeWhileD)
next
  assume "s = a @ c # b \<and> c \<notin> set a"
  then show "cut c s = Some (a, b)"
    by (auto simp: cut_def takeWhile_append dropWhile_append)
qed

lemma cut_None: "cut c s = None \<longleftrightarrow> c \<notin> set s"
proof -
  have "cut c s \<noteq> None \<longleftrightarrow> (\<exists>a b. s = a @ c # b \<and> c \<notin> set a)"
    by (simp only: not_None_eq split_paired_Ex cut_Some)
  also have "\<dots> \<longleftrightarrow> c \<in> set s"
    by (metis in_set_conv_decomp split_list_first)
  finally show ?thesis
    by blast
qed

text \<open>A hexadecimal field and its value.\<close>

definition hex_field :: "string \<Rightarrow> nat \<Rightarrow> bool" where
  "hex_field s n \<longleftrightarrow> s \<noteq> [] \<and> list_all is_hex s \<and> n = hexadecimal s \<and> n < 2 ^ 32"

lemma hex_field_read: "parsePcieBdfHexField s bdf = Inr n \<longleftrightarrow> hex_field s n"
proof (cases "list_all is_hex s")
  case True
  then have all: "takeWhile is_hex s = s" "dropWhile is_hex s = []"
    by (simp_all add: takeWhile_eq_all_conv dropWhile_eq_Nil_conv list_all_iff)
  have "from_chars_hex s = (if s = [] \<or> 2 ^ 32 \<le> int (hexadecimal s) then None else Some (hexadecimal s, []))"
    unfolding from_chars_hex_def all Let_def ..
  with True show ?thesis
    by (auto simp: parsePcieBdfHexField_def hex_field_def)
next
  case False
  then have "dropWhile is_hex s \<noteq> []"
    by (auto simp: dropWhile_eq_Nil_conv list_all_iff)
  with False show ?thesis
    by (auto simp: parsePcieBdfHexField_def from_chars_hex_def hex_field_def Let_def split: list.splits)
qed

lemma hex_field_clean: "hex_field s n \<Longrightarrow> CHR '':'' \<notin> set s \<and> CHR ''.'' \<notin> set s"
  by (auto simp: hex_field_def list_all_iff is_hex_def hex_value_def)

section \<open>PCIe addresses\<close>

definition devfn :: "string \<Rightarrow> nat \<Rightarrow> u8 list \<Rightarrow> bool" where
  "devfn tail bus a \<longleftrightarrow>
     (\<exists>dev fn d f. tail = dev @ ''.'' @ fn \<and> hex_field dev d \<and> hex_field fn f \<and>
        bus \<le> 0xFF \<and> d \<le> 0x1F \<and> f \<le> 7 \<and> a = [of_nat bus, of_nat (8 * d + f)])"

lemma devfn_byte:
  assumes "d \<le> 0x1F" "f \<le> (7 :: nat)"
  shows "push_bit 3 (of_nat d :: u8) OR of_nat f = 8 * of_nat d + of_nat f"
proof -
  have "f \<in> {0, 1, 2, 3, 4, 5, 6, 7}"
    using assms(2) by auto
  moreover have "d \<in> set [0..<32]"
    using assms(1) by simp
  ultimately show ?thesis
    by (simp add: upt_rec) (elim disjE; simp)
qed

lemma device_function_read: "device_function bdf bus tail = Inr a \<longleftrightarrow> devfn tail bus a"
proof -
  have "device_function bdf bus tail = Inr a \<longleftrightarrow>
      (\<exists>dev fn d f. cut (CHR ''.'') tail = Some (dev, fn) \<and> hex_field dev d \<and> hex_field fn f \<and>
        bus \<le> 0xFF \<and> d \<le> 0x1F \<and> f \<le> 7 \<and> a = [of_nat bus, push_bit 3 (of_nat d) OR of_nat f])"
    by (auto simp: device_function_def try_bind_Inr hex_field_read not_less split: option.splits if_splits)
  also have "\<dots> \<longleftrightarrow> devfn tail bus a"
    unfolding devfn_def cut_Some
    by (rule iffI; elim exE conjE; intro exI conjI; (assumption | (simp add: hex_field_clean; fail))?)
      (simp_all only: devfn_byte of_nat_add of_nat_mult of_nat_numeral)
  finally show ?thesis .
qed

lemma devfn_clean: "devfn tail bus a \<Longrightarrow> CHR '':'' \<notin> set tail"
  by (auto simp: devfn_def dest: hex_field_clean)

lemma parsePcieBdf_read:
  "parsePcieBdf bdf = Inr a \<longleftrightarrow>
     (\<exists>first rest b. bdf = first @ CHR '':'' # rest \<and> hex_field first b \<and> devfn rest b a) \<or>
     (\<exists>first second tail x b. bdf = first @ CHR '':'' # second @ CHR '':'' # tail \<and> hex_field first x \<and>
        hex_field second b \<and> devfn tail b a)"
proof -
  have "parsePcieBdf bdf = Inr a \<longleftrightarrow>
      (\<exists>first rest. cut (CHR '':'') bdf = Some (first, rest) \<and>
        ((cut (CHR '':'') rest = None \<and> (\<exists>b. hex_field first b \<and> devfn rest b a)) \<or>
         (\<exists>second tail. cut (CHR '':'') rest = Some (second, tail) \<and> CHR '':'' \<notin> set tail \<and>
            (\<exists>x b. hex_field first x \<and> hex_field second b \<and> devfn tail b a))))"
    by (auto simp: parsePcieBdf_def try_bind_Inr hex_field_read device_function_read split: option.splits if_splits)
  also have "\<dots> \<longleftrightarrow> (\<exists>first rest b. bdf = first @ CHR '':'' # rest \<and> hex_field first b \<and> devfn rest b a) \<or>
     (\<exists>first second tail x b. bdf = first @ CHR '':'' # second @ CHR '':'' # tail \<and> hex_field first x \<and>
        hex_field second b \<and> devfn tail b a)"
    (is "?read \<longleftrightarrow> ?spec")
  proof
    assume ?spec
    then show ?read
      unfolding cut_Some cut_None
      by (elim disjE exE conjE) (blast dest: devfn_clean hex_field_clean)+
  next
    assume ?read
    then show ?spec
      unfolding cut_Some cut_None by (elim disjE exE conjE) blast+
  qed
  finally show ?thesis .
qed

text \<open>
  \<open>parsePcieBdf\<close> accepts exactly the addresses bus:device.function and domain:bus:device.function whose
  fields are hexadecimal numbers below 2 to the 32, with a bus of at most 255, a device of at most 31 and
  a function of at most 7; the result is the bus byte and the byte device * 8 + function. The domain has
  to be a number and does not matter otherwise.
\<close>
lemma pcie_address_exact:
  "parsePcieBdf bdf = Inr a \<longleftrightarrow>
     (\<exists>domain bus dev fn b d f x.
        (bdf = bus @ '':'' @ dev @ ''.'' @ fn \<or> (hex_field domain x \<and> bdf = domain @ '':'' @ bus @ '':'' @ dev @ ''.'' @ fn)) \<and>
        hex_field bus b \<and> hex_field dev d \<and> hex_field fn f \<and> b \<le> 0xFF \<and> d \<le> 0x1F \<and> f \<le> 7 \<and>
        a = [of_nat b, of_nat (8 * d + f)])"
    (is "_ \<longleftrightarrow> ?spec")
proof
  assume "parsePcieBdf bdf = Inr a"
  then consider (short) bus tail b where "bdf = bus @ '':'' @ tail" "hex_field bus b" "devfn tail b a"
    | (long) domain bus tail x b where "bdf = domain @ '':'' @ bus @ '':'' @ tail" "hex_field domain x"
        "hex_field bus b" "devfn tail b a"
    unfolding parsePcieBdf_read append_Cons append_Nil by blast
  then show ?spec
  proof cases
    case short
    then show ?spec
      unfolding devfn_def by (elim exE conjE) (intro exI conjI; (assumption | (rule disjI1, simp))?)
  next
    case long
    then show ?spec
      unfolding devfn_def by (elim exE conjE) (intro exI conjI; (assumption | (rule disjI2, simp))?)
  qed
next
  assume ?spec
  then obtain domain bus tail b x where
    "bdf = bus @ '':'' @ tail \<or> (hex_field domain x \<and> bdf = domain @ '':'' @ bus @ '':'' @ tail)"
    "hex_field bus b" "devfn tail b a"
    unfolding devfn_def by (elim exE conjE) metis
  then show "parsePcieBdf bdf = Inr a"
    unfolding parsePcieBdf_read append_Cons append_Nil by blast
qed

section \<open>Byte lists\<close>

fun join :: "char \<Rightarrow> string list \<Rightarrow> string" where
  "join d [] = []"
| "join d [t] = t"
| "join d (t # ts) = t @ d # join d ts"

lemma getlines_unfold:
  "s \<noteq> [] \<Longrightarrow> getlines d s = takeWhile (\<lambda>x. x \<noteq> d) s #
     (case dropWhile (\<lambda>x. x \<noteq> d) s of [] \<Rightarrow> [] | _ # r \<Rightarrow> getlines d r)"
  by (cases s) (simp_all add: getlines.simps(2))

lemma getlines_join:
  "ts \<noteq> [] \<Longrightarrow> last ts \<noteq> [] \<Longrightarrow> \<forall>t\<in>set ts. d \<notin> set t \<Longrightarrow> getlines d (join d ts) = ts"
proof (induction d ts rule: join.induct)
  case (2 d t)
  then have all: "takeWhile (\<lambda>x. x \<noteq> d) t = t" "dropWhile (\<lambda>x. x \<noteq> d) t = []"
    by (auto simp: takeWhile_eq_all_conv dropWhile_eq_Nil_conv)
  from 2 show ?case
    by (simp add: getlines_unfold all)
next
  case (3 d t u ts)
  then have "takeWhile (\<lambda>x. x \<noteq> d) (t @ d # join d (u # ts)) = t"
    "dropWhile (\<lambda>x. x \<noteq> d) (t @ d # join d (u # ts)) = d # join d (u # ts)"
    by (auto simp: takeWhile_append dropWhile_append)
  with 3 show ?case
    by (subst getlines_unfold) simp_all
qed simp

lemma trim_blanks:
  assumes "list_all is_blank pre" "list_all is_blank post" "x \<noteq> []" "\<not> is_blank (hd x)" "\<not> is_blank (last x)"
  shows "trim (pre @ x @ post) = x"
proof -
  have drop: "dropWhile is_blank (bs @ y) = y"
    if "list_all is_blank bs" "y \<noteq> []" "\<not> is_blank (hd y)" for bs y
    using that by (induction bs) (auto simp: neq_Nil_conv)
  have "dropWhile is_blank (pre @ x @ post) = x @ post"
    using assms by (intro drop) auto
  moreover have "dropWhile is_blank (rev post @ rev x) = rev x"
    using assms by (intro drop) (auto simp: hd_rev)
  ultimately show ?thesis
    by (simp add: trim_def)
qed

lemma digit_class: "is_digit c \<Longrightarrow> \<not> is_blank c \<and> \<not> is_space c \<and> c \<notin> {CHR ''-'', CHR ''+'', CHR '',''}"
  by (auto simp: is_digit_def is_blank_def is_space_def)

lemma stoll_digits:
  assumes "list_all is_digit ds" "ds \<noteq> []" "decimal ds < 2 ^ 63"
  shows "stoll ds = Inr (int (decimal ds))"
proof -
  have start: "dropWhile is_space ds = ds" "read_sign ds = (False, ds)"
    using assms(1,2) by (cases ds; auto simp: read_sign_def dest: digit_class)+
  have "takeWhile is_digit ds = ds"
    using assms(1) by (simp add: takeWhile_eq_all_conv list_all_iff)
  then have "stoll ds = (if ds = [] then Inl (InvalidArgument ''stoll'')
      else if int (decimal ds) < - (2 ^ 63) \<or> 2 ^ 63 \<le> int (decimal ds) then Inl OutOfRange
      else Inr (int (decimal ds)))"
    by (simp only: stoll_def start prod.case Let_def if_False)
  with assms(2,3) show ?thesis
    by simp
qed

lemma byte_entry_print: "byte_entry (format_nat (unat b)) = Some (b :: u8)"
proof -
  have "unat b < 2 ^ LENGTH(8)"
    by (rule unsigned_less)
  then have "unat b \<le> 255"
    by simp
  moreover have "stoll (format_nat (unat b)) = Inr (int (unat b))"
    using \<open>unat b \<le> 255\<close> by (subst stoll_digits) (simp_all add: format_nat_digits decimal_format_nat)
  moreover have "uint b \<le> 255" "(of_int (int (unat b)) :: u8) = b"
    using uint_lt2p [of b] by simp_all
  ultimately show ?thesis
    by (simp add: byte_entry_def)
qed

text \<open>A printed byte between blanks, or an entry that is skipped.\<close>

definition entry_text :: "string \<Rightarrow> u8 option \<Rightarrow> bool" where
  "entry_text t e \<longleftrightarrow>
     (case e of
        Some b \<Rightarrow> \<exists>pre post. list_all is_blank pre \<and> list_all is_blank post \<and> t = pre @ format_nat (unat b) @ post
      | None \<Rightarrow> CHR '','' \<notin> set t \<and> (trim t = [] \<or> byte_entry (trim t) = None))"

lemma entry_text_cases:
  assumes "entry_text t e"
  shows "CHR '','' \<notin> set t" "e = None \<and> trim t = [] \<or> trim t \<noteq> [] \<and> byte_entry (trim t) = e"
proof -
  have "CHR '','' \<notin> set t \<and> (e = None \<and> trim t = [] \<or> trim t \<noteq> [] \<and> byte_entry (trim t) = e)"
  proof (cases e)
    case None
    with assms show ?thesis
      by (auto simp: entry_text_def)
  next
    case (Some b)
    then obtain pre post where t: "list_all is_blank pre" "list_all is_blank post"
        "t = pre @ format_nat (unat b) @ post"
      using assms by (auto simp: entry_text_def)
    have digits: "\<forall>c \<in> set (format_nat (unat b)). is_digit c"
      using format_nat_digits [of "unat b"] by (simp add: list_all_iff)
    have "is_digit (hd (format_nat (unat b)))" "is_digit (last (format_nat (unat b)))"
      using digits hd_in_set [OF format_nat_nonempty] last_in_set [OF format_nat_nonempty] by blast+
    then have "trim t = format_nat (unat b)"
      unfolding t(3) using t(1,2) by (intro trim_blanks) (auto dest: digit_class)
    moreover have "CHR '','' \<notin> set t"
      using t digits digit_class by (fastforce simp: list_all_iff is_blank_def)
    ultimately show ?thesis
      using Some by (simp add: byte_entry_print)
  qed
  then show "CHR '','' \<notin> set t" "e = None \<and> trim t = [] \<or> trim t \<noteq> [] \<and> byte_entry (trim t) = e"
    by simp_all
qed

lemma byte_entries_join:
  assumes "list_all2 entry_text ts es" "ts \<noteq> []" "last ts \<noteq> []"
  shows "byte_entries (join (CHR '','') ts) = List.map_filter id es"
proof -
  have "getlines (CHR '','') (join (CHR '','') ts) = ts"
    using assms(2,3)
  proof (rule getlines_join)
    show "\<forall>t\<in>set ts. CHR '','' \<notin> set t"
      using assms(1) by (induction rule: list_all2_induct) (auto dest: entry_text_cases(1))
  qed
  moreover have "List.map_filter byte_entry (filter (\<lambda>t. t \<noteq> []) (map trim ts)) = List.map_filter id es"
    using assms(1)
  proof (induction ts es rule: list_all2_induct)
    case (Cons t ts e es)
    then show ?case
      using entry_text_cases(2) [OF Cons(1)] by (cases e) (auto simp: List.map_filter_def)
  qed (simp add: List.map_filter_def)
  ultimately show ?thesis
    by (simp add: byte_entries_def)
qed

text \<open>
  A byte list of a configuration is read entry by entry. When the text joins tokens with commas, each of
  them a byte in decimal between blanks or a token that is blank, no number or out of range, the result
  is the list of the bytes, in order, and the other tokens are skipped. Without the property, with an
  empty text, or with a value that has no text, there is no list. No input throws.
\<close>
lemma byte_list_read:
  assumes "list_all2 entry_text ts es" "ts \<noteq> []" "last ts \<noteq> []" "map_of iface property = Some (VString (join (CHR '','') ts))"
  shows "parseByteList iface property = Some (List.map_filter id es) \<and>
    parseByteList [] property = None \<and> parseByteList [(property, VString [])] property = None \<and>
    parseByteList [(property, VStrings ss)] property = None"
proof -
  have "join (CHR '','') ts \<noteq> []"
    using assms(2,3) by (cases "(CHR '','', ts)" rule: join.cases) auto
  then show ?thesis
    using byte_entries_join [OF assms(1-3)] assms(4) by (simp add: parseByteList_def visit_string_def)
qed

lemma entry_printed: "list_all is_blank pre \<Longrightarrow> entry_text (pre @ format_nat (unat b) @ []) (Some b)"
  by (auto simp: entry_text_def)

lemma byte_list_read_witness:
  "parseByteList [(''IgnoreEIDs'', VString '' 12,300,,x, 7'')] ''IgnoreEIDs'' = Some [12, 7]"
proof -
  have "byte_entry ''300'' = None" "byte_entry ''x'' = None"
    by code_simp+
  moreover have "trim ''300'' = ''300''" "trim ''x'' = ''x''" "trim [] = []"
    by code_simp+
  moreover have "'' 12'' = [CHR '' ''] @ format_nat (unat (12 :: u8)) @ []" "'' 7'' = [CHR '' ''] @ format_nat (unat (7 :: u8)) @ []"
    by code_simp+
  moreover have "list_all is_blank [CHR '' '']"
    by code_simp
  ultimately have "list_all2 entry_text ['' 12'', ''300'', [], ''x'', '' 7''] [Some 12, None, None, None, Some 7]"
    using entry_printed [of "[CHR '' '']" 12] entry_printed [of "[CHR '' '']" 7]
    by (simp add: entry_text_def [of _ None])
  from byte_list_read [OF this] show ?thesis
    by (simp add: List.map_filter_def)
qed

section \<open>Configured devices\<close>

fun transport_type :: "transport \<Rightarrow> string" where
  "transport_type (I2C bus) = ''MCTPI2CTarget''"
| "transport_type (I3C bus) = ''MCTPI3CTarget''"
| "transport_type (USB rootHubPath port configuration interfaceNum) = ''MCTPUSBDevice''"
| "transport_type (SPI bus chipselect) = ''MCTPSPIDevice''"
| "transport_type XROT = ''MCTPXROTTarget''"
| "transport_type PCIe = ''MCTPPCIeTarget''"

fun address_length :: "transport \<Rightarrow> nat \<Rightarrow> bool" where
  "address_length (I2C bus) n \<longleftrightarrow> n = 1"
| "address_length (I3C bus) n \<longleftrightarrow> n \<noteq> 0"
| "address_length PCIe n \<longleftrightarrow> n = 2"
| "address_length _ n \<longleftrightarrow> n = 0"

text \<open>What every configured device respects.\<close>

definition config_ok :: "config_map \<Rightarrow> device_config \<Rightarrow> bool" where
  "config_ok iface c \<longleftrightarrow>
     check_type (transport_type (cfg_transport c)) [] iface = Inr () \<and>
     getDeviceNames iface = Inr (cfg_names c) \<and> cfg_names c \<noteq> [] \<and> cfg_name c = hd (cfg_names c) \<and>
     static_eid iface = Inr (cfg_staticEID c) \<and> (cfg_staticEID c = None \<longrightarrow> cfg_poolStart c = None) \<and>
     address_length (cfg_transport c) (length (cfg_physaddr c)) \<and>
     cfg_recoveryThreshold c \<le> 10 \<and>
     (case cfg_pollingInterval c of None \<Rightarrow> True | Some i \<Rightarrow> i \<le> 180)"

lemma check_type_message: "check_type ty (x # m) iface = Inr () \<longleftrightarrow> check_type ty [] iface = Inr ()"
  by (auto simp: check_type_def try_bind_Inr split: option.splits if_splits)

lemma names_nonempty: "getDeviceNames iface = Inr names \<Longrightarrow> names \<noteq> []"
  by (auto simp: getDeviceNames_def Let_def split: option.splits if_splits)

lemma polling_bound:
  assumes "getPollingInterval iface = Some i"
  shows "i \<le> 180"
proof -
  have "ucast val \<le> (180 :: u8)" if "val \<le> (180 :: u64)" for val
  proof -
    have "unat val \<le> 180"
      using that by (simp add: word_le_nat_alt)
    then show ?thesis
      by (simp add: word_le_nat_alt unsigned_ucast_eq take_bit_nat_eq_self)
  qed
  with assms show ?thesis
    by (auto simp: getPollingInterval_def split: option.splits sum.splits if_splits)
qed

lemma threshold_bound:
  assumes "recovery_threshold iface = Inr n"
  shows "n \<le> 10"
proof -
  have "ucast m \<le> (10 :: u8)" if "\<not> 10 < (m :: u32)" for m
  proof -
    have "unat m \<le> 10"
      using that by (simp add: word_less_nat_alt)
    then show ?thesis
      by (simp add: word_le_nat_alt unsigned_ucast_eq take_bit_nat_eq_self)
  qed
  moreover have "(case b of [] \<Rightarrow> r | _ # _ \<Rightarrow> Inl e) = Inr k \<longleftrightarrow> b = [] \<and> r = Inr k"
    for b :: string and r :: "conf_error + u8" and e k
    by (cases b) auto
  ultimately show ?thesis
    using assms by (auto simp: recovery_threshold_def try_bind_Inr split: option.splits if_splits)
qed

lemma devfn_length: "parsePcieBdf s = Inr a \<Longrightarrow> length a = 2"
  by (auto simp: parsePcieBdf_read devfn_def)

lemma caught: "(case m of Inl e \<Rightarrow> Inl e' | Inr x \<Rightarrow> f x) = Inr y \<longleftrightarrow> (\<exists>x. m = Inr x \<and> f x = Inr y)"
  by (cases m) auto

lemma given_with_None: "eid = None \<Longrightarrow> given_with eid x = None"
  by (simp add: given_with_def)

text \<open>
  C25: Whatever the configuration, a device that one of the six parsers returns has the type of its
  transport, at least one name, the first of them as its own, the static EID the configuration states, no
  start of a bridge pool without a static EID, a hardware address of the length its transport needs, a
  recovery threshold of at most 10 and a polling interval of at most 180 seconds.
\<close>
theorem configured_devices_valid:
  assumes "Inr (Some c) \<in> {I2C_from readdir iface, I3C_from readdir iface, USB_from readdir iface,
    SPI_from readdir iface, XROT_from iface, PCIe_from iface}"
  shows "config_ok iface c"
proof -
  note facts = config_ok_def try_bind_Inr check_type_message Let_def given_with_None names_nonempty
    polling_bound threshold_bound devfn_length
  have "config_ok iface c" if "I2C_from readdir iface = Inr (Some c)"
    using that by (auto simp: I2C_from_def facts split: option.splits prod.splits)
  moreover have "config_ok iface c" if "I3C_from readdir iface = Inr (Some c)"
    using that by (auto simp: I3C_from_def facts split: option.splits if_splits)
  moreover have "config_ok iface c" if "USB_from readdir iface = Inr (Some c)"
    using that by (auto simp: USB_from_def facts split: prod.splits option.splits)
  moreover have "config_ok iface c" if "SPI_from readdir iface = Inr (Some c)"
    using that by (auto simp: SPI_from_def facts split: option.splits)
  moreover have "config_ok iface c" if "XROT_from iface = Inr (Some c)"
    using that by (auto simp: XROT_from_def facts split: option.splits)
  moreover have "config_ok iface c" if "PCIe_from iface = Inr (Some c)"
    using that by (auto simp: PCIe_from_def facts caught split: option.splits)
  ultimately show ?thesis
    using assms by auto
qed

definition usb_config :: config_map where
  "usb_config =
     [(''BridgePoolEndEID'', VString ''21''), (''BridgePoolStartEID'', VString ''20''), (''Interface'', VString ''usb0''),
      (''Name'', VString ''Bridge, GPU_0, GPU_1''), (''PollingInterval'', VString ''5''),
      (''RecoveryThreshold'', VString ''3''), (''StaticEndpointID'', VString ''12''), (''Type'', VString ''MCTPUSBDevice'')]"

definition usb_device :: device_config where
  "usb_device =
     \<lparr>cfg_transport = USB [] [] 0 0, cfg_name = ''Bridge'', cfg_names = [''Bridge'', ''GPU_0'', ''GPU_1''],
      cfg_interface = ''usb0'', cfg_physaddr = [], cfg_staticEID = Some 12, cfg_poolStart = Some 20,
      cfg_poolEnd = Some 21, cfg_ignoreEids = None, cfg_ignoreMessageTypes = None,
      cfg_recoveryThreshold = 3, cfg_pollingInterval = Some 5, cfg_indeterministic = False\<rparr>"

lemma usb_config_read: "USB_from (\<lambda>_. None) usb_config = Inr (Some usb_device)"
  by code_simp

theorem configured_devices_valid_witness: "config_ok usb_config usb_device"
  using configured_devices_valid [of usb_device "\<lambda>_. None" usb_config] by (simp add: usb_config_read)

section \<open>Numbers with a tail\<close>

lemma takeWhile_digits:
  assumes "tail = [] \<or> \<not> is_digit (hd tail)"
  shows "takeWhile is_digit (format_nat n @ tail) = format_nat n \<and> dropWhile is_digit (format_nat n @ tail) = tail"
proof -
  have "\<forall>c \<in> set (format_nat n). is_digit c"
    using format_nat_digits [of n] by (simp add: list_all_iff)
  with assms show ?thesis
    by (cases tail) (simp_all add: takeWhile_append dropWhile_append)
qed

text \<open>
  EIDs and pool limits are read from the start of their text and what follows the digits is ignored, so
  \<open>12abc\<close> is EID 12, and a hexadecimal text like \<open>0x1d\<close> is 0 for every tail; the I2C address is read in the same
  way. The recovery threshold is not: it is refused with any tail.
\<close>
lemma number_tail_ignored:
  assumes "tail \<noteq> []" "\<not> is_digit (hd tail)"
  shows "static_eid [(''StaticEndpointID'', VString (format_nat (unat eid) @ tail))] = Inr (Some eid) \<and>
    pool_end [(''BridgePoolEndEID'', VString (format_nat (unat eid) @ tail))] = Inr (Some eid) \<and>
    recovery_threshold [(''RecoveryThreshold'', VString (format_nat n @ tail))] =
      Inl (InvalidArgument ''Bad RecoveryThreshold value'') \<and>
    map_option cfg_physaddr (case I2C_from (\<lambda>_. Some [(''mctpi2c1'', True)])
        [(''Address'', VString ''0x1d''), (''Bus'', VString ''1''), (''Name'', VString ''dev''),
         (''Type'', VString ''MCTPI2CTarget'')] of Inr c \<Rightarrow> c | Inl e \<Rightarrow> None) = Some [0]"
proof -
  have "unat eid \<le> 255"
    using unsigned_less [of eid, where 'a = nat] by simp
  then have "from_chars_u8 (format_nat (unat eid) @ tail) = Some (eid, tail)"
    using takeWhile_digits [of tail "unat eid"] assms by (simp add: from_chars_u8_def from_chars_nat_def decimal_format_nat)
  moreover have "from_chars_u32 (format_nat n @ tail) = None \<or> (\<exists>m. from_chars_u32 (format_nat n @ tail) = Some (m, tail))"
    using takeWhile_digits [of tail n] assms
    by (simp add: from_chars_u32_def from_chars_nat_def decimal_format_nat Let_def)
  then have "recovery_threshold [(''RecoveryThreshold'', VString (format_nat n @ tail))] =
      Inl (InvalidArgument ''Bad RecoveryThreshold value'')"
    using assms(1) by (auto simp: recovery_threshold_def visit_string_def split: list.split)
  moreover have "map_option cfg_physaddr (case I2C_from (\<lambda>_. Some [(''mctpi2c1'', True)])
        [(''Address'', VString ''0x1d''), (''Bus'', VString ''1''), (''Name'', VString ''dev''),
         (''Type'', VString ''MCTPI2CTarget'')] of Inr c \<Rightarrow> c | Inl e \<Rightarrow> None) = Some [0]"
    by code_simp
  ultimately show ?thesis
    by (simp add: static_eid_def pool_end_def optional_u8_def visit_string_def)
qed

lemma number_tail_ignored_witness:
  "static_eid [(''StaticEndpointID'', VString (format_nat (unat (12 :: u8)) @ ''abc''))] = Inr (Some 12)"
proof -
  have "\<not> is_digit (hd ''abc'')"
    by code_simp
  from number_tail_ignored [OF _ this, of 12] show ?thesis
    by simp
qed

end
