(* ===== verification/Sensor_Config.thy ===== *)
theory Sensor_Config
  imports Config_Value Sensor_Thresholds
begin

text \<open>
  Configurations of sensors: thresholds read from a configuration and from sysfs attributes and written
  back to it (\<open>Thresholds.cpp\<close>), and the look-ups of \<open>Utils.cpp\<close> and \<open>Utils.hpp\<close>. Files are parameters:
  \<open>read_line\<close> gives the first line of a file that can be opened, \<open>readFile\<close> the number in an attribute. A
  configuration of a sensor is the list of its interfaces in the order of their names.
\<close>

type_synonym sensor_data = "(string \<times> config_map) list"

section \<open>Thresholds from a configuration\<close>

text \<open>Whether a threshold interface is meant for this sensor.\<close>

definition label_matches :: "string option \<Rightarrow> config_map \<Rightarrow> conf_error + bool" where
  "label_matches matchLabel cfg =
     (case matchLabel of
        None \<Rightarrow> Inr True
      | Some label \<Rightarrow>
          (case map_of cfg ''Label'' of
             None \<Rightarrow> Inr False
           | Some v \<Rightarrow> try_bind (visit_string v) (\<lambda>s. Inr (s = label))))"

definition index_matches :: "int option \<Rightarrow> config_map \<Rightarrow> conf_error + bool" where
  "index_matches sensorIndex cfg =
     (case sensorIndex of
        None \<Rightarrow> Inr True
      | Some i \<Rightarrow>
          (case map_of cfg ''Index'' of
             None \<Rightarrow> Inr (i = 1)
           | Some v \<Rightarrow> try_bind (visit_int v) (\<lambda>n. Inr (sint n = i))))"

definition read_hysteresis :: "config_map \<Rightarrow> conf_error + dbl" where
  "read_hysteresis cfg = (case map_of cfg ''Hysteresis'' of None \<Rightarrow> Inr NaN | Some v \<Rightarrow> visit_double v)"

text \<open>The severity is an \<open>unsigned int\<close> that \<open>findThresholdLevel\<close> takes as a \<open>uint8_t\<close>.\<close>

definition threshold_of :: "variant \<Rightarrow> variant \<Rightarrow> variant \<Rightarrow> dbl \<Rightarrow> conf_error + threshold option" where
  "threshold_of direction_v severity_v value_v hyst =
     try_bind (visit_unsigned severity_v) (\<lambda>severity.
     try_bind (visit_string direction_v) (\<lambda>directions.
     let lev = findThresholdLevel (ucast severity); dir = findThresholdDirection directions in
     if lev = LevelERROR \<or> dir = DirectionERROR then Inr None
     else try_bind (visit_double value_v) (\<lambda>val. Inr (Some (new_threshold lev dir val hyst)))))"

text \<open>One interface: \<open>None\<close> is a malformed one, \<open>Some None\<close> one that adds no threshold.\<close>

definition parse_interface ::
  "string option \<Rightarrow> int option \<Rightarrow> string \<Rightarrow> config_map \<Rightarrow> conf_error + threshold option option" where
  "parse_interface matchLabel sensorIndex intf cfg =
     (if find_after ''Thresholds'' intf = None then Inr (Some None)
      else
        try_bind (label_matches matchLabel cfg) (\<lambda>ours.
        if \<not> ours then Inr (Some None) else
        try_bind (index_matches sensorIndex cfg) (\<lambda>ours.
        if \<not> ours then Inr (Some None) else
        try_bind (read_hysteresis cfg) (\<lambda>hyst.
        case (map_of cfg ''Direction'', map_of cfg ''Severity'', map_of cfg ''Value'') of
          (Some direction_v, Some severity_v, Some value_v) \<Rightarrow>
            try_bind (threshold_of direction_v severity_v value_v hyst) (\<lambda>th. Inr (Some th))
        | _ \<Rightarrow> Inr None))))"

text \<open>The result, or what is thrown, and the thresholds added so far.\<close>

fun parseThresholdsFromConfig ::
  "sensor_data \<Rightarrow> string option \<Rightarrow> int option \<Rightarrow> threshold list \<Rightarrow> (conf_error + bool) \<times> threshold list" where
  "parseThresholdsFromConfig [] matchLabel sensorIndex ths = (Inr True, ths)"
| "parseThresholdsFromConfig ((intf, cfg) # data) matchLabel sensorIndex ths =
     (case parse_interface matchLabel sensorIndex intf cfg of
        Inl e \<Rightarrow> (Inl e, ths)
      | Inr None \<Rightarrow> (Inr False, ths)
      | Inr (Some None) \<Rightarrow> parseThresholdsFromConfig data matchLabel sensorIndex ths
      | Inr (Some (Some th)) \<Rightarrow> parseThresholdsFromConfig data matchLabel sensorIndex (ths @ [th]))"

section \<open>Writing a threshold back\<close>

text \<open>
  \<open>persistThreshold\<close> asks for all properties of each of the threshold interfaces; the reply of one with the
  level and direction of the threshold leads to a call that sets its value.
\<close>

definition threshold_interface :: "string \<Rightarrow> nat \<Rightarrow> string" where
  "threshold_interface baseInterface ii = baseInterface @ ''.Thresholds'' @ format_nat ii"

definition persist_requests :: "string \<Rightarrow> nat \<Rightarrow> string list" where
  "persist_requests baseInterface thresholdCount = map (threshold_interface baseInterface) [0..<thresholdCount]"

definition persist_reply :: "threshold \<Rightarrow> string \<Rightarrow> config_map option \<Rightarrow> conf_error + dbl option" where
  "persist_reply th labelMatch reply =
     (case reply of
        None \<Rightarrow> Inr None
      | Some result \<Rightarrow>
          try_bind (if labelMatch = [] then Inr True else label_matches (Some labelMatch) result) (\<lambda>ours.
          if \<not> ours then Inr None
          else
            (case (map_of result ''Direction'', map_of result ''Severity'', map_of result ''Value'') of
               (Some direction_v, Some severity_v, Some _) \<Rightarrow>
                 try_bind (visit_unsigned severity_v) (\<lambda>severity.
                 try_bind (visit_string direction_v) (\<lambda>dir.
                 if findThresholdLevel (ucast severity) \<noteq> level th \<or> findThresholdDirection dir \<noteq> direction th
                 then Inr None
                 else Inr (Some (th_value th))))
             | _ \<Rightarrow> Inr None)))"

section \<open>Thresholds from attributes\<close>

fun replace_all :: "string \<Rightarrow> string \<Rightarrow> nat \<Rightarrow> string \<Rightarrow> string" where
  "replace_all needle by 0 [] = []"
| "replace_all needle by (Suc n) [] = []"
| "replace_all needle by (Suc n) (c # s) = replace_all needle by n s"
| "replace_all needle by 0 (c # s) =
     (if needle \<noteq> [] \<and> take (length needle) (c # s) = needle
      then by @ replace_all needle by (length needle - 1) s
      else c # replace_all needle by 0 s)"

definition file_name :: "string \<Rightarrow> string" where
  "file_name path = rev (takeWhile (\<lambda>c. c \<noteq> CHR ''/'') (rev path))"

definition splitFileName :: "string \<Rightarrow> (string \<times> string \<times> string) option" where
  "splitFileName path =
     (let fileName = file_name path;
          numberPos = length (takeWhile (\<lambda>c. \<not> is_digit c) fileName);
          itemPos = length (takeWhile (\<lambda>c. c \<noteq> CHR ''_'') fileName)
      in if 0 < numberPos \<and> numberPos < itemPos \<and> itemPos < length fileName
         then Some (take numberPos fileName, take (itemPos - numberPos) (drop numberPos fileName),
                    drop (itemPos + 1) fileName)
         else None)"

definition attribute_thresholds :: "dbl \<Rightarrow> string \<Rightarrow> (string \<times> Level \<times> Direction \<times> dbl) list option" where
  "attribute_thresholds offset item =
     (if item = ''average'' then
        Some [(''average_min'', WARNING, LOW, Fin 0), (''average_max'', WARNING, HIGH, Fin 0)]
      else if item = ''input'' then
        Some [(''min'', WARNING, LOW, Fin 0), (''max'', WARNING, HIGH, Fin 0),
              (''lcrit'', CRITICAL, LOW, Fin 0), (''crit'', CRITICAL, HIGH, offset)]
      else None)"

definition parseThresholdsFromAttr ::
  "(string \<Rightarrow> dbl \<Rightarrow> dbl option) \<Rightarrow> string \<Rightarrow> dbl \<Rightarrow> dbl \<Rightarrow> dbl \<Rightarrow> threshold list \<Rightarrow> bool \<times> threshold list" where
  "parseThresholdsFromAttr readFile inputPath scaleFactor offset hyst ths =
     (True,
      case splitFileName inputPath of
        None \<Rightarrow> ths
      | Some (type, nr, item) \<Rightarrow>
          (case attribute_thresholds offset item of
             None \<Rightarrow> ths
           | Some attrs \<Rightarrow>
               ths @ List.map_filter
                 (\<lambda>(suffix, lev, dir, off).
                    case readFile (replace_all item suffix 0 inputPath) scaleFactor of
                      None \<Rightarrow> None
                    | Some val \<Rightarrow> Some (new_threshold lev dir (dadd val off) hyst))
                 attrs))"

section \<open>Look-ups\<close>

definition getFullHwmonFilePath :: "(string \<Rightarrow> string option) \<Rightarrow> string \<Rightarrow> string \<Rightarrow> string list \<Rightarrow> string option" where
  "getFullHwmonFilePath read_line dir hwmonBaseName permitSet =
     (let result = dir @ ''/'' @ hwmonBaseName @ ''_input'' in
      if permitSet = [] then Some result
      else
        (let searchVal = (case read_line (dir @ ''/'' @ hwmonBaseName @ ''_label'') of
                            None \<Rightarrow> hwmonBaseName | Some label \<Rightarrow> label)
         in if searchVal \<in> set permitSet then Some result else None))"

definition getPermitSet :: "config_map \<Rightarrow> string list" where
  "getPermitSet config = (case map_of config ''Labels'' of Some (VStrings ss) \<Rightarrow> ss | _ \<Rightarrow> [])"

definition setReadState :: "string \<Rightarrow> PowerState \<Rightarrow> PowerState" where
  "setReadState str val =
     (if str = ''On'' then power_on
      else if str = ''BiosPost'' then power_biosPost
      else if str = ''Always'' then power_always
      else if str = ''ChassisOn'' then power_chassisOn
      else val)"

definition getPowerState :: "config_map \<Rightarrow> conf_error + PowerState" where
  "getPowerState cfg =
     (case map_of cfg ''PowerState'' of
        None \<Rightarrow> Inr power_always
      | Some v \<Rightarrow> try_bind (visit_string v) (\<lambda>s. Inr (setReadState s power_always)))"

definition findLimits :: "dbl \<times> dbl \<Rightarrow> config_map option \<Rightarrow> conf_error + dbl \<times> dbl" where
  "findLimits limits data =
     (case data of
        None \<Rightarrow> Inr limits
      | Some cfg \<Rightarrow>
          try_bind (case map_of cfg ''MinReading'' of None \<Rightarrow> Inr (fst limits) | Some v \<Rightarrow> visit_double v) (\<lambda>low.
          try_bind (case map_of cfg ''MaxReading'' of None \<Rightarrow> Inr (snd limits) | Some v \<Rightarrow> visit_double v) (\<lambda>high.
          Inr (low, high))))"

text \<open>\<open>emplace\<close> keeps the first value of a parameter.\<close>

definition emplace_param :: "string \<Rightarrow> variant option \<Rightarrow> (string \<rightharpoonup> dbl) \<Rightarrow> conf_error + (string \<rightharpoonup> dbl)" where
  "emplace_param key v params =
     (case v of
        None \<Rightarrow> Inr params
      | Some v \<Rightarrow>
          try_bind (visit_double v)
            (\<lambda>x. Inr (case params key of None \<Rightarrow> params(key \<mapsto> x) | Some _ \<Rightarrow> params)))"

fun parseSensorParamFromConfig :: "sensor_data \<Rightarrow> (string \<rightharpoonup> dbl) \<Rightarrow> conf_error + (string \<rightharpoonup> dbl)" where
  "parseSensorParamFromConfig [] params = Inr params"
| "parseSensorParamFromConfig ((intf, cfg) # data) params =
     (if find_after ''SensorParams'' intf = None then parseSensorParamFromConfig data params
      else
        try_bind (emplace_param ''maxValue'' (map_of cfg ''MaxValue'') params) (\<lambda>params.
        try_bind (emplace_param ''minValue'' (map_of cfg ''MinValue'') params) (\<lambda>params.
        parseSensorParamFromConfig data params)))"

definition getSensorParamMapValues :: "dbl \<Rightarrow> dbl \<Rightarrow> (string \<rightharpoonup> dbl) \<Rightarrow> dbl \<times> dbl" where
  "getSensorParamMapValues mx mn params =
     (case params ''maxValue'' of None \<Rightarrow> mx | Some v \<Rightarrow> v,
      case params ''minValue'' of None \<Rightarrow> mn | Some v \<Rightarrow> v)"

definition findContainingChassis :: "string \<Rightarrow> (string \<times> (string \<times> string list) list) list \<Rightarrow> string option" where
  "findContainingChassis configParent subtree =
     (if configParent \<in> fst ` set subtree then Some configParent
      else
        (case filter (\<lambda>(obj, services).
                list_ex (\<lambda>(service, interfaces). ''xyz.openbmc_project.Inventory.Item.System'' \<in> set interfaces)
                  services) subtree of
           [] \<Rightarrow> None
         | (obj, _) # _ \<Rightarrow> Some obj))"

text \<open>The objects of entity-manager with an interface of a type; \<open>resp\<close> keeps what it has.\<close>

definition has_interface :: "string \<Rightarrow> sensor_data \<Rightarrow> bool" where
  "has_interface typeIntf data \<longleftrightarrow> list_ex (\<lambda>(intf, cfg). take (length typeIntf) intf = typeIntf) data"

definition getSensorConfiguration ::
  "string \<Rightarrow> (string \<times> sensor_data) list option \<Rightarrow> (string \<times> sensor_data) list \<Rightarrow> bool \<Rightarrow>
   (string \<rightharpoonup> sensor_data) \<Rightarrow> bool \<times> (string \<times> sensor_data) list \<times> (string \<rightharpoonup> sensor_data)" where
  "getSensorConfiguration type reply managedObj useCache resp =
     (if \<not> useCache \<and> reply = None then (False, [], resp)
      else
        (let managedObj = (if useCache then managedObj else the reply);
             found = filter (\<lambda>(path, data). has_interface (''xyz.openbmc_project.Configuration.'' @ type) data) managedObj
         in (True, managedObj, fold (\<lambda>(path, data) r. case r path of None \<Rightarrow> r(path \<mapsto> data) | Some _ \<Rightarrow> r) found resp)))"

end
