(* ===== verification/Sensor_Config_Correct.thy ===== *)
theory Sensor_Config_Correct
  imports Sensor_Config "HOL-Library.AList"
begin

text \<open>
  Thresholds of a configuration are read back, also after one of them has been persisted; what ends or
  skips the reading; and which files the thresholds of a sysfs attribute come from.
\<close>

section \<open>Reading back\<close>

text \<open>The configuration entity-manager publishes for a threshold.\<close>

fun direction_text :: "Direction \<Rightarrow> string" where
  "direction_text HIGH = ''greater than''"
| "direction_text LOW = ''less than''"
| "direction_text DirectionERROR = []"

fun severity_of :: "Level \<Rightarrow> u32" where
  "severity_of WARNING = 0"
| "severity_of CRITICAL = 1"
| "severity_of PERFORMANCELOSS = 2"
| "severity_of SOFTSHUTDOWN = 3"
| "severity_of HARDSHUTDOWN = 4"
| "severity_of LevelERROR = 5"

definition threshold_config :: "threshold \<Rightarrow> config_map" where
  "threshold_config th =
     [(''Direction'', VString (direction_text (direction th))), (''Hysteresis'', VDouble (hysteresis th)),
      (''Severity'', VU32 (severity_of (level th))), (''Value'', VDouble (th_value th))]"

definition proper :: "threshold \<Rightarrow> bool" where
  "proper th \<longleftrightarrow> level th \<noteq> LevelERROR \<and> direction th \<noteq> DirectionERROR \<and> writeable th"

text \<open>
  What entity-manager holds in an interface after it has served the call that persisting a threshold makes for the
  interface, if any. Which interfaces are asked is the count that the caller of \<open>persistThreshold\<close> passes.
\<close>

definition write_back :: "threshold \<Rightarrow> string \<times> config_map \<Rightarrow> string \<times> config_map" where
  "write_back th entry =
     (case persist_reply th [] (Some (snd entry)) of
        Inr (Some v) \<Rightarrow> (fst entry, AList.update ''Value'' (VDouble v) (snd entry))
      | _ \<Rightarrow> entry)"

lemma level_read: "findThresholdLevel (ucast (severity_of lev)) = lev"
  by (cases lev) (simp_all add: findThresholdLevel_def thresProp_def)

lemma direction_read: "findThresholdDirection (direction_text dir) = dir"
  by (cases dir) (simp_all add: findThresholdDirection_def)

lemma visit_simps [simp]:
  "visit_string (VString s) = Inr s" "visit_double (VDouble d) = Inr d" "visit_unsigned (VU32 w) = Inr w"
  by (simp_all add: visit_string_def visit_double_def visit_unsigned_def visit_whole_def)

lemma parse_interface_config:
  assumes "proper th" "find_after ''Thresholds'' intf \<noteq> None"
  shows "parse_interface None None intf (threshold_config th) = Inr (Some (Some th))"
  using assms
  by (simp add: parse_interface_def label_matches_def index_matches_def read_hysteresis_def threshold_of_def
      threshold_config_def level_read direction_read new_threshold_def proper_def)

lemma parse_configs:
  assumes "list_all2 (\<lambda>entry th. snd entry = threshold_config th \<and> proper th \<and> find_after ''Thresholds'' (fst entry) \<noteq> None) data ths"
  shows "parseThresholdsFromConfig data None None acc = (Inr True, acc @ ths)"
  using assms
proof (induction data ths arbitrary: acc rule: list_all2_induct)
  case (Cons entry data th ths)
  then show ?case
    by (cases entry) (simp add: parse_interface_config)
qed simp

definition updated :: "threshold \<Rightarrow> threshold \<Rightarrow> threshold" where
  "updated th t = (if level t = level th \<and> direction t = direction th then t\<lparr>th_value := th_value th\<rparr> else t)"

lemma write_back_config:
  assumes "snd entry = threshold_config t"
  shows "fst (write_back th entry) = fst entry \<and> snd (write_back th entry) = threshold_config (updated th t)"
proof -
  have "persist_reply th [] (Some (snd entry)) =
      Inr (if level t = level th \<and> direction t = direction th then Some (th_value th) else None)"
    by (simp add: assms persist_reply_def threshold_config_def level_read direction_read)
  then show ?thesis
    by (simp add: write_back_def assms updated_def threshold_config_def)
qed

text \<open>
  C26: Thresholds survive the configuration. When the threshold interfaces of a configuration state the
  writeable thresholds of a list, reading it gives back this list, in order; and when one threshold is then
  persisted, reading the configuration again gives the list with the new value at every threshold of its
  level and direction and the others as they were. Here every threshold interface of the configuration is asked, without
  a label to match, as by a caller that passes their number, and entity-manager stores the value it is told to set.
\<close>
theorem persisted_threshold_read_back:
  assumes "map snd data = map threshold_config ths" "\<forall>t\<in>set ths. proper t"
    "\<forall>entry\<in>set data. find_after ''Thresholds'' (fst entry) \<noteq> None"
  shows "parseThresholdsFromConfig data None None [] = (Inr True, ths) \<and>
    parseThresholdsFromConfig (map (write_back th) data) None None [] = (Inr True, map (updated th) ths)"
proof -
  let ?R = "\<lambda>entry t. snd entry = threshold_config t \<and> proper t \<and> find_after ''Thresholds'' (fst entry) \<noteq> None"
  have len: "length data = length ths"
    using arg_cong [OF assms(1), of length] by simp
  have nth: "snd (data ! i) = threshold_config (ths ! i)" if "i < length ths" for i
    using arg_cong [OF assms(1), of "\<lambda>xs. xs ! i"] that len by simp
  have all: "list_all2 ?R data ths"
    using len nth assms(2,3) by (simp add: list_all2_conv_all_nth)
  moreover have "list_all2 ?R (map (write_back th) data) (map (updated th) ths)"
    unfolding list_all2_map1 list_all2_map2
    by (rule list_all2_mono [OF all]) (auto simp: write_back_config updated_def proper_def)
  ultimately show ?thesis
    using parse_configs [where acc = "[]"] by auto
qed

definition two_thresholds :: "threshold list" where
  "two_thresholds = [new_threshold WARNING HIGH (Fin 80) NaN, new_threshold CRITICAL HIGH (Fin 90) NaN]"

theorem persisted_threshold_read_back_witness:
  "snd (parseThresholdsFromConfig
     (map (write_back (new_threshold CRITICAL HIGH (Fin 95) NaN))
       (zip [''x.Thresholds0'', ''x.Thresholds1''] (map threshold_config two_thresholds))) None None []) =
   [new_threshold WARNING HIGH (Fin 80) NaN, new_threshold CRITICAL HIGH (Fin 95) NaN]"
proof -
  have "map snd (zip [''x.Thresholds0'', ''x.Thresholds1''] (map threshold_config two_thresholds)) =
      map threshold_config two_thresholds"
    by (simp add: two_thresholds_def)
  moreover have "\<forall>t\<in>set two_thresholds. proper t"
    by (simp add: two_thresholds_def proper_def new_threshold_def)
  moreover have "\<forall>entry\<in>set (zip [''x.Thresholds0'', ''x.Thresholds1''] (map threshold_config two_thresholds)).
      find_after ''Thresholds'' (fst entry) \<noteq> None"
    by (simp add: two_thresholds_def)
  ultimately have "snd (parseThresholdsFromConfig
     (map (write_back (new_threshold CRITICAL HIGH (Fin 95) NaN))
       (zip [''x.Thresholds0'', ''x.Thresholds1''] (map threshold_config two_thresholds))) None None []) =
      map (updated (new_threshold CRITICAL HIGH (Fin 95) NaN)) two_thresholds"
    by (simp only: persisted_threshold_read_back [THEN conjunct2] snd_conv)
  also have "\<dots> = [new_threshold WARNING HIGH (Fin 80) NaN, new_threshold CRITICAL HIGH (Fin 95) NaN]"
    by (simp add: two_thresholds_def updated_def new_threshold_def)
  finally show ?thesis .
qed

section \<open>What ends or skips the reading\<close>

lemma parse_append:
  "parseThresholdsFromConfig (before @ data) l i acc =
     (case parseThresholdsFromConfig before l i acc of
        (Inr True, ths) \<Rightarrow> parseThresholdsFromConfig data l i ths
      | r \<Rightarrow> r)"
proof (induction before l i acc rule: parseThresholdsFromConfig.induct)
  case (2 intf cfg before l i acc)
  then show ?case
    by (cases "parse_interface l i intf cfg") (auto split: option.splits)
qed simp

text \<open>
  Interfaces are read one by one. Malformed is one that is meant for the sensor and lacks its direction,
  severity or value: it ends the reading with false, an exception ends it too, and both leave the
  thresholds added before. A severity above 4 or a direction other than the two texts adds no threshold
  and is no error; but the severity counts modulo 256 only, so 256 is a warning.
\<close>
lemma threshold_parse_outcome:
  assumes "parseThresholdsFromConfig before l i acc = (Inr True, ths)"
  shows "parseThresholdsFromConfig (before @ (intf, cfg) # after) l i acc =
      (case parse_interface l i intf cfg of
         Inl e \<Rightarrow> (Inl e, ths)
       | Inr None \<Rightarrow> (Inr False, ths)
       | Inr (Some None) \<Rightarrow> parseThresholdsFromConfig after l i ths
       | Inr (Some (Some th)) \<Rightarrow> parseThresholdsFromConfig after l i (ths @ [th])) \<and>
    (parse_interface None None intf cfg = Inr None \<longleftrightarrow>
      find_after ''Thresholds'' intf \<noteq> None \<and> (\<exists>h. read_hysteresis cfg = Inr h) \<and>
      (\<exists>k \<in> {''Direction'', ''Severity'', ''Value''}. map_of cfg k = None)) \<and>
    threshold_of (VString d) (VU32 (256 * k + s)) v h = threshold_of (VString d) (VU32 s) v h \<and>
    (4 < s \<longrightarrow> s < 256 \<longrightarrow> threshold_of (VString d) (VU32 s) v h = Inr None) \<and>
    (d \<notin> {''greater than'', ''less than''} \<longrightarrow> threshold_of (VString d) (VU32 s) v h = Inr None)"
proof (intro conjI impI)
  show "parseThresholdsFromConfig (before @ (intf, cfg) # after) l i acc =
      (case parse_interface l i intf cfg of
         Inl e \<Rightarrow> (Inl e, ths)
       | Inr None \<Rightarrow> (Inr False, ths)
       | Inr (Some None) \<Rightarrow> parseThresholdsFromConfig after l i ths
       | Inr (Some (Some th)) \<Rightarrow> parseThresholdsFromConfig after l i (ths @ [th]))"
    by (simp add: parse_append assms)
  show "parse_interface None None intf cfg = Inr None \<longleftrightarrow>
      find_after ''Thresholds'' intf \<noteq> None \<and> (\<exists>h. read_hysteresis cfg = Inr h) \<and>
      (\<exists>k \<in> {''Direction'', ''Severity'', ''Value''}. map_of cfg k = None)"
    by (auto simp: parse_interface_def label_matches_def index_matches_def try_bind_Inr split: option.splits)
  have "(ucast (256 * k + s) :: u8) = ucast s"
    by (simp add: word_uint_eq_iff unsigned_ucast_eq uint_word_ariths take_bit_eq_mod mod_mod_cancel mod_add_left_eq)
  then show "threshold_of (VString d) (VU32 (256 * k + s)) v h = threshold_of (VString d) (VU32 s) v h"
    by (simp add: threshold_of_def)
  show "threshold_of (VString d) (VU32 s) v h = Inr None" if "4 < s" "s < 256"
  proof -
    have "unat (ucast s :: u8) = unat s" "4 < unat s"
      using that by (simp_all add: word_less_nat_alt unsigned_ucast_eq take_bit_nat_eq_self)
    then have "findThresholdLevel (ucast s) = LevelERROR"
      by (auto simp: findThresholdLevel_def thresProp_def)
    then show ?thesis
      by (simp add: threshold_of_def)
  qed
  show "threshold_of (VString d) (VU32 s) v h = Inr None" if "d \<notin> {''greater than'', ''less than''}"
    using that by (simp add: threshold_of_def findThresholdDirection_def)
qed

lemma threshold_parse_outcome_witness:
  "parseThresholdsFromConfig [(''x.Thresholds0'', threshold_config (new_threshold WARNING LOW (Fin 3) NaN)),
      (''x.Thresholds1'', [(''Value'', VDouble (Fin 5))])] None None [] =
    (Inr False, [new_threshold WARNING LOW (Fin 3) NaN])"
proof -
  have "parseThresholdsFromConfig [(''x.Thresholds0'', threshold_config (new_threshold WARNING LOW (Fin 3) NaN))] None None [] =
      (Inr True, [new_threshold WARNING LOW (Fin 3) NaN])"
    by (simp add: parse_interface_config proper_def new_threshold_def)
  moreover have "parse_interface None None ''x.Thresholds1'' [(''Value'', VDouble (Fin 5))] = Inr None"
    by (simp add: parse_interface_def label_matches_def index_matches_def read_hysteresis_def)
  ultimately show ?thesis
    using threshold_parse_outcome [of "[(''x.Thresholds0'', threshold_config (new_threshold WARNING LOW (Fin 3) NaN))]"
        None None "[]" "[new_threshold WARNING LOW (Fin 3) NaN]" "''x.Thresholds1''" "[(''Value'', VDouble (Fin 5))]" "[]"]
    by simp
qed

section \<open>Attribute files\<close>

lemma replace_skip: "replace_all needle by (length s) s = []"
  by (induction s) simp_all

lemma replace_tail:
  assumes "needle \<noteq> []" "CHR ''_'' \<notin> set needle" "p = [] \<or> last p = CHR ''_''" "find_after needle p = None"
  shows "replace_all needle by 0 (p @ needle) = p @ by"
  using assms(3,4)
proof (induction p)
  case Nil
  obtain c cs where needle: "needle = c # cs"
    using assms(1) by (cases needle) auto
  then show ?case
    using replace_skip [of needle "by" cs] by simp
next
  case (Cons c p)
  have no: "take (length needle) (c # p) \<noteq> needle"
    using Cons(3) by (auto split: if_splits)
  have "take (length needle) (c # p @ needle) \<noteq> needle"
  proof
    assume eq: "take (length needle) (c # p @ needle) = needle"
    show False
    proof (cases "length needle \<le> length (c # p)")
      case True
      then have "take (length needle) (c # p @ needle) = take (length needle) (c # p)"
        by (cases "length needle") auto
      with eq no show False
        by simp
    next
      case False
      then have "set (c # p) \<subseteq> set (take (length needle) (c # p @ needle))"
        by (cases "length needle") auto
      then have "last (c # p) \<in> set needle"
        using eq last_in_set [of "c # p"] by auto
      with Cons(2) assms(2) show False
        by simp
    qed
  qed
  moreover have "find_after needle p = None"
    using Cons(3) by (auto split: if_splits)
  ultimately show ?case
    using Cons(1,2) by (cases "p = []") (auto split: if_splits)
qed

lemma splitFileName_path:
  assumes "CHR ''/'' \<notin> set (t @ n @ item)" "list_all (\<lambda>c. \<not> is_digit c \<and> c \<noteq> CHR ''_'') t" "t \<noteq> []"
    "n \<noteq> []" "is_digit (hd n)" "CHR ''_'' \<notin> set n"
  shows "splitFileName (dir @ ''/'' @ t @ n @ ''_'' @ item) = Some (t, n, item)"
proof -
  have "takeWhile (\<lambda>c. c \<noteq> CHR ''/'') (rev (t @ n @ ''_'' @ item) @ CHR ''/'' # rev dir) = rev (t @ n @ ''_'' @ item)"
    using assms(1) by (subst takeWhile_append2) auto
  then have name: "file_name (dir @ ''/'' @ t @ n @ ''_'' @ item) = t @ n @ ''_'' @ item"
    by (simp add: file_name_def)
  have "takeWhile (\<lambda>c. \<not> is_digit c) (t @ n @ ''_'' @ item) = t"
    using assms(2,4,5) by (cases n) (auto simp: list_all_iff takeWhile_append)
  moreover have "takeWhile (\<lambda>c. c \<noteq> CHR ''_'') ((t @ n) @ ''_'' @ item) = t @ n"
    using assms(2,6) by (subst takeWhile_append2) (auto simp: list_all_iff)
  ultimately show ?thesis
    unfolding splitFileName_def name Let_def using assms(3,4) by simp
qed

lemma attribute_item:
  "attribute_thresholds offset item = Some attrs \<Longrightarrow>
     item \<noteq> [] \<and> CHR ''_'' \<notin> set item \<and> CHR ''/'' \<notin> set item"
  by (auto simp: attribute_thresholds_def split: if_splits)

text \<open>
  The thresholds of an attribute \<open><dir>/<type><nr>_<item>\<close> come from the files in which the item at the end
  of the path is replaced by the name of the limit, in the order of the table, when the item occurs
  nowhere else in the path. Otherwise every occurrence is replaced: with a directory called \<open>input\<close> the
  limits next to the attribute are not read.
\<close>
lemma attribute_files:
  assumes "list_all (\<lambda>c. \<not> is_digit c \<and> c \<notin> {CHR ''_'', CHR ''/''}) t" "t \<noteq> []" "n \<noteq> []" "list_all is_digit n"
    "attribute_thresholds offset item = Some attrs" "p = dir @ ''/'' @ t @ n @ ''_''" "find_after item p = None"
  shows "parseThresholdsFromAttr readFile (p @ item) scaleFactor offset hyst ths =
      (True, ths @ List.map_filter
        (\<lambda>(suffix, lev, dir, off).
           map_option (\<lambda>val. new_threshold lev dir (dadd val off) hyst) (readFile (p @ suffix) scaleFactor)) attrs) \<and>
    snd (parseThresholdsFromAttr (\<lambda>f s. if f = ''/sys/input/hwmon1/temp1_max'' then Some (Fin 80) else None)
      ''/sys/input/hwmon1/temp1_input'' scaleFactor offset hyst []) = []"
proof
  have n: "is_digit (hd n)" "CHR ''_'' \<notin> set n" "CHR ''/'' \<notin> set n"
    using assms(3,4) by (cases n; auto simp: list_all_iff is_digit_def)+
  have split: "splitFileName (p @ item) = Some (t, n, item)"
    using splitFileName_path [of t n item dir] assms(1-3,6) n attribute_item [OF assms(5)] by (auto simp: list_all_iff)
  have replace: "replace_all item suffix 0 (p @ item) = p @ suffix" for suffix
    using attribute_item [OF assms(5)] assms(6,7) by (intro replace_tail) simp_all
  show "parseThresholdsFromAttr readFile (p @ item) scaleFactor offset hyst ths =
      (True, ths @ List.map_filter
        (\<lambda>(suffix, lev, dir, off).
           map_option (\<lambda>val. new_threshold lev dir (dadd val off) hyst) (readFile (p @ suffix) scaleFactor)) attrs)"
    unfolding parseThresholdsFromAttr_def split option.case prod.case assms(5) replace map_option_case ..
  show "snd (parseThresholdsFromAttr (\<lambda>f s. if f = ''/sys/input/hwmon1/temp1_max'' then Some (Fin 80) else None)
      ''/sys/input/hwmon1/temp1_input'' scaleFactor offset hyst []) = []"
    by (simp add: parseThresholdsFromAttr_def splitFileName_def file_name_def is_digit_def
        attribute_thresholds_def List.map_filter_def numeral_eq_Suc)
qed

lemma attribute_files_witness:
  "parseThresholdsFromAttr (\<lambda>f s. if f = ''/sys/hwmon1/temp1_max'' then Some (Fin 80) else None)
      ''/sys/hwmon1/temp1_input'' (Fin 1000) (Fin 0) NaN [] =
    (True, [new_threshold WARNING HIGH (dadd (Fin 80) (Fin 0)) NaN])"
proof -
  have "list_all (\<lambda>c. \<not> is_digit c \<and> c \<notin> {CHR ''_'', CHR ''/''}) ''temp''" "list_all is_digit ''1''"
    by (simp_all add: is_digit_def)
  moreover have "attribute_thresholds (Fin 0) ''input'' = Some
      [(''min'', WARNING, LOW, Fin 0), (''max'', WARNING, HIGH, Fin 0), (''lcrit'', CRITICAL, LOW, Fin 0),
       (''crit'', CRITICAL, HIGH, Fin 0)]"
    by (simp add: attribute_thresholds_def)
  moreover have "''/sys/hwmon1/temp1_'' = ''/sys/hwmon1'' @ ''/'' @ ''temp'' @ ''1'' @ ''_''"
    "find_after ''input'' ''/sys/hwmon1/temp1_'' = None"
    by simp_all
  ultimately show ?thesis
    using attribute_files [of "''temp''" "''1''" "Fin 0" "''input''" _ "''/sys/hwmon1/temp1_''" "''/sys/hwmon1''"
        "\<lambda>f s. if f = ''/sys/hwmon1/temp1_max'' then Some (Fin 80) else None" "Fin 1000" NaN "[]"]
    by (simp add: List.map_filter_def)
qed

end
