(* ===== verification/Mctp_Health.thy ===== *)
theory Mctp_Health
  imports Mctp_Device Mctp_Config
begin

text \<open>
  The life of an \<open>MCTPDDevice\<close> and its endpoint object (\<open>mctp/MCTPEndpoint.cpp\<close>): set-up, discovery
  notifications, health checks of the device and of the EIDs of its bridge pool, recovery, and removal. One
  record field per data member. What the event loop and the bus hold for the device is part of the state: the
  pending waits of its timers, its matches, and \<open>calls\<close>, the D-Bus calls without a reply. \<open>effects\<close> records
  what it tells its owner and the error log.

  An endpoint object is the number of its creation, \<open>endpoint_no\<close> that of the current one. Its network and
  object path are used in calls only and left out. \<open>connection\<close> is not null. The set of suppressed EIDs is
  shared by the devices of the daemon; only this device's operations on it are here. A timer that expires
  runs its handler at once.
\<close>

section \<open>State\<close>

datatype asio_timer = NoTimer | IdleTimer | ArmedTimer

datatype bus_error = BusTimedOut | BusBadRequest | BusOther

datatype call =
    EndpointPing u8
  | PoolPing u8 string
  | NetLearnEndpoint u8
  | Recover u8
  | AssignEndpointStatic string "u8 list" u8 u8 "u8 list" "u8 list"
  | AssignEndpoint string "u8 list"
  | GetConnectivity nat
  | RemoveEndpoint nat bool
  | GetBridge u8
  | GetRoutingTable string u8
  | LearnEndpoint string "u8 list"

datatype added = AddFailed | AddKept | AddEndpoint nat

datatype effect =
    Added added
  | NotifyDegraded nat
  | NotifyAvailable nat
  | NotifyRemoved nat
  | RemoveCallback
  | SetupRequested
  | PingTimeoutLogged string u8

record health_device = mctpd_device +
  dev_transport :: transport
  physaddr :: "u8 list"
  ignoreEids :: "u8 list option"
  ignoreMessageTypes :: "u8 list option"
  pollingInterval :: "u8 option"
  indeterministicPoolSpace :: bool
  interfaceConfirmed :: bool
  endpoint_no :: nat
  subscribed :: "nat set"
  removeMatch :: bool
  discoveryNotifyMatch :: bool
  discoveryNeeded :: bool
  discoveryCheckTimer :: asio_timer
  healthTimer :: asio_timer
  recoveryTimer :: asio_timer
  inHealthRecoveryMode :: bool
  unresponsiveBridgePoolEids :: "u8 set"
  consecutivePingFailures :: u8
  bridgePoolPingFailures :: "u8 \<Rightarrow> u8"
  suppressedHealthCheckEids :: "u8 set"
  requestSetupCallback :: bool
  calls :: "call list"
  effects :: "effect list"

definition pingFailureThreshold :: u8 where "pingFailureThreshold = 3"

definition pool_eids :: "u8 option \<Rightarrow> u8 option \<Rightarrow> u8 list option \<Rightarrow> u8 list" where
  "pool_eids start_eid end_eid ignored =
     (case (start_eid, end_eid) of
        (Some lo, Some hi) \<Rightarrow>
          filter (\<lambda>eid. case ignored of None \<Rightarrow> True | Some es \<Rightarrow> eid \<notin> set es)
            (map of_nat [unat lo ..< Suc (unat hi)])
      | _ \<Rightarrow> [])"

definition new_health_device :: "device_config \<Rightarrow> health_device" where
  "new_health_device c =
     \<lparr>name = cfg_name c, deviceNames = cfg_names c, interface = cfg_interface c, endpoint_eid_of = None,
      staticEID = cfg_staticEID c, bridgePoolStartEid = cfg_poolStart c, bridgePoolEndEid = cfg_poolEnd c,
      discoveredMctpEids = [], dev_transport = cfg_transport c, physaddr = cfg_physaddr c,
      ignoreEids = cfg_ignoreEids c, ignoreMessageTypes = cfg_ignoreMessageTypes c,
      pollingInterval = cfg_pollingInterval c, indeterministicPoolSpace = cfg_indeterministic c,
      interfaceConfirmed = False, endpoint_no = 0, subscribed = {}, removeMatch = False,
      discoveryNotifyMatch = False, discoveryNeeded = False, discoveryCheckTimer = NoTimer,
      healthTimer = NoTimer, recoveryTimer = NoTimer, inHealthRecoveryMode = False,
      unresponsiveBridgePoolEids =
        set (pool_eids (cfg_poolStart c) (cfg_poolEnd c) (cfg_ignoreEids c)),
      consecutivePingFailures = 0, bridgePoolPingFailures = (\<lambda>_. 0), suppressedHealthCheckEids = {},
      requestSetupCallback = False, calls = [], effects = []\<rparr>"

definition async_call :: "call \<Rightarrow> health_device \<Rightarrow> health_device" where
  "async_call c d = d\<lparr>calls := calls d @ [c]\<rparr>"

definition emit :: "effect \<Rightarrow> health_device \<Rightarrow> health_device" where
  "emit e d = d\<lparr>effects := effects d @ [e]\<rparr>"

fun cancelled :: "asio_timer \<Rightarrow> asio_timer" where
  "cancelled NoTimer = NoTimer"
| "cancelled _ = IdleTimer"

definition request_setup :: "health_device \<Rightarrow> health_device" where
  "request_setup d = (if requestSetupCallback d then emit SetupRequested d else d)"

section \<open>Recovery and health checks\<close>

definition startHealthMonitoring :: "health_device \<Rightarrow> health_device" where
  "startHealthMonitoring d =
     (case (pollingInterval d, staticEID d) of
        (Some interval, Some eid) \<Rightarrow>
          if interval = 0 then d
          else if endpoint_eid_of d \<noteq> None \<and> endpoint_eid_of d \<noteq> Some eid then d
          else d\<lparr>healthTimer := ArmedTimer\<rparr>
      | _ \<Rightarrow> d)"

definition stopHealthMonitoring :: "health_device \<Rightarrow> health_device" where
  "stopHealthMonitoring d = d\<lparr>healthTimer := cancelled (healthTimer d)\<rparr>"

definition armRecoveryTimeout :: "health_device \<Rightarrow> health_device" where
  "armRecoveryTimeout d =
     (if pollingInterval d = None \<or> pollingInterval d = Some 0 then d else d\<lparr>recoveryTimer := ArmedTimer\<rparr>)"

definition cancelRecoveryTimeout :: "health_device \<Rightarrow> health_device" where
  "cancelRecoveryTimeout d = d\<lparr>recoveryTimer := cancelled (recoveryTimer d)\<rparr>"

definition onRecoveryTimeout :: "health_device \<Rightarrow> health_device" where
  "onRecoveryTimeout d =
     (if \<not> inHealthRecoveryMode d then d
      else startHealthMonitoring (if endpoint_eid_of d \<noteq> None then d\<lparr>inHealthRecoveryMode := False\<rparr> else d))"

definition recover_eid :: "u8 \<Rightarrow> health_device \<Rightarrow> health_device" where
  "recover_eid eid d =
     (if eid \<notin> set (discoveredMctpEids d) then d
      else async_call (Recover eid) (d\<lparr>suppressedHealthCheckEids := insert eid (suppressedHealthCheckEids d)\<rparr>))"

definition recover :: "health_device \<Rightarrow> health_device" where
  "recover d =
     (case endpoint_eid_of d of
        None \<Rightarrow> stopHealthMonitoring (d\<lparr>inHealthRecoveryMode := True\<rparr>)
      | Some eid \<Rightarrow>
          if eid \<notin> set (discoveredMctpEids d) then d
          else recover_eid eid (armRecoveryTimeout (stopHealthMonitoring (d\<lparr>inHealthRecoveryMode := True\<rparr>))))"

text \<open>The ping that reaches the threshold is the only one whose transport errors are not suppressed.\<close>

definition suppress_for_check :: "u8 \<Rightarrow> u8 \<Rightarrow> u8 set \<Rightarrow> u8 set" where
  "suppress_for_check eid failures eids =
     (if failures < pingFailureThreshold - 1 \<or> pingFailureThreshold \<le> failures then insert eid eids
      else eids - {eid})"

definition ping_pool_eid :: "u8 \<Rightarrow> health_device \<Rightarrow> health_device" where
  "ping_pool_eid eid d =
     (if indeterministicPoolSpace d \<and> eid \<notin> set (discoveredMctpEids d) then d
      else async_call (PoolPing eid (case getNameForEid d eid of None \<Rightarrow> [] | Some s \<Rightarrow> s))
             (d\<lparr>suppressedHealthCheckEids :=
                suppress_for_check eid (bridgePoolPingFailures d eid) (suppressedHealthCheckEids d)\<rparr>))"

definition performHealthCheck :: "health_device \<Rightarrow> health_device" where
  "performHealthCheck d =
     (case (staticEID d, pollingInterval d) of
        (Some eid, Some _) \<Rightarrow>
          if healthTimer d = NoTimer then d
          else
            (let d = async_call (EndpointPing eid)
                       (d\<lparr>suppressedHealthCheckEids :=
                          suppress_for_check eid (consecutivePingFailures d) (suppressedHealthCheckEids d)\<rparr>);
                 d = fold ping_pool_eid
                       (pool_eids (bridgePoolStartEid d) (bridgePoolEndEid d) (ignoreEids d)) d
             in d\<lparr>healthTimer := ArmedTimer\<rparr>)
      | _ \<Rightarrow> d)"

definition ping_failed :: "bus_error \<Rightarrow> health_device \<Rightarrow> health_device" where
  "ping_failed ec d =
     (if inHealthRecoveryMode d then d
      else
        (case endpoint_eid_of d of
           None \<Rightarrow> d
         | Some eid \<Rightarrow>
             (let d = d\<lparr>consecutivePingFailures := consecutivePingFailures d + 1\<rparr> in
              if consecutivePingFailures d < pingFailureThreshold then d
              else recover
                (if ec = BusTimedOut \<and> eid \<in> set (discoveredMctpEids d)
                 then emit (PingTimeoutLogged (name d) eid) d else d))))"

definition ping_answered :: "u8 \<Rightarrow> health_device \<Rightarrow> health_device" where
  "ping_answered static d =
     (let d = d\<lparr>consecutivePingFailures := 0, suppressedHealthCheckEids := suppressedHealthCheckEids d - {static}\<rparr> in
      if \<not> inHealthRecoveryMode d then d
      else if endpoint_eid_of d \<noteq> None then d\<lparr>inHealthRecoveryMode := False\<rparr>
      else request_setup d)"

definition pool_ping_failed :: "u8 \<Rightarrow> string \<Rightarrow> bus_error \<Rightarrow> health_device \<Rightarrow> health_device" where
  "pool_ping_failed eid deviceName ec d =
     (if eid \<in> unresponsiveBridgePoolEids d \<and> pingFailureThreshold \<le> bridgePoolPingFailures d eid then d
      else
        (let d = d\<lparr>bridgePoolPingFailures := (bridgePoolPingFailures d)(eid := bridgePoolPingFailures d eid + 1)\<rparr> in
         if bridgePoolPingFailures d eid < pingFailureThreshold then d
         else
           (let d = (if ec = BusTimedOut \<and> eid \<in> set (discoveredMctpEids d)
                     then emit (PingTimeoutLogged deviceName eid) d else d)
            in recover_eid eid (d\<lparr>unresponsiveBridgePoolEids := insert eid (unresponsiveBridgePoolEids d)\<rparr>))))"

definition pool_ping_answered :: "u8 \<Rightarrow> health_device \<Rightarrow> health_device" where
  "pool_ping_answered eid d =
     (let d = d\<lparr>bridgePoolPingFailures := (bridgePoolPingFailures d)(eid := 0),
                suppressedHealthCheckEids := suppressedHealthCheckEids d - {eid}\<rparr> in
      if \<not> discoveryNeeded d \<and> eid \<in> unresponsiveBridgePoolEids d
      then async_call (NetLearnEndpoint eid)
             (d\<lparr>unresponsiveBridgePoolEids := unresponsiveBridgePoolEids d - {eid}\<rparr>)
      else d)"

definition net_learn_reply :: "u8 \<Rightarrow> bool \<Rightarrow> health_device \<Rightarrow> health_device" where
  "net_learn_reply eid ok d =
     (if ok then d else d\<lparr>unresponsiveBridgePoolEids := insert eid (unresponsiveBridgePoolEids d)\<rparr>)"

section \<open>Set-up and removal\<close>

definition onEndpointEstablished :: "health_device \<Rightarrow> health_device" where
  "onEndpointEstablished d =
     (let d = startHealthMonitoring
                ((cancelRecoveryTimeout (d\<lparr>inHealthRecoveryMode := False\<rparr>))\<lparr>consecutivePingFailures := 0\<rparr>)
      in case dev_transport d of
           USB _ _ _ _ \<Rightarrow> d\<lparr>interfaceConfirmed := True\<rparr>
         | SPI _ _ \<Rightarrow> d\<lparr>interfaceConfirmed := True\<rparr>
         | _ \<Rightarrow> d)"

definition finaliseEndpoint :: "u8 \<Rightarrow> health_device \<Rightarrow> health_device" where
  "finaliseEndpoint eid d =
     (let n = Suc (endpoint_no d);
          d = d\<lparr>removeMatch := True, endpoint_eid_of := Some eid, endpoint_no := n\<rparr>
      in emit (Added (AddEndpoint n)) (onEndpointEstablished (markDiscoveredMctpEid eid d)))"

definition setup_reply :: "(u8 \<times> bool) option \<Rightarrow> health_device \<Rightarrow> health_device" where
  "setup_reply result d =
     (case result of
        None \<Rightarrow> emit (Added AddFailed) d
      | Some (eid, allocated) \<Rightarrow>
          if \<not> allocated \<and> endpoint_eid_of d \<noteq> None then emit (Added AddKept) d
          else finaliseEndpoint eid d)"

definition interface_path :: "health_device \<Rightarrow> string" where
  "interface_path d = mctpdControlPath @ ''/interfaces/'' @ interface d"

definition base_setup :: "health_device \<Rightarrow> health_device" where
  "base_setup d =
     (case staticEID d of
        Some eid \<Rightarrow>
          async_call (AssignEndpointStatic (interface_path d) (physaddr d) eid
            (case bridgePoolStartEid d of None \<Rightarrow> 0 | Some e \<Rightarrow> e)
            (case ignoreEids d of None \<Rightarrow> [] | Some es \<Rightarrow> es)
            (case ignoreMessageTypes d of None \<Rightarrow> [] | Some ts \<Rightarrow> ts)) d
      | None \<Rightarrow> async_call (AssignEndpoint (interface_path d) (physaddr d)) d)"

definition onDiscoveryMatchRule :: "health_device \<Rightarrow> health_device" where
  "onDiscoveryMatchRule d =
     (if interface d = [] then d else d\<lparr>discoveryNotifyMatch := True, discoveryCheckTimer := IdleTimer\<rparr>)"

text \<open>USB devices known by their topology and SPI devices look for their interface until it is confirmed.\<close>

definition resolving_setup :: "string option \<Rightarrow> health_device \<Rightarrow> health_device" where
  "resolving_setup resolved d =
     (if interfaceConfirmed d then base_setup d
      else
        (case resolved of
           None \<Rightarrow> emit (Added AddFailed) d
         | Some s \<Rightarrow>
             base_setup (if s = interface d then d else onDiscoveryMatchRule (d\<lparr>interface := s\<rparr>))))"

definition setup_device :: "file_system \<Rightarrow> health_device \<Rightarrow> health_device" where
  "setup_device readdir d =
     (case dev_transport d of
        USB rootHubPath port configuration interfaceNum \<Rightarrow>
          if rootHubPath = [] then base_setup d
          else resolving_setup (interfaceFromRootHubPort readdir rootHubPath port configuration interfaceNum) d
      | SPI bus chipselect \<Rightarrow> resolving_setup (interfaceFromBusCs readdir bus chipselect) d
      | _ \<Rightarrow> base_setup d)"

definition endpointRemoved :: "health_device \<Rightarrow> health_device" where
  "endpointRemoved d =
     (let d = (if inHealthRecoveryMode d then d else cancelRecoveryTimeout d);
          d = d\<lparr>discoveredMctpEids := [], bridgePoolPingFailures := (\<lambda>_. 0)\<rparr>
      in case endpoint_eid_of d of
           None \<Rightarrow> d
         | Some _ \<Rightarrow>
             (let d = d\<lparr>removeMatch := False\<rparr>;
                  d = (if endpoint_no d \<in> subscribed d then emit (NotifyRemoved (endpoint_no d)) d else d)
              in d\<lparr>endpoint_eid_of := None\<rparr>))"

definition onEndpointInterfacesRemoved :: "string list option \<Rightarrow> health_device \<Rightarrow> health_device" where
  "onEndpointInterfacesRemoved removedIfaces d =
     (case removedIfaces of
        None \<Rightarrow> d
      | Some ifaces \<Rightarrow> if mctpdEndpointControlIface \<in> set ifaces then endpointRemoved d else d)"

definition onEndpointMissing :: "nat \<Rightarrow> health_device \<Rightarrow> health_device" where
  "onEndpointMissing ep d =
     (if endpoint_eid_of d = None \<or> endpoint_no d \<noteq> ep then d else endpointRemoved d)"

definition cleanupDiscoveryNotify :: "health_device \<Rightarrow> health_device" where
  "cleanupDiscoveryNotify d =
     d\<lparr>discoveryNeeded := False, discoveryCheckTimer := cancelled (discoveryCheckTimer d)\<rparr>"

definition remove_device :: "bool \<Rightarrow> health_device \<Rightarrow> health_device" where
  "remove_device callback d =
     (let d = cleanupDiscoveryNotify d in
      if endpoint_eid_of d \<noteq> None then async_call (RemoveEndpoint (endpoint_no d) callback) d
      else if callback then emit RemoveCallback d
      else d)"

definition remove_reply :: "bool \<Rightarrow> health_device \<Rightarrow> health_device" where
  "remove_reply callback d = (if callback then emit RemoveCallback d else d)"

section \<open>Discovery notifications\<close>

definition performDiscovery :: "health_device \<Rightarrow> health_device" where
  "performDiscovery d =
     (case endpoint_eid_of d of
        None \<Rightarrow> request_setup d
      | Some eid \<Rightarrow> async_call (GetBridge eid) d)"

definition onDiscoveryNotify :: "health_device \<Rightarrow> health_device" where
  "onDiscoveryNotify d =
     (if endpoint_eid_of d = None then performDiscovery d
      else if discoveryNeeded d then d
      else d\<lparr>discoveryNeeded := True, discoveryCheckTimer := ArmedTimer\<rparr>)"

definition discovery_timeout :: "health_device \<Rightarrow> health_device" where
  "discovery_timeout d = performDiscovery (d\<lparr>discoveryNeeded := False\<rparr>)"

text \<open>The reply of \<open>GetAll\<close> on the bridge interface: success, or an error with the name it may have.\<close>

definition isBridgeInterfaceAbsent :: "string option \<Rightarrow> bool" where
  "isBridgeInterfaceAbsent error_name \<longleftrightarrow>
     error_name = Some ''org.freedesktop.DBus.Error.UnknownInterface'' \<or>
     error_name = Some ''org.freedesktop.DBus.Error.InvalidArgs''"

definition hasBridgeInterface :: "string option option \<Rightarrow> bool option" where
  "hasBridgeInterface reply =
     (case reply of
        None \<Rightarrow> Some True
      | Some error_name \<Rightarrow> if isBridgeInterfaceAbsent error_name then Some False else None)"

definition continue_discovery :: "bool \<Rightarrow> u8 \<Rightarrow> health_device \<Rightarrow> health_device" where
  "continue_discovery bridge eid d =
     (if bridge then async_call (GetRoutingTable (interface_path d) eid) d
      else if requestSetupCallback d then async_call (LearnEndpoint (interface_path d) (physaddr d)) d
      else d)"

definition bridge_reply :: "u8 \<Rightarrow> bool option \<Rightarrow> health_device \<Rightarrow> health_device" where
  "bridge_reply eid bridge d =
     (case bridge of
        None \<Rightarrow> d
      | Some b \<Rightarrow> if endpoint_eid_of d = None then request_setup d else continue_discovery b eid d)"

text \<open>The reply of \<open>LearnEndpoint\<close>, \<open>None\<close> for an error or a malformed one: EID, allocation, object path.\<close>

definition learn_reply :: "(u8 \<times> bool \<times> string) option \<Rightarrow> health_device \<Rightarrow> health_device" where
  "learn_reply reply d =
     (case reply of
        None \<Rightarrow> d
      | Some (eid, allocated, objpath) \<Rightarrow>
          if eid = 0 \<and> \<not> allocated \<and> objpath = [] then request_setup (endpointRemoved d) else d)"

section \<open>The endpoint object\<close>

definition subscribe_endpoint :: "nat \<Rightarrow> bool \<Rightarrow> health_device \<Rightarrow> health_device" where
  "subscribe_endpoint ep ok d =
     (if ok then async_call (GetConnectivity ep) (d\<lparr>subscribed := insert ep (subscribed d)\<rparr>)
      else d\<lparr>subscribed := subscribed d - {ep}\<rparr>)"

definition updateEndpointConnectivity :: "nat \<Rightarrow> string \<Rightarrow> health_device \<Rightarrow> health_device" where
  "updateEndpointConnectivity ep connectivity d =
     (if connectivity = ''Degraded''
      then stopHealthMonitoring (if ep \<in> subscribed d then emit (NotifyDegraded ep) d else d)
      else if connectivity = ''Available''
      then onEndpointEstablished (if ep \<in> subscribed d then emit (NotifyAvailable ep) d else d)
      else d)"

text \<open>The signal that properties of an endpoint changed, \<open>None\<close> when it is malformed.\<close>

definition onMctpEndpointChange :: "nat \<Rightarrow> (string \<times> config_map) option \<Rightarrow> health_device \<Rightarrow> health_device" where
  "onMctpEndpointChange ep msg d =
     (case msg of
        None \<Rightarrow> d
      | Some (iface, changed) \<Rightarrow>
          if iface \<noteq> mctpdEndpointControlIface then d
          else (case map_of changed ''Connectivity'' of
                  Some (VString s) \<Rightarrow> updateEndpointConnectivity ep s d
                | _ \<Rightarrow> d))"

definition onConnectivityReply :: "nat \<Rightarrow> bus_error + string \<Rightarrow> health_device \<Rightarrow> health_device" where
  "onConnectivityReply ep reply d =
     (case reply of
        Inr connectivity \<Rightarrow> updateEndpointConnectivity ep connectivity d
      | Inl ec \<Rightarrow> if ec = BusBadRequest then onEndpointMissing ep d else d)"

end
