(* ===== verification/Mctp_Health_Correct.thy ===== *)
theory Mctp_Health_Correct
  imports Mctp_Health
begin

text \<open>
  Correctness of the life of an MCTP device: the invariant of its members over every order of timers,
  signals and replies, the counting of failed pings, and when the health monitoring goes on.
\<close>

section \<open>Events\<close>

datatype health_event =
    Managed
  | SetupStarted file_system
  | SetupReplied call "(u8 \<times> bool) option"
  | Subscribed nat bool
  | EndpointChanged nat "(string \<times> config_map) option"
  | ConnectivityReplied nat "bus_error + string"
  | InterfacesRemoved "string list option"
  | HealthExpired
  | RecoveryExpired
  | DiscoveryExpired
  | PingReplied u8 "bus_error option"
  | PoolPingReplied u8 string "bus_error option"
  | NetLearnReplied u8 bool
  | DiscoveryNotified
  | BridgeReplied u8 "string option option"
  | LearnReplied string "u8 list" "(u8 \<times> bool \<times> string) option"
  | RemoveStarted bool
  | RemoveReplied nat bool
  | Published u8
  | LoggedOnly call

fun assigns :: "call \<Rightarrow> bool" where
  "assigns (AssignEndpointStatic _ _ _ _ _ _) = True"
| "assigns (AssignEndpoint _ _) = True"
| "assigns _ = False"

fun only_logged :: "call \<Rightarrow> bool" where
  "only_logged (Recover _) = True"
| "only_logged (GetRoutingTable _ _) = True"
| "only_logged _ = False"

text \<open>
  When an event can happen: a timer has a pending wait, a call is outstanding, a match is installed. A
  device is set up after the reactor has taken it over, which happens once.
\<close>

fun possible :: "health_event \<Rightarrow> health_device \<Rightarrow> bool" where
  "possible Managed d \<longleftrightarrow> \<not> requestSetupCallback d"
| "possible (SetupStarted _) d \<longleftrightarrow> requestSetupCallback d"
| "possible (SetupReplied c _) d \<longleftrightarrow> c \<in> set (calls d) \<and> assigns c"
| "possible (Subscribed ep _) d \<longleftrightarrow> 0 < ep \<and> ep \<le> endpoint_no d"
| "possible (EndpointChanged ep _) d \<longleftrightarrow> 0 < ep \<and> ep \<le> endpoint_no d"
| "possible (ConnectivityReplied ep _) d \<longleftrightarrow> GetConnectivity ep \<in> set (calls d)"
| "possible (InterfacesRemoved _) d \<longleftrightarrow> removeMatch d"
| "possible HealthExpired d \<longleftrightarrow> healthTimer d = ArmedTimer"
| "possible RecoveryExpired d \<longleftrightarrow> recoveryTimer d = ArmedTimer"
| "possible DiscoveryExpired d \<longleftrightarrow> discoveryCheckTimer d = ArmedTimer"
| "possible (PingReplied eid _) d \<longleftrightarrow> EndpointPing eid \<in> set (calls d)"
| "possible (PoolPingReplied eid nm _) d \<longleftrightarrow> PoolPing eid nm \<in> set (calls d)"
| "possible (NetLearnReplied eid _) d \<longleftrightarrow> NetLearnEndpoint eid \<in> set (calls d)"
| "possible DiscoveryNotified d \<longleftrightarrow> discoveryNotifyMatch d"
| "possible (BridgeReplied eid _) d \<longleftrightarrow> GetBridge eid \<in> set (calls d)"
| "possible (LearnReplied path addr _) d \<longleftrightarrow> LearnEndpoint path addr \<in> set (calls d)"
| "possible (RemoveStarted _) d \<longleftrightarrow> True"
| "possible (RemoveReplied ep cb) d \<longleftrightarrow> RemoveEndpoint ep cb \<in> set (calls d)"
| "possible (Published _) d \<longleftrightarrow> True"
| "possible (LoggedOnly c) d \<longleftrightarrow> c \<in> set (calls d) \<and> only_logged c"

definition replied :: "call \<Rightarrow> health_device \<Rightarrow> health_device" where
  "replied c d = d\<lparr>calls := remove1 c (calls d)\<rparr>"

fun on_event :: "health_event \<Rightarrow> health_device \<Rightarrow> health_device" where
  "on_event Managed d = (onDiscoveryMatchRule d)\<lparr>requestSetupCallback := True\<rparr>"
| "on_event (SetupStarted readdir) d = setup_device readdir d"
| "on_event (SetupReplied c result) d = setup_reply result (replied c d)"
| "on_event (Subscribed ep ok) d = subscribe_endpoint ep ok d"
| "on_event (EndpointChanged ep msg) d = onMctpEndpointChange ep msg d"
| "on_event (ConnectivityReplied ep reply) d = onConnectivityReply ep reply (replied (GetConnectivity ep) d)"
| "on_event (InterfacesRemoved ifaces) d = onEndpointInterfacesRemoved ifaces d"
| "on_event HealthExpired d = performHealthCheck (d\<lparr>healthTimer := IdleTimer\<rparr>)"
| "on_event RecoveryExpired d = onRecoveryTimeout (d\<lparr>recoveryTimer := IdleTimer\<rparr>)"
| "on_event DiscoveryExpired d = discovery_timeout (d\<lparr>discoveryCheckTimer := IdleTimer\<rparr>)"
| "on_event (PingReplied eid ec) d =
     (case ec of None \<Rightarrow> ping_answered eid | Some e \<Rightarrow> ping_failed e) (replied (EndpointPing eid) d)"
| "on_event (PoolPingReplied eid nm ec) d =
     (case ec of None \<Rightarrow> pool_ping_answered eid | Some e \<Rightarrow> pool_ping_failed eid nm e)
       (replied (PoolPing eid nm) d)"
| "on_event (NetLearnReplied eid ok) d = net_learn_reply eid ok (replied (NetLearnEndpoint eid) d)"
| "on_event DiscoveryNotified d = onDiscoveryNotify d"
| "on_event (BridgeReplied eid reply) d =
     bridge_reply eid (hasBridgeInterface reply) (replied (GetBridge eid) d)"
| "on_event (LearnReplied path addr reply) d = learn_reply reply (replied (LearnEndpoint path addr) d)"
| "on_event (RemoveStarted cb) d = remove_device cb d"
| "on_event (RemoveReplied ep cb) d = remove_reply cb (replied (RemoveEndpoint ep cb) d)"
| "on_event (Published eid) d = markDiscoveredMctpEid eid d"
| "on_event (LoggedOnly c) d = replied c d"

inductive health_step :: "health_device \<Rightarrow> health_device \<Rightarrow> bool" where
  "possible e d \<Longrightarrow> health_step d (on_event e d)"

inductive_cases health_step_cases: "health_step d d'"

text \<open>A sequence of events, each of them possible.\<close>

fun run_device :: "health_event list \<Rightarrow> health_device \<Rightarrow> health_device option" where
  "run_device [] d = Some d"
| "run_device (e # es) d = (if possible e d then run_device es (on_event e d) else None)"

section \<open>The invariant\<close>

definition polled :: "health_device \<Rightarrow> bool" where
  "polled d \<longleftrightarrow> staticEID d \<noteq> None \<and> (\<exists>i. pollingInterval d = Some i \<and> i \<noteq> 0)"

definition resolves :: "health_device \<Rightarrow> bool" where
  "resolves d \<longleftrightarrow> (case dev_transport d of USB _ _ _ _ \<Rightarrow> True | SPI _ _ \<Rightarrow> True | _ \<Rightarrow> False)"

definition pool_of :: "health_device \<Rightarrow> u8 set" where
  "pool_of d = set (pool_eids (bridgePoolStartEid d) (bridgePoolEndEid d) (ignoreEids d))"

definition calls_ok :: "health_device \<Rightarrow> bool" where
  "calls_ok d \<longleftrightarrow>
     (\<forall>c \<in> set (calls d).
        (\<forall>e. c = EndpointPing e \<longrightarrow> polled d \<and> staticEID d = Some e) \<and>
        (\<forall>e s. c = PoolPing e s \<longrightarrow> e \<in> pool_of d) \<and>
        (\<forall>e. c = NetLearnEndpoint e \<longrightarrow> e \<in> pool_of d))"

definition endpoint_ok :: "health_device \<Rightarrow> bool" where
  "endpoint_ok d \<longleftrightarrow>
     (\<forall>e. endpoint_eid_of d = Some e \<longrightarrow> e \<in> set (discoveredMctpEids d)) \<and>
     (removeMatch d \<longleftrightarrow> endpoint_eid_of d \<noteq> None) \<and>
     (endpoint_eid_of d \<noteq> None \<longrightarrow> 0 < endpoint_no d)"

definition pool_ok :: "health_device \<Rightarrow> bool" where
  "pool_ok d \<longleftrightarrow>
     (\<forall>e. bridgePoolPingFailures d e \<le> pingFailureThreshold \<and>
       (bridgePoolPingFailures d e = pingFailureThreshold \<longrightarrow> e \<in> unresponsiveBridgePoolEids d)) \<and>
     unresponsiveBridgePoolEids d \<subseteq> pool_of d"

definition timers_ok :: "health_device \<Rightarrow> bool" where
  "timers_ok d \<longleftrightarrow>
     (healthTimer d \<noteq> NoTimer \<longrightarrow> polled d) \<and>
     (inHealthRecoveryMode d \<and> endpoint_eid_of d \<noteq> None \<longrightarrow> recoveryTimer d = ArmedTimer)"

definition discovery_ok :: "health_device \<Rightarrow> bool" where
  "discovery_ok d \<longleftrightarrow>
     (discoveryNeeded d \<longleftrightarrow> discoveryCheckTimer d = ArmedTimer) \<and>
     (discoveryNotifyMatch d \<longrightarrow> discoveryCheckTimer d \<noteq> NoTimer) \<and>
     (discoveryNotifyMatch d \<longrightarrow> requestSetupCallback d) \<and>
     (discoveryNeeded d \<longrightarrow> 0 < endpoint_no d \<and> requestSetupCallback d) \<and>
     (resolves d \<and> 0 < endpoint_no d \<longrightarrow> interfaceConfirmed d)"

definition device_ok :: "health_device \<Rightarrow> bool" where
  "device_ok d \<longleftrightarrow> calls_ok d \<and> endpoint_ok d \<and> pool_ok d \<and> timers_ok d \<and> discovery_ok d"

section \<open>Every event keeps the invariant\<close>

lemmas bus_defs [simp] = async_call_def emit_def replied_def request_setup_def

lemmas device_defs =
  stopHealthMonitoring_def armRecoveryTimeout_def cancelRecoveryTimeout_def
  onRecoveryTimeout_def recover_eid_def recover_def ping_failed_def ping_answered_def
  pool_ping_failed_def pool_ping_answered_def net_learn_reply_def
  setup_reply_def base_setup_def onDiscoveryMatchRule_def resolving_setup_def
  endpointRemoved_def onEndpointInterfacesRemoved_def onEndpointMissing_def
  cleanupDiscoveryNotify_def remove_device_def remove_reply_def performDiscovery_def onDiscoveryNotify_def
  discovery_timeout_def continue_discovery_def bridge_reply_def learn_reply_def subscribe_endpoint_def
  updateEndpointConnectivity_def Let_def

lemma pool_pings: 
  "\<exists>cs sup. fold ping_pool_eid es d = d\<lparr>calls := calls d @ cs, suppressedHealthCheckEids := sup\<rparr> \<and>
     (\<forall>c \<in> set cs. \<exists>e \<in> set es. \<exists>s. c = PoolPing e s)"
proof (induction es arbitrary: d)
  case Nil
  show ?case
    by (rule exI [of _ "[]"], rule exI [of _ "suppressedHealthCheckEids d"]) simp
next
  case (Cons e es)
  obtain cs1 sup1 where one: "ping_pool_eid e d = d\<lparr>calls := calls d @ cs1, suppressedHealthCheckEids := sup1\<rparr>"
    "\<forall>c \<in> set cs1. \<exists>s. c = PoolPing e s"
  proof (cases "indeterministicPoolSpace d \<and> e \<notin> set (discoveredMctpEids d)")
    case True
    then show ?thesis
      by (intro that [of "suppressedHealthCheckEids d" "[]"]) (simp_all add: ping_pool_eid_def)
  next
    case False
    then show ?thesis
      by (intro that [of "suppress_for_check e (bridgePoolPingFailures d e) (suppressedHealthCheckEids d)"
          "[PoolPing e (case getNameForEid d e of None \<Rightarrow> [] | Some s \<Rightarrow> s)]"])
        (auto simp: ping_pool_eid_def)
  qed
  obtain cs sup where "fold ping_pool_eid es (ping_pool_eid e d) =
      (ping_pool_eid e d)\<lparr>calls := calls (ping_pool_eid e d) @ cs, suppressedHealthCheckEids := sup\<rparr>"
    "\<forall>c \<in> set cs. \<exists>e \<in> set es. \<exists>s. c = PoolPing e s"
    using Cons.IH by blast
  then show ?case
    using one by (intro exI [of _ "cs1 @ cs"] exI [of _ sup]) fastforce
qed

lemma performHealthCheck_cases:
  obtains (idle) "performHealthCheck d = d" "\<not> (staticEID d \<noteq> None \<and> pollingInterval d \<noteq> None \<and> healthTimer d \<noteq> NoTimer)"
  | (check) eid cs sup where "staticEID d = Some eid" "healthTimer d \<noteq> NoTimer"
      "performHealthCheck d = d\<lparr>calls := calls d @ EndpointPing eid # cs, suppressedHealthCheckEids := sup,
         healthTimer := ArmedTimer\<rparr>"
      "\<forall>c \<in> set cs. \<exists>e \<in> pool_of d. \<exists>s. c = PoolPing e s"
proof (cases "staticEID d \<noteq> None \<and> pollingInterval d \<noteq> None \<and> healthTimer d \<noteq> NoTimer")
  case True
  then obtain eid where eid: "staticEID d = Some eid" by auto
  define d1 where "d1 = async_call (EndpointPing eid)
    (d\<lparr>suppressedHealthCheckEids :=
       suppress_for_check eid (consecutivePingFailures d) (suppressedHealthCheckEids d)\<rparr>)"
  obtain cs sup where "fold ping_pool_eid (pool_eids (bridgePoolStartEid d) (bridgePoolEndEid d) (ignoreEids d)) d1
      = d1\<lparr>calls := calls d1 @ cs, suppressedHealthCheckEids := sup\<rparr>"
    "\<forall>c \<in> set cs. \<exists>e \<in> pool_of d. \<exists>s. c = PoolPing e s"
    using pool_pings unfolding pool_of_def by metis
  then show ?thesis
    using True eid by (intro check [of eid sup cs]) (auto simp: performHealthCheck_def d1_def)
next
  case False
  then show ?thesis
    by (intro idle) (auto simp: performHealthCheck_def split: option.splits)
qed

lemma mark_frame [simp]:
  "markDiscoveredMctpEid eid d = d\<lparr>discoveredMctpEids :=
     (if managesEid d eid then List.insert eid (discoveredMctpEids d) else discoveredMctpEids d)\<rparr>"
  by (simp add: markDiscoveredMctpEid_def List.insert_def)


lemma startHealthMonitoring_eq:
  "startHealthMonitoring d =
     (if polled d \<and> (endpoint_eid_of d = None \<or> endpoint_eid_of d = staticEID d)
      then d\<lparr>healthTimer := ArmedTimer\<rparr> else d)"
  by (auto simp: startHealthMonitoring_def polled_def split: option.splits)

definition reset_failures :: "health_device \<Rightarrow> health_device" where
  "reset_failures d =
     d\<lparr>inHealthRecoveryMode := False, recoveryTimer := cancelled (recoveryTimer d), consecutivePingFailures := 0\<rparr>"

lemma established_confirms:
  assumes "interfaceConfirmed x = interfaceConfirmed d" "dev_transport x = dev_transport d"
  shows "(case dev_transport d of USB _ _ _ _ \<Rightarrow> x\<lparr>interfaceConfirmed := True\<rparr>
      | SPI _ _ \<Rightarrow> x\<lparr>interfaceConfirmed := True\<rparr> | _ \<Rightarrow> x) =
    x\<lparr>interfaceConfirmed := resolves d \<or> interfaceConfirmed d\<rparr>"
  using assms by (cases "dev_transport d") (simp_all add: resolves_def assms(1) [symmetric])

lemma onEndpointEstablished_eq:
  "onEndpointEstablished d =
     (startHealthMonitoring (reset_failures d))\<lparr>interfaceConfirmed := resolves d \<or> interfaceConfirmed d\<rparr>"
  unfolding onEndpointEstablished_def Let_def cancelRecoveryTimeout_def reset_failures_def
  by (simp add: established_confirms startHealthMonitoring_eq resolves_def)

lemma setup_device_cases:
  obtains "setup_device readdir d = base_setup d"
  | r where "setup_device readdir d = resolving_setup r d" "resolves d"
proof (cases "dev_transport d")
  case (USB hub port c i)
  then show ?thesis
    by (cases "hub = []") (auto simp: setup_device_def resolves_def intro: that)
qed (auto simp: setup_device_def resolves_def intro: that)

lemma onMctpEndpointChange_cases:
  obtains "onMctpEndpointChange ep msg d = d"
  | s where "onMctpEndpointChange ep msg d = updateEndpointConnectivity ep s d"
proof (cases "onMctpEndpointChange ep msg d = d")
  case False
  then obtain s where "onMctpEndpointChange ep msg d = updateEndpointConnectivity ep s d"
    by (auto simp: onMctpEndpointChange_def split: option.splits variant.splits if_splits)
  then show ?thesis
    by (rule that(2))
qed (rule that)

lemma cancelled_simps [simp]:
  "cancelled t \<noteq> ArmedTimer" "cancelled t = NoTimer \<longleftrightarrow> t = NoTimer" "cancelled t = IdleTimer \<longleftrightarrow> t \<noteq> NoTimer"
  by (cases t; simp)+


lemmas device_eqs = device_defs startHealthMonitoring_eq onEndpointEstablished_eq reset_failures_def

lemmas device_split = option.splits if_splits sum.splits

lemma finaliseEndpoint_eq:
  "finaliseEndpoint eid d =
     (let d = d\<lparr>removeMatch := True, endpoint_eid_of := Some eid, endpoint_no := Suc (endpoint_no d),
                discoveredMctpEids := List.insert eid (discoveredMctpEids d)\<rparr>
      in emit (Added (AddEndpoint (endpoint_no d))) (onEndpointEstablished d))"
  by (simp add: finaliseEndpoint_def Let_def managesEid_def getEid_def)

lemma small_count_cases:
  fixes w :: u8
  assumes "w \<le> 3"
  obtains "w = 0" | "w = 1" | "w = 2" | "w = 3"
proof -
  have "unat w \<le> 3"
    using assms by (simp add: word_le_nat_alt)
  then have "unat w \<in> {0, 1, 2, 3}"
    by auto
  then show ?thesis
    using that by (auto simp: word_unat_eq_iff)
qed

named_theorems device_keeps "operations that keep a part of the invariant"

subsection \<open>The endpoint\<close>

lemma endpoint_ok_onRecoveryTimeout [device_keeps]: "endpoint_ok d \<Longrightarrow> endpoint_ok (onRecoveryTimeout d)"
  by (auto simp: endpoint_ok_def polled_def device_eqs finaliseEndpoint_eq split: device_split)

lemma endpoint_ok_recover [device_keeps]: "endpoint_ok d \<Longrightarrow> endpoint_ok (recover d)"
  by (auto simp: endpoint_ok_def polled_def device_eqs finaliseEndpoint_eq split: device_split)

lemma endpoint_ok_ping_failed [device_keeps]: "endpoint_ok d \<Longrightarrow> endpoint_ok (ping_failed ec d)"
  by (auto simp: endpoint_ok_def polled_def device_eqs finaliseEndpoint_eq split: device_split)

lemma endpoint_ok_ping_answered [device_keeps]: "endpoint_ok d \<Longrightarrow> endpoint_ok (ping_answered e d)"
  by (auto simp: endpoint_ok_def polled_def device_eqs finaliseEndpoint_eq split: device_split)

lemma endpoint_ok_pool_ping_failed [device_keeps]: "endpoint_ok d \<Longrightarrow> endpoint_ok (pool_ping_failed e nm ec d)"
  by (auto simp: endpoint_ok_def polled_def device_eqs finaliseEndpoint_eq split: device_split)

lemma endpoint_ok_pool_ping_answered [device_keeps]: "endpoint_ok d \<Longrightarrow> endpoint_ok (pool_ping_answered e d)"
  by (auto simp: endpoint_ok_def polled_def device_eqs finaliseEndpoint_eq split: device_split)

lemma endpoint_ok_net_learn_reply [device_keeps]: "endpoint_ok d \<Longrightarrow> endpoint_ok (net_learn_reply e ok d)"
  by (auto simp: endpoint_ok_def polled_def device_eqs finaliseEndpoint_eq split: device_split)

lemma endpoint_ok_setup_reply [device_keeps]: "endpoint_ok d \<Longrightarrow> endpoint_ok (setup_reply result d)"
  by (auto simp: endpoint_ok_def polled_def device_eqs finaliseEndpoint_eq split: device_split)

lemma endpoint_ok_base_setup [device_keeps]: "endpoint_ok d \<Longrightarrow> endpoint_ok (base_setup d)"
  by (auto simp: endpoint_ok_def polled_def device_eqs finaliseEndpoint_eq split: device_split)

lemma endpoint_ok_onDiscoveryMatchRule [device_keeps]: "endpoint_ok d \<Longrightarrow> endpoint_ok (onDiscoveryMatchRule d)"
  by (auto simp: endpoint_ok_def polled_def device_eqs finaliseEndpoint_eq split: device_split)

lemma endpoint_ok_resolving_setup [device_keeps]: "endpoint_ok d \<Longrightarrow> endpoint_ok (resolving_setup r d)"
  by (auto simp: endpoint_ok_def polled_def device_eqs finaliseEndpoint_eq split: device_split)

lemma endpoint_ok_endpointRemoved [device_keeps]: "endpoint_ok d \<Longrightarrow> endpoint_ok (endpointRemoved d)"
  by (auto simp: endpoint_ok_def polled_def device_eqs finaliseEndpoint_eq split: device_split)

lemma endpoint_ok_onEndpointMissing [device_keeps]: "endpoint_ok d \<Longrightarrow> endpoint_ok (onEndpointMissing ep d)"
  by (auto simp: endpoint_ok_def polled_def device_eqs finaliseEndpoint_eq split: device_split)

lemma endpoint_ok_remove_device [device_keeps]: "endpoint_ok d \<Longrightarrow> endpoint_ok (remove_device cb d)"
  by (auto simp: endpoint_ok_def polled_def device_eqs finaliseEndpoint_eq split: device_split)

lemma endpoint_ok_discovery_timeout [device_keeps]: "endpoint_ok d \<Longrightarrow> endpoint_ok (discovery_timeout d)"
  by (auto simp: endpoint_ok_def polled_def device_eqs finaliseEndpoint_eq split: device_split)

lemma endpoint_ok_onDiscoveryNotify [device_keeps]: "endpoint_ok d \<Longrightarrow> endpoint_ok (onDiscoveryNotify d)"
  by (auto simp: endpoint_ok_def polled_def device_eqs finaliseEndpoint_eq split: device_split)

lemma endpoint_ok_bridge_reply [device_keeps]: "endpoint_ok d \<Longrightarrow> endpoint_ok (bridge_reply e b d)"
  by (auto simp: endpoint_ok_def polled_def device_eqs finaliseEndpoint_eq split: device_split)

lemma endpoint_ok_learn_reply [device_keeps]: "endpoint_ok d \<Longrightarrow> endpoint_ok (learn_reply reply d)"
  by (auto simp: endpoint_ok_def polled_def device_eqs finaliseEndpoint_eq split: device_split)

lemma endpoint_ok_subscribe_endpoint [device_keeps]: "endpoint_ok d \<Longrightarrow> endpoint_ok (subscribe_endpoint ep ok d)"
  by (auto simp: endpoint_ok_def polled_def device_eqs finaliseEndpoint_eq split: device_split)

lemma endpoint_ok_updateEndpointConnectivity [device_keeps]: "endpoint_ok d \<Longrightarrow> endpoint_ok (updateEndpointConnectivity ep s d)"
  by (auto simp: endpoint_ok_def polled_def device_eqs finaliseEndpoint_eq split: device_split)

subsection \<open>Outstanding calls\<close>

lemma calls_ok_onRecoveryTimeout [device_keeps]: "calls_ok d \<Longrightarrow> calls_ok (onRecoveryTimeout d)"
  by (auto simp: calls_ok_def polled_def pool_of_def device_eqs finaliseEndpoint_eq split: device_split)

lemma calls_ok_recover [device_keeps]: "calls_ok d \<Longrightarrow> calls_ok (recover d)"
  by (auto simp: calls_ok_def polled_def pool_of_def device_eqs finaliseEndpoint_eq split: device_split)

lemma calls_ok_ping_failed [device_keeps]: "calls_ok d \<Longrightarrow> calls_ok (ping_failed ec d)"
  by (auto simp: calls_ok_def polled_def pool_of_def device_eqs finaliseEndpoint_eq split: device_split)

lemma calls_ok_ping_answered [device_keeps]: "calls_ok d \<Longrightarrow> calls_ok (ping_answered e d)"
  by (auto simp: calls_ok_def polled_def pool_of_def device_eqs finaliseEndpoint_eq split: device_split)

lemma calls_ok_pool_ping_failed [device_keeps]: "calls_ok d \<Longrightarrow> calls_ok (pool_ping_failed e nm ec d)"
  by (auto simp: calls_ok_def polled_def pool_of_def device_eqs finaliseEndpoint_eq split: device_split)

lemma calls_ok_pool_ping_answered [device_keeps]: "calls_ok d \<Longrightarrow> e \<in> pool_of d \<Longrightarrow> calls_ok (pool_ping_answered e d)"
  by (auto simp: calls_ok_def polled_def pool_of_def device_eqs finaliseEndpoint_eq split: device_split)

lemma calls_ok_net_learn_reply [device_keeps]: "calls_ok d \<Longrightarrow> calls_ok (net_learn_reply e ok d)"
  by (auto simp: calls_ok_def polled_def pool_of_def device_eqs finaliseEndpoint_eq split: device_split)

lemma calls_ok_setup_reply [device_keeps]: "calls_ok d \<Longrightarrow> calls_ok (setup_reply result d)"
  by (auto simp: calls_ok_def polled_def pool_of_def device_eqs finaliseEndpoint_eq split: device_split)

lemma calls_ok_base_setup [device_keeps]: "calls_ok d \<Longrightarrow> calls_ok (base_setup d)"
  by (auto simp: calls_ok_def polled_def pool_of_def device_eqs finaliseEndpoint_eq split: device_split)

lemma calls_ok_onDiscoveryMatchRule [device_keeps]: "calls_ok d \<Longrightarrow> calls_ok (onDiscoveryMatchRule d)"
  by (auto simp: calls_ok_def polled_def pool_of_def device_eqs finaliseEndpoint_eq split: device_split)

lemma calls_ok_resolving_setup [device_keeps]: "calls_ok d \<Longrightarrow> calls_ok (resolving_setup r d)"
  by (auto simp: calls_ok_def polled_def pool_of_def device_eqs finaliseEndpoint_eq split: device_split)

lemma calls_ok_endpointRemoved [device_keeps]: "calls_ok d \<Longrightarrow> calls_ok (endpointRemoved d)"
  by (auto simp: calls_ok_def polled_def pool_of_def device_eqs finaliseEndpoint_eq split: device_split)

lemma calls_ok_onEndpointMissing [device_keeps]: "calls_ok d \<Longrightarrow> calls_ok (onEndpointMissing ep d)"
  by (auto simp: calls_ok_def polled_def pool_of_def device_eqs finaliseEndpoint_eq split: device_split)

lemma calls_ok_remove_device [device_keeps]: "calls_ok d \<Longrightarrow> calls_ok (remove_device cb d)"
  by (auto simp: calls_ok_def polled_def pool_of_def device_eqs finaliseEndpoint_eq split: device_split)

lemma calls_ok_discovery_timeout [device_keeps]: "calls_ok d \<Longrightarrow> calls_ok (discovery_timeout d)"
  by (auto simp: calls_ok_def polled_def pool_of_def device_eqs finaliseEndpoint_eq split: device_split)

lemma calls_ok_onDiscoveryNotify [device_keeps]: "calls_ok d \<Longrightarrow> calls_ok (onDiscoveryNotify d)"
  by (auto simp: calls_ok_def polled_def pool_of_def device_eqs finaliseEndpoint_eq split: device_split)

lemma calls_ok_bridge_reply [device_keeps]: "calls_ok d \<Longrightarrow> calls_ok (bridge_reply e b d)"
  by (auto simp: calls_ok_def polled_def pool_of_def device_eqs finaliseEndpoint_eq split: device_split)

lemma calls_ok_learn_reply [device_keeps]: "calls_ok d \<Longrightarrow> calls_ok (learn_reply reply d)"
  by (auto simp: calls_ok_def polled_def pool_of_def device_eqs finaliseEndpoint_eq split: device_split)

lemma calls_ok_subscribe_endpoint [device_keeps]: "calls_ok d \<Longrightarrow> calls_ok (subscribe_endpoint ep ok d)"
  by (auto simp: calls_ok_def polled_def pool_of_def device_eqs finaliseEndpoint_eq split: device_split)

lemma calls_ok_updateEndpointConnectivity [device_keeps]: "calls_ok d \<Longrightarrow> calls_ok (updateEndpointConnectivity ep s d)"
  by (auto simp: calls_ok_def polled_def pool_of_def device_eqs finaliseEndpoint_eq split: device_split)

subsection \<open>The bridge pool\<close>

lemma pool_ok_onRecoveryTimeout [device_keeps]: "pool_ok d \<Longrightarrow> pool_ok (onRecoveryTimeout d)"
  by (auto simp: pool_ok_def pool_of_def pingFailureThreshold_def device_eqs finaliseEndpoint_eq split: device_split)

lemma pool_ok_recover [device_keeps]: "pool_ok d \<Longrightarrow> pool_ok (recover d)"
  by (auto simp: pool_ok_def pool_of_def pingFailureThreshold_def device_eqs finaliseEndpoint_eq split: device_split)

lemma pool_ok_ping_failed [device_keeps]: "pool_ok d \<Longrightarrow> pool_ok (ping_failed ec d)"
  by (auto simp: pool_ok_def pool_of_def pingFailureThreshold_def device_eqs finaliseEndpoint_eq split: device_split)

lemma pool_ok_ping_answered [device_keeps]: "pool_ok d \<Longrightarrow> pool_ok (ping_answered e d)"
  by (auto simp: pool_ok_def pool_of_def pingFailureThreshold_def device_eqs finaliseEndpoint_eq split: device_split)

lemma pool_ok_pool_ping_failed [device_keeps]:
  assumes "pool_ok d" "e \<in> pool_of d"
  shows "pool_ok (pool_ping_failed e nm ec d)"
proof -
  have "bridgePoolPingFailures d e \<le> 3"
    using assms by (simp add: pool_ok_def pingFailureThreshold_def)
  then show ?thesis
    by (rule small_count_cases) (use assms in \<open>auto simp: pool_ok_def pool_of_def pingFailureThreshold_def device_eqs\<close>)
qed

lemma pool_ok_pool_ping_answered [device_keeps]: "pool_ok d \<Longrightarrow> pool_ok (pool_ping_answered e d)"
  by (auto simp: pool_ok_def pool_of_def pingFailureThreshold_def device_eqs finaliseEndpoint_eq split: device_split)

lemma pool_ok_net_learn_reply [device_keeps]: "pool_ok d \<Longrightarrow> e \<in> pool_of d \<Longrightarrow> pool_ok (net_learn_reply e ok d)"
  by (auto simp: pool_ok_def pool_of_def pingFailureThreshold_def device_eqs finaliseEndpoint_eq split: device_split)

lemma pool_ok_setup_reply [device_keeps]: "pool_ok d \<Longrightarrow> pool_ok (setup_reply result d)"
  by (auto simp: pool_ok_def pool_of_def pingFailureThreshold_def device_eqs finaliseEndpoint_eq split: device_split)

lemma pool_ok_base_setup [device_keeps]: "pool_ok d \<Longrightarrow> pool_ok (base_setup d)"
  by (auto simp: pool_ok_def pool_of_def pingFailureThreshold_def device_eqs finaliseEndpoint_eq split: device_split)

lemma pool_ok_onDiscoveryMatchRule [device_keeps]: "pool_ok d \<Longrightarrow> pool_ok (onDiscoveryMatchRule d)"
  by (auto simp: pool_ok_def pool_of_def pingFailureThreshold_def device_eqs finaliseEndpoint_eq split: device_split)

lemma pool_ok_resolving_setup [device_keeps]: "pool_ok d \<Longrightarrow> pool_ok (resolving_setup r d)"
  by (auto simp: pool_ok_def pool_of_def pingFailureThreshold_def device_eqs finaliseEndpoint_eq split: device_split)

lemma pool_ok_endpointRemoved [device_keeps]: "pool_ok d \<Longrightarrow> pool_ok (endpointRemoved d)"
  by (auto simp: pool_ok_def pool_of_def pingFailureThreshold_def device_eqs finaliseEndpoint_eq split: device_split)

lemma pool_ok_onEndpointMissing [device_keeps]: "pool_ok d \<Longrightarrow> pool_ok (onEndpointMissing ep d)"
  by (auto simp: pool_ok_def pool_of_def pingFailureThreshold_def device_eqs finaliseEndpoint_eq split: device_split)

lemma pool_ok_remove_device [device_keeps]: "pool_ok d \<Longrightarrow> pool_ok (remove_device cb d)"
  by (auto simp: pool_ok_def pool_of_def pingFailureThreshold_def device_eqs finaliseEndpoint_eq split: device_split)

lemma pool_ok_discovery_timeout [device_keeps]: "pool_ok d \<Longrightarrow> pool_ok (discovery_timeout d)"
  by (auto simp: pool_ok_def pool_of_def pingFailureThreshold_def device_eqs finaliseEndpoint_eq split: device_split)

lemma pool_ok_onDiscoveryNotify [device_keeps]: "pool_ok d \<Longrightarrow> pool_ok (onDiscoveryNotify d)"
  by (auto simp: pool_ok_def pool_of_def pingFailureThreshold_def device_eqs finaliseEndpoint_eq split: device_split)

lemma pool_ok_bridge_reply [device_keeps]: "pool_ok d \<Longrightarrow> pool_ok (bridge_reply e b d)"
  by (auto simp: pool_ok_def pool_of_def pingFailureThreshold_def device_eqs finaliseEndpoint_eq split: device_split)

lemma pool_ok_learn_reply [device_keeps]: "pool_ok d \<Longrightarrow> pool_ok (learn_reply reply d)"
  by (auto simp: pool_ok_def pool_of_def pingFailureThreshold_def device_eqs finaliseEndpoint_eq split: device_split)

lemma pool_ok_subscribe_endpoint [device_keeps]: "pool_ok d \<Longrightarrow> pool_ok (subscribe_endpoint ep ok d)"
  by (auto simp: pool_ok_def pool_of_def pingFailureThreshold_def device_eqs finaliseEndpoint_eq split: device_split)

lemma pool_ok_updateEndpointConnectivity [device_keeps]: "pool_ok d \<Longrightarrow> pool_ok (updateEndpointConnectivity ep s d)"
  by (auto simp: pool_ok_def pool_of_def pingFailureThreshold_def device_eqs finaliseEndpoint_eq split: device_split)

subsection \<open>Timers\<close>

lemma timers_ok_onRecoveryTimeout [device_keeps]: "timers_ok d \<Longrightarrow> timers_ok (onRecoveryTimeout d)"
  by (auto simp: timers_ok_def polled_def device_eqs finaliseEndpoint_eq split: device_split)

lemma timers_ok_recover [device_keeps]: "timers_ok d \<Longrightarrow> polled d \<Longrightarrow> timers_ok (recover d)"
  by (auto simp: timers_ok_def polled_def device_eqs finaliseEndpoint_eq split: device_split)

lemma timers_ok_ping_failed [device_keeps]: "timers_ok d \<Longrightarrow> polled d \<Longrightarrow> timers_ok (ping_failed ec d)"
  by (auto simp: timers_ok_def polled_def device_eqs finaliseEndpoint_eq split: device_split)

lemma timers_ok_ping_answered [device_keeps]: "timers_ok d \<Longrightarrow> timers_ok (ping_answered e d)"
  by (auto simp: timers_ok_def polled_def device_eqs finaliseEndpoint_eq split: device_split)

lemma timers_ok_pool_ping_failed [device_keeps]: "timers_ok d \<Longrightarrow> timers_ok (pool_ping_failed e nm ec d)"
  by (auto simp: timers_ok_def polled_def device_eqs finaliseEndpoint_eq split: device_split)

lemma timers_ok_pool_ping_answered [device_keeps]: "timers_ok d \<Longrightarrow> timers_ok (pool_ping_answered e d)"
  by (auto simp: timers_ok_def polled_def device_eqs finaliseEndpoint_eq split: device_split)

lemma timers_ok_net_learn_reply [device_keeps]: "timers_ok d \<Longrightarrow> timers_ok (net_learn_reply e ok d)"
  by (auto simp: timers_ok_def polled_def device_eqs finaliseEndpoint_eq split: device_split)

lemma timers_ok_setup_reply [device_keeps]: "timers_ok d \<Longrightarrow> timers_ok (setup_reply result d)"
  by (auto simp: timers_ok_def polled_def device_eqs finaliseEndpoint_eq split: device_split)

lemma timers_ok_base_setup [device_keeps]: "timers_ok d \<Longrightarrow> timers_ok (base_setup d)"
  by (auto simp: timers_ok_def polled_def device_eqs finaliseEndpoint_eq split: device_split)

lemma timers_ok_onDiscoveryMatchRule [device_keeps]: "timers_ok d \<Longrightarrow> timers_ok (onDiscoveryMatchRule d)"
  by (auto simp: timers_ok_def polled_def device_eqs finaliseEndpoint_eq split: device_split)

lemma timers_ok_resolving_setup [device_keeps]: "timers_ok d \<Longrightarrow> timers_ok (resolving_setup r d)"
  by (auto simp: timers_ok_def polled_def device_eqs finaliseEndpoint_eq split: device_split)

lemma timers_ok_endpointRemoved [device_keeps]: "timers_ok d \<Longrightarrow> timers_ok (endpointRemoved d)"
  by (auto simp: timers_ok_def polled_def device_eqs finaliseEndpoint_eq split: device_split)

lemma timers_ok_onEndpointMissing [device_keeps]: "timers_ok d \<Longrightarrow> timers_ok (onEndpointMissing ep d)"
  by (auto simp: timers_ok_def polled_def device_eqs finaliseEndpoint_eq split: device_split)

lemma timers_ok_remove_device [device_keeps]: "timers_ok d \<Longrightarrow> timers_ok (remove_device cb d)"
  by (auto simp: timers_ok_def polled_def device_eqs finaliseEndpoint_eq split: device_split)

lemma timers_ok_discovery_timeout [device_keeps]: "timers_ok d \<Longrightarrow> timers_ok (discovery_timeout d)"
  by (auto simp: timers_ok_def polled_def device_eqs finaliseEndpoint_eq split: device_split)

lemma timers_ok_onDiscoveryNotify [device_keeps]: "timers_ok d \<Longrightarrow> timers_ok (onDiscoveryNotify d)"
  by (auto simp: timers_ok_def polled_def device_eqs finaliseEndpoint_eq split: device_split)

lemma timers_ok_bridge_reply [device_keeps]: "timers_ok d \<Longrightarrow> timers_ok (bridge_reply e b d)"
  by (auto simp: timers_ok_def polled_def device_eqs finaliseEndpoint_eq split: device_split)

lemma timers_ok_learn_reply [device_keeps]: "timers_ok d \<Longrightarrow> timers_ok (learn_reply reply d)"
  by (auto simp: timers_ok_def polled_def device_eqs finaliseEndpoint_eq split: device_split)

lemma timers_ok_subscribe_endpoint [device_keeps]: "timers_ok d \<Longrightarrow> timers_ok (subscribe_endpoint ep ok d)"
  by (auto simp: timers_ok_def polled_def device_eqs finaliseEndpoint_eq split: device_split)

lemma timers_ok_updateEndpointConnectivity [device_keeps]: "timers_ok d \<Longrightarrow> timers_ok (updateEndpointConnectivity ep s d)"
  by (auto simp: timers_ok_def polled_def device_eqs finaliseEndpoint_eq split: device_split)

subsection \<open>Discovery\<close>

lemma discovery_ok_onRecoveryTimeout [device_keeps]: "discovery_ok d \<Longrightarrow> discovery_ok (onRecoveryTimeout d)"
  by (auto simp: discovery_ok_def resolves_def endpoint_ok_def device_eqs finaliseEndpoint_eq split: device_split)

lemma discovery_ok_recover [device_keeps]: "discovery_ok d \<Longrightarrow> discovery_ok (recover d)"
  by (auto simp: discovery_ok_def resolves_def endpoint_ok_def device_eqs finaliseEndpoint_eq split: device_split)

lemma discovery_ok_ping_failed [device_keeps]: "discovery_ok d \<Longrightarrow> discovery_ok (ping_failed ec d)"
  by (auto simp: discovery_ok_def resolves_def endpoint_ok_def device_eqs finaliseEndpoint_eq split: device_split)

lemma discovery_ok_ping_answered [device_keeps]: "discovery_ok d \<Longrightarrow> discovery_ok (ping_answered e d)"
  by (auto simp: discovery_ok_def resolves_def endpoint_ok_def device_eqs finaliseEndpoint_eq split: device_split)

lemma discovery_ok_pool_ping_failed [device_keeps]: "discovery_ok d \<Longrightarrow> discovery_ok (pool_ping_failed e nm ec d)"
  by (auto simp: discovery_ok_def resolves_def endpoint_ok_def device_eqs finaliseEndpoint_eq split: device_split)

lemma discovery_ok_pool_ping_answered [device_keeps]: "discovery_ok d \<Longrightarrow> discovery_ok (pool_ping_answered e d)"
  by (auto simp: discovery_ok_def resolves_def endpoint_ok_def device_eqs finaliseEndpoint_eq split: device_split)

lemma discovery_ok_net_learn_reply [device_keeps]: "discovery_ok d \<Longrightarrow> discovery_ok (net_learn_reply e ok d)"
  by (auto simp: discovery_ok_def resolves_def endpoint_ok_def device_eqs finaliseEndpoint_eq split: device_split)

lemma discovery_ok_setup_reply [device_keeps]: "discovery_ok d \<Longrightarrow> discovery_ok (setup_reply result d)"
  by (auto simp: discovery_ok_def resolves_def endpoint_ok_def device_eqs finaliseEndpoint_eq split: device_split)

lemma discovery_ok_base_setup [device_keeps]: "discovery_ok d \<Longrightarrow> discovery_ok (base_setup d)"
  by (auto simp: discovery_ok_def resolves_def endpoint_ok_def device_eqs finaliseEndpoint_eq split: device_split)

lemma discovery_ok_onDiscoveryMatchRule [device_keeps]: "discovery_ok d \<Longrightarrow> \<not> discoveryNeeded d \<Longrightarrow> requestSetupCallback d \<Longrightarrow> discovery_ok (onDiscoveryMatchRule d)"
  by (auto simp: discovery_ok_def resolves_def endpoint_ok_def device_eqs finaliseEndpoint_eq split: device_split)

lemma discovery_ok_resolving_setup [device_keeps]: "discovery_ok d \<Longrightarrow> resolves d \<Longrightarrow> requestSetupCallback d \<Longrightarrow> discovery_ok (resolving_setup r d)"
  by (auto simp: discovery_ok_def resolves_def endpoint_ok_def device_eqs finaliseEndpoint_eq split: device_split)

lemma discovery_ok_endpointRemoved [device_keeps]: "discovery_ok d \<Longrightarrow> discovery_ok (endpointRemoved d)"
  by (auto simp: discovery_ok_def resolves_def endpoint_ok_def device_eqs finaliseEndpoint_eq split: device_split)

lemma discovery_ok_onEndpointMissing [device_keeps]: "discovery_ok d \<Longrightarrow> discovery_ok (onEndpointMissing ep d)"
  by (auto simp: discovery_ok_def resolves_def endpoint_ok_def device_eqs finaliseEndpoint_eq split: device_split)

lemma discovery_ok_remove_device [device_keeps]: "discovery_ok d \<Longrightarrow> discovery_ok (remove_device cb d)"
  by (auto simp: discovery_ok_def resolves_def endpoint_ok_def device_eqs finaliseEndpoint_eq split: device_split)

lemma discovery_ok_onDiscoveryNotify [device_keeps]: "discovery_ok d \<Longrightarrow> discoveryNotifyMatch d \<Longrightarrow> endpoint_ok d \<Longrightarrow> discovery_ok (onDiscoveryNotify d)"
  by (auto simp: discovery_ok_def resolves_def endpoint_ok_def device_eqs finaliseEndpoint_eq split: device_split)

lemma discovery_ok_bridge_reply [device_keeps]: "discovery_ok d \<Longrightarrow> discovery_ok (bridge_reply e b d)"
  by (auto simp: discovery_ok_def resolves_def endpoint_ok_def device_eqs finaliseEndpoint_eq split: device_split)

lemma discovery_ok_learn_reply [device_keeps]: "discovery_ok d \<Longrightarrow> discovery_ok (learn_reply reply d)"
  by (auto simp: discovery_ok_def resolves_def endpoint_ok_def device_eqs finaliseEndpoint_eq split: device_split)

lemma discovery_ok_subscribe_endpoint [device_keeps]: "discovery_ok d \<Longrightarrow> discovery_ok (subscribe_endpoint ep ok d)"
  by (auto simp: discovery_ok_def resolves_def endpoint_ok_def device_eqs finaliseEndpoint_eq split: device_split)

lemma discovery_ok_updateEndpointConnectivity [device_keeps]: "discovery_ok d \<Longrightarrow> discovery_ok (updateEndpointConnectivity ep s d)"
  by (auto simp: discovery_ok_def resolves_def endpoint_ok_def device_eqs finaliseEndpoint_eq split: device_split)

subsection \<open>Events\<close>

lemma replied_keeps [device_keeps]:
  "endpoint_ok d \<Longrightarrow> endpoint_ok (replied c d)" "calls_ok d \<Longrightarrow> calls_ok (replied c d)"
  "pool_ok d \<Longrightarrow> pool_ok (replied c d)" "timers_ok d \<Longrightarrow> timers_ok (replied c d)"
  "discovery_ok d \<Longrightarrow> discovery_ok (replied c d)"
  by (auto simp: endpoint_ok_def calls_ok_def pool_ok_def timers_ok_def discovery_ok_def polled_def pool_of_def
      resolves_def dest: notin_set_remove1)

lemma mark_keeps [device_keeps]:
  "endpoint_ok d \<Longrightarrow> endpoint_ok (markDiscoveredMctpEid e d)" "calls_ok d \<Longrightarrow> calls_ok (markDiscoveredMctpEid e d)"
  "pool_ok d \<Longrightarrow> pool_ok (markDiscoveredMctpEid e d)" "timers_ok d \<Longrightarrow> timers_ok (markDiscoveredMctpEid e d)"
  "discovery_ok d \<Longrightarrow> discovery_ok (markDiscoveredMctpEid e d)"
  by (auto simp: endpoint_ok_def calls_ok_def pool_ok_def timers_ok_def discovery_ok_def polled_def pool_of_def resolves_def)

lemma connectivity_keeps:
  assumes "P d" "\<And>s. P (updateEndpointConnectivity ep s d)" "P (onEndpointMissing ep d)"
  shows "P (onMctpEndpointChange ep msg d)" "P (onConnectivityReply ep reply d)"
proof -
  show "P (onMctpEndpointChange ep msg d)"
    using assms by (cases rule: onMctpEndpointChange_cases [of ep msg d]) simp_all
  show "P (onConnectivityReply ep reply d)"
    using assms by (cases reply) (simp_all add: onConnectivityReply_def)
qed

lemma setup_keeps:
  assumes "P (base_setup d)" "\<And>r. resolves d \<Longrightarrow> P (resolving_setup r d)"
  shows "P (setup_device readdir d)"
  using assms by (cases rule: setup_device_cases [of readdir d]) auto

lemma check_keeps [device_keeps]:
  "endpoint_ok d \<Longrightarrow> endpoint_ok (performHealthCheck d)"
  "pool_ok d \<Longrightarrow> pool_ok (performHealthCheck d)"
  "discovery_ok d \<Longrightarrow> discovery_ok (performHealthCheck d)"
  "timers_ok d \<Longrightarrow> timers_ok (performHealthCheck d)"
  "calls_ok d \<Longrightarrow> polled d \<Longrightarrow> calls_ok (performHealthCheck d)"
  by (cases rule: performHealthCheck_cases [of d];
      force simp: endpoint_ok_def calls_ok_def pool_ok_def timers_ok_def discovery_ok_def polled_def pool_of_def resolves_def)+

lemma inert_keeps [device_keeps]:
  "endpoint_ok d \<Longrightarrow> endpoint_ok (remove_reply cb d)" "calls_ok d \<Longrightarrow> calls_ok (remove_reply cb d)"
  "pool_ok d \<Longrightarrow> pool_ok (remove_reply cb d)" "timers_ok d \<Longrightarrow> timers_ok (remove_reply cb d)"
  "discovery_ok d \<Longrightarrow> discovery_ok (remove_reply cb d)"
  by (auto simp: endpoint_ok_def calls_ok_def pool_ok_def timers_ok_def discovery_ok_def polled_def pool_of_def
      resolves_def remove_reply_def)

lemmas part_defs = endpoint_ok_def calls_ok_def pool_ok_def timers_ok_def discovery_ok_def polled_def pool_of_def
  resolves_def

lemma managed_ok: "device_ok d \<Longrightarrow> possible Managed d \<Longrightarrow> device_ok (on_event Managed d)"
  by (auto simp: device_ok_def part_defs onDiscoveryMatchRule_def)

lemma health_ok:
  assumes "device_ok d" "healthTimer d = ArmedTimer"
  shows "device_ok (on_event HealthExpired d)"
proof -
  have "polled d"
    using assms by (simp add: device_ok_def timers_ok_def)
  then have "device_ok (d\<lparr>healthTimer := IdleTimer\<rparr>)" "polled (d\<lparr>healthTimer := IdleTimer\<rparr>)"
    using assms by (auto simp: device_ok_def part_defs)
  then show ?thesis
    by (simp add: device_ok_def device_keeps)
qed

lemma recovery_ok:
  assumes "device_ok d" "recoveryTimer d = ArmedTimer"
  shows "device_ok (on_event RecoveryExpired d)"
proof -
  have "calls_ok (d\<lparr>recoveryTimer := IdleTimer\<rparr>)" "endpoint_ok (d\<lparr>recoveryTimer := IdleTimer\<rparr>)"
    "pool_ok (d\<lparr>recoveryTimer := IdleTimer\<rparr>)" "discovery_ok (d\<lparr>recoveryTimer := IdleTimer\<rparr>)"
    using assms by (auto simp: device_ok_def part_defs)
  moreover have "timers_ok (onRecoveryTimeout (d\<lparr>recoveryTimer := IdleTimer\<rparr>))"
    using assms by (auto simp: device_ok_def timers_ok_def polled_def device_eqs)
  ultimately show ?thesis
    by (simp add: device_ok_def device_keeps)
qed

lemma discovery_expired_ok:
  assumes "device_ok d" "discoveryCheckTimer d = ArmedTimer"
  shows "device_ok (on_event DiscoveryExpired d)"
proof -
  have "calls_ok (d\<lparr>discoveryCheckTimer := IdleTimer\<rparr>)" "endpoint_ok (d\<lparr>discoveryCheckTimer := IdleTimer\<rparr>)"
    "pool_ok (d\<lparr>discoveryCheckTimer := IdleTimer\<rparr>)" "timers_ok (d\<lparr>discoveryCheckTimer := IdleTimer\<rparr>)"
    using assms by (auto simp: device_ok_def part_defs)
  moreover have "discovery_ok (discovery_timeout (d\<lparr>discoveryCheckTimer := IdleTimer\<rparr>))"
    using assms by (auto simp: device_ok_def discovery_ok_def resolves_def device_eqs split: device_split)
  ultimately show ?thesis
    by (simp add: device_ok_def device_keeps)
qed

lemma ping_ok:
  assumes "device_ok d" "EndpointPing eid \<in> set (calls d)"
  shows "device_ok (on_event (PingReplied eid ec) d)"
proof -
  have "polled (replied c d)" for c
    using assms by (auto simp: device_ok_def calls_ok_def polled_def)
  then show ?thesis
    using assms by (cases ec) (simp_all add: device_ok_def device_keeps del: bus_defs)
qed

lemma pool_ping_ok:
  assumes "device_ok d" "PoolPing eid nm \<in> set (calls d) \<or> NetLearnEndpoint eid \<in> set (calls d)"
  shows "device_ok (on_event (PoolPingReplied eid nm ec) d)" "device_ok (on_event (NetLearnReplied eid ok) d)"
proof -
  have "eid \<in> pool_of (replied c d)" for c
    using assms by (auto simp: device_ok_def calls_ok_def pool_of_def)
  then show "device_ok (on_event (PoolPingReplied eid nm ec) d)" "device_ok (on_event (NetLearnReplied eid ok) d)"
    using assms by (cases ec; simp add: device_ok_def device_keeps del: bus_defs)+
qed

lemma setup_ok:
  assumes "device_ok d" "requestSetupCallback d"
  shows "device_ok (setup_device readdir d)"
proof (rule setup_keeps)
  show "device_ok (base_setup d)"
    using assms by (simp add: device_ok_def device_keeps)
  show "device_ok (resolving_setup r d)" if "resolves d" for r
    using assms that by (simp add: device_ok_def device_keeps)
qed

lemma connectivity_ok:
  assumes "device_ok d"
  shows "device_ok (onMctpEndpointChange ep msg d)" "device_ok (onConnectivityReply ep reply d)"
proof -
  have "device_ok (updateEndpointConnectivity ep s d)" "device_ok (onEndpointMissing ep d)" for s
    using assms by (simp_all add: device_ok_def device_keeps)
  then show "device_ok (onMctpEndpointChange ep msg d)" "device_ok (onConnectivityReply ep reply d)"
    using assms by (simp_all add: connectivity_keeps)
qed

lemma device_ok_event:
  assumes "device_ok d" "possible e d"
  shows "device_ok (on_event e d)"
proof (cases e)
  case Managed
  with assms show ?thesis using managed_ok by simp
next
  case (SetupStarted readdir)
  with assms show ?thesis using setup_ok by simp
next
  case (EndpointChanged ep msg)
  with assms show ?thesis using connectivity_ok by simp
next
  case (ConnectivityReplied ep reply)
  moreover have "device_ok (replied c d)" for c
    using assms by (simp add: device_ok_def device_keeps del: bus_defs)
  ultimately show ?thesis using connectivity_ok by simp
next
  case HealthExpired
  with assms show ?thesis using health_ok by simp
next
  case RecoveryExpired
  with assms show ?thesis using recovery_ok by simp
next
  case DiscoveryExpired
  with assms show ?thesis using discovery_expired_ok by simp
next
  case (PingReplied eid ec)
  with assms show ?thesis using ping_ok by simp
next
  case (PoolPingReplied eid nm ec)
  with assms show ?thesis using pool_ping_ok by simp
next
  case (NetLearnReplied eid ok)
  with assms show ?thesis using pool_ping_ok by simp
next
  case (InterfacesRemoved ifaces)
  with assms show ?thesis
    by (simp add: onEndpointInterfacesRemoved_def device_ok_def device_keeps split: option.split)
qed (use assms in \<open>simp_all add: device_ok_def device_keeps del: bus_defs mark_frame\<close>)

lemma device_ok_new: "device_ok (new_health_device c)"
  by (simp add: device_ok_def part_defs new_health_device_def pingFailureThreshold_def)

interpretation health: invariant_system "\<lambda>d. \<exists>c. d = new_health_device c" health_step device_ok
proof unfold_locales
  show "device_ok s" if "\<exists>c. s = new_health_device c" for s
    using that device_ok_new by blast
  show "device_ok t" if "device_ok s" "health_step s t" for s t
    using that device_ok_event by (blast elim: health_step_cases)
qed

end
