(* ===== verification/Mctp_Health_Properties.thy ===== *)
theory Mctp_Health_Properties
  imports Mctp_Health_Correct
begin

text \<open>
  The properties of the health monitor: what holds in every reachable state, when failed pings are reported
  and lead to recovery, and that monitoring goes on, with the one order of events that ends it.
\<close>

abbreviation reachable_device :: "health_device \<Rightarrow> bool" where
  "reachable_device d \<equiv> reach (\<lambda>d. \<exists>c. d = new_health_device c) health_step d"

lemma reach_run_device:
  "run_device es d = Some d' \<Longrightarrow> reachable_device d \<Longrightarrow> reachable_device d'"
proof (induction es arbitrary: d)
  case (Cons e es)
  then show ?case
    by (auto split: if_splits intro: reach_step health_step.intros)
qed simp

definition sample_config :: device_config where
  "sample_config =
     \<lparr>cfg_transport = I2C 3, cfg_name = ''bridge'', cfg_names = [''bridge'', ''slot''], cfg_interface = ''mctpi2c3'',
      cfg_physaddr = [0x1d], cfg_staticEID = Some 10, cfg_poolStart = Some 11, cfg_poolEnd = Some 12,
      cfg_ignoreEids = None, cfg_ignoreMessageTypes = None, cfg_recoveryThreshold = 0,
      cfg_pollingInterval = Some 5, cfg_indeterministic = False\<rparr>"

text \<open>The bridge is set up, the first EID of its pool is published, and its first health check is under way.\<close>

definition sample_managed :: health_device where
  "sample_managed = (new_health_device sample_config)
     \<lparr>discoveryNotifyMatch := True, discoveryCheckTimer := IdleTimer, requestSetupCallback := True\<rparr>"

definition sample_assign :: call where
  "sample_assign = AssignEndpointStatic ''/au/com/codeconstruct/mctp1/interfaces/mctpi2c3'' [0x1d] 10 11 [] []"

definition sample_established :: health_device where
  "sample_established = sample_managed
     \<lparr>removeMatch := True, endpoint_eid_of := Some 10, endpoint_no := 1, discoveredMctpEids := [11, 10],
      healthTimer := ArmedTimer, effects := [Added (AddEndpoint 1)]\<rparr>"

definition sample_device :: health_device where
  "sample_device = sample_established
     \<lparr>calls := [EndpointPing 10, PoolPing 11 ''slot'', PoolPing 12 []],
      suppressedHealthCheckEids := {10, 11, 12}\<rparr>"

lemma sample_pool: "pool_eids (Some 11) (Some 12) None = [11, 12]"
  by (simp add: pool_eids_def upt_rec)

lemmas sample_defs = sample_managed_def sample_established_def new_health_device_def sample_config_def sample_pool

lemma sample_steps:
  "on_event Managed (new_health_device sample_config) = sample_managed"
  "on_event (SetupStarted (\<lambda>_. None)) sample_managed = sample_managed\<lparr>calls := [sample_assign]\<rparr>"
  "on_event (Published 11) (on_event (SetupReplied sample_assign (Some (10, True))) (sample_managed\<lparr>calls := [sample_assign]\<rparr>))
     = sample_established"
  "on_event HealthExpired sample_established = sample_device"
proof -
  show "on_event Managed (new_health_device sample_config) = sample_managed"
    by (simp add: sample_defs onDiscoveryMatchRule_def)
  show "on_event (SetupStarted (\<lambda>_. None)) sample_managed = sample_managed\<lparr>calls := [sample_assign]\<rparr>"
    by (simp add: sample_defs sample_assign_def setup_device_def base_setup_def interface_path_def
        mctpdControlPath_def)
  have "polled (reset_failures x)" "resolves x = False" if "x = sample_managed\<lparr>calls := [], removeMatch := True,
      endpoint_eid_of := Some 10, endpoint_no := 1, discoveredMctpEids := [10]\<rparr>" for x
    by (simp_all add: that sample_defs polled_def resolves_def reset_failures_def)
  then show "on_event (Published 11) (on_event (SetupReplied sample_assign (Some (10, True)))
      (sample_managed\<lparr>calls := [sample_assign]\<rparr>)) = sample_established"
    by (simp add: sample_defs sample_assign_def setup_reply_def finaliseEndpoint_eq onEndpointEstablished_eq
        startHealthMonitoring_eq reset_failures_def managesEid_def getEid_def)
  show "on_event HealthExpired sample_established = sample_device"
    by (simp add: sample_defs sample_device_def performHealthCheck_def ping_pool_eid_def suppress_for_check_def
        pingFailureThreshold_def getNameForEid_def getEid_def insert_commute)
qed

lemma reach_event: "reachable_device d \<Longrightarrow> possible e d \<Longrightarrow> reachable_device (on_event e d)"
  by (erule reach_step) (rule health_step.intros)

lemma sample_device_reachable: "reachable_device sample_established" "reachable_device sample_device"
proof -
  have "reachable_device (new_health_device sample_config)"
    by (rule reach_init) blast
  then have "reachable_device sample_managed"
    using reach_event [of "new_health_device sample_config" Managed] sample_steps(1)
    by (simp add: new_health_device_def [of sample_config, THEN arg_cong, of requestSetupCallback])
  then have "reachable_device (sample_managed\<lparr>calls := [sample_assign]\<rparr>)"
    using reach_event [of sample_managed "SetupStarted (\<lambda>_. None)"] sample_steps(2)
    by (simp add: sample_managed_def [THEN arg_cong, of requestSetupCallback])
  then have "reachable_device (on_event (SetupReplied sample_assign (Some (10, True)))
      (sample_managed\<lparr>calls := [sample_assign]\<rparr>))"
    by (rule reach_event) (simp add: sample_assign_def)
  then have "reachable_device (on_event (Published 11) (on_event (SetupReplied sample_assign (Some (10, True)))
      (sample_managed\<lparr>calls := [sample_assign]\<rparr>)))"
    by (rule reach_event) simp
  then show "reachable_device sample_established"
    by (simp only: sample_steps)
  then have "reachable_device (on_event HealthExpired sample_established)"
    by (rule reach_event) (simp add: sample_established_def)
  then show "reachable_device sample_device"
    by (simp only: sample_steps)
qed

section \<open>What always holds\<close>

text \<open>
  C27: In every reachable state of a device, whatever the order of timers, signals and replies: the EID of
  its endpoint is recorded as discovered (so a recovery of it is never skipped) and the removal of the
  endpoint is watched exactly while there is one; no EID of the pool is counted beyond three failed pings, one
  at three is listed unresponsive, and only EIDs of the pool are; recovery mode with an endpoint has a pending
  timeout; a discovery is due exactly while its timer is pending, and the timer exists when a notification
  can arrive; pings go to the static EID, on devices with polling on.
\<close>
theorem device_invariant:
  assumes "reachable_device d"
  shows "(\<forall>e. endpoint_eid_of d = Some e \<longrightarrow> e \<in> set (discoveredMctpEids d)) \<and>
    (removeMatch d \<longleftrightarrow> endpoint_eid_of d \<noteq> None) \<and>
    (\<forall>e. bridgePoolPingFailures d e \<le> 3) \<and>
    (\<forall>e. bridgePoolPingFailures d e = 3 \<longrightarrow> e \<in> unresponsiveBridgePoolEids d) \<and>
    unresponsiveBridgePoolEids d \<subseteq> pool_of d \<and>
    (inHealthRecoveryMode d \<and> endpoint_eid_of d \<noteq> None \<longrightarrow> recoveryTimer d = ArmedTimer) \<and>
    (discoveryNeeded d \<longleftrightarrow> discoveryCheckTimer d = ArmedTimer) \<and>
    (discoveryNotifyMatch d \<longrightarrow> discoveryCheckTimer d \<noteq> NoTimer) \<and>
    (\<forall>e. EndpointPing e \<in> set (calls d) \<longrightarrow> staticEID d = Some e \<and> polled d)"
  using health.reach_inv [OF assms] by (auto simp: device_ok_def endpoint_ok_def
      pool_ok_def timers_ok_def discovery_ok_def calls_ok_def pingFailureThreshold_def)

lemma device_invariant_witness:
  "10 \<in> set (discoveredMctpEids sample_device) \<and> removeMatch sample_device \<and> 11 \<in> pool_of sample_device \<and>
   bridgePoolPingFailures sample_device 11 \<le> 3 \<and> polled sample_device"
proof -
  have "endpoint_eid_of sample_device = Some 10" "11 \<in> unresponsiveBridgePoolEids sample_device"
    "EndpointPing 10 \<in> set (calls sample_device)"
    by (simp_all add: sample_device_def sample_defs)
  then show ?thesis
    using device_invariant [OF sample_device_reachable(2)] by (metis option.distinct(1) subsetD)
qed

section \<open>Failed pings\<close>

lemma ping_failed_recovering: "inHealthRecoveryMode d \<Longrightarrow> fold ping_failed errs d = d"
  by (induction errs) (simp_all add: ping_failed_def)

text \<open>
  C29: Failed pings of a device that is polled, has an endpoint and is not in recovery mode, from a reachable state in
  which none has failed since the last answer: fewer than three are only counted: no MCTP error is logged for Redfish and
  no recovery starts. The third one puts the device in recovery mode, stops the polling, starts the recovery timeout, asks
  mctpd to recover the endpoint and suppresses its errors; the failures that follow before the recovery ends change
  nothing. The ping timeout is logged for Redfish once, at the third failure, exactly if that one is a timeout, whatever the
  first two were;
  the comments in the code speak of three timeouts in a row and of a recovery that starts with the first failure.
\<close>
theorem three_failures_recover:
  assumes "reachable_device d" "polled d" "endpoint_eid_of d = Some eid" "\<not> inHealthRecoveryMode d"
    and "consecutivePingFailures d = 0"
  shows "fold ping_failed errs d =
    (if length errs < 3 then d\<lparr>consecutivePingFailures := of_nat (length errs)\<rparr>
     else d\<lparr>consecutivePingFailures := 3, inHealthRecoveryMode := True, healthTimer := cancelled (healthTimer d),
            recoveryTimer := ArmedTimer, suppressedHealthCheckEids := insert eid (suppressedHealthCheckEids d),
            calls := calls d @ [Recover eid],
            effects := effects d @ (if errs ! 2 = BusTimedOut then [PingTimeoutLogged (name d) eid] else [])\<rparr>)"
proof -
  have known: "eid \<in> set (discoveredMctpEids d)"
    using health.reach_inv [OF assms(1)] assms(3) by (simp add: device_ok_def endpoint_ok_def)
  obtain i where arms: "pollingInterval d = Some i" "i \<noteq> 0"
    using assms(2) by (auto simp: polled_def)
  consider "errs = []" | a where "errs = [a]" | a b where "errs = [a, b]" | a b c rest where "errs = a # b # c # rest"
    by (metis neq_Nil_conv)
  then show ?thesis
  proof cases
    case 4
    have "ping_failed b (ping_failed a d) = d\<lparr>consecutivePingFailures := 2\<rparr>"
      using assms by (simp add: ping_failed_def pingFailureThreshold_def)
    moreover have "ping_failed c (d\<lparr>consecutivePingFailures := 2\<rparr>) =
        d\<lparr>consecutivePingFailures := 3, inHealthRecoveryMode := True, healthTimer := cancelled (healthTimer d),
          recoveryTimer := ArmedTimer, suppressedHealthCheckEids := insert eid (suppressedHealthCheckEids d),
          calls := calls d @ [Recover eid],
          effects := effects d @ (if c = BusTimedOut then [PingTimeoutLogged (name d) eid] else [])\<rparr>"
      using assms known arms
      by (cases "c = BusTimedOut") (simp_all add: ping_failed_def recover_def recover_eid_def
          armRecoveryTimeout_def stopHealthMonitoring_def pingFailureThreshold_def Let_def)
    ultimately show ?thesis
      using 4 by (simp add: ping_failed_recovering)
  qed (use assms in \<open>simp_all add: ping_failed_def pingFailureThreshold_def\<close>)
qed

lemma three_failures_recover_witness:
  "calls (fold ping_failed [BusOther, BusTimedOut, BusTimedOut, BusOther] sample_established) = [Recover 10] \<and>
   effects (fold ping_failed [BusOther, BusTimedOut, BusTimedOut, BusOther] sample_established) =
     [Added (AddEndpoint 1), PingTimeoutLogged ''bridge'' 10]"
proof -
  have "polled sample_established" "endpoint_eid_of sample_established = Some 10"
    "\<not> inHealthRecoveryMode sample_established" "consecutivePingFailures sample_established = 0"
    by (simp_all add: sample_defs polled_def)
  then show ?thesis
    by (subst (1 2) three_failures_recover [OF sample_device_reachable(1)]) (simp_all add: sample_defs)
qed

lemma recover_eid_eq:
  "recover_eid e d =
     (if e \<in> set (discoveredMctpEids d)
      then d\<lparr>suppressedHealthCheckEids := insert e (suppressedHealthCheckEids d), calls := calls d @ [Recover e]\<rparr> else d)"
  by (simp add: recover_eid_def)

lemma pool_outage:
  assumes "reachable_device d"
  shows "fold (pool_ping_failed e nm) errs d =
    (let k = unat (bridgePoolPingFailures d e); n = k + length errs in
     if n < 3 then d\<lparr>bridgePoolPingFailures := (bridgePoolPingFailures d)(e := of_nat n)\<rparr>
     else if k = 3 then d
     else recover_eid e
       (d\<lparr>bridgePoolPingFailures := (bridgePoolPingFailures d)(e := 3),
          unresponsiveBridgePoolEids := insert e (unresponsiveBridgePoolEids d),
          effects := effects d @ (if errs ! (2 - k) = BusTimedOut \<and> e \<in> set (discoveredMctpEids d)
                                  then [PingTimeoutLogged nm e] else [])\<rparr>))"
    and "bridgePoolPingFailures (pool_ping_answered e d) e = 0"
proof -
  show "bridgePoolPingFailures (pool_ping_answered e d) e = 0"
    by (simp add: pool_ping_answered_def Let_def)
  have inv: "bridgePoolPingFailures d e \<le> 3"
    "bridgePoolPingFailures d e = 3 \<Longrightarrow> e \<in> unresponsiveBridgePoolEids d"
    using health.reach_inv [OF assms] by (auto simp: device_ok_def pool_ok_def pingFailureThreshold_def)
  have full: "fold (pool_ping_failed e nm) es x = x"
    if "bridgePoolPingFailures x e = 3" "e \<in> unresponsiveBridgePoolEids x" for es x
    using that by (induction es) (simp_all add: pool_ping_failed_def pingFailureThreshold_def)
  have full_recovered: "fold (pool_ping_failed e nm) es (recover_eid e x) = recover_eid e x"
    if "bridgePoolPingFailures x e = 3" "e \<in> unresponsiveBridgePoolEids x" for es x
    using that by (intro full) (simp_all add: recover_eid_eq)
  have third: "pool_ping_failed e nm c (x\<lparr>bridgePoolPingFailures := (bridgePoolPingFailures x)(e := 2)\<rparr>) =
      recover_eid e
       (x\<lparr>bridgePoolPingFailures := (bridgePoolPingFailures x)(e := 3),
          unresponsiveBridgePoolEids := insert e (unresponsiveBridgePoolEids x),
          effects := effects x @ (if c = BusTimedOut \<and> e \<in> set (discoveredMctpEids x)
                                  then [PingTimeoutLogged nm e] else [])\<rparr>)" for c x
    by (cases "c = BusTimedOut \<and> e \<in> set (discoveredMctpEids x)")
      (auto simp: pool_ping_failed_def pingFailureThreshold_def Let_def recover_eid_eq)
  have step: "pool_ping_failed e nm c (x\<lparr>bridgePoolPingFailures := (bridgePoolPingFailures x)(e := j)\<rparr>) =
      x\<lparr>bridgePoolPingFailures := (bridgePoolPingFailures x)(e := j + 1)\<rparr>" if "j = 0 \<or> j = 1" for c x j
    using that by (elim disjE) (simp_all add: pool_ping_failed_def pingFailureThreshold_def word_le_nat_alt)
  have same: "d\<lparr>bridgePoolPingFailures := (bridgePoolPingFailures d)(e := bridgePoolPingFailures d e)\<rparr> = d"
    by simp
  show "fold (pool_ping_failed e nm) errs d =
    (let k = unat (bridgePoolPingFailures d e); n = k + length errs in
     if n < 3 then d\<lparr>bridgePoolPingFailures := (bridgePoolPingFailures d)(e := of_nat n)\<rparr>
     else if k = 3 then d
     else recover_eid e
       (d\<lparr>bridgePoolPingFailures := (bridgePoolPingFailures d)(e := 3),
          unresponsiveBridgePoolEids := insert e (unresponsiveBridgePoolEids d),
          effects := effects d @ (if errs ! (2 - k) = BusTimedOut \<and> e \<in> set (discoveredMctpEids d)
                                  then [PingTimeoutLogged nm e] else [])\<rparr>))"
    using inv(1)
  proof (cases rule: small_count_cases)
    case 4
    then show ?thesis
      using full inv(2) by (simp add: Let_def)
  next
    case 3
    then show ?thesis
      using third [of _ d] same by (cases errs) (simp_all add: full_recovered)
  next
    case 2
    consider "errs = []" | a where "errs = [a]" | a b rest where "errs = a # b # rest"
      by (metis neq_Nil_conv)
    then show ?thesis
      using 2 third [of _ d] step [of 1 _ d] same by cases (simp_all add: full_recovered)
  next
    case 1
    consider "errs = []" | a where "errs = [a]" | a b where "errs = [a, b]"
      | a b c rest where "errs = a # b # c # rest"
      by (metis neq_Nil_conv)
    then show ?thesis
      using 1 third [of _ d] step [of 0 _ d] step [of 1 _ d] same by cases (simp_all add: full_recovered)
  qed
qed

text \<open>
  Failed pings of an EID of the bridge pool, from any reachable state: they are counted up to three. The
  one that completes the three lists the EID as unresponsive and, if mctpd has published it, has it recovered
  and, when it timed out, logged; from then on failed pings change nothing, so an outage of a pool EID is
  reported once. Only an answer or the removal of the endpoint starts the count again.
\<close>
lemma pool_outage_reported_once:
  assumes "reachable_device d"
  shows "bridgePoolPingFailures (pool_ping_answered e d) e = 0 \<and>
   fold (pool_ping_failed e nm) errs d =
    (let k = unat (bridgePoolPingFailures d e); n = k + length errs in
     if n < 3 then d\<lparr>bridgePoolPingFailures := (bridgePoolPingFailures d)(e := of_nat n)\<rparr>
     else if k = 3 then d
     else recover_eid e
       (d\<lparr>bridgePoolPingFailures := (bridgePoolPingFailures d)(e := 3),
          unresponsiveBridgePoolEids := insert e (unresponsiveBridgePoolEids d),
          effects := effects d @ (if errs ! (2 - k) = BusTimedOut \<and> e \<in> set (discoveredMctpEids d)
                                  then [PingTimeoutLogged nm e] else [])\<rparr>))"
  using pool_outage [OF assms] by blast

lemma pool_outage_reported_once_witness:
  "effects (fold (pool_ping_failed 11 ''slot'') [BusTimedOut, BusTimedOut, BusTimedOut, BusTimedOut] sample_established) =
     [Added (AddEndpoint 1), PingTimeoutLogged ''slot'' 11]"
  by (subst pool_outage_reported_once [OF sample_device_reachable(1), THEN conjunct2])
    (simp add: sample_defs Let_def recover_eid_eq)

section \<open>Monitoring goes on\<close>

definition watched :: "health_device \<Rightarrow> bool" where
  "watched d \<longleftrightarrow>
     healthTimer d = ArmedTimer \<or> inHealthRecoveryMode d \<and> recoveryTimer d = ArmedTimer"

definition expected_eid :: "health_device \<Rightarrow> bool" where
  "expected_eid d \<longleftrightarrow> polled d \<and> (endpoint_eid_of d = None \<or> endpoint_eid_of d = staticEID d)"

text \<open>
  The events that may end monitoring are left out: mctpd reports the endpoint degraded, or gives the device
  another EID than the static one, or a ping is answered in recovery mode while there is an endpoint.
\<close>

fun quiet :: "health_event \<Rightarrow> health_device \<Rightarrow> bool" where
  "quiet (SetupReplied c (Some (eid, _))) d \<longleftrightarrow> staticEID d = Some eid"
| "quiet (EndpointChanged ep (Some (iface, changed))) d \<longleftrightarrow>
     map_of changed ''Connectivity'' \<noteq> Some (VString ''Degraded'')"
| "quiet (ConnectivityReplied ep (Inr s)) d \<longleftrightarrow> s \<noteq> ''Degraded''"
| "quiet (PingReplied eid None) d \<longleftrightarrow> \<not> (inHealthRecoveryMode d \<and> endpoint_eid_of d \<noteq> None)"
| "quiet _ d \<longleftrightarrow> True"

fun undisturbed :: "health_event list \<Rightarrow> health_device \<Rightarrow> bool" where
  "undisturbed [] d \<longleftrightarrow> True"
| "undisturbed (e # es) d \<longleftrightarrow> quiet e d \<and> undisturbed es (on_event e d)"

definition kept :: "health_device \<Rightarrow> bool" where
  "kept d \<longleftrightarrow> watched d \<and> expected_eid d \<and> timers_ok d \<and> endpoint_ok d"

lemmas kept_defs = kept_def watched_def expected_eid_def polled_def timers_ok_def endpoint_ok_def

lemma kept_ops:
  assumes "kept d"
  shows "kept (onDiscoveryMatchRule d)" "kept (base_setup d)" "kept (pool_ping_failed e nm ec d)"
    "kept (pool_ping_answered e d)" "kept (net_learn_reply e ok d)" "kept (onDiscoveryNotify d)"
    "kept (subscribe_endpoint ep ok d)" "kept (bridge_reply e b d)" "kept (remove_device cb d)"
    "kept (remove_reply cb d)" "kept (replied c d)" "kept (markDiscoveredMctpEid e d)" "kept (endpointRemoved d)"
    "kept (d\<lparr>requestSetupCallback := True\<rparr>)"
  using assms
  by (auto simp: kept_defs device_defs remove_reply_def split: device_split)

lemma kept_conditional:
  assumes "kept d"
  shows "kept (ping_failed ec d)"
    and "inHealthRecoveryMode d \<Longrightarrow> endpoint_eid_of d = None \<Longrightarrow> kept (ping_answered e d)"
    and "\<not> inHealthRecoveryMode d \<Longrightarrow> kept (ping_answered e d)"
    and "case result of Some (eid, _) \<Rightarrow> staticEID d = Some eid | None \<Rightarrow> True \<Longrightarrow> kept (setup_reply result d)"
    and "kept (resolving_setup r d)"
    and "s \<noteq> ''Degraded'' \<Longrightarrow> kept (updateEndpointConnectivity ep s d)"
    and "kept (discovery_timeout (d\<lparr>discoveryCheckTimer := IdleTimer\<rparr>))"
    and "kept (onEndpointMissing ep d)"
    and "kept (learn_reply reply d)"
proof -
  have recovers: "kept (recover x)" if x: "kept x" "endpoint_eid_of x = Some eid" for x eid
  proof -
    obtain i where i: "pollingInterval x = Some i" "i \<noteq> 0"
      using x by (auto simp: kept_defs)
    have "eid \<in> set (discoveredMctpEids x)"
      using x by (simp add: kept_def endpoint_ok_def)
    with i have "recover x = x\<lparr>inHealthRecoveryMode := True, healthTimer := cancelled (healthTimer x),
        recoveryTimer := ArmedTimer, suppressedHealthCheckEids := insert eid (suppressedHealthCheckEids x),
        calls := calls x @ [Recover eid]\<rparr>"
      using x(2) by (simp add: recover_def recover_eid_def armRecoveryTimeout_def stopHealthMonitoring_def)
    then show ?thesis
      using x(1) by (simp add: kept_defs)
  qed
  have counted: "kept (d\<lparr>consecutivePingFailures := n, effects := es\<rparr>)" "kept (d\<lparr>consecutivePingFailures := n\<rparr>)" for n es
    using assms by (simp_all add: kept_defs)
  show "kept (ping_failed ec d)"
    using assms recovers counted by (simp add: ping_failed_def Let_def split: option.split)
  show "inHealthRecoveryMode d \<Longrightarrow> endpoint_eid_of d = None \<Longrightarrow> kept (ping_answered e d)"
    using assms by (auto simp: kept_defs device_defs split: device_split)
  show "\<not> inHealthRecoveryMode d \<Longrightarrow> kept (ping_answered e d)"
    using assms by (auto simp: kept_defs device_defs split: device_split)
  have est: "kept (onEndpointEstablished x)" if "expected_eid x" "endpoint_ok x" for x
    using that by (auto simp: onEndpointEstablished_eq startHealthMonitoring_eq reset_failures_def kept_defs)
  show "kept (setup_reply result d)"
    if "case result of Some (eid, _) \<Rightarrow> staticEID d = Some eid | None \<Rightarrow> True"
  proof (cases result)
    case None
    then show ?thesis
      using assms by (auto simp: kept_defs setup_reply_def)
  next
    case (Some r)
    then obtain eid allocated where r: "result = Some (eid, allocated)"
      by (cases r) auto
    have "kept (finaliseEndpoint eid d)"
    proof -
      let ?d = "d\<lparr>removeMatch := True, endpoint_eid_of := Some eid, endpoint_no := Suc (endpoint_no d),
        discoveredMctpEids := List.insert eid (discoveredMctpEids d)\<rparr>"
      have "expected_eid ?d" "endpoint_ok ?d"
        using assms that r by (auto simp: kept_defs)
      then have "kept (onEndpointEstablished ?d)"
        by (rule est)
      then show ?thesis
        by (simp add: finaliseEndpoint_eq Let_def) (simp add: kept_defs)
    qed
    then show ?thesis
      using assms r by (auto simp: setup_reply_def kept_defs)
  qed
  have "kept (d\<lparr>interface := s\<rparr>)" for s
    using assms by (simp add: kept_defs)
  then have "kept (base_setup (onDiscoveryMatchRule (d\<lparr>interface := s\<rparr>)))" for s
    by (intro kept_ops)
  moreover have "kept (emit (Added AddFailed) d)"
    using assms by (simp add: kept_defs)
  ultimately show "kept (resolving_setup r d)"
    using kept_ops(2) [OF assms] by (simp add: resolving_setup_def split: option.split del: bus_defs)
  show "kept (updateEndpointConnectivity ep s d)" if "s \<noteq> ''Degraded''"
  proof -
    have "kept (onEndpointEstablished (if ep \<in> subscribed d then emit (NotifyAvailable ep) d else d))"
      using assms by (intro est) (auto simp: kept_defs)
    then show ?thesis
      using assms that by (auto simp: updateEndpointConnectivity_def)
  qed
  show "kept (discovery_timeout (d\<lparr>discoveryCheckTimer := IdleTimer\<rparr>))"
    using assms by (auto simp: kept_defs device_defs split: device_split)
  show "kept (onEndpointMissing ep d)"
    using assms kept_ops(13) [of d] by (auto simp: onEndpointMissing_def)
  show "kept (learn_reply reply d)"
    using assms kept_ops(13) [of d] by (auto simp: learn_reply_def kept_defs split: device_split)
qed

lemma kept_timers:
  assumes "kept d"
  shows "healthTimer d = ArmedTimer \<Longrightarrow> kept (performHealthCheck (d\<lparr>healthTimer := IdleTimer\<rparr>))"
    and "kept (onRecoveryTimeout (d\<lparr>recoveryTimer := IdleTimer\<rparr>))"
proof -
  show "kept (onRecoveryTimeout (d\<lparr>recoveryTimer := IdleTimer\<rparr>))"
    using assms by (auto simp: kept_defs device_defs startHealthMonitoring_eq)
  show "kept (performHealthCheck (d\<lparr>healthTimer := IdleTimer\<rparr>))" if "healthTimer d = ArmedTimer"
    using assms that
    by (cases rule: performHealthCheck_cases [of "d\<lparr>healthTimer := IdleTimer\<rparr>"]) (auto simp: kept_defs)
qed

lemma kept_event:
  assumes "kept d" "possible e d" "quiet e d"
  shows "kept (on_event e d)"
proof (cases e)
  case (SetupStarted readdir)
  then show ?thesis
    using kept_ops(2) [OF assms(1)] kept_conditional(5) [OF assms(1)]
    by (cases rule: setup_device_cases [of readdir d]) simp_all
next
  case (SetupReplied c result)
  have "case result of Some (eid, _) \<Rightarrow> staticEID (replied c d) = Some eid | None \<Rightarrow> True"
    using SetupReplied assms(3) by (cases result) auto
  then show ?thesis
    using SetupReplied kept_conditional(4) [OF kept_ops(11) [OF assms(1)]] by (simp del: bus_defs)
next
  case (EndpointChanged ep msg)
  then show ?thesis
    using assms kept_conditional(6) [OF assms(1)]
    by (auto simp: onMctpEndpointChange_def split: option.splits variant.splits)
next
  case (ConnectivityReplied ep reply)
  then show ?thesis
    using assms kept_conditional(6,8) [OF kept_ops(11) [OF assms(1)]] kept_ops(11) [OF assms(1)]
    by (cases reply) (auto simp: onConnectivityReply_def simp del: bus_defs)
next
  case (InterfacesRemoved ifaces)
  then show ?thesis
    using assms(1) kept_ops(13) [OF assms(1)] by (auto simp: onEndpointInterfacesRemoved_def split: option.splits)
next
  case DiscoveryExpired
  then show ?thesis
    using kept_conditional(7) [OF assms(1)] by simp
next
  case HealthExpired
  then show ?thesis
    using assms kept_timers(1) by simp
next
  case RecoveryExpired
  then show ?thesis
    using assms kept_timers(2) by simp
next
  case (PingReplied eid ec)
  have "kept (replied c d)" for c
    by (rule kept_ops(11) [OF assms(1)])
  moreover have "inHealthRecoveryMode (replied c d) = inHealthRecoveryMode d"
      "endpoint_eid_of (replied c d) = endpoint_eid_of d" for c
    by simp_all
  ultimately show ?thesis
    using PingReplied assms(3) kept_conditional(1) [of "replied (EndpointPing eid) d"]
      kept_conditional(2,3) [of "replied (EndpointPing eid) d" eid] by (cases ec) (auto simp del: bus_defs)
next
  case (LearnReplied path addr reply)
  then show ?thesis
    using kept_conditional(9) [OF kept_ops(11) [OF assms(1)]] by (simp del: bus_defs)
next
  case (PoolPingReplied eid nm ec)
  then show ?thesis
    using kept_ops(3,4) [OF kept_ops(11) [OF assms(1)]] by (cases ec) (simp_all del: bus_defs)
qed (use kept_ops [OF assms(1)] kept_ops [OF kept_ops(11) [OF assms(1)]] kept_ops(14) [OF kept_ops(1) [OF assms(1)]] in
      \<open>simp_all del: bus_defs mark_frame\<close>)

lemma kept_run:
  "kept d \<Longrightarrow> run_device es d = Some d' \<Longrightarrow> undisturbed es d \<Longrightarrow> kept d'"
  by (induction es arbitrary: d) (auto split: if_splits intro: kept_event)

lemma monitoring_parts:
  assumes "reachable_device d" "polled d" "staticEID d = Some eid"
  shows "healthTimer (setup_reply (Some (eid, True)) d) = ArmedTimer"
    and "watched d \<Longrightarrow> endpoint_eid_of d = None \<or> endpoint_eid_of d = Some eid \<Longrightarrow>
      run_device es d = Some d' \<Longrightarrow> undisturbed es d \<Longrightarrow> watched d'"
    and "inHealthRecoveryMode d \<Longrightarrow> endpoint_eid_of d = None \<or> endpoint_eid_of d = Some eid \<Longrightarrow>
      healthTimer (on_event RecoveryExpired d) = ArmedTimer"
proof -
  have ok: "timers_ok d" "endpoint_ok d"
    using health.reach_inv [OF assms(1)] by (simp_all add: device_ok_def)
  show "healthTimer (setup_reply (Some (eid, True)) d) = ArmedTimer"
    using assms by (simp add: setup_reply_def finaliseEndpoint_eq onEndpointEstablished_eq startHealthMonitoring_eq
        reset_failures_def polled_def Let_def)
  show "watched d'" if "watched d" "endpoint_eid_of d = None \<or> endpoint_eid_of d = Some eid"
    "run_device es d = Some d'" "undisturbed es d"
  proof -
    have "kept d"
      using ok that assms by (simp add: kept_def expected_eid_def)
    then have "kept d'"
      by (rule kept_run) (use that in simp_all)
    then show ?thesis
      by (simp add: kept_def)
  qed
  show "healthTimer (on_event RecoveryExpired d) = ArmedTimer"
    if "inHealthRecoveryMode d" "endpoint_eid_of d = None \<or> endpoint_eid_of d = Some eid"
    using that assms by (auto simp: onRecoveryTimeout_def startHealthMonitoring_eq polled_def)
qed

text \<open>
  C28: Health monitoring goes on. A device with polling on whose endpoint has been set up under its static
  EID has its next check pending. From then on, through every sequence of events in which mctpd does not report
  the endpoint degraded or give it another EID, and no ping is answered during a recovery, a check is pending
  or the device is in recovery with the timeout pending; and that timeout makes a check pending again.
\<close>
theorem monitoring_continues:
  assumes "reachable_device d" "polled d" "staticEID d = Some eid"
  shows "healthTimer (setup_reply (Some (eid, True)) d) = ArmedTimer \<and>
    (endpoint_eid_of d = None \<or> endpoint_eid_of d = Some eid \<longrightarrow>
      (inHealthRecoveryMode d \<longrightarrow> healthTimer (on_event RecoveryExpired d) = ArmedTimer) \<and>
      (\<forall>es d'. watched d \<and> run_device es d = Some d' \<and> undisturbed es d \<longrightarrow> watched d'))"
  using monitoring_parts [OF assms] by blast

lemma monitoring_continues_witness:
  "watched (on_event (PingReplied 10 None) sample_device) \<and> polled sample_device"
proof -
  have d: "polled sample_device" "staticEID sample_device = Some 10" "watched sample_device"
    "endpoint_eid_of sample_device = None \<or> endpoint_eid_of sample_device = Some 10"
    "run_device [PingReplied 10 None] sample_device = Some (on_event (PingReplied 10 None) sample_device)"
    "undisturbed [PingReplied 10 None] sample_device"
    by (simp_all add: sample_defs sample_device_def polled_def watched_def)
  show ?thesis
    using monitoring_continues [OF sample_device_reachable(2) d(1,2)] d by blast
qed

section \<open>The answer that ends monitoring\<close>

fun is_ping :: "call \<Rightarrow> bool" where
  "is_ping (EndpointPing _) = True"
| "is_ping _ = False"

fun restarts :: "health_event \<Rightarrow> bool" where
  "restarts (SetupReplied c (Some _)) = True"
| "restarts (EndpointChanged ep (Some (iface, changed))) \<longleftrightarrow> map_of changed ''Connectivity'' = Some (VString ''Available'')"
| "restarts (ConnectivityReplied ep (Inr s)) \<longleftrightarrow> s = ''Available''"
| "restarts _ = False"

definition unwatched :: "health_device \<Rightarrow> bool" where
  "unwatched d \<longleftrightarrow>
     healthTimer d \<noteq> ArmedTimer \<and> \<not> inHealthRecoveryMode d \<and> (\<forall>c \<in> set (calls d). \<not> is_ping c)"

lemma unwatched_ops:
  assumes "unwatched d"
  shows "unwatched (onDiscoveryMatchRule d)" "unwatched (base_setup d)" "unwatched (pool_ping_failed e nm ec d)"
    "unwatched (pool_ping_answered e d)" "unwatched (net_learn_reply e ok d)" "unwatched (onDiscoveryNotify d)"
    "unwatched (subscribe_endpoint ep ok d)" "unwatched (bridge_reply e b d)" "unwatched (remove_device cb d)"
    "unwatched (remove_reply cb d)" "unwatched (replied c d)" "unwatched (markDiscoveredMctpEid e d)"
    "unwatched (endpointRemoved d)" "unwatched (d\<lparr>requestSetupCallback := True\<rparr>)" "unwatched (resolving_setup r d)"
    "unwatched (onEndpointMissing ep d)" "unwatched (learn_reply reply d)"
    "unwatched (discovery_timeout (d\<lparr>discoveryCheckTimer := IdleTimer\<rparr>))"
    "unwatched (onRecoveryTimeout (d\<lparr>recoveryTimer := IdleTimer\<rparr>))"
    "unwatched (setup_reply None d)" "s \<noteq> ''Available'' \<Longrightarrow> unwatched (updateEndpointConnectivity ep s d)"
  using assms
  by (auto simp: unwatched_def device_defs remove_reply_def dest: notin_set_remove1
      split: device_split)

lemma unwatched_event:
  assumes "unwatched d" "possible e d" "\<not> restarts e"
  shows "unwatched (on_event e d)"
proof (cases e)
  case (SetupStarted readdir)
  then show ?thesis
    using unwatched_ops(2,15) [OF assms(1)] by (cases rule: setup_device_cases [of readdir d]) simp_all
next
  case (SetupReplied c result)
  then show ?thesis
    using assms(3) unwatched_ops(20) [OF unwatched_ops(11) [OF assms(1)]] by (cases result) (simp_all del: bus_defs)
next
  case (EndpointChanged ep msg)
  then show ?thesis
    using assms unwatched_ops(21) [OF assms(1)]
    by (auto simp: onMctpEndpointChange_def split: option.splits variant.splits)
next
  case (ConnectivityReplied ep reply)
  then show ?thesis
    using assms(3) unwatched_ops(11,16,21) [OF unwatched_ops(11) [OF assms(1)]] unwatched_ops(11) [OF assms(1)]
    by (cases reply) (auto simp: onConnectivityReply_def simp del: bus_defs)
next
  case (InterfacesRemoved ifaces)
  then show ?thesis
    using assms(1) unwatched_ops(13) [OF assms(1)]
    by (auto simp: onEndpointInterfacesRemoved_def split: option.splits)
next
  case HealthExpired
  then show ?thesis
    using assms by (simp add: unwatched_def)
next
  case (PingReplied eid ec)
  then show ?thesis
    using assms(1,2) by (auto simp: unwatched_def)
next
  case (PoolPingReplied eid nm ec)
  then show ?thesis
    using unwatched_ops(3,4) [OF unwatched_ops(11) [OF assms(1)]] by (cases ec) (simp_all del: bus_defs)
qed (use unwatched_ops [OF assms(1)] unwatched_ops [OF unwatched_ops(11) [OF assms(1)]]
      unwatched_ops(14) [OF unwatched_ops(1) [OF assms(1)]] in \<open>simp_all del: bus_defs mark_frame\<close>)

lemma unwatched_run:
  "unwatched d \<Longrightarrow> run_device es d = Some d' \<Longrightarrow> list_all (\<lambda>e. \<not> restarts e) es \<Longrightarrow> unwatched d'"
  by (induction es arbitrary: d) (auto split: if_splits intro: unwatched_event)

text \<open>
  C30: The answer that ends monitoring. A device in recovery has stopped polling and relies on the recovery
  timeout to resume it. If the last ping that is still under way is then answered, recovery mode ends without a
  new check: through every sequence of events, the timeout included, no check becomes pending and no ping is
  sent, until mctpd reports the endpoint available or the device is set up again.
\<close>
theorem late_answer_ends_monitoring:
  assumes "reachable_device d" "inHealthRecoveryMode d" "endpoint_eid_of d \<noteq> None" "healthTimer d \<noteq> ArmedTimer"
    and "filter is_ping (calls d) = [EndpointPing eid]"
    and "run_device (PingReplied eid None # es) d = Some d'" "list_all (\<lambda>e. \<not> restarts e) es"
  shows "healthTimer d' \<noteq> ArmedTimer \<and> \<not> inHealthRecoveryMode d' \<and> filter is_ping (calls d') = []"
proof -
  have "filter is_ping (remove1 (EndpointPing eid) (calls d)) = []"
    using assms(5) by (simp add: filter_remove1)
  then have "unwatched (on_event (PingReplied eid None) d)"
    using assms(2-4) by (auto simp: unwatched_def ping_answered_def Let_def filter_empty_conv)
  moreover have "run_device es (on_event (PingReplied eid None) d) = Some d'"
    using assms(6) by (simp split: if_splits)
  ultimately have "unwatched d'"
    using assms(7) by (rule unwatched_run)
  then show ?thesis
    by (simp add: unwatched_def filter_empty_conv)
qed

text \<open>Four checks are made, and three of their four pings have failed.\<close>

definition sample_checked :: "call list \<Rightarrow> u8 \<Rightarrow> health_device" where
  "sample_checked cs k = sample_established
     \<lparr>calls := cs, suppressedHealthCheckEids := {10, 11, 12}, consecutivePingFailures := k\<rparr>"

definition sample_recovering :: health_device where
  "sample_recovering =
     (sample_checked (concat (replicate 3 [PoolPing 11 ''slot'', PoolPing 12 []]) @
        [EndpointPing 10, PoolPing 11 ''slot'', PoolPing 12 [], Recover 10]) 3)
     \<lparr>inHealthRecoveryMode := True, healthTimer := IdleTimer, recoveryTimer := ArmedTimer,
      effects := [Added (AddEndpoint 1), PingTimeoutLogged ''bridge'' 10]\<rparr>"

lemma sample_check:
  "on_event HealthExpired (sample_checked cs 0) =
     sample_checked (cs @ [EndpointPing 10, PoolPing 11 ''slot'', PoolPing 12 []]) 0"
  by (simp add: sample_checked_def sample_defs performHealthCheck_def ping_pool_eid_def suppress_for_check_def
      pingFailureThreshold_def getNameForEid_def getEid_def insert_commute)

lemma sample_failures:
  "k = 0 \<or> k = 1 \<Longrightarrow> on_event (PingReplied 10 (Some BusTimedOut)) (sample_checked cs k) =
     sample_checked (remove1 (EndpointPing 10) cs) (k + 1)"
  "on_event (PingReplied 10 (Some BusTimedOut)) (sample_checked cs 2) =
     (sample_checked (remove1 (EndpointPing 10) cs @ [Recover 10]) 3)
     \<lparr>inHealthRecoveryMode := True, healthTimer := IdleTimer, recoveryTimer := ArmedTimer,
      effects := [Added (AddEndpoint 1), PingTimeoutLogged ''bridge'' 10]\<rparr>"
  by (elim disjE; simp add: sample_checked_def sample_defs ping_failed_def pingFailureThreshold_def word_le_nat_alt
      word_less_nat_alt)
    (simp add: sample_checked_def sample_defs ping_failed_def pingFailureThreshold_def recover_def recover_eid_def
      armRecoveryTimeout_def stopHealthMonitoring_def Let_def)

lemma sample_recovering_reachable: "reachable_device sample_recovering"
proof -
  let ?round = "[EndpointPing 10, PoolPing 11 ''slot'', PoolPing 12 []]"
  have possible: "possible HealthExpired (sample_checked cs 0)"
    "EndpointPing 10 \<in> set cs \<Longrightarrow> possible (PingReplied 10 (Some BusTimedOut)) (sample_checked cs k)" for cs k
    by (simp_all add: sample_checked_def sample_established_def)
  have "sample_device = sample_checked ?round 0"
    by (simp add: sample_device_def sample_checked_def sample_defs)
  then have "reachable_device (sample_checked ?round 0)"
    using sample_device_reachable(2) by simp
  then have "reachable_device (sample_checked (?round @ ?round) 0)"
    using reach_event [OF _ possible(1)] sample_check by metis
  then have "reachable_device (sample_checked ((?round @ ?round) @ ?round) 0)"
    using reach_event [OF _ possible(1)] sample_check by metis
  then have "reachable_device (sample_checked (((?round @ ?round) @ ?round) @ ?round) 0)"
    using reach_event [OF _ possible(1)] sample_check by metis
  then have "reachable_device (on_event (PingReplied 10 (Some BusTimedOut))
      (on_event (PingReplied 10 (Some BusTimedOut)) (on_event (PingReplied 10 (Some BusTimedOut))
        (sample_checked (((?round @ ?round) @ ?round) @ ?round) 0))))"
    by (intro reach_event) (simp_all add: possible sample_failures del: on_event.simps possible.simps)
  then show ?thesis
    by (simp add: sample_failures sample_recovering_def numeral_eq_Suc del: on_event.simps)
qed

lemma late_answer_ends_monitoring_witness:
  "healthTimer (on_event RecoveryExpired (on_event (PingReplied 10 None) sample_recovering)) \<noteq> ArmedTimer"
proof -
  let ?d = "on_event RecoveryExpired (on_event (PingReplied 10 None) sample_recovering)"
  have "inHealthRecoveryMode sample_recovering" "endpoint_eid_of sample_recovering \<noteq> None"
    "healthTimer sample_recovering \<noteq> ArmedTimer" "filter is_ping (calls sample_recovering) = [EndpointPing 10]"
    "run_device [PingReplied 10 None, RecoveryExpired] sample_recovering = Some ?d"
    "list_all (\<lambda>e. \<not> restarts e) [RecoveryExpired]"
    by (simp_all add: sample_recovering_def sample_checked_def sample_defs ping_answered_def numeral_eq_Suc)
  from late_answer_ends_monitoring [OF sample_recovering_reachable this] show ?thesis
    by blast
qed

end
