(* ===== verification/Wp_Manager.thy ===== *)
theory Wp_Manager
  imports Reactive_Graph_Correct
begin

text \<open>
  The write-protection groups of \<open>nvidia-fw-write-protect/DomainManager.cpp\<close>, with \<open>Domain.cpp\<close>,
  \<open>GroupConfig.hpp\<close>, \<open>GpioInputConfig.hpp\<close>, \<open>Error.hpp\<close> and \<open>SoftwareComponent.hpp\<close>: groups and
  their D-Bus objects as clients of the reactive graph.

  A coroutine is a task of the state; an event resumes one, with the answer of what it awaited, and runs it
  to its next \<open>co_await\<close>. A task that \<open>ctx.spawn\<close> starts begins at a later event. The D-Bus objects live
  in a store; a node's observers are their addresses, as the captured raw pointers of the source are, so a
  call of a destroyed one is undefined behaviour (\<open>Undefined\<close>). Log messages and signals are left out.
\<close>

section \<open>Configurations\<close>

text \<open>The values of the properties of a configuration, and what \<open>std::get\<close> throws on another alternative.\<close>

datatype wp_value = WpString string | WpStrings "string list" | WpBool bool | WpUint u64

type_synonym wp_properties = "string \<rightharpoonup> wp_value"

fun as_string :: "wp_value \<Rightarrow> string option" where
  "as_string (WpString s) = Some s"
| "as_string _ = None"

fun as_strings :: "wp_value \<Rightarrow> string list option" where
  "as_strings (WpStrings ss) = Some ss"
| "as_strings _ = None"

fun as_bool :: "wp_value \<Rightarrow> bool option" where
  "as_bool (WpBool b) = Some b"
| "as_bool _ = None"

fun as_uint :: "wp_value \<Rightarrow> u64 option" where
  "as_uint (WpUint n) = Some n"
| "as_uint _ = None"

definition read_property :: "wp_properties \<Rightarrow> string \<Rightarrow> (wp_value \<Rightarrow> 'a option) \<Rightarrow> 'a \<Rightarrow> 'a option" where
  "read_property props key get_value dflt =
     (case props key of None \<Rightarrow> Some dflt | Some v \<Rightarrow> get_value v)"

record GroupConfig =
  cfg_name :: string
  cfg_sources :: "string list"
  cfg_components :: "string list"
  cfg_mode :: BoolOp

text \<open>
  \<open>GroupConfig::tryFrom\<close> on the reply of \<open>GetAll\<close>: a value of another type fails the whole configuration,
  an unknown \<open>SourceMode\<close> leaves the default.
\<close>

definition source_mode :: "string \<Rightarrow> BoolOp" where
  "source_mode mode = (if mode = ''OR'' then OpOr else if mode = ''AND'' then OpAnd else OpOr)"

definition group_config :: "wp_properties \<Rightarrow> GroupConfig option" where
  "group_config props =
     Option.bind (read_property props ''Name'' as_string []) (\<lambda>nm.
     Option.bind (read_property props ''Sources'' as_strings []) (\<lambda>srcs.
     Option.bind (read_property props ''FlashProtectedComponents'' as_strings []) (\<lambda>comps.
     Option.bind (read_property props ''SourceMode'' (map_option source_mode \<circ> as_string) OpOr) (\<lambda>mode.
       Some \<lparr>cfg_name = nm, cfg_sources = srcs, cfg_components = comps, cfg_mode = mode\<rparr>))))"

record GpioInputConfig =
  gpio_name :: string
  gpio_lineName :: string
  gpio_activeLow :: bool
  gpio_components :: "string list"
  gpio_pollInterval :: "u64 option"

definition gpio_input_config :: "wp_properties \<Rightarrow> GpioInputConfig option" where
  "gpio_input_config props =
     Option.bind (read_property props ''Name'' as_string []) (\<lambda>nm.
     Option.bind (read_property props ''LineName'' as_string []) (\<lambda>line.
     Option.bind (read_property props ''ActiveLow'' as_bool False) (\<lambda>low.
     Option.bind (read_property props ''FlashProtectedComponents'' as_strings []) (\<lambda>comps.
     Option.bind (read_property props ''PollInterval'' (map_option Some \<circ> as_uint) None) (\<lambda>interval.
       Some \<lparr>gpio_name = nm, gpio_lineName = line, gpio_activeLow = low, gpio_components = comps,
             gpio_pollInterval = interval\<rparr>)))))"

section \<open>State\<close>

datatype wp_error = WpInternalError | WpUnsupported | WpIo | WpUnavailable | WpAborted | WpTimeout

datatype protector = GpioProtector | DbusProtector

record wp_source =
  source_node :: nat
  protector :: "protector option"
  lastChanged :: "int option"

text \<open>The D-Bus objects: a domain with its settable source, a hardware control, a software component.\<close>

datatype facade_kind = DomainFacade "nat option" | HwWpCtrlFacade | SoftwareFacade

record facade =
  facade_kind :: facade_kind
  facade_path :: string
  write_protected :: bool

record wp_group =
  outputNode :: nat
  group_domain :: "nat option"
  group_hwWpCtrl :: "nat option"
  group_software :: "(string \<times> nat) list"

text \<open>
  Coroutines: spawned and not yet begun, or suspended. A \<open>SetAwait\<close> or \<open>GetAwait\<close> belongs to one call of
  \<open>SetWriteProtected\<close>, named by a number.
\<close>

datatype task =
    InitGpio string
  | GpioCreating string
  | InitEntity string
  | ProxyCreating string
  | InitialGet string
  | Monitor string
  | CoolOff string
  | SetAwait nat nat bool
  | GetAwait nat nat bool

datatype set_reply = SetOk | NotAllowed | InternalFailure

text \<open>
  \<open>wp_configs\<close> is a history variable that no operation reads: the operator and the sources with which each
  group was added; an input has no such entry.
\<close>

record manager =
  wp_graph :: "nat graph"
  sources :: "string \<rightharpoonup> wp_source"
  groups :: "string \<rightharpoonup> wp_group"
  pendingEntityLinks :: "string \<rightharpoonup> (nat \<times> nat) list"
  entityInitScopes :: "string \<rightharpoonup> bool"
  sourcesByNodeId :: "nat \<rightharpoonup> string"
  objects :: "nat \<rightharpoonup> facade"
  nextObject :: nat
  tasks :: "task list"
  replies :: "(nat \<times> set_reply) list"
  wp_configs :: "string \<rightharpoonup> BoolOp \<times> string list"

definition new_manager :: manager where
  "new_manager =
     \<lparr>wp_graph = empty_graph, sources = Map.empty, groups = Map.empty, pendingEntityLinks = Map.empty,
      entityInitScopes = Map.empty, sourcesByNodeId = Map.empty, objects = Map.empty, nextObject = 0,
      tasks = [], replies = [], wp_configs = Map.empty\<rparr>"

section \<open>Results\<close>

text \<open>
  An operation returns, throws (the state is then as the operations before the throw left it), calls a
  destroyed object, or does not return.
\<close>

datatype wp_exception = GraphError graph_error | DbusRefused string

datatype 'a wp_result = Done 'a | Threw wp_exception manager | Undefined | Diverges

fun and_then :: "'a wp_result \<Rightarrow> ('a \<Rightarrow> 'b wp_result) \<Rightarrow> 'b wp_result" where
  "and_then (Done a) f = f a"
| "and_then (Threw e s) f = Threw e s"
| "and_then Undefined f = Undefined"
| "and_then Diverges f = Diverges"

section \<open>The graph as the manager uses it\<close>

definition connect_nodes :: "nat \<Rightarrow> nat \<Rightarrow> manager \<Rightarrow> manager wp_result" where
  "connect_nodes a b s =
     (case connect a b (wp_graph s) of
        None \<Rightarrow> Diverges
      | Some (Inl e) \<Rightarrow> Threw (GraphError e) s
      | Some (Inr g) \<Rightarrow> Done (s\<lparr>wp_graph := g\<rparr>))"

text \<open>The observers set the property of their object.\<close>

fun call_observers :: "(nat \<times> bool) list \<Rightarrow> manager \<Rightarrow> manager wp_result" where
  "call_observers [] s = Done s"
| "call_observers ((p, v) # calls) s =
     (case objects s p of
        None \<Rightarrow> Undefined
      | Some f \<Rightarrow> call_observers calls (s\<lparr>objects := (objects s)(p \<mapsto> f\<lparr>write_protected := v\<rparr>)\<rparr>))"

definition propagate_graph :: "manager \<Rightarrow> manager wp_result" where
  "propagate_graph s =
     (case propagate (wp_graph s) of
        None \<Rightarrow> Diverges
      | Some (g, calls) \<Rightarrow> call_observers calls (s\<lparr>wp_graph := g\<rparr>))"

definition set_graph_source :: "nat \<Rightarrow> bool \<Rightarrow> manager \<Rightarrow> manager wp_result" where
  "set_graph_source n v s = propagate_graph (s\<lparr>wp_graph := set_source n v (wp_graph s)\<rparr>)"

section \<open>Sources\<close>

definition getOrCreateSource :: "string \<Rightarrow> manager \<Rightarrow> wp_source \<times> bool \<times> manager" where
  "getOrCreateSource identifier s =
     (case sources s identifier of
        Some src \<Rightarrow> (src, False, s)
      | None \<Rightarrow>
          let (node, g) = addSource False (wp_graph s);
              src = \<lparr>source_node = node, protector = None, lastChanged = None\<rparr>
          in (src, True,
              s\<lparr>wp_graph := g, sources := (sources s)(identifier \<mapsto> src),
                sourcesByNodeId := (sourcesByNodeId s)(node \<mapsto> identifier)\<rparr>))"

definition spawn :: "task \<Rightarrow> manager \<Rightarrow> manager" where
  "spawn t s = s\<lparr>tasks := tasks s @ [t]\<rparr>"

definition finish :: "task \<Rightarrow> manager \<Rightarrow> manager" where
  "finish t s = s\<lparr>tasks := remove1 t (tasks s)\<rparr>"

definition spawnEntityInit :: "string \<Rightarrow> manager \<Rightarrow> manager" where
  "spawnEntityInit nm s =
     spawn (InitEntity nm)
       (if entityInitScopes s nm = None then s\<lparr>entityInitScopes := (entityInitScopes s)(nm \<mapsto> False)\<rparr> else s)"

definition update_source :: "string \<Rightarrow> (wp_source \<Rightarrow> wp_source) \<Rightarrow> manager \<Rightarrow> manager" where
  "update_source nm f s = s\<lparr>sources := (sources s)(nm := map_option f (sources s nm))\<rparr>"

definition protector_of :: "string \<Rightarrow> manager \<Rightarrow> protector option" where
  "protector_of nm s = Option.bind (sources s nm) protector"

text \<open>\<open>activateSource\<close> up to the answer of \<open>get\<close>, and from there on.\<close>

definition activateSource :: "string \<Rightarrow> manager \<Rightarrow> manager" where
  "activateSource nm s = (if protector_of nm s = None then s else spawn (InitialGet nm) s)"

definition activate_got :: "string \<Rightarrow> wp_error + bool \<Rightarrow> manager \<Rightarrow> manager wp_result" where
  "activate_got nm initialValue s =
     and_then (case initialValue of
         Inr v \<Rightarrow> set_graph_source (source_node (the (sources s nm))) v s
       | Inl e \<Rightarrow> Done s)
       (\<lambda>s. Done (spawn (Monitor nm) s))"

definition initializeGpioSource :: "string \<Rightarrow> manager \<Rightarrow> manager" where
  "initializeGpioSource nm s = (if protector_of nm s \<noteq> None then s else spawn (GpioCreating nm) s)"

definition gpio_created :: "string \<Rightarrow> bool \<Rightarrow> manager \<Rightarrow> manager" where
  "gpio_created nm ok s =
     (if \<not> ok then s else activateSource nm (update_source nm (protector_update (\<lambda>_. Some GpioProtector)) s))"

definition initializeEntitySource :: "string \<Rightarrow> manager \<Rightarrow> manager" where
  "initializeEntitySource nm s =
     (if protector_of nm s \<noteq> None \<or> pendingEntityLinks s nm = None then s else spawn (ProxyCreating nm) s)"

definition proxy_created :: "string \<Rightarrow> bool \<Rightarrow> manager \<Rightarrow> manager" where
  "proxy_created nm ok s =
     (if pendingEntityLinks s nm = None \<or> \<not> ok then s
      else activateSource nm
        (update_source nm (protector_update (\<lambda>_. Some DbusProtector)) s)
          \<lparr>pendingEntityLinks := (pendingEntityLinks s)(nm := None)\<rparr>)"

text \<open>\<open>scopedEntityInit\<close>: the scope is erased when the initialisation in it has ended.\<close>

definition scope_empty :: "string \<Rightarrow> manager \<Rightarrow> manager" where
  "scope_empty nm s = s\<lparr>entityInitScopes := (entityInitScopes s)(nm := None)\<rparr>"

definition scopedEntityInit :: "string \<Rightarrow> manager \<Rightarrow> manager" where
  "scopedEntityInit nm s = (if entityInitScopes s nm = None then s else initializeEntitySource nm s)"

text \<open>
  One turn of the loop of \<open>monitorSource\<close>, with the answer of \<open>changed\<close> and the time at which it came: the
  monitor ends when the source is gone, and cools off when the last change was less than a second ago.
\<close>

definition sourceChangedCoolOffInterval :: int where
  "sourceChangedCoolOffInterval = 1000"

definition monitor_again :: "string \<Rightarrow> int \<Rightarrow> manager \<Rightarrow> manager" where
  "monitor_again nm changedTime s =
     (let prev = Option.bind (sources s nm) lastChanged;
          s = update_source nm (lastChanged_update (\<lambda>_. Some changedTime)) s
      in case prev of
           None \<Rightarrow> spawn (Monitor nm) s
         | Some t \<Rightarrow> spawn (if changedTime - t < sourceChangedCoolOffInterval then CoolOff nm else Monitor nm) s)"

definition monitorSource :: "string \<Rightarrow> wp_error + bool \<Rightarrow> int \<Rightarrow> manager \<Rightarrow> manager wp_result" where
  "monitorSource nm changed changedTime s =
     (if protector_of nm s = None then Done s
      else case changed of
        Inl e \<Rightarrow> if e = WpUnavailable then Done s else Done (monitor_again nm changedTime s)
      | Inr v \<Rightarrow> and_then (set_graph_source (source_node (the (sources s nm))) v s)
                  (\<lambda>s. Done (monitor_again nm changedTime s)))"

text \<open>How long \<open>monitorSource\<close> then sleeps.\<close>

definition cool_off :: "int option \<Rightarrow> int \<Rightarrow> int" where
  "cool_off prev changedTime =
     (case prev of
        None \<Rightarrow> 0
      | Some t \<Rightarrow> if changedTime - t < sourceChangedCoolOffInterval
                   then sourceChangedCoolOffInterval - (changedTime - t) else 0)"

section \<open>Groups\<close>

text \<open>
  The construction of a D-Bus object throws when the bus refuses the object: it does when the path already
  has an object of the interface, and when the parameter \<open>accepts\<close> says so.
\<close>

fun same_interface :: "facade_kind \<Rightarrow> facade_kind \<Rightarrow> bool" where
  "same_interface (DomainFacade _) (DomainFacade _) = True"
| "same_interface HwWpCtrlFacade HwWpCtrlFacade = True"
| "same_interface SoftwareFacade SoftwareFacade = True"
| "same_interface _ _ = False"

definition path_taken :: "facade_kind \<Rightarrow> string \<Rightarrow> manager \<Rightarrow> bool" where
  "path_taken k path s =
     list_ex (\<lambda>p. case objects s p of
         None \<Rightarrow> False
       | Some f \<Rightarrow> facade_path f = path \<and> same_interface (facade_kind f) k) [0..<nextObject s]"

definition new_object :: "(string \<Rightarrow> bool) \<Rightarrow> facade_kind \<Rightarrow> string \<Rightarrow> manager \<Rightarrow> (nat \<times> manager) wp_result" where
  "new_object accepts k path s =
     (if accepts path \<and> \<not> path_taken k path s
      then Done (nextObject s,
        s\<lparr>objects := (objects s)(nextObject s \<mapsto> \<lparr>facade_kind = k, facade_path = path, write_protected = False\<rparr>),
          nextObject := nextObject s + 1\<rparr>)
      else Threw (DbusRefused path) s)"

definition destroy_object :: "nat \<Rightarrow> manager \<Rightarrow> manager" where
  "destroy_object p s = s\<lparr>objects := (objects s)(p := None)\<rparr>"

definition subscribe_object :: "nat \<Rightarrow> nat \<Rightarrow> manager \<Rightarrow> manager" where
  "subscribe_object n p s = s\<lparr>wp_graph := subscribe n p (wp_graph s)\<rparr>"

definition set_object :: "nat \<Rightarrow> bool \<Rightarrow> manager \<Rightarrow> manager" where
  "set_object p v s = s\<lparr>objects := (objects s)(p := map_option (write_protected_update (\<lambda>_. v)) (objects s p))\<rparr>"

text \<open>The names are taken to be ones that \<open>object_path / name\<close> does not escape.\<close>

definition softwarePath :: "string \<Rightarrow> string" where
  "softwarePath nm = ''/xyz/openbmc_project/software/'' @ nm"

text \<open>\<open>emplace\<close> keeps the object already there; the new one is then destroyed.\<close>

definition addSoftwareToGroup ::
  "(string \<Rightarrow> bool) \<Rightarrow> wp_group \<Rightarrow> string \<Rightarrow> manager \<Rightarrow> (wp_group \<times> manager) wp_result" where
  "addSoftwareToGroup accepts grp nm s =
     and_then (new_object accepts SoftwareFacade (softwarePath nm) s) (\<lambda>(p, s).
       let s = subscribe_object (outputNode grp) p s;
           s = set_object p (output_of (wp_graph s) (outputNode grp)) s
       in if map_of (group_software grp) nm = None
          then Done (grp\<lparr>group_software := (nm, p) # group_software grp\<rparr>, s)
          else Done (grp, destroy_object p s))"

text \<open>A group that goes out of scope destroys its objects; the observers of its node stay.\<close>

definition objects_of :: "wp_group \<Rightarrow> nat set" where
  "objects_of grp =
     set_option (group_domain grp) \<union> set_option (group_hwWpCtrl grp) \<union> snd ` set (group_software grp)"

definition destroy_group :: "wp_group \<Rightarrow> manager \<Rightarrow> manager" where
  "destroy_group grp s = s\<lparr>objects := objects s |` (- objects_of grp)\<rparr>"

fun add_software ::
  "(string \<Rightarrow> bool) \<Rightarrow> wp_group \<Rightarrow> string list \<Rightarrow> manager \<Rightarrow> (wp_group \<times> manager) wp_result" where
  "add_software accepts grp [] s = Done (grp, s)"
| "add_software accepts grp (nm # nms) s =
     (case addSoftwareToGroup accepts grp nm s of
        Threw e s \<Rightarrow> Threw e (destroy_group grp s)
      | r \<Rightarrow> and_then r (\<lambda>(grp, s). add_software accepts grp nms s))"

text \<open>
  \<open>resolveGroupLinks\<close>: the loop over the pending links of the name, which ends early when \<open>connect\<close> throws,
  and then the erasure of the links.
\<close>

fun resolve_links :: "nat \<Rightarrow> (nat \<times> nat) list \<Rightarrow> manager \<Rightarrow> manager wp_result" where
  "resolve_links out [] s = Done s"
| "resolve_links out ((targetNode, sourceNode) # links) s =
     (if out = sourceNode then resolve_links out links s
      else and_then (connect_nodes out targetNode s)
        (\<lambda>s. resolve_links out links (s\<lparr>wp_graph := deactivate sourceNode (wp_graph s)\<rparr>)))"

definition request_stop :: "string \<Rightarrow> manager \<Rightarrow> manager" where
  "request_stop nm s =
     (if entityInitScopes s nm = None then s
      else s\<lparr>entityInitScopes := (entityInitScopes s)(nm \<mapsto> True)\<rparr>)"

definition resolveGroupLinks :: "wp_group \<Rightarrow> string \<Rightarrow> manager \<Rightarrow> manager wp_result" where
  "resolveGroupLinks grp nm s =
     (case pendingEntityLinks s nm of
        None \<Rightarrow> Done s
      | Some links \<Rightarrow>
          and_then (resolve_links (outputNode grp) links (request_stop nm s))
            (\<lambda>s. propagate_graph (s\<lparr>pendingEntityLinks := (pendingEntityLinks s)(nm := None)\<rparr>)))"

text \<open>The loop of \<open>addGroup\<close> over the sources of the configuration.\<close>

definition add_pending :: "string \<Rightarrow> nat \<times> nat \<Rightarrow> manager \<Rightarrow> manager" where
  "add_pending nm link s =
     s\<lparr>pendingEntityLinks := (pendingEntityLinks s)
         (nm \<mapsto> (case pendingEntityLinks s nm of None \<Rightarrow> [] | Some links \<Rightarrow> links) @ [link])\<rparr>"

fun link_sources ::
  "bool \<Rightarrow> nat \<Rightarrow> string list \<Rightarrow> nat option \<Rightarrow> manager \<Rightarrow> (nat option \<times> manager) wp_result" where
  "link_sources isDomain node [] settable s = Done (settable, s)"
| "link_sources isDomain node (nm # nms) settable s =
     (case groups s nm of
        Some grp \<Rightarrow>
          and_then (connect_nodes (outputNode grp) node s) (link_sources isDomain node nms settable)
      | None \<Rightarrow>
          let (src, created, s) = getOrCreateSource nm s in
          and_then (connect_nodes (source_node src) node s) (\<lambda>s.
            let s = (if created then spawnEntityInit nm s else s);
                s = add_pending nm (node, source_node src) s
            in link_sources isDomain node nms
                 (if isDomain \<and> settable = None then Some (source_node src) else settable) s))"

datatype group_interface = WriteProtectGroup | HardwareWriteProtectedControl | WriteProtectDomain

text \<open>
  The D-Bus object of the group itself. The paths derived from the path of the configuration are given:
  that of the domain, and that of the chassis, which is the parent.
\<close>

definition add_facade ::
  "(string \<Rightarrow> bool) \<Rightarrow> group_interface \<Rightarrow> string \<Rightarrow> string \<Rightarrow> nat option \<Rightarrow> wp_group \<Rightarrow> manager \<Rightarrow>
     (wp_group \<times> manager) wp_result" where
  "add_facade accepts iface domainPath chassisPath settable grp s =
     (case iface of
        WriteProtectDomain \<Rightarrow>
          and_then (new_object accepts (DomainFacade settable) domainPath s)
            (\<lambda>(p, s). Done (grp\<lparr>group_domain := Some p\<rparr>, subscribe_object (outputNode grp) p s))
      | HardwareWriteProtectedControl \<Rightarrow>
          and_then (new_object accepts HwWpCtrlFacade chassisPath s)
            (\<lambda>(p, s). Done (grp\<lparr>group_hwWpCtrl := Some p\<rparr>, subscribe_object (outputNode grp) p s))
      | WriteProtectGroup \<Rightarrow> Done (grp, s))"

definition new_group :: "nat \<Rightarrow> wp_group" where
  "new_group n = \<lparr>outputNode = n, group_domain = None, group_hwWpCtrl = None, group_software = []\<rparr>"

definition register_group :: "string \<Rightarrow> wp_group \<Rightarrow> manager \<Rightarrow> manager" where
  "register_group nm grp s = s\<lparr>groups := (groups s)(nm \<mapsto> grp)\<rparr>"

definition addGroup ::
  "(string \<Rightarrow> bool) \<Rightarrow> group_interface \<Rightarrow> string \<Rightarrow> string \<Rightarrow> GroupConfig option \<Rightarrow> manager \<Rightarrow> manager wp_result" where
  "addGroup accepts iface domainPath chassisPath config s =
     (case config of
        None \<Rightarrow> Done s
      | Some c \<Rightarrow>
          if cfg_name c = [] \<or> groups s (cfg_name c) \<noteq> None then Done s
          else
            let (node, g) = addNode (cfg_mode c) (wp_graph s) in
            and_then (link_sources (iface = WriteProtectDomain) node (cfg_sources c) None (s\<lparr>wp_graph := g\<rparr>))
              (\<lambda>(settable, s).
            and_then (add_facade accepts iface domainPath chassisPath settable (new_group node) s) (\<lambda>(grp, s).
            and_then (add_software accepts grp (cfg_components c) s) (\<lambda>(grp, s).
            let s = (register_group (cfg_name c) grp s)
                      \<lparr>wp_configs := (wp_configs s)(cfg_name c \<mapsto> (cfg_mode c, cfg_sources c))\<rparr>
            in and_then (resolveGroupLinks grp (cfg_name c) s) propagate_graph))))"

definition addGpioGroup ::
  "(string \<Rightarrow> bool) \<Rightarrow> GpioInputConfig option \<Rightarrow> manager \<Rightarrow> manager wp_result" where
  "addGpioGroup accepts config s =
     (case config of
        None \<Rightarrow> Done s
      | Some c \<Rightarrow>
          if gpio_name c = [] \<or> gpio_lineName c = [] \<or> groups s (gpio_name c) \<noteq> None then Done s
          else
            let (src, created, s) = getOrCreateSource (gpio_name c) s in
            and_then (add_software accepts (new_group (source_node src)) (gpio_components c) s) (\<lambda>(grp, s).
            and_then (resolveGroupLinks grp (gpio_name c) (register_group (gpio_name c) grp s)) (\<lambda>s.
              Done (spawn (InitGpio (gpio_name c)) s))))"

section \<open>Setting a domain\<close>

definition reply :: "nat \<Rightarrow> set_reply \<Rightarrow> manager \<Rightarrow> manager" where
  "reply call r s = s\<lparr>replies := replies s @ [(call, r)]\<rparr>"

text \<open>What \<open>Domain::method_call\<close> throws for a result of \<open>setWriteProtected\<close>.\<close>

fun domain_reply :: "wp_error + unit \<Rightarrow> set_reply" where
  "domain_reply (Inr _) = SetOk"
| "domain_reply (Inl WpUnsupported) = NotAllowed"
| "domain_reply (Inl _) = InternalFailure"

definition setWriteProtected :: "nat \<Rightarrow> nat \<Rightarrow> bool \<Rightarrow> manager \<Rightarrow> manager" where
  "setWriteProtected call node v s =
     (case sourcesByNodeId s node of
        None \<Rightarrow> reply call (domain_reply (Inl WpUnavailable)) s
      | Some nm \<Rightarrow>
          if protector_of nm s = None then reply call (domain_reply (Inl WpUnavailable)) s
          else spawn (SetAwait call node v) s)"

definition set_done :: "nat \<Rightarrow> nat \<Rightarrow> bool \<Rightarrow> wp_error + unit \<Rightarrow> manager \<Rightarrow> manager" where
  "set_done call node v result s =
     (case result of
        Inl e \<Rightarrow> reply call (domain_reply (Inl e)) s
      | Inr _ \<Rightarrow> spawn (GetAwait call node v) s)"

definition get_done :: "nat \<Rightarrow> nat \<Rightarrow> bool \<Rightarrow> wp_error + bool \<Rightarrow> manager \<Rightarrow> manager wp_result" where
  "get_done call node v result s =
     (case result of
        Inl e \<Rightarrow> Done (reply call (domain_reply (Inl e)) s)
      | Inr actual \<Rightarrow>
          and_then (set_graph_source node actual s) (\<lambda>s.
            Done (reply call (domain_reply (if actual \<noteq> v then Inl WpInternalError else Inr ())) s)))"

text \<open>\<open>Domain::method_call\<close>: a domain without a settable source is read-only.\<close>

definition method_call :: "nat \<Rightarrow> nat \<Rightarrow> bool \<Rightarrow> manager \<Rightarrow> manager" where
  "method_call call p v s =
     (case objects s p of
        Some f \<Rightarrow>
          (case facade_kind f of
             DomainFacade (Some node) \<Rightarrow> setWriteProtected call node v s
           | DomainFacade None \<Rightarrow> reply call NotAllowed s
           | _ \<Rightarrow> s)
      | None \<Rightarrow> s)"

section \<open>Events\<close>

datatype wp_event =
    GroupRead "string \<Rightarrow> bool" group_interface string string wp_properties
  | InputRead "string \<Rightarrow> bool" wp_properties
  | GpioStarts string
  | GpioCreated string bool
  | EntityStarts string
  | ProxyCreated string bool
  | ScopeEmpty string
  | InitialGot string "wp_error + bool"
  | SourceChanged string "wp_error + bool" int
  | CooledOff string
  | SetCalled nat nat bool
  | SetDone nat nat bool "wp_error + unit"
  | GetDone nat nat bool "wp_error + bool"

fun on_wp_event :: "wp_event \<Rightarrow> manager \<Rightarrow> manager wp_result" where
  "on_wp_event (GroupRead accepts iface dp cp props) s = addGroup accepts iface dp cp (group_config props) s"
| "on_wp_event (InputRead accepts props) s = addGpioGroup accepts (gpio_input_config props) s"
| "on_wp_event (GpioStarts nm) s = Done (initializeGpioSource nm (finish (InitGpio nm) s))"
| "on_wp_event (GpioCreated nm ok) s = Done (gpio_created nm ok (finish (GpioCreating nm) s))"
| "on_wp_event (EntityStarts nm) s = Done (scopedEntityInit nm (finish (InitEntity nm) s))"
| "on_wp_event (ProxyCreated nm ok) s = Done (proxy_created nm ok (finish (ProxyCreating nm) s))"
| "on_wp_event (ScopeEmpty nm) s = Done (scope_empty nm s)"
| "on_wp_event (InitialGot nm v) s = activate_got nm v (finish (InitialGet nm) s)"
| "on_wp_event (SourceChanged nm v t) s = monitorSource nm v t (finish (Monitor nm) s)"
| "on_wp_event (CooledOff nm) s = Done (spawn (Monitor nm) (finish (CoolOff nm) s))"
| "on_wp_event (SetCalled call p v) s = Done (method_call call p v s)"
| "on_wp_event (SetDone call node v r) s = Done (set_done call node v r (finish (SetAwait call node v) s))"
| "on_wp_event (GetDone call node v r) s = get_done call node v r (finish (GetAwait call node v) s)"

text \<open>
  When an event can happen: its task is there. A domain is called by its object; the call of a GPIO
  source to \<open>set\<close> answers \<open>Unsupported\<close>, which is all that \<open>Gpio::set\<close> does.
\<close>

fun possible_wp :: "wp_event \<Rightarrow> manager \<Rightarrow> bool" where
  "possible_wp (GroupRead _ _ _ _ _) s \<longleftrightarrow> True"
| "possible_wp (InputRead _ _) s \<longleftrightarrow> True"
| "possible_wp (GpioStarts nm) s \<longleftrightarrow> InitGpio nm \<in> set (tasks s)"
| "possible_wp (GpioCreated nm _) s \<longleftrightarrow> GpioCreating nm \<in> set (tasks s)"
| "possible_wp (EntityStarts nm) s \<longleftrightarrow> InitEntity nm \<in> set (tasks s)"
| "possible_wp (ProxyCreated nm _) s \<longleftrightarrow> ProxyCreating nm \<in> set (tasks s)"
| "possible_wp (ScopeEmpty nm) s \<longleftrightarrow> entityInitScopes s nm \<noteq> None"
| "possible_wp (InitialGot nm _) s \<longleftrightarrow> InitialGet nm \<in> set (tasks s)"
| "possible_wp (SourceChanged nm _ _) s \<longleftrightarrow> Monitor nm \<in> set (tasks s)"
| "possible_wp (CooledOff nm) s \<longleftrightarrow> CoolOff nm \<in> set (tasks s)"
| "possible_wp (SetCalled _ p _) s \<longleftrightarrow> objects s p \<noteq> None"
| "possible_wp (SetDone call node v r) s \<longleftrightarrow> SetAwait call node v \<in> set (tasks s) \<and>
     (case sourcesByNodeId s node of
        None \<Rightarrow> True
      | Some nm \<Rightarrow> protector_of nm s = Some GpioProtector \<longrightarrow> r = Inl WpUnsupported)"
| "possible_wp (GetDone call node v _) s \<longleftrightarrow> GetAwait call node v \<in> set (tasks s)"

text \<open>
  A step: an event that returns, or, with \<open>errors\<close>, one that throws; the exception ends the coroutine and is
  logged.
\<close>

inductive wp_step :: "bool \<Rightarrow> manager \<Rightarrow> manager \<Rightarrow> bool" for errors :: bool where
  wp_done: "possible_wp e s \<Longrightarrow> on_wp_event e s = Done t \<Longrightarrow> wp_step errors s t"
| wp_threw: "errors \<Longrightarrow> possible_wp e s \<Longrightarrow> on_wp_event e s = Threw x t \<Longrightarrow> wp_step errors s t"

abbreviation reachable_wp :: "bool \<Rightarrow> manager \<Rightarrow> bool" where
  "reachable_wp errors \<equiv> reach (\<lambda>s. s = new_manager) (wp_step errors)"

inductive_cases wp_step_cases: "wp_step errors s t"

end
