(* ===== verification/Wp_Tasks.thy ===== *)
theory Wp_Tasks
  imports Wp_Manager
begin

text \<open>
  What every event keeps, exceptions included: a coroutine that installs a protector in a source runs once,
  and finds none when it does; and what an event leaves as it was.
\<close>

section \<open>Rules for results\<close>

text \<open>
  \<open>ensures r Q E\<close>: \<open>Q\<close> holds of what \<open>r\<close> returns, \<open>E\<close> of the state in which it throws; \<open>safely\<close> also rules
  out undefined behaviour and divergence.
\<close>

fun ensures :: "'a wp_result \<Rightarrow> ('a \<Rightarrow> bool) \<Rightarrow> (manager \<Rightarrow> bool) \<Rightarrow> bool" where
  "ensures (Done a) Q E = Q a"
| "ensures (Threw e s) Q E = E s"
| "ensures Undefined Q E = True"
| "ensures Diverges Q E = True"

fun safely :: "'a wp_result \<Rightarrow> ('a \<Rightarrow> bool) \<Rightarrow> bool" where
  "safely (Done a) Q = Q a"
| "safely (Threw e s) Q = True"
| "safely Undefined Q = False"
| "safely Diverges Q = False"

lemma ensures_and_then [simp]: "ensures (and_then r f) Q E = ensures r (\<lambda>a. ensures (f a) Q E) E"
  by (cases r) simp_all

lemma ensures_weaken: "ensures r P F \<Longrightarrow> (\<And>a. P a \<Longrightarrow> Q a) \<Longrightarrow> (\<And>s. F s \<Longrightarrow> E s) \<Longrightarrow> ensures r Q E"
  by (cases r) simp_all

lemma safely_and_then [simp]: "safely (and_then r f) Q = safely r (\<lambda>a. safely (f a) Q)"
  by (cases r) simp_all

lemma safely_weaken: "safely r P \<Longrightarrow> (\<And>a. P a \<Longrightarrow> Q a) \<Longrightarrow> safely r Q"
  by (cases r) simp_all

lemma ensures_Done: "ensures r Q E \<Longrightarrow> r = Done a \<Longrightarrow> Q a"
  by simp

lemma ensures_Threw: "ensures r Q E \<Longrightarrow> r = Threw e s \<Longrightarrow> E s"
  by simp

lemma safely_Done: "safely r Q \<Longrightarrow> r = Done a \<Longrightarrow> Q a"
  by simp

section \<open>What the operations on graph and objects leave alone\<close>

text \<open>The bookkeeping of the manager: everything but the graph and the objects.\<close>

definition same_books :: "manager \<Rightarrow> manager \<Rightarrow> bool" where
  "same_books s t \<longleftrightarrow> sources t = sources s \<and> groups t = groups s \<and> pendingEntityLinks t = pendingEntityLinks s \<and>
     sourcesByNodeId t = sourcesByNodeId s \<and> tasks t = tasks s \<and> replies t = replies s \<and> wp_configs t = wp_configs s"

lemma same_books_refl [simp]: "same_books s s"
  by (simp add: same_books_def)

lemma same_books_trans: "same_books s t \<Longrightarrow> same_books t u \<Longrightarrow> same_books s u"
  by (simp add: same_books_def)

lemma same_books_updates [simp]:
  "same_books s (t\<lparr>wp_graph := g\<rparr>) = same_books s t" "same_books s (t\<lparr>objects := m\<rparr>) = same_books s t"
  "same_books s (t\<lparr>nextObject := k\<rparr>) = same_books s t" "same_books s (t\<lparr>entityInitScopes := c\<rparr>) = same_books s t"
  by (simp_all add: same_books_def)

lemma same_books_objects [simp]:
  "same_books s (destroy_object p t) = same_books s t" "same_books s (subscribe_object n p t) = same_books s t"
  "same_books s (set_object p v t) = same_books s t" "same_books s (destroy_group grp t) = same_books s t"
  "same_books s (request_stop nm t) = same_books s t"
  by (simp_all add: destroy_object_def subscribe_object_def set_object_def destroy_group_def request_stop_def)

lemma books_connect: "ensures (connect_nodes a b s) (same_books s) (same_books s)"
  by (auto simp: connect_nodes_def split: option.split sum.split)

lemma books_call_observers: "same_books s t \<Longrightarrow> ensures (call_observers calls t) (same_books s) E"
  by (induction calls t rule: call_observers.induct) (auto split: option.split)

lemma books_propagate: "same_books s t \<Longrightarrow> ensures (propagate_graph t) (same_books s) E"
  by (auto simp: propagate_graph_def books_call_observers split: option.split)

lemma books_set_source: "ensures (set_graph_source n v s) (same_books s) E"
  by (simp add: set_graph_source_def books_propagate)

lemma books_new_object: "ensures (new_object accepts k path s) (\<lambda>(p, t). same_books s t) (same_books s)"
  by (simp add: new_object_def)

lemma books_software:
  "ensures (addSoftwareToGroup accepts grp nm s) (\<lambda>(grp', t). same_books s t \<and> outputNode grp' = outputNode grp)
     (same_books s)"
  by (auto simp: addSoftwareToGroup_def new_object_def Let_def)

lemma books_add_software:
  "same_books r s \<Longrightarrow> ensures (add_software accepts grp nms s)
     (\<lambda>(grp', t). same_books r t \<and> outputNode grp' = outputNode grp) (same_books r)"
proof (induction nms arbitrary: grp s)
  case (Cons nm nms)
  note one = books_software [of accepts grp nm s] and trans = same_books_trans [OF Cons.prems]
  show ?case
  proof (cases "addSoftwareToGroup accepts grp nm s")
    case (Done a)
    obtain grp1 s1 where a: "a = (grp1, s1)" by (cases a)
    then have "same_books r s1" "outputNode grp1 = outputNode grp"
      using one Done trans by auto
    then show ?thesis
      using Cons.IH [of s1 grp1] by (simp add: Done a)
  next
    case (Threw e s1)
    then show ?thesis
      using one trans [of s1] by simp
  qed simp_all
qed simp

lemma books_add_facade:
  "ensures (add_facade accepts iface dp cp settable grp s)
     (\<lambda>(grp', t). same_books s t \<and> outputNode grp' = outputNode grp) (same_books s)"
  by (auto simp: add_facade_def new_object_def split: group_interface.split)

lemma books_resolve_links:
  "same_books r s \<Longrightarrow> ensures (resolve_links k links s) (same_books r) (same_books r)"
proof (induction k links s rule: resolve_links.induct)
  case (2 k t n links s)
  show ?case
  proof (cases "k = n")
    case False
    have "ensures (connect_nodes k t s) (same_books r) (same_books r)"
      by (rule ensures_weaken [OF books_connect]) (use 2(3) same_books_trans in blast)+
    then show ?thesis
      using False by (auto elim!: ensures_weaken intro!: 2(2))
  qed (use 2 in simp)
qed simp

text \<open>An input adopts every placeholder of its name, so its links are resolved without touching the graph.\<close>

lemma resolve_links_adopted:
  "\<forall>(t, n) \<in> set links. n = k \<Longrightarrow> resolve_links k links s = Done s"
  by (induction k links s rule: resolve_links.induct) auto

section \<open>The protectors\<close>

definition gpio_init :: "string \<Rightarrow> task \<Rightarrow> bool" where
  "gpio_init nm t \<longleftrightarrow> t = InitGpio nm \<or> t = GpioCreating nm"

definition entity_init :: "string \<Rightarrow> task \<Rightarrow> bool" where
  "entity_init nm t \<longleftrightarrow> t = InitEntity nm \<or> t = ProxyCreating nm"

definition node_of :: "string \<Rightarrow> manager \<Rightarrow> nat option" where
  "node_of nm s = map_option source_node (sources s nm)"

lemma source_fields [simp]:
  "node_of nm (s\<lparr>wp_graph := g\<rparr>) = node_of nm s" "protector_of nm (s\<lparr>wp_graph := g\<rparr>) = protector_of nm s"
  "node_of nm (s\<lparr>groups := g'\<rparr>) = node_of nm s" "protector_of nm (s\<lparr>groups := g'\<rparr>) = protector_of nm s"
  "node_of nm (s\<lparr>tasks := ts\<rparr>) = node_of nm s" "protector_of nm (s\<lparr>tasks := ts\<rparr>) = protector_of nm s"
  "node_of nm (s\<lparr>replies := rs\<rparr>) = node_of nm s" "protector_of nm (s\<lparr>replies := rs\<rparr>) = protector_of nm s"
  "node_of nm (s\<lparr>objects := m\<rparr>) = node_of nm s" "protector_of nm (s\<lparr>objects := m\<rparr>) = protector_of nm s"
  "node_of nm (s\<lparr>nextObject := k\<rparr>) = node_of nm s" "protector_of nm (s\<lparr>nextObject := k\<rparr>) = protector_of nm s"
  "node_of nm (s\<lparr>entityInitScopes := c\<rparr>) = node_of nm s" "protector_of nm (s\<lparr>entityInitScopes := c\<rparr>) = protector_of nm s"
  "node_of nm (s\<lparr>pendingEntityLinks := p\<rparr>) = node_of nm s" "protector_of nm (s\<lparr>pendingEntityLinks := p\<rparr>) = protector_of nm s"
  "node_of nm (s\<lparr>wp_configs := cs\<rparr>) = node_of nm s" "protector_of nm (s\<lparr>wp_configs := cs\<rparr>) = protector_of nm s"
  by (simp_all add: node_of_def protector_of_def)

definition books_ok :: "manager \<Rightarrow> bool" where
  "books_ok s \<longleftrightarrow>
     (\<forall>nm. length (filter (gpio_init nm) (tasks s)) \<le> 1 \<and> length (filter (entity_init nm) (tasks s)) \<le> 1) \<and>
     (\<forall>nm t. t \<in> set (tasks s) \<and> gpio_init nm t \<longrightarrow> groups s nm \<noteq> None \<and> wp_configs s nm = None) \<and>
     (\<forall>nm t. t \<in> set (tasks s) \<and> entity_init nm t \<longrightarrow> sources s nm \<noteq> None) \<and>
     (\<forall>nm. GpioCreating nm \<in> set (tasks s) \<longrightarrow> protector_of nm s = None) \<and>
     (\<forall>nm. ProxyCreating nm \<in> set (tasks s) \<longrightarrow>
        protector_of nm s = None \<or> groups s nm \<noteq> None \<and> wp_configs s nm = None) \<and>
     (\<forall>nm. groups s nm \<noteq> None \<and> wp_configs s nm = None \<longrightarrow> pendingEntityLinks s nm = None) \<and>
     (\<forall>nm. pendingEntityLinks s nm \<noteq> None \<longrightarrow> sources s nm \<noteq> None) \<and>
     (\<forall>nm links t n. pendingEntityLinks s nm = Some links \<and> (t, n) \<in> set links \<longrightarrow> node_of nm s = Some n) \<and>
     (\<forall>nm. wp_configs s nm \<noteq> None \<longrightarrow> groups s nm \<noteq> None)"

lemma books_ok_same: "same_books s t \<Longrightarrow> books_ok t = books_ok s"
  by (simp add: same_books_def books_ok_def protector_of_def node_of_def)

text \<open>What no event takes away.\<close>

definition grows :: "manager \<Rightarrow> manager \<Rightarrow> bool" where
  "grows s t \<longleftrightarrow>
     (\<forall>nm grp. groups s nm = Some grp \<longrightarrow> groups t nm = Some grp) \<and>
     (\<forall>nm p. protector_of nm s = Some p \<longrightarrow> protector_of nm t = Some p) \<and>
     (\<forall>nm k. node_of nm s = Some k \<longrightarrow> node_of nm t = Some k)"

lemma grows_refl [simp]: "grows s s"
  by (simp add: grows_def)

lemma grows_trans: "grows s t \<Longrightarrow> grows t u \<Longrightarrow> grows s u"
  by (simp add: grows_def)

lemma grows_same: "same_books s t \<Longrightarrow> grows s t"
  by (simp add: same_books_def grows_def protector_of_def node_of_def)

lemma filter_remove1_empty:
  "length (filter P xs) \<le> 1 \<Longrightarrow> x \<in> set xs \<Longrightarrow> P x \<Longrightarrow> filter P (remove1 x xs) = []"
proof -
  assume le: "length (filter P xs) \<le> 1" and x: "x \<in> set xs" "P x"
  then have "x \<in> set (filter P xs)" by simp
  with le have "filter P xs = [x]"
    by (cases "filter P xs") auto
  then show ?thesis by (simp add: filter_remove1)
qed

lemma length_filter_remove1: "length (filter P (remove1 x xs)) \<le> length (filter P xs)"
  by (simp add: filter_remove1 length_remove1)


lemma books_source:
  assumes "books_ok s" "getOrCreateSource nm s = (src, created, t)"
  shows "books_ok t" "grows s t" "sources t nm = Some src" "groups t = groups s" "wp_configs t = wp_configs s"
    "pendingEntityLinks t = pendingEntityLinks s" "tasks t = tasks s"
    "created \<Longrightarrow> u \<in> set (tasks t) \<Longrightarrow> \<not> entity_init nm u"
proof -
  consider "t = s" "sources s nm = Some src" "\<not> created"
    | g k where "created" "sources s nm = None" "src = \<lparr>source_node = k, protector = None, lastChanged = None\<rparr>"
        "t = s\<lparr>wp_graph := g, sources := (sources s)(nm \<mapsto> src), sourcesByNodeId := (sourcesByNodeId s)(k \<mapsto> nm)\<rparr>"
    using assms(2) by (auto simp: getOrCreateSource_def Let_def split: option.splits prod.splits)
  then have *: "books_ok t \<and> grows s t \<and> sources t nm = Some src \<and> groups t = groups s \<and> wp_configs t = wp_configs s \<and>
    pendingEntityLinks t = pendingEntityLinks s \<and> tasks t = tasks s \<and>
    (created \<longrightarrow> u \<in> set (tasks t) \<longrightarrow> \<not> entity_init nm u)"
  proof cases
    case 2
    have "protector_of m t = protector_of m s" for m
      using 2 by (simp add: protector_of_def)
    moreover have "grows s t"
      using 2 by (auto simp: grows_def node_of_def protector_of_def)
    moreover have "node_of m t = node_of m s" if "m \<noteq> nm" for m
      using 2 that by (simp add: node_of_def)
    moreover have "pendingEntityLinks s nm = None"
      using 2 assms(1) by (auto simp: books_ok_def)
    ultimately show ?thesis
      using 2 assms(1) unfolding books_ok_def by (auto; metis option.distinct(1))
  qed (use assms in auto)
  then show "books_ok t" "grows s t" "sources t nm = Some src" "groups t = groups s" "wp_configs t = wp_configs s"
    "pendingEntityLinks t = pendingEntityLinks s" "tasks t = tasks s"
    "created \<Longrightarrow> u \<in> set (tasks t) \<Longrightarrow> \<not> entity_init nm u"
    by auto
qed

lemma books_spawn_entity:
  assumes "books_ok s" "sources s nm \<noteq> None" "\<And>u. u \<in> set (tasks s) \<Longrightarrow> \<not> entity_init nm u"
  shows "books_ok (spawnEntityInit nm s)"
proof -
  have "filter (entity_init nm) (tasks s) = []" using assms(3) by (simp add: filter_empty_conv)
  moreover have "entity_init m (InitEntity nm) \<longleftrightarrow> m = nm" "\<not> gpio_init m (InitEntity nm)" for m
    by (auto simp: entity_init_def gpio_init_def)
  ultimately show ?thesis
    using assms(1,2) by (auto simp: books_ok_def spawnEntityInit_def spawn_def protector_of_def node_of_def)
qed

lemma spawnEntityInit_frame [simp]:
  "sources (spawnEntityInit nm s) = sources s" "groups (spawnEntityInit nm s) = groups s"
  "wp_configs (spawnEntityInit nm s) = wp_configs s" "grows r (spawnEntityInit nm s) = grows r s"
  "wp_graph (spawnEntityInit nm s) = wp_graph s" "objects (spawnEntityInit nm s) = objects s"
  "nextObject (spawnEntityInit nm s) = nextObject s" "sourcesByNodeId (spawnEntityInit nm s) = sourcesByNodeId s"
  "pendingEntityLinks (spawnEntityInit nm s) = pendingEntityLinks s"
  "protector_of m (spawnEntityInit nm s) = protector_of m s" "node_of m (spawnEntityInit nm s) = node_of m s"
  by (simp_all add: spawnEntityInit_def spawn_def grows_def protector_of_def node_of_def)

lemma books_add_pending:
  assumes "books_ok s" "groups s nm = None" "sources s nm = Some src"
  shows "books_ok (add_pending nm (k, source_node src) s)"
proof -
  have "node_of nm s = Some (source_node src)" using assms by (simp add: node_of_def)
  then show ?thesis
    using assms by (cases "pendingEntityLinks s nm") (auto simp: books_ok_def add_pending_def)
qed

lemma add_pending_frame [simp]:
  "sources (add_pending nm l s) = sources s" "groups (add_pending nm l s) = groups s"
  "wp_configs (add_pending nm l s) = wp_configs s" "grows r (add_pending nm l s) = grows r s"
  "wp_graph (add_pending nm l s) = wp_graph s" "objects (add_pending nm l s) = objects s"
  "nextObject (add_pending nm l s) = nextObject s" "sourcesByNodeId (add_pending nm l s) = sourcesByNodeId s"
  "protector_of m (add_pending nm l s) = protector_of m s" "node_of m (add_pending nm l s) = node_of m s"
  "tasks (add_pending nm l s) = tasks s"
  by (simp_all add: add_pending_def grows_def protector_of_def node_of_def)

definition linked :: "manager \<Rightarrow> manager \<Rightarrow> bool" where
  "linked s t \<longleftrightarrow> books_ok t \<and> grows s t \<and> groups t = groups s \<and> wp_configs t = wp_configs s"

lemma linked_trans: "linked s t \<Longrightarrow> linked t u \<Longrightarrow> linked s u"
  by (auto simp: linked_def intro: grows_trans)

lemma linked_same: "books_ok s \<Longrightarrow> same_books s t \<Longrightarrow> linked s t"
  using books_ok_same [of s t] grows_same [of s t] by (simp add: linked_def same_books_def)

lemma books_link_sources:
  "books_ok s \<Longrightarrow> ensures (link_sources d k nms settable s) (\<lambda>(x, t). linked s t) (linked s)"
proof (induction nms arbitrary: settable s)
  case (Cons nm nms)
  have go: "ensures (link_sources d k nms x t) (\<lambda>(x, u). linked s u) (linked s)" if "linked s t" for x t
    by (rule ensures_weaken [OF Cons.IH]) (use that linked_trans [OF that] in \<open>auto simp: linked_def\<close>)
  show ?case
  proof (cases "groups s nm")
    case (Some grp)
    have "ensures (connect_nodes (outputNode grp) k s) (linked s) (linked s)"
      by (rule ensures_weaken [OF books_connect]) (use Cons.prems linked_same in auto)
    then show ?thesis
      using Some by (auto elim!: ensures_weaken intro!: go)
  next
    case None
    obtain src created t where t: "getOrCreateSource nm s = (src, created, t)" by (metis prod_cases3)
    note T = books_source [OF Cons.prems t]
    have lt: "linked s t" using T by (simp add: linked_def)
    have c: "ensures (connect_nodes (source_node src) k t) (same_books t) (linked s)"
      by (rule ensures_weaken [OF books_connect]) (use lt T(1) linked_same linked_trans in blast)+
    have new: "linked s (add_pending nm (k, source_node src) (if created then spawnEntityInit nm u else u))"
      if u: "same_books t u" for u
    proof -
      have l: "linked s u" by (rule linked_trans [OF lt linked_same [OF T(1) u]])
      have "sources u = sources t" "tasks u = tasks t" "groups u nm = None"
        using u None T(4) by (simp_all add: same_books_def)
      then show ?thesis
        using l T(3,8) books_spawn_entity [of u nm] books_add_pending [of _ nm src k] by (auto simp: linked_def)
    qed
    show ?thesis
      by (simp add: None t Let_def split del: if_split) (rule ensures_weaken [OF c], rule go, rule new, assumption+)
  qed
qed (simp add: linked_def)


definition good :: "manager \<Rightarrow> manager \<Rightarrow> bool" where
  "good s t \<longleftrightarrow> books_ok t \<and> grows s t"

lemma good_trans: "good s t \<Longrightarrow> good t u \<Longrightarrow> good s u"
  by (auto simp: good_def intro: grows_trans)

lemma good_same: "books_ok s \<Longrightarrow> same_books s t \<Longrightarrow> good s t"
  using books_ok_same [of s t] grows_same [of s t] by (simp add: good_def)

lemma good_books: "good s t \<Longrightarrow> books_ok t"
  by (simp add: good_def)

text \<open>An operation that changes the graph and the objects only, after one that was good.\<close>

lemma good_then:
  assumes "ensures r (same_books s) (same_books s)" "good r0 s"
  shows "ensures r (good r0) (good r0)"
  by (rule ensures_weaken [OF assms(1)]) (use assms(2) good_trans good_same good_books in blast)+

lemma books_erase_pending:
  "books_ok s \<Longrightarrow> books_ok (s\<lparr>pendingEntityLinks := (pendingEntityLinks s)(nm := None)\<rparr>)"
  by (auto simp: books_ok_def)

lemma books_configs: "books_ok s \<Longrightarrow> groups s nm = None \<Longrightarrow> wp_configs s nm = None"
  unfolding books_ok_def by metis

lemma grows_erase_pending [simp]:
  "grows r (s\<lparr>pendingEntityLinks := p\<rparr>) = grows r s"
  by (simp add: grows_def)

lemma books_resolve:
  assumes "books_ok s"
  shows "ensures (resolveGroupLinks grp nm s) (good s) (good s)"
proof (cases "pendingEntityLinks s nm")
  case (Some links)
  have b: "ensures (resolve_links (outputNode grp) links (request_stop nm s)) (same_books s) (same_books s)"
    by (rule books_resolve_links) simp
  have "ensures (propagate_graph (t\<lparr>pendingEntityLinks := (pendingEntityLinks t)(nm := None)\<rparr>)) (good s) (good s)"
    if t: "same_books s t" for t
  proof -
    have "good s t" using assms t by (rule good_same)
    then have "good s (t\<lparr>pendingEntityLinks := (pendingEntityLinks t)(nm := None)\<rparr>)"
      by (simp add: good_def books_erase_pending)
    with books_propagate [OF same_books_refl] show ?thesis by (rule good_then)
  qed
  then show ?thesis
    using Some b by (auto simp: resolveGroupLinks_def elim!: ensures_weaken intro: good_same [OF assms])
qed (use assms in \<open>simp add: resolveGroupLinks_def good_def\<close>)

lemma books_register:
  assumes "books_ok s" "groups s nm = None"
  shows "good s ((register_group nm grp s)\<lparr>wp_configs := (wp_configs s)(nm \<mapsto> c)\<rparr>)"
proof -
  have "wp_configs s nm = None" using assms by (rule books_configs)
  then show ?thesis
    using assms by (auto simp: good_def books_ok_def grows_def register_group_def)
qed

lemma same_books_groups: "same_books s t \<Longrightarrow> groups t = groups s"
  by (simp add: same_books_def)

lemma good_addGroup:
  assumes "books_ok s"
  shows "ensures (addGroup accepts iface dp cp config s) (good s) (good s)"
proof (cases "\<exists>c. config = Some c \<and> cfg_name c \<noteq> [] \<and> groups s (cfg_name c) = None")
  case False
  then show ?thesis
    using assms by (auto simp: addGroup_def good_def split: option.splits)
next
  case True
  then obtain c where c: "config = Some c" "cfg_name c \<noteq> []" "groups s (cfg_name c) = None" by blast
  obtain k g where g: "addNode (cfg_mode c) (wp_graph s) = (k, g)" by (cases "addNode (cfg_mode c) (wp_graph s)")
  let ?s = "s\<lparr>wp_graph := g\<rparr>"
  have l: "linked s t" if "linked ?s t" for t
    using that linked_trans [OF linked_same [OF assms, of ?s]] by simp
  have link: "ensures (link_sources d k nms x ?s) (\<lambda>(x, t). linked s t) (linked s)" for d nms x
    by (rule ensures_weaken [OF books_link_sources]) (use assms books_ok_same [of s ?s] l in auto)
  have fin: "ensures (and_then (resolveGroupLinks grp (cfg_name c) ((register_group (cfg_name c) grp t)
      \<lparr>wp_configs := (wp_configs t)(cfg_name c \<mapsto> x)\<rparr>)) propagate_graph) (good s) (good s)"
    if t: "linked s t" for t grp x
  proof -
    let ?u = "(register_group (cfg_name c) grp t)\<lparr>wp_configs := (wp_configs t)(cfg_name c \<mapsto> x)\<rparr>"
    have gt: "good s t" using t by (simp add: good_def linked_def)
    have u: "good s ?u"
      using good_trans [OF gt books_register] t c(3) by (auto simp: linked_def)
    have p: "ensures (propagate_graph v) (good s) (good s)" if "good s v" for v
      by (rule good_then [OF books_propagate [OF same_books_refl] that])
    show ?thesis
      using books_resolve [OF good_books [OF u], of grp "cfg_name c"]
      by (auto elim!: ensures_weaken intro!: p intro: good_trans [OF u])
  qed
  have soft: "ensures (and_then (add_software accepts grp nms t) (\<lambda>(grp, s). let s = (register_group (cfg_name c) grp s)
      \<lparr>wp_configs := (wp_configs s)(cfg_name c \<mapsto> (cfg_mode c, cfg_sources c))\<rparr> in and_then (resolveGroupLinks grp (cfg_name c) s) propagate_graph))
      (good s) (good s)" if t: "linked s t" for t grp nms
  proof -
    have same: "linked s u" "good s u" if "same_books t u" for u
      using linked_trans [OF t linked_same [OF _ that]] t by (auto simp: linked_def good_def)
    show ?thesis
      using books_add_software [OF same_books_refl [of t], of accepts grp nms]
      by (auto simp: Let_def elim!: ensures_weaken intro!: same fin [unfolded ensures_and_then])
  qed
  have fac: "ensures (add_facade accepts iface dp cp x grp t) (\<lambda>(grp', u). linked s u) (good s)" if t: "linked s t" for x grp t
  proof -
    have same: "linked s u" "good s u" if "same_books t u" for u
      using linked_trans [OF t linked_same [OF _ that]] t by (auto simp: linked_def good_def)
    show ?thesis
      by (rule ensures_weaken [OF books_add_facade]) (auto intro: same)
  qed
  have "linked s t \<Longrightarrow> good s t" for t by (simp add: linked_def good_def)
  then show ?thesis
    using c link [of "iface = WriteProtectDomain" "cfg_sources c" None] fac soft
    by (fastforce simp: addGroup_def g elim!: ensures_weaken)
qed


lemma pending_node:
  "books_ok s \<Longrightarrow> pendingEntityLinks s nm = Some links \<Longrightarrow> (t, n) \<in> set links \<Longrightarrow> node_of nm s = Some n"
  unfolding books_ok_def by blast

lemma good_addGpioGroup:
  assumes "books_ok s"
  shows "ensures (addGpioGroup accepts config s) (good s) (good s)"
proof (cases "\<exists>c. config = Some c \<and> gpio_name c \<noteq> [] \<and> gpio_lineName c \<noteq> [] \<and> groups s (gpio_name c) = None")
  case False
  then show ?thesis
    using assms by (auto simp: addGpioGroup_def good_def split: option.splits)
next
  case True
  then obtain c where c: "config = Some c" "gpio_name c \<noteq> []" "gpio_lineName c \<noteq> []"
    "groups s (gpio_name c) = None" by blast
  obtain src created t where t: "getOrCreateSource (gpio_name c) s = (src, created, t)" by (metis prod_cases3)
  note T = books_source [OF assms t]
  have gt: "good s t" using T by (simp add: good_def)
  have fin: "ensures (resolveGroupLinks grp (gpio_name c) (register_group (gpio_name c) grp u))
      (\<lambda>v. good s (spawn (InitGpio (gpio_name c)) v)) (good s)"
    if u: "same_books t u" and out: "outputNode grp = source_node src" for u grp
  proof -
    let ?u = "register_group (gpio_name c) grp u"
    let ?v = "?u\<lparr>pendingEntityLinks := (pendingEntityLinks ?u)(gpio_name c := None)\<rparr>"
    have gu: "good s u" by (rule good_trans [OF gt good_same [OF T(1) u]])
    have none: "groups u (gpio_name c) = None" "wp_configs u (gpio_name c) = None"
      using u T(4) c(4) books_configs [OF good_books [OF gu]] by (simp_all add: same_books_def)
    have no_init: "filter (gpio_init (gpio_name c)) (tasks u) = []"
      using good_books [OF gu] none by (auto simp: books_ok_def filter_empty_conv)
    have "good s (spawn (InitGpio (gpio_name c)) w)" if w: "same_books ?v w" for w
    proof -
      have w_fields: "sources w = sources u" "groups w = (groups u)(gpio_name c \<mapsto> grp)" "wp_configs w = wp_configs u"
        "pendingEntityLinks w = (pendingEntityLinks u)(gpio_name c := None)" "tasks w = tasks u"
        using w by (simp_all add: same_books_def register_group_def)
      have "grows u w" using w_fields none by (auto simp: grows_def node_of_def protector_of_def)
      moreover have "books_ok (spawn (InitGpio (gpio_name c)) w)"
        using good_books [OF gu] none no_init w_fields
        by (auto simp: books_ok_def spawn_def gpio_init_def entity_init_def protector_of_def node_of_def)
      ultimately show ?thesis
        using gu grows_trans by (auto simp: good_def spawn_def grows_def node_of_def protector_of_def)
    qed
    note spawned = this
    have adopted: "\<forall>(a, n) \<in> set links. n = outputNode grp" if "pendingEntityLinks u (gpio_name c) = Some links" for links
    proof -
      have "node_of (gpio_name c) u = Some (outputNode grp)"
        using u T(3) out by (simp add: same_books_def node_of_def)
      then show ?thesis using pending_node [OF good_books [OF gu] that] by auto
    qed
    show ?thesis
    proof (cases "pendingEntityLinks u (gpio_name c)")
      case None
      then have "?v = ?u" by (simp add: register_group_def fun_upd_idem)
      then show ?thesis
        using None spawned [of ?u] by (simp add: resolveGroupLinks_def register_group_def)
    next
      case (Some links)
      let ?w = "request_stop (gpio_name c) ?u"
      have "ensures (propagate_graph (?w\<lparr>pendingEntityLinks := (pendingEntityLinks ?w)(gpio_name c := None)\<rparr>))
          (same_books ?v) (\<lambda>_. False)"
        by (rule books_propagate) (simp add: same_books_def request_stop_def register_group_def)
      then show ?thesis
        using Some resolve_links_adopted [OF adopted [OF Some]] spawned
        by (auto simp: resolveGroupLinks_def register_group_def elim!: ensures_weaken)
    qed
  qed
  have same: "good s u" if "same_books t u" for u by (rule good_trans [OF gt good_same [OF T(1) that]])
  show ?thesis
    using books_add_software [OF same_books_refl [of t], of accepts "new_group (source_node src)" "gpio_components c"]
    by (auto simp: addGpioGroup_def c t new_group_def elim!: ensures_weaken intro!: same fin)
qed


section \<open>Every event\<close>

lemma books_okD:
  assumes "books_ok s"
  shows "length (filter (gpio_init nm) (tasks s)) \<le> 1" "length (filter (entity_init nm) (tasks s)) \<le> 1"
    and "t \<in> set (tasks s) \<Longrightarrow> gpio_init nm t \<Longrightarrow> groups s nm \<noteq> None \<and> wp_configs s nm = None"
    and "t \<in> set (tasks s) \<Longrightarrow> entity_init nm t \<Longrightarrow> sources s nm \<noteq> None"
    and "GpioCreating nm \<in> set (tasks s) \<Longrightarrow> protector_of nm s = None"
    and "ProxyCreating nm \<in> set (tasks s) \<Longrightarrow> protector_of nm s = None \<or> groups s nm \<noteq> None \<and> wp_configs s nm = None"
    and "groups s nm \<noteq> None \<Longrightarrow> wp_configs s nm = None \<Longrightarrow> pendingEntityLinks s nm = None"
    and "pendingEntityLinks s nm \<noteq> None \<Longrightarrow> sources s nm \<noteq> None"
    and "pendingEntityLinks s nm = Some links \<Longrightarrow> (a, n) \<in> set links \<Longrightarrow> node_of nm s = Some n"
    and "wp_configs s nm \<noteq> None \<Longrightarrow> groups s nm \<noteq> None"
  using assms unfolding books_ok_def by (elim conjE; meson)+

text \<open>An operation that changes tasks and sources only has to keep these.\<close>

lemma good_tasks_sources:
  assumes "books_ok s" "groups t = groups s" "wp_configs t = wp_configs s" "pendingEntityLinks t = pendingEntityLinks s"
    and "\<And>nm. node_of nm t = node_of nm s" "\<And>nm p. protector_of nm s = Some p \<Longrightarrow> protector_of nm t = Some p"
    and "\<And>nm. length (filter (gpio_init nm) (tasks t)) \<le> 1" "\<And>nm. length (filter (entity_init nm) (tasks t)) \<le> 1"
    and "\<And>nm u. u \<in> set (tasks t) \<Longrightarrow> gpio_init nm u \<Longrightarrow> groups s nm \<noteq> None \<and> wp_configs s nm = None"
    and "\<And>nm u. u \<in> set (tasks t) \<Longrightarrow> entity_init nm u \<Longrightarrow> sources s nm \<noteq> None"
    and "\<And>nm. GpioCreating nm \<in> set (tasks t) \<Longrightarrow> protector_of nm t = None"
    and "\<And>nm. ProxyCreating nm \<in> set (tasks t) \<Longrightarrow> protector_of nm t = None \<or> groups s nm \<noteq> None \<and> wp_configs s nm = None"
  shows "good s t"
proof -
  have src: "sources t nm = None \<longleftrightarrow> sources s nm = None" for nm
    using assms(5) [of nm] unfolding node_of_def by (metis map_option_is_None)
  show ?thesis
    unfolding good_def books_ok_def grows_def assms(2-5)
    using books_okD(7-10) [OF assms(1)] assms(6-) src by (intro conjI allI impI; meson)
qed

lemma good_refl: "books_ok s \<Longrightarrow> good s s"
  by (simp add: good_def)

lemma good_finish:
  assumes "books_ok s" shows "good s (finish t s)"
proof (rule good_tasks_sources [OF assms])
  have sub: "set (tasks (finish t s)) \<subseteq> set (tasks s)"
    by (simp add: finish_def set_remove1_subset)
  show "length (filter (gpio_init nm) (tasks (finish t s))) \<le> 1" "length (filter (entity_init nm) (tasks (finish t s))) \<le> 1" for nm
    using books_okD(1,2) [OF assms, of nm] length_filter_remove1 [of "gpio_init nm" t "tasks s"]
      length_filter_remove1 [of "entity_init nm" t "tasks s"] by (simp_all add: finish_def)
  fix nm u assume "u \<in> set (tasks (finish t s))"
  with sub have "u \<in> set (tasks s)" by blast
  then show "gpio_init nm u \<Longrightarrow> groups s nm \<noteq> None \<and> wp_configs s nm = None" "entity_init nm u \<Longrightarrow> sources s nm \<noteq> None"
    using books_okD(3,4) [OF assms] by blast+
next
  have sub: "set (tasks (finish t s)) \<subseteq> set (tasks s)"
    by (simp add: finish_def set_remove1_subset)
  show "protector_of nm (finish t s) = None" if "GpioCreating nm \<in> set (tasks (finish t s))" for nm
    using that sub books_okD(5) [OF assms] by (auto simp: finish_def)
  show "protector_of nm (finish t s) = None \<or> groups s nm \<noteq> None \<and> wp_configs s nm = None"
    if "ProxyCreating nm \<in> set (tasks (finish t s))" for nm
    using that sub books_okD(6) [OF assms, of nm] by (auto simp: finish_def)
qed (simp_all add: finish_def)

lemma finish_no_init:
  assumes "books_ok s" "t \<in> set (tasks s)"
  shows "gpio_init nm t \<Longrightarrow> filter (gpio_init nm) (tasks (finish t s)) = []"
    and "entity_init nm t \<Longrightarrow> filter (entity_init nm) (tasks (finish t s)) = []"
  using assms filter_remove1_empty [OF _ assms(2)] by (simp_all add: finish_def books_ok_def)

lemma finish_frame [simp]:
  "sources (finish t s) = sources s" "groups (finish t s) = groups s" "wp_configs (finish t s) = wp_configs s"
  "pendingEntityLinks (finish t s) = pendingEntityLinks s" "protector_of nm (finish t s) = protector_of nm s"
  "wp_graph (finish t s) = wp_graph s" "objects (finish t s) = objects s" "nextObject (finish t s) = nextObject s"
  "sourcesByNodeId (finish t s) = sourcesByNodeId s" "node_of nm (finish t s) = node_of nm s"
  "entityInitScopes (finish t s) = entityInitScopes s"
  by (simp_all add: finish_def protector_of_def node_of_def)

lemma good_spawn:
  assumes "books_ok s"
    and "\<And>nm. gpio_init nm t \<Longrightarrow> filter (gpio_init nm) (tasks s) = [] \<and> groups s nm \<noteq> None \<and> wp_configs s nm = None \<and>
      protector_of nm s = None"
    and "\<And>nm. entity_init nm t \<Longrightarrow> filter (entity_init nm) (tasks s) = [] \<and> sources s nm \<noteq> None \<and> protector_of nm s = None"
  shows "good s (spawn t s)"
proof (rule good_tasks_sources [OF assms(1)])
  show "length (filter (gpio_init nm) (tasks (spawn t s))) \<le> 1" for nm
    using books_okD(1) [OF assms(1), of nm] assms(2) [of nm] by (auto simp: spawn_def)
  show "length (filter (entity_init nm) (tasks (spawn t s))) \<le> 1" for nm
    using books_okD(2) [OF assms(1), of nm] assms(3) [of nm] by (auto simp: spawn_def)
  show "protector_of nm (spawn t s) = None" if "GpioCreating nm \<in> set (tasks (spawn t s))" for nm
    using that books_okD(5) [OF assms(1), of nm] assms(2) [of nm] by (auto simp: spawn_def gpio_init_def)
  show "protector_of nm (spawn t s) = None \<or> groups s nm \<noteq> None \<and> wp_configs s nm = None"
    if "ProxyCreating nm \<in> set (tasks (spawn t s))" for nm
    using that books_okD(6) [OF assms(1), of nm] assms(3) [of nm] by (auto simp: spawn_def entity_init_def)
  fix nm u assume "u \<in> set (tasks (spawn t s))"
  then show "gpio_init nm u \<Longrightarrow> groups s nm \<noteq> None \<and> wp_configs s nm = None" "entity_init nm u \<Longrightarrow> sources s nm \<noteq> None"
    using books_okD(3,4) [OF assms(1), of u nm] assms(2,3) [of nm] by (auto simp: spawn_def)
qed (simp_all add: spawn_def)

lemma good_update_protector:
  assumes "books_ok s" "protector_of nm s = None"
    and "filter (gpio_init nm) (tasks s) = [] \<or> groups s nm = None \<or> wp_configs s nm \<noteq> None"
    and "filter (entity_init nm) (tasks s) = [] \<or> groups s nm \<noteq> None \<and> wp_configs s nm = None"
  shows "good s (update_source nm (protector_update (\<lambda>_. p)) s)"
proof -
  let ?t = "update_source nm (protector_update (\<lambda>_. p)) s"
  have f: "node_of m ?t = node_of m s" "protector_of m ?t = (if m = nm then (if sources s nm = None then None else p) else protector_of m s)"
    "sources ?t m = None \<longleftrightarrow> sources s m = None" for m
    by (auto simp: update_source_def node_of_def protector_of_def map_option.compositionality o_def split: option.splits)
  have g: "groups ?t = groups s" "wp_configs ?t = wp_configs s" "tasks ?t = tasks s"
    "pendingEntityLinks ?t = pendingEntityLinks s"
    by (simp_all add: update_source_def)
  have "GpioCreating nm \<notin> set (tasks s)"
    using assms(3) books_okD(3) [OF assms(1), of "GpioCreating nm" nm] by (auto simp: filter_empty_conv gpio_init_def)
  moreover have "ProxyCreating nm \<in> set (tasks s) \<Longrightarrow> groups s nm \<noteq> None \<and> wp_configs s nm = None"
    using assms(4) by (auto simp: filter_empty_conv entity_init_def)
  moreover note books_okD(1-6) [OF assms(1)]
  ultimately show ?thesis
    by (intro good_tasks_sources [OF assms(1)]) (use assms(2) in \<open>auto simp: f g split: if_splits\<close>)
qed

lemma good_lastChanged:
  assumes "books_ok s" shows "good s (update_source nm (lastChanged_update f) s)"
proof -
  let ?t = "update_source nm (lastChanged_update f) s"
  have "node_of m ?t = node_of m s" "protector_of m ?t = protector_of m s" for m
    by (cases "sources s m"; auto simp: update_source_def node_of_def protector_of_def)+
  then show ?thesis
    by (intro good_tasks_sources [OF assms]) (use books_okD(1-6) [OF assms] in \<open>auto simp: update_source_def\<close>)
qed

lemma not_init [simp]:
  "\<not> gpio_init nm (InitialGet m)" "\<not> gpio_init nm (Monitor m)" "\<not> gpio_init nm (CoolOff m)"
  "\<not> gpio_init nm (SetAwait c k v)" "\<not> gpio_init nm (GetAwait c k v)" "\<not> gpio_init nm (ProxyCreating m)"
  "\<not> entity_init nm (InitialGet m)" "\<not> entity_init nm (Monitor m)" "\<not> entity_init nm (CoolOff m)"
  "\<not> entity_init nm (SetAwait c k v)" "\<not> entity_init nm (GetAwait c k v)" "\<not> entity_init nm (GpioCreating m)"
  "gpio_init nm (GpioCreating m) \<longleftrightarrow> m = nm" "gpio_init nm (InitGpio m) \<longleftrightarrow> m = nm"
  "entity_init nm (ProxyCreating m) \<longleftrightarrow> m = nm" "entity_init nm (InitEntity m) \<longleftrightarrow> m = nm"
  by (auto simp: gpio_init_def entity_init_def)

lemma good_reply: "books_ok s \<Longrightarrow> good s (reply call r s)"
  by (rule good_tasks_sources) (use books_okD(1-6) in \<open>auto simp: reply_def\<close>)

lemma good_event:
  assumes "books_ok s" "possible_wp e s"
  shows "ensures (on_wp_event e s) (good s) (good s)"
proof -
  note fin = good_finish [OF assms(1)]
  note then_good = good_trans [OF fin]
  have sg: "ensures (set_graph_source k v t) (good s) E" if "good s t" for k v t E
    by (rule ensures_weaken [OF books_set_source [where E = "\<lambda>_. False"]])
      (use that good_trans good_same good_books in blast)+
  have mon: "good s (monitor_again nm t u)" if "good s u" for nm t u
    by (auto simp: monitor_again_def Let_def split: option.split
        intro!: good_trans [OF that good_trans [OF good_lastChanged [OF good_books [OF that]] good_spawn]]
          good_books [OF good_lastChanged [OF good_books [OF that]]])
  show ?thesis
  proof (cases e)
    case (GroupRead accepts iface dp cp props)
    then show ?thesis using good_addGroup [OF assms(1)] by simp
  next
    case (InputRead accepts props)
    then show ?thesis using good_addGpioGroup [OF assms(1)] by simp
  next
    case (GpioStarts nm)
    then have t: "InitGpio nm \<in> set (tasks s)" using assms(2) by simp
    have "groups s nm \<noteq> None \<and> wp_configs s nm = None"
      using books_okD(3) [OF assms(1) t] by simp
    then show ?thesis
      using GpioStarts finish_no_init(1) [OF assms(1) t] fin
      by (auto simp: initializeGpioSource_def intro!: then_good good_spawn good_books [OF fin])
  next
    case (GpioCreated nm ok)
    then have t: "GpioCreating nm \<in> set (tasks s)" using assms(2) by simp
    have g: "groups s nm \<noteq> None \<and> wp_configs s nm = None" "protector_of nm s = None"
      using books_okD(3) [OF assms(1) t, of nm] books_okD(5) [OF assms(1) t] by simp_all
    let ?u = "update_source nm (protector_update (\<lambda>_. Some GpioProtector)) (finish (GpioCreating nm) s)"
    have "good s ?u"
      by (rule then_good [OF good_update_protector [OF good_books [OF fin]]])
        (use g finish_no_init(1) [OF assms(1) t] in auto)
    then show ?thesis
      using GpioCreated fin by (auto simp: gpio_created_def activateSource_def intro!: good_trans [OF _ good_spawn] dest: good_books)
  next
    case (EntityStarts nm)
    then have t: "InitEntity nm \<in> set (tasks s)" using assms(2) by simp
    have "sources s nm \<noteq> None"
      using books_okD(4) [OF assms(1) t] by simp
    then show ?thesis
      using EntityStarts finish_no_init(2) [OF assms(1) t] fin
      by (auto simp: scopedEntityInit_def initializeEntitySource_def intro!: then_good good_spawn good_books [OF fin])
  next
    case (ProxyCreated nm ok)
    then have t: "ProxyCreating nm \<in> set (tasks s)" using assms(2) by simp
    let ?f = "finish (ProxyCreating nm) s"
    let ?u = "update_source nm (protector_update (\<lambda>_. Some DbusProtector)) ?f"
    have "good s (activateSource nm ?u\<lparr>pendingEntityLinks := (pendingEntityLinks ?f)(nm := None)\<rparr>)"
      if p: "pendingEntityLinks s nm \<noteq> None"
    proof -
      have g: "\<not> (groups s nm \<noteq> None \<and> wp_configs s nm = None)" "protector_of nm s = None"
        using books_okD(6) [OF assms(1) t] books_okD(7) [OF assms(1), of nm] p by blast+
      have u: "good s ?u"
        by (rule then_good [OF good_update_protector [OF good_books [OF fin]]])
          (use g finish_no_init(2) [OF assms(1) t] in auto)
      have "good s (activateSource nm ?u)"
        by (auto simp: activateSource_def u intro!: good_trans [OF u good_spawn] good_books [OF u])
      moreover have "pendingEntityLinks (activateSource nm ?u) = pendingEntityLinks ?f"
        by (simp add: activateSource_def spawn_def update_source_def)
      ultimately show ?thesis
        using books_erase_pending [OF good_books, of s "activateSource nm ?u" nm] by (simp add: good_def)
    qed
    then show ?thesis using ProxyCreated fin by (simp add: proxy_created_def)
  next
    case (ScopeEmpty nm)
    then show ?thesis using good_same [OF assms(1), of "scope_empty nm s"] by (simp add: scope_empty_def)
  next
    case (InitialGot nm v)
    have "ensures (set_graph_source k x (finish (InitialGet nm) s)) (\<lambda>t. good s (spawn (Monitor nm) t)) (good s)" for k x
      by (rule ensures_weaken [OF sg [OF fin]]) (auto intro: good_trans [OF _ good_spawn] good_books)
    then show ?thesis
      using InitialGot by (auto simp: activate_got_def intro!: then_good good_spawn good_books [OF fin] split: sum.split)
  next
    case (SourceChanged nm v t)
    have "ensures (set_graph_source k x (finish (Monitor nm) s)) (\<lambda>u. good s (monitor_again nm t u)) (good s)" for k x
      by (rule ensures_weaken [OF sg [OF fin]]) (auto intro: mon)
    then show ?thesis
      using SourceChanged fin mon by (cases v) (auto simp: monitorSource_def)
  next
    case (CooledOff nm)
    then show ?thesis by (auto intro!: then_good good_spawn good_books [OF fin])
  next
    case (SetCalled call p v)
    then show ?thesis
      using assms(1) by (auto simp: method_call_def setWriteProtected_def good_refl good_reply intro!: good_spawn
          split: option.split facade_kind.split)
  next
    case (SetDone call k v r)
    then show ?thesis
      by (auto simp: set_done_def intro!: then_good good_spawn good_reply good_books [OF fin] split: sum.split)
  next
    case (GetDone call k v r)
    have "ensures (set_graph_source k x (finish (GetAwait call k v) s)) (\<lambda>t. good s (reply call z t)) (good s)" for x z
      by (rule ensures_weaken [OF sg [OF fin]]) (auto intro: good_trans [OF _ good_reply] good_books)
    then show ?thesis
      using GetDone by (auto simp: get_done_def intro!: then_good good_reply good_books [OF fin] split: sum.split)
  qed
qed

lemma good_step: "books_ok s \<Longrightarrow> wp_step b s t \<Longrightarrow> good s t"
  using good_event [of s] by (elim wp_step_cases) (metis ensures.simps(1), metis ensures.simps(2))

lemma books_ok_new: "books_ok new_manager"
  by (simp add: books_ok_def new_manager_def)

interpretation wp_books: invariant_system "\<lambda>s. s = new_manager" "wp_step b" books_ok
  by unfold_locales (simp add: books_ok_new, rule good_books [OF good_step])

section \<open>Calls and their replies\<close>

text \<open>The replies that calls have got so far; only the events of a call add one.\<close>

definition answered :: "(nat \<times> set_reply) list \<Rightarrow> manager \<Rightarrow> bool" where
  "answered rs s \<longleftrightarrow> replies s = rs"

lemma answered_frame [simp]:
  "answered rs (finish u s) = answered rs s" "answered rs (spawn u s) = answered rs s"
  "answered rs (update_source nm f s) = answered rs s" "answered rs (spawnEntityInit nm s) = answered rs s"
  "answered rs (add_pending nm l s) = answered rs s" "answered rs (register_group nm grp s) = answered rs s"
  "answered rs (request_stop nm s) = answered rs s" "answered rs (monitor_again nm now s) = answered rs s"
  "answered rs (activateSource nm s) = answered rs s" "answered rs (scope_empty nm s) = answered rs s"
  "answered rs (s\<lparr>wp_graph := g\<rparr>) = answered rs s" "answered rs (s\<lparr>wp_configs := c\<rparr>) = answered rs s"
  "answered rs (s\<lparr>pendingEntityLinks := p\<rparr>) = answered rs s"
  by (simp_all add: answered_def finish_def spawn_def update_source_def spawnEntityInit_def add_pending_def
      register_group_def request_stop_def monitor_again_def activateSource_def scope_empty_def Let_def split: option.split)

lemma answered_source: "getOrCreateSource nm s = (src, created, t) \<Longrightarrow> answered rs s \<Longrightarrow> answered rs t"
  by (auto simp: answered_def getOrCreateSource_def Let_def split: option.splits prod.splits)

lemma answered_same: "same_books s t \<Longrightarrow> answered rs s \<Longrightarrow> answered rs t"
  by (simp add: same_books_def answered_def)

lemma answered_operations:
  assumes "answered rs s"
  shows "ensures (connect_nodes a b s) (answered rs) (answered rs)"
    "ensures (propagate_graph s) (answered rs) (answered rs)"
    "ensures (set_graph_source n v s) (answered rs) (answered rs)"
    "ensures (resolve_links k links s) (answered rs) (answered rs)"
    "ensures (add_software accepts grp nms s) (\<lambda>(grp', t). answered rs t) (answered rs)"
    "ensures (add_facade accepts iface dp cp settable grp s) (\<lambda>(grp', t). answered rs t) (answered rs)"
proof -
  note go = answered_same [OF _ assms]
  show "ensures (connect_nodes a b s) (answered rs) (answered rs)"
    by (rule ensures_weaken [OF books_connect go go])
  show "ensures (propagate_graph s) (answered rs) (answered rs)"
    by (rule ensures_weaken [OF books_propagate [OF same_books_refl] go go])
  show "ensures (set_graph_source n v s) (answered rs) (answered rs)"
    by (rule ensures_weaken [OF books_set_source go go])
  show "ensures (resolve_links k links s) (answered rs) (answered rs)"
    by (rule ensures_weaken [OF books_resolve_links [OF same_books_refl] go go])
  show "ensures (add_software accepts grp nms s) (\<lambda>(grp', t). answered rs t) (answered rs)"
    by (rule ensures_weaken [OF books_add_software [OF same_books_refl]]) (auto intro: go)
  show "ensures (add_facade accepts iface dp cp settable grp s) (\<lambda>(grp', t). answered rs t) (answered rs)"
    by (rule ensures_weaken [OF books_add_facade]) (auto intro: go)
qed

lemmas answered_weaken = answered_operations [THEN ensures_weaken]

lemma answered_resolve:
  assumes "answered rs s"
  shows "ensures (resolveGroupLinks grp nm s) (answered rs) (answered rs)"
  using assms by (auto simp: resolveGroupLinks_def intro!: answered_weaken(4) answered_operations(2) split: option.split)

lemma answered_link_sources:
  "answered rs s \<Longrightarrow> ensures (link_sources d k nms x s) (\<lambda>(y, t). answered rs t) (answered rs)"
proof (induction nms arbitrary: d x s)
  case (Cons nm nms)
  obtain src created t where t: "getOrCreateSource nm s = (src, created, t)" by (metis prod_cases3)
  then have "answered rs t" using answered_source Cons.prems by blast
  then show ?case
    using Cons.prems t by (auto simp: Let_def intro!: answered_weaken(1) Cons.IH split: option.split)
qed simp

lemma answered_addGroup:
  assumes "answered rs s"
  shows "ensures (addGroup accepts iface dp cp config s) (answered rs) (answered rs)"
  using assms
  by (auto simp: addGroup_def Let_def intro!: ensures_weaken [OF answered_link_sources] answered_weaken(5,6)
      ensures_weaken [OF answered_resolve] answered_operations(2) split: option.split prod.split)

lemma answered_addGpioGroup:
  assumes "answered rs s"
  shows "ensures (addGpioGroup accepts config s) (answered rs) (answered rs)"
  using assms
  by (auto simp: addGpioGroup_def dest: answered_source intro!: answered_weaken(5) ensures_weaken [OF answered_resolve]
      split: option.split prod.split)

text \<open>The events of a call.\<close>

fun of_call :: "wp_event \<Rightarrow> bool" where
  "of_call (SetCalled _ _ _) = True"
| "of_call (SetDone _ _ _ _) = True"
| "of_call (GetDone _ _ _ _) = True"
| "of_call _ = False"

lemma other_events_silent:
  assumes "\<not> of_call e" "answered rs s"
  shows "ensures (on_wp_event e s) (answered rs) (answered rs)"
proof (cases e)
  case (InitialGot nm v)
  then show ?thesis
    using assms(2) by (auto simp: activate_got_def intro!: answered_weaken(3) split: sum.split)
next
  case (SourceChanged nm v t)
  then show ?thesis
    using assms(2) by (auto simp: monitorSource_def intro!: answered_weaken(3) split: sum.split)
qed (use assms answered_addGroup answered_addGpioGroup in \<open>simp_all add: initializeGpioSource_def gpio_created_def
    scopedEntityInit_def initializeEntitySource_def proxy_created_def\<close>)

end
