(* ===== verification/Graph_Ports.thy ===== *)
theory Graph_Ports
  imports Reactive_Graph_Correct
begin

text \<open>
  The reactive graph as a client sees it: what each operation does to the kind, the parents, the observers,
  the output and the last announced output of each node, without the order of the edge lists and the dirty
  marks.
\<close>

definition size_of :: "'cb graph \<Rightarrow> nat" where
  "size_of g = length (nodes g)"

definition kind :: "'cb graph \<Rightarrow> nat \<Rightarrow> NodeType" where
  "kind g i = node_type (nodes g ! i)"

definition parents :: "'cb graph \<Rightarrow> nat \<Rightarrow> nat set" where
  "parents g i = set (incoming (nodes g ! i))"

definition watchers :: "'cb graph \<Rightarrow> nat \<Rightarrow> 'cb set" where
  "watchers g i = set (observers (nodes g ! i))"

definition out :: "'cb graph \<Rightarrow> nat \<Rightarrow> bool" where
  "out g i = node_output (nodes g ! i)"

definition told :: "'cb graph \<Rightarrow> nat \<Rightarrow> bool" where
  "told g i = node_snapshot (nodes g ! i)"

lemmas ports = size_of_def kind_def parents_def watchers_def out_def told_def

definition combine :: "NodeType \<Rightarrow> bool set \<Rightarrow> bool" where
  "combine t vs \<longleftrightarrow> (if t = NodeAnd then vs \<noteq> {} \<and> False \<notin> vs else True \<in> vs)"

lemma evaluate_combine:
  "evaluate (nodes g) (nodes g ! i) = combine (kind g i) (out g ` parents g i)"
  by (auto simp: evaluate_def combine_def ports list_all_iff list_ex_iff)

lemma skel_ports:
  assumes "skel (nodes h) = skel (nodes g)"
  shows "size_of h = size_of g"
    and "i < size_of g \<Longrightarrow> kind h i = kind g i" and "i < size_of g \<Longrightarrow> parents h i = parents g i"
    and "i < size_of g \<Longrightarrow> watchers h i = watchers g i"
  using skel_length [OF assms] skel_nth [OF assms] skel_nth [OF assms [symmetric]] by (simp_all add: ports)

section \<open>Invariant facts\<close>

lemma ports_range:
  assumes "graph_inv g" "i < size_of g"
  shows "p \<in> parents g i \<Longrightarrow> p < size_of g"
    and "kind g i = NodeSource \<Longrightarrow> parents g i = {}"
  using wf_in [OF inv_wf [OF assms(1) [unfolded graph_inv_def]]]
    wf_source [OF inv_wf [OF assms(1) [unfolded graph_inv_def]]] assms(2) by (auto simp: ports)

lemma edge_parents:
  assumes "graph_inv g" "i < size_of g"
  shows "(p, i) \<in> edges (nodes g) \<longleftrightarrow> p \<in> parents g i"
  using edge_iff_incoming [OF inv_wf [OF assms(1) [unfolded graph_inv_def]]] assms(2) by (simp add: ports)

lemma graph_inv_acyclic: "graph_inv g \<Longrightarrow> acyclic (edges (nodes g))"
  by (simp add: graph_inv_def graph_inv_but_def wf_struct_def)

lemma graph_inv_wf_edges:
  assumes "graph_inv g" shows "wf (edges (nodes g))"
proof -
  have "finite (edges (nodes g))"
    by (rule finite_subset [OF edges_range [OF inv_wf [OF assms [unfolded graph_inv_def]]]]) simp
  then show ?thesis
    using graph_inv_acyclic [OF assms] by (rule finite_acyclic_wf)
qed

lemma clean_told:
  assumes "graph_inv g" "i < size_of g" "i \<notin> set (dirty g)"
  shows "told g i = out g i"
  using inv_snapshot inv_dirty assms by (fastforce simp: ports graph_inv_def)

lemma clean_out:
  assumes "graph_inv g" "i < size_of g" "kind g i \<noteq> NodeSource" "parents g i \<inter> set (dirty g) = {}"
  shows "out g i = combine (kind g i) (out g ` parents g i)"
  using inv_consistent [OF assms(1) [unfolded graph_inv_def], of i] assms(2-)
  by (auto simp: consistent_def evaluate_combine) (auto simp: ports)

section \<open>Operations\<close>

lemma addNode_ports:
  assumes "addNode op g = (n, h)"
  shows "n = size_of g" "size_of h = Suc (size_of g)"
    and "kind h (size_of g) = (if op = OpAnd then NodeAnd else NodeOr)" "parents h (size_of g) = {}"
      "watchers h (size_of g) = {}" "out h (size_of g) = False" "told h (size_of g) = False"
    and "i < size_of g \<Longrightarrow> kind h i = kind g i \<and> parents h i = parents g i \<and> watchers h i = watchers g i \<and>
      out h i = out g i \<and> told h i = told g i"
    and "dirty h = dirty g"
  using assms by (auto simp: addNode_def ports nth_append new_node_def)

lemma addSource_ports:
  assumes "addSource b g = (n, h)"
  shows "n = size_of g" "size_of h = Suc (size_of g)"
    and "kind h (size_of g) = NodeSource" "parents h (size_of g) = {}"
      "watchers h (size_of g) = {}" "out h (size_of g) = b" "told h (size_of g) = b"
    and "i < size_of g \<Longrightarrow> kind h i = kind g i \<and> parents h i = parents g i \<and> watchers h i = watchers g i \<and>
      out h i = out g i \<and> told h i = told g i"
    and "dirty h = dirty g"
  using assms by (auto simp: addSource_def ports nth_append new_node_def)

lemma connect_ports:
  assumes "graph_inv g" "a < size_of g" "b < size_of g" "connect a b g = Some (Inr h)"
  shows "graph_inv h" "size_of h = size_of g"
    and "i < size_of g \<Longrightarrow> kind h i = kind g i \<and> watchers h i = watchers g i \<and> told h i = told g i"
    and "i < size_of g \<Longrightarrow> parents h i = (if i = b then insert a (parents g i) else parents g i)"
    and "i < size_of g \<Longrightarrow> i \<noteq> b \<Longrightarrow> out h i = out g i"
    and "set (dirty h) = insert b (set (dirty g))"
    and "kind g b \<noteq> NodeSource" and "a \<noteq> b" and "(b, a) \<notin> (edges (nodes g))\<^sup>+"
    and "out h b = combine (kind g b) (out g ` insert a (parents g b))"
proof -
  have ab: "a < length (nodes g)" "b < length (nodes g)" using assms by (simp_all add: ports)
  have ok: "node_type (nodes g ! b) \<noteq> NodeSource" "a \<noteq> b" "(b, a) \<notin> (edges (nodes g))\<^sup>+"
    and h: "h = touch_write b (evaluate (nodes (g\<lparr>nodes := add_edge a b (nodes g)\<rparr>))
        (nodes (g\<lparr>nodes := add_edge a b (nodes g)\<rparr>) ! b)) (g\<lparr>nodes := add_edge a b (nodes g)\<rparr>)"
    using assms(4) unfolding connect_result [OF assms(1) ab] by (auto simp: Let_def split: if_splits)
  let ?g = "g\<lparr>nodes := add_edge a b (nodes g)\<rparr>"
  let ?v = "evaluate (nodes ?g) (nodes ?g ! b)"
  have inv1: "graph_inv_but {b} ?g"
    using add_edge_inv [OF assms(1) ab ok(2,1,3)] .
  have b1: "b < length (nodes ?g)" using ab by simp
  have sk: "skel (nodes h) = skel (nodes ?g)"
    unfolding h by (rule touch_write_skel [OF inv1 b1])
  note nth = touch_write_nth [OF inv1 b1, of _ ?v, folded h]
  note e = add_edge_nth [OF ab ok(2)]
  have len: "size_of ?g = size_of g" by (simp add: ports)
  show "graph_inv h" by (rule connect_inv [OF assms(1) ab assms(4)])
  show "size_of h = size_of g" using skel_ports(1) [OF sk] len by simp
  show "kind g b \<noteq> NodeSource" "a \<noteq> b" "(b, a) \<notin> (edges (nodes g))\<^sup>+"
    using ok by (simp_all add: ports)
  show "set (dirty h) = insert b (set (dirty g))"
    unfolding h by (simp add: touch_write_def touch_spec(2) [OF inv1 b1])
  have v: "?v = combine (kind g b) (out g ` insert a (parents g b))"
  proof -
    have same: "node_output (add_edge a b (nodes g) ! i) = node_output (nodes g ! i)" if "i < length (nodes g)" for i
      using e [OF that] by simp
    then have "node_output (add_edge a b (nodes g) ! i) = node_output (nodes g ! i)"
      if "i \<in> set (incoming (nodes g ! b))" for i
      using wf_in [OF inv_wf [OF assms(1) [unfolded graph_inv_def]] ab(2) that] by blast
    with same [OF ab(1)] show ?thesis
      using e [OF ab(2)] ok(2) by (auto simp: evaluate_def combine_def ports list_all_iff list_ex_iff)
  qed
  show "out h b = combine (kind g b) (out g ` insert a (parents g b))"
    using nth(1) [OF b1] v by (simp add: out_def)
  assume i: "i < size_of g"
  then have i': "i < length (nodes ?g)" "i < length (nodes g)" by (simp_all add: ports)
  show "kind h i = kind g i \<and> watchers h i = watchers g i \<and> told h i = told g i"
    using skel_ports(2,4) [OF sk, of i] nth(2) [OF i'(1)] e [OF i'(2)] i len by (simp add: ports)
  show "parents h i = (if i = b then insert a (parents g i) else parents g i)"
    using skel_ports(3) [OF sk, of i] e [OF i'(2)] i len by (simp add: ports)
  show "i \<noteq> b \<Longrightarrow> out h i = out g i"
    using nth(1) [OF i'(1)] e [OF i'(2)] by (simp add: ports)
qed

lemma reevaluate_told:
  "i < length (nodes g) \<Longrightarrow> graph_inv_but (set cs) g \<Longrightarrow> set cs \<subseteq> {..<length (nodes g)} \<Longrightarrow>
     told (reevaluate cs g) i = told g i \<and> (i \<notin> set cs \<longrightarrow> out (reevaluate cs g) i = out g i) \<and>
     set (dirty (reevaluate cs g)) \<subseteq> set (dirty g) \<union> set cs"
proof (induction cs arbitrary: g)
  case (Cons c cs)
  from Cons.prems have c: "c < length (nodes g)" by simp
  let ?v = "evaluate (nodes g) (nodes g ! c)"
  show ?case
  proof (cases "?v = node_output (nodes g ! c)")
    case True
    then have "consistent (nodes g) c" by (simp add: consistent_def)
    then have "graph_inv_but (set cs) g"
      using Cons.prems(2) by (auto simp: graph_inv_but_def)
    with Cons.IH [OF Cons.prems(1)] True Cons.prems(3) show ?thesis by auto
  next
    case False
    let ?g = "touch_write c ?v g"
    have r: "reevaluate (c # cs) g = reevaluate cs ?g"
      using False by (simp add: touch_write_def Let_def)
    have sk: "skel (nodes ?g) = skel (nodes g)" by (rule touch_write_skel [OF Cons.prems(2) c])
    have inv: "graph_inv_but (set cs) ?g"
      using touch_write_inv [OF Cons.prems(2) c, of ?v] by (auto simp: graph_inv_but_def)
    note nth = touch_write_nth [OF Cons.prems(2) c Cons.prems(1), of ?v]
    have d: "set (dirty ?g) = insert c (set (dirty g))"
      by (simp add: touch_write_def touch_spec(2) [OF Cons.prems(2) c])
    show ?thesis
      unfolding r using Cons.IH [of ?g] Cons.prems inv nth d skel_length [OF sk] by (auto simp: ports)
  qed
qed simp

lemma deactivate_ports:
  assumes "graph_inv g" "n < size_of g"
    and h_def: "h = deactivate n g"
  shows "graph_inv h" "size_of h = size_of g"
    and "kind h n = NodeSource" "parents h n = {}" "watchers h n = {}" 
    and "i < size_of g \<Longrightarrow> i \<noteq> n \<Longrightarrow> kind h i = kind g i \<and> watchers h i = watchers g i \<and> told h i = told g i \<and>
      parents h i = parents g i - {n}"
    and "i < size_of g \<Longrightarrow> i \<noteq> n \<Longrightarrow> n \<notin> parents g i \<Longrightarrow> out h i = out g i"
    and "set (dirty h) \<subseteq> set (dirty g) \<union> {c. c < size_of g \<and> n \<in> parents g c}"
proof -
  have n: "n < length (nodes g)" using assms by (simp add: ports)
  note wf = inv_wf [OF assms(1) [unfolded graph_inv_def]]
  note D = deactivate_inv [OF assms(1) n, folded h_def]
  note len = isolate_length [OF wf n] and nth = isolate_nth [OF wf n]
  let ?g = "g\<lparr>nodes := isolate n (nodes g)\<rparr>"
  let ?cs = "outgoing (nodes g ! n)"
  have h: "h = reevaluate ?cs ?g" by (simp add: h_def deactivate_isolate [OF wf n])
  have sk: "skel (nodes h) = skel (nodes ?g)" using D(2) by simp
  have cs: "set ?cs \<subseteq> {..<length (nodes ?g)}" using wf_out [OF wf n] by (auto simp: len)
  have children: "i \<in> set ?cs \<longleftrightarrow> n \<in> parents g i" if "i < size_of g" for i
    using wf_sym [OF wf n, of i] that by (simp add: ports)
  show "graph_inv h" by (rule D(1))
  show s: "size_of h = size_of g" using skel_ports(1) [OF sk] len by (simp add: ports)
  have n': "n < size_of ?g" using n len by (simp add: ports)
  show "kind h n = NodeSource" "parents h n = {}" "watchers h n = {}"
    using skel_ports(2-4) [OF sk n'] nth [OF n] by (simp_all add: ports)
  have told: "told h i = told ?g i" "i \<notin> set ?cs \<Longrightarrow> out h i = out ?g i"
    if "i < size_of g" for i
    using reevaluate_told [OF _ isolate_inv [OF assms(1) n] cs, of i] that by (auto simp: h ports len)
  show "set (dirty h) \<subseteq> set (dirty g) \<union> {c. c < size_of g \<and> n \<in> parents g c}"
    using reevaluate_told [OF _ isolate_inv [OF assms(1) n] cs, of n] n cs children by (auto simp: h len ports)
  assume i: "i < size_of g" "i \<noteq> n"
  then have i': "i < length (nodes g)" "i < size_of ?g" using len by (simp_all add: ports)
  show "kind h i = kind g i \<and> watchers h i = watchers g i \<and> told h i = told g i \<and> parents h i = parents g i - {n}"
    using skel_ports(2-4) [OF sk i'(2)] told(1) [OF i(1)] nth [OF i'(1)] i(2) by (auto simp: ports)
  show "n \<notin> parents g i \<Longrightarrow> out h i = out g i"
    using told(2) [OF i(1)] children [OF i(1)] nth [OF i'(1)] i(2) by (simp add: ports)
qed

lemma set_source_ports:
  assumes "graph_inv g" "n < size_of g" "kind g n = NodeSource"
    and h_def: "h = set_source n v g"
  shows "graph_inv h" "size_of h = size_of g"
    and "i < size_of g \<Longrightarrow> kind h i = kind g i \<and> watchers h i = watchers g i \<and> told h i = told g i \<and>
      parents h i = parents g i \<and> out h i = (if i = n then v else out g i)"
proof -
  have n: "n < length (nodes g)" using assms by (simp add: ports)
  note inv = assms(1) [unfolded graph_inv_def]
  have h: "h = touch_write n v g" by (simp add: h_def set_source_def touch_write_def Let_def)
  show "graph_inv h" unfolding h_def using assms by (intro set_source_inv) (simp_all add: ports)
  have sk: "skel (nodes h) = skel (nodes g)" unfolding h by (rule touch_write_skel [OF inv n])
  show "size_of h = size_of g" by (rule skel_ports(1) [OF sk])
  assume i: "i < size_of g"
  then show "kind h i = kind g i \<and> watchers h i = watchers g i \<and> told h i = told g i \<and>
      parents h i = parents g i \<and> out h i = (if i = n then v else out g i)"
    using skel_ports(2-4) [OF sk i] touch_write_nth(1,2) [OF inv n, of i v] by (simp add: h ports)
qed

lemma subscribe_ports:
  assumes "graph_inv g" "n < size_of g"
    and h_def: "h = subscribe n p g"
  shows "graph_inv h" "size_of h = size_of g" "dirty h = dirty g"
    and "i < size_of g \<Longrightarrow> kind h i = kind g i \<and> told h i = told g i \<and> parents h i = parents g i \<and> out h i = out g i \<and>
      watchers h i = (if i = n then insert p (watchers g i) else watchers g i)"
  using assms(2) subscribe_inv [OF assms(1)]
  by (auto simp: h_def ports subscribe_def nth_list_update)

text \<open>
  \<open>propagate\<close>: the observers are called with the final output of their node, and all of those whose node
  now differs from what it announced are.
\<close>

lemma propagate_ports:
  assumes "graph_inv g"
  shows "\<exists>h calls. propagate g = Some (h, calls) \<and> graph_inv h \<and> dirty h = [] \<and> size_of h = size_of g \<and>
    (\<forall>i < size_of g. kind h i = kind g i \<and> watchers h i = watchers g i \<and> parents h i = parents g i \<and>
      (kind g i = NodeSource \<longrightarrow> out h i = out g i)) \<and>
    (\<forall>(p, v) \<in> set calls. \<exists>i < size_of g. p \<in> watchers g i \<and> v = out h i) \<and>
    (\<forall>i < size_of g. \<forall>p \<in> watchers g i. out h i \<noteq> told g i \<longrightarrow> (p, out h i) \<in> set calls)"
proof -
  obtain h calls where h: "propagate g = Some (h, calls)" "propagated g h calls"
    using propagate_correct [OF assms] by blast
  have sk: "skel (nodes h) = skel (nodes g)" using h(2) by (simp add: propagated_def)
  obtain order where order: "distinct order"
      "set order = {i. i < length (nodes g) \<and> node_output (nodes h ! i) \<noteq> node_snapshot (nodes g ! i)}"
      "calls = calls_for g h order"
    using h(2) by (auto simp: propagated_def)
  have src: "kind g i = NodeSource \<Longrightarrow> out h i = out g i" if "i < size_of g" for i
    using h(2) that by (simp add: propagated_def ports)
  have calls: "set calls = (\<Union>i \<in> set order. (\<lambda>p. (p, out h i)) ` watchers g i)"
    by (auto simp: order(3) calls_for_def ports)
  have "dirty h = []" using h(2) by (simp add: propagated_def settled_def)
  moreover have "\<forall>(p, v) \<in> set calls. \<exists>i < size_of g. p \<in> watchers g i \<and> v = out h i"
    unfolding calls by (auto simp: order(2) ports)
  moreover have "\<forall>i < size_of g. \<forall>p \<in> watchers g i. out h i \<noteq> told g i \<longrightarrow> (p, out h i) \<in> set calls"
    unfolding calls by (auto simp: order(2) ports)
  ultimately show ?thesis
    using h(1) propagate_inv(1) [OF assms h(1)] skel_ports [OF sk] src by (intro exI conjI) auto
qed

text \<open>A node above which nothing is dirty keeps its output.\<close>

lemma propagate_keeps:
  assumes "graph_inv g" "propagate g = Some (h, calls)" "i < size_of g"
    and "\<And>d. (d, i) \<in> (edges (nodes g))\<^sup>+ \<Longrightarrow> d \<notin> set (dirty g)"
  shows "out h i = out g i"
proof -
  obtain c where h: "graph_inv h" "dirty h = []" "size_of h = size_of g"
    and same: "\<And>j. j < size_of g \<Longrightarrow> kind h j = kind g j \<and> parents h j = parents g j \<and>
      (kind g j = NodeSource \<longrightarrow> out h j = out g j)"
    using propagate_ports [OF assms(1)] assms(2) by auto
  show ?thesis
    using assms(3,4)
  proof (induction i rule: wf_induct_rule [OF graph_inv_wf_edges [OF assms(1)]])
    case (1 i)
    show ?case
    proof (cases "kind g i = NodeSource")
      case True
      then show ?thesis using same 1(2) by blast
    next
      case False
      have edge: "p \<in> parents g i \<Longrightarrow> (p, i) \<in> edges (nodes g)" for p
        by (simp add: edge_parents [OF assms(1) 1(2)])
      have "out h p = out g p" if "p \<in> parents g i" for p
        using 1(1) [OF edge [OF that]] ports_range(1) [OF assms(1) 1(2) that] 1(3)
          trancl_into_trancl [OF _ edge [OF that]] by blast
      then have eq: "out h ` parents g i = out g ` parents g i" by (auto simp: image_iff)
      have "parents g i \<inter> set (dirty g) = {}" using 1(3) edge by blast
      then have "out g i = combine (kind g i) (out g ` parents g i)"
        using clean_out [OF assms(1) 1(2)] False by blast
      moreover have "out h i = combine (kind h i) (out h ` parents h i)"
        using clean_out [OF h(1), of i] h(2,3) 1(2) False same by auto
      ultimately show ?thesis using same [OF 1(2)] eq by simp
    qed
  qed
qed

end
