(* ===== verification/Wp_Manager_Correct.thy ===== *)
theory Wp_Manager_Correct
  imports Wp_Tasks Graph_Ports
begin

text \<open>
  The groups on the graph: which node stands for a name, that every group's node has exactly the nodes of
  its configured sources as parents, and that every D-Bus object shows what its node last announced. The
  invariant is kept by every event that does not throw, as long as no name is both a D-Bus object that a
  proxy was made for and a group.
\<close>

section \<open>The invariant\<close>

definition name_node :: "string \<Rightarrow> manager \<Rightarrow> nat option" where
  "name_node nm s = (case groups s nm of Some grp \<Rightarrow> Some (outputNode grp) | None \<Rightarrow> node_of nm s)"

definition no_clash :: "manager \<Rightarrow> bool" where
  "no_clash s \<longleftrightarrow> (\<forall>nm. protector_of nm s = Some DbusProtector \<longrightarrow> groups s nm = None)"

fun mode_kind :: "BoolOp \<Rightarrow> NodeType" where
  "mode_kind OpAnd = NodeAnd"
| "mode_kind OpOr = NodeOr"

text \<open>\<open>X\<close> is the set of nodes whose group is not registered yet.\<close>

definition sources_ok :: "manager \<Rightarrow> bool" where
  "sources_ok s \<longleftrightarrow> (\<forall>nm k. node_of nm s = Some k \<longleftrightarrow> sourcesByNodeId s k = Some nm) \<and>
     (\<forall>nm k. node_of nm s = Some k \<longrightarrow> k < size_of (wp_graph s) \<and> kind (wp_graph s) k = NodeSource)"

definition inputs_ok :: "nat set \<Rightarrow> manager \<Rightarrow> bool" where
  "inputs_ok X s \<longleftrightarrow>
     (\<forall>nm grp. groups s nm = Some grp \<and> wp_configs s nm = None \<longrightarrow> node_of nm s = Some (outputNode grp)) \<and>
     (\<forall>nm grp op ns. groups s nm = Some grp \<and> wp_configs s nm = Some (op, ns) \<longrightarrow>
        outputNode grp < size_of (wp_graph s) \<and> outputNode grp \<notin> X \<and> kind (wp_graph s) (outputNode grp) = mode_kind op \<and>
        Some ` parents (wp_graph s) (outputNode grp) = (\<lambda>m. name_node m s) ` set ns) \<and>
     (\<forall>i < size_of (wp_graph s). kind (wp_graph s) i \<noteq> NodeSource \<longrightarrow>
        i \<in> X \<or> (\<exists>nm grp. groups s nm = Some grp \<and> wp_configs s nm \<noteq> None \<and> outputNode grp = i)) \<and>
     (\<forall>a b ga gb. groups s a = Some ga \<and> groups s b = Some gb \<and> outputNode ga = outputNode gb \<longrightarrow> a = b)"

definition links_ok :: "manager \<Rightarrow> bool" where
  "links_ok s \<longleftrightarrow>
     (\<forall>nm links t n. pendingEntityLinks s nm = Some links \<and> (t, n) \<in> set links \<longrightarrow>
        t < size_of (wp_graph s) \<and> n \<in> parents (wp_graph s) t) \<and>
     (\<forall>nm. pendingEntityLinks s nm \<noteq> None \<longrightarrow> groups s nm = None) \<and>
     (\<forall>nm grp op ns m. groups s nm = Some grp \<and> wp_configs s nm = Some (op, ns) \<and> m \<in> set ns \<and>
        groups s m = None \<and> protector_of m s \<noteq> Some DbusProtector \<longrightarrow>
        (\<exists>links k. pendingEntityLinks s m = Some links \<and> (outputNode grp, k) \<in> set links))"

definition wired :: "nat set \<Rightarrow> manager \<Rightarrow> bool" where
  "wired X s \<longleftrightarrow> graph_inv (wp_graph s) \<and> sources_ok s \<and> inputs_ok X s \<and> links_ok s"

definition shown :: "nat set \<Rightarrow> manager \<Rightarrow> bool" where
  "shown X s \<longleftrightarrow>
     (\<forall>i < size_of (wp_graph s). \<forall>p \<in> watchers (wp_graph s) i. \<exists>f. objects s p = Some f \<and>
        (write_protected f = told (wp_graph s) i \<or> i \<in> X \<and> write_protected f = out (wp_graph s) i)) \<and>
     (\<forall>i < size_of (wp_graph s). \<forall>j < size_of (wp_graph s). \<forall>p.
        p \<in> watchers (wp_graph s) i \<and> p \<in> watchers (wp_graph s) j \<longrightarrow> i = j) \<and>
     (\<forall>p. objects s p \<noteq> None \<longrightarrow> p < nextObject s) \<and>
     (\<forall>nm grp. groups s nm = Some grp \<longrightarrow> objects_of grp \<subseteq> watchers (wp_graph s) (outputNode grp))"

definition wp_ok :: "manager \<Rightarrow> bool" where
  "wp_ok s \<longleftrightarrow> wired {} s \<and> shown {} s \<and> dirty (wp_graph s) = []"

lemma shownI:
  assumes "\<And>i p. i < size_of (wp_graph s) \<Longrightarrow> p \<in> watchers (wp_graph s) i \<Longrightarrow>
      \<exists>f. objects s p = Some f \<and> (write_protected f = told (wp_graph s) i \<or> i \<in> X \<and> write_protected f = out (wp_graph s) i)"
    and "\<And>i j p. i < size_of (wp_graph s) \<Longrightarrow> j < size_of (wp_graph s) \<Longrightarrow>
      p \<in> watchers (wp_graph s) i \<Longrightarrow> p \<in> watchers (wp_graph s) j \<Longrightarrow> i = j"
    and "\<And>p. objects s p \<noteq> None \<Longrightarrow> p < nextObject s"
    and "\<And>nm grp. groups s nm = Some grp \<Longrightarrow> objects_of grp \<subseteq> watchers (wp_graph s) (outputNode grp)"
  shows "shown X s"
  unfolding shown_def using assms by blast

lemma shownD:
  assumes "shown X s"
  shows "i < size_of (wp_graph s) \<Longrightarrow> p \<in> watchers (wp_graph s) i \<Longrightarrow>
      \<exists>f. objects s p = Some f \<and> (write_protected f = told (wp_graph s) i \<or> i \<in> X \<and> write_protected f = out (wp_graph s) i)"
    and "i < size_of (wp_graph s) \<Longrightarrow> j < size_of (wp_graph s) \<Longrightarrow>
      p \<in> watchers (wp_graph s) i \<Longrightarrow> p \<in> watchers (wp_graph s) j \<Longrightarrow> i = j"
    and "objects s p \<noteq> None \<Longrightarrow> p < nextObject s"
    and "groups s nm = Some grp \<Longrightarrow> objects_of grp \<subseteq> watchers (wp_graph s) (outputNode grp)"
  using assms unfolding shown_def by blast+

section \<open>Propagation\<close>

lemma call_observers_done:
  "(\<And>p v. (p, v) \<in> set calls \<Longrightarrow> objects s p \<noteq> None \<and> v = V p) \<Longrightarrow>
   call_observers calls s = Done (s\<lparr>objects := \<lambda>p. if p \<in> fst ` set calls
     then map_option (write_protected_update (\<lambda>_. V p)) (objects s p) else objects s p\<rparr>)"
proof (induction calls s rule: call_observers.induct)
  case (2 p v calls s)
  obtain f where f: "objects s p = Some f" "v = V p" using 2(2) [of p v] by auto
  let ?s = "s\<lparr>objects := (objects s)(p \<mapsto> f\<lparr>write_protected := v\<rparr>)\<rparr>"
  have "call_observers calls ?s = Done (?s\<lparr>objects := \<lambda>q. if q \<in> fst ` set calls
     then map_option (write_protected_update (\<lambda>_. V q)) (objects ?s q) else objects ?s q\<rparr>)"
    by (rule 2(1) [OF f(1)]) (use 2(2) in auto)
  moreover have "(\<lambda>q. if q \<in> fst ` set calls then map_option (write_protected_update (\<lambda>_. V q)) (objects ?s q) else objects ?s q) =
      (\<lambda>q. if q \<in> fst ` set ((p, v) # calls)
        then map_option (write_protected_update (\<lambda>_. V q)) (objects s q) else objects s q)"
    by (rule ext) (use f in auto)
  ultimately show ?case using f(1) by simp
qed simp

text \<open>What propagation keeps: everything but the values, the dirty marks and the announced outputs.\<close>

definition same_shape :: "manager \<Rightarrow> manager \<Rightarrow> bool" where
  "same_shape s t \<longleftrightarrow> same_books s t \<and> nextObject t = nextObject s \<and> graph_inv (wp_graph t) \<and>
     size_of (wp_graph t) = size_of (wp_graph s) \<and>
     (\<forall>i < size_of (wp_graph s). kind (wp_graph t) i = kind (wp_graph s) i \<and> parents (wp_graph t) i = parents (wp_graph s) i \<and>
        watchers (wp_graph t) i = watchers (wp_graph s) i)"

lemma same_books_names:
  assumes "same_books s t"
  shows "node_of nm t = node_of nm s" "name_node nm t = name_node nm s" "protector_of nm t = protector_of nm s"
  using assms by (simp_all add: same_books_def node_of_def name_node_def protector_of_def split: option.split)

lemma wired_same_shape:
  assumes "wired X s" "same_shape s t"
  shows "wired X t"
proof -
  note names = same_books_names [of s t]
  have b: "same_books s t" using assms(2) by (simp add: same_shape_def)
  have "sources_ok t"
    using assms names [OF b] b by (auto simp: wired_def sources_ok_def same_shape_def same_books_def)
  moreover have "inputs_ok X t"
    using assms names [OF b] b unfolding wired_def inputs_ok_def same_shape_def same_books_def by simp
  moreover have "links_ok t"
  proof -
    have l: "links_ok s" using assms by (simp add: wired_def)
    have eqs: "groups t = groups s" "wp_configs t = wp_configs s" "pendingEntityLinks t = pendingEntityLinks s"
      "size_of (wp_graph t) = size_of (wp_graph s)"
      "\<And>i. i < size_of (wp_graph s) \<Longrightarrow> parents (wp_graph t) i = parents (wp_graph s) i"
      using assms(2) by (simp_all add: same_shape_def same_books_def)
    show ?thesis
      using l unfolding links_ok_def eqs(1-4) names [OF b] by (metis eqs(5))
  qed
  ultimately show ?thesis using assms by (simp add: wired_def same_shape_def)
qed

lemma group_node:
  assumes "wired X s" "groups s nm = Some grp"
  shows "outputNode grp < size_of (wp_graph s)"
proof (cases "wp_configs s nm")
  case None
  then have "node_of nm s = Some (outputNode grp)"
    using assms unfolding wired_def inputs_ok_def by blast
  then show ?thesis using assms(1) unfolding wired_def sources_ok_def by blast
next
  case (Some c)
  then obtain op ns where "wp_configs s nm = Some (op, ns)" by (cases c) simp
  then show ?thesis using assms unfolding wired_def inputs_ok_def by blast
qed

lemma propagate_graph_ok:
  assumes "wired X s" "shown Y s"
    and "\<And>i d. i \<in> Y \<Longrightarrow> (d, i) \<in> (edges (nodes (wp_graph s)))\<^sup>+ \<Longrightarrow> d \<notin> set (dirty (wp_graph s))"
  shows "safely (propagate_graph s) (\<lambda>t. same_shape s t \<and> wired X t \<and> shown {} t \<and> dirty (wp_graph t) = [] \<and>
    (\<forall>i < size_of (wp_graph s). kind (wp_graph s) i = NodeSource \<longrightarrow> out (wp_graph t) i = out (wp_graph s) i))"
proof -
  let ?g = "wp_graph s"
  have inv: "graph_inv ?g" using assms(1) by (simp add: wired_def)
  obtain h calls where h: "propagate ?g = Some (h, calls)" "graph_inv h" "dirty h = []" "size_of h = size_of ?g"
    and same: "\<And>i. i < size_of ?g \<Longrightarrow> kind h i = kind ?g i \<and> watchers h i = watchers ?g i \<and> parents h i = parents ?g i \<and>
      (kind ?g i = NodeSource \<longrightarrow> out h i = out ?g i)"
    and calls: "\<And>p v. (p, v) \<in> set calls \<Longrightarrow> \<exists>i < size_of ?g. p \<in> watchers ?g i \<and> v = out h i"
    and called: "\<And>i p. i < size_of ?g \<Longrightarrow> p \<in> watchers ?g i \<Longrightarrow> out h i \<noteq> told ?g i \<Longrightarrow> (p, out h i) \<in> set calls"
    using propagate_ports [OF inv] by (auto simp: Ball_def)
  have uniq: "i = j" if "p \<in> watchers ?g i" "p \<in> watchers ?g j" "i < size_of ?g" "j < size_of ?g" for p i j
    using assms(2) that unfolding shown_def by blast
  define V where "V p = (\<exists>i < size_of ?g. p \<in> watchers ?g i \<and> out h i)" for p
  have V: "V p = out h i" if "p \<in> watchers ?g i" "i < size_of ?g" for p i
    using that uniq unfolding V_def by blast
  have "objects s p \<noteq> None \<and> v = V p" if c: "(p, v) \<in> set calls" for p v
  proof -
    obtain i where "i < size_of ?g" "p \<in> watchers ?g i" "v = out h i" using calls [OF c] by blast
    then show ?thesis using assms(2) V unfolding shown_def by fastforce
  qed
  then have "call_observers calls (s\<lparr>wp_graph := h\<rparr>) = Done (s\<lparr>wp_graph := h, objects := \<lambda>p. if p \<in> fst ` set calls
     then map_option (write_protected_update (\<lambda>_. V p)) (objects s p) else objects s p\<rparr>)"
    by (subst call_observers_done [where V = V]) (auto cong: if_cong)
  then have fin: "propagate_graph s = Done (s\<lparr>wp_graph := h, objects := \<lambda>p. if p \<in> fst ` set calls
     then map_option (write_protected_update (\<lambda>_. V p)) (objects s p) else objects s p\<rparr>)" (is "_ = Done ?t")
    using h(1) by (simp add: propagate_graph_def)
  have shape: "same_shape s ?t" using h same by (simp add: same_shape_def)
  have told: "told h i = out h i" if "i < size_of ?g" for i
    using clean_told [OF h(2)] that h(3,4) by simp
  have "\<exists>f. objects ?t p = Some f \<and> write_protected f = told h i" if i: "i < size_of ?g" and p: "p \<in> watchers ?g i" for i p
  proof -
    obtain f where f: "objects s p = Some f" "write_protected f = told ?g i \<or> i \<in> Y \<and> write_protected f = out ?g i"
      using assms(2) i p unfolding shown_def by blast
    show ?thesis
    proof (cases "p \<in> fst ` set calls")
      case True
      then show ?thesis using f V [OF p i] told [OF i] by simp
    next
      case False
      then have "out h i = told ?g i" using called [OF i p] by force
      moreover have "i \<in> Y \<Longrightarrow> out h i = out ?g i"
        using propagate_keeps [OF inv h(1) i] assms(3) by blast
      ultimately show ?thesis using False f told [OF i] by auto
    qed
  qed
  note values_shown = this
  have "shown {} ?t"
  proof (rule shownI)
    fix i p assume "i < size_of (wp_graph ?t)" "p \<in> watchers (wp_graph ?t) i"
    then show "\<exists>f. objects ?t p = Some f \<and>
        (write_protected f = told (wp_graph ?t) i \<or> i \<in> {} \<and> write_protected f = out (wp_graph ?t) i)"
      using values_shown h(4) same by simp
  next
    fix i j p assume "i < size_of (wp_graph ?t)" "j < size_of (wp_graph ?t)"
      "p \<in> watchers (wp_graph ?t) i" "p \<in> watchers (wp_graph ?t) j"
    then show "i = j" using h(4) same uniq by simp
  next
    fix p assume "objects ?t p \<noteq> None"
    then show "p < nextObject ?t" using shownD(3) [OF assms(2), of p] by (auto split: if_splits)
  next
    fix nm grp assume "groups ?t nm = Some grp"
    then show "objects_of grp \<subseteq> watchers (wp_graph ?t) (outputNode grp)"
      using shownD(4) [OF assms(2)] same [OF group_node [OF assms(1)]] by simp
  qed
  then show ?thesis
    using fin shape wired_same_shape [OF assms(1) shape] h(3) same by simp
qed


section \<open>Linking a new group\<close>

lemma wired_cong:
  assumes "wp_graph t = wp_graph s" "sources t = sources s" "sourcesByNodeId t = sourcesByNodeId s" "groups t = groups s"
    "wp_configs t = wp_configs s" "pendingEntityLinks t = pendingEntityLinks s"
  shows "wired X t = wired X s"
proof -
  have "node_of nm t = node_of nm s" "name_node nm t = name_node nm s" "protector_of nm t = protector_of nm s" for nm
    using assms by (simp_all add: node_of_def name_node_def protector_of_def split: option.split)
  then show ?thesis using assms by (simp add: wired_def sources_ok_def inputs_ok_def links_ok_def)
qed

lemma shown_cong:
  assumes "wp_graph t = wp_graph s" "groups t = groups s" "objects t = objects s" "nextObject t = nextObject s"
  shows "shown X t = shown X s"
  using assms by (simp add: shown_def)

definition building :: "nat \<Rightarrow> string set \<Rightarrow> NodeType \<Rightarrow> manager \<Rightarrow> bool" where
  "building i pre k s \<longleftrightarrow>
     wired {i} s \<and> shown {i} s \<and> set (dirty (wp_graph s)) \<subseteq> {i} \<and> i < size_of (wp_graph s) \<and> kind (wp_graph s) i = k \<and>
     k \<noteq> NodeSource \<and> \<not> told (wp_graph s) i \<and> watchers (wp_graph s) i = {} \<and> Some ` parents (wp_graph s) i = (\<lambda>m. name_node m s) ` pre \<and>
     (\<forall>m \<in> pre. groups s m = None \<and> protector_of m s \<noteq> Some DbusProtector \<longrightarrow>
        (\<exists>links n. pendingEntityLinks s m = Some links \<and> (i, n) \<in> set links))"

lemma group_kind:
  assumes "wired X s" "groups s nm = Some grp"
  shows "wp_configs s nm = None \<Longrightarrow> kind (wp_graph s) (outputNode grp) = NodeSource"
    and "wp_configs s nm \<noteq> None \<Longrightarrow> kind (wp_graph s) (outputNode grp) \<noteq> NodeSource \<and> outputNode grp \<notin> X"
proof -
  show "kind (wp_graph s) (outputNode grp) = NodeSource" if "wp_configs s nm = None"
  proof -
    have "node_of nm s = Some (outputNode grp)"
      using assms that unfolding wired_def inputs_ok_def by blast
    then show ?thesis using assms(1) unfolding wired_def sources_ok_def by blast
  qed
  assume "wp_configs s nm \<noteq> None"
  then obtain op ns where "wp_configs s nm = Some (op, ns)" by auto
  then have "kind (wp_graph s) (outputNode grp) = mode_kind op \<and> outputNode grp \<notin> X"
    using assms unfolding wired_def inputs_ok_def by blast
  then show "kind (wp_graph s) (outputNode grp) \<noteq> NodeSource \<and> outputNode grp \<notin> X"
    by (cases op) simp_all
qed

lemma building_not_output:
  assumes "building i pre k s" "groups s nm = Some grp"
  shows "outputNode grp \<noteq> i"
  using group_kind [of "{i}" s nm grp] assms unfolding building_def by (cases "wp_configs s nm") auto

lemma name_node_range:
  assumes "wired X s" "name_node nm s = Some k"
  shows "k < size_of (wp_graph s)"
  using assms group_node [OF assms(1)] unfolding name_node_def wired_def sources_ok_def by (auto split: option.splits)

lemma building_start:
  assumes "wp_ok s" "addNode op (wp_graph s) = (i, g)"
  shows "building i {} (mode_kind op) (s\<lparr>wp_graph := g\<rparr>)"
proof -
  note A = addNode_ports [OF assms(2)]
  let ?t = "s\<lparr>wp_graph := g\<rparr>"
  have w: "wired {} s" and sh: "shown {} s" and d: "dirty (wp_graph s) = []"
    using assms(1) by (simp_all add: wp_ok_def)
  have inv: "graph_inv g"
    using addNode_inv [of "wp_graph s" op] w assms(2) by (simp add: wired_def)
  have n: "node_of nm ?t = node_of nm s" "name_node nm ?t = name_node nm s" "protector_of nm ?t = protector_of nm s" for nm
    by (simp_all add: node_of_def name_node_def protector_of_def split: option.split)
  have old: "kind g j = kind (wp_graph s) j" "parents g j = parents (wp_graph s) j" "watchers g j = watchers (wp_graph s) j"
    "told g j = told (wp_graph s) j" "j < Suc (size_of (wp_graph s))" if "j < size_of (wp_graph s)" for j
    using A(8) [OF that] that by simp_all
  have "sources_ok ?t"
    using w old unfolding wired_def sources_ok_def n by (simp add: A(2)) (metis less_SucI)
  moreover have "links_ok ?t"
    using w old unfolding wired_def links_ok_def n by (simp add: A(2)) (metis less_SucI)
  moreover have "inputs_ok {i} ?t"
  proof -
    have out: "outputNode grp < size_of (wp_graph s)" if "groups s nm = Some grp" for nm grp
      by (rule group_node [OF w that])
    show ?thesis
      using w old out unfolding wired_def inputs_ok_def n
      by (simp add: A(1,2)) (metis less_SucI less_antisym less_not_refl2)
  qed
  ultimately have "wired {i} ?t" using inv by (simp add: wired_def)
  moreover have "shown {i} ?t"
    by (rule shownI) (use shownD [OF sh] A old less_antisym group_node [OF w] in \<open>auto simp: less_Suc_eq\<close>)
  ultimately show ?thesis
    using A d by (cases op) (simp_all add: building_def)
qed


lemma links_okI:
  assumes "\<And>nm links t n. pendingEntityLinks s nm = Some links \<Longrightarrow> (t, n) \<in> set links \<Longrightarrow>
        t < size_of (wp_graph s) \<and> n \<in> parents (wp_graph s) t"
    and "\<And>nm. pendingEntityLinks s nm \<noteq> None \<Longrightarrow> groups s nm = None"
    and "\<And>nm grp op ns m. groups s nm = Some grp \<Longrightarrow> wp_configs s nm = Some (op, ns) \<Longrightarrow> m \<in> set ns \<Longrightarrow>
        groups s m = None \<Longrightarrow> protector_of m s \<noteq> Some DbusProtector \<Longrightarrow>
        \<exists>links k. pendingEntityLinks s m = Some links \<and> (outputNode grp, k) \<in> set links"
  shows "links_ok s"
  unfolding links_ok_def using assms by meson

lemma links_okD:
  assumes "links_ok s"
  shows "pendingEntityLinks s nm = Some links \<Longrightarrow> (t, n) \<in> set links \<Longrightarrow>
        t < size_of (wp_graph s) \<and> n \<in> parents (wp_graph s) t"
    and "pendingEntityLinks s nm \<noteq> None \<Longrightarrow> groups s nm = None"
    and "groups s nm = Some grp \<Longrightarrow> wp_configs s nm = Some (op, ns) \<Longrightarrow> m \<in> set ns \<Longrightarrow>
        groups s m = None \<Longrightarrow> protector_of m s \<noteq> Some DbusProtector \<Longrightarrow>
        \<exists>links k. pendingEntityLinks s m = Some links \<and> (outputNode grp, k) \<in> set links"
  using assms unfolding links_ok_def by meson+

lemma inputs_okD:
  assumes "inputs_ok X s"
  shows "groups s nm = Some grp \<Longrightarrow> wp_configs s nm = None \<Longrightarrow> node_of nm s = Some (outputNode grp)"
    and "groups s nm = Some grp \<Longrightarrow> wp_configs s nm = Some (op, ns) \<Longrightarrow>
        outputNode grp < size_of (wp_graph s) \<and> outputNode grp \<notin> X \<and> kind (wp_graph s) (outputNode grp) = mode_kind op \<and>
        Some ` parents (wp_graph s) (outputNode grp) = (\<lambda>m. name_node m s) ` set ns"
    and "i < size_of (wp_graph s) \<Longrightarrow> kind (wp_graph s) i \<noteq> NodeSource \<Longrightarrow>
        i \<in> X \<or> (\<exists>nm grp. groups s nm = Some grp \<and> wp_configs s nm \<noteq> None \<and> outputNode grp = i)"
    and "groups s a = Some ga \<Longrightarrow> groups s b = Some gb \<Longrightarrow> outputNode ga = outputNode gb \<Longrightarrow> a = b"
  using assms unfolding inputs_ok_def by meson+

lemma inputs_okI:
  assumes "\<And>nm grp. groups s nm = Some grp \<Longrightarrow> wp_configs s nm = None \<Longrightarrow> node_of nm s = Some (outputNode grp)"
    and "\<And>nm grp op ns. groups s nm = Some grp \<Longrightarrow> wp_configs s nm = Some (op, ns) \<Longrightarrow>
        outputNode grp < size_of (wp_graph s) \<and> outputNode grp \<notin> X \<and> kind (wp_graph s) (outputNode grp) = mode_kind op \<and>
        Some ` parents (wp_graph s) (outputNode grp) = (\<lambda>m. name_node m s) ` set ns"
    and "\<And>i. i < size_of (wp_graph s) \<Longrightarrow> kind (wp_graph s) i \<noteq> NodeSource \<Longrightarrow>
        i \<in> X \<or> (\<exists>nm grp. groups s nm = Some grp \<and> wp_configs s nm \<noteq> None \<and> outputNode grp = i)"
    and "\<And>a b ga gb. groups s a = Some ga \<Longrightarrow> groups s b = Some gb \<Longrightarrow> outputNode ga = outputNode gb \<Longrightarrow> a = b"
  shows "inputs_ok X s"
  unfolding inputs_ok_def using assms by meson

text \<open>An edge into the node of the new group.\<close>

lemma building_edge:
  assumes "building i pre k s" "a < size_of (wp_graph s)" "connect a i (wp_graph s) = Some (Inr g)"
  defines "t \<equiv> s\<lparr>wp_graph := g\<rparr>"
  shows "wired {i} t \<and> shown {i} t \<and> set (dirty g) \<subseteq> {i} \<and> i < size_of g \<and> kind g i = k \<and> \<not> told g i \<and>
    watchers g i = {} \<and> parents g i = insert a (parents (wp_graph s) i)"
proof -
  have B: "wired {i} s" "shown {i} s" "set (dirty (wp_graph s)) \<subseteq> {i}" "i < size_of (wp_graph s)"
    "kind (wp_graph s) i = k" "k \<noteq> NodeSource" "\<not> told (wp_graph s) i"
    "watchers (wp_graph s) i = {}"
    using assms(1) by (simp_all add: building_def)
  have inv: "graph_inv (wp_graph s)" "sources_ok s" "inputs_ok {i} s" "links_ok s" using B(1) by (simp_all add: wired_def)
  note C = connect_ports [OF inv(1) assms(2) B(4) assms(3)]
  have n: "node_of nm t = node_of nm s" "name_node nm t = name_node nm s" "protector_of nm t = protector_of nm s" for nm
    by (simp_all add: t_def node_of_def name_node_def protector_of_def split: option.split)
  have not_i: "outputNode grp \<noteq> i" if "groups s nm = Some grp" for nm grp
    by (rule building_not_output [OF assms(1) that])
  have same: "kind g j = kind (wp_graph s) j" "watchers g j = watchers (wp_graph s) j" "told g j = told (wp_graph s) j"
    if "j < size_of (wp_graph s)" for j
    using C(3) [OF that] by simp_all
  have "sources_ok t"
    using inv(2) same(1) unfolding sources_ok_def n by (auto simp: t_def C(2))
  moreover have "inputs_ok {i} t"
  proof (rule inputs_okI)
    show "node_of nm t = Some (outputNode grp)" if "groups t nm = Some grp" "wp_configs t nm = None" for nm grp
      using inputs_okD(1) [OF inv(3)] that n by (simp add: t_def)
    show "outputNode grp < size_of (wp_graph t) \<and> outputNode grp \<notin> {i} \<and> kind (wp_graph t) (outputNode grp) = mode_kind op \<and>
        Some ` parents (wp_graph t) (outputNode grp) = (\<lambda>m. name_node m t) ` set ns"
      if "groups t nm = Some grp" "wp_configs t nm = Some (op, ns)" for nm grp op ns
      using inputs_okD(2) [OF inv(3), of nm grp op ns] that C(4) [of "outputNode grp"] same(1) n by (auto simp: t_def C(2))
    show "j \<in> {i} \<or> (\<exists>nm grp. groups t nm = Some grp \<and> wp_configs t nm \<noteq> None \<and> outputNode grp = j)"
      if "j < size_of (wp_graph t)" "kind (wp_graph t) j \<noteq> NodeSource" for j
      using inputs_okD(3) [OF inv(3), of j] that same(1) by (simp add: t_def C(2))
    show "a = b" if "groups t a = Some ga" "groups t b = Some gb" "outputNode ga = outputNode gb" for a b ga gb
      using inputs_okD(4) [OF inv(3)] that by (simp add: t_def)
  qed
  moreover have "links_ok t"
  proof (rule links_okI)
    show "u < size_of (wp_graph t) \<and> m \<in> parents (wp_graph t) u"
      if "pendingEntityLinks t nm = Some links" "(u, m) \<in> set links" for nm links u m
      using links_okD(1) [OF inv(4), of nm links u m] that C(4) [of u] by (auto simp: t_def C(2))
    show "groups t nm = None" if "pendingEntityLinks t nm \<noteq> None" for nm
      using links_okD(2) [OF inv(4)] that by (simp add: t_def)
    show "\<exists>links k. pendingEntityLinks t m = Some links \<and> (outputNode grp, k) \<in> set links"
      if "groups t nm = Some grp" "wp_configs t nm = Some (op, ns)" "m \<in> set ns" "groups t m = None"
        "protector_of m t \<noteq> Some DbusProtector" for nm grp op ns m
      using links_okD(3) [OF inv(4), of nm grp op ns m] that n by (simp add: t_def)
  qed
  ultimately have w: "wired {i} t" using C(1) by (simp add: wired_def t_def)
  have "shown {i} t"
  proof (rule shownI)
    fix j p assume j: "j < size_of (wp_graph t)" "p \<in> watchers (wp_graph t) j"
    moreover from this have "j \<noteq> i" using same(2) B(4,8) by (auto simp: t_def C(2))
    ultimately show "\<exists>f. objects t p = Some f \<and>
      (write_protected f = told (wp_graph t) j \<or> j \<in> {i} \<and> write_protected f = out (wp_graph t) j)"
      using shownD(1) [OF B(2), of j p] same by (auto simp: t_def C(2))
  qed (use shownD [OF B(2)] same group_node [OF B(1)] in \<open>auto simp: t_def C(2)\<close>)
  then show ?thesis
    using w C same [OF B(4)] B by (auto simp: t_def)
qed


lemma wired_source:
  assumes "wired X s" "shown X s" "groups s nm = None" "getOrCreateSource nm s = (src, created, t)"
  shows "wired X t \<and> shown X t \<and> node_of nm t = Some (source_node src) \<and> dirty (wp_graph t) = dirty (wp_graph s) \<and>
    (\<forall>j < size_of (wp_graph s). j < size_of (wp_graph t) \<and> kind (wp_graph t) j = kind (wp_graph s) j \<and>
       told (wp_graph t) j = told (wp_graph s) j \<and> watchers (wp_graph t) j = watchers (wp_graph s) j \<and>
       parents (wp_graph t) j = parents (wp_graph s) j) \<and>
    (\<forall>ps ns. Some ` ps = (\<lambda>m. name_node m s) ` ns \<longrightarrow> (\<lambda>m. name_node m t) ` ns = (\<lambda>m. name_node m s) ` ns) \<and>
    groups t = groups s \<and> pendingEntityLinks t = pendingEntityLinks s \<and> (\<forall>m. protector_of m t = protector_of m s)"
proof (cases "sources s nm")
  case (Some src')
  then show ?thesis
    using assms by (simp add: getOrCreateSource_def node_of_def)
next
  case None
  obtain a g where g: "addSource False (wp_graph s) = (a, g)" by (cases "addSource False (wp_graph s)")
  note A = addSource_ports [OF g]
  note B = assms(1,2)
  have inv: "graph_inv (wp_graph s)" "sources_ok s" "inputs_ok X s" "links_ok s" using B(1) by (simp_all add: wired_def)
  have src: "src = \<lparr>source_node = a, protector = None, lastChanged = None\<rparr>"
    and t: "t = s\<lparr>wp_graph := g, sources := (sources s)(nm \<mapsto> src), sourcesByNodeId := (sourcesByNodeId s)(a \<mapsto> nm)\<rparr>"
    using assms(4) None g by (auto simp: getOrCreateSource_def Let_def)
  have tf: "groups t = groups s" "wp_configs t = wp_configs s" "pendingEntityLinks t = pendingEntityLinks s"
    "objects t = objects s" "nextObject t = nextObject s" "wp_graph t = g"
    by (simp_all add: t)
  have n: "node_of m t = (if m = nm then Some a else node_of m s)" "protector_of m t = protector_of m s" for m
    using None by (simp_all add: t node_of_def protector_of_def src)
  have nn: "name_node m t = (if m = nm then Some a else name_node m s)" for m
    using assms(3) n by (simp add: name_node_def t split: option.split)
  have none: "name_node nm s = None" using assms(3) None by (simp add: name_node_def node_of_def)
  have "(\<lambda>m. name_node m t) ` ns = (\<lambda>m. name_node m s) ` ns" if "Some ` ps = (\<lambda>m. name_node m s) ` ns" for ps ns
  proof -
    have "nm \<notin> ns" using that none by (metis imageE image_eqI option.distinct(1))
    then show ?thesis using nn by (auto simp: image_iff)
  qed
  note names = this
  have old: "kind g j = kind (wp_graph s) j" "parents g j = parents (wp_graph s) j" "watchers g j = watchers (wp_graph s) j"
    "told g j = told (wp_graph s) j" "out g j = out (wp_graph s) j" "j < Suc (size_of (wp_graph s))" if "j < size_of (wp_graph s)" for j
    using A(8) [OF that] that by simp_all
  have "graph_inv g" using addSource_inv [OF inv(1), of False] g by simp
  moreover have "sources_ok t"
  proof -
    have iff: "node_of m s = Some j \<longleftrightarrow> sourcesByNodeId s j = Some m" and
      range: "node_of m s = Some j \<Longrightarrow> j < size_of (wp_graph s) \<and> kind (wp_graph s) j = NodeSource" for m j
      using inv(2) unfolding sources_ok_def by blast+
    have "node_of nm s = None" using None by (simp add: node_of_def)
    moreover have sb: "sourcesByNodeId t j = (if j = a then Some nm else sourcesByNodeId s j)" for j
      by (simp add: t)
    ultimately have "node_of m t = Some j \<longleftrightarrow> sourcesByNodeId t j = Some m" for m j
      using iff [of m j] iff [of nm j] range [of m j] A(1) by (auto simp: n)
    moreover have "node_of m t = Some j \<Longrightarrow> j < size_of g \<and> kind g j = NodeSource" for m j
      using range [of m j] old(1) [of j] A(1-3) by (auto simp: n split: if_splits)
    ultimately show ?thesis unfolding sources_ok_def by (simp add: t)
  qed
  moreover have "inputs_ok X t"
  proof (rule inputs_okI)
    show "node_of m t = Some (outputNode grp)" if "groups t m = Some grp" "wp_configs t m = None" for m grp
      using inputs_okD(1) [OF inv(3), of m grp] that assms(3) by (auto simp: n tf)
    show "outputNode grp < size_of (wp_graph t) \<and> outputNode grp \<notin> X \<and> kind (wp_graph t) (outputNode grp) = mode_kind op \<and>
        Some ` parents (wp_graph t) (outputNode grp) = (\<lambda>m. name_node m t) ` set ns"
      if "groups t m = Some grp" "wp_configs t m = Some (op, ns)" for m grp op ns
    proof -
      have H: "groups s m = Some grp" "wp_configs s m = Some (op, ns)" using that by (simp_all add: tf)
      note D = inputs_okD(2) [OF inv(3) H]
      have "(\<lambda>m. name_node m t) ` set ns = (\<lambda>m. name_node m s) ` set ns"
        by (rule names [of "parents (wp_graph s) (outputNode grp)"]) (use D in simp)
      then show ?thesis using D old [of "outputNode grp"] A(2) by (simp add: tf)
    qed
    show "j \<in> X \<or> (\<exists>m grp. groups t m = Some grp \<and> wp_configs t m \<noteq> None \<and> outputNode grp = j)"
      if "j < size_of (wp_graph t)" "kind (wp_graph t) j \<noteq> NodeSource" for j
      using inputs_okD(3) [OF inv(3), of j] that old(1) [of j] A(1-3) by (auto simp: tf less_Suc_eq)
    show "b = c" if "groups t b = Some gb" "groups t c = Some gc" "outputNode gb = outputNode gc" for b c gb gc
      using inputs_okD(4) [OF inv(3)] that by (simp add: tf)
  qed
  moreover have "links_ok t"
  proof (rule links_okI)
    show "u < size_of (wp_graph t) \<and> m \<in> parents (wp_graph t) u"
      if "pendingEntityLinks t nm = Some links" "(u, m) \<in> set links" for nm links u m
      using links_okD(1) [OF inv(4), of nm links u m] that old [of u] by (auto simp: tf A(2))
    show "groups t nm = None" if "pendingEntityLinks t nm \<noteq> None" for nm
      using links_okD(2) [OF inv(4)] that by (simp add: tf)
    show "\<exists>links k. pendingEntityLinks t m = Some links \<and> (outputNode grp, k) \<in> set links"
      if "groups t nm = Some grp" "wp_configs t nm = Some (op, ns)" "m \<in> set ns" "groups t m = None"
        "protector_of m t \<noteq> Some DbusProtector" for nm grp op ns m
      using links_okD(3) [OF inv(4), of nm grp op ns m] that n by (simp add: tf)
  qed
  ultimately have w: "wired X t" by (simp add: wired_def t)
  moreover have "shown X t"
  proof (rule shownI)
    show "\<exists>f. objects t p = Some f \<and>
      (write_protected f = told (wp_graph t) j \<or> j \<in> X \<and> write_protected f = out (wp_graph t) j)"
      if "j < size_of (wp_graph t)" "p \<in> watchers (wp_graph t) j" for j p
      using shownD(1) [OF B(2), of j p] that old [of j] A(1,2,5) by (auto simp: tf less_Suc_eq)
    show "a = b" if "a < size_of (wp_graph t)" "b < size_of (wp_graph t)"
      "p \<in> watchers (wp_graph t) a" "p \<in> watchers (wp_graph t) b" for a b p
      using shownD(2) [OF B(2), of a b p] that old [of a] old [of b] A(1,2,5) by (auto simp: tf less_Suc_eq)
    show "p < nextObject t" if "objects t p \<noteq> None" for p
      using shownD(3) [OF B(2)] that by (simp add: tf)
    show "objects_of grp \<subseteq> watchers (wp_graph t) (outputNode grp)" if "groups t m = Some grp" for m grp
      using shownD(4) [OF B(2), of m grp] that old group_node [OF B(1), of m grp] by (simp add: tf)
  qed
  moreover have "node_of nm t = Some (source_node src)" by (simp add: n(1) src)
  ultimately show ?thesis using old names A(2,9) n(2) by (simp add: tf)
qed

lemma building_source:
  assumes "building i pre k s" "groups s nm = None" "getOrCreateSource nm s = (src, created, t)"
  shows "building i pre k t \<and> node_of nm t = Some (source_node src)"
proof -
  have B: "wired {i} s" "shown {i} s" "i < size_of (wp_graph s)" "Some ` parents (wp_graph s) i = (\<lambda>m. name_node m s) ` pre"
    using assms(1) by (simp_all add: building_def)
  note W = wired_source [OF B(1,2) assms(2,3)]
  have "(\<lambda>m. name_node m t) ` pre = (\<lambda>m. name_node m s) ` pre" using W B(4) by blast
  then show ?thesis using W B(3) assms(1) unfolding building_def by simp
qed

lemma building_linked:
  assumes "building i pre k s" "name_node nm s = Some a" "connect a i (wp_graph s) = Some (Inr g)"
    and u: "wp_graph u = g" "sources u = sources s" "sourcesByNodeId u = sourcesByNodeId s" "groups u = groups s"
      "wp_configs u = wp_configs s" "objects u = objects s" "nextObject u = nextObject s"
    and p: "pendingEntityLinks u = (if groups s nm \<noteq> None then pendingEntityLinks s else (pendingEntityLinks s)
         (nm \<mapsto> (case pendingEntityLinks s nm of None \<Rightarrow> [] | Some links \<Rightarrow> links) @ [(i, a)]))"
  shows "building i (insert nm pre) k u"
proof -
  have B: "wired {i} s" "k \<noteq> NodeSource" using assms(1) by (simp_all add: building_def)
  let ?t = "s\<lparr>wp_graph := g\<rparr>"
  have E: "wired {i} ?t" "shown {i} ?t" "set (dirty g) \<subseteq> {i}" "i < size_of g" "kind g i = k" "\<not> told g i" "watchers g i = {}"
    "parents g i = insert a (parents (wp_graph s) i)"
    using building_edge [OF assms(1) name_node_range [OF B(1) assms(2)] assms(3)] by simp_all
  have t: "graph_inv g" "sources_ok ?t" "inputs_ok {i} ?t" "links_ok ?t" using E(1) by (simp_all add: wired_def)
  have n: "node_of m u = node_of m s" "name_node m u = name_node m s" "protector_of m u = protector_of m s"
    "node_of m ?t = node_of m s" "name_node m ?t = name_node m s" for m
    using u by (simp_all add: node_of_def name_node_def protector_of_def split: option.split)
  have keep: "\<exists>links'. pendingEntityLinks u m = Some links' \<and> set links \<subseteq> set links'"
    if "pendingEntityLinks s m = Some links" for m links
    using that by (auto simp: p)
  have "sources_ok u" using t(2) u n by (simp add: sources_ok_def)
  moreover have "inputs_ok {i} u" using t(3) u n by (simp add: inputs_ok_def)
  moreover have "links_ok u"
  proof (rule links_okI)
    show "c < size_of (wp_graph u) \<and> m \<in> parents (wp_graph u) c"
      if "pendingEntityLinks u x = Some links" "(c, m) \<in> set links" for x links c m
      using links_okD(1) [OF t(4), of x _ c m] that E(4,8) u(1)
      by (auto simp: p split: if_splits option.splits)
    show "groups u x = None" if "pendingEntityLinks u x \<noteq> None" for x
      using links_okD(2) [OF t(4), of x] that u by (auto simp: p split: if_splits)
    show "\<exists>links k. pendingEntityLinks u m = Some links \<and> (outputNode grp, k) \<in> set links"
      if "groups u x = Some grp" "wp_configs u x = Some (op, ns)" "m \<in> set ns" "groups u m = None"
        "protector_of m u \<noteq> Some DbusProtector" for x grp op ns m
    proof -
      obtain links k where l: "pendingEntityLinks s m = Some links" "(outputNode grp, k) \<in> set links"
        using links_okD(3) [OF t(4), of x grp op ns m] \<open>groups u x = Some grp\<close> \<open>wp_configs u x = Some (op, ns)\<close>
          \<open>m \<in> set ns\<close> \<open>groups u m = None\<close> \<open>protector_of m u \<noteq> Some DbusProtector\<close> u n by auto
      then show ?thesis using keep [OF l(1)] by blast
    qed
  qed
  ultimately have "wired {i} u" using t(1) u(1) by (simp add: wired_def)
  moreover have "shown {i} u" using E(2) shown_cong [of u ?t] u by simp
  moreover have "Some ` parents g i = (\<lambda>m. name_node m u) ` insert nm pre"
    using assms(1,2) E(8) n by (simp add: building_def)
  moreover have "\<exists>links n. pendingEntityLinks u m = Some links \<and> (i, n) \<in> set links"
    if m: "m \<in> insert nm pre" "groups u m = None" "protector_of m u \<noteq> Some DbusProtector" for m
  proof (cases "m = nm")
    case True
    then show ?thesis using m(2) u(4) by (auto simp: p)
  next
    case False
    then obtain links n where l: "pendingEntityLinks s m = Some links" "(i, n) \<in> set links"
      using assms(1) m u n(3) unfolding building_def by auto
    then show ?thesis using keep [OF l(1)] by blast
  qed
  ultimately show ?thesis
    using E(3-7) B(2) u(1) by (simp add: building_def)
qed

lemma connect_nodes_safely:
  assumes "graph_inv (wp_graph s)" "a < size_of (wp_graph s)" "b < size_of (wp_graph s)"
    and "\<And>g. connect a b (wp_graph s) = Some (Inr g) \<Longrightarrow> Q (s\<lparr>wp_graph := g\<rparr>)"
  shows "safely (connect_nodes a b s) Q"
  using assms(4) connect_result [OF assms(1), of a b] assms(2,3)
  by (auto simp: connect_nodes_def ports Let_def split: if_splits)

lemma link_sources_ok:
  "building i pre k s \<Longrightarrow>
   safely (link_sources d i nms settable s) (\<lambda>(x, t). building i (pre \<union> set nms) k t \<and> groups t = groups s \<and>
     wp_configs t = wp_configs s \<and> (\<forall>nm. protector_of nm t = protector_of nm s) \<and>
     (\<forall>nm k. node_of nm s = Some k \<longrightarrow> node_of nm t = Some k) \<and>
     (\<forall>n. x = Some n \<longrightarrow> settable = Some n \<or> (\<exists>nm. node_of nm t = Some n)))"
proof (induction nms arbitrary: pre settable s)
  case (Cons nm nms)
  let ?P = "\<lambda>settable s pre (x, t). building i (pre \<union> set (nm # nms)) k t \<and> groups t = groups s \<and> wp_configs t = wp_configs s \<and>
    (\<forall>nm. protector_of nm t = protector_of nm s) \<and> (\<forall>nm k. node_of nm s = Some k \<longrightarrow> node_of nm t = Some k) \<and>
    (\<forall>n. x = Some n \<longrightarrow> settable = Some n \<or> (\<exists>nm. node_of nm t = Some n))"
  have B: "wired {i} s" "i < size_of (wp_graph s)" "graph_inv (wp_graph s)"
    using Cons.prems by (simp_all add: building_def wired_def)
  show ?case
  proof (cases "groups s nm")
    case (Some grp)
    have name: "name_node nm s = Some (outputNode grp)" using Some by (simp add: name_node_def)
    show ?thesis
      unfolding link_sources.simps Some option.case safely_and_then
    proof (rule connect_nodes_safely [OF B(3) group_node [OF B(1) Some] B(2)])
      fix g assume "connect (outputNode grp) i (wp_graph s) = Some (Inr g)"
      then have "building i (insert nm pre) k (s\<lparr>wp_graph := g\<rparr>)"
        using building_linked [OF Cons.prems name] Some by simp
      from Cons.IH [OF this, of settable]
      show "safely (link_sources d i nms settable (s\<lparr>wp_graph := g\<rparr>)) (?P settable s pre)"
        by (rule safely_weaken) auto
    qed
  next
    case None
    obtain src created t where t: "getOrCreateSource nm s = (src, created, t)" by (metis prod_cases3)
    have T: "building i pre k t" "node_of nm t = Some (source_node src)"
      using building_source [OF Cons.prems None t] by simp_all
    have gt: "groups t = groups s" "wp_configs t = wp_configs s" "\<And>m. protector_of m t = protector_of m s"
      "\<And>m k. node_of m s = Some k \<Longrightarrow> node_of m t = Some k"
      using t by (auto simp: getOrCreateSource_def Let_def protector_of_def node_of_def split: option.splits prod.splits)
    have name: "name_node nm t = Some (source_node src)" using T(2) None gt by (simp add: name_node_def)
    have B': "wired {i} t" "i < size_of (wp_graph t)" "graph_inv (wp_graph t)"
      using T(1) by (simp_all add: building_def wired_def)
    show ?thesis
      unfolding link_sources.simps None option.case t Let_def prod.case safely_and_then
    proof (rule connect_nodes_safely [OF B'(3) name_node_range [OF B'(1) name] B'(2)])
      fix g assume c: "connect (source_node src) i (wp_graph t) = Some (Inr g)"
      let ?v = "if created then spawnEntityInit nm (t\<lparr>wp_graph := g\<rparr>) else t\<lparr>wp_graph := g\<rparr>"
      let ?u = "add_pending nm (i, source_node src) ?v"
      let ?x = "if d \<and> settable = None then Some (source_node src) else settable"
      have b: "building i (insert nm pre) k ?u"
        by (rule building_linked [OF T(1) name c]) (simp_all add: None gt add_pending_def)
      have n: "node_of m ?u = node_of m t" "protector_of m ?u = protector_of m t" for m by simp_all
      have g: "groups ?u = groups s" "wp_configs ?u = wp_configs s" using gt by simp_all
      show "safely (link_sources d i nms ?x ?u) (?P settable s pre)"
      proof (rule safely_weaken [OF Cons.IH [OF b]])
        fix a assume "case a of (x, t) \<Rightarrow> building i (insert nm pre \<union> set nms) k t \<and> groups t = groups ?u \<and>
          wp_configs t = wp_configs ?u \<and> (\<forall>nm. protector_of nm t = protector_of nm ?u) \<and>
          (\<forall>nm k. node_of nm ?u = Some k \<longrightarrow> node_of nm t = Some k) \<and>
          (\<forall>n. x = Some n \<longrightarrow> ?x = Some n \<or> (\<exists>nm. node_of nm t = Some n))"
        then show "?P settable s pre a"
          using T(2) gt unfolding n g by (auto split: if_splits; blast)
      qed
    qed
  qed
qed simp


section \<open>The objects of a group\<close>

definition furnishing :: "nat set \<Rightarrow> nat \<Rightarrow> wp_group \<Rightarrow> manager \<Rightarrow> bool" where
  "furnishing X i grp s \<longleftrightarrow>
     wired X s \<and> shown X s \<and> i < size_of (wp_graph s) \<and> outputNode grp = i \<and>
     objects_of grp \<subseteq> watchers (wp_graph s) i \<and>
     (\<forall>nm p. map_of (group_software grp) nm = Some p \<longrightarrow> (\<exists>f. objects s p = Some f \<and>
        facade_path f = softwarePath nm \<and> facade_kind f = SoftwareFacade)) \<and>
     (i \<in> X \<or> told (wp_graph s) i = out (wp_graph s) i)"

text \<open>
  What the construction of objects changes besides the objects: one node has more observers.
\<close>

definition furnished :: "manager \<Rightarrow> manager \<Rightarrow> bool" where
  "furnished s t \<longleftrightarrow> same_shape s (t\<lparr>wp_graph := wp_graph s, nextObject := nextObject s\<rparr>) \<and> graph_inv (wp_graph t) \<and>
     size_of (wp_graph t) = size_of (wp_graph s) \<and> dirty (wp_graph t) = dirty (wp_graph s) \<and>
     (\<forall>j < size_of (wp_graph s). kind (wp_graph t) j = kind (wp_graph s) j \<and> parents (wp_graph t) j = parents (wp_graph s) j \<and>
        told (wp_graph t) j = told (wp_graph s) j \<and> out (wp_graph t) j = out (wp_graph s) j)"

lemma furnished_refl: "graph_inv (wp_graph s) \<Longrightarrow> furnished s s"
  by (simp add: furnished_def same_shape_def)

lemma furnished_trans: "furnished s t \<Longrightarrow> furnished t u \<Longrightarrow> furnished s u"
  unfolding furnished_def same_shape_def by (auto simp: same_books_def)

lemma furnished_wired:
  assumes "wired X s" "furnished s t" shows "wired X t"
proof -
  have b: "same_books s t" using assms(2) by (simp add: furnished_def same_shape_def)
  note names = same_books_names [OF b]
  have f: "size_of (wp_graph t) = size_of (wp_graph s)" "graph_inv (wp_graph t)"
    "\<And>j. j < size_of (wp_graph s) \<Longrightarrow> kind (wp_graph t) j = kind (wp_graph s) j \<and> parents (wp_graph t) j = parents (wp_graph s) j"
    using assms(2) by (simp_all add: furnished_def)
  have e: "groups t = groups s" "wp_configs t = wp_configs s" "pendingEntityLinks t = pendingEntityLinks s"
    "sourcesByNodeId t = sourcesByNodeId s"
    using b by (simp_all add: same_books_def)
  have S: "sources_ok s" "inputs_ok X s" "links_ok s" using assms(1) by (simp_all add: wired_def)
  have "sources_ok t" using S(1) f(3) unfolding sources_ok_def f(1) e names by simp
  moreover have "inputs_ok X t" using S(2) f(3) unfolding inputs_ok_def f(1) e names by simp
  moreover have "links_ok t" using S(3) unfolding links_ok_def f(1) e names by (metis f(3))
  ultimately show ?thesis using f(2) by (simp add: wired_def)
qed

lemma add_object:
  assumes F: "furnishing X i grp s"
    and v: "v = told (wp_graph s) i \<or> i \<in> X \<and> v = out (wp_graph s) i"
    and t: "t = s\<lparr>objects := (objects s)(nextObject s \<mapsto> \<lparr>facade_kind = k, facade_path = path, write_protected = v\<rparr>),
      nextObject := nextObject s + 1, wp_graph := subscribe i (nextObject s) (wp_graph s)\<rparr>"
  shows "furnished s t \<and> wired X t \<and> shown X t \<and> watchers (wp_graph t) i = insert (nextObject s) (watchers (wp_graph s) i) \<and>
    furnishing X i grp t"
proof -
  let ?g = "subscribe i (nextObject s) (wp_graph s)"
  have w: "wired X s" "shown X s" "i < size_of (wp_graph s)" "graph_inv (wp_graph s)" "outputNode grp = i"
    using F by (simp_all add: furnishing_def wired_def)
  note P = subscribe_ports [OF w(4,3) refl, where p = "nextObject s"]
  have f: "furnished s t"
    using P w(4) by (simp add: furnished_def t same_shape_def)
  note wt = furnished_wired [OF w(1) f]
  have fresh: "nextObject s \<notin> watchers (wp_graph s) j" if "j < size_of (wp_graph s)" for j
    using shownD(1) [OF w(2) that] shownD(3) [OF w(2), of "nextObject s"] by fastforce
  have old: "p \<noteq> nextObject s" if "p \<in> watchers (wp_graph s) j" "j < size_of (wp_graph s)" for p j
    using fresh that by blast
  have sh: "shown X t"
  proof (rule shownI)
    fix j p assume jp: "j < size_of (wp_graph t)" "p \<in> watchers (wp_graph t) j"
    then have j: "j < size_of (wp_graph s)" using P(2) by (simp add: t)
    show "\<exists>f. objects t p = Some f \<and>
      (write_protected f = told (wp_graph t) j \<or> j \<in> X \<and> write_protected f = out (wp_graph t) j)"
    proof (cases "p \<in> watchers (wp_graph s) j")
      case True
      then show ?thesis using shownD(1) [OF w(2) j] old [OF True j] P(4) [OF j] by (simp add: t)
    next
      case False
      then have "p = nextObject s" "j = i" using jp(2) P(4) [OF j] by (auto simp: t split: if_splits)
      then show ?thesis using v P(4) [OF j] by (auto simp: t)
    qed
  next
    fix j l p assume "j < size_of (wp_graph t)" "l < size_of (wp_graph t)" "p \<in> watchers (wp_graph t) j" "p \<in> watchers (wp_graph t) l"
    then show "j = l"
      using shownD(2) [OF w(2), of j l p] old [of p j] old [of p l] P(2) P(4) [of j] P(4) [of l] by (auto simp: t split: if_splits)
  next
    fix p assume "objects t p \<noteq> None"
    then show "p < nextObject t" using shownD(3) [OF w(2), of p] by (auto simp: t split: if_splits)
  next
    fix nm g assume "groups t nm = Some g"
    then have "groups s nm = Some g" by (simp add: t)
    then show "objects_of g \<subseteq> watchers (wp_graph t) (outputNode g)"
      using shownD(4) [OF w(2)] P(4) [OF group_node [OF w(1)]] by (auto simp: t)
  qed
  have "\<exists>f. objects t p = Some f \<and> facade_path f = softwarePath nm \<and> facade_kind f = SoftwareFacade"
    if sw: "map_of (group_software grp) nm = Some p" for nm p
  proof -
    have "p \<in> objects_of grp" using map_of_SomeD [OF sw] by (force simp: objects_of_def)
    then have "p \<noteq> nextObject s" using F old w(3) unfolding furnishing_def by blast
    then show ?thesis using F sw unfolding furnishing_def by (simp add: t)
  qed
  then have "furnishing X i grp t"
    using F sh wt P(2) P(4) [OF w(3)] unfolding furnishing_def by (auto simp: t)
  then show ?thesis using f wt sh P(4) [OF w(3)] by (simp add: t)
qed

lemma new_object_safely:
  assumes "accepts path \<Longrightarrow> \<not> path_taken k path s \<Longrightarrow> Q (nextObject s,
      s\<lparr>objects := (objects s)(nextObject s \<mapsto> \<lparr>facade_kind = k, facade_path = path, write_protected = False\<rparr>),
        nextObject := nextObject s + 1\<rparr>)"
  shows "safely (new_object accepts k path s) Q"
  using assms by (simp add: new_object_def)

lemma path_not_taken:
  assumes "\<not> path_taken k path s" "objects s p = Some f" "p < nextObject s" "same_interface (facade_kind f) k"
  shows "facade_path f \<noteq> path"
  using assms by (auto simp: path_taken_def list_ex_iff split: option.splits)

lemma add_facade_ok:
  assumes "furnishing X i (new_group i) s" "\<not> told (wp_graph s) i"
  shows "safely (add_facade accepts iface dp cp settable (new_group i) s)
    (\<lambda>(grp, t). furnishing X i grp t \<and> furnished s t \<and> group_software grp = [] \<and> wp_configs t = wp_configs s)"
proof -
  have one: "furnishing X i grp' (subscribe_object (outputNode (new_group i)) (nextObject s)
        (s\<lparr>objects := (objects s)(nextObject s \<mapsto> \<lparr>facade_kind = k, facade_path = path, write_protected = False\<rparr>),
           nextObject := nextObject s + 1\<rparr>)) \<and>
      furnished s (subscribe_object (outputNode (new_group i)) (nextObject s)
        (s\<lparr>objects := (objects s)(nextObject s \<mapsto> \<lparr>facade_kind = k, facade_path = path, write_protected = False\<rparr>),
           nextObject := nextObject s + 1\<rparr>))"
    if "objects_of grp' = {nextObject s}" "outputNode grp' = i" "group_software grp' = []" for grp' k path
    using add_object [OF assms(1), of False _ k path, OF _ refl] assms(2) that
    by (auto simp: furnishing_def subscribe_object_def new_group_def)
  show ?thesis
  proof (cases iface)
    case WriteProtectGroup
    then show ?thesis
      using assms(1) by (auto simp: add_facade_def new_group_def furnishing_def wired_def intro: furnished_refl)
  next
    case HardwareWriteProtectedControl
    then show ?thesis
      using one [of "(new_group i)\<lparr>group_hwWpCtrl := Some (nextObject s)\<rparr>" HwWpCtrlFacade cp]
      by (auto simp: add_facade_def objects_of_def new_group_def subscribe_object_def intro!: new_object_safely)
  next
    case WriteProtectDomain
    then show ?thesis
      using one [of "(new_group i)\<lparr>group_domain := Some (nextObject s)\<rparr>" "DomainFacade settable" dp]
      by (auto simp: add_facade_def objects_of_def new_group_def subscribe_object_def intro!: new_object_safely)
  qed
qed


lemma addSoftware_ok:
  assumes F: "furnishing X i grp s"
  shows "safely (addSoftwareToGroup accepts grp nm s) (\<lambda>(grp', t). furnishing X i grp' t \<and> furnished s t)"
  unfolding addSoftwareToGroup_def safely_and_then
proof (rule new_object_safely)
  let ?p = "nextObject s" and ?g = "wp_graph s"
  let ?s = "s\<lparr>objects := (objects s)(?p \<mapsto> \<lparr>facade_kind = SoftwareFacade, facade_path = softwarePath nm, write_protected = False\<rparr>),
        nextObject := ?p + 1\<rparr>"
  let ?t = "s\<lparr>objects := (objects s)(?p \<mapsto> \<lparr>facade_kind = SoftwareFacade, facade_path = softwarePath nm,
        write_protected = out ?g i\<rparr>), nextObject := ?p + 1, wp_graph := subscribe i ?p ?g\<rparr>"
  assume free: "\<not> path_taken SoftwareFacade (softwarePath nm) s"
  have w: "shown X s" "i < size_of ?g" "graph_inv ?g" "outputNode grp = i"
    using F by (simp_all add: furnishing_def wired_def)
  have none: "map_of (group_software grp) nm = None"
  proof (rule ccontr)
    assume "map_of (group_software grp) nm \<noteq> None"
    then obtain p f where "objects s p = Some f" "facade_path f = softwarePath nm" "facade_kind f = SoftwareFacade"
      using F unfolding furnishing_def by blast
    then show False using path_not_taken [OF free] shownD(3) [OF w(1), of p] by auto
  qed
  note P = subscribe_ports [OF w(3,2) refl, where p = ?p]
  have o: "output_of (subscribe i ?p ?g) i = out ?g i"
    using output_of_stored [OF P(1)] w(2) P(2) P(4) [OF w(2)] by (simp add: ports)
  have A: "furnished s ?t \<and> wired X ?t \<and> shown X ?t \<and> watchers (wp_graph ?t) i = insert ?p (watchers ?g i) \<and> furnishing X i grp ?t"
    by (rule add_object [OF F _ refl]) (use F in \<open>auto simp: furnishing_def\<close>)
  have eq: "set_object ?p (output_of (wp_graph (subscribe_object (outputNode grp) ?p ?s)) (outputNode grp))
      (subscribe_object (outputNode grp) ?p ?s) = ?t"
    using o by (simp add: set_object_def subscribe_object_def w(4))
  have "furnishing X i (grp\<lparr>group_software := (nm, ?p) # group_software grp\<rparr>) ?t"
    using A none unfolding furnishing_def by (auto simp: objects_of_def)
  then show "safely (case (?p, ?s) of (p, s) \<Rightarrow> let s = subscribe_object (outputNode grp) p s;
           s = set_object p (output_of (wp_graph s) (outputNode grp)) s
       in if map_of (group_software grp) nm = None
          then Done (grp\<lparr>group_software := (nm, p) # group_software grp\<rparr>, s)
          else Done (grp, destroy_object p s)) (\<lambda>(grp', t). furnishing X i grp' t \<and> furnished s t)"
    using A unfolding prod.case Let_def eq none by simp
qed

lemma add_software_ok:
  "furnishing X i grp s \<Longrightarrow>
     safely (add_software accepts grp nms s) (\<lambda>(grp', t). furnishing X i grp' t \<and> furnished s t)"
proof (induction nms arbitrary: grp s)
  case Nil
  then show ?case by (simp add: furnishing_def wired_def furnished_refl)
next
  case (Cons nm nms)
  note one = addSoftware_ok [OF Cons.prems, of accepts nm]
  show ?case
  proof (cases "addSoftwareToGroup accepts grp nm s")
    case (Done a)
    obtain grp1 s1 where a: "a = (grp1, s1)" by (cases a)
    have one': "furnishing X i grp1 s1" "furnished s s1" using one by (simp_all add: Done a)
    have "safely (add_software accepts grp1 nms s1) (\<lambda>(grp', t). furnishing X i grp' t \<and> furnished s t)"
      by (rule safely_weaken [OF Cons.IH [OF one'(1)]]) (use one'(2) furnished_trans in auto)
    then show ?thesis by (simp add: Done a)
  qed (use one in simp_all)
qed

section \<open>Resolving the links to a new group\<close>

text \<open>
  The loop of \<open>resolveGroupLinks\<close> for a group that is not the placeholder: its node replaces the placeholder
  \<open>n\<close> in the inputs of the targets, and nothing else changes its output.
\<close>

definition rewired :: "nat \<Rightarrow> nat \<Rightarrow> nat set \<Rightarrow> nat graph \<Rightarrow> nat graph \<Rightarrow> bool" where
  "rewired i n ts g h \<longleftrightarrow> graph_inv h \<and> size_of h = size_of g \<and> kind h n = NodeSource \<and> watchers h n = {} \<and>
     (\<forall>j < size_of g. j \<noteq> n \<longrightarrow> kind h j = kind g j \<and> watchers h j = watchers g j \<and> told h j = told g j \<and>
        parents h j = (parents g j - {n}) \<union> (if j \<in> ts then {i} else {}) \<and>
        (j \<notin> ts \<and> n \<notin> parents g j \<longrightarrow> out h j = out g j)) \<and>
     set (dirty h) \<subseteq> set (dirty g) \<union> ts \<union> {j. j < size_of g \<and> n \<in> parents g j}"


lemma rewired_one:
  assumes g: "graph_inv g" "i < size_of g" "t < size_of g" "n < size_of g" "i \<noteq> n"
    and n: "kind g n = NodeSource" and h: "connect i t g = Some (Inr h)"
  shows "rewired i n {t} g (deactivate n h)"
proof -
  note C = connect_ports [OF g(1-3) h]
  have n': "n < size_of h" using g(4) C(2) by simp
  note D = deactivate_ports [OF C(1) n' refl]
  have tn: "t \<noteq> n" using C(7) n by auto
  have j: "kind (deactivate n h) j = kind g j \<and> watchers (deactivate n h) j = watchers g j \<and> told (deactivate n h) j = told g j \<and>
      parents (deactivate n h) j = (parents g j - {n}) \<union> (if j \<in> {t} then {i} else {}) \<and>
      (j \<notin> {t} \<and> n \<notin> parents g j \<longrightarrow> out (deactivate n h) j = out g j)" if "j < size_of g" "j \<noteq> n" for j
  proof -
    have "j < size_of h" using that C(2) by simp
    note Dj = D(6) [OF this that(2)] D(7) [OF this that(2)]
    show ?thesis
      using Dj C(3) [OF that(1)] C(4) [OF that(1)] C(5) [OF that(1)] g(5) by auto
  qed
  have "set (dirty (deactivate n h)) \<subseteq> set (dirty g) \<union> {t} \<union> {j. j < size_of g \<and> n \<in> parents g j}"
    using D(8) C(2,4,6) g(5) by (auto split: if_splits)
  then show ?thesis
    using D(1-5) C(2) j by (simp add: rewired_def)
qed

lemma rewired_trans:
  assumes "rewired i n ts g h" "rewired i n us h k" "i \<noteq> n"
  shows "rewired i n (ts \<union> us) g k"
proof -
  have H: "graph_inv h" "size_of h = size_of g" "set (dirty h) \<subseteq> set (dirty g) \<union> ts \<union> {j. j < size_of g \<and> n \<in> parents g j}"
    "\<And>j. j < size_of g \<Longrightarrow> j \<noteq> n \<Longrightarrow> kind h j = kind g j \<and> watchers h j = watchers g j \<and> told h j = told g j \<and>
        parents h j = (parents g j - {n}) \<union> (if j \<in> ts then {i} else {}) \<and>
        (j \<notin> ts \<and> n \<notin> parents g j \<longrightarrow> out h j = out g j)"
    using assms(1) by (simp_all add: rewired_def)
  have "kind h n = NodeSource" using assms(1) by (simp add: rewired_def)
  then have np: "n \<notin> parents h n" if "n < size_of h"
    using ports_range(2) [OF H(1) that] by simp
  have K: "graph_inv k" "size_of k = size_of h" "kind k n = NodeSource" "watchers k n = {}"
    "set (dirty k) \<subseteq> set (dirty h) \<union> us \<union> {j. j < size_of h \<and> n \<in> parents h j}"
    "\<And>j. j < size_of h \<Longrightarrow> j \<noteq> n \<Longrightarrow> kind k j = kind h j \<and> watchers k j = watchers h j \<and> told k j = told h j \<and>
        parents k j = (parents h j - {n}) \<union> (if j \<in> us then {i} else {}) \<and>
        (j \<notin> us \<and> n \<notin> parents h j \<longrightarrow> out k j = out h j)"
    using assms(2) by (simp_all add: rewired_def)
  have "n \<notin> parents h j" if "j < size_of h" for j
    using H(4) [of j] that np H(2) assms(3) by (cases "j = n") (auto split: if_splits)
  then have d: "set (dirty k) \<subseteq> set (dirty g) \<union> (ts \<union> us) \<union> {j. j < size_of g \<and> n \<in> parents g j}"
    using K(5) H(3) by auto
  have "kind k j = kind g j \<and> watchers k j = watchers g j \<and> told k j = told g j \<and>
      parents k j = (parents g j - {n}) \<union> (if j \<in> ts \<union> us then {i} else {}) \<and>
      (j \<notin> ts \<union> us \<and> n \<notin> parents g j \<longrightarrow> out k j = out g j)" if j: "j < size_of g" "j \<noteq> n" for j
    using H(4) [OF j] K(6) [of j] j H(2) assms(3) by auto
  then show ?thesis
    using K(1-4) H(2) d unfolding rewired_def by simp
qed

lemma resolve_links_ok:
  "links \<noteq> [] \<Longrightarrow> \<forall>(t, m) \<in> set links. m = n \<and> t < size_of (wp_graph s) \<Longrightarrow>
   graph_inv (wp_graph s) \<Longrightarrow> i < size_of (wp_graph s) \<Longrightarrow> n < size_of (wp_graph s) \<Longrightarrow> i \<noteq> n \<Longrightarrow>
   kind (wp_graph s) n = NodeSource \<Longrightarrow>
   safely (resolve_links i links s)
     (\<lambda>u. \<exists>h. u = s\<lparr>wp_graph := h\<rparr> \<and> rewired i n (fst ` set links) (wp_graph s) h)"
proof (induction links arbitrary: s)
  case (Cons l links)
  obtain t where l: "l = (t, n)" "t < size_of (wp_graph s)" using Cons.prems(2) by auto
  show ?case
    unfolding l(1) resolve_links.simps if_not_P [OF Cons.prems(6)] safely_and_then
  proof (rule connect_nodes_safely [OF Cons.prems(3,4) l(2)])
    fix g assume "connect i t (wp_graph s) = Some (Inr g)"
    then have r: "rewired i n {t} (wp_graph s) (deactivate n g)"
      using Cons.prems l(2) by (intro rewired_one) auto
    let ?s = "s\<lparr>wp_graph := deactivate n g\<rparr>"
    have sz: "size_of (wp_graph ?s) = size_of (wp_graph s)" "graph_inv (wp_graph ?s)" "kind (wp_graph ?s) n = NodeSource"
      using r by (simp_all add: rewired_def)
    have "safely (resolve_links i links ?s)
        (\<lambda>u. \<exists>h. u = s\<lparr>wp_graph := h\<rparr> \<and> rewired i n (fst ` set ((t, n) # links)) (wp_graph s) h)"
    proof (cases "links = []")
      case True
      then show ?thesis using r by auto
    next
      case False
      have "safely (resolve_links i links ?s)
          (\<lambda>u. \<exists>h. u = ?s\<lparr>wp_graph := h\<rparr> \<and> rewired i n (fst ` set links) (wp_graph ?s) h)"
        by (rule Cons.IH) (use False Cons.prems sz in auto)
      then show ?thesis
      proof (rule safely_weaken)
        fix u assume "\<exists>h. u = ?s\<lparr>wp_graph := h\<rparr> \<and> rewired i n (fst ` set links) (wp_graph ?s) h"
        then obtain h where h: "u = s\<lparr>wp_graph := h\<rparr>" "rewired i n (fst ` set links) (deactivate n g) h" by auto
        show "\<exists>h. u = s\<lparr>wp_graph := h\<rparr> \<and> rewired i n (fst ` set ((t, n) # links)) (wp_graph s) h"
          using h(1) rewired_trans [OF r h(2) Cons.prems(6)] by auto
      qed
    qed
    then show "safely (resolve_links i links (s\<lparr>wp_graph := g\<rparr>\<lparr>wp_graph := deactivate n (wp_graph (s\<lparr>wp_graph := g\<rparr>))\<rparr>))
        (\<lambda>u. \<exists>h. u = s\<lparr>wp_graph := h\<rparr> \<and> rewired i n (fst ` set ((t, n) # links)) (wp_graph s) h)"
      by simp
  qed
qed simp


lemma sources_okD:
  assumes "sources_ok s"
  shows "node_of nm s = Some k \<longleftrightarrow> sourcesByNodeId s k = Some nm"
    and "node_of nm s = Some k \<Longrightarrow> k < size_of (wp_graph s) \<and> kind (wp_graph s) k = NodeSource"
    and "node_of a s = Some k \<Longrightarrow> node_of b s = Some k \<Longrightarrow> a = b"
  using assms unfolding sources_ok_def by (blast, blast, metis option.inject)

lemma name_node_inj:
  assumes "wired X s" "name_node a s = Some k" "name_node b s = Some k"
  shows "a = b"
proof -
  have S: "sources_ok s" "inputs_ok X s" using assms(1) by (simp_all add: wired_def)
  have one: "node_of c s = Some k \<or> (\<exists>grp. groups s c = Some grp \<and> outputNode grp = k \<and> kind (wp_graph s) k \<noteq> NodeSource)"
    if "name_node c s = Some k" for c
    using that group_kind [OF assms(1)] inputs_okD(1) [OF S(2)]
    by (cases "groups s c"; cases "wp_configs s c") (auto simp: name_node_def)
  show ?thesis
    using one [OF assms(2)] one [OF assms(3)] sources_okD(2,3) [OF S(1)] inputs_okD(4) [OF S(2)] by metis
qed

text \<open>A group that is ready to be registered under its name.\<close>

definition ready :: "nat \<Rightarrow> string \<Rightarrow> BoolOp \<Rightarrow> string list \<Rightarrow> wp_group \<Rightarrow> manager \<Rightarrow> bool" where
  "ready i nm op ns grp s \<longleftrightarrow>
     furnishing {i} i grp s \<and> books_ok s \<and> set (dirty (wp_graph s)) \<subseteq> {i} \<and> kind (wp_graph s) i = mode_kind op \<and>
     Some ` parents (wp_graph s) i = (\<lambda>m. name_node m s) ` set ns \<and> groups s nm = None \<and>
     protector_of nm s \<noteq> Some DbusProtector \<and>
     (\<forall>m \<in> set ns. groups s m = None \<and> protector_of m s \<noteq> Some DbusProtector \<longrightarrow>
        (\<exists>links n. pendingEntityLinks s m = Some links \<and> (i, n) \<in> set links))"

text \<open>
  The state once the group is registered and its links are resolved: \<open>ts\<close> are the targets of the pending links,
  \<open>n\<close> the placeholder.
\<close>

definition registering ::
  "nat \<Rightarrow> string \<Rightarrow> BoolOp \<Rightarrow> string list \<Rightarrow> wp_group \<Rightarrow> nat \<Rightarrow> nat set \<Rightarrow> manager \<Rightarrow> manager \<Rightarrow> bool" where
  "registering i nm op ns grp n ts s v \<longleftrightarrow>
     ready i nm op ns grp s \<and>
     (\<forall>l t m. pendingEntityLinks s nm = Some l \<and> (t, m) \<in> set l \<longrightarrow> t \<in> ts) \<and>
     (if ts = {} then wp_graph v = wp_graph s else node_of nm s = Some n \<and> rewired i n ts (wp_graph s) (wp_graph v)) \<and>
     (\<forall>t \<in> ts. t < size_of (wp_graph s) \<and> n \<in> parents (wp_graph s) t) \<and>
     sources v = sources s \<and> sourcesByNodeId v = sourcesByNodeId s \<and> groups v = (groups s)(nm \<mapsto> grp) \<and>
     wp_configs v = (wp_configs s)(nm \<mapsto> (op, ns)) \<and> pendingEntityLinks v = (pendingEntityLinks s)(nm := None) \<and>
     objects v = objects s \<and> nextObject v = nextObject s"

lemma registering_state:
  assumes "registering i nm op ns grp n ts s v"
  shows "wired {i} s" "shown {i} s" "i < size_of (wp_graph s)" "outputNode grp = i"
    "objects_of grp \<subseteq> watchers (wp_graph s) i" "books_ok s" "set (dirty (wp_graph s)) \<subseteq> {i}"
    "kind (wp_graph s) i = mode_kind op" "Some ` parents (wp_graph s) i = (\<lambda>m. name_node m s) ` set ns"
    "groups s nm = None" "protector_of nm s \<noteq> Some DbusProtector" "kind (wp_graph s) i \<noteq> NodeSource"
    and "m \<in> set ns \<Longrightarrow> groups s m = None \<Longrightarrow> protector_of m s \<noteq> Some DbusProtector \<Longrightarrow>
        \<exists>links n. pendingEntityLinks s m = Some links \<and> (i, n) \<in> set links"
    and "sources v = sources s" "sourcesByNodeId v = sourcesByNodeId s" "groups v = (groups s)(nm \<mapsto> grp)"
      "wp_configs v = (wp_configs s)(nm \<mapsto> (op, ns))" "pendingEntityLinks v = (pendingEntityLinks s)(nm := None)"
      "objects v = objects s" "nextObject v = nextObject s"
    and "node_of m v = node_of m s" "protector_of m v = protector_of m s"
      "name_node m v = (if m = nm then Some i else name_node m s)"
proof -
  have R: "ready i nm op ns grp s" and v: "sources v = sources s" "sourcesByNodeId v = sourcesByNodeId s"
    "groups v = (groups s)(nm \<mapsto> grp)" "wp_configs v = (wp_configs s)(nm \<mapsto> (op, ns))"
    "pendingEntityLinks v = (pendingEntityLinks s)(nm := None)" "objects v = objects s" "nextObject v = nextObject s"
    using assms unfolding registering_def by blast+
  show "wired {i} s" "shown {i} s" "i < size_of (wp_graph s)" "outputNode grp = i"
    "objects_of grp \<subseteq> watchers (wp_graph s) i" "books_ok s" "set (dirty (wp_graph s)) \<subseteq> {i}"
    "kind (wp_graph s) i = mode_kind op" "Some ` parents (wp_graph s) i = (\<lambda>m. name_node m s) ` set ns"
    "groups s nm = None" "protector_of nm s \<noteq> Some DbusProtector"
    "m \<in> set ns \<Longrightarrow> groups s m = None \<Longrightarrow> protector_of m s \<noteq> Some DbusProtector \<Longrightarrow>
        \<exists>links n. pendingEntityLinks s m = Some links \<and> (i, n) \<in> set links"
    using R unfolding ready_def furnishing_def by blast+
  then show "kind (wp_graph s) i \<noteq> NodeSource" "node_of m v = node_of m s" "protector_of m v = protector_of m s"
      "name_node m v = (if m = nm then Some i else name_node m s)"
    using v by (cases op; simp add: node_of_def protector_of_def name_node_def split: option.split)+
qed (use assms in \<open>simp_all add: registering_def\<close>)

lemma registering_parts:
  assumes "registering i nm op ns grp n ts s v"
  shows "graph_inv (wp_graph s)" "sources_ok s" "inputs_ok {i} s" "links_ok s"
  using registering_state(1) [OF assms] by (simp_all add: wired_def)

lemma registering_placeholder:
  assumes R: "registering i nm op ns grp n ts s v"
  shows "ts \<noteq> {} \<Longrightarrow> name_node nm s = Some n \<and> n < size_of (wp_graph s) \<and> kind (wp_graph s) n = NodeSource \<and> i \<noteq> n"
    and "ts \<noteq> {} \<Longrightarrow> name_node m s = Some n \<Longrightarrow> m = nm"
    and "ts \<noteq> {} \<Longrightarrow> Some ` ps = (\<lambda>m. name_node m s) ` ms \<Longrightarrow> nm \<notin> ms \<Longrightarrow> n \<notin> ps"
proof -
  note S = registering_state [OF R] and P = registering_parts [OF R]
  show n: "name_node nm s = Some n \<and> n < size_of (wp_graph s) \<and> kind (wp_graph s) n = NodeSource \<and> i \<noteq> n" if "ts \<noteq> {}"
  proof -
    have "node_of nm s = Some n" using R that by (simp add: registering_def)
    then show ?thesis using sources_okD(2) [OF P(2)] S(10,12) by (auto simp: name_node_def)
  qed
  show child: "m = nm" if "ts \<noteq> {}" "name_node m s = Some n" for m
    using name_node_inj [OF S(1) that(2)] n [OF that(1)] by blast
  assume H: "ts \<noteq> {}" "Some ` ps = (\<lambda>m. name_node m s) ` ms" "nm \<notin> ms"
  show "n \<notin> ps"
  proof
    assume "n \<in> ps"
    then have "Some n \<in> (\<lambda>m. name_node m s) ` ms" unfolding H(2) [symmetric] by (rule imageI)
    then obtain m where "m \<in> ms" "name_node m s = Some n" by auto
    then show False using child [OF H(1)] H(3) by blast
  qed
qed

lemma registering_graph:
  assumes R: "registering i nm op ns grp n ts s v"
  shows "graph_inv (wp_graph v)" "size_of (wp_graph v) = size_of (wp_graph s)"
    and "j < size_of (wp_graph s) \<Longrightarrow> kind (wp_graph v) j = kind (wp_graph s) j"
    and "j < size_of (wp_graph s) \<Longrightarrow> ts = {} \<or> j \<noteq> n \<Longrightarrow>
      told (wp_graph v) j = told (wp_graph s) j \<and> watchers (wp_graph v) j = watchers (wp_graph s) j"
    and "j < size_of (wp_graph s) \<Longrightarrow> kind (wp_graph s) j \<noteq> NodeSource \<Longrightarrow> parents (wp_graph v) j =
      (if ts = {} then parents (wp_graph s) j else (parents (wp_graph s) j - {n}) \<union> (if j \<in> ts then {i} else {}))"
    and "ts \<noteq> {} \<Longrightarrow> watchers (wp_graph v) n = {}"
    and "j < size_of (wp_graph s) \<Longrightarrow> kind (wp_graph s) j \<noteq> NodeSource \<Longrightarrow> j \<notin> ts \<Longrightarrow> n \<notin> parents (wp_graph s) j \<Longrightarrow>
      out (wp_graph v) j = out (wp_graph s) j"
    and "set (dirty (wp_graph v)) \<subseteq> set (dirty (wp_graph s)) \<union> ts \<union> {j. j < size_of (wp_graph s) \<and> n \<in> parents (wp_graph s) j \<and> ts \<noteq> {}}"
proof -
  note pl = registering_placeholder(1) [OF R] and inv = registering_parts(1) [OF R]
  have same: "wp_graph v = wp_graph s" if "ts = {}" using R that by (simp add: registering_def)
  have rew: "rewired i n ts (wp_graph s) (wp_graph v)" if "ts \<noteq> {}" using R that by (simp add: registering_def)
  note rw = rew [unfolded rewired_def]
  show "graph_inv (wp_graph v)" "size_of (wp_graph v) = size_of (wp_graph s)"
    "set (dirty (wp_graph v)) \<subseteq> set (dirty (wp_graph s)) \<union> ts \<union> {j. j < size_of (wp_graph s) \<and> n \<in> parents (wp_graph s) j \<and> ts \<noteq> {}}"
    "ts \<noteq> {} \<Longrightarrow> watchers (wp_graph v) n = {}"
    using same inv rw by (cases "ts = {}"; simp)+
  assume j: "j < size_of (wp_graph s)"
  show "kind (wp_graph v) j = kind (wp_graph s) j"
    using same rw pl j by (cases "ts = {}"; cases "j = n"; simp)
  show "ts = {} \<or> j \<noteq> n \<Longrightarrow>
      told (wp_graph v) j = told (wp_graph s) j \<and> watchers (wp_graph v) j = watchers (wp_graph s) j"
    using same rw j by (cases "ts = {}") simp_all
  assume k: "kind (wp_graph s) j \<noteq> NodeSource"
  then have jn: "ts \<noteq> {} \<Longrightarrow> j \<noteq> n" using pl by blast
  show "parents (wp_graph v) j =
      (if ts = {} then parents (wp_graph s) j else (parents (wp_graph s) j - {n}) \<union> (if j \<in> ts then {i} else {}))"
    using same rw j jn by (cases "ts = {}") simp_all
  show "j \<notin> ts \<Longrightarrow> n \<notin> parents (wp_graph s) j \<Longrightarrow> out (wp_graph v) j = out (wp_graph s) j"
    using same rw j jn by (cases "ts = {}") simp_all
qed

text \<open>The new group is neither a target nor a child of its own placeholder.\<close>

lemma registering_self:
  assumes R: "registering i nm op ns grp n ts s v"
  shows "i \<notin> ts" "nm \<notin> set ns" "ts \<noteq> {} \<Longrightarrow> n \<notin> parents (wp_graph s) i"
    and "parents (wp_graph v) i = parents (wp_graph s) i"
proof -
  note S = registering_state [OF R] and G = registering_graph [OF R]
  show i_ts: "i \<notin> ts"
  proof
    assume "i \<in> ts"
    then have "(i, i) \<in> edges (nodes (wp_graph v))"
      using G(5) [OF S(3,12)] edge_parents [OF G(1)] S(3) G(2) by auto
    then show False using graph_inv_acyclic [OF G(1)] by (auto simp: acyclic_def)
  qed
  show nm: "nm \<notin> set ns"
    using S(13) [OF _ S(10,11)] i_ts R unfolding registering_def by blast
  show n: "n \<notin> parents (wp_graph s) i" if "ts \<noteq> {}"
    by (rule registering_placeholder(3) [OF R that S(9) nm])
  show "parents (wp_graph v) i = parents (wp_graph s) i"
    using G(5) [OF S(3,12)] i_ts n by auto
qed

lemma registering_reference:
  assumes R: "registering i nm op ns grp n ts s v"
    and m: "groups s m = Some gr" "wp_configs s m = Some (op', ns')"
  shows "nm \<in> set ns' \<Longrightarrow> outputNode gr \<in> ts"
    and "Some ` parents (wp_graph v) (outputNode gr) = (\<lambda>x. name_node x v) ` set ns'"
proof -
  note S = registering_state [OF R] and P = registering_parts [OF R] and G = registering_graph [OF R]
  let ?o = "outputNode gr"
  note D = inputs_okD(2) [OF P(3) m]
  have ko: "kind (wp_graph s) ?o \<noteq> NodeSource" using group_kind(2) [OF S(1) m(1)] m(2) by simp
  have o: "?o < size_of (wp_graph s)" and eq: "Some ` parents (wp_graph s) ?o = (\<lambda>x. name_node x s) ` set ns'"
    using D by blast+
  show ref: "?o \<in> ts" if "nm \<in> set ns'"
    using links_okD(3) [OF P(4) m that S(10,11)] R unfolding registering_def by blast
  show "Some ` parents (wp_graph v) ?o = (\<lambda>x. name_node x v) ` set ns'"
  proof (cases "nm \<in> set ns'")
    case True
    then have ts: "?o \<in> ts" "ts \<noteq> {}" using ref by auto
    note pl = registering_placeholder(1,2) [OF R ts(2)]
    have nmn: "name_node x s = Some n \<longleftrightarrow> x = nm" for x using pl by blast
    have "Some ` (parents (wp_graph s) ?o - {n}) = Some ` parents (wp_graph s) ?o - {Some n}" by auto
    also have "\<dots> = (\<lambda>x. name_node x s) ` (set ns' - {nm})" unfolding eq using nmn by auto
    also have "\<dots> = (\<lambda>x. name_node x v) ` (set ns' - {nm})"
      by (rule image_cong) (use S(23) in auto)
    finally have "Some ` parents (wp_graph v) ?o = insert (Some i) ((\<lambda>x. name_node x v) ` (set ns' - {nm}))"
      using G(5) [OF o ko] ts by simp
    moreover have "insert (Some i) ((\<lambda>x. name_node x v) ` (set ns' - {nm})) = (\<lambda>x. name_node x v) ` insert nm (set ns' - {nm})"
      using S(23) [of nm] by (simp only: image_insert if_True refl)
    ultimately show ?thesis using True by (simp only: insert_Diff)
  next
    case False
    then have "?o \<notin> ts \<and> n \<notin> parents (wp_graph s) ?o" if "ts \<noteq> {}"
      using registering_placeholder(3) [OF R that eq] R unfolding registering_def by blast
    then have "parents (wp_graph v) ?o = parents (wp_graph s) ?o" using G(5) [OF o ko] by auto
    moreover have "(\<lambda>x. name_node x v) ` set ns' = (\<lambda>x. name_node x s) ` set ns'"
      by (rule image_cong) (use False S(23) in auto)
    ultimately show ?thesis using eq by simp
  qed
qed

lemma registering_inputs:
  assumes R: "registering i nm op ns grp n ts s v"
  shows "inputs_ok {} v"
proof (rule inputs_okI)
  note S = registering_state [OF R] and P = registering_parts [OF R] and G = registering_graph [OF R]
  show "node_of m v = Some (outputNode gr)" if "groups v m = Some gr" "wp_configs v m = None" for m gr
    using inputs_okD(1) [OF P(3), of m gr] that by (simp add: S split: if_splits)
  show "outputNode gr < size_of (wp_graph v) \<and> outputNode gr \<notin> {} \<and> kind (wp_graph v) (outputNode gr) = mode_kind op' \<and>
      Some ` parents (wp_graph v) (outputNode gr) = (\<lambda>x. name_node x v) ` set ns'"
    if m: "groups v m = Some gr" "wp_configs v m = Some (op', ns')" for m gr op' ns'
  proof (cases "m = nm")
    case True
    then have eq: "gr = grp" "op' = op" "ns' = ns" using m by (simp_all add: S)
    have "(\<lambda>x. name_node x v) ` set ns = (\<lambda>x. name_node x s) ` set ns"
      by (rule image_cong) (use registering_self(2) [OF R] S(23) in auto)
    then show ?thesis
      using S(3,4,8,9) G(2) G(3) [OF S(3)] registering_self(4) [OF R] by (simp add: eq)
  next
    case False
    then have ms: "groups s m = Some gr" "wp_configs s m = Some (op', ns')" using m by (simp_all add: S)
    then show ?thesis
      using registering_reference(2) [OF R ms] inputs_okD(2) [OF P(3) ms] G(2,3) by simp
  qed
  show "j \<in> {} \<or> (\<exists>m gr. groups v m = Some gr \<and> wp_configs v m \<noteq> None \<and> outputNode gr = j)"
    if "j < size_of (wp_graph v)" "kind (wp_graph v) j \<noteq> NodeSource" for j
  proof -
    have j: "j < size_of (wp_graph s)" "kind (wp_graph s) j \<noteq> NodeSource" using that G(2,3) by simp_all
    consider "j = i" | m gr where "groups s m = Some gr" "wp_configs s m \<noteq> None" "outputNode gr = j"
      using inputs_okD(3) [OF P(3) j] by blast
    then show ?thesis
    proof cases
      case 1
      then show ?thesis using S(4) by (intro disjI2 exI [of _ nm] exI [of _ grp]) (simp add: S)
    next
      case 2
      then have "m \<noteq> nm" using S(10) by auto
      then show ?thesis using 2 by (intro disjI2 exI [of _ m] exI [of _ gr]) (simp add: S)
    qed
  qed
  have not_i: "outputNode gr \<noteq> i" if "groups s m = Some gr" for m gr
    using group_kind [OF S(1) that] S(12) by (cases "wp_configs s m") auto
  show "a = b" if "groups v a = Some ga" "groups v b = Some gb" "outputNode ga = outputNode gb" for a b ga gb
    using inputs_okD(4) [OF P(3), of a ga b gb] that not_i S(4) by (auto simp: S(16) split: if_splits)
qed

lemma registering_links:
  assumes R: "registering i nm op ns grp n ts s v"
  shows "links_ok v"
proof (rule links_okI)
  note S = registering_state [OF R] and P = registering_parts [OF R] and G = registering_graph [OF R]
  show "t < size_of (wp_graph v) \<and> k \<in> parents (wp_graph v) t"
    if m: "pendingEntityLinks v m = Some l" "(t, k) \<in> set l" for m l t k
  proof -
    have ms: "pendingEntityLinks s m = Some l" "m \<noteq> nm" using m by (simp_all add: S split: if_splits)
    note L = links_okD(1) [OF P(4) ms(1) m(2)]
    have kt: "kind (wp_graph s) t \<noteq> NodeSource" using L ports_range(2) [OF P(1)] by blast
    have "node_of m s = Some k" by (rule pending_node [OF S(6) ms(1) m(2)])
    then have "name_node m s = Some k"
      using links_okD(2) [OF P(4), of m] ms(1) by (simp add: name_node_def)
    then have "k \<noteq> n" if "ts \<noteq> {}" using registering_placeholder(2) [OF R that, of m] ms(2) by blast
    then show ?thesis using L G(5) [OF _ kt] G(2) by auto
  qed
  show "groups v m = None" if "pendingEntityLinks v m \<noteq> None" for m
    using links_okD(2) [OF P(4), of m] that by (auto simp: S split: if_splits)
  show "\<exists>l k. pendingEntityLinks v x = Some l \<and> (outputNode gr, k) \<in> set l"
    if "groups v m = Some gr" "wp_configs v m = Some (op', ns')" "x \<in> set ns'" "groups v x = None"
      "protector_of x v \<noteq> Some DbusProtector" for m gr op' ns' x
  proof (cases "m = nm")
    case True
    then show ?thesis using that S(4) S(13) [of x] by (auto simp: S(16-22) split: if_splits)
  next
    case False
    then show ?thesis using that links_okD(3) [OF P(4), of m gr op' ns' x] by (auto simp: S(16-22) split: if_splits)
  qed
qed

lemma registering_shown:
  assumes R: "registering i nm op ns grp n ts s v"
  shows "shown {i} v"
proof (rule shownI)
  note S = registering_state [OF R] and P = registering_parts [OF R] and G = registering_graph [OF R]
  have out_i: "out (wp_graph v) i = out (wp_graph s) i"
    using G(7) [OF S(3,12)] registering_self(1,3) [OF R] R by (cases "ts = {}") (auto simp: registering_def)
  have live: "ts = {} \<or> j \<noteq> n" if "p \<in> watchers (wp_graph v) j" for p j
    using that G(6) by auto
  show "\<exists>f. objects v p = Some f \<and>
      (write_protected f = told (wp_graph v) j \<or> j \<in> {i} \<and> write_protected f = out (wp_graph v) j)"
    if "j < size_of (wp_graph v)" "p \<in> watchers (wp_graph v) j" for j p
    using that shownD(1) [OF S(2), of j p] G(2) G(4) [of j] live [OF that(2)] out_i by (auto simp: S)
  show "j = l" if "j < size_of (wp_graph v)" "l < size_of (wp_graph v)" "p \<in> watchers (wp_graph v) j" "p \<in> watchers (wp_graph v) l"
    for j l p
    using that shownD(2) [OF S(2), of j l p] G(2) G(4) [of j] G(4) [of l] live [OF that(3)] live [OF that(4)] by simp
  show "p < nextObject v" if "objects v p \<noteq> None" for p
    using that shownD(3) [OF S(2), of p] by (simp add: S)
  show "objects_of gr \<subseteq> watchers (wp_graph v) (outputNode gr)" if "groups v m = Some gr" for m gr
  proof (cases "m = nm")
    case True
    moreover have "ts = {} \<or> i \<noteq> n" using registering_placeholder(1) [OF R] by blast
    ultimately show ?thesis using that S(4,5) G(4) [OF S(3)] by (simp add: S)
  next
    case False
    then have ms: "groups s m = Some gr" using that by (simp add: S)
    have "outputNode gr \<noteq> n" if "ts \<noteq> {}"
      using registering_placeholder(2) [OF R that, of m] ms False by (auto simp: name_node_def)
    then show ?thesis using shownD(4) [OF S(2) ms] G(4) [OF group_node [OF S(1) ms]] by auto
  qed
qed

lemma registering_quiet:
  assumes R: "registering i nm op ns grp n ts s v" and d: "(d, i) \<in> (edges (nodes (wp_graph v)))\<^sup>+"
  shows "d \<notin> set (dirty (wp_graph v))"
proof
  note S = registering_state [OF R] and P = registering_parts [OF R] and G = registering_graph [OF R]
  note acyc = graph_inv_acyclic [OF G(1)]
  assume "d \<in> set (dirty (wp_graph v))"
  then consider "d = i" | "d \<in> ts" | "d < size_of (wp_graph s)" "n \<in> parents (wp_graph s) d" "ts \<noteq> {}"
    using G(8) S(7) by blast
  moreover have "d \<in> ts" if c: "d < size_of (wp_graph s)" "n \<in> parents (wp_graph s) d" "ts \<noteq> {}" "d \<noteq> i"
  proof -
    have "kind (wp_graph s) d \<noteq> NodeSource" using ports_range(2) [OF P(1) c(1)] c(2) by blast
    then obtain m gr where m: "groups s m = Some gr" "wp_configs s m \<noteq> None" "outputNode gr = d"
      using inputs_okD(3) [OF P(3) c(1)] c(4) by blast
    then obtain op' ns' where cfg: "wp_configs s m = Some (op', ns')" by auto
    have "Some n \<in> (\<lambda>x. name_node x s) ` set ns'"
      using inputs_okD(2) [OF P(3) m(1) cfg] c(2) m(3) by (metis imageI)
    then have "nm \<in> set ns'" using registering_placeholder(2) [OF R c(3)] by force
    then show ?thesis using registering_reference(1) [OF R m(1) cfg] m(3) by simp
  qed
  ultimately consider "d = i" | "d \<in> ts" by blast
  then show False
  proof cases
    case 1
    then show ?thesis using d acyc by (auto simp: acyclic_def)
  next
    case 2
    then have t: "d < size_of (wp_graph s)" "n \<in> parents (wp_graph s) d" using R by (simp_all add: registering_def)
    have "kind (wp_graph s) d \<noteq> NodeSource" using ports_range(2) [OF P(1) t(1)] t(2) by blast
    then have "(i, d) \<in> edges (nodes (wp_graph v))"
      using G(5) [OF t(1)] 2 edge_parents [OF G(1)] t(1) G(2) by auto
    then show ?thesis using d acyc by (metis acyclic_def trancl_into_trancl2)
  qed
qed

lemma registering_ok:
  assumes R: "registering i nm op ns grp n ts s v"
  shows "wired {} v" "shown {i} v"
proof -
  note S = registering_state [OF R] and P = registering_parts [OF R] and G = registering_graph [OF R]
  have "sources_ok v"
    using P(2) G(2,3) unfolding sources_ok_def by (simp add: S)
  then show "wired {} v"
    using G(1) registering_inputs [OF R] registering_links [OF R] by (simp add: wired_def)
  show "shown {i} v" by (rule registering_shown [OF R])
qed


section \<open>Adding a group\<close>

lemma safely_ensures: "safely r P \<Longrightarrow> ensures r Q E \<Longrightarrow> safely r (\<lambda>a. P a \<and> Q a)"
  by (cases r) simp_all

lemma settle:
  assumes "wired {} s" "shown X s" "\<And>i d. i \<in> X \<Longrightarrow> (d, i) \<in> (edges (nodes (wp_graph s)))\<^sup>+ \<Longrightarrow> d \<notin> set (dirty (wp_graph s))"
  shows "safely (propagate_graph s) (\<lambda>t. wp_ok t \<and> same_shape s t \<and>
    (\<forall>i < size_of (wp_graph s). kind (wp_graph s) i = NodeSource \<longrightarrow> out (wp_graph t) i = out (wp_graph s) i))"
  by (rule safely_weaken [OF propagate_graph_ok [OF assms(1,2)]]) (use assms(3) in \<open>auto simp: wp_ok_def\<close>)

lemma settle_again: "wp_ok s \<Longrightarrow> safely (propagate_graph s) wp_ok"
  by (rule safely_weaken [OF settle [of s "{}"]]) (simp_all add: wp_ok_def)

lemma register_ok:
  assumes R: "ready i nm op ns grp s"
  defines "u \<equiv> (register_group nm grp s)\<lparr>wp_configs := (wp_configs s)(nm \<mapsto> (op, ns))\<rparr>"
  shows "safely (resolveGroupLinks grp nm u) (\<lambda>v. safely (propagate_graph v) wp_ok)"
proof -
  have F: "furnishing {i} i grp s" "books_ok s" "kind (wp_graph s) i = mode_kind op" "groups s nm = None"
    using R unfolding ready_def by blast+
  have W: "wired {i} s" "outputNode grp = i" "i < size_of (wp_graph s)" using F(1) unfolding furnishing_def by blast+
  have S: "graph_inv (wp_graph s)" "sources_ok s" "links_ok s" using W(1) by (simp_all add: wired_def)
  have uf: "wp_graph u = wp_graph s" "sources u = sources s" "sourcesByNodeId u = sourcesByNodeId s"
    "groups u = (groups s)(nm \<mapsto> grp)" "wp_configs u = (wp_configs s)(nm \<mapsto> (op, ns))"
    "pendingEntityLinks u = pendingEntityLinks s" "objects u = objects s" "nextObject u = nextObject s"
    by (simp_all add: u_def register_group_def)
  have go: "safely (propagate_graph v) wp_ok" if "registering i nm op ns grp n ts s v" for n ts v
    by (rule safely_weaken [OF settle [OF registering_ok [OF that]]]) (use registering_quiet [OF that] in auto)
  show ?thesis
  proof (cases "pendingEntityLinks s nm")
    case None
    have none: "pendingEntityLinks u = (pendingEntityLinks u)(nm := None)"
      by (rule ext) (simp add: uf None)
    have "registering i nm op ns grp 0 {} s u"
      unfolding registering_def using R None none uf by simp
    then have "safely (propagate_graph u) wp_ok" by (rule go)
    then show ?thesis
      using None uf(6) by (simp add: resolveGroupLinks_def)
  next
    case (Some links)
    let ?s = "request_stop nm u"
    have sf: "wp_graph ?s = wp_graph s" "sources ?s = sources u" "sourcesByNodeId ?s = sourcesByNodeId u"
      "groups ?s = groups u" "wp_configs ?s = wp_configs u" "pendingEntityLinks ?s = pendingEntityLinks u"
      "objects ?s = objects u" "nextObject ?s = nextObject u"
      using uf by (simp_all add: request_stop_def)
    let ?done = "\<lambda>v. v\<lparr>pendingEntityLinks := (pendingEntityLinks v)(nm := None)\<rparr>"
    have res: "safely (resolve_links i links ?s) (\<lambda>v. safely (propagate_graph (?done v)) wp_ok)"
    proof (cases "links = []")
      case True
      have "registering i nm op ns grp 0 {} s (?done ?s)"
        unfolding registering_def using R Some True sf uf by simp
      then have "safely (propagate_graph (?done ?s)) wp_ok" by (rule go)
      then show ?thesis using True by simp
    next
      case False
      obtain t n where tn: "(t, n) \<in> set links" using False by (cases links) auto
      have n: "node_of nm s = Some m" if "(t, m) \<in> set links" for t m
        by (rule pending_node [OF F(2) Some that])
      have all: "\<forall>(t, m) \<in> set links. m = n \<and> t < size_of (wp_graph ?s)"
        using n n [OF tn] links_okD(1) [OF S(3) Some] sf(1) by fastforce
      have nk: "n < size_of (wp_graph s)" "kind (wp_graph s) n = NodeSource"
        using sources_okD(2) [OF S(2) n [OF tn]] by simp_all
      have "i \<noteq> n" using F(3) nk(2) by (cases op) auto
      then have "safely (resolve_links i links ?s)
          (\<lambda>v. \<exists>h. v = ?s\<lparr>wp_graph := h\<rparr> \<and> rewired i n (fst ` set links) (wp_graph ?s) h)"
        using False all S(1) W(3) nk sf(1) by (intro resolve_links_ok) simp_all
      then show ?thesis
      proof (rule safely_weaken)
        fix v assume "\<exists>h. v = ?s\<lparr>wp_graph := h\<rparr> \<and> rewired i n (fst ` set links) (wp_graph ?s) h"
        then obtain h where h: "v = ?s\<lparr>wp_graph := h\<rparr>" "rewired i n (fst ` set links) (wp_graph s) h" using sf(1) by auto
        have "registering i nm op ns grp n (fst ` set links) s (?done v)"
          unfolding registering_def
        proof (intro conjI allI impI ballI)
          show "if fst ` set links = {} then wp_graph (?done v) = wp_graph s
            else node_of nm s = Some n \<and> rewired i n (fst ` set links) (wp_graph s) (wp_graph (?done v))"
            using False n [OF tn] h by simp
          fix x assume "x \<in> fst ` set links"
          then obtain m where x: "(x, m) \<in> set links" by auto
          then have "m = n" using n [OF x] n [OF tn] by simp
          then show "x < size_of (wp_graph s)" "n \<in> parents (wp_graph s) x"
            using links_okD(1) [OF S(3) Some x] by simp_all
        qed (use R Some h sf uf in \<open>auto simp: image_iff intro: rev_bexI\<close>)
        then show "safely (propagate_graph (?done v)) wp_ok" by (rule go)
      qed
    qed
    have "safely (propagate_graph t) wp_ok" if "wp_ok t" for t by (rule settle_again [OF that])
    then have "safely (resolve_links i links ?s)
        (\<lambda>v. safely (propagate_graph (?done v)) (\<lambda>t. safely (propagate_graph t) wp_ok))"
      by (intro safely_weaken [OF res]) (rule safely_weaken, assumption+)
    then show ?thesis
      using Some uf(6) W(2) by (simp add: resolveGroupLinks_def)
  qed
qed

end
