(* ===== verification/Wp_Manager_Safe.thy ===== *)
theory Wp_Manager_Safe
  imports Wp_Manager_Correct
begin

text \<open>
  Every event keeps the invariant of \<open>Wp_Manager_Correct\<close>: a group or an input that is added whole, a source
  that gets its protector or its value, a call of a domain. The runs in which no name is both a proxied D-Bus
  object and a group are the ones it is an invariant of.
\<close>

section \<open>Adding a group or an input\<close>

lemma building_furnishing:
  assumes "building i pre k s"
  shows "furnishing {i} i (new_group i) s" "\<not> told (wp_graph s) i"
  using assms by (simp_all add: building_def furnishing_def new_group_def objects_of_def)

lemma furnished_ready:
  assumes B: "building i (set ns) (mode_kind op) s" "books_ok s" "groups s nm = None" "protector_of nm s \<noteq> Some DbusProtector"
    and F: "furnishing {i} i grp t" "furnished s t"
  shows "ready i nm op ns grp t"
proof -
  have same: "same_books s t" using F(2) by (simp add: furnished_def same_shape_def)
  note names = same_books_names [OF same]
  have e: "groups t = groups s" "pendingEntityLinks t = pendingEntityLinks s" using same by (simp_all add: same_books_def)
  have i: "i < size_of (wp_graph s)" using B(1) by (simp add: building_def)
  have g: "dirty (wp_graph t) = dirty (wp_graph s)" "kind (wp_graph t) i = kind (wp_graph s) i"
    "parents (wp_graph t) i = parents (wp_graph s) i"
    using F(2) i by (simp_all add: furnished_def)
  show ?thesis
    using B F(1) unfolding ready_def building_def g e names books_ok_same [OF same] by blast
qed

lemma addGroup_ok:
  assumes "wp_ok s" "books_ok s"
    and proxied: "\<And>c. config = Some c \<Longrightarrow> cfg_name c \<noteq> [] \<Longrightarrow> protector_of (cfg_name c) s \<noteq> Some DbusProtector"
  shows "safely (addGroup accepts iface dp cp config s) wp_ok"
proof (cases "\<exists>c. config = Some c \<and> cfg_name c \<noteq> [] \<and> groups s (cfg_name c) = None")
  case False
  then show ?thesis
    using assms(1) by (auto simp: addGroup_def split: option.splits)
next
  case True
  then obtain c where c: "config = Some c" "cfg_name c \<noteq> []" "groups s (cfg_name c) = None" by blast
  obtain i g where g: "addNode (cfg_mode c) (wp_graph s) = (i, g)" by (cases "addNode (cfg_mode c) (wp_graph s)")
  let ?s = "s\<lparr>wp_graph := g\<rparr>"
  let ?k = "mode_kind (cfg_mode c)"
  have b: "building i {} ?k ?s" by (rule building_start [OF assms(1) g])
  have bk: "books_ok ?s" using assms(2) books_ok_same [of s ?s] by simp
  note link = safely_ensures [OF link_sources_ok [OF b] books_link_sources [OF bk]]
  have last: "safely (case x of (grp, v) \<Rightarrow> let v = (register_group (cfg_name c) grp v)
        \<lparr>wp_configs := (wp_configs v)(cfg_name c \<mapsto> (cfg_mode c, cfg_sources c))\<rparr>
      in and_then (resolveGroupLinks grp (cfg_name c) v) propagate_graph) wp_ok"
    if "case x of (grp, v) \<Rightarrow> ready i (cfg_name c) (cfg_mode c) (cfg_sources c) grp v" for x
    using register_ok that by (cases x) (simp add: Let_def)
  have objects: "safely (and_then (add_facade accepts iface dp cp settable (new_group i) t) (\<lambda>(grp, u).
      and_then (add_software accepts grp (cfg_components c) u) (\<lambda>(grp, v).
        let v = (register_group (cfg_name c) grp v)
          \<lparr>wp_configs := (wp_configs v)(cfg_name c \<mapsto> (cfg_mode c, cfg_sources c))\<rparr>
        in and_then (resolveGroupLinks grp (cfg_name c) v) propagate_graph))) wp_ok"
    if t: "building i (set (cfg_sources c)) ?k t" "books_ok t" "groups t = groups s"
      "\<And>nm. protector_of nm t = protector_of nm s" for settable t
    unfolding safely_and_then
  proof (rule safely_weaken [OF add_facade_ok [OF building_furnishing [OF t(1)]]])
    fix y assume y: "case y of (grp, u) \<Rightarrow> furnishing {i} i grp u \<and> furnished t u \<and> group_software grp = [] \<and>
      wp_configs u = wp_configs t"
    obtain grp u where gu: "y = (grp, u)" by (cases y)
    have F: "furnishing {i} i grp u" "furnished t u" using y by (simp_all add: gu)
    have "safely (add_software accepts grp (cfg_components c) u)
        (\<lambda>(grp, v). ready i (cfg_name c) (cfg_mode c) (cfg_sources c) grp v)"
      by (rule safely_weaken [OF add_software_ok [OF F(1)]])
        (use furnished_ready [OF t(1,2)] t(3,4) c(3) proxied [OF c(1,2)] furnished_trans [OF F(2)] in auto)
    then show "safely (case y of (grp, u) \<Rightarrow> and_then (add_software accepts grp (cfg_components c) u) (\<lambda>(grp, v).
        let v = (register_group (cfg_name c) grp v)
          \<lparr>wp_configs := (wp_configs v)(cfg_name c \<mapsto> (cfg_mode c, cfg_sources c))\<rparr>
        in and_then (resolveGroupLinks grp (cfg_name c) v) propagate_graph)) wp_ok"
      unfolding gu prod.case safely_and_then by (rule safely_weaken) (rule last)
  qed
  have "safely (link_sources (iface = WriteProtectDomain) i (cfg_sources c) None ?s) (\<lambda>(x, t).
     building i (set (cfg_sources c)) ?k t \<and> books_ok t \<and> groups t = groups s \<and>
     (\<forall>nm. protector_of nm t = protector_of nm s))"
    by (rule safely_weaken [OF link]) (auto simp: linked_def)
  then show ?thesis
    unfolding addGroup_def c(1) option.case g prod.case Let_def safely_and_then
    using c(2,3) by (auto elim!: safely_weaken intro!: objects [unfolded safely_and_then Let_def])
qed


text \<open>A finished group on a source node, as it is registered under the name of the source.\<close>

lemma adopted_ok:
  assumes F: "furnishing {} i grp u" and n: "node_of nm u = Some i" "groups u nm = None" "wp_configs u nm = None"
    and d: "dirty (wp_graph u) = []"
    and v: "wp_graph v = wp_graph u" "sources v = sources u" "sourcesByNodeId v = sourcesByNodeId u"
      "groups v = (groups u)(nm \<mapsto> grp)" "wp_configs v = wp_configs u"
      "pendingEntityLinks v = (pendingEntityLinks u)(nm := None)" "objects v = objects u" "nextObject v = nextObject u"
  shows "wp_ok v"
proof -
  have W: "wired {} u" "shown {} u" "outputNode grp = i" "objects_of grp \<subseteq> watchers (wp_graph u) i"
    using F by (simp_all add: furnishing_def)
  have S: "graph_inv (wp_graph u)" "sources_ok u" "inputs_ok {} u" "links_ok u" using W(1) by (simp_all add: wired_def)
  have nn: "node_of m v = node_of m u" "protector_of m v = protector_of m u" for m
    using v by (simp_all add: node_of_def protector_of_def)
  have name: "name_node m v = name_node m u" for m
    using v n(1,2) W(3) nn by (simp add: name_node_def split: option.split)
  have other: "outputNode gr \<noteq> i" if m: "groups u m = Some gr" for m gr
  proof
    assume i: "outputNode gr = i"
    have k: "kind (wp_graph u) i = NodeSource" using sources_okD(2) [OF S(2) n(1)] by simp
    then have "wp_configs u m = None" using group_kind(2) [OF W(1) m] i by blast
    then have "m = nm" using inputs_okD(1) [OF S(3) m] sources_okD(3) [OF S(2) _ n(1)] i by simp
    then show False using m n(2) by simp
  qed
  have "sources_ok v" using S(2) unfolding sources_ok_def nn v(1,3) .
  moreover have "inputs_ok {} v"
  proof (rule inputs_okI)
    show "node_of m v = Some (outputNode gr)" if "groups v m = Some gr" "wp_configs v m = None" for m gr
      using inputs_okD(1) [OF S(3), of m gr] that n(1) W(3) by (simp add: v nn split: if_splits)
    show "outputNode gr < size_of (wp_graph v) \<and> outputNode gr \<notin> {} \<and> kind (wp_graph v) (outputNode gr) = mode_kind op \<and>
        Some ` parents (wp_graph v) (outputNode gr) = (\<lambda>x. name_node x v) ` set ns"
      if "groups v m = Some gr" "wp_configs v m = Some (op, ns)" for m gr op ns
      using inputs_okD(2) [OF S(3), of m gr op ns] that n(3) unfolding name v(1,5) by (simp add: v(4) split: if_splits)
    show "j \<in> {} \<or> (\<exists>m gr. groups v m = Some gr \<and> wp_configs v m \<noteq> None \<and> outputNode gr = j)"
      if "j < size_of (wp_graph v)" "kind (wp_graph v) j \<noteq> NodeSource" for j
    proof -
      have "j < size_of (wp_graph u)" "kind (wp_graph u) j \<noteq> NodeSource" using that by (simp_all add: v(1))
      then obtain m gr where m: "groups u m = Some gr" "wp_configs u m \<noteq> None" "outputNode gr = j"
        using inputs_okD(3) [OF S(3)] by blast
      then have "m \<noteq> nm" using n(2) by auto
      then show ?thesis using m by (intro disjI2 exI [of _ m] exI [of _ gr]) (simp add: v)
    qed
    show "a = b" if "groups v a = Some ga" "groups v b = Some gb" "outputNode ga = outputNode gb" for a b ga gb
      using inputs_okD(4) [OF S(3), of a ga b gb] that other [of a ga] other [of b gb] W(3)
      by (simp add: v(4) split: if_splits)
  qed
  moreover have "links_ok v"
  proof (rule links_okI)
    show "x < size_of (wp_graph v) \<and> k \<in> parents (wp_graph v) x"
      if "pendingEntityLinks v m = Some l" "(x, k) \<in> set l" for m l x k
      using links_okD(1) [OF S(4), of m l x k] that by (simp add: v split: if_splits)
    show "groups v m = None" if "pendingEntityLinks v m \<noteq> None" for m
      using links_okD(2) [OF S(4), of m] that by (simp add: v split: if_splits)
    show "\<exists>l k. pendingEntityLinks v x = Some l \<and> (outputNode gr, k) \<in> set l"
      if "groups v m = Some gr" "wp_configs v m = Some (op, ns)" "x \<in> set ns" "groups v x = None"
        "protector_of x v \<noteq> Some DbusProtector" for m gr op ns x
      using links_okD(3) [OF S(4), of m gr op ns x] that n(3) by (simp add: v(4-6) nn split: if_splits)
  qed
  ultimately have "wired {} v" using S(1) by (simp add: wired_def v(1))
  moreover have "shown {} v"
  proof (rule shownI)
    show "\<exists>f. objects v p = Some f \<and>
        (write_protected f = told (wp_graph v) j \<or> j \<in> {} \<and> write_protected f = out (wp_graph v) j)"
      if "j < size_of (wp_graph v)" "p \<in> watchers (wp_graph v) j" for j p
      using shownD(1) [OF W(2), of j p] that by (simp add: v)
    show "j = l" if "j < size_of (wp_graph v)" "l < size_of (wp_graph v)" "p \<in> watchers (wp_graph v) j"
      "p \<in> watchers (wp_graph v) l" for j l p
      using shownD(2) [OF W(2), of j l p] that by (simp add: v)
    show "p < nextObject v" if "objects v p \<noteq> None" for p
      using shownD(3) [OF W(2), of p] that by (simp add: v)
    show "objects_of gr \<subseteq> watchers (wp_graph v) (outputNode gr)" if "groups v m = Some gr" for m gr
      using shownD(4) [OF W(2), of m gr] W(3,4) that by (simp add: v split: if_splits)
  qed
  ultimately show ?thesis using d by (simp add: wp_ok_def v(1))
qed

lemma wp_ok_cong:
  assumes "wp_graph t = wp_graph s" "sources t = sources s" "sourcesByNodeId t = sourcesByNodeId s" "groups t = groups s"
    "wp_configs t = wp_configs s" "pendingEntityLinks t = pendingEntityLinks s" "objects t = objects s"
    "nextObject t = nextObject s"
  shows "wp_ok t = wp_ok s"
  using wired_cong [of t s] shown_cong [of t s] assms by (simp add: wp_ok_def)

lemma wp_ok_spawn [simp]: "wp_ok (spawn t s) = wp_ok s"
  by (rule wp_ok_cong) (simp_all add: spawn_def)

lemma addGpioGroup_ok:
  assumes "wp_ok s" "books_ok s"
  shows "safely (addGpioGroup accepts config s) wp_ok"
proof (cases "\<exists>c. config = Some c \<and> gpio_name c \<noteq> [] \<and> gpio_lineName c \<noteq> [] \<and> groups s (gpio_name c) = None")
  case False
  then show ?thesis
    using assms(1) by (auto simp: addGpioGroup_def split: option.splits)
next
  case True
  then obtain c where c: "config = Some c" "gpio_name c \<noteq> []" "gpio_lineName c \<noteq> []"
    "groups s (gpio_name c) = None" by blast
  obtain src created t where t: "getOrCreateSource (gpio_name c) s = (src, created, t)" by (metis prod_cases3)
  let ?i = "source_node src"
  have O: "wired {} s" "shown {} s" "dirty (wp_graph s) = []" using assms(1) by (simp_all add: wp_ok_def)
  note W = wired_source [OF O(1,2) c(4) t]
  note T = books_source [OF assms(2) t]
  have i: "?i < size_of (wp_graph t)" "graph_inv (wp_graph t)"
    using W sources_okD(2) [of t "gpio_name c" ?i] by (simp_all add: wired_def)
  have F: "furnishing {} ?i (new_group ?i) t"
    using W O(3) i clean_told [OF i(2,1)] by (simp add: furnishing_def new_group_def objects_of_def)
  have last: "safely (resolveGroupLinks grp (gpio_name c) (register_group (gpio_name c) grp u)) wp_ok"
    if u: "furnishing {} ?i grp u" "furnished t u" for grp u
  proof -
    have same: "same_books t u" using u(2) by (simp add: furnished_def same_shape_def)
    have n: "node_of (gpio_name c) u = Some ?i" "groups u (gpio_name c) = None" "wp_configs u (gpio_name c) = None"
      "dirty (wp_graph u) = []" "outputNode grp = ?i"
      using W c(4) same_books_names(1) [OF same, of "gpio_name c"] same u O(3) books_configs [OF assms(2) c(4)] T(5)
      by (simp_all add: same_books_def furnished_def furnishing_def)
    have fin: "wp_ok v" if "wp_graph v = wp_graph u" "sources v = sources u" "sourcesByNodeId v = sourcesByNodeId u"
      "groups v = (groups u)(gpio_name c \<mapsto> grp)" "wp_configs v = wp_configs u"
      "pendingEntityLinks v = (pendingEntityLinks u)(gpio_name c := None)" "objects v = objects u" "nextObject v = nextObject u" for v
      by (rule adopted_ok [OF u(1) n(1-4) that])
    show ?thesis
    proof (cases "pendingEntityLinks u (gpio_name c)")
      case None
      then have "wp_ok (register_group (gpio_name c) grp u)"
        by (intro fin) (simp_all add: register_group_def fun_upd_idem)
      then show ?thesis using None by (simp add: resolveGroupLinks_def register_group_def)
    next
      case (Some links)
      have ad: "\<forall>(a, m) \<in> set links. m = ?i"
        using pending_node [OF _ Some] T(1) books_ok_same [OF same] n(1) by auto
      let ?w = "request_stop (gpio_name c) (register_group (gpio_name c) grp u)"
      have w: "pendingEntityLinks ?w = pendingEntityLinks u" by (simp add: request_stop_def register_group_def)
      have "wp_ok (?w\<lparr>pendingEntityLinks := (pendingEntityLinks ?w)(gpio_name c := None)\<rparr>)"
        unfolding w by (rule fin) (simp_all add: register_group_def request_stop_def)
      moreover have "pendingEntityLinks (register_group (gpio_name c) grp u) (gpio_name c) = Some links"
        using Some by (simp add: register_group_def)
      ultimately show ?thesis
        using resolve_links_adopted [OF ad] settle_again n(5) by (simp add: resolveGroupLinks_def)
    qed
  qed
  have "safely (add_software accepts (new_group ?i) (gpio_components c) t)
      (\<lambda>(grp, u). safely (resolveGroupLinks grp (gpio_name c) (register_group (gpio_name c) grp u)) wp_ok)"
    by (rule safely_weaken [OF add_software_ok [OF F]]) (auto intro: last)
  then show ?thesis
    unfolding addGpioGroup_def c(1) option.case t prod.case Let_def safely_and_then
    using c(2-4) by (auto elim!: safely_weaken)
qed


section \<open>The other events\<close>

lemma wp_ok_sources:
  assumes "wp_ok s"
    and t: "wp_graph t = wp_graph s" "sourcesByNodeId t = sourcesByNodeId s" "groups t = groups s"
      "wp_configs t = wp_configs s" "objects t = objects s" "nextObject t = nextObject s"
    and n: "\<And>m. node_of m t = node_of m s"
    and l: "\<And>m. pendingEntityLinks t m = None \<or> pendingEntityLinks t m = pendingEntityLinks s m"
    and p: "\<And>m. protector_of m t \<noteq> Some DbusProtector \<Longrightarrow>
      protector_of m s \<noteq> Some DbusProtector \<and> pendingEntityLinks t m = pendingEntityLinks s m"
  shows "wp_ok t"
proof -
  have S: "graph_inv (wp_graph s)" "sources_ok s" "inputs_ok {} s" "links_ok s" "shown {} s" "dirty (wp_graph s) = []"
    using assms(1) by (simp_all add: wp_ok_def wired_def)
  have name: "name_node m t = name_node m s" for m using t(3) n by (simp add: name_node_def split: option.split)
  have "links_ok t"
  proof (rule links_okI)
    show "x < size_of (wp_graph t) \<and> k \<in> parents (wp_graph t) x"
      if "pendingEntityLinks t m = Some ls" "(x, k) \<in> set ls" for m ls x k
      using links_okD(1) [OF S(4), of m ls x k] l [of m] that by (simp add: t)
    show "groups t m = None" if "pendingEntityLinks t m \<noteq> None" for m
      using links_okD(2) [OF S(4), of m] l [of m] that by (auto simp: t)
    show "\<exists>ls k. pendingEntityLinks t x = Some ls \<and> (outputNode gr, k) \<in> set ls"
      if "groups t m = Some gr" "wp_configs t m = Some (op, ns)" "x \<in> set ns" "groups t x = None"
        "protector_of x t \<noteq> Some DbusProtector" for m gr op ns x
      using links_okD(3) [OF S(4), of m gr op ns x] p [OF that(5)] that by (simp add: t)
  qed
  moreover have "sources_ok t" using S(2) unfolding sources_ok_def t n .
  moreover have "inputs_ok {} t" using S(3) unfolding inputs_ok_def t n name .
  ultimately show ?thesis
    using S shown_cong [of t s] t by (simp add: wp_ok_def wired_def)
qed

lemma update_source_frame [simp]:
  "wp_graph (update_source nm f s) = wp_graph s" "sourcesByNodeId (update_source nm f s) = sourcesByNodeId s"
  "groups (update_source nm f s) = groups s" "wp_configs (update_source nm f s) = wp_configs s"
  "objects (update_source nm f s) = objects s" "nextObject (update_source nm f s) = nextObject s"
  "pendingEntityLinks (update_source nm f s) = pendingEntityLinks s" "tasks (update_source nm f s) = tasks s"
  by (simp_all add: update_source_def)

lemma update_protector [simp]:
  "node_of m (update_source nm (protector_update (\<lambda>_. p)) s) = node_of m s"
  "protector_of m (update_source nm (protector_update (\<lambda>_. p)) s) =
     (if m = nm \<and> sources s nm \<noteq> None then p else protector_of m s)"
  by (cases "sources s nm"; auto simp: update_source_def node_of_def protector_of_def)+

lemma update_lastChanged [simp]:
  "node_of m (update_source nm (lastChanged_update f) s) = node_of m s"
  "protector_of m (update_source nm (lastChanged_update f) s) = protector_of m s"
  by (cases "sources s nm"; auto simp: update_source_def node_of_def protector_of_def)+

lemma wp_ok_frames [simp]:
  "wp_ok (finish t s) = wp_ok s" "wp_ok (reply call r s) = wp_ok s" "wp_ok (scope_empty nm s) = wp_ok s"
  by (rule wp_ok_cong; simp add: reply_def scope_empty_def)+

lemma wp_ok_monitor: "wp_ok s \<Longrightarrow> wp_ok (monitor_again nm t s)"
  using wp_ok_sources [of s "update_source nm (lastChanged_update (\<lambda>_. Some t)) s"]
  by (simp add: monitor_again_def Let_def split: option.split)

lemma set_source_ok:
  assumes "wp_ok s" "k < size_of (wp_graph s)" "kind (wp_graph s) k = NodeSource"
  shows "safely (set_graph_source k v s) wp_ok"
proof -
  let ?t = "s\<lparr>wp_graph := set_source k v (wp_graph s)\<rparr>"
  have O: "wired {} s" "shown {} s" "graph_inv (wp_graph s)" using assms(1) by (simp_all add: wp_ok_def wired_def)
  note P = set_source_ports [OF O(3) assms(2,3) refl]
  have shape: "same_shape s ?t" using P by (simp add: same_shape_def)
  have "shown {} ?t"
    by (rule shownI) (use shownD [OF O(2)] P group_node [OF O(1)] in auto)
  then show ?thesis
    unfolding set_graph_source_def
    by (intro safely_weaken [OF settle [OF wired_same_shape [OF O(1) shape], of "{}"]]) simp_all
qed

lemma source_range:
  assumes "wp_ok s" "node_of nm s = Some k"
  shows "k < size_of (wp_graph s)" "kind (wp_graph s) k = NodeSource"
  using assms sources_okD(2) [of s nm k] by (simp_all add: wp_ok_def wired_def)

text \<open>The source a suspended call or get is about.\<close>

fun task_node :: "manager \<Rightarrow> task \<Rightarrow> bool" where
  "task_node s (InitialGet nm) = (node_of nm s \<noteq> None)"
| "task_node s (SetAwait _ k _) = (\<exists>nm. node_of nm s = Some k)"
| "task_node s (GetAwait _ k _) = (\<exists>nm. node_of nm s = Some k)"
| "task_node s _ = True"

definition calls_ok :: "manager \<Rightarrow> bool" where
  "calls_ok s \<longleftrightarrow> (\<forall>t \<in> set (tasks s). task_node s t)"

lemma task_node_grows: "task_node s t \<Longrightarrow> grows s u \<Longrightarrow> task_node u t"
  unfolding grows_def by (cases t; simp; blast)

lemma wp_event_ok:
  assumes "wp_ok s" "books_ok s" "calls_ok s" "possible_wp e s"
    and proxied: "\<And>accepts iface dp cp props c. e = GroupRead accepts iface dp cp props \<Longrightarrow> group_config props = Some c \<Longrightarrow>
      cfg_name c \<noteq> [] \<Longrightarrow> protector_of (cfg_name c) s \<noteq> Some DbusProtector"
  shows "safely (on_wp_event e s) wp_ok"
proof -
  have src: "safely (set_graph_source k v (finish t s)) wp_ok" if "node_of nm s = Some k" for nm k v t
    by (rule set_source_ok) (use assms(1) source_range [OF assms(1) that] in simp_all)
  have the_src: "safely (set_graph_source (source_node (the (sources s nm))) v (finish t s)) wp_ok"
    if "node_of nm s \<noteq> None" for nm v t
    using that src [of nm "source_node (the (sources s nm))"] by (auto simp: node_of_def)
  show ?thesis
  proof (cases e)
    case (GroupRead accepts iface dp cp props)
    then show ?thesis using addGroup_ok [OF assms(1,2)] proxied by simp
  next
    case (InputRead accepts props)
    then show ?thesis using addGpioGroup_ok [OF assms(1,2)] by simp
  next
    case (GpioCreated nm ok)
    then have t: "GpioCreating nm \<in> set (tasks s)" using assms(4) by simp
    have "wp_ok (update_source nm (protector_update (\<lambda>_. Some GpioProtector)) (finish (GpioCreating nm) s))"
      by (rule wp_ok_sources [of s]) (use assms(1) books_okD(5) [OF assms(2) t] in \<open>auto split: if_splits\<close>)
    then show ?thesis using GpioCreated assms(1) by (simp add: gpio_created_def activateSource_def)
  next
    case (ProxyCreated nm ok)
    let ?f = "finish (ProxyCreating nm) s"
    let ?u = "update_source nm (protector_update (\<lambda>_. Some DbusProtector)) ?f"
    have "wp_ok (activateSource nm ?u\<lparr>pendingEntityLinks := (pendingEntityLinks s)(nm := None)\<rparr>)"
      if "pendingEntityLinks s nm \<noteq> None"
    proof (rule wp_ok_sources [OF assms(1)])
      have "sources s nm \<noteq> None" using books_okD(8) [OF assms(2) that] .
      then show "protector_of m s \<noteq> Some DbusProtector \<and>
          pendingEntityLinks (activateSource nm ?u\<lparr>pendingEntityLinks := (pendingEntityLinks s)(nm := None)\<rparr>) m = pendingEntityLinks s m"
        if "protector_of m (activateSource nm ?u\<lparr>pendingEntityLinks := (pendingEntityLinks s)(nm := None)\<rparr>) \<noteq> Some DbusProtector" for m
        using that by (auto simp: activateSource_def spawn_def split: if_splits)
    qed (auto simp: activateSource_def spawn_def)
    then show ?thesis using ProxyCreated assms(1) by (simp add: proxy_created_def)
  next
    case (InitialGot nm v)
    then have "node_of nm s \<noteq> None" using assms(3,4) by (auto simp: calls_ok_def)
    then show ?thesis
      using InitialGot assms(1) the_src [of nm] by (auto simp: activate_got_def split: sum.split)
  next
    case (SourceChanged nm v t)
    have "node_of nm s \<noteq> None" if "protector_of nm s \<noteq> None"
      using that by (auto simp: protector_of_def node_of_def bind_eq_None_conv)
    then show ?thesis
      using SourceChanged assms(1)
      by (cases v) (auto simp: monitorSource_def wp_ok_monitor intro!: safely_weaken [OF the_src])
  next
    case (SetCalled call p v)
    then show ?thesis
      using assms(1) by (simp add: method_call_def setWriteProtected_def split: option.split facade_kind.split)
  next
    case (SetDone call k v r)
    then show ?thesis using assms(1) by (simp add: set_done_def split: sum.split)
  next
    case (GetDone call k v r)
    then have "\<exists>nm. node_of nm s = Some k" using assms(3,4) by (auto simp: calls_ok_def)
    then show ?thesis
      using GetDone assms(1) src by (auto simp: get_done_def split: sum.split)
  qed (use assms(1) in \<open>simp_all add: initializeGpioSource_def scopedEntityInit_def initializeEntitySource_def\<close>)
qed


section \<open>Suspended calls\<close>

definition adds_inits :: "manager \<Rightarrow> manager \<Rightarrow> bool" where
  "adds_inits s t \<longleftrightarrow> (\<forall>u \<in> set (tasks t). u \<in> set (tasks s) \<or> (\<exists>nm. u = InitEntity nm \<or> u = InitGpio nm)) \<and>
     (\<forall>nm. protector_of nm t = protector_of nm s)"

lemma adds_inits_same: "same_books s t \<Longrightarrow> adds_inits s t"
  using same_books_names(3) [of s t] by (simp add: same_books_def adds_inits_def)

lemma adds_inits_trans: "adds_inits s t \<Longrightarrow> adds_inits t u \<Longrightarrow> adds_inits s u"
  unfolding adds_inits_def by (metis (no_types))

lemma adds_inits_source:
  assumes "getOrCreateSource nm s = (src, created, t)" "adds_inits r s"
  shows "adds_inits r t"
proof -
  have "protector_of m t = protector_of m s" for m
    using assms(1) by (auto simp: getOrCreateSource_def Let_def protector_of_def split: option.splits prod.splits)
  moreover have "tasks t = tasks s"
    using assms(1) by (auto simp: getOrCreateSource_def Let_def split: option.splits prod.splits)
  ultimately show ?thesis using assms(2) by (simp add: adds_inits_def)
qed

lemma adds_inits_calls:
  assumes "calls_ok s" "adds_inits s t" "grows s t"
  shows "calls_ok t"
  using assms task_node_grows [OF _ assms(3)] unfolding calls_ok_def adds_inits_def by fastforce

lemma inits_then:
  assumes "ensures r (same_books t) E" "adds_inits s t" "\<And>u. E' u"
  shows "ensures r (adds_inits s) E'"
  by (rule ensures_weaken [OF assms(1)]) (use assms(2,3) adds_inits_same adds_inits_trans in blast)+

lemma inits_link_sources:
  "adds_inits r s \<Longrightarrow> ensures (link_sources d k nms settable s) (\<lambda>(x, t). adds_inits r t) (\<lambda>_. True)"
proof (induction nms arbitrary: settable s)
  case (Cons nm nms)
  show ?case
  proof (cases "groups s nm")
    case (Some grp)
    have "ensures (connect_nodes (outputNode grp) k s) (adds_inits r) (\<lambda>_. True)"
      by (rule inits_then [OF books_connect Cons.prems]) simp
    then show ?thesis using Some by (auto elim!: ensures_weaken intro!: Cons.IH)
  next
    case None
    obtain src created t where t: "getOrCreateSource nm s = (src, created, t)" by (metis prod_cases3)
    have "adds_inits r t" by (rule adds_inits_source [OF t Cons.prems])
    then have c: "ensures (connect_nodes (source_node src) k t) (adds_inits r) (\<lambda>_. True)"
      by (intro inits_then [OF books_connect]) simp_all
    have "adds_inits r (add_pending nm l (if created then spawnEntityInit nm u else u))" if "adds_inits r u" for u l
      using that by (auto simp: adds_inits_def spawnEntityInit_def spawn_def)
    note new = this
    show ?thesis
      by (simp add: None t Let_def split del: if_split) (rule ensures_weaken [OF c], rule Cons.IH, rule new, assumption+)
  qed
qed simp

lemma inits_resolve:
  assumes "adds_inits r s"
  shows "ensures (resolveGroupLinks grp nm s) (adds_inits r) (\<lambda>_. True)"
proof (cases "pendingEntityLinks s nm")
  case (Some links)
  have b: "ensures (resolve_links (outputNode grp) links (request_stop nm s)) (adds_inits r) (\<lambda>_. True)"
    by (rule inits_then [OF books_resolve_links [OF same_books_refl]])
      (use assms in \<open>simp_all add: adds_inits_def request_stop_def\<close>)
  have "ensures (propagate_graph (t\<lparr>pendingEntityLinks := p\<rparr>)) (adds_inits r) (\<lambda>_. True)" if "adds_inits r t" for t p
    by (rule inits_then [OF books_propagate [OF same_books_refl]]) (use that in \<open>simp_all add: adds_inits_def\<close>)
  then show ?thesis
    using Some b by (auto simp: resolveGroupLinks_def elim!: ensures_weaken)
qed (use assms in \<open>simp add: resolveGroupLinks_def\<close>)

lemma inits_addGroup: "ensures (addGroup accepts iface dp cp config s) (adds_inits s) (\<lambda>_. True)"
proof -
  have refl: "adds_inits s (s\<lparr>wp_graph := g\<rparr>)" "adds_inits s s" for g by (simp_all add: adds_inits_def)
  have facade: "ensures (add_facade accepts iface dp cp x grp t) (\<lambda>(grp, u). adds_inits s u) (\<lambda>_. True)"
    if "adds_inits s t" for x grp t
    by (rule ensures_weaken [OF books_add_facade]) (use that adds_inits_same adds_inits_trans in auto)
  have software: "ensures (add_software accepts grp nms t) (\<lambda>(grp, u). adds_inits s u) (\<lambda>_. True)"
    if "adds_inits s t" for grp nms t
    by (rule ensures_weaken [OF books_add_software [OF same_books_refl]]) (use that adds_inits_same adds_inits_trans in auto)
  have register: "adds_inits s ((register_group nm grp t)\<lparr>wp_configs := cs\<rparr>)" if "adds_inits s t" for nm grp t cs
    using that by (simp add: adds_inits_def register_group_def)
  have settled: "ensures (propagate_graph t) (adds_inits s) (\<lambda>_. True)" if "adds_inits s t" for t
    by (rule inits_then [OF books_propagate [OF same_books_refl] that]) simp
  show ?thesis
    unfolding addGroup_def Let_def
    by (cases config)
      (auto simp: refl split: prod.split intro!: ensures_weaken [OF inits_link_sources [OF refl(1)]]
         ensures_weaken [OF facade] ensures_weaken [OF software] ensures_weaken [OF inits_resolve] settled register)
qed

lemma inits_addGpioGroup: "ensures (addGpioGroup accepts config s) (adds_inits s) (\<lambda>_. True)"
proof -
  have src: "adds_inits s t" if "getOrCreateSource nm s = (src, created, t)" for nm src created t
    by (rule adds_inits_source [OF that]) (simp add: adds_inits_def)
  have software: "ensures (add_software accepts grp nms t) (\<lambda>(grp, u). adds_inits s u) (\<lambda>_. True)"
    if "adds_inits s t" for grp nms t
    by (rule ensures_weaken [OF books_add_software [OF same_books_refl]]) (use that adds_inits_same adds_inits_trans in auto)
  have register: "adds_inits s (register_group nm grp t)" if "adds_inits s t" for nm grp t
    using that by (simp add: adds_inits_def register_group_def)
  have spawned: "adds_inits s (spawn (InitGpio nm) t)" if "adds_inits s t" for nm t
    using that by (auto simp: adds_inits_def spawn_def)
  have "adds_inits s s" by (simp add: adds_inits_def)
  then show ?thesis
    unfolding addGpioGroup_def Let_def
    by (cases config)
      (auto split: prod.split intro!: ensures_weaken [OF software] ensures_weaken [OF inits_resolve] register spawned dest!: src)
qed


lemma calls_spawn:
  "calls_ok s \<Longrightarrow> task_node s t \<Longrightarrow> calls_ok (spawn t s)"
  by (auto simp: calls_ok_def spawn_def intro: task_node_grows [of s] simp: grows_def node_of_def protector_of_def)

lemma calls_same:
  assumes "calls_ok s" "set (tasks t) \<subseteq> set (tasks s)" "grows s t"
  shows "calls_ok t"
  using assms task_node_grows unfolding calls_ok_def by blast

lemma calls_finish: "calls_ok s \<Longrightarrow> calls_ok (finish t s)"
  by (rule calls_same) (auto simp: finish_def grows_def node_of_def protector_of_def dest: set_mp [OF set_remove1_subset])

lemma calls_activate: "calls_ok s \<Longrightarrow> calls_ok (activateSource nm s)"
  by (auto simp: activateSource_def protector_of_def node_of_def bind_eq_None_conv intro!: calls_spawn)

lemma calls_set_source:
  assumes "calls_ok s" "\<And>t. calls_ok t \<Longrightarrow> same_books s t \<Longrightarrow> Q t"
  shows "ensures (set_graph_source n v s) Q (\<lambda>_. True)"
proof (rule ensures_weaken [OF books_set_source [where E = "\<lambda>_. True"]])
  fix t assume t: "same_books s t"
  have "calls_ok t" by (rule calls_same [OF assms(1)]) (use t grows_same in \<open>auto simp: same_books_def\<close>)
  then show "Q t" using t by (rule assms(2))
qed simp

lemma calls_event:
  assumes "books_ok s" "wp_ok s" "calls_ok s" "possible_wp e s"
  shows "ensures (on_wp_event e s) calls_ok (\<lambda>_. True)"
proof -
  note fin = calls_finish [OF assms(3)]
  have up: "calls_ok (update_source nm f t)" if "calls_ok t" "\<And>src. source_node (f src) = source_node src" for nm f t
  proof -
    have "node_of m (update_source nm f t) = node_of m t" for m
      using that(2) by (cases "sources t m") (auto simp: update_source_def node_of_def)
    then have "task_node (update_source nm f t) u = task_node t u" for u by (cases u) simp_all
    then show ?thesis using that(1) by (simp add: calls_ok_def)
  qed
  have mon: "calls_ok (monitor_again nm c t)" if "calls_ok t" for nm c t
    using up [OF that, of "lastChanged_update (\<lambda>_. Some c)" nm]
    by (auto simp: monitor_again_def Let_def split: option.split intro!: calls_spawn)
  show ?thesis
  proof (cases e)
    case (GroupRead accepts iface dp cp props)
    have "ensures (addGroup accepts iface dp cp (group_config props) s) (\<lambda>t. adds_inits s t \<and> good s t) (\<lambda>_. True)"
      using inits_addGroup [of accepts iface dp cp "group_config props" s]
        good_addGroup [OF assms(1), of accepts iface dp cp "group_config props"]
      by (cases "addGroup accepts iface dp cp (group_config props) s") simp_all
    then show ?thesis
      unfolding GroupRead on_wp_event.simps
      by (rule ensures_weaken) (use adds_inits_calls [OF assms(3)] in \<open>auto simp: good_def\<close>)
  next
    case (InputRead accepts props)
    have "ensures (addGpioGroup accepts (gpio_input_config props) s) (\<lambda>t. adds_inits s t \<and> good s t) (\<lambda>_. True)"
      using inits_addGpioGroup [of accepts "gpio_input_config props" s]
        good_addGpioGroup [OF assms(1), of accepts "gpio_input_config props"]
      by (cases "addGpioGroup accepts (gpio_input_config props) s") simp_all
    then show ?thesis
      unfolding InputRead on_wp_event.simps
      by (rule ensures_weaken) (use adds_inits_calls [OF assms(3)] in \<open>auto simp: good_def\<close>)
  next
    case (ProxyCreated nm ok)
    let ?u = "update_source nm (protector_update (\<lambda>_. Some DbusProtector)) (finish (ProxyCreating nm) s)"
    have "calls_ok (activateSource nm ?u)" by (rule calls_activate [OF up [OF fin]]) simp
    then have "calls_ok (activateSource nm ?u\<lparr>pendingEntityLinks := p\<rparr>)" for p
      by (rule calls_same) (simp_all add: grows_def)
    then show ?thesis using ProxyCreated fin by (simp add: proxy_created_def)
  next
    case (InitialGot nm v)
    then show ?thesis using fin by (auto simp: activate_got_def split: sum.split intro!: calls_spawn calls_set_source)
  next
    case (SourceChanged nm v t)
    then show ?thesis using fin mon by (cases v) (auto simp: monitorSource_def intro!: calls_set_source)
  next
    case (ScopeEmpty nm)
    then show ?thesis
      using calls_same [OF assms(3), of "scope_empty nm s"] by (simp add: scope_empty_def grows_def)
  next
    case (SetCalled call p v)
    have r: "calls_ok (reply call r s)" for r
      by (rule calls_same [OF assms(3)]) (simp_all add: reply_def grows_def)
    have "sources_ok s" using assms(2) by (simp add: wp_ok_def wired_def)
    then have "calls_ok (setWriteProtected call k v s)" for k
      using r sources_okD(1) [of s _ k] assms(3)
      by (auto simp: setWriteProtected_def split: option.split intro!: calls_spawn)
    then show ?thesis
      using SetCalled assms(3) r by (simp add: method_call_def split: option.split facade_kind.split)
  next
    case (SetDone call k v r)
    have rep: "calls_ok (reply c r (finish u s))" for c r u
      by (rule calls_same [OF fin [of u]]) (simp_all add: reply_def grows_def)
    have "task_node s (SetAwait call k v)" using SetDone assms(3,4) by (auto simp: calls_ok_def)
    then show ?thesis using SetDone rep fin by (auto simp: set_done_def split: sum.split intro!: calls_spawn)
  next
    case (GetDone call k v r)
    have rep: "calls_ok (reply c r t)" if "calls_ok t" for c r t
      by (rule calls_same [OF that]) (simp_all add: reply_def grows_def)
    then show ?thesis
      using GetDone fin by (auto simp: get_done_def split: sum.split intro!: calls_set_source)
  qed (use fin up in \<open>auto simp: initializeGpioSource_def gpio_created_def scopedEntityInit_def
      initializeEntitySource_def intro!: calls_spawn calls_activate\<close>)
qed

section \<open>The invariant of the orderly runs\<close>

text \<open>
  A group that was added is there: so if its name clashes with a proxy, the state after it does.
\<close>

lemma ensures_always: "(\<And>a. Q a) \<Longrightarrow> ensures r Q (\<lambda>_. True)"
  by (cases r) simp_all

lemma groups_resolve:
  "ensures (resolveGroupLinks grp nm s) (\<lambda>t. groups t = groups s) (\<lambda>_. True)"
proof (cases "pendingEntityLinks s nm")
  case (Some links)
  have b: "ensures (resolve_links (outputNode grp) links (request_stop nm s)) (\<lambda>t. groups t = groups s) (\<lambda>_. True)"
    by (rule ensures_weaken [OF books_resolve_links [OF same_books_refl]]) (simp_all add: same_books_def request_stop_def)
  have "ensures (propagate_graph (t\<lparr>pendingEntityLinks := p\<rparr>)) (\<lambda>u. groups u = groups t) (\<lambda>_. True)" for t p
    by (rule ensures_weaken [OF books_propagate [OF same_books_refl]]) (simp_all add: same_books_def)
  then show ?thesis
    using Some b by (auto simp: resolveGroupLinks_def elim!: ensures_weaken) (metis)
qed (simp add: resolveGroupLinks_def)

lemma addGroup_registers:
  assumes "cfg_name c \<noteq> []"
  shows "ensures (addGroup accepts iface dp cp (Some c) s) (\<lambda>t. groups t (cfg_name c) \<noteq> None) (\<lambda>_. True)"
proof -
  have p: "ensures (propagate_graph t) (\<lambda>u. groups u = groups t) (\<lambda>_. True)" for t
    by (rule ensures_weaken [OF books_propagate [OF same_books_refl]]) (simp_all add: same_books_def)
  have "ensures (and_then (resolveGroupLinks grp (cfg_name c) u) propagate_graph) (\<lambda>t. groups t (cfg_name c) \<noteq> None) (\<lambda>_. True)"
    if "groups u (cfg_name c) \<noteq> None" for grp u
    unfolding ensures_and_then
    by (rule ensures_weaken [OF groups_resolve], rule ensures_weaken [OF p]) (use that in simp_all)
  then show ?thesis
    using assms unfolding addGroup_def Let_def
    by (auto simp: register_group_def split: prod.split intro!: ensures_always)
qed


lemma no_clash_grows: "no_clash t \<Longrightarrow> grows s t \<Longrightarrow> no_clash s"
  unfolding no_clash_def grows_def by (metis not_None_eq)

definition settled :: "manager \<Rightarrow> bool" where
  "settled s \<longleftrightarrow> books_ok s \<and> (no_clash s \<longrightarrow> wp_ok s \<and> calls_ok s)"

lemma wp_ok_new: "wp_ok new_manager"
proof -
  have "node_of nm new_manager = None" for nm by (simp add: new_manager_def node_of_def)
  moreover have "graph_inv (empty_graph :: nat graph)" by (rule empty_graph_inv)
  ultimately show ?thesis
    by (simp add: new_manager_def wp_ok_def wired_def sources_ok_def inputs_ok_def links_ok_def shown_def empty_graph_def ports)
qed

lemma settled_event:
  assumes "settled s" "possible_wp e s" "on_wp_event e s = Done t"
  shows "settled t"
proof -
  have b: "books_ok s" using assms(1) by (simp add: settled_def)
  have g: "good s t" using good_event [OF b assms(2)] assms(3) by simp
  have "wp_ok t \<and> calls_ok t" if "no_clash t"
  proof -
    have gr: "grows s t" using g by (simp add: good_def)
    have o: "wp_ok s" "calls_ok s" using assms(1) no_clash_grows [OF that gr] by (simp_all add: settled_def)
    have "protector_of (cfg_name c) s \<noteq> Some DbusProtector"
      if e: "e = GroupRead accepts iface dp cp props" "group_config props = Some c" "cfg_name c \<noteq> []"
      for accepts iface dp cp props c
    proof -
      have "groups t (cfg_name c) \<noteq> None"
        using addGroup_registers [OF e(3), of accepts iface dp cp s] assms(3) e by simp
      then show ?thesis using \<open>no_clash t\<close> gr unfolding no_clash_def grows_def by metis
    qed
    then have "safely (on_wp_event e s) wp_ok" by (rule wp_event_ok [OF o(1) b o(2) assms(2)])
    then show ?thesis using calls_event [OF b o assms(2)] assms(3) by simp
  qed
  then show ?thesis using g by (simp add: settled_def good_def)
qed


lemma settled_step: "settled s \<Longrightarrow> wp_step False s t \<Longrightarrow> settled t"
  by (elim wp_step_cases) (simp_all add: settled_event)

lemma settled_new: "settled new_manager"
  using wp_ok_new books_ok_new by (simp add: settled_def calls_ok_def) (simp add: new_manager_def)

interpretation wp_groups: invariant_system "\<lambda>s. s = new_manager" "wp_step False" settled
  by unfold_locales (simp add: settled_new, rule settled_step)

lemma reachable_wp_ok:
  assumes "reachable_wp False s" "no_clash s"
  shows "wp_ok s" "calls_ok s" "books_ok s"
  using wp_groups.reach_inv [OF assms(1)] assms(2) by (simp_all add: settled_def)

end
