(* ===== verification/Wp_Runs.thy ===== *)
theory Wp_Runs
  imports Wp_Manager_Safe
begin

text \<open>
  What the invariant says of the values: the value of a name, which the configurations and the inputs
  determine, what a set source reports, the times at which changes are handled; and runs as lists of
  events, which evaluate.
\<close>

section \<open>The value of a name\<close>

text \<open>The specification of a group: the AND of no sources is false, as the OR is.\<close>

definition name_value :: "manager \<Rightarrow> string \<Rightarrow> bool" where
  "name_value s nm = (case name_node nm s of None \<Rightarrow> False | Some n \<Rightarrow> output_of (wp_graph s) n)"

fun group_spec :: "BoolOp \<Rightarrow> bool list \<Rightarrow> bool" where
  "group_spec OpAnd vs = (vs \<noteq> [] \<and> list_all id vs)"
| "group_spec OpOr vs = list_ex id vs"

lemma combine_spec: "combine (mode_kind op) (set vs) = group_spec op vs"
  by (cases op) (auto simp: combine_def list_all_iff list_ex_iff, metis (full_types))

lemma name_value_out:
  assumes "wired X s" "name_node nm s = Some k"
  shows "name_value s nm = out (wp_graph s) k"
  using assms name_node_range [OF assms] output_of_stored [of "wp_graph s" k]
  by (simp add: name_value_def wired_def ports)

lemma output_value: "groups s nm = Some grp \<Longrightarrow> output_of (wp_graph s) (outputNode grp) = name_value s nm"
  by (simp add: name_value_def name_node_def)

lemma group_value:
  assumes "wp_ok s" "groups s nm = Some grp" "wp_configs s nm = Some (op, ns)"
  shows "name_value s nm = group_spec op (map (name_value s) ns)"
    and "m \<in> set ns \<Longrightarrow> \<exists>p. name_node m s = Some p \<and> (p, outputNode grp) \<in> edges (nodes (wp_graph s))"
proof -
  let ?g = "wp_graph s" and ?k = "outputNode grp"
  have O: "wired {} s" "graph_inv ?g" "inputs_ok {} s" "dirty ?g = []" using assms(1) by (simp_all add: wp_ok_def wired_def)
  note D = inputs_okD(2) [OF O(3) assms(2,3)]
  have eq: "Some ` parents ?g ?k = (\<lambda>m. name_node m s) ` set ns" and k: "?k < size_of ?g" "kind ?g ?k = mode_kind op"
    using D by blast+
  have "name_value s nm = out ?g ?k" by (rule name_value_out [OF O(1)]) (simp add: name_node_def assms(2))
  also have "\<dots> = combine (mode_kind op) (out ?g ` parents ?g ?k)"
    using clean_out [OF O(2) k(1)] O(4) k(2) by (cases op) simp_all
  also have "out ?g ` parents ?g ?k = name_value s ` set ns"
  proof -
    have "(\<lambda>x. case x of None \<Rightarrow> False | Some n \<Rightarrow> out ?g n) ` Some ` parents ?g ?k =
        (\<lambda>x. case x of None \<Rightarrow> False | Some n \<Rightarrow> out ?g n) ` (\<lambda>m. name_node m s) ` set ns"
      unfolding eq ..
    moreover have "(case name_node m s of None \<Rightarrow> False | Some n \<Rightarrow> out ?g n) = name_value s m" for m
      using name_value_out [OF O(1)] by (auto simp: name_value_def split: option.split)
    ultimately show ?thesis by (simp add: image_image)
  qed
  also have "combine (mode_kind op) (name_value s ` set ns) = group_spec op (map (name_value s) ns)"
    using combine_spec [of op "map (name_value s) ns"] by simp
  finally show "name_value s nm = group_spec op (map (name_value s) ns)" .
  assume "m \<in> set ns"
  then have "name_node m s \<in> Some ` parents ?g ?k" unfolding eq by (rule imageI)
  then obtain p where "name_node m s = Some p" "p \<in> parents ?g ?k" by auto
  then show "\<exists>p. name_node m s = Some p \<and> (p, ?k) \<in> edges (nodes ?g)"
    using edge_parents [OF O(2) k(1)] by blast
qed

lemma values_determined:
  assumes s: "wp_ok s" "books_ok s" and t: "wp_ok t" "books_ok t"
    and cfg: "wp_configs t = wp_configs s"
    and inputs: "\<And>n op ns m. wp_configs s n = Some (op, ns) \<Longrightarrow> m \<in> set ns \<Longrightarrow> wp_configs s m = None \<Longrightarrow>
      name_value t m = name_value s m"
    and nm: "wp_configs s nm \<noteq> None"
  shows "name_value t nm = name_value s nm"
proof -
  have wf: "wf (edges (nodes (wp_graph s)))"
    by (rule graph_inv_wf_edges) (use s(1) in \<open>simp add: wp_ok_def wired_def\<close>)
  have eq: "name_value t nm = name_value s nm" if "name_node nm s = Some k" "wp_configs s nm \<noteq> None" for nm k
    using wf that
  proof (induction k arbitrary: nm rule: wf_induct_rule)
    case (less k)
    obtain op ns where c: "wp_configs s nm = Some (op, ns)" using less.prems(2) by auto
    obtain gs gt where g: "groups s nm = Some gs" "groups t nm = Some gt"
      using books_okD(10) [OF s(2), of nm] books_okD(10) [OF t(2), of nm] c cfg by auto
    have k: "outputNode gs = k" using less.prems g(1) by (simp add: name_node_def)
    have "name_value t m = name_value s m" if "m \<in> set ns" for m
      using group_value(2) [OF s(1) g(1) c that] less.IH [of _ m] k inputs [OF c that] by (cases "wp_configs s m") auto
    then show ?case
      using group_value(1) [OF s(1) g(1) c] group_value(1) [OF t(1) g(2)] c cfg by (simp cong: map_cong)
  qed
  obtain gs where "groups s nm = Some gs" using books_okD(10) [OF s(2) nm] by auto
  then show ?thesis using eq nm by (simp add: name_node_def)
qed

lemma shown_value:
  assumes "wp_ok s" "groups s nm = Some grp" "p \<in> objects_of grp"
  shows "\<exists>f. objects s p = Some f \<and> write_protected f = name_value s nm"
proof -
  let ?g = "wp_graph s" and ?k = "outputNode grp"
  have O: "wired {} s" "graph_inv ?g" "shown {} s" "dirty ?g = []" using assms(1) by (simp_all add: wp_ok_def wired_def)
  have k: "?k < size_of ?g" by (rule group_node [OF O(1) assms(2)])
  have "p \<in> watchers ?g ?k" using shownD(4) [OF O(3) assms(2)] assms(3) by blast
  then obtain f where f: "objects s p = Some f" "write_protected f = told ?g ?k"
    using shownD(1) [OF O(3) k] by auto
  moreover have "told ?g ?k = out ?g ?k" using clean_told [OF O(2) k] O(4) by simp
  moreover have "name_value s nm = out ?g ?k" by (rule name_value_out [OF O(1)]) (simp add: name_node_def assms(2))
  ultimately show ?thesis by simp
qed

section \<open>Runs\<close>

text \<open>The state after a list of events, if each of them can happen and returns, or may throw.\<close>

fun run_wp :: "bool \<Rightarrow> wp_event list \<Rightarrow> manager \<Rightarrow> manager option" where
  "run_wp errors [] s = Some s"
| "run_wp errors (e # es) s =
     (if possible_wp e s
      then case on_wp_event e s of
          Done t \<Rightarrow> run_wp errors es t
        | Threw x t \<Rightarrow> if errors then run_wp errors es t else None
        | _ \<Rightarrow> None
      else None)"

lemma run_wp_reachable:
  "reachable_wp errors s \<Longrightarrow> run_wp errors es s = Some t \<Longrightarrow> reachable_wp errors t"
proof (induction errors es s rule: run_wp.induct)
  case (2 errors e es s)
  then show ?case
    by (auto split: if_splits wp_result.splits intro: reach_step wp_done wp_threw)
qed simp

lemma run_wp_errors: "run_wp False es s = Some t \<Longrightarrow> run_wp errors es s = Some t"
  by (induction es arbitrary: s) (auto split: if_splits wp_result.splits)

lemma only_proxies:
  assumes "e \<noteq> ProxyCreated nm True"
  shows "ensures (on_wp_event e s) (\<lambda>t. protector_of nm t = Some DbusProtector \<longrightarrow> protector_of nm s = Some DbusProtector)
    (\<lambda>_. True)"
proof -
  have sg: "ensures (set_graph_source k v (finish t s)) (\<lambda>u. protector_of nm u = protector_of nm s) (\<lambda>_. True)" for k v t
    by (rule ensures_weaken [OF books_set_source [where E = "\<lambda>_. True"]]) (auto dest: same_books_names(3))
  have mon: "protector_of nm (monitor_again m t u) = protector_of nm u" for m t u
    by (simp add: monitor_again_def Let_def spawn_def split: option.split)
  show ?thesis
  proof (cases e)
    case (GroupRead accepts iface dp cp props)
    then show ?thesis
      using inits_addGroup [of accepts iface dp cp "group_config props" s]
      by (auto simp: adds_inits_def elim!: ensures_weaken)
  next
    case (InputRead accepts props)
    then show ?thesis
      using inits_addGpioGroup [of accepts "gpio_input_config props" s] by (auto simp: adds_inits_def elim!: ensures_weaken)
  next
    case (InitialGot m v)
    then show ?thesis
      by (auto simp: activate_got_def spawn_def split: sum.split intro!: ensures_weaken [OF sg])
  next
    case (SourceChanged m v t)
    then show ?thesis
      by (cases v) (auto simp: monitorSource_def mon intro!: ensures_weaken [OF sg])
  next
    case (GetDone call k v r)
    then show ?thesis
      by (auto simp: get_done_def reply_def split: sum.split intro!: ensures_weaken [OF sg])
  qed (use assms in \<open>auto simp: initializeGpioSource_def gpio_created_def scopedEntityInit_def initializeEntitySource_def
      spawn_def activateSource_def proxy_created_def scope_empty_def method_call_def setWriteProtected_def reply_def
      set_done_def split: option.split facade_kind.split sum.split if_splits\<close>)
qed

lemma run_proxies:
  assumes "run_wp False es s = Some t" "protector_of nm t = Some DbusProtector" "protector_of nm s \<noteq> Some DbusProtector"
  shows "ProxyCreated nm True \<in> set es"
  using assms
proof (induction es arbitrary: s)
  case (Cons e es)
  then obtain u where u: "on_wp_event e s = Done u" "run_wp False es u = Some t" "possible_wp e s"
    by (auto split: if_splits wp_result.splits)
  show ?case
  proof (cases "e = ProxyCreated nm True")
    case False
    then have "protector_of nm u \<noteq> Some DbusProtector" using only_proxies [OF False, of s] Cons.prems(3) u(1) by auto
    then show ?thesis using Cons.IH [OF u(2) Cons.prems(2)] by simp
  qed simp
qed simp

fun free_name :: "manager \<Rightarrow> wp_event \<Rightarrow> bool" where
  "free_name t (ProxyCreated nm _) = (groups t nm = None)"
| "free_name t _ = True"

lemma run_no_clash:
  assumes "run_wp False es new_manager = Some t" "list_all (free_name t) es"
  shows "no_clash t"
  unfolding no_clash_def
proof (intro allI impI)
  fix nm assume "protector_of nm t = Some DbusProtector"
  then have "ProxyCreated nm True \<in> set es"
    by (rule run_proxies [OF assms(1)]) (simp add: new_manager_def protector_of_def)
  then show "groups t nm = None" using assms(2) by (auto simp: list_all_iff)
qed

lemma run_orderly:
  assumes "case run_wp False es new_manager of None \<Rightarrow> False | Some t \<Rightarrow> list_all (free_name t) es \<and> P t"
  shows "\<exists>t. run_wp False es new_manager = Some t \<and> reachable_wp False t \<and> no_clash t \<and> P t"
  using assms run_wp_reachable [OF reach_init] run_no_clash by (auto split: option.splits)

section \<open>Setting a source in an orderly run\<close>

lemma set_source_value:
  assumes "wp_ok s" "node_of nm s = Some k"
  shows "safely (set_graph_source k v (finish u s)) (\<lambda>t. wp_ok t \<and> same_books (finish u s) t \<and> output_of (wp_graph t) k = v)"
proof -
  let ?s = "finish u s"
  let ?t = "?s\<lparr>wp_graph := set_source k v (wp_graph ?s)\<rparr>"
  have W: "wp_ok ?s" using assms(1) by simp
  have k: "k < size_of (wp_graph ?s)" "kind (wp_graph ?s) k = NodeSource" using source_range [OF assms] by simp_all
  have O: "wired {} ?s" "shown {} ?s" "graph_inv (wp_graph ?s)" using W by (simp_all add: wp_ok_def wired_def)
  note P = set_source_ports [OF O(3) k refl]
  have shape: "same_shape ?s ?t" using P by (simp add: same_shape_def)
  have "shown {} ?t"
    by (rule shownI) (use shownD [OF O(2)] P group_node [OF O(1)] in auto)
  then have S: "safely (propagate_graph ?t) (\<lambda>t. wp_ok t \<and> same_shape ?t t \<and> (\<forall>i < size_of (wp_graph ?t).
      kind (wp_graph ?t) i = NodeSource \<longrightarrow> out (wp_graph t) i = out (wp_graph ?t) i))"
    by (intro settle [OF wired_same_shape [OF O(1) shape], where X = "{}"]) auto
  have "output_of (wp_graph t) k = v"
    if "wp_ok t" "same_shape ?t t" "out (wp_graph t) k = v" for t
  proof -
    have "k < size_of (wp_graph t)" "graph_inv (wp_graph t)" using that k P by (simp_all add: same_shape_def)
    then show ?thesis using output_of_stored [of "wp_graph t" k] that(3) by (simp add: ports)
  qed
  note outv = this
  show ?thesis
    unfolding set_graph_source_def
  proof (rule safely_weaken [OF S])
    fix t assume t: "wp_ok t \<and> same_shape ?t t \<and> (\<forall>i < size_of (wp_graph ?t).
      kind (wp_graph ?t) i = NodeSource \<longrightarrow> out (wp_graph t) i = out (wp_graph ?t) i)"
    have "out (wp_graph t) k = v" using t P(2,3) k by simp
    moreover have "same_books ?s t" using t by (simp add: same_shape_def same_books_def)
    ultimately show "wp_ok t \<and> same_books ?s t \<and> output_of (wp_graph t) k = v" using t outv by blast
  qed
qed

lemma safely_returns: "ensures r Q (\<lambda>_. False) \<Longrightarrow> safely r P \<Longrightarrow> \<exists>a. r = Done a \<and> P a \<and> Q a"
  by (cases r) simp_all

lemma set_source_returns:
  assumes "wp_ok s" "node_of nm s = Some k"
  shows "\<exists>t. set_graph_source k v (finish u s) = Done t \<and> wp_ok t \<and> same_books (finish u s) t \<and> output_of (wp_graph t) k = v"
  using safely_returns [OF books_set_source set_source_value [OF assms]] by blast

section \<open>When changes are handled\<close>

text \<open>
  The times at which a monitor handles the changes of its source, after the change at \<open>prev\<close>: none before
  the sleep that the one before it caused has ended.
\<close>

fun cooled :: "int option \<Rightarrow> int list \<Rightarrow> bool" where
  "cooled prev (t # u # ts) = (t + cool_off prev t \<le> u \<and> cooled (Some t) (u # ts))"
| "cooled prev _ = True"

lemma cooled_nth:
  "cooled prev ts \<Longrightarrow> Suc i < length ts \<Longrightarrow> ts ! i + cool_off (if i = 0 then prev else Some (ts ! (i - 1))) (ts ! i) \<le> ts ! Suc i"
proof (induction prev ts arbitrary: i rule: cooled.induct)
  case (1 prev t u ts)
  show ?case
  proof (cases i)
    case (Suc j)
    then show ?thesis
      using 1(1) [of j] 1(2,3) by (cases j) auto
  qed (use 1(2) in simp)
qed simp_all

lemma cool_off_nonneg: "0 \<le> cool_off prev t"
  by (simp add: cool_off_def split: option.split)

lemma cooled_two:
  assumes "cooled prev ts" "i + 2 < length ts"
  shows "ts ! i + sourceChangedCoolOffInterval \<le> ts ! (i + 2)"
proof -
  have "ts ! i \<le> ts ! Suc i"
    using cooled_nth [OF assms(1), of i] assms(2) cool_off_nonneg [of "if i = 0 then prev else Some (ts ! (i - 1))" "ts ! i"]
    by linarith
  moreover have "ts ! Suc i + cool_off (Some (ts ! i)) (ts ! Suc i) \<le> ts ! (i + 2)"
    using cooled_nth [OF assms(1), of "Suc i"] assms(2) by simp
  ultimately show ?thesis by (simp add: cool_off_def split: if_splits)
qed

section \<open>The configurations of a run\<close>

lemma configs_resolve:
  "ensures (resolveGroupLinks grp nm s) (\<lambda>t. wp_configs t = wp_configs s) (\<lambda>_. True)"
proof (cases "pendingEntityLinks s nm")
  case (Some links)
  have b: "ensures (resolve_links (outputNode grp) links (request_stop nm s)) (\<lambda>t. wp_configs t = wp_configs s) (\<lambda>_. True)"
    by (rule ensures_weaken [OF books_resolve_links [OF same_books_refl]]) (simp_all add: same_books_def request_stop_def)
  have "ensures (propagate_graph (t\<lparr>pendingEntityLinks := p\<rparr>)) (\<lambda>u. wp_configs u = wp_configs t) (\<lambda>_. True)" for t p
    by (rule ensures_weaken [OF books_propagate [OF same_books_refl]]) (simp_all add: same_books_def)
  then show ?thesis
    using Some b by (auto simp: resolveGroupLinks_def elim!: ensures_weaken) (metis)
qed (simp add: resolveGroupLinks_def)

lemma configs_addGroup:
  assumes "books_ok s" "\<And>c. config = Some c \<Longrightarrow> cfg_name c \<noteq> m"
  shows "ensures (addGroup accepts iface dp cp config s) (\<lambda>t. wp_configs t m = wp_configs s m) (\<lambda>_. True)"
proof (cases config)
  case (Some c)
  obtain k g where g: "addNode (cfg_mode c) (wp_graph s) = (k, g)" by (cases "addNode (cfg_mode c) (wp_graph s)")
  let ?P = "\<lambda>t. wp_configs t = wp_configs s"
  have link: "ensures (link_sources d k nms x (s\<lparr>wp_graph := g\<rparr>)) (\<lambda>(x, t). ?P t) (\<lambda>_. True)" for d nms x
    by (rule ensures_weaken [OF books_link_sources]) (use assms(1) books_ok_same [of s "s\<lparr>wp_graph := g\<rparr>"] in \<open>auto simp: linked_def\<close>)
  have facade: "ensures (add_facade accepts iface dp cp x grp t) (\<lambda>(grp, u). ?P u) (\<lambda>_. True)" if "?P t" for x grp t
    by (rule ensures_weaken [OF books_add_facade]) (use that in \<open>auto simp: same_books_def\<close>)
  have software: "ensures (add_software accepts grp nms t) (\<lambda>(grp, u). ?P u) (\<lambda>_. True)" if "?P t" for grp nms t
    by (rule ensures_weaken [OF books_add_software [OF same_books_refl]]) (use that in \<open>auto simp: same_books_def\<close>)
  have settled: "ensures (propagate_graph t) (\<lambda>u. wp_configs u m = wp_configs s m) (\<lambda>_. True)" if "wp_configs t m = wp_configs s m" for t
    by (rule ensures_weaken [OF books_propagate [OF same_books_refl]]) (use that in \<open>simp_all add: same_books_def\<close>)
  have fin: "ensures (and_then (resolveGroupLinks grp (cfg_name c) v) propagate_graph) (\<lambda>t. wp_configs t m = wp_configs s m) (\<lambda>_. True)"
    if "wp_configs v m = wp_configs s m" for grp v
    unfolding ensures_and_then
    by (rule ensures_weaken [OF configs_resolve], rule settled) (use that in simp_all)
  have soft: "ensures (and_then (add_software accepts grp nms u) (\<lambda>(grp, v). and_then (resolveGroupLinks grp (cfg_name c)
      ((register_group (cfg_name c) grp v)\<lparr>wp_configs := (wp_configs v)(cfg_name c \<mapsto> x)\<rparr>)) propagate_graph))
      (\<lambda>t. wp_configs t m = wp_configs s m) (\<lambda>_. True)" if "?P u" for grp u nms x
    unfolding ensures_and_then
    by (rule ensures_weaken [OF software [OF that]])
      (use assms(2) [OF Some] in \<open>auto simp: register_group_def simp del: ensures_and_then intro!: fin\<close>)
  have obj: "ensures (and_then (add_facade accepts iface dp cp settable grp u) (\<lambda>(grp, u).
      and_then (add_software accepts grp nms u) (\<lambda>(grp, v). and_then (resolveGroupLinks grp (cfg_name c)
      ((register_group (cfg_name c) grp v)\<lparr>wp_configs := (wp_configs v)(cfg_name c \<mapsto> x)\<rparr>)) propagate_graph)))
      (\<lambda>t. wp_configs t m = wp_configs s m) (\<lambda>_. True)" if "?P u" for grp u nms settable x
    unfolding ensures_and_then [of "add_facade accepts iface dp cp settable grp u"]
    by (rule ensures_weaken [OF facade [OF that]]) (auto simp del: ensures_and_then intro!: soft)
  have "ensures (and_then (link_sources d k nms z (s\<lparr>wp_graph := g\<rparr>)) (\<lambda>(settable, u).
      and_then (add_facade accepts iface dp cp settable (new_group k) u) (\<lambda>(grp, u).
      and_then (add_software accepts grp nms' u) (\<lambda>(grp, v). and_then (resolveGroupLinks grp (cfg_name c)
      ((register_group (cfg_name c) grp v)\<lparr>wp_configs := (wp_configs v)(cfg_name c \<mapsto> x)\<rparr>)) propagate_graph))))
      (\<lambda>t. wp_configs t m = wp_configs s m) (\<lambda>_. True)" for d nms z nms' x
    unfolding ensures_and_then [of "link_sources d k nms z (s\<lparr>wp_graph := g\<rparr>)"]
    by (rule ensures_weaken [OF link]) (auto simp del: ensures_and_then intro!: obj)
  then show ?thesis
    unfolding Some addGroup_def Let_def option.case g prod.case
    by (simp del: ensures_and_then)
qed (simp add: addGroup_def)

lemma configs_addGpioGroup:
  "ensures (addGpioGroup accepts config s) (\<lambda>t. wp_configs t = wp_configs s) (\<lambda>_. True)"
proof (cases config)
  case (Some c)
  obtain src created t where t: "getOrCreateSource (gpio_name c) s = (src, created, t)" by (metis prod_cases3)
  have e: "wp_configs t = wp_configs s"
    using t by (auto simp: getOrCreateSource_def Let_def split: option.splits prod.splits)
  have software: "ensures (add_software accepts grp nms t) (\<lambda>(grp, u). wp_configs u = wp_configs s) (\<lambda>_. True)" for grp nms
    by (rule ensures_weaken [OF books_add_software [OF same_books_refl]]) (use e in \<open>auto simp: same_books_def\<close>)
  show ?thesis
    unfolding Some addGpioGroup_def Let_def option.case t prod.case
    by (auto simp: register_group_def spawn_def intro!: ensures_weaken [OF software] ensures_weaken [OF configs_resolve])
qed (simp add: addGpioGroup_def)

fun reads_group :: "string \<Rightarrow> wp_event \<Rightarrow> bool" where
  "reads_group nm (GroupRead _ _ _ _ props) = (case group_config props of None \<Rightarrow> False | Some c \<Rightarrow> cfg_name c = nm)"
| "reads_group nm _ = False"

lemma configs_event:
  assumes "books_ok s" "\<not> reads_group nm e"
  shows "ensures (on_wp_event e s) (\<lambda>t. wp_configs t nm = wp_configs s nm) (\<lambda>_. True)"
proof -
  have sg: "ensures (set_graph_source k v (finish t s)) (\<lambda>u. wp_configs u = wp_configs s) (\<lambda>_. True)" for k v t
    by (rule ensures_weaken [OF books_set_source [where E = "\<lambda>_. True"]]) (auto simp: same_books_def)
  have mon: "wp_configs (monitor_again m t u) = wp_configs u" for m t u
    by (simp add: monitor_again_def Let_def spawn_def split: option.split)
  show ?thesis
  proof (cases e)
    case (GroupRead accepts iface dp cp props)
    then show ?thesis
      using configs_addGroup [OF assms(1), of "group_config props" nm] assms(2)
      by (cases "group_config props") auto
  next
    case (InputRead accepts props)
    then show ?thesis
      using configs_addGpioGroup [of accepts "gpio_input_config props" s] by (auto elim!: ensures_weaken)
  next
    case (InitialGot m v)
    then show ?thesis
      by (auto simp: activate_got_def spawn_def split: sum.split intro!: ensures_weaken [OF sg])
  next
    case (SourceChanged m v t)
    then show ?thesis
      by (cases v) (auto simp: monitorSource_def mon intro!: ensures_weaken [OF sg])
  next
    case (GetDone call k v r)
    then show ?thesis
      by (auto simp: get_done_def reply_def split: sum.split intro!: ensures_weaken [OF sg])
  qed (auto simp: initializeGpioSource_def gpio_created_def scopedEntityInit_def initializeEntitySource_def
      spawn_def activateSource_def proxy_created_def scope_empty_def method_call_def setWriteProtected_def reply_def
      set_done_def split: option.split facade_kind.split sum.split)
qed

lemma run_configs:
  assumes "books_ok s" "run_wp False es s = Some t" "\<not> list_ex (reads_group nm) es"
  shows "wp_configs t nm = wp_configs s nm"
  using assms
proof (induction es arbitrary: s)
  case (Cons e es)
  then obtain u where u: "on_wp_event e s = Done u" "run_wp False es u = Some t" "possible_wp e s"
    by (auto split: if_splits wp_result.splits)
  have "books_ok u" using good_event [OF Cons.prems(1) u(3)] u(1) by (simp add: good_def)
  then have "wp_configs t nm = wp_configs u nm" using Cons.IH [OF _ u(2)] Cons.prems(3) by simp
  then show ?case using configs_event [OF Cons.prems(1), of nm e] u(1) Cons.prems(3) by simp
qed simp

end
