(* ===== verification/Wp_Properties.thy ===== *)
theory Wp_Properties
  imports Wp_Runs
begin

text \<open>
  The properties of the write-protection manager: what its D-Bus objects show, what a group's output is, in
  any order of arrival, and what a change, a call and the clash of two names do.
\<close>

text \<open>A group whose name a proxy was made for.\<close>

fun clashes :: "wp_event \<Rightarrow> manager \<Rightarrow> bool" where
  "clashes (GroupRead _ _ _ _ props) s = (case group_config props of
     None \<Rightarrow> False | Some c \<Rightarrow> protector_of (cfg_name c) s = Some DbusProtector)"
| "clashes _ s = False"

lemma steps_grow: "books_ok s \<Longrightarrow> (wp_step b)\<^sup>*\<^sup>* s t \<Longrightarrow> good s t"
proof (rotate_tac 1, induction rule: rtranclp_induct)
  case (step t u)
  then show ?case using good_step [OF good_books] good_trans by blast
qed (simp add: good_def)

text \<open>
  C5: In every state that configurations, inputs, protectors and calls can lead to without an exception, and
  as long as no name is both a proxied D-Bus object and a group, every D-Bus object of a group (the domain, the
  hardware control, the software components) exists and shows the current output of the group's node.
\<close>

theorem facades_show_group:
  assumes "reachable_wp False s" "no_clash s" "groups s nm = Some grp" "p \<in> objects_of grp"
  shows "\<exists>f. objects s p = Some f \<and> write_protected f = output_of (wp_graph s) (outputNode grp)"
  using shown_value [OF reachable_wp_ok(1) [OF assms(1,2)] assms(3,4)] output_value [OF assms(3)] by simp


text \<open>
  C7: The order in which configurations, inputs and D-Bus objects arrived does not matter. Take two runs without
  an exception after which no name is both a proxied D-Bus object and a group: if they added the same groups, and
  every source that these name and that is not one of them has the same value after both runs, then the runs agree
  on the value of every group.
\<close>

theorem arrival_order_irrelevant:
  assumes "reachable_wp False s" "no_clash s" "reachable_wp False t" "no_clash t"
    and "wp_configs t = wp_configs s"
    and "\<And>n op ns m. wp_configs s n = Some (op, ns) \<Longrightarrow> m \<in> set ns \<Longrightarrow> wp_configs s m = None \<Longrightarrow>
      name_value t m = name_value s m"
    and "wp_configs s nm \<noteq> None"
  shows "name_value t nm = name_value s nm"
  by (rule values_determined [OF reachable_wp_ok(1,3) [OF assms(1,2)] reachable_wp_ok(1,3) [OF assms(3,4)] assms(5-7)])

text \<open>
  C31: In every state reached without an exception, and in which no name is both a proxied D-Bus object and a
  group, no event that can happen touches a destroyed D-Bus object or runs forever, unless it adds a group under a
  name that a proxy was made for.
\<close>

theorem events_defined:
  assumes "reachable_wp False s" "no_clash s" "possible_wp e s" "\<not> clashes e s"
  shows "on_wp_event e s \<noteq> Undefined \<and> on_wp_event e s \<noteq> Diverges"
proof -
  have "safely (on_wp_event e s) wp_ok"
    by (rule wp_event_ok [OF reachable_wp_ok(1,3,2) [OF assms(1,2)] assms(3)]) (use assms(4) in auto)
  then show ?thesis by (cases "on_wp_event e s") simp_all
qed


text \<open>
  A source that changes all the time has at most two changes handled in every second: the one after the
  next comes a full second later.
\<close>

lemma cooled_rate:
  assumes "cooled prev ts" "i + 2 * k < length ts"
  shows "ts ! i + int k * sourceChangedCoolOffInterval \<le> ts ! (i + 2 * k)"
  using assms(2)
proof (induction k)
  case (Suc k)
  then have "ts ! (i + 2 * k) + sourceChangedCoolOffInterval \<le> ts ! (i + 2 * Suc k)"
    using cooled_two [OF assms(1), of "i + 2 * k"] by simp
  then show ?case using Suc by (simp add: distrib_right)
qed simp

text \<open>
  C34: In every state reached without an exception, and in which no name is both a proxied D-Bus object and a group, a
  change of a source that has a protector and a waiting monitor, and whose name is not that of a configured group, takes
  effect: the event does not fail, afterwards the value of the name is the one reported, and the configured groups
  are still those that were added.
\<close>

theorem change_takes_effect:
  assumes "reachable_wp False s" "no_clash s" "Monitor nm \<in> set (tasks s)" "protector_of nm s \<noteq> None"
    and "groups s nm = None \<or> wp_configs s nm = None"
  shows "\<exists>t. on_wp_event (SourceChanged nm (Inr v) now) s = Done t \<and> name_value t nm = v \<and> wp_configs t = wp_configs s"
proof -
  note O = reachable_wp_ok [OF assms(1,2)]
  obtain src where src: "sources s nm = Some src" using assms(4) by (auto simp: protector_of_def bind_eq_None_conv)
  then have k: "node_of nm s = Some (source_node src)" by (simp add: node_of_def)
  obtain t where t: "set_graph_source (source_node src) v (finish (Monitor nm) s) = Done t"
    "same_books (finish (Monitor nm) s) t" "output_of (wp_graph t) (source_node src) = v"
    using set_source_returns [OF O(1) k, of v "Monitor nm"] by blast
  let ?u = "monitor_again nm now t"
  have f: "wp_graph ?u = wp_graph t" "groups ?u = groups t" "wp_configs ?u = wp_configs t" "node_of nm ?u = node_of nm t"
    by (simp_all add: monitor_again_def Let_def spawn_def split: option.split)
  have b: "groups t = groups s" "wp_configs t = wp_configs s" "node_of nm t = node_of nm s"
    using t(2) same_books_names(1) [OF t(2), of nm] by (simp_all add: same_books_def)
  have "inputs_ok {} s" using O(1) by (simp add: wp_ok_def wired_def)
  then have "name_node nm s = Some (source_node src)"
    using assms(5) inputs_okD(1) [of "{}" s nm] k by (auto simp: name_node_def split: option.split)
  moreover have "name_node nm ?u = name_node nm s" unfolding name_node_def f b ..
  ultimately have "name_node nm ?u = Some (source_node src)" by simp
  then have "name_value ?u nm = v" using t(3) f(1) by (simp add: name_value_def)
  moreover obtain p where "protector_of nm s = Some p" using assms(4) by blast
  ultimately show ?thesis using t(1) src f(3) b(2) by (simp add: monitorSource_def)
qed

text \<open>What an event does to the call it belongs to, and that no other event answers one.\<close>

lemma call_step:
  assumes "reachable_wp False s" "no_clash s" "possible_wp e s"
  shows "case e of
      SetCalled call p v \<Rightarrow> \<exists>t. on_wp_event e s = Done t \<and> wp_graph t = wp_graph s \<and>
        (case map_option facade_kind (objects s p) of
           Some (DomainFacade (Some k)) \<Rightarrow>
             if \<exists>nm. sourcesByNodeId s k = Some nm \<and> protector_of nm s \<noteq> None
             then replies t = replies s \<and> SetAwait call k v \<in> set (tasks t)
             else replies t = replies s @ [(call, InternalFailure)]
         | Some (DomainFacade None) \<Rightarrow> replies t = replies s @ [(call, NotAllowed)]
         | _ \<Rightarrow> replies t = replies s)
    | SetDone call k v r \<Rightarrow> \<exists>t. on_wp_event e s = Done t \<and> wp_graph t = wp_graph s \<and>
        (case r of
           Inl x \<Rightarrow> replies t = replies s @ [(call, domain_reply (Inl x))]
         | Inr _ \<Rightarrow> replies t = replies s \<and> GetAwait call k v \<in> set (tasks t))
    | GetDone call k v r \<Rightarrow> \<exists>t. on_wp_event e s = Done t \<and>
        (case r of
           Inl x \<Rightarrow> wp_graph t = wp_graph s \<and> replies t = replies s @ [(call, domain_reply (Inl x))]
         | Inr actual \<Rightarrow> output_of (wp_graph t) k = actual \<and>
             replies t = replies s @ [(call, if actual = v then SetOk else InternalFailure)])
    | _ \<Rightarrow> \<forall>t. on_wp_event e s = Done t \<longrightarrow> replies t = replies s"
proof (cases "of_call e")
  case False
  have "replies t = replies s" if "on_wp_event e s = Done t" for t
    using other_events_silent [OF False, of "replies s" s] that by (simp add: answered_def)
  then show ?thesis using False by (cases e) simp_all
next
  case True
  then show ?thesis
  proof (cases e)
    case (SetCalled call p v)
    then show ?thesis
      by (auto simp: method_call_def setWriteProtected_def reply_def spawn_def split: option.split facade_kind.split)
  next
    case (SetDone call k v r)
    then show ?thesis
      by (auto simp: set_done_def reply_def spawn_def finish_def split: sum.split)
  next
    case (GetDone call k v r)
    note O = reachable_wp_ok [OF assms(1,2)]
    have "task_node s (GetAwait call k v)" using O(2) assms(3) GetDone unfolding calls_ok_def by auto
    then obtain nm where k: "node_of nm s = Some k" by auto
    let ?s = "finish (GetAwait call k v) s"
    have "\<exists>t. set_graph_source k x ?s = Done t \<and> replies t = replies s \<and> output_of (wp_graph t) k = x" for x
      using set_source_returns [OF O(1) k, of x "GetAwait call k v"] by (auto simp: same_books_def finish_def)
    then obtain t where t: "set_graph_source k (case r of Inl x \<Rightarrow> v | Inr x \<Rightarrow> x) ?s = Done t" "replies t = replies s"
      "output_of (wp_graph t) k = (case r of Inl x \<Rightarrow> v | Inr x \<Rightarrow> x)" by blast
    then show ?thesis
      by (cases r) (simp_all add: GetDone get_done_def reply_def, simp add: finish_def)
  qed simp_all
qed

text \<open>
  C32: In every state reached without an exception, and in which no name is both a proxied D-Bus object and a
  group, \<open>SetWriteProtected\<close> succeeds exactly when the value read back after the set is the requested one: no other
  event answers a call with success. A call of a domain without a settable source, or whose source has no
  protector, is refused at once; otherwise the source is set and, unless the set fails, read back. The value read
  back is what the graph takes for the source, whether or not it is the requested one; the call changes the graph
  at no other moment, and not at all when the set or the reading back fails.
\<close>

theorem set_reports_actual:
  assumes "reachable_wp False s" "no_clash s" "possible_wp e s"
  shows "(case e of
      SetCalled call p v \<Rightarrow> \<exists>t. on_wp_event e s = Done t \<and> wp_graph t = wp_graph s \<and>
        (case map_option facade_kind (objects s p) of
           Some (DomainFacade (Some k)) \<Rightarrow>
             if \<exists>nm. sourcesByNodeId s k = Some nm \<and> protector_of nm s \<noteq> None
             then replies t = replies s \<and> SetAwait call k v \<in> set (tasks t)
             else replies t = replies s @ [(call, InternalFailure)]
         | Some (DomainFacade None) \<Rightarrow> replies t = replies s @ [(call, NotAllowed)]
         | _ \<Rightarrow> replies t = replies s)
    | SetDone call k v r \<Rightarrow> \<exists>t. on_wp_event e s = Done t \<and> wp_graph t = wp_graph s \<and>
        (case r of
           Inl x \<Rightarrow> replies t = replies s @ [(call, domain_reply (Inl x))]
         | Inr _ \<Rightarrow> replies t = replies s \<and> GetAwait call k v \<in> set (tasks t))
    | GetDone call k v r \<Rightarrow> \<exists>t. on_wp_event e s = Done t \<and>
        (case r of
           Inl x \<Rightarrow> wp_graph t = wp_graph s \<and> replies t = replies s @ [(call, domain_reply (Inl x))]
         | Inr actual \<Rightarrow> output_of (wp_graph t) k = actual \<and>
             replies t = replies s @ [(call, if actual = v then SetOk else InternalFailure)])
    | _ \<Rightarrow> \<forall>t. on_wp_event e s = Done t \<longrightarrow> replies t = replies s) \<and>
    (\<forall>t call. on_wp_event e s = Done t \<longrightarrow>
      ((call, SetOk) \<in> set (drop (length (replies s)) (replies t)) \<longleftrightarrow> (\<exists>k v. e = GetDone call k v (Inr v))))"
proof (intro conjI allI impI)
  show "(call, SetOk) \<in> set (drop (length (replies s)) (replies t)) \<longleftrightarrow> (\<exists>k v. e = GetDone call k v (Inr v))"
    if "on_wp_event e s = Done t" for t call
  proof -
    have "domain_reply (Inl x) \<noteq> SetOk" for x by (cases x) simp_all
    then show ?thesis
      using call_step [OF assms] that
      by (cases e) (auto simp del: on_wp_event.simps simp: eq_commute [of SetOk]
          split: sum.splits option.splits facade_kind.splits if_splits)
  qed
qed (rule call_step [OF assms])


section \<open>Runs\<close>

text \<open>A bus that accepts every object; the properties of a group and of an input.\<close>

definition accept_all :: "string \<Rightarrow> bool" where
  "accept_all path = True"

definition group_props :: "string \<Rightarrow> string list \<Rightarrow> string list \<Rightarrow> string \<Rightarrow> wp_properties" where
  "group_props nm srcs comps mode = [''Name'' \<mapsto> WpString nm, ''Sources'' \<mapsto> WpStrings srcs,
     ''FlashProtectedComponents'' \<mapsto> WpStrings comps, ''SourceMode'' \<mapsto> WpString mode]"

definition input_props :: "string \<Rightarrow> wp_properties" where
  "input_props nm = [''Name'' \<mapsto> WpString nm, ''LineName'' \<mapsto> WpString ''line'']"

text \<open>A group and its input, in either order.\<close>

definition group_G :: wp_event where
  "group_G = GroupRead accept_all WriteProtectDomain ''/d'' ''/c'' (group_props ''G'' [''A''] [''f''] ''OR'')"

definition input_A :: "wp_event list" where
  "input_A = [InputRead accept_all (input_props ''A''), GpioStarts ''A'', GpioCreated ''A'' True, InitialGot ''A'' (Inr True)]"

definition sample_facts :: "manager \<Rightarrow> bool" where
  "sample_facts t \<longleftrightarrow> wp_configs t ''G'' = Some (OpOr, [''A'']) \<and> name_value t ''A'' \<and> name_value t ''G'' \<and>
     (case groups t ''G'' of None \<Rightarrow> False | Some grp \<Rightarrow> 0 \<in> objects_of grp) \<and>
     Monitor ''A'' \<in> set (tasks t) \<and> protector_of ''A'' t = Some GpioProtector \<and> wp_configs t ''A'' = None"

lemma sample_runs:
  "case run_wp False (group_G # input_A) new_manager of None \<Rightarrow> False
   | Some t \<Rightarrow> list_all (free_name t) (group_G # input_A) \<and> sample_facts t"
  "case run_wp False (input_A @ [group_G]) new_manager of None \<Rightarrow> False
   | Some t \<Rightarrow> list_all (free_name t) (input_A @ [group_G]) \<and> sample_facts t"
  by code_simp+

theorem facades_show_group_witness:
  "\<exists>s grp f. reachable_wp False s \<and> groups s ''G'' = Some grp \<and> objects s 0 = Some f \<and>
     write_protected f = output_of (wp_graph s) (outputNode grp)"
proof -
  obtain s where s: "reachable_wp False s" "no_clash s" "sample_facts s" using run_orderly [OF sample_runs(1)] by blast
  then obtain grp where g: "groups s ''G'' = Some grp" "0 \<in> objects_of grp"
    by (auto simp: sample_facts_def split: option.splits)
  show ?thesis using facades_show_group [OF s(1,2) g] s(1) g(1) by blast
qed



lemma sample_configs:
  assumes "run_wp False es new_manager = Some t" "es = group_G # input_A \<or> es = input_A @ [group_G]" "nm \<noteq> ''G''"
  shows "wp_configs t nm = None"
proof -
  have "\<not> list_ex (reads_group nm) es"
    using assms(2,3) by (auto simp: group_G_def input_A_def group_props_def group_config_def read_property_def)
  then show ?thesis
    using run_configs [OF books_ok_new assms(1)] by (simp add: new_manager_def)
qed

theorem arrival_order_irrelevant_witness:
  "\<exists>s t. run_wp False (group_G # input_A) new_manager = Some s \<and> run_wp False (input_A @ [group_G]) new_manager = Some t \<and>
     name_value t ''G'' = name_value s ''G''"
proof -
  obtain s where s: "run_wp False (group_G # input_A) new_manager = Some s" "reachable_wp False s" "no_clash s" "sample_facts s"
    using run_orderly [OF sample_runs(1)] by blast
  obtain t where t: "run_wp False (input_A @ [group_G]) new_manager = Some t" "reachable_wp False t" "no_clash t" "sample_facts t"
    using run_orderly [OF sample_runs(2)] by blast
  have c: "wp_configs t = wp_configs s"
  proof
    fix nm show "wp_configs t nm = wp_configs s nm"
      using sample_configs [OF s(1), of nm] sample_configs [OF t(1), of nm] s(4) t(4)
      by (cases "nm = ''G''") (simp_all add: sample_facts_def)
  qed
  show ?thesis
  proof (intro exI conjI)
    show "name_value t ''G'' = name_value s ''G''"
    proof (rule arrival_order_irrelevant [OF s(2,3) t(2,3) c])
      fix n op ns m assume "wp_configs s n = Some (op, ns)" "m \<in> set ns"
      then have "m = ''A''"
        using sample_configs [OF s(1), of n] s(4) by (cases "n = ''G''") (auto simp: sample_facts_def)
      then show "name_value t m = name_value s m" using s(4) t(4) by (simp add: sample_facts_def)
    qed (use s(4) in \<open>simp add: sample_facts_def\<close>)
  qed (fact s(1) t(1))+
qed

theorem events_defined_witness:
  "on_wp_event group_G new_manager \<noteq> Undefined \<and> on_wp_event group_G new_manager \<noteq> Diverges"
  by (rule events_defined)
    (simp_all add: reach_init no_clash_def new_manager_def protector_of_def group_G_def split: option.split)


lemma cooled_rate_witness:
  "[0, 100, 1000 :: int] ! 0 + int 1 * sourceChangedCoolOffInterval \<le> [0, 100, 1000] ! (0 + 2 * 1)"
  by (rule cooled_rate [where prev = None]) (simp_all add: cool_off_def sourceChangedCoolOffInterval_def)

theorem change_takes_effect_witness:
  "\<exists>s t. reachable_wp False s \<and> name_value s ''A'' \<and>
     on_wp_event (SourceChanged ''A'' (Inr False) 5) s = Done t \<and> \<not> name_value t ''A''"
proof -
  obtain s where s: "reachable_wp False s" "no_clash s" "sample_facts s" using run_orderly [OF sample_runs(1)] by blast
  then show ?thesis
    using change_takes_effect [OF s(1,2), of "''A''" False 5] by (auto simp: sample_facts_def)
qed

text \<open>A domain over a D-Bus object: a call of the domain sets the object and reads it back.\<close>

definition proxy_run :: "wp_event list" where
  "proxy_run = [GroupRead accept_all WriteProtectDomain ''/d'' ''/c'' (group_props ''G'' [''E''] [] ''OR''),
     EntityStarts ''E'', ProxyCreated ''E'' True, InitialGot ''E'' (Inr False), SetCalled 1 0 True, SetDone 1 1 True (Inr ())]"

lemma proxy_run_facts:
  "case run_wp False proxy_run new_manager of None \<Rightarrow> False
   | Some t \<Rightarrow> list_all (free_name t) proxy_run \<and> GetAwait 1 1 True \<in> set (tasks t)"
  by code_simp

theorem set_reports_actual_witness:
  "\<exists>s t. reachable_wp False s \<and> on_wp_event (GetDone 1 1 True (Inr True)) s = Done t \<and>
     output_of (wp_graph t) 1 \<and> (1, SetOk) \<in> set (replies t)"
proof -
  obtain s where s: "reachable_wp False s" "no_clash s" "GetAwait 1 1 True \<in> set (tasks s)"
    using run_orderly [OF proxy_run_facts] by blast
  then show ?thesis using set_reports_actual [OF s(1,2), of "GetDone 1 1 True (Inr True)"] by force
qed

text \<open>
  An AND group whose only source fails: the GPIO line is not found. The group is false, not true as the empty
  conjunction that is left of it would be: the node of the failed source stays connected.
\<close>

definition failed_run :: "wp_event list" where
  "failed_run = [GroupRead accept_all WriteProtectGroup ''/d'' ''/c'' (group_props ''G'' [''A''] [] ''AND''),
     InputRead accept_all (input_props ''A''), GpioStarts ''A'', GpioCreated ''A'' False]"

lemma failed_source_counts_as_false:
  "case run_wp False failed_run new_manager of None \<Rightarrow> False
   | Some t \<Rightarrow> tasks t = [InitEntity ''A''] \<and> wp_configs t ''G'' = Some (OpAnd, [''A'']) \<and> \<not> name_value t ''G''"
  by code_simp

text \<open>A proxy for \<open>E\<close>, and later a group of that name.\<close>

definition clash_run :: "wp_event list" where
  "clash_run = [GroupRead accept_all WriteProtectGroup ''/d'' ''/c'' (group_props ''G'' [''E''] [] ''OR''),
    EntityStarts ''E'', ProxyCreated ''E'' True, InitialGot ''E'' (Inr True)] @ input_A @
    [GroupRead accept_all WriteProtectGroup ''/d'' ''/c'' (group_props ''H'' [''E''] [] ''OR''),
     GroupRead accept_all WriteProtectGroup ''/d'' ''/c'' (group_props ''E'' [''A''] [] ''OR'')]"

lemma clash_run_facts:
  "case run_wp False clash_run new_manager of None \<Rightarrow> False
   | Some t \<Rightarrow> wp_configs t ''G'' = Some (OpOr, [''E'']) \<and> name_value t ''E'' \<and> \<not> name_value t ''G''"
  by code_simp

text \<open>
  The assumption on names is needed. A group \<open>G\<close> refers to a D-Bus object \<open>E\<close>, for which a proxy is
  made; a second group refers to \<open>E\<close>, and then a group named \<open>E\<close> is configured: \<open>resolveGroupLinks\<close>
  moves the second group to it and deactivates the node of the proxied source, so \<open>G\<close> loses its only input
  and is false although the group \<open>E\<close> is true.
\<close>

lemma name_clash_orphans:
  "\<exists>s. reachable_wp False s \<and> wp_configs s ''G'' = Some (OpOr, [''E'']) \<and> name_value s ''E'' \<and> \<not> name_value s ''G''"
proof -
  have "reachable_wp False new_manager" by (rule reach_init) simp
  then show ?thesis
    using clash_run_facts run_wp_reachable [of False new_manager clash_run] by (auto split: option.splits)
qed

text \<open>
  The bus refuses the second object of a group: the group and its first object are gone, the observer of the
  first one is not.
\<close>

definition refuse_g :: "string \<Rightarrow> bool" where
  "refuse_g path \<longleftrightarrow> path \<noteq> softwarePath ''g''"

definition refused_run :: "wp_event list" where
  "refused_run = [GroupRead refuse_g WriteProtectGroup ''/d'' ''/c'' (group_props ''G'' [''A''] [''f'', ''g''] ''OR''),
     InputRead accept_all (input_props ''A''), GpioStarts ''A'', GpioCreated ''A'' True]"

lemma refused_run_facts:
  "case run_wp True refused_run new_manager of None \<Rightarrow> False
   | Some t \<Rightarrow> possible_wp (InitialGot ''A'' (Inr True)) t \<and>
       (case on_wp_event (InitialGot ''A'' (Inr True)) t of Undefined \<Rightarrow> True | _ \<Rightarrow> False)"
  by code_simp

text \<open>
  The assumption on exceptions is needed, too. When the bus refuses one of the objects of a group,
  \<open>addGroup\<close> throws with observers of the destroyed ones left on the group's node; the first value of a source
  of the group then calls a destroyed object.
\<close>

lemma refused_object_dangles:
  "\<exists>s e. reachable_wp True s \<and> possible_wp e s \<and> on_wp_event e s = Undefined"
proof -
  obtain t where t: "run_wp True refused_run new_manager = Some t" "possible_wp (InitialGot ''A'' (Inr True)) t"
    "on_wp_event (InitialGot ''A'' (Inr True)) t = Undefined"
    using refused_run_facts by (auto simp del: on_wp_event.simps possible_wp.simps split: option.splits wp_result.splits)
  have "reachable_wp True t" by (rule run_wp_reachable [OF _ t(1)]) (simp add: reach_init)
  then show ?thesis using t(2,3) by blast
qed

end
