(* ===== verification/Gpu_Inventory.thy ===== *)
theory Gpu_Inventory
  imports Gpu_Response_Specs
begin

text \<open>
  The inventory of a device of the GPU daemon (\<open>src/nvidia-gpu/Inventory.cpp\<close>): the properties it
  registers on D-Bus, the requests by which it reads them from the device one at a time, and what it
  publishes for each answer. \<open>properties\<close> is an unordered map; the order in which its iterators visit
  the properties is a parameter, the field \<open>visiting\<close>, and never changes since nothing is inserted
  after construction. An operation returns the new inventory and what it passes to
  \<open>MctpRequester::sendRecvMsg\<close>, each request with the callback it is submitted with. The text
  form of a UUID (\<open>boost::uuids::to_string\<close>) is the parameter \<open>uuid_text\<close>.
\<close>

section \<open>Data\<close>

datatype device_identification = DEVICE_GPU | DEVICE_PCIE | DEVICE_SMA

fun inventory_property_code :: "inventory_property_id \<Rightarrow> u8" where
  "inventory_property_code BOARD_PART_NUMBER = 0"
| "inventory_property_code SERIAL_NUMBER = 1"
| "inventory_property_code MARKETING_NAME = 2"
| "inventory_property_code DEVICE_PART_NUMBER = 3"
| "inventory_property_code FRU_PART_NUMBER = 4"
| "inventory_property_code MEMORY_VENDOR = 5"
| "inventory_property_code MEMORY_PART_NUMBER = 6"
| "inventory_property_code MAX_MEMORY_CAPACITY = 7"
| "inventory_property_code BUILD_DATE = 8"
| "inventory_property_code FIRMWARE_VERSION = 9"
| "inventory_property_code DEVICE_GUID = 10"
| "inventory_property_code INFOROM_VERSION = 11"
| "inventory_property_code PRODUCT_LENGTH = 12"
| "inventory_property_code PRODUCT_WIDTH = 13"
| "inventory_property_code PRODUCT_HEIGHT = 14"
| "inventory_property_code RATED_DEVICE_POWER_LIMIT = 15"
| "inventory_property_code MIN_DEVICE_POWER_LIMIT = 16"
| "inventory_property_code MAX_DEVICE_POWER_LIMIT = 17"
| "inventory_property_code MAX_MODULE_POWER_LIMIT = 18"
| "inventory_property_code MIN_MODULE_POWER_LIMIT = 19"
| "inventory_property_code RATED_MODULE_POWER_LIMIT = 20"
| "inventory_property_code DEFAULT_BOOST_CLOCKS = 21"
| "inventory_property_code DEFAULT_BASE_CLOCKS = 22"
| "inventory_property_code DEFAULT_EDPP_SCALING = 23"
| "inventory_property_code MIN_EDPP_SCALING = 24"
| "inventory_property_code MAX_EDPP_SCALING = 25"
| "inventory_property_code MIN_GRAPHICS_CLOCK = 26"
| "inventory_property_code MAX_GRAPHICS_CLOCK = 27"
| "inventory_property_code MIN_MEMORY_CLOCK = 28"
| "inventory_property_code MAX_MEMORY_CLOCK = 29"
| "inventory_property_code INFINIBAND_GUID = 30"
| "inventory_property_code RACK_GUID = 31"
| "inventory_property_code RACK_SLOT_NUMBER = 32"
| "inventory_property_code COMPUTE_SLOT_INDEX = 33"
| "inventory_property_code NODE_INDEX = 34"
| "inventory_property_code GPU_NODE_ID = 35"
| "inventory_property_code NVLINK_PEER_TYPE = 36"

text \<open>The D-Bus interfaces the properties live on, and the values they take.\<close>

datatype inventory_interface =
  AssetIface | UuidIface | RevisionIface | AcceleratorIface | PowerCapIface | DramIface

datatype dbus_value = StrVal bytes | U32Val u32 | U64Val u64 | U16sVal "u16 list"

definition text_bytes :: "string \<Rightarrow> bytes" where
  "text_bytes = map of_char"

record property_info =
  info_interface :: inventory_interface
  propertyName :: string
  retryCount :: int
  isPending :: bool

text \<open>The callbacks that requests of the modelled parts are submitted with.\<close>

datatype callback =
  InventoryCallback inventory_property_id | GetPowerCallback | SetPowerCallback | GetClockCallback | SetClockCallback

type_synonym error_code = int
type_synonym requests = "(callback \<times> bytes) list"

record inventory =
  properties :: "inventory_property_id \<Rightarrow> property_info option"
  visiting :: "inventory_property_id list"
  published :: "inventory_interface \<times> string \<Rightarrow> dbus_value option"
  inv_requestBuffer :: bytes
  retryTimer :: bool
  hasDram :: bool
  allowedSpeedsMT :: "u16 \<times> u16"
  memorySizeInMiB :: "u32 option"
  minPowerCapWatts :: "u32 option"
  maxPowerCapWatts :: "u32 option"
  minGraphicsClockHz :: "u64 option"
  maxGraphicsClockHz :: "u64 option"

definition milliwattsPerWatt :: u32 where "milliwattsPerWatt = 1000"
definition mhzToHzFactor :: u64 where "mhzToHzFactor = 1000000"
definition maxRetryAttempts :: int where "maxRetryAttempts = 3"

section \<open>Construction\<close>

definition set_iface_property :: "inventory_interface \<Rightarrow> string \<Rightarrow> dbus_value \<Rightarrow> inventory \<Rightarrow> inventory" where
  "set_iface_property iface nm v iv = iv\<lparr>published := (published iv)((iface, nm) \<mapsto> v)\<rparr>"

definition add_property :: "inventory_property_id \<Rightarrow> inventory_interface \<Rightarrow> string \<Rightarrow> inventory \<Rightarrow> inventory" where
  "add_property p iface nm iv =
     iv\<lparr>properties := (properties iv)(p \<mapsto>
       \<lparr>info_interface = iface, propertyName = nm, retryCount = 0, isPending = True\<rparr>)\<rparr>"

definition registerProperty :: "inventory_property_id \<Rightarrow> inventory_interface \<Rightarrow> string \<Rightarrow> inventory \<Rightarrow> inventory" where
  "registerProperty p iface nm iv = add_property p iface nm (set_iface_property iface nm (StrVal []) iv)"

definition empty_inventory :: "bool \<Rightarrow> inventory_property_id list \<Rightarrow> inventory" where
  "empty_inventory dram visit =
     \<lparr>properties = Map.empty, visiting = visit, published = Map.empty,
      inv_requestBuffer = replicate getInventoryInformationRequestSize 0, retryTimer = False, hasDram = dram,
      allowedSpeedsMT = (0, 0), memorySizeInMiB = None, minPowerCapWatts = None, maxPowerCapWatts = None,
      minGraphicsClockHz = None, maxGraphicsClockHz = None\<rparr>"

text \<open>The constructor. A null interface argument is \<open>False\<close>.\<close>

definition new_inventory ::
  "device_identification \<Rightarrow> bool \<Rightarrow> bool \<Rightarrow> inventory_property_id list \<Rightarrow> inventory" where
  "new_inventory deviceType powerCap dram visit =
     (let iv = empty_inventory dram visit;
          iv = set_iface_property AssetIface ''Manufacturer'' (StrVal (text_bytes ''NVIDIA'')) iv;
          iv = registerProperty SERIAL_NUMBER AssetIface ''SerialNumber'' iv;
          iv = registerProperty BOARD_PART_NUMBER AssetIface ''PartNumber'' iv;
          iv = registerProperty MARKETING_NAME AssetIface ''Model'' iv;
          iv = registerProperty DEVICE_GUID UuidIface ''UUID'' iv;
          iv = registerProperty DEVICE_PART_NUMBER RevisionIface ''Version'' iv;
          iv = (if deviceType = DEVICE_GPU then
                   let iv = set_iface_property AcceleratorIface ''Type''
                          (StrVal (text_bytes ''xyz.openbmc_project.Inventory.Item.Accelerator.AcceleratorType.GPU'')) iv;
                       iv = set_iface_property AcceleratorIface ''BoostClockFrequency'' (U64Val (- 1)) iv;
                       iv = set_iface_property AcceleratorIface ''BaseSpeedInHz'' (U64Val (- 1)) iv;
                       iv = set_iface_property AcceleratorIface ''MaxSpeedInHz'' (U64Val (- 1)) iv;
                       iv = set_iface_property AcceleratorIface ''MinSpeedInHz'' (U64Val (- 1)) iv;
                       iv = add_property DEFAULT_BOOST_CLOCKS AcceleratorIface ''BoostClockFrequency'' iv;
                       iv = add_property DEFAULT_BASE_CLOCKS AcceleratorIface ''BaseSpeedInHz'' iv;
                       iv = add_property MAX_GRAPHICS_CLOCK AcceleratorIface ''MaxSpeedInHz'' iv
                   in add_property MIN_GRAPHICS_CLOCK AcceleratorIface ''MinSpeedInHz'' iv
                 else iv);
          iv = (if powerCap then
                   let iv = add_property MIN_DEVICE_POWER_LIMIT PowerCapIface ''MinPowerCapValue'' iv;
                       iv = add_property MAX_DEVICE_POWER_LIMIT PowerCapIface ''MaxPowerCapValue'' iv
                   in add_property RATED_DEVICE_POWER_LIMIT PowerCapIface ''DefaultPowerCap'' iv
                 else iv)
      in if dram then
           let iv = add_property MAX_MEMORY_CAPACITY DramIface ''MemorySizeInKB'' iv;
               iv = add_property MIN_MEMORY_CLOCK DramIface ''AllowedSpeedsMT'' iv
           in add_property MAX_MEMORY_CLOCK DramIface ''AllowedSpeedsMT'' iv
         else iv)"

section \<open>Pending properties\<close>

definition update_info :: "inventory_property_id \<Rightarrow> (property_info \<Rightarrow> property_info) \<Rightarrow> inventory \<Rightarrow> inventory" where
  "update_info p f iv = iv\<lparr>properties := (properties iv)(p := map_option f (properties iv p))\<rparr>"

definition pending :: "inventory \<Rightarrow> inventory_property_id \<Rightarrow> bool" where
  "pending iv p \<longleftrightarrow> (case properties iv p of None \<Rightarrow> False | Some info \<Rightarrow> isPending info)"

definition markPropertyPending :: "inventory_property_id \<Rightarrow> inventory \<Rightarrow> inventory" where
  "markPropertyPending p = update_info p (\<lambda>info. info\<lparr>isPending := True, retryCount := 0\<rparr>)"

definition markPropertyProcessed :: "inventory_property_id \<Rightarrow> inventory \<Rightarrow> inventory" where
  "markPropertyProcessed p = update_info p (\<lambda>info. info\<lparr>isPending := False\<rparr>)"

definition getNextPendingProperty :: "inventory \<Rightarrow> inventory_property_id option" where
  "getNextPendingProperty iv = List.find (pending iv) (visiting iv)"

section \<open>Requests and answers\<close>

definition sendInventoryPropertyRequest :: "inventory_property_id \<Rightarrow> inventory \<Rightarrow> inventory \<times> requests" where
  "sendInventoryPropertyRequest p iv =
     (let (rc, buf) = encodeGetInventoryInformationRequest 0 (inventory_property_code p) (inv_requestBuffer iv);
          iv = iv\<lparr>inv_requestBuffer := buf\<rparr>
      in if rc \<noteq> 0 then (iv, []) else (iv, [(InventoryCallback p, buf)]))"

definition processNextProperty :: "inventory \<Rightarrow> inventory \<times> requests" where
  "processNextProperty iv =
     (case getNextPendingProperty iv of
        Some p \<Rightarrow> sendInventoryPropertyRequest p iv
      | None \<Rightarrow> (iv, []))"

definition inventory_init :: "inventory \<Rightarrow> inventory \<times> requests" where
  "inventory_init iv = processNextProperty iv"

definition processInventoryProperty :: "inventory_property_id \<Rightarrow> inventory \<Rightarrow> inventory \<times> requests" where
  "processInventoryProperty p iv =
     (case properties iv p of
        None \<Rightarrow> (iv, [])
      | Some _ \<Rightarrow>
          let iv = markPropertyPending p iv
          in if getNextPendingProperty iv = Some p then processNextProperty iv else (iv, []))"

text \<open>
  The switch over the property of a successful answer: whether it was a success, and the inventory
  after it. A text value is published after the switch, and only if it is not empty.
\<close>

definition publish_text :: "property_info \<Rightarrow> bytes \<Rightarrow> inventory \<Rightarrow> bool \<times> inventory" where
  "publish_text info s iv =
     (if s \<noteq> [] then (True, set_iface_property (info_interface info) (propertyName info) (StrVal s) iv)
      else (False, iv))"

definition publish_clock :: "inventory_property_id \<Rightarrow> property_info \<Rightarrow> u32 \<Rightarrow> inventory \<Rightarrow> inventory" where
  "publish_clock p info mhz iv =
     (let hz = ucast mhz * mhzToHzFactor;
          iv = (if p = MIN_GRAPHICS_CLOCK then iv\<lparr>minGraphicsClockHz := Some hz\<rparr>
                 else if p = MAX_GRAPHICS_CLOCK then iv\<lparr>maxGraphicsClockHz := Some hz\<rparr>
                 else iv)
      in set_iface_property (info_interface info) (propertyName info) (U64Val hz) iv)"

definition publish_power :: "inventory_property_id \<Rightarrow> property_info \<Rightarrow> u32 \<Rightarrow> inventory \<Rightarrow> inventory" where
  "publish_power p info milliwatts iv =
     (let powerLimit = milliwatts div milliwattsPerWatt;
          iv = (if p = MIN_DEVICE_POWER_LIMIT then iv\<lparr>minPowerCapWatts := Some powerLimit\<rparr>
                 else if p = MAX_DEVICE_POWER_LIMIT then iv\<lparr>maxPowerCapWatts := Some powerLimit\<rparr>
                 else iv)
      in set_iface_property (info_interface info) (propertyName info) (U32Val powerLimit) iv)"

definition publish_memory_clock :: "inventory_property_id \<Rightarrow> u32 \<Rightarrow> inventory \<Rightarrow> inventory" where
  "publish_memory_clock p mhz iv =
     (let mt = ucast (mhz * 2) :: u16;
          (lo, hi) = allowedSpeedsMT iv;
          (lo, hi) = (if p = MIN_MEMORY_CLOCK then (mt, hi) else (lo, mt))
      in set_iface_property DramIface ''AllowedSpeedsMT'' (U16sVal [lo, hi]) (iv\<lparr>allowedSpeedsMT := (lo, hi)\<rparr>))"

definition store_value ::
  "(bytes \<Rightarrow> bytes) \<Rightarrow> inventory_property_id \<Rightarrow> property_info \<Rightarrow> inventory_value \<Rightarrow> inventory \<Rightarrow> bool \<times> inventory" where
  "store_value uuid_text p info v iv =
     (if p \<in> {BOARD_PART_NUMBER, SERIAL_NUMBER, MARKETING_NAME, DEVICE_PART_NUMBER} then
        (case v of InvString s \<Rightarrow> publish_text info s iv | _ \<Rightarrow> (False, iv))
      else if p = DEVICE_GUID then
        (case v of
           InvBytes guid \<Rightarrow>
             if length guid \<ge> 16 then publish_text info (uuid_text (take 16 guid)) iv else (False, iv)
         | _ \<Rightarrow> (False, iv))
      else if p \<in> {DEFAULT_BOOST_CLOCKS, DEFAULT_BASE_CLOCKS, MIN_GRAPHICS_CLOCK, MAX_GRAPHICS_CLOCK} then
        (case v of InvU32 mhz \<Rightarrow> (True, publish_clock p info mhz iv) | _ \<Rightarrow> (False, iv))
      else if p \<in> {MIN_DEVICE_POWER_LIMIT, MAX_DEVICE_POWER_LIMIT, RATED_DEVICE_POWER_LIMIT} then
        (case v of InvU32 mw \<Rightarrow> (True, publish_power p info mw iv) | _ \<Rightarrow> (False, iv))
      else if p = MAX_MEMORY_CAPACITY then
        (case v of
           InvU32 mib \<Rightarrow> (True, set_iface_property (info_interface info) (propertyName info)
                                 (U64Val (ucast mib * 1024)) (iv\<lparr>memorySizeInMiB := Some mib\<rparr>))
         | _ \<Rightarrow> (False, iv))
      else if p \<in> {MIN_MEMORY_CLOCK, MAX_MEMORY_CLOCK} then
        (case v of
           InvU32 mhz \<Rightarrow> if hasDram iv then (True, publish_memory_clock p mhz iv) else (False, iv)
         | _ \<Rightarrow> (False, iv))
      else (False, iv))"

definition receive_value ::
  "(bytes \<Rightarrow> bytes) \<Rightarrow> inventory_property_id \<Rightarrow> property_info \<Rightarrow> error_code option \<Rightarrow> bytes \<Rightarrow> inventory \<Rightarrow> bool \<times> inventory" where
  "receive_value uuid_text p info ec buffer iv =
     (case ec of
        Some _ \<Rightarrow> (False, iv)
      | None \<Rightarrow>
          let (rc, cc, reasonCode, v) = decodeGetInventoryInformationResponse buffer 0 0 p (InvString [])
          in if rc = 0 \<and> cc = CC_SUCCESS then store_value uuid_text p info v iv else (False, iv))"

definition handleInventoryPropertyResponse ::
  "(bytes \<Rightarrow> bytes) \<Rightarrow> inventory_property_id \<Rightarrow> error_code option \<Rightarrow> bytes \<Rightarrow> inventory \<Rightarrow> inventory \<times> requests" where
  "handleInventoryPropertyResponse uuid_text p ec buffer iv =
     (case properties iv p of
        None \<Rightarrow> processNextProperty iv
      | Some info \<Rightarrow>
          let (success, iv) = receive_value uuid_text p info ec buffer iv
          in if \<not> success then
               let attempts = retryCount info + 1;
                   iv = update_info p (\<lambda>info. info\<lparr>retryCount := attempts\<rparr>) iv
               in if attempts \<ge> maxRetryAttempts then processNextProperty (markPropertyProcessed p iv)
                  else (iv\<lparr>retryTimer := True\<rparr>, [])
             else processNextProperty (markPropertyProcessed p iv))"

text \<open>The wait of the retry timer completes, with or without an error.\<close>

definition retry_timer_expired :: "inventory \<Rightarrow> inventory \<times> requests" where
  "retry_timer_expired iv = processNextProperty (iv\<lparr>retryTimer := False\<rparr>)"

end
