(* ===== verification/Gpu_Controls.thy ===== *)
theory Gpu_Controls
  imports Gpu_Inventory
begin

text \<open>
  The power and clock speed controls of a GPU (\<open>NvidiaGpuPowerControl.cpp\<close>,
  \<open>NvidiaGpuClockSpeedControl.cpp\<close>): D-Bus writes are checked against the limits of the inventory,
  collected for a debounce time and sent to the device as one request at a time; what D-Bus shows is what
  the device answered last.

  A debounce timer is two fields: whether a wait is running, and how many completed waits are queued for
  their handlers. Setting a new expiry aborts the running wait, but not a completed one: the standard
  behaviour of an asio timer. The handler of an aborted wait does nothing and is left out.
\<close>

datatype set_error = Unavailable | InvalidArgument

definition unsetPowerLimit :: u32 where "unsetPowerLimit = - 1"

section \<open>Power\<close>

record power_control =
  powerCapValue :: u32
  powerCapEnabled :: bool
  requestedPowerCapWatts :: "u32 option"
  pendingEnable :: "bool option"
  setPowerLimitInflight :: bool
  powerWait :: bool
  powerQueued :: nat
  power_requestEncoded :: bool
  getPowerLimitsRequestBuffer :: bytes
  setPowerLimitsRequestBuffer :: bytes
  power_signals :: "string list"

text \<open>The limit id is 0, the device power limit, in both requests.\<close>

definition new_power_control :: power_control where
  "new_power_control =
     (let (rc, buf) = encodeGetPowerLimitsRequest 0 0 (replicate getPowerLimitsRequestSize 0)
      in \<lparr>powerCapValue = - 1, powerCapEnabled = False, requestedPowerCapWatts = None, pendingEnable = None,
          setPowerLimitInflight = False, powerWait = False, powerQueued = 0, power_requestEncoded = (rc = 0),
          getPowerLimitsRequestBuffer = buf,
          setPowerLimitsRequestBuffer = replicate setPowerLimitsRequestSize 0, power_signals = []\<rparr>)"

definition sendGetPowerLimitsRequest :: "power_control \<Rightarrow> power_control \<times> requests" where
  "sendGetPowerLimitsRequest pc =
     (if \<not> power_requestEncoded pc then (pc, [])
      else (pc, [(GetPowerCallback, getPowerLimitsRequestBuffer pc)]))"

definition power_update :: "power_control \<Rightarrow> power_control \<times> requests" where
  "power_update pc = sendGetPowerLimitsRequest pc"

definition show_power_cap :: "u32 \<Rightarrow> power_control \<Rightarrow> power_control" where
  "show_power_cap v pc =
     (if v \<noteq> powerCapValue pc
      then pc\<lparr>powerCapValue := v, power_signals := power_signals pc @ [''PowerCap'']\<rparr> else pc)"

definition show_power_enabled :: "bool \<Rightarrow> power_control \<Rightarrow> power_control" where
  "show_power_enabled b pc =
     (if b \<noteq> powerCapEnabled pc
      then pc\<lparr>powerCapEnabled := b, power_signals := power_signals pc @ [''PowerCapEnable'']\<rparr> else pc)"

definition handleGetPowerLimitsResponse :: "error_code option \<Rightarrow> bytes \<Rightarrow> power_control \<Rightarrow> power_control" where
  "handleGetPowerLimitsResponse ec buffer pc =
     (case ec of
        Some _ \<Rightarrow> pc
      | None \<Rightarrow>
          let (rc, cc, reasonCode, persistent, oneshot, enforced) =
                decodeGetPowerLimitsResponse buffer 0 0 0 0 0
          in if rc \<noteq> 0 \<or> cc \<noteq> CC_SUCCESS then pc
             else
               let newCap = (if oneshot \<noteq> unsetPowerLimit then oneshot div milliwattsPerWatt else unsetPowerLimit);
                   newEnabled = (enforced \<noteq> unsetPowerLimit \<and> oneshot = enforced)
               in show_power_enabled newEnabled (show_power_cap newCap pc))"

definition arm_power_timer :: "power_control \<Rightarrow> power_control" where
  "arm_power_timer pc = pc\<lparr>powerWait := True\<rparr>"

definition handlePowerCapSet :: "inventory option \<Rightarrow> u32 \<Rightarrow> power_control \<Rightarrow> set_error + power_control" where
  "handlePowerCapSet inventory newCap pc =
     (case inventory of
        None \<Rightarrow> Inl Unavailable
      | Some iv \<Rightarrow>
          (case (minPowerCapWatts iv, maxPowerCapWatts iv) of
             (Some lo, Some hi) \<Rightarrow>
               if newCap < lo \<or> newCap > hi then Inl InvalidArgument
               else Inr (arm_power_timer (pc\<lparr>requestedPowerCapWatts := Some newCap\<rparr>))
           | _ \<Rightarrow> Inl Unavailable))"

definition handlePowerCapEnableSet :: "bool \<Rightarrow> power_control \<Rightarrow> power_control" where
  "handlePowerCapEnableSet newEnable pc = arm_power_timer (pc\<lparr>pendingEnable := Some newEnable\<rparr>)"

definition sendSetPowerLimitsRequest ::
  "u32 \<Rightarrow> set_power_limits_action \<Rightarrow> power_control \<Rightarrow> power_control \<times> requests" where
  "sendSetPowerLimitsRequest milliwatts action pc =
     (let (rc, buf) = encodeSetPowerLimitsRequest 0 0 action ONE_SHOT milliwatts (setPowerLimitsRequestBuffer pc);
          pc = pc\<lparr>setPowerLimitsRequestBuffer := buf\<rparr>
      in if rc \<noteq> 0 then (pc, [])
         else (pc\<lparr>setPowerLimitInflight := True\<rparr>, [(SetPowerCallback, buf)]))"

definition cap_to_enforce :: "power_control \<Rightarrow> u32 option" where
  "cap_to_enforce pc =
     (case requestedPowerCapWatts pc of
        Some w \<Rightarrow> Some w
      | None \<Rightarrow> if powerCapValue pc \<noteq> unsetPowerLimit then Some (powerCapValue pc) else None)"

definition applyPendingPowerLimit :: "power_control \<Rightarrow> power_control \<times> requests" where
  "applyPendingPowerLimit pc =
     (if setPowerLimitInflight pc then (arm_power_timer pc, [])
      else
        let enable = (case pendingEnable pc of Some b \<Rightarrow> b | None \<Rightarrow> powerCapEnabled pc);
            enableChanged = (pendingEnable pc \<noteq> None);
            capToEnforce = cap_to_enforce pc;
            pc = pc\<lparr>pendingEnable := None, requestedPowerCapWatts := None\<rparr>
        in if enable then
             (case capToEnforce of
                None \<Rightarrow> (pc, [])
              | Some w \<Rightarrow> sendSetPowerLimitsRequest (w * milliwattsPerWatt) NEW_LIMIT pc)
           else if enableChanged then sendSetPowerLimitsRequest 0 DEFAULT_LIMIT pc
           else (pc, []))"

definition handleSetPowerLimitsResponse :: "error_code option \<Rightarrow> bytes \<Rightarrow> power_control \<Rightarrow> power_control \<times> requests" where
  "handleSetPowerLimitsResponse ec buffer pc =
     (let pc = pc\<lparr>setPowerLimitInflight := False\<rparr>
      in case ec of
           Some _ \<Rightarrow> (pc, [])
         | None \<Rightarrow>
             let (rc, cc, reasonCode) = decodeSetPowerLimitsResponse buffer 0 0
             in if rc \<noteq> 0 \<or> cc \<noteq> CC_SUCCESS then (pc, []) else sendGetPowerLimitsRequest pc)"

text \<open>The running wait completes, and the handler of a completed wait runs.\<close>

definition power_wait_elapsed :: "power_control \<Rightarrow> power_control" where
  "power_wait_elapsed pc = pc\<lparr>powerWait := False, powerQueued := powerQueued pc + 1\<rparr>"

definition power_timer_handler :: "power_control \<Rightarrow> power_control \<times> requests" where
  "power_timer_handler pc = applyPendingPowerLimit (pc\<lparr>powerQueued := powerQueued pc - 1\<rparr>)"

section \<open>Clock speed\<close>

record clock_control =
  presentMaxHz :: u64
  presentMinHz :: u64
  requestedMaxHz :: u64
  requestedMinHz :: u64
  pendingMaxHz :: "u64 option"
  pendingMinHz :: "u64 option"
  setClockLimitInflight :: bool
  setClockLimitReadbackPending :: bool
  clockWait :: bool
  clockQueued :: nat
  clock_requestEncoded :: bool
  clock_requestBuffer :: bytes
  setClockLimitRequestBuffer :: bytes
  clock_signals :: "string list"

definition new_clock_control :: clock_control where
  "new_clock_control =
     (let (rc, buf) = encodeGetClockLimitRequest 0 GRAPHICS_CLOCK (replicate getClockLimitRequestSize 0)
      in \<lparr>presentMaxHz = - 1, presentMinHz = 0, requestedMaxHz = 0, requestedMinHz = 0, pendingMaxHz = None,
          pendingMinHz = None, setClockLimitInflight = False, setClockLimitReadbackPending = False,
          clockWait = False, clockQueued = 0, clock_requestEncoded = (rc = 0), clock_requestBuffer = buf,
          setClockLimitRequestBuffer = replicate setClockLimitRequestSize 0, clock_signals = []\<rparr>)"

definition sendGetClockLimitRequest :: "clock_control \<Rightarrow> clock_control \<times> requests" where
  "sendGetClockLimitRequest ck =
     (if \<not> clock_requestEncoded ck then (ck, []) else (ck, [(GetClockCallback, clock_requestBuffer ck)]))"

definition clock_update :: "clock_control \<Rightarrow> clock_control \<times> requests" where
  "clock_update ck = sendGetClockLimitRequest ck"

definition open_gate :: "clock_control \<Rightarrow> clock_control" where
  "open_gate ck =
     (if setClockLimitReadbackPending ck
      then ck\<lparr>setClockLimitReadbackPending := False, setClockLimitInflight := False\<rparr> else ck)"

definition show_requested_max :: "u64 \<Rightarrow> clock_control \<Rightarrow> clock_control" where
  "show_requested_max v ck =
     (if v \<noteq> requestedMaxHz ck
      then ck\<lparr>requestedMaxHz := v, clock_signals := clock_signals ck @ [''RequestedSpeedLimitMaxHz'']\<rparr> else ck)"

definition show_requested_min :: "u64 \<Rightarrow> clock_control \<Rightarrow> clock_control" where
  "show_requested_min v ck =
     (if v \<noteq> requestedMinHz ck
      then ck\<lparr>requestedMinHz := v, clock_signals := clock_signals ck @ [''RequestedSpeedLimitMinHz'']\<rparr> else ck)"

definition handleGetClockLimitResponse :: "error_code option \<Rightarrow> bytes \<Rightarrow> clock_control \<Rightarrow> clock_control" where
  "handleGetClockLimitResponse ec buffer ck =
     (let ck = open_gate ck
      in case ec of
           Some _ \<Rightarrow> ck
         | None \<Rightarrow>
             let (rc, cc, reasonCode, requestedMin, requestedMax, presentMin, presentMax) =
                   decodeGetClockLimitResponse buffer 0 0 0 0 0 0
             in if rc \<noteq> 0 \<or> cc \<noteq> CC_SUCCESS then ck
                else
                  let ck = ck\<lparr>presentMaxHz := ucast presentMax * mhzToHzFactor,
                              presentMinHz := ucast presentMin * mhzToHzFactor\<rparr>
                  in show_requested_min (ucast requestedMin * mhzToHzFactor)
                       (show_requested_max (ucast requestedMax * mhzToHzFactor) ck))"

definition arm_clock_timer :: "clock_control \<Rightarrow> clock_control" where
  "arm_clock_timer ck = ck\<lparr>clockWait := True\<rparr>"

definition check_speed :: "inventory option \<Rightarrow> u64 \<Rightarrow> set_error + unit" where
  "check_speed inventory newHz =
     (case inventory of
        None \<Rightarrow> Inl Unavailable
      | Some iv \<Rightarrow>
          (case (minGraphicsClockHz iv, maxGraphicsClockHz iv) of
             (Some lo, Some hi) \<Rightarrow> if newHz < lo \<or> newHz > hi then Inl InvalidArgument else Inr ()
           | _ \<Rightarrow> Inl Unavailable))"

definition handleRequestedSpeedLimitMaxHzSet ::
  "inventory option \<Rightarrow> u64 \<Rightarrow> clock_control \<Rightarrow> set_error + clock_control" where
  "handleRequestedSpeedLimitMaxHzSet inventory newMaxHz ck =
     (case check_speed inventory newMaxHz of
        Inl e \<Rightarrow> Inl e
      | Inr _ \<Rightarrow> Inr (arm_clock_timer (ck\<lparr>pendingMaxHz := Some newMaxHz\<rparr>)))"

definition handleRequestedSpeedLimitMinHzSet ::
  "inventory option \<Rightarrow> u64 \<Rightarrow> clock_control \<Rightarrow> set_error + clock_control" where
  "handleRequestedSpeedLimitMinHzSet inventory newMinHz ck =
     (case check_speed inventory newMinHz of
        Inl e \<Rightarrow> Inl e
      | Inr _ \<Rightarrow> Inr (arm_clock_timer (ck\<lparr>pendingMinHz := Some newMinHz\<rparr>)))"

definition sendSetClockLimitRequest :: "u32 \<Rightarrow> u32 \<Rightarrow> clock_control \<Rightarrow> clock_control \<times> requests" where
  "sendSetClockLimitRequest limitMinMHz limitMaxMHz ck =
     (let (rc, buf) = encodeSetClockLimitRequest 0 GRAPHICS_CLOCK PERSISTENCE limitMinMHz limitMaxMHz
                        (setClockLimitRequestBuffer ck);
          ck = ck\<lparr>setClockLimitRequestBuffer := buf\<rparr>
      in if rc \<noteq> 0 then (ck, [])
         else (ck\<lparr>setClockLimitInflight := True\<rparr>, [(SetClockCallback, buf)]))"

definition applyPendingClockLimit :: "clock_control \<Rightarrow> clock_control \<times> requests" where
  "applyPendingClockLimit ck =
     (if setClockLimitInflight ck then (arm_clock_timer ck, [])
      else
        let minHz = (case pendingMinHz ck of Some v \<Rightarrow> v | None \<Rightarrow> requestedMinHz ck);
            maxHz = (case pendingMaxHz ck of Some v \<Rightarrow> v | None \<Rightarrow> requestedMaxHz ck);
            ck = ck\<lparr>pendingMinHz := None, pendingMaxHz := None\<rparr>
        in sendSetClockLimitRequest (ucast (minHz div mhzToHzFactor)) (ucast (maxHz div mhzToHzFactor)) ck)"

definition handleSetClockLimitResponse :: "error_code option \<Rightarrow> bytes \<Rightarrow> clock_control \<Rightarrow> clock_control \<times> requests" where
  "handleSetClockLimitResponse ec buffer ck =
     (case ec of
        Some _ \<Rightarrow> (ck\<lparr>setClockLimitInflight := False\<rparr>, [])
      | None \<Rightarrow>
          let (rc, cc, reasonCode) = decodeSetClockLimitResponse buffer 0 0
          in if rc \<noteq> 0 \<or> cc \<noteq> CC_SUCCESS then (ck\<lparr>setClockLimitInflight := False\<rparr>, [])
             else if \<not> clock_requestEncoded ck then (ck\<lparr>setClockLimitInflight := False\<rparr>, [])
             else sendGetClockLimitRequest (ck\<lparr>setClockLimitReadbackPending := True\<rparr>))"

definition clock_wait_elapsed :: "clock_control \<Rightarrow> clock_control" where
  "clock_wait_elapsed ck = ck\<lparr>clockWait := False, clockQueued := clockQueued ck + 1\<rparr>"

definition clock_timer_handler :: "clock_control \<Rightarrow> clock_control \<times> requests" where
  "clock_timer_handler ck = applyPendingClockLimit (ck\<lparr>clockQueued := clockQueued ck - 1\<rparr>)"

section \<open>The device\<close>

text \<open>
  The inventory and the two controls of a \<open>GpuDevice\<close>, and the requests that wait for their
  answers. The requester answers the requests of an EID in the order they were submitted (theory
  \<open>Mctp_Requester_Correct\<close>), so the next answer is for the first one; the requests of the other
  parts of the device only come in between. \<open>sent\<close> records every request. The answer is an error or the
  received bytes.
\<close>

record gpu_device =
  dev_inventory :: inventory
  powerControl :: power_control
  clockControl :: clock_control
  waiting_requests :: requests
  sent :: requests

definition submit_requests :: "requests \<Rightarrow> gpu_device \<Rightarrow> gpu_device" where
  "submit_requests rs d = d\<lparr>waiting_requests := waiting_requests d @ rs, sent := sent d @ rs\<rparr>"

definition on_inventory :: "(inventory \<Rightarrow> inventory \<times> requests) \<Rightarrow> gpu_device \<Rightarrow> gpu_device" where
  "on_inventory f d = (let (iv, rs) = f (dev_inventory d) in submit_requests rs (d\<lparr>dev_inventory := iv\<rparr>))"

definition on_power :: "(power_control \<Rightarrow> power_control \<times> requests) \<Rightarrow> gpu_device \<Rightarrow> gpu_device" where
  "on_power f d = (let (pc, rs) = f (powerControl d) in submit_requests rs (d\<lparr>powerControl := pc\<rparr>))"

definition on_clock :: "(clock_control \<Rightarrow> clock_control \<times> requests) \<Rightarrow> gpu_device \<Rightarrow> gpu_device" where
  "on_clock f d = (let (ck, rs) = f (clockControl d) in submit_requests rs (d\<lparr>clockControl := ck\<rparr>))"

text \<open>\<open>GpuDevice::read\<close>, as far as it polls the controls.\<close>

definition device_read :: "gpu_device \<Rightarrow> gpu_device" where
  "device_read d = on_clock clock_update (on_power power_update d)"

text \<open>\<open>GpuDevice::init\<close>: the inventory is made and started before the controls, which are polled at once.\<close>

definition new_gpu_device :: "inventory_property_id list \<Rightarrow> gpu_device" where
  "new_gpu_device visit =
     device_read (on_inventory inventory_init
       \<lparr>dev_inventory = new_inventory DEVICE_GPU True True visit, powerControl = new_power_control,
        clockControl = new_clock_control, waiting_requests = [], sent = []\<rparr>)"

datatype gpu_event =
    Answered "error_code option" bytes
  | RetryTimerExpired
  | PowerWaitElapsed | PowerHandlerRuns
  | ClockWaitElapsed | ClockHandlerRuns
  | PowerCapWritten u32 | PowerCapEnableWritten bool
  | MaxHzWritten u64 | MinHzWritten u64
  | Polled

definition answer :: "(bytes \<Rightarrow> bytes) \<Rightarrow> callback \<Rightarrow> error_code option \<Rightarrow> bytes \<Rightarrow> gpu_device \<Rightarrow> gpu_device" where
  "answer uuid_text cb ec buffer d =
     (case cb of
        InventoryCallback p \<Rightarrow> on_inventory (handleInventoryPropertyResponse uuid_text p ec buffer) d
      | GetPowerCallback \<Rightarrow> on_power (\<lambda>pc. (handleGetPowerLimitsResponse ec buffer pc, [])) d
      | SetPowerCallback \<Rightarrow> on_power (handleSetPowerLimitsResponse ec buffer) d
      | GetClockCallback \<Rightarrow> on_clock (\<lambda>ck. (handleGetClockLimitResponse ec buffer ck, [])) d
      | SetClockCallback \<Rightarrow> on_clock (handleSetClockLimitResponse ec buffer) d)"

text \<open>The events of a device; None if the event cannot happen. A refused write changes nothing.\<close>

fun on_gpu_event :: "(bytes \<Rightarrow> bytes) \<Rightarrow> gpu_event \<Rightarrow> gpu_device \<Rightarrow> gpu_device option" where
  "on_gpu_event uuid_text (Answered ec buffer) d =
     (case waiting_requests d of
        [] \<Rightarrow> None
      | (cb, _) # rest \<Rightarrow> Some (answer uuid_text cb ec buffer (d\<lparr>waiting_requests := rest\<rparr>)))"
| "on_gpu_event uuid_text RetryTimerExpired d =
     (if retryTimer (dev_inventory d) then Some (on_inventory retry_timer_expired d) else None)"
| "on_gpu_event uuid_text PowerWaitElapsed d =
     (if powerWait (powerControl d) then Some (d\<lparr>powerControl := power_wait_elapsed (powerControl d)\<rparr>) else None)"
| "on_gpu_event uuid_text PowerHandlerRuns d =
     (if powerQueued (powerControl d) > 0 then Some (on_power power_timer_handler d) else None)"
| "on_gpu_event uuid_text ClockWaitElapsed d =
     (if clockWait (clockControl d) then Some (d\<lparr>clockControl := clock_wait_elapsed (clockControl d)\<rparr>) else None)"
| "on_gpu_event uuid_text ClockHandlerRuns d =
     (if clockQueued (clockControl d) > 0 then Some (on_clock clock_timer_handler d) else None)"
| "on_gpu_event uuid_text (PowerCapWritten w) d =
     Some (case handlePowerCapSet (Some (dev_inventory d)) w (powerControl d) of
             Inl _ \<Rightarrow> d | Inr pc \<Rightarrow> d\<lparr>powerControl := pc\<rparr>)"
| "on_gpu_event uuid_text (PowerCapEnableWritten b) d =
     Some (d\<lparr>powerControl := handlePowerCapEnableSet b (powerControl d)\<rparr>)"
| "on_gpu_event uuid_text (MaxHzWritten v) d =
     Some (case handleRequestedSpeedLimitMaxHzSet (Some (dev_inventory d)) v (clockControl d) of
             Inl _ \<Rightarrow> d | Inr ck \<Rightarrow> d\<lparr>clockControl := ck\<rparr>)"
| "on_gpu_event uuid_text (MinHzWritten v) d =
     Some (case handleRequestedSpeedLimitMinHzSet (Some (dev_inventory d)) v (clockControl d) of
             Inl _ \<Rightarrow> d | Inr ck \<Rightarrow> d\<lparr>clockControl := ck\<rparr>)"
| "on_gpu_event uuid_text Polled d = Some (device_read d)"

fun gpu_run :: "(bytes \<Rightarrow> bytes) \<Rightarrow> gpu_event list \<Rightarrow> gpu_device \<Rightarrow> gpu_device option" where
  "gpu_run uuid_text [] d = Some d"
| "gpu_run uuid_text (e # es) d =
     (case on_gpu_event uuid_text e d of None \<Rightarrow> None | Some d' \<Rightarrow> gpu_run uuid_text es d')"

end
