(* ===== verification/Gpu_Inventory_Correct.thy ===== *)
theory Gpu_Inventory_Correct
  imports Gpu_Inventory
begin

text \<open>
  The inventory makes progress and finishes: its requests, its attempts, and the limits it hands to the
  controls.
\<close>

section \<open>Requests\<close>

definition inventory_frame :: "inventory_property_id \<Rightarrow> bytes" where
  "inventory_frame p = request_bytes PLATFORM_ENVIRONMENTAL
     (platform_environmental_code GET_INVENTORY_INFORMATION) 0 [inventory_property_code p]"

lemma encodes_fit:
  assumes "encodes 0 frame buf res" and "length buf = length frame"
  shows "res = (0, frame)"
  using assms by (simp add: encodes_def)

lemma length_inventory_frame [simp]: "length (inventory_frame p) = getInventoryInformationRequestSize"
  by (simp add: inventory_frame_def length_request_bytes)

lemma inventory_request:
  assumes "length buf = getInventoryInformationRequestSize"
  shows "encodeGetInventoryInformationRequest 0 (inventory_property_code p) buf = (0, inventory_frame p)"
  unfolding inventory_frame_def
  by (rule encodes_fit [OF encodeGetInventoryInformationRequest_encodes])
    (simp only: assms length_inventory_frame flip: inventory_frame_def)

definition next_request :: "inventory \<Rightarrow> requests" where
  "next_request iv = (case getNextPendingProperty iv of
     None \<Rightarrow> [] | Some p \<Rightarrow> [(InventoryCallback p, inventory_frame p)])"

lemma processNextProperty_eq:
  assumes "length (inv_requestBuffer iv) = getInventoryInformationRequestSize"
  shows "processNextProperty iv = (iv\<lparr>inv_requestBuffer :=
     (case getNextPendingProperty iv of None \<Rightarrow> inv_requestBuffer iv | Some p \<Rightarrow> inventory_frame p)\<rparr>, next_request iv)"
  using assms
  by (simp add: processNextProperty_def sendInventoryPropertyRequest_def inventory_request next_request_def
      split: option.split)

section \<open>Storing a value\<close>

text \<open>What the steps of an inventory never touch, and what storing a value leaves alone.\<close>

lemmas publish_defs = publish_text_def publish_clock_def publish_power_def publish_memory_clock_def set_iface_property_def

lemma store_value_frame:
  assumes "store_value uuid_text p info v iv = (b, iv')"
  shows "properties iv' = properties iv \<and> visiting iv' = visiting iv \<and> retryTimer iv' = retryTimer iv \<and>
     inv_requestBuffer iv' = inv_requestBuffer iv \<and> hasDram iv' = hasDram iv \<and> (\<not> b \<longrightarrow> iv' = iv)"
  using assms unfolding store_value_def
  by (cases p; cases v) (auto simp: publish_defs Let_def split: if_splits prod.splits)

text \<open>The limits the controls ask for, as numbers: watts and hertz.\<close>

definition limit :: "inventory_property_id \<Rightarrow> inventory \<Rightarrow> nat option" where
  "limit p iv =
     (if p = MIN_DEVICE_POWER_LIMIT then map_option unat (minPowerCapWatts iv)
      else if p = MAX_DEVICE_POWER_LIMIT then map_option unat (maxPowerCapWatts iv)
      else if p = MIN_GRAPHICS_CLOCK then map_option unat (minGraphicsClockHz iv)
      else if p = MAX_GRAPHICS_CLOCK then map_option unat (maxGraphicsClockHz iv)
      else None)"

definition reported :: "inventory_property_id \<Rightarrow> u32 \<Rightarrow> nat" where
  "reported p x = (if p \<in> {MIN_DEVICE_POWER_LIMIT, MAX_DEVICE_POWER_LIMIT} then unat x div 1000 else unat x * 1000000)"

lemma unat_watts: "unat (mw div milliwattsPerWatt) = unat mw div 1000"
  by (simp add: unat_div milliwattsPerWatt_def)

lemma unat_hertz: "unat (ucast (mhz :: u32) * mhzToHzFactor) = unat mhz * 1000000"
proof -
  have small: "unat mhz < 2 ^ 32" using unsigned_less [of mhz] by simp
  then have u: "unat (ucast mhz :: u64) = unat mhz"
    by (simp add: unsigned_ucast_eq take_bit_nat_eq_self)
  have "unat (ucast mhz :: u64) * unat mhzToHzFactor < 2 ^ LENGTH(64)"
    using small by (simp add: u mhzToHzFactor_def)
  then have "unat (ucast mhz * mhzToHzFactor) = unat (ucast mhz :: u64) * unat mhzToHzFactor"
    by (rule unat_mult_lem [THEN iffD1])
  then show ?thesis by (simp add: u mhzToHzFactor_def)
qed

lemma limit_publish:
  "limit q (publish_clock p info m iv) = limit q iv \<or> q = p \<and> limit q (publish_clock p info m iv) = Some (reported p m)"
  "limit q (publish_power p info m iv) = limit q iv \<or> q = p \<and> limit q (publish_power p info m iv) = Some (reported p m)"
  "limit q (publish_memory_clock p m iv) = limit q iv"
  "limit q (set_iface_property i nm x iv) = limit q iv"
  "limit q (iv\<lparr>memorySizeInMiB := y\<rparr>) = limit q iv"
  by (auto simp: limit_def reported_def publish_defs Let_def unat_watts unat_hertz split: prod.splits)

lemma store_value_shape:
  assumes "store_value uuid_text p info v iv = (b, iv')"
  shows "\<not> b \<and> iv' = iv \<or>
    b \<and> ((\<exists>i nm x. iv' = set_iface_property i nm x iv) \<or> (\<exists>m. iv' = publish_clock p info m iv) \<or>
         (\<exists>m. iv' = publish_power p info m iv) \<or> (\<exists>m. iv' = publish_memory_clock p m iv) \<or>
         (\<exists>i nm x m. iv' = set_iface_property i nm x (iv\<lparr>memorySizeInMiB := Some m\<rparr>)))"
  using assms unfolding store_value_def publish_text_def
  by (cases v) (simp only: inventory_value.case split: if_split_asm; simp; blast)+

lemma store_value_limit:
  assumes "store_value uuid_text p info v iv = (b, iv')"
  shows "limit q iv' = limit q iv \<or> b \<and> q = p \<and> (\<exists>x. limit q iv' = Some (reported q x))"
  using store_value_shape [OF assms]
proof (elim disjE conjE exE)
  fix m
  assume "b" "iv' = publish_clock p info m iv"
  then show ?thesis using limit_publish(1) [of q p info m iv] by metis
next
  fix m
  assume "b" "iv' = publish_power p info m iv"
  then show ?thesis using limit_publish(2) [of q p info m iv] by metis
qed (simp_all add: limit_publish)

lemma receive_value_cases:
  "receive_value uuid_text p info ec buffer iv = (False, iv) \<or>
   (\<exists>v. receive_value uuid_text p info ec buffer iv = store_value uuid_text p info v iv)"
proof (cases ec)
  case None
  obtain rc cc rs v where d: "decodeGetInventoryInformationResponse buffer 0 0 p (InvString []) = (rc, cc, rs, v)"
    by (metis surj_pair)
  then have "receive_value uuid_text p info ec buffer iv =
      (if rc = 0 \<and> cc = CC_SUCCESS then store_value uuid_text p info v iv else (False, iv))"
    by (simp only: None receive_value_def option.case d Let_def prod.case)
  then show ?thesis by metis
qed (simp add: receive_value_def)

lemma receive_value_frame:
  assumes "receive_value uuid_text p info ec buffer iv = (b, iv')"
  shows "properties iv' = properties iv \<and> visiting iv' = visiting iv \<and> retryTimer iv' = retryTimer iv \<and>
     inv_requestBuffer iv' = inv_requestBuffer iv \<and> hasDram iv' = hasDram iv \<and> (\<not> b \<longrightarrow> iv' = iv)"
  using receive_value_cases [of uuid_text p info ec buffer iv]
proof (elim disjE exE)
  fix v
  assume "receive_value uuid_text p info ec buffer iv = store_value uuid_text p info v iv"
  then show ?thesis using assms by (intro store_value_frame [of uuid_text p info v]) simp
qed (use assms in simp)

lemma receive_value_limit:
  assumes "receive_value uuid_text p info ec buffer iv = (b, iv')"
  shows "limit q iv' = limit q iv \<or> b \<and> q = p \<and> (\<exists>x. limit q iv' = Some (reported q x))"
  using receive_value_cases [of uuid_text p info ec buffer iv]
proof (elim disjE exE)
  fix v
  assume "receive_value uuid_text p info ec buffer iv = store_value uuid_text p info v iv"
  then show ?thesis using assms store_value_limit by metis
qed (use assms in simp)

section \<open>The invariant\<close>

definition info_ok :: "property_info \<Rightarrow> bool" where
  "info_ok info \<longleftrightarrow> 0 \<le> retryCount info \<and> retryCount info \<le> maxRetryAttempts \<and>
     (isPending info \<longrightarrow> retryCount info < maxRetryAttempts)"

definition inventory_core :: "inventory \<Rightarrow> bool" where
  "inventory_core iv \<longleftrightarrow>
     length (inv_requestBuffer iv) = getInventoryInformationRequestSize \<and>
     (\<forall>p. pending iv p \<longrightarrow> p \<in> set (visiting iv)) \<and>
     (\<forall>p info. properties iv p = Some info \<longrightarrow> info_ok info) \<and>
     (\<forall>p x. limit p iv = Some x \<longrightarrow> \<not> pending iv p \<and> (\<exists>m. x = reported p m))"

definition inventory_ok :: "inventory \<Rightarrow> requests \<Rightarrow> bool" where
  "inventory_ok iv q \<longleftrightarrow> inventory_core iv \<and>
     q = (if retryTimer iv then [] else next_request iv) \<and>
     (retryTimer iv \<longrightarrow> getNextPendingProperty iv \<noteq> None)"

definition credit :: "inventory \<Rightarrow> inventory_property_id \<Rightarrow> nat" where
  "credit iv p =
     (case properties iv p of
        None \<Rightarrow> 0
      | Some info \<Rightarrow> if isPending info then nat (2 * (maxRetryAttempts - retryCount info) - 1) else 0)"

definition potential :: "inventory \<Rightarrow> nat" where
  "potential iv = sum_list (map (credit iv) (visiting iv)) + (if retryTimer iv then 1 else 0)"

lemma sum_list_drop:
  assumes "p \<in> set xs" and "\<And>r. r \<noteq> p \<Longrightarrow> g r = (f r :: nat)" and "g p + k \<le> f p"
  shows "sum_list (map g xs) + k \<le> sum_list (map f xs)"
proof -
  have le: "g r \<le> f r" for r using assms(2,3) by (cases "r = p") auto
  obtain us vs where xs: "xs = us @ p # vs" using assms(1) by (meson split_list)
  have "sum_list (map g us) \<le> sum_list (map f us)" "sum_list (map g vs) \<le> sum_list (map f vs)"
    by (intro sum_list_mono le)+
  then show ?thesis using assms(3) xs by simp
qed

lemma next_pending: "getNextPendingProperty iv = Some p \<Longrightarrow> pending iv p \<and> p \<in> set (visiting iv)"
  unfolding getNextPendingProperty_def find_Some_iff by (metis nth_mem)

lemma next_none: "inventory_core iv \<Longrightarrow> getNextPendingProperty iv = None \<longleftrightarrow> (\<forall>p. \<not> pending iv p)"
  unfolding getNextPendingProperty_def find_None_iff inventory_core_def by blast

text \<open>Changes that are only visible in what is not a property.\<close>

lemma same_properties:
  assumes "properties iv' = properties iv" and "visiting iv' = visiting iv"
  shows "pending iv' = pending iv" "getNextPendingProperty iv' = getNextPendingProperty iv"
    "next_request iv' = next_request iv" "credit iv' = credit iv"
proof -
  show p: "pending iv' = pending iv" by (simp add: fun_eq_iff pending_def assms)
  show n: "getNextPendingProperty iv' = getNextPendingProperty iv" by (simp add: getNextPendingProperty_def p assms)
  show "next_request iv' = next_request iv" by (simp add: next_request_def n)
  show "credit iv' = credit iv" by (simp add: fun_eq_iff credit_def assms)
qed

lemma unrelated_updates [simp]:
  "pending (iv\<lparr>inv_requestBuffer := x\<rparr>) = pending iv" "pending (iv\<lparr>retryTimer := t\<rparr>) = pending iv"
  "getNextPendingProperty (iv\<lparr>inv_requestBuffer := x\<rparr>) = getNextPendingProperty iv"
  "getNextPendingProperty (iv\<lparr>retryTimer := t\<rparr>) = getNextPendingProperty iv"
  "next_request (iv\<lparr>inv_requestBuffer := x\<rparr>) = next_request iv" "next_request (iv\<lparr>retryTimer := t\<rparr>) = next_request iv"
  "credit (iv\<lparr>inv_requestBuffer := x\<rparr>) = credit iv" "credit (iv\<lparr>retryTimer := t\<rparr>) = credit iv"
  by (rule same_properties; simp)+

lemma limit_other [simp]:
  "limit p (iv\<lparr>inv_requestBuffer := x\<rparr>) = limit p iv"
  "limit p (iv\<lparr>retryTimer := t\<rparr>) = limit p iv"
  "limit p (update_info r f iv) = limit p iv"
  by (simp_all add: limit_def update_info_def)

lemma core_timer [simp]: "inventory_core (iv\<lparr>retryTimer := t\<rparr>) \<longleftrightarrow> inventory_core iv"
  by (simp add: inventory_core_def)

lemma core_buffer:
  assumes "inventory_core iv" and "length buf = getInventoryInformationRequestSize"
  shows "inventory_core (iv\<lparr>inv_requestBuffer := buf\<rparr>)"
  using assms by (simp add: inventory_core_def)

lemma next_step:
  assumes core: "inventory_core iv" and "\<not> retryTimer iv" and "processNextProperty iv = (iv', q')"
  shows "inventory_ok iv' q' \<and> potential iv' = potential iv \<and> (\<forall>p. limit p iv' = limit p iv)"
proof -
  have l: "length (inv_requestBuffer iv) = getInventoryInformationRequestSize"
    using core by (simp only: inventory_core_def)
  define buf where "buf = (case getNextPendingProperty iv of None \<Rightarrow> inv_requestBuffer iv | Some p \<Rightarrow> inventory_frame p)"
  have iv': "iv' = iv\<lparr>inv_requestBuffer := buf\<rparr>" and q': "q' = next_request iv"
    using assms(3) processNextProperty_eq [OF l] by (simp_all add: buf_def)
  have "length buf = getInventoryInformationRequestSize"
    by (cases "getNextPendingProperty iv") (simp_all only: buf_def l length_inventory_frame option.case)
  then have "inventory_core iv'" unfolding iv' by (rule core_buffer [OF core])
  then show ?thesis
    using assms(2) by (simp add: inventory_ok_def iv' q' potential_def)
qed

text \<open>The property an answer is for.\<close>

lemma update_info_pending:
  "pending (update_info p f iv) r \<longleftrightarrow>
     (if r = p then (case properties iv p of None \<Rightarrow> False | Some info \<Rightarrow> isPending (f info)) else pending iv r)"
  by (simp add: pending_def update_info_def split: option.splits)

lemma core_update:
  assumes core: "inventory_core iv" and ok: "\<And>info. properties iv p = Some info \<Longrightarrow> info_ok (f info)"
    and still: "\<And>info. isPending (f info) \<Longrightarrow> isPending info"
  shows "inventory_core (update_info p f iv)"
proof -
  have less: "pending (update_info p f iv) r \<Longrightarrow> pending iv r" for r
    using still by (cases "r = p") (auto simp: pending_def update_info_def split: option.splits)
  show ?thesis
    unfolding inventory_core_def
  proof (intro conjI allI impI)
    show "length (inv_requestBuffer (update_info p f iv)) = getInventoryInformationRequestSize"
      using core by (simp add: inventory_core_def update_info_def)
    show "r \<in> set (visiting (update_info p f iv))" if "pending (update_info p f iv) r" for r
      using less [OF that] core by (simp add: inventory_core_def update_info_def)
    show "info_ok info" if "properties (update_info p f iv) r = Some info" for r info
      using that ok core by (auto simp: inventory_core_def update_info_def split: if_splits)
    show "\<not> pending (update_info p f iv) r" if "limit r (update_info p f iv) = Some x" for r x
      using less [of r] that core unfolding inventory_core_def limit_other by meson
    show "\<exists>m. x = reported r m" if "limit r (update_info p f iv) = Some x" for r x
      using that core by (auto simp: inventory_core_def)
  qed
qed


lemma update_info_twice: "update_info p g (update_info p f iv) = update_info p (g \<circ> f) iv"
  by (simp add: update_info_def option.map_comp)

lemma potential_update:
  assumes "p \<in> set (visiting iv)" and "credit (update_info p f iv) p + k \<le> credit iv p"
  shows "potential (update_info p f iv) + k \<le> potential iv"
proof -
  have "credit (update_info p f iv) r = credit iv r" if "r \<noteq> p" for r
    using that by (simp add: credit_def update_info_def)
  then have "sum_list (map (credit (update_info p f iv)) (visiting iv)) + k \<le> sum_list (map (credit iv) (visiting iv))"
    using sum_list_drop [OF assms(1)] assms(2) by blast
  then show ?thesis by (simp add: potential_def update_info_def)
qed

lemma credit_pending:
  assumes "properties iv p = Some info" and "isPending info" and "info_ok info"
  shows "credit iv p = nat (2 * (maxRetryAttempts - retryCount info) - 1)" and "credit iv p \<ge> 1"
proof -
  show c: "credit iv p = nat (2 * (maxRetryAttempts - retryCount info) - 1)" using assms by (simp add: credit_def)
  have "retryCount info \<le> 2" using assms by (simp add: info_ok_def maxRetryAttempts_def)
  then have "1 \<le> 2 * (maxRetryAttempts - retryCount info) - 1" by (simp add: maxRetryAttempts_def)
  then show "credit iv p \<ge> 1" unfolding c by linarith
qed

text \<open>The property is finished: answered, or given up. The value stored for it is not yet a limit the
  invariant allows, for the property is pending until it is marked.\<close>

definition stored_for :: "inventory_property_id \<Rightarrow> inventory \<Rightarrow> inventory \<Rightarrow> bool" where
  "stored_for p iv iv' \<longleftrightarrow> properties iv' = properties iv \<and> visiting iv' = visiting iv \<and>
     retryTimer iv' = retryTimer iv \<and> inv_requestBuffer iv' = inv_requestBuffer iv \<and>
     (\<forall>q. limit q iv' = limit q iv \<or> q = p \<and> (\<exists>x. limit q iv' = Some (reported q x)))"

lemma stored_for_refl: "stored_for p iv iv"
  by (simp add: stored_for_def)

lemma receive_stored:
  assumes "receive_value uuid_text p info ec buffer iv = (b, iv')"
  shows "stored_for p iv iv'"
  using receive_value_frame [OF assms] receive_value_limit [OF assms] by (simp add: stored_for_def) blast

lemma finish_core:
  assumes core: "inventory_core iv" and st: "stored_for p iv iv1"
    and f: "\<And>info. properties iv p = Some info \<Longrightarrow> info_ok (f info) \<and> \<not> isPending (f info)"
  shows "inventory_core (update_info p f iv1)"
proof -
  have props: "properties iv1 = properties iv" "visiting iv1 = visiting iv"
    and buf: "inv_requestBuffer iv1 = inv_requestBuffer iv"
    using st by (simp_all add: stored_for_def)
  have pend: "pending (update_info p f iv1) r \<Longrightarrow> r \<noteq> p \<and> pending iv r" for r
    using f by (cases "r = p") (auto simp: pending_def update_info_def props split: option.splits)
  show ?thesis
    unfolding inventory_core_def
  proof (intro conjI allI impI)
    show "length (inv_requestBuffer (update_info p f iv1)) = getInventoryInformationRequestSize"
      using core by (simp add: inventory_core_def update_info_def buf)
    show "r \<in> set (visiting (update_info p f iv1))" if "pending (update_info p f iv1) r" for r
      using pend [OF that] core by (simp add: inventory_core_def update_info_def props)
    show "info_ok info" if "properties (update_info p f iv1) r = Some info" for r info
      using that f core by (auto simp: inventory_core_def update_info_def props split: if_splits)
    show "\<not> pending (update_info p f iv1) r" if "limit r (update_info p f iv1) = Some x" for r x
      using pend [of r] that st core unfolding inventory_core_def stored_for_def limit_other by metis
    show "\<exists>m. x = reported r m" if "limit r (update_info p f iv1) = Some x" for r x
      using that st core unfolding inventory_core_def stored_for_def limit_other by (metis option.inject)
  qed
qed

lemma finish_step:
  assumes core: "inventory_core iv" and timer: "\<not> retryTimer iv" and st: "stored_for p iv iv1"
    and p: "properties iv p = Some info" "isPending info" "p \<in> set (visiting iv)"
    and f: "info_ok (f info) \<and> \<not> isPending (f info)"
    and res: "processNextProperty (update_info p f iv1) = (iv', q')"
  shows "inventory_ok iv' q' \<and> potential iv' < potential iv \<and> (\<forall>r. limit r iv' = limit r iv1)"
proof -
  have ok: "info_ok info" using core p(1) unfolding inventory_core_def by blast
  have props: "properties iv1 = properties iv" "visiting iv1 = visiting iv" "retryTimer iv1 = retryTimer iv"
    using st by (simp_all add: stored_for_def)
  have core': "inventory_core (update_info p f iv1)" using finish_core [OF core st] f p(1) by simp
  have "\<not> retryTimer (update_info p f iv1)" using timer by (simp add: update_info_def props)
  note n = next_step [OF core' this res]
  have credits: "credit iv1 = credit iv" using props by (simp add: credit_def fun_eq_iff)
  then have "potential iv1 = potential iv" using props by (simp add: potential_def)
  moreover have "credit (update_info p f iv1) p = 0"
    using f by (simp add: credit_def update_info_def props p(1))
  then have "potential (update_info p f iv1) + 1 \<le> potential iv1"
    using credit_pending(2) [OF p(1,2) ok] p(3) by (intro potential_update) (simp_all add: credits props)
  ultimately show ?thesis using n by simp
qed

section \<open>Steps\<close>

definition limits_kept :: "inventory \<Rightarrow> inventory \<Rightarrow> bool" where
  "limits_kept iv iv' \<longleftrightarrow> (\<forall>p x. limit p iv = Some x \<longrightarrow> limit p iv' = Some x)"

lemma retry_step:
  assumes core: "inventory_core iv" and p: "properties iv p = Some info" "isPending info" "p \<in> set (visiting iv)"
    and less: "retryCount info + 1 < maxRetryAttempts" and timer: "\<not> retryTimer iv"
    and iv': "iv' = (update_info p (\<lambda>i. i\<lparr>retryCount := retryCount info + 1\<rparr>) iv)\<lparr>retryTimer := True\<rparr>"
  shows "inventory_ok iv' [] \<and> potential iv' < potential iv \<and> (\<forall>r. limit r iv' = limit r iv)"
proof -
  let ?f = "\<lambda>i :: property_info. i\<lparr>retryCount := retryCount info + 1\<rparr>"
  have ok: "info_ok info" using core p(1) unfolding inventory_core_def by blast
  have core': "inventory_core (update_info p ?f iv)"
  proof (rule core_update [OF core])
    show "info_ok (?f i)" if "properties iv p = Some i" for i
      using that p(1) ok less by (simp add: info_ok_def)
  qed simp
  have "pending (update_info p ?f iv) p" by (simp add: update_info_pending p)
  then have "getNextPendingProperty (update_info p ?f iv) \<noteq> None" using next_none [OF core'] by blast
  then have "inventory_ok iv' []" by (simp add: inventory_ok_def iv' core')
  moreover have "credit (update_info p ?f iv) p + 2 \<le> credit iv p"
    using p less ok by (simp add: credit_def update_info_def maxRetryAttempts_def info_ok_def)
  then have "potential (update_info p ?f iv) + 2 \<le> potential iv"
    by (rule potential_update [OF p(3)])
  moreover have "potential iv' = potential (update_info p ?f iv) + 1"
    using timer by (simp add: iv' potential_def update_info_def credit_def)
  ultimately show ?thesis by (simp add: iv')
qed

lemma answer_step:
  assumes ok: "inventory_ok iv [(InventoryCallback p, fr)]"
    and res: "handleInventoryPropertyResponse uuid_text p ec buffer iv = (iv', q')"
  shows "inventory_ok iv' q' \<and> potential iv' < potential iv \<and> limits_kept iv iv'"
proof -
  have core: "inventory_core iv" and timer: "\<not> retryTimer iv" and nx: "next_request iv = [(InventoryCallback p, fr)]"
    using ok by (auto simp: inventory_ok_def split: if_splits)
  then have "getNextPendingProperty iv = Some p" by (auto simp: next_request_def split: option.splits)
  then have pend: "pending iv p" "p \<in> set (visiting iv)" using next_pending by auto
  then obtain info where p: "properties iv p = Some info" "isPending info"
    by (auto simp: pending_def split: option.splits)
  have iok: "info_ok info" using core p(1) unfolding inventory_core_def by blast
  obtain b iv1 where r: "receive_value uuid_text p info ec buffer iv = (b, iv1)" by (metis surj_pair)
  have st: "stored_for p iv iv1" by (rule receive_stored [OF r])
  have kept: "limits_kept iv iv1"
    using st core pend(1) unfolding limits_kept_def stored_for_def inventory_core_def by metis
  let ?n = "retryCount info + 1"
  let ?count = "\<lambda>i :: property_info. i\<lparr>retryCount := ?n\<rparr>" and ?mark = "\<lambda>i :: property_info. i\<lparr>isPending := False\<rparr>"
  consider (answered) b "(iv', q') = processNextProperty (update_info p ?mark iv1)"
    | (given_up) "\<not> b" "?n \<ge> maxRetryAttempts" "(iv', q') = processNextProperty (update_info p (?mark \<circ> ?count) iv1)"
    | (retried) "\<not> b" "?n < maxRetryAttempts" "iv' = (update_info p ?count iv1)\<lparr>retryTimer := True\<rparr>" "q' = []"
    using res unfolding handleInventoryPropertyResponse_def p(1) r option.case Let_def prod.case markPropertyProcessed_def
      update_info_twice by (auto split: if_splits)
  then show ?thesis
  proof cases
    case answered
    have "info_ok (?mark info) \<and> \<not> isPending (?mark info)" using iok by (simp add: info_ok_def)
    from finish_step [OF core timer st p pend(2) this answered(2) [symmetric]] kept
    show ?thesis by (simp add: limits_kept_def)
  next
    case given_up
    have "info_ok ((?mark \<circ> ?count) info) \<and> \<not> isPending ((?mark \<circ> ?count) info)"
      using iok p(2) by (simp add: info_ok_def)
    from finish_step [OF core timer st p pend(2) this given_up(3) [symmetric]] kept
    show ?thesis by (simp add: limits_kept_def)
  next
    case retried
    have "iv1 = iv" using receive_value_frame [OF r] retried(1) by simp
    then show ?thesis
      using retry_step [OF core p pend(2) retried(2) timer] retried(3,4) by (simp add: limits_kept_def)
  qed
qed

lemma retry_timer_step:
  assumes ok: "inventory_ok iv q" and timer: "retryTimer iv" and res: "retry_timer_expired iv = (iv', q')"
  shows "q = [] \<and> inventory_ok iv' q' \<and> potential iv' < potential iv \<and> limits_kept iv iv'"
proof -
  have core: "inventory_core (iv\<lparr>retryTimer := False\<rparr>)" and q: "q = []"
    using ok timer by (simp_all add: inventory_ok_def)
  have "processNextProperty (iv\<lparr>retryTimer := False\<rparr>) = (iv', q')" using res by (simp add: retry_timer_expired_def)
  from next_step [OF core _ this] timer q show ?thesis
    by (simp add: potential_def limits_kept_def)
qed

section \<open>A new inventory\<close>

definition gpu_properties :: "inventory_property_id list" where
  "gpu_properties =
     [SERIAL_NUMBER, BOARD_PART_NUMBER, MARKETING_NAME, DEVICE_GUID, DEVICE_PART_NUMBER,
      DEFAULT_BOOST_CLOCKS, DEFAULT_BASE_CLOCKS, MAX_GRAPHICS_CLOCK, MIN_GRAPHICS_CLOCK,
      MIN_DEVICE_POWER_LIMIT, MAX_DEVICE_POWER_LIMIT, RATED_DEVICE_POWER_LIMIT,
      MAX_MEMORY_CAPACITY, MIN_MEMORY_CLOCK, MAX_MEMORY_CLOCK]"

lemmas construction_defs = new_inventory_def empty_inventory_def registerProperty_def add_property_def
  set_iface_property_def Let_def

lemma new_inventory_properties:
  "case properties (new_inventory DEVICE_GPU True True visit) p of
     None \<Rightarrow> p \<notin> set gpu_properties
   | Some info \<Rightarrow> p \<in> set gpu_properties \<and> retryCount info = 0 \<and> isPending info"
  by (cases p) (simp_all add: construction_defs gpu_properties_def)

lemma new_inventory_rest:
  "visiting (new_inventory DEVICE_GPU True True visit) = visit"
  "retryTimer (new_inventory DEVICE_GPU True True visit) = False"
  "length (inv_requestBuffer (new_inventory DEVICE_GPU True True visit)) = getInventoryInformationRequestSize"
  "limit p (new_inventory DEVICE_GPU True True visit) = None"
  by (simp_all add: construction_defs limit_def)

lemma new_inventory_pending:
  "pending (new_inventory DEVICE_GPU True True visit) p \<longleftrightarrow> p \<in> set gpu_properties"
  using new_inventory_properties [where visit = visit and p = p] by (auto simp: pending_def split: option.splits)

lemma new_inventory_core:
  assumes "set visit = set gpu_properties"
  shows "inventory_core (new_inventory DEVICE_GPU True True visit)"
proof -
  have "info_ok info" if "properties (new_inventory DEVICE_GPU True True visit) p = Some info" for p info
    using that new_inventory_properties [where visit = visit and p = p] by (simp add: info_ok_def maxRetryAttempts_def)
  then show ?thesis
    by (simp add: inventory_core_def new_inventory_rest new_inventory_pending assms
        del: getInventoryInformationRequestSize_def)
qed

lemma new_inventory_potential:
  assumes "set visit = set gpu_properties" and "distinct visit"
  shows "potential (new_inventory DEVICE_GPU True True visit) = 75"
proof -
  let ?iv = "new_inventory DEVICE_GPU True True visit"
  have credit: "credit ?iv p = 5" if "p \<in> set visit" for p
    using that assms(1) new_inventory_properties [where visit = visit and p = p]
    by (auto simp: credit_def maxRetryAttempts_def split: option.splits)
  have "length visit = length gpu_properties"
    using assms distinct_card [of visit] distinct_card [of gpu_properties] by (simp add: gpu_properties_def)
  then have "length visit = 15" by (simp add: gpu_properties_def)
  moreover have "sum_list (map (credit ?iv) visit) = 5 * length visit"
    using credit by (simp add: sum_list_triv cong: map_cong)
  ultimately show ?thesis by (simp add: potential_def new_inventory_rest)
qed

end
