(* ===== verification/Gpu_Controls_Correct.thy ===== *)
theory Gpu_Controls_Correct
  imports Gpu_Controls Gpu_Inventory_Correct
begin

text \<open>
  The invariant of a GPU's inventory and controls, over every order of answers, timers, polls and D-Bus
  writes.
\<close>

section \<open>Requests\<close>

definition get_power_frame :: bytes where
  "get_power_frame = request_bytes PLATFORM_ENVIRONMENTAL (platform_environmental_code GET_POWER_LIMITS) 0
     (le_bytes (0 :: u32))"

definition set_power_frame :: "set_power_limits_action \<Rightarrow> u32 \<Rightarrow> bytes" where
  "set_power_frame action milliwatts =
     request_bytes PLATFORM_ENVIRONMENTAL (platform_environmental_code SET_POWER_LIMITS) 0
       (le_bytes (0 :: u32) @ [set_power_limits_action_code action] @ [set_power_limits_persistence_code ONE_SHOT] @
        le_bytes milliwatts)"

definition get_clock_frame :: bytes where
  "get_clock_frame = request_bytes PLATFORM_ENVIRONMENTAL (platform_environmental_code GET_CLOCK_LIMIT) 0
     [clock_type_code GRAPHICS_CLOCK]"

definition set_clock_frame :: "u32 \<Rightarrow> u32 \<Rightarrow> bytes" where
  "set_clock_frame lo hi =
     request_bytes PLATFORM_ENVIRONMENTAL (platform_environmental_code SET_CLOCK_LIMIT) 0
       ([clock_type_code GRAPHICS_CLOCK] @ [clock_limit_flag_code PERSISTENCE] @ le_bytes lo @ le_bytes hi)"

lemma frame_lengths:
  "length get_power_frame = getPowerLimitsRequestSize" "length (set_power_frame action mw) = setPowerLimitsRequestSize"
  "length get_clock_frame = getClockLimitRequestSize" "length (set_clock_frame lo hi) = setClockLimitRequestSize"
  by (simp_all add: get_power_frame_def set_power_frame_def get_clock_frame_def set_clock_frame_def length_request_bytes)

lemma control_requests:
  "length buf = getPowerLimitsRequestSize \<Longrightarrow> encodeGetPowerLimitsRequest 0 0 buf = (0, get_power_frame)"
  "length buf = setPowerLimitsRequestSize \<Longrightarrow>
     encodeSetPowerLimitsRequest 0 0 action ONE_SHOT mw buf = (0, set_power_frame action mw)"
  "length buf = getClockLimitRequestSize \<Longrightarrow>
     encodeGetClockLimitRequest 0 GRAPHICS_CLOCK buf = (0, get_clock_frame)"
  "length buf = setClockLimitRequestSize \<Longrightarrow>
     encodeSetClockLimitRequest 0 GRAPHICS_CLOCK PERSISTENCE lo hi buf = (0, set_clock_frame lo hi)"
proof -
  assume "length buf = getPowerLimitsRequestSize"
  then have "length buf = length get_power_frame" by (simp only: frame_lengths)
  then show "encodeGetPowerLimitsRequest 0 0 buf = (0, get_power_frame)"
    unfolding get_power_frame_def by (rule encodes_fit [OF encodeGetPowerLimitsRequest_encodes])
next
  assume "length buf = setPowerLimitsRequestSize"
  then have "length buf = length (set_power_frame action mw)" by (simp only: frame_lengths)
  then show "encodeSetPowerLimitsRequest 0 0 action ONE_SHOT mw buf = (0, set_power_frame action mw)"
    unfolding set_power_frame_def by (rule encodes_fit [OF encodeSetPowerLimitsRequest_encodes])
next
  assume "length buf = getClockLimitRequestSize"
  then have "length buf = length get_clock_frame" by (simp only: frame_lengths)
  then show "encodeGetClockLimitRequest 0 GRAPHICS_CLOCK buf = (0, get_clock_frame)"
    unfolding get_clock_frame_def by (rule encodes_fit [OF encodeGetClockLimitRequest_encodes])
next
  assume "length buf = setClockLimitRequestSize"
  then have "length buf = length (set_clock_frame lo hi)" by (simp only: frame_lengths)
  then show "encodeSetClockLimitRequest 0 GRAPHICS_CLOCK PERSISTENCE lo hi buf = (0, set_clock_frame lo hi)"
    unfolding set_clock_frame_def by (rule encodes_fit [OF encodeSetClockLimitRequest_encodes])
qed

definition waiting_for :: "callback \<Rightarrow> requests \<Rightarrow> nat" where
  "waiting_for cb q = count_list (map fst q) cb"

lemma waiting_for_simps [simp]:
  "waiting_for cb [] = 0" "waiting_for cb ((c, f) # q) = (if c = cb then 1 else 0) + waiting_for cb q"
  "waiting_for cb (q @ r) = waiting_for cb q + waiting_for cb r"
  by (simp_all add: waiting_for_def)

section \<open>Power\<close>

definition watts_allowed :: "inventory \<Rightarrow> u32 \<Rightarrow> bool" where
  "watts_allowed iv w \<longleftrightarrow>
     (\<exists>lo hi. limit MIN_DEVICE_POWER_LIMIT iv = Some lo \<and> limit MAX_DEVICE_POWER_LIMIT iv = Some hi \<and>
        lo \<le> unat w \<and> unat w \<le> hi)"

definition power_ok :: "power_control \<Rightarrow> inventory \<Rightarrow> nat \<Rightarrow> bool" where
  "power_ok pc iv n \<longleftrightarrow>
     power_requestEncoded pc \<and> getPowerLimitsRequestBuffer pc = get_power_frame \<and>
     length (setPowerLimitsRequestBuffer pc) = setPowerLimitsRequestSize \<and>
     n = (if setPowerLimitInflight pc then 1 else 0) \<and>
     (requestedPowerCapWatts pc \<noteq> None \<or> pendingEnable pc \<noteq> None \<longrightarrow> powerWait pc \<or> powerQueued pc > 0) \<and>
     (\<forall>w. requestedPowerCapWatts pc = Some w \<longrightarrow> watts_allowed iv w) \<and>
     (powerCapValue pc \<noteq> unsetPowerLimit \<longrightarrow> (\<exists>mw. powerCapValue pc = mw div milliwattsPerWatt))"

lemma watts_allowed_kept: "watts_allowed iv w \<Longrightarrow> limits_kept iv iv' \<Longrightarrow> watts_allowed iv' w"
  unfolding watts_allowed_def limits_kept_def by meson

lemma power_kept: "power_ok pc iv n \<Longrightarrow> limits_kept iv iv' \<Longrightarrow> power_ok pc iv' n"
  by (auto simp: power_ok_def intro: watts_allowed_kept)

lemma new_power_ok: "power_ok new_power_control iv 0"
  by (simp add: power_ok_def new_power_control_def control_requests unsetPowerLimit_def
      del: getPowerLimitsRequestSize_def setPowerLimitsRequestSize_def)

definition power_step_ok :: "inventory \<Rightarrow> nat \<Rightarrow> power_control \<times> requests \<Rightarrow> bool" where
  "power_step_ok iv n res \<longleftrightarrow> power_ok (fst res) iv (n + waiting_for SetPowerCallback (snd res)) \<and>
     fst ` set (snd res) \<subseteq> {GetPowerCallback, SetPowerCallback}"

lemma send_get_power: "power_ok pc iv n \<Longrightarrow> power_step_ok iv n (sendGetPowerLimitsRequest pc)"
  by (simp add: power_step_ok_def sendGetPowerLimitsRequest_def power_ok_def)

lemma get_power_answered:
  assumes "power_ok pc iv n"
  shows "power_ok (handleGetPowerLimitsResponse ec buffer pc) iv n"
proof -
  have "power_ok (show_power_enabled b (show_power_cap v pc)) iv n"
    if "v \<noteq> unsetPowerLimit \<longrightarrow> (\<exists>mw. v = mw div milliwattsPerWatt)" for b v
    using assms that by (simp add: power_ok_def show_power_enabled_def show_power_cap_def)
  then show ?thesis
    using assms by (auto simp: handleGetPowerLimitsResponse_def split: option.splits prod.splits)
qed

lemma cap_written:
  assumes "power_ok pc iv n" and "handlePowerCapSet (Some iv) w pc = Inr pc'"
  shows "power_ok pc' iv n"
proof -
  have "watts_allowed iv w \<and> pc' = arm_power_timer (pc\<lparr>requestedPowerCapWatts := Some w\<rparr>)"
    using assms(2)
    by (auto simp: handlePowerCapSet_def watts_allowed_def limit_def word_le_nat_alt word_less_nat_alt not_less
        split: option.splits if_splits)
  then show ?thesis using assms(1) by (simp add: power_ok_def arm_power_timer_def)
qed

lemma enable_written: "power_ok pc iv n \<Longrightarrow> power_ok (handlePowerCapEnableSet b pc) iv n"
  by (simp add: power_ok_def handlePowerCapEnableSet_def arm_power_timer_def)

lemma power_elapsed: "power_ok pc iv n \<Longrightarrow> power_ok (power_wait_elapsed pc) iv n"
  by (simp add: power_ok_def power_wait_elapsed_def)

lemma set_power_answer_cases:
  "handleSetPowerLimitsResponse ec buffer pc \<in>
     {(pc\<lparr>setPowerLimitInflight := False\<rparr>, []), sendGetPowerLimitsRequest (pc\<lparr>setPowerLimitInflight := False\<rparr>)}"
  by (cases ec; cases "decodeSetPowerLimitsResponse buffer 0 0") (simp_all add: handleSetPowerLimitsResponse_def Let_def)

lemma set_power_answered:
  assumes "power_ok pc iv (Suc n)"
  shows "power_step_ok iv n (handleSetPowerLimitsResponse ec buffer pc)"
proof -
  have ok: "power_ok (pc\<lparr>setPowerLimitInflight := False\<rparr>) iv n"
    using assms by (auto simp: power_ok_def split: if_splits)
  then have "power_step_ok iv n (pc\<lparr>setPowerLimitInflight := False\<rparr>, [])"
    by (simp add: power_step_ok_def)
  with set_power_answer_cases [of ec buffer pc] send_get_power [OF ok] show ?thesis
    by (elim insertE emptyE) simp_all
qed

text \<open>What the settled writes ask for: nothing, the firmware's default, or a limit in milliwatts.\<close>

definition power_order :: "power_control \<Rightarrow> (set_power_limits_action \<times> nat) option" where
  "power_order pc =
     (if setPowerLimitInflight pc then None
      else if pendingEnable pc = Some False then Some (DEFAULT_LIMIT, 0)
      else if pendingEnable pc = Some True \<or> powerCapEnabled pc
        then map_option (\<lambda>w. (NEW_LIMIT, 1000 * unat w)) (cap_to_enforce pc)
      else None)"


text \<open>A number of watts that a device can report as milliwatts.\<close>

definition small_watts :: "u32 \<Rightarrow> bool" where
  "small_watts w \<longleftrightarrow> 1000 * unat w < 2 ^ 32"

lemma small_watts_scale: "small_watts w \<Longrightarrow> unat (w * milliwattsPerWatt) = 1000 * unat w"
  by (subst unat_mult_lem [THEN iffD1]) (simp_all add: small_watts_def milliwattsPerWatt_def)

lemma small_watts_div: "small_watts (mw div milliwattsPerWatt)"
proof -
  have "1000 * (unat mw div 1000) \<le> unat mw" by simp
  also have "unat mw < 2 ^ 32" using unsigned_less [of mw] by simp
  finally show ?thesis by (simp add: small_watts_def unat_watts)
qed

lemma small_watts_allowed:
  assumes "watts_allowed iv w" and "inventory_core iv"
  shows "small_watts w"
proof -
  obtain hi where hi: "limit MAX_DEVICE_POWER_LIMIT iv = Some hi" and w: "unat w \<le> hi"
    using assms(1) unfolding watts_allowed_def by blast
  then obtain m where "hi = reported MAX_DEVICE_POWER_LIMIT m"
    using assms(2) unfolding inventory_core_def by blast
  then have "unat w \<le> unat (m div milliwattsPerWatt)" using w by (simp add: reported_def unat_watts)
  then show ?thesis using small_watts_div [of m] unfolding small_watts_def by linarith
qed

lemma small_cap:
  assumes ok: "power_ok pc iv n" and core: "inventory_core iv" and cap: "cap_to_enforce pc = Some w"
  shows "small_watts w"
proof (cases "requestedPowerCapWatts pc")
  case None
  then have "w = powerCapValue pc" "powerCapValue pc \<noteq> unsetPowerLimit"
    using cap by (simp_all add: cap_to_enforce_def split: if_splits)
  then obtain mw where "w = mw div milliwattsPerWatt" using ok unfolding power_ok_def by blast
  then show ?thesis by (simp add: small_watts_div)
next
  case (Some v)
  then have "watts_allowed iv w" using cap ok by (simp add: cap_to_enforce_def power_ok_def)
  then show ?thesis by (rule small_watts_allowed [OF _ core])
qed

lemma send_set_power:
  assumes "power_ok pc iv n" and "\<not> setPowerLimitInflight pc"
  shows "power_step_ok iv n (sendSetPowerLimitsRequest mw action pc) \<and>
    snd (sendSetPowerLimitsRequest mw action pc) = [(SetPowerCallback, set_power_frame action mw)]"
  using assms
  by (simp add: power_step_ok_def sendSetPowerLimitsRequest_def power_ok_def control_requests frame_lengths
      del: setPowerLimitsRequestSize_def)

lemma power_applied:
  assumes ok: "power_ok pc iv n" and core: "inventory_core iv"
  shows "power_step_ok iv n (applyPendingPowerLimit pc) \<and>
    snd (applyPendingPowerLimit pc) = (case power_order pc of
       None \<Rightarrow> [] | Some (action, mw) \<Rightarrow> [(SetPowerCallback, set_power_frame action (of_nat mw))])"
proof (cases "setPowerLimitInflight pc")
  case True
  then show ?thesis
    using ok by (simp add: applyPendingPowerLimit_def power_step_ok_def power_order_def power_ok_def arm_power_timer_def)
next
  case False
  define pc1 where "pc1 = pc\<lparr>pendingEnable := None, requestedPowerCapWatts := None\<rparr>"
  have ok1: "power_ok pc1 iv n" and f1: "\<not> setPowerLimitInflight pc1"
    using ok False by (simp_all add: pc1_def power_ok_def)
  have quiet: "power_step_ok iv n (pc1, [])" using ok1 by (simp add: power_step_ok_def)
  have mw: "w * milliwattsPerWatt = of_nat (1000 * unat w)" for w
    by (simp add: milliwattsPerWatt_def mult.commute)
  show ?thesis
    using False quiet send_set_power [OF ok1 f1]
    by (cases "pendingEnable pc"; cases "cap_to_enforce pc")
      (auto simp: applyPendingPowerLimit_def power_order_def Let_def mw simp flip: pc1_def)
qed

section \<open>Clock speed\<close>

definition hertz_allowed :: "inventory \<Rightarrow> u64 \<Rightarrow> bool" where
  "hertz_allowed iv v \<longleftrightarrow>
     (\<exists>lo hi. limit MIN_GRAPHICS_CLOCK iv = Some lo \<and> limit MAX_GRAPHICS_CLOCK iv = Some hi \<and>
        lo \<le> unat v \<and> unat v \<le> hi)"

definition megahertz :: "u64 \<Rightarrow> bool" where
  "megahertz v \<longleftrightarrow> (\<exists>mhz :: u32. v = ucast mhz * mhzToHzFactor)"

definition clock_ok :: "clock_control \<Rightarrow> inventory \<Rightarrow> nat \<Rightarrow> nat \<Rightarrow> bool" where
  "clock_ok ck iv sets gets \<longleftrightarrow>
     clock_requestEncoded ck \<and> clock_requestBuffer ck = get_clock_frame \<and>
     length (setClockLimitRequestBuffer ck) = setClockLimitRequestSize \<and>
     sets + (if setClockLimitReadbackPending ck then 1 else 0) = (if setClockLimitInflight ck then 1 else 0) \<and>
     (setClockLimitReadbackPending ck \<longrightarrow> gets > 0) \<and>
     (pendingMinHz ck \<noteq> None \<or> pendingMaxHz ck \<noteq> None \<longrightarrow> clockWait ck \<or> clockQueued ck > 0) \<and>
     (\<forall>v. pendingMinHz ck = Some v \<longrightarrow> hertz_allowed iv v) \<and>
     (\<forall>v. pendingMaxHz ck = Some v \<longrightarrow> hertz_allowed iv v) \<and>
     megahertz (requestedMinHz ck) \<and> megahertz (requestedMaxHz ck)"

lemma hertz_allowed_kept: "hertz_allowed iv v \<Longrightarrow> limits_kept iv iv' \<Longrightarrow> hertz_allowed iv' v"
  unfolding hertz_allowed_def limits_kept_def by meson

lemma clock_kept: "clock_ok ck iv n m \<Longrightarrow> limits_kept iv iv' \<Longrightarrow> clock_ok ck iv' n m"
  by (auto simp: clock_ok_def intro: hertz_allowed_kept)

lemma megahertz_simps [simp]: "megahertz 0" "megahertz (ucast (mhz :: u32) * mhzToHzFactor)"
  unfolding megahertz_def by (rule exI [of _ 0], simp) blast

lemma new_clock_ok: "clock_ok new_clock_control iv 0 m"
  by (simp add: clock_ok_def new_clock_control_def control_requests
      del: getClockLimitRequestSize_def setClockLimitRequestSize_def)

lemma more_gets: "clock_ok ck iv n m \<Longrightarrow> clock_ok ck iv n (m + k)"
  by (simp add: clock_ok_def)

definition clock_step_ok :: "inventory \<Rightarrow> nat \<Rightarrow> nat \<Rightarrow> clock_control \<times> requests \<Rightarrow> bool" where
  "clock_step_ok iv n m res \<longleftrightarrow>
     clock_ok (fst res) iv (n + waiting_for SetClockCallback (snd res)) (m + waiting_for GetClockCallback (snd res)) \<and>
     fst ` set (snd res) \<subseteq> {GetClockCallback, SetClockCallback}"

lemma send_get_clock: "clock_ok ck iv n m \<Longrightarrow> clock_step_ok iv n m (sendGetClockLimitRequest ck)"
  by (simp add: clock_step_ok_def sendGetClockLimitRequest_def clock_ok_def)

lemma open_gate_ok: "clock_ok ck iv n (Suc m) \<Longrightarrow> clock_ok (open_gate ck) iv n m"
  by (simp add: clock_ok_def open_gate_def split: if_splits)

lemma get_clock_answered:
  assumes "clock_ok ck iv n (Suc m)"
  shows "clock_ok (handleGetClockLimitResponse ec buffer ck) iv n m"
proof -
  have ok: "clock_ok (open_gate ck) iv n m" by (rule open_gate_ok [OF assms])
  have shown: "clock_ok (show_requested_min a (show_requested_max b
      (open_gate ck\<lparr>presentMaxHz := c, presentMinHz := d\<rparr>))) iv n m"
    if "megahertz a" "megahertz b" for a b c d
    using ok that by (simp add: clock_ok_def show_requested_min_def show_requested_max_def)
  show ?thesis
    by (cases ec; cases "decodeGetClockLimitResponse buffer 0 0 0 0 0 0")
      (simp_all add: handleGetClockLimitResponse_def Let_def ok shown)
qed

lemma check_speed_allowed: "check_speed (Some iv) v = Inr () \<longleftrightarrow> hertz_allowed iv v"
  by (auto simp: check_speed_def hertz_allowed_def limit_def word_le_nat_alt word_less_nat_alt not_less
      split: option.splits if_splits)

lemma max_written:
  assumes "clock_ok ck iv n m" and "handleRequestedSpeedLimitMaxHzSet (Some iv) v ck = Inr ck'"
  shows "clock_ok ck' iv n m"
proof -
  have "hertz_allowed iv v \<and> ck' = arm_clock_timer (ck\<lparr>pendingMaxHz := Some v\<rparr>)"
    using assms(2) by (auto simp: handleRequestedSpeedLimitMaxHzSet_def simp flip: check_speed_allowed split: sum.splits)
  then show ?thesis using assms(1) by (simp add: clock_ok_def arm_clock_timer_def)
qed

lemma min_written:
  assumes "clock_ok ck iv n m" and "handleRequestedSpeedLimitMinHzSet (Some iv) v ck = Inr ck'"
  shows "clock_ok ck' iv n m"
proof -
  have "hertz_allowed iv v \<and> ck' = arm_clock_timer (ck\<lparr>pendingMinHz := Some v\<rparr>)"
    using assms(2) by (auto simp: handleRequestedSpeedLimitMinHzSet_def simp flip: check_speed_allowed split: sum.splits)
  then show ?thesis using assms(1) by (simp add: clock_ok_def arm_clock_timer_def)
qed

lemma clock_elapsed: "clock_ok ck iv n m \<Longrightarrow> clock_ok (clock_wait_elapsed ck) iv n m"
  by (simp add: clock_ok_def clock_wait_elapsed_def)

lemma set_clock_answer_cases:
  assumes "clock_requestEncoded ck"
  shows "handleSetClockLimitResponse ec buffer ck \<in>
     {(ck\<lparr>setClockLimitInflight := False\<rparr>, []),
      sendGetClockLimitRequest (ck\<lparr>setClockLimitReadbackPending := True\<rparr>)}"
  using assms
  by (cases ec; cases "decodeSetClockLimitResponse buffer 0 0") (simp_all add: handleSetClockLimitResponse_def Let_def)

lemma set_clock_answered:
  assumes ok: "clock_ok ck iv (Suc n) m"
  shows "clock_step_ok iv n m (handleSetClockLimitResponse ec buffer ck)"
proof -
  have "clock_requestEncoded ck" using ok by (simp add: clock_ok_def)
  moreover have "clock_step_ok iv n m (ck\<lparr>setClockLimitInflight := False\<rparr>, [])"
    using ok by (auto simp: clock_step_ok_def clock_ok_def split: if_splits)
  moreover have "clock_step_ok iv n m (sendGetClockLimitRequest (ck\<lparr>setClockLimitReadbackPending := True\<rparr>))"
    using ok by (auto simp: clock_step_ok_def clock_ok_def sendGetClockLimitRequest_def split: if_splits)
  ultimately show ?thesis using set_clock_answer_cases [of ck ec buffer] by auto
qed

text \<open>What the settled writes ask for, in megahertz.\<close>

definition min_to_send :: "clock_control \<Rightarrow> u64" where
  "min_to_send ck = (case pendingMinHz ck of Some v \<Rightarrow> v | None \<Rightarrow> requestedMinHz ck)"

definition max_to_send :: "clock_control \<Rightarrow> u64" where
  "max_to_send ck = (case pendingMaxHz ck of Some v \<Rightarrow> v | None \<Rightarrow> requestedMaxHz ck)"

definition clock_order :: "clock_control \<Rightarrow> (nat \<times> nat) option" where
  "clock_order ck =
     (if setClockLimitInflight ck then None
      else Some (unat (min_to_send ck) div 1000000, unat (max_to_send ck) div 1000000))"

lemma u32_less: "unat (w :: u32) < 2 ^ 32"
  using unsigned_less [of w] by simp

lemma unat_megahertz: "unat (v div mhzToHzFactor) = unat v div 1000000"
  by (simp add: unat_div mhzToHzFactor_def)

lemma megahertz_fits: "megahertz v \<Longrightarrow> unat v div 1000000 < 2 ^ 32"
  by (auto simp: megahertz_def unat_hertz u32_less [simplified])

lemma allowed_fits:
  assumes "hertz_allowed iv v" and "inventory_core iv"
  shows "unat v div 1000000 < 2 ^ 32"
proof -
  obtain hi where hi: "limit MAX_GRAPHICS_CLOCK iv = Some hi" and v: "unat v \<le> hi"
    using assms(1) unfolding hertz_allowed_def by blast
  then obtain m where "hi = reported MAX_GRAPHICS_CLOCK m"
    using assms(2) unfolding inventory_core_def by blast
  then have "unat v div 1000000 \<le> unat m" using v by (simp add: reported_def div_le_mono [of _ "unat m * 1000000", simplified])
  also have "unat m < 2 ^ 32" using unsigned_less [of m] by simp
  finally show ?thesis .
qed

lemma sent_fits:
  assumes ok: "clock_ok ck iv n m" and core: "inventory_core iv"
  shows "unat (min_to_send ck) div 1000000 < 2 ^ 32" and "unat (max_to_send ck) div 1000000 < 2 ^ 32"
  using ok allowed_fits [OF _ core] megahertz_fits
  by (auto simp: clock_ok_def min_to_send_def max_to_send_def split: option.split)

lemma clock_applied:
  assumes ok: "clock_ok ck iv n m" and core: "inventory_core iv"
  shows "clock_step_ok iv n m (applyPendingClockLimit ck) \<and>
    snd (applyPendingClockLimit ck) = (case clock_order ck of
       None \<Rightarrow> [] | Some (lo, hi) \<Rightarrow> [(SetClockCallback, set_clock_frame (of_nat lo) (of_nat hi))])"
proof (cases "setClockLimitInflight ck")
  case True
  then show ?thesis
    using ok by (simp add: applyPendingClockLimit_def clock_step_ok_def clock_order_def clock_ok_def arm_clock_timer_def)
next
  case False
  have cast: "ucast (v div mhzToHzFactor) = (of_nat (unat v div 1000000) :: u32)" for v
    by (simp flip: unat_megahertz)
  show ?thesis
    using ok False
    by (simp add: applyPendingClockLimit_def Let_def sendSetClockLimitRequest_def clock_step_ok_def clock_ok_def
        control_requests frame_lengths clock_order_def cast flip: min_to_send_def max_to_send_def
        del: setClockLimitRequestSize_def)
qed

end
