(* ===== verification/Gpu_Device_Correct.thy ===== *)
theory Gpu_Device_Correct
  imports Gpu_Controls_Correct
begin

text \<open>The inventory and the controls together, on the requests they share.\<close>

section \<open>The shared queue\<close>

fun for_inventory :: "callback \<Rightarrow> bool" where
  "for_inventory (InventoryCallback p) = True"
| "for_inventory GetPowerCallback = False"
| "for_inventory SetPowerCallback = False"
| "for_inventory GetClockCallback = False"
| "for_inventory SetClockCallback = False"

definition inventory_requests :: "requests \<Rightarrow> requests" where
  "inventory_requests q = filter (\<lambda>r. for_inventory (fst r)) q"

lemma inventory_requests_simps [simp]:
  "inventory_requests [] = []"
  "inventory_requests (r # q) = (if for_inventory (fst r) then r # inventory_requests q else inventory_requests q)"
  "inventory_requests (q @ q') = inventory_requests q @ inventory_requests q'"
  by (simp_all add: inventory_requests_def)

lemma others_silent:
  "fst ` set rs \<subseteq> S \<Longrightarrow> cb \<notin> S \<Longrightarrow> waiting_for cb rs = 0"
  "fst ` set rs \<subseteq> S \<Longrightarrow> \<forall>c\<in>S. \<not> for_inventory c \<Longrightarrow> inventory_requests rs = []"
  by (force simp: waiting_for_def count_list_0_iff, force simp: inventory_requests_def filter_empty_conv)

lemma next_request_only:
  "inventory_ok iv q \<Longrightarrow> inventory_requests q = q \<and> (\<not> for_inventory cb \<longrightarrow> waiting_for cb q = 0)"
  by (auto simp: inventory_ok_def next_request_def split: option.splits if_splits)

definition gpu_ok :: "gpu_device \<Rightarrow> bool" where
  "gpu_ok d \<longleftrightarrow>
     inventory_ok (dev_inventory d) (inventory_requests (waiting_requests d)) \<and>
     power_ok (powerControl d) (dev_inventory d) (waiting_for SetPowerCallback (waiting_requests d)) \<and>
     clock_ok (clockControl d) (dev_inventory d) (waiting_for SetClockCallback (waiting_requests d))
       (waiting_for GetClockCallback (waiting_requests d))"

lemma device_parts:
  "gpu_ok d \<Longrightarrow> inventory_ok (dev_inventory d) (inventory_requests (waiting_requests d))"
  "gpu_ok d \<Longrightarrow> power_ok (powerControl d) (dev_inventory d) (waiting_for SetPowerCallback (waiting_requests d))"
  "gpu_ok d \<Longrightarrow> clock_ok (clockControl d) (dev_inventory d) (waiting_for SetClockCallback (waiting_requests d))
       (waiting_for GetClockCallback (waiting_requests d))"
  "gpu_ok d \<Longrightarrow> inventory_core (dev_inventory d)"
  by (simp_all add: gpu_ok_def inventory_ok_def)

section \<open>Steps of the parts\<close>

lemma on_power_ok:
  assumes "inventory_ok (dev_inventory d) (inventory_requests (waiting_requests d))"
    and "clock_ok (clockControl d) (dev_inventory d) (waiting_for SetClockCallback (waiting_requests d))
       (waiting_for GetClockCallback (waiting_requests d))"
    and st: "power_step_ok (dev_inventory d) (waiting_for SetPowerCallback (waiting_requests d)) (f (powerControl d))"
  shows "gpu_ok (on_power f d)"
proof -
  obtain pc rs where f: "f (powerControl d) = (pc, rs)" by (metis surj_pair)
  have cbs: "fst ` set rs \<subseteq> {GetPowerCallback, SetPowerCallback}" using st by (simp add: power_step_ok_def f)
  have "inventory_requests rs = []" "waiting_for SetClockCallback rs = 0" "waiting_for GetClockCallback rs = 0"
    by (rule others_silent [OF cbs]; simp)+
  then show ?thesis
    using assms by (simp add: gpu_ok_def on_power_def submit_requests_def power_step_ok_def f)
qed

lemma on_clock_ok:
  assumes "inventory_ok (dev_inventory d) (inventory_requests (waiting_requests d))"
    and "power_ok (powerControl d) (dev_inventory d) (waiting_for SetPowerCallback (waiting_requests d))"
    and st: "clock_step_ok (dev_inventory d) (waiting_for SetClockCallback (waiting_requests d))
       (waiting_for GetClockCallback (waiting_requests d)) (f (clockControl d))"
  shows "gpu_ok (on_clock f d)"
proof -
  obtain ck rs where f: "f (clockControl d) = (ck, rs)" by (metis surj_pair)
  have cbs: "fst ` set rs \<subseteq> {GetClockCallback, SetClockCallback}" using st by (simp add: clock_step_ok_def f)
  have "inventory_requests rs = []" "waiting_for SetPowerCallback rs = 0"
    by (rule others_silent [OF cbs]; simp)+
  then show ?thesis
    using assms by (simp add: gpu_ok_def on_clock_def submit_requests_def clock_step_ok_def f)
qed

lemma on_inventory_ok:
  assumes "power_ok (powerControl d) (dev_inventory d) (waiting_for SetPowerCallback (waiting_requests d))"
    and "clock_ok (clockControl d) (dev_inventory d) (waiting_for SetClockCallback (waiting_requests d))
       (waiting_for GetClockCallback (waiting_requests d))"
    and none: "inventory_requests (waiting_requests d) = []"
    and f: "f (dev_inventory d) = (iv, rs)" and ok: "inventory_ok iv rs" and kept: "limits_kept (dev_inventory d) iv"
  shows "gpu_ok (on_inventory f d)"
  using assms next_request_only [OF ok]
  by (simp add: gpu_ok_def on_inventory_def submit_requests_def power_kept clock_kept)

section \<open>Timer handlers\<close>

text \<open>A handler that runs uses up a completed wait; what it leaves pending waits for the timer it arms.\<close>

lemma apply_power_queued:
  "applyPendingPowerLimit (pc\<lparr>powerQueued := k\<rparr>) =
     (case applyPendingPowerLimit pc of (pc', rs) \<Rightarrow> (pc'\<lparr>powerQueued := k\<rparr>, rs))"
  "applyPendingPowerLimit pc = (pc', rs) \<Longrightarrow>
     powerWait pc' \<or> requestedPowerCapWatts pc' = None \<and> pendingEnable pc' = None"
  by (auto simp: applyPendingPowerLimit_def arm_power_timer_def sendSetPowerLimitsRequest_def cap_to_enforce_def Let_def
      split: if_splits option.splits prod.splits)

lemma power_requeue:
  "power_ok pc iv n \<Longrightarrow> powerWait pc \<or> requestedPowerCapWatts pc = None \<and> pendingEnable pc = None \<Longrightarrow>
     power_ok (pc\<lparr>powerQueued := k\<rparr>) iv n"
  by (cases "powerWait pc") (simp_all add: power_ok_def)

lemma power_handler:
  assumes "power_ok pc iv n" and "inventory_core iv"
  shows "power_step_ok iv n (power_timer_handler pc) \<and>
    snd (power_timer_handler pc) = (case power_order pc of
       None \<Rightarrow> [] | Some (action, mw) \<Rightarrow> [(SetPowerCallback, set_power_frame action (of_nat mw))])"
proof -
  obtain pc' rs where a: "applyPendingPowerLimit pc = (pc', rs)" by (metis surj_pair)
  then have h: "power_timer_handler pc = (pc'\<lparr>powerQueued := powerQueued pc - 1\<rparr>, rs)"
    by (simp add: power_timer_handler_def apply_power_queued(1))
  show ?thesis
    using power_applied [OF assms] apply_power_queued(2) [OF a] unfolding a h power_step_ok_def fst_conv snd_conv
    by (metis power_requeue)
qed

lemma apply_clock_queued:
  "applyPendingClockLimit (ck\<lparr>clockQueued := k\<rparr>) =
     (case applyPendingClockLimit ck of (ck', rs) \<Rightarrow> (ck'\<lparr>clockQueued := k\<rparr>, rs))"
  "applyPendingClockLimit ck = (ck', rs) \<Longrightarrow> clockWait ck' \<or> pendingMinHz ck' = None \<and> pendingMaxHz ck' = None"
  by (auto simp: applyPendingClockLimit_def arm_clock_timer_def sendSetClockLimitRequest_def Let_def
      split: if_splits option.splits prod.splits)

lemma clock_requeue:
  "clock_ok ck iv n m \<Longrightarrow> clockWait ck \<or> pendingMinHz ck = None \<and> pendingMaxHz ck = None \<Longrightarrow>
     clock_ok (ck\<lparr>clockQueued := k\<rparr>) iv n m"
  by (cases "clockWait ck") (simp_all add: clock_ok_def)

lemma clock_handler:
  assumes "clock_ok ck iv n m" and "inventory_core iv"
  shows "clock_step_ok iv n m (clock_timer_handler ck) \<and>
    snd (clock_timer_handler ck) = (case clock_order ck of
       None \<Rightarrow> [] | Some (lo, hi) \<Rightarrow> [(SetClockCallback, set_clock_frame (of_nat lo) (of_nat hi))])"
proof -
  obtain ck' rs where a: "applyPendingClockLimit ck = (ck', rs)" by (metis surj_pair)
  then have h: "clock_timer_handler ck = (ck'\<lparr>clockQueued := clockQueued ck - 1\<rparr>, rs)"
    by (simp add: clock_timer_handler_def apply_clock_queued(1))
  show ?thesis
    using clock_applied [OF assms] apply_clock_queued(2) [OF a] unfolding a h clock_step_ok_def fst_conv snd_conv
    by (metis clock_requeue)
qed

section \<open>Events\<close>

text \<open>The events that concern the inventory: its answers and its retry timer.\<close>

definition concerns_inventory :: "gpu_event \<Rightarrow> gpu_device \<Rightarrow> bool" where
  "concerns_inventory e d =
     (case e of
        RetryTimerExpired \<Rightarrow> True
      | Answered _ _ \<Rightarrow> (case waiting_requests d of [] \<Rightarrow> False | r # _ \<Rightarrow> for_inventory (fst r))
      | _ \<Rightarrow> False)"

definition spent :: "gpu_event \<Rightarrow> gpu_device \<Rightarrow> nat" where
  "spent e d = (if concerns_inventory e d then 1 else 0)"

lemma same_inventory [simp]:
  "dev_inventory (on_power f d) = dev_inventory d" "dev_inventory (on_clock g d) = dev_inventory d"
  by (simp_all add: on_power_def on_clock_def submit_requests_def split: prod.split)

lemma read_ok: "gpu_ok d \<Longrightarrow> gpu_ok (device_read d)"
  unfolding device_read_def clock_update_def power_update_def
  by (rule on_clock_ok, (rule device_parts on_power_ok send_get_power send_get_clock | assumption)+)

lemma answered_ok:
  assumes ok: "gpu_ok d" and q: "waiting_requests d = (cb, fr) # rest"
  defines "d1 \<equiv> d\<lparr>waiting_requests := rest\<rparr>"
  shows "gpu_ok (answer uuid_text cb ec buffer d1) \<and>
    potential (dev_inventory (answer uuid_text cb ec buffer d1)) + (if for_inventory cb then 1 else 0)
      \<le> potential (dev_inventory d)"
proof (cases cb)
  case (InventoryCallback p)
  have iv: "inventory_ok (dev_inventory d) ((InventoryCallback p, fr) # inventory_requests rest)"
    using device_parts(1) [OF ok] q InventoryCallback by simp
  then have none: "inventory_requests rest = []"
    by (auto simp: inventory_ok_def next_request_def split: if_splits option.splits)
  obtain iv' rs where h: "handleInventoryPropertyResponse uuid_text p ec buffer (dev_inventory d) = (iv', rs)"
    by (metis surj_pair)
  have st: "inventory_ok iv' rs \<and> potential iv' < potential (dev_inventory d) \<and> limits_kept (dev_inventory d) iv'"
    using answer_step [OF _ h] iv none by simp
  have "gpu_ok (on_inventory (handleInventoryPropertyResponse uuid_text p ec buffer) d1)"
    using device_parts [OF ok] q InventoryCallback st none h
    by (intro on_inventory_ok [where iv = iv' and rs = rs]) (simp_all add: d1_def)
  moreover have "dev_inventory (on_inventory (handleInventoryPropertyResponse uuid_text p ec buffer) d1) = iv'"
    by (simp add: on_inventory_def submit_requests_def d1_def h)
  ultimately show ?thesis using InventoryCallback st by (simp add: answer_def)
next
  case GetPowerCallback
  have "gpu_ok (on_power (\<lambda>pc. (handleGetPowerLimitsResponse ec buffer pc, [])) d1)"
    using device_parts [OF ok] q GetPowerCallback
    by (intro on_power_ok) (simp_all add: d1_def power_step_ok_def get_power_answered)
  then show ?thesis by (simp add: answer_def GetPowerCallback) (simp add: d1_def)
next
  case SetPowerCallback
  have "gpu_ok (on_power (handleSetPowerLimitsResponse ec buffer) d1)"
    using device_parts [OF ok] q SetPowerCallback
    by (intro on_power_ok) (simp_all add: d1_def set_power_answered)
  then show ?thesis by (simp add: answer_def SetPowerCallback) (simp add: d1_def)
next
  case GetClockCallback
  have "gpu_ok (on_clock (\<lambda>ck. (handleGetClockLimitResponse ec buffer ck, [])) d1)"
    using device_parts [OF ok] q GetClockCallback
    by (intro on_clock_ok) (simp_all add: d1_def clock_step_ok_def get_clock_answered)
  then show ?thesis by (simp add: answer_def GetClockCallback) (simp add: d1_def)
next
  case SetClockCallback
  have "gpu_ok (on_clock (handleSetClockLimitResponse ec buffer) d1)"
    using device_parts [OF ok] q SetClockCallback
    by (intro on_clock_ok) (simp_all add: d1_def set_clock_answered)
  then show ?thesis by (simp add: answer_def SetClockCallback) (simp add: d1_def)
qed

lemma gpu_event_ok:
  assumes ok: "gpu_ok d" and e: "on_gpu_event uuid_text e d = Some d'"
  shows "gpu_ok d' \<and> potential (dev_inventory d') + spent e d \<le> potential (dev_inventory d)"
proof (cases e)
  case (Answered ec buffer)
  then obtain cb fr rest where q: "waiting_requests d = (cb, fr) # rest"
    using e by (auto split: list.splits)
  then show ?thesis
    using answered_ok [OF ok q, of uuid_text ec buffer] e Answered by (auto simp: spent_def concerns_inventory_def)
next
  case RetryTimerExpired
  then have timer: "retryTimer (dev_inventory d)" and d': "d' = on_inventory retry_timer_expired d"
    using e by (simp_all split: if_splits)
  obtain iv' rs where h: "retry_timer_expired (dev_inventory d) = (iv', rs)" by (metis surj_pair)
  note st = retry_timer_step [OF device_parts(1) [OF ok] timer h]
  have "gpu_ok d'"
    unfolding d' using device_parts [OF ok] st h by (intro on_inventory_ok [where iv = iv' and rs = rs]) simp_all
  then show ?thesis
    using st by (simp add: d' on_inventory_def submit_requests_def h spent_def concerns_inventory_def RetryTimerExpired)
next
  case PowerWaitElapsed
  then show ?thesis
    using e ok power_elapsed by (auto simp: gpu_ok_def spent_def concerns_inventory_def split: if_splits)
next
  case PowerHandlerRuns
  then have d': "d' = on_power power_timer_handler d" using e by (simp split: if_splits)
  have "gpu_ok d'"
    unfolding d' using device_parts [OF ok] power_handler by (intro on_power_ok) blast+
  then show ?thesis by (simp add: d' spent_def concerns_inventory_def PowerHandlerRuns)
next
  case ClockWaitElapsed
  then show ?thesis
    using e ok clock_elapsed by (auto simp: gpu_ok_def spent_def concerns_inventory_def split: if_splits)
next
  case ClockHandlerRuns
  then have d': "d' = on_clock clock_timer_handler d" using e by (simp split: if_splits)
  have "gpu_ok d'"
    unfolding d' using device_parts [OF ok] clock_handler by (intro on_clock_ok) blast+
  then show ?thesis by (simp add: d' spent_def concerns_inventory_def ClockHandlerRuns)
next
  case (PowerCapWritten w)
  then show ?thesis
    using e ok cap_written by (auto simp: gpu_ok_def spent_def concerns_inventory_def split: sum.splits)
next
  case (PowerCapEnableWritten b)
  then show ?thesis
    using e ok enable_written by (auto simp: gpu_ok_def spent_def concerns_inventory_def)
next
  case (MaxHzWritten v)
  then show ?thesis
    using e ok max_written by (auto simp: gpu_ok_def spent_def concerns_inventory_def split: sum.splits)
next
  case (MinHzWritten v)
  then show ?thesis
    using e ok min_written by (auto simp: gpu_ok_def spent_def concerns_inventory_def split: sum.splits)
next
  case Polled
  then show ?thesis
    using e read_ok [OF ok] by (auto simp: spent_def concerns_inventory_def device_read_def)
qed

end
