(* ===== verification/Gpu_Device_Names.thy ===== *)
theory Gpu_Device_Names
  imports Gpu_Device_Correct
begin

text \<open>
  Where a GPU shows the values it has read: every property keeps the D-Bus name that the constructor of the
  inventory gave it, and the memory speeds that the inventory holds are the ones it has published.
\<close>

section \<open>Where the values are shown\<close>

text \<open>The D-Bus interface and the name under which a GPU shows each of its properties.\<close>

definition gpu_names :: "(inventory_property_id \<times> inventory_interface \<times> string) list" where
  "gpu_names =
     [(SERIAL_NUMBER, AssetIface, ''SerialNumber''), (BOARD_PART_NUMBER, AssetIface, ''PartNumber''),
      (MARKETING_NAME, AssetIface, ''Model''), (DEVICE_GUID, UuidIface, ''UUID''),
      (DEVICE_PART_NUMBER, RevisionIface, ''Version''),
      (DEFAULT_BOOST_CLOCKS, AcceleratorIface, ''BoostClockFrequency''),
      (DEFAULT_BASE_CLOCKS, AcceleratorIface, ''BaseSpeedInHz''),
      (MAX_GRAPHICS_CLOCK, AcceleratorIface, ''MaxSpeedInHz''), (MIN_GRAPHICS_CLOCK, AcceleratorIface, ''MinSpeedInHz''),
      (MIN_DEVICE_POWER_LIMIT, PowerCapIface, ''MinPowerCapValue''),
      (MAX_DEVICE_POWER_LIMIT, PowerCapIface, ''MaxPowerCapValue''),
      (RATED_DEVICE_POWER_LIMIT, PowerCapIface, ''DefaultPowerCap''),
      (MAX_MEMORY_CAPACITY, DramIface, ''MemorySizeInKB''),
      (MIN_MEMORY_CLOCK, DramIface, ''AllowedSpeedsMT''), (MAX_MEMORY_CLOCK, DramIface, ''AllowedSpeedsMT'')]"

abbreviation speeds_name :: "inventory_interface \<times> string" where
  "speeds_name \<equiv> (DramIface, ''AllowedSpeedsMT'')"

definition memory_clocks :: "inventory_property_id set" where
  "memory_clocks = {MIN_MEMORY_CLOCK, MAX_MEMORY_CLOCK}"

lemma speeds_only: "map_of gpu_names p = Some speeds_name \<longleftrightarrow> p \<in> memory_clocks"
  by (cases p) (simp_all add: gpu_names_def memory_clocks_def)

text \<open>The two memory speeds that D-Bus shows, the lowest and the highest; zero before they are known.\<close>

definition speeds_shown :: "inventory \<Rightarrow> u16 \<times> u16" where
  "speeds_shown iv = (case published iv speeds_name of Some (U16sVal [lo, hi]) \<Rightarrow> (lo, hi) | _ \<Rightarrow> (0, 0))"

definition info_name :: "property_info \<Rightarrow> inventory_interface \<times> string" where
  "info_name info = (info_interface info, propertyName info)"

definition named :: "inventory \<Rightarrow> bool" where
  "named iv \<longleftrightarrow> hasDram iv \<and> (\<forall>p. map_option info_name (properties iv p) = map_of gpu_names p) \<and>
     allowedSpeedsMT iv = speeds_shown iv"

lemma named_new: "named (new_inventory DEVICE_GPU True True visit)"
proof -
  have "map_option info_name (properties (new_inventory DEVICE_GPU True True visit) p) = map_of gpu_names p" for p
    by (cases p) (simp_all add: construction_defs gpu_names_def info_name_def)
  then show ?thesis by (simp add: named_def) (simp add: construction_defs speeds_shown_def)
qed

lemma named_property: "named iv \<Longrightarrow> properties iv p = Some info \<Longrightarrow> map_of gpu_names p = Some (info_name info)"
  unfolding named_def by (metis option.simps(9))

lemma named_frame [simp]:
  "named (iv\<lparr>retryTimer := t\<rparr>) = named iv" "named (iv\<lparr>inv_requestBuffer := buf\<rparr>) = named iv"
  by (simp_all add: named_def speeds_shown_def)

lemma named_update: "(\<And>info. info_name (f info) = info_name info) \<Longrightarrow> named (update_info p f iv) = named iv"
  by (auto simp: named_def update_info_def speeds_shown_def option.map_comp comp_def)

text \<open>A value that is stored is either not a memory clock, and then shown elsewhere, or one of the two speeds.\<close>

lemma other_value_frame:
  assumes "p \<notin> memory_clocks" "(info_interface info, propertyName info) \<noteq> speeds_name"
    and "store_value uuid_text p info v iv = (b, iv')"
  shows "published iv' speeds_name = published iv speeds_name \<and> allowedSpeedsMT iv' = allowedSpeedsMT iv"
  using assms unfolding store_value_def memory_clocks_def
  by (cases v) (auto simp: publish_defs Let_def split: if_splits prod.splits)

lemma memory_clock_published:
  "published (publish_memory_clock p w iv) speeds_name =
     Some (U16sVal (if p = MIN_MEMORY_CLOCK then [ucast (w * 2), snd (allowedSpeedsMT iv)]
                    else [fst (allowedSpeedsMT iv), ucast (w * 2)]))"
  "allowedSpeedsMT (publish_memory_clock p w iv) = speeds_shown (publish_memory_clock p w iv)"
  by (simp_all add: publish_defs Let_def speeds_shown_def split: prod.split)

lemma store_value_named:
  assumes "named iv" "properties iv p = Some info" "store_value uuid_text p info v iv = (b, iv')"
  shows "named iv'"
proof -
  have frame: "properties iv' = properties iv" "hasDram iv' = hasDram iv"
    using store_value_frame [OF assms(3)] by simp_all
  have "allowedSpeedsMT iv' = speeds_shown iv'"
  proof (cases "p \<in> memory_clocks")
    case True
    then have "iv' = iv \<or> (\<exists>w. iv' = publish_memory_clock p w iv)"
      using assms(3) by (cases v) (auto simp: memory_clocks_def store_value_def split: if_splits)
    then show ?thesis
      using assms(1) memory_clock_published(2) by (auto simp: named_def)
  next
    case False
    then have "(info_interface info, propertyName info) \<noteq> speeds_name"
      using named_property [OF assms(1,2)] speeds_only [of p] by (auto simp: info_name_def)
    from other_value_frame [OF False this assms(3)] show ?thesis
      using assms(1) by (simp add: named_def speeds_shown_def)
  qed
  then show ?thesis using assms(1) frame by (simp add: named_def)
qed

lemma processNextProperty_named: "named (fst (processNextProperty iv)) = named iv"
  by (simp add: processNextProperty_def sendInventoryPropertyRequest_def Let_def split: option.split prod.split)

lemma receive_value_named:
  assumes "named iv" "properties iv p = Some info" "receive_value uuid_text p info ec buffer iv = (b, iv')"
  shows "named iv'"
  using receive_value_cases [of uuid_text p info ec buffer iv] assms store_value_named by auto metis

lemma answer_named:
  assumes "named iv"
  shows "named (fst (handleInventoryPropertyResponse uuid_text p ec buffer iv))"
proof (cases "properties iv p")
  case (Some info)
  obtain b iv1 where r: "receive_value uuid_text p info ec buffer iv = (b, iv1)" by (metis surj_pair)
  have "named iv1" by (rule receive_value_named [OF assms Some r])
  then show ?thesis
    by (simp add: handleInventoryPropertyResponse_def Some r Let_def processNextProperty_named markPropertyProcessed_def
        named_update info_name_def)
qed (simp add: handleInventoryPropertyResponse_def processNextProperty_named assms)

lemma on_inventory_named: "named (fst (f (dev_inventory d))) \<Longrightarrow> named (dev_inventory (on_inventory f d))"
  by (cases "f (dev_inventory d)") (simp add: on_inventory_def submit_requests_def)

lemma gpu_event_named:
  assumes "named (dev_inventory d)" "on_gpu_event uuid_text e d = Some d'"
  shows "named (dev_inventory d')"
proof (cases e)
  case (Answered ec buffer)
  then obtain cb fr rest where "d' = answer uuid_text cb ec buffer (d\<lparr>waiting_requests := rest\<rparr>)"
    using assms(2) by (auto split: list.splits)
  then show ?thesis
    using assms(1) by (cases cb) (simp_all add: answer_def on_inventory_named answer_named)
next
  case RetryTimerExpired
  then show ?thesis
    using assms by (auto simp: on_inventory_named retry_timer_expired_def processNextProperty_named split: if_splits)
qed (use assms in \<open>auto simp: device_read_def split: if_splits sum.splits\<close>)

lemma named_new_device: "named (dev_inventory (new_gpu_device visit))"
  by (simp add: new_gpu_device_def device_read_def on_inventory_named inventory_init_def processNextProperty_named named_new)

end
