(* ===== verification/Gpu_Device_Properties.thy ===== *)
theory Gpu_Device_Properties
  imports Gpu_Device_Names
begin

text \<open>The properties of the inventory and the controls of a GPU.\<close>

section \<open>Runs\<close>

definition visits_all :: "inventory_property_id list \<Rightarrow> bool" where
  "visits_all visit \<longleftrightarrow> distinct visit \<and> set visit = set gpu_properties"

lemma read_potential [simp]: "dev_inventory (device_read d) = dev_inventory d"
  by (simp add: device_read_def)

lemma new_device:
  assumes "visits_all visit"
  shows "gpu_ok (new_gpu_device visit) \<and> potential (dev_inventory (new_gpu_device visit)) = 75"
proof -
  let ?iv = "new_inventory DEVICE_GPU True True visit"
  have core: "inventory_core ?iv" using assms by (intro new_inventory_core) (simp add: visits_all_def)
  obtain iv rs where h: "inventory_init ?iv = (iv, rs)" by (metis surj_pair)
  have "processNextProperty ?iv = (iv, rs)" using h by (simp add: inventory_init_def)
  from next_step [OF core _ this] have st: "inventory_ok iv rs" "potential iv = potential ?iv" "limits_kept ?iv iv"
    by (simp_all add: new_inventory_rest limits_kept_def)
  let ?d = "\<lparr>dev_inventory = ?iv, powerControl = new_power_control, clockControl = new_clock_control,
    waiting_requests = [], sent = []\<rparr>"
  have "gpu_ok (on_inventory inventory_init ?d)"
    using st h by (intro on_inventory_ok [where iv = iv and rs = rs]) (simp_all add: new_power_ok new_clock_ok)
  moreover have "dev_inventory (on_inventory inventory_init ?d) = iv"
    by (simp add: on_inventory_def submit_requests_def h)
  moreover have "potential ?iv = 75" using assms by (intro new_inventory_potential) (simp_all add: visits_all_def)
  ultimately show ?thesis using st(2) by (simp add: new_gpu_device_def read_ok)
qed

inductive gpu_step :: "(bytes \<Rightarrow> bytes) \<Rightarrow> gpu_device \<Rightarrow> gpu_device \<Rightarrow> bool" for uuid_text where
  "on_gpu_event uuid_text e d = Some d' \<Longrightarrow> gpu_step uuid_text d d'"

inductive_cases gpu_step_cases: "gpu_step uuid_text d d'"

interpretation gpus: invariant_system "\<lambda>d. \<exists>visit. visits_all visit \<and> d = new_gpu_device visit" "gpu_step uuid_text"
  gpu_ok for uuid_text
  by unfold_locales (auto simp: new_device elim!: gpu_step_cases dest: gpu_event_ok)

interpretation gpu_places: invariant_system "\<lambda>d. \<exists>visit. visits_all visit \<and> d = new_gpu_device visit" "gpu_step uuid_text"
  "\<lambda>d. named (dev_inventory d)" for uuid_text
  by unfold_locales (auto simp: named_new_device elim!: gpu_step_cases dest: gpu_event_named)

abbreviation reachable_gpu :: "(bytes \<Rightarrow> bytes) \<Rightarrow> gpu_device \<Rightarrow> bool" where
  "reachable_gpu uuid_text \<equiv> reach (\<lambda>d. \<exists>visit. visits_all visit \<and> d = new_gpu_device visit) (gpu_step uuid_text)"

lemma run_reaches:
  "reachable_gpu uuid_text d \<Longrightarrow> gpu_run uuid_text es d = Some d' \<Longrightarrow> reachable_gpu uuid_text d'"
proof (induction es arbitrary: d)
  case (Cons e es)
  then obtain d1 where e: "on_gpu_event uuid_text e d = Some d1" and r: "gpu_run uuid_text es d1 = Some d'"
    by (auto split: option.splits)
  show ?case by (rule Cons.IH [OF reach_step [OF Cons.prems(1) gpu_step.intros [OF e]] r])
qed simp

lemma run_from_new:
  "visits_all visit \<Longrightarrow> gpu_run uuid_text es (new_gpu_device visit) = Some d \<Longrightarrow> reachable_gpu uuid_text d"
  by (rule run_reaches) (auto intro: reach_init)

text \<open>How many events of a run concern the inventory.\<close>

fun inventory_events :: "(bytes \<Rightarrow> bytes) \<Rightarrow> gpu_event list \<Rightarrow> gpu_device \<Rightarrow> nat" where
  "inventory_events uuid_text [] d = 0"
| "inventory_events uuid_text (e # es) d =
     spent e d + (case on_gpu_event uuid_text e d of None \<Rightarrow> 0 | Some d' \<Rightarrow> inventory_events uuid_text es d')"

lemma run_potential:
  "gpu_ok d \<Longrightarrow> gpu_run uuid_text es d = Some d' \<Longrightarrow>
     inventory_events uuid_text es d + potential (dev_inventory d') \<le> potential (dev_inventory d)"
proof (induction es arbitrary: d)
  case (Cons e es)
  then obtain d1 where e: "on_gpu_event uuid_text e d = Some d1" and r: "gpu_run uuid_text es d1 = Some d'"
    by (auto split: option.splits)
  from Cons.IH [OF _ r] gpu_event_ok [OF Cons.prems(1) e] e show ?case by simp
qed simp

section \<open>A run\<close>

text \<open>
  A device that reports a power range of 100 to 700 W and a clock range of 345 to 1980 MHz, and fails to
  report its current limits; then a user asks for 500 W and for a minimum clock of 600 MHz.
\<close>

definition demo_visit :: "inventory_property_id list" where
  "demo_visit = [MIN_DEVICE_POWER_LIMIT, MAX_DEVICE_POWER_LIMIT, MIN_GRAPHICS_CLOCK, MAX_GRAPHICS_CLOCK] @
     filter (\<lambda>p. p \<notin> {MIN_DEVICE_POWER_LIMIT, MAX_DEVICE_POWER_LIMIT, MIN_GRAPHICS_CLOCK, MAX_GRAPHICS_CLOCK})
       gpu_properties"

definition number_answer :: "u32 \<Rightarrow> bytes" where
  "number_answer w = success_frame PLATFORM_ENVIRONMENTAL (platform_environmental_code GET_INVENTORY_INFORMATION)
     0 0 4 (le_bytes w)"

definition demo_limits :: "gpu_event list" where
  "demo_limits = [Answered None (number_answer 100000), Answered (Some 110) [], Answered (Some 110) [],
     Answered None (number_answer 700000), Answered None (number_answer 345), Answered None (number_answer 1980)]"

definition demo_writes :: "gpu_event list" where
  "demo_writes = demo_limits @ [PowerCapWritten 500, PowerCapEnableWritten True, PowerWaitElapsed,
     MinHzWritten 600000000, ClockWaitElapsed]"

definition demo_gpu :: "gpu_event list \<Rightarrow> gpu_device" where
  "demo_gpu es = the (gpu_run id es (new_gpu_device demo_visit))"

lemma demo_visits: "visits_all demo_visit"
  by code_simp

definition of_kind :: "callback \<Rightarrow> requests \<Rightarrow> requests" where
  "of_kind cb q = filter (\<lambda>r. fst r = cb) q"

lemma of_kind_simps [simp]:
  "of_kind cb [] = []" "of_kind cb (r # q) = (if fst r = cb then r # of_kind cb q else of_kind cb q)"
  "of_kind cb (q @ q') = of_kind cb q @ of_kind cb q'"
  by (simp_all add: of_kind_def)

definition after_run :: "gpu_event list \<Rightarrow> (gpu_device \<Rightarrow> bool) \<Rightarrow> bool" where
  "after_run es P = (case gpu_run id es (new_gpu_device demo_visit) of None \<Rightarrow> False | Some d \<Rightarrow> P d)"

lemma after_run:
  assumes "after_run es P"
  shows "gpu_run id es (new_gpu_device demo_visit) = Some (demo_gpu es)" and "reachable_gpu id (demo_gpu es)"
    and "P (demo_gpu es)"
  using assms run_from_new [OF demo_visits]
  by (auto simp: demo_gpu_def after_run_def split: option.splits)

lemma limits_run:
  "after_run demo_limits (\<lambda>d. \<not> retryTimer (dev_inventory d) \<and>
     getNextPendingProperty (dev_inventory d) = Some SERIAL_NUMBER)"
  by code_simp

lemma writes_run:
  "after_run demo_writes (\<lambda>d.
     powerQueued (powerControl d) > 0 \<and> \<not> powerWait (powerControl d) \<and> \<not> setPowerLimitInflight (powerControl d) \<and>
     requestedPowerCapWatts (powerControl d) = Some 500 \<and> pendingEnable (powerControl d) = Some True \<and>
     clockQueued (clockControl d) > 0 \<and> \<not> clockWait (clockControl d) \<and>
     \<not> setClockLimitInflight (clockControl d) \<and> pendingMinHz (clockControl d) = Some 600000000 \<and>
     pendingMaxHz (clockControl d) = None \<and> requestedMaxHz (clockControl d) = 0 \<and>
     of_kind SetPowerCallback (sent d) = [] \<and> of_kind SetClockCallback (sent d) = [])"
  by code_simp

lemmas limits_reachable = after_run(2) [OF limits_run]
lemmas writes_reachable = after_run(2) [OF writes_run]
lemmas writes_facts = after_run(3) [OF writes_run]

section \<open>The inventory\<close>

text \<open>C38: the inventory is read one property at a time and never stalls. In every reachable state, as long
  as a property is pending, either exactly one request of the inventory is outstanding, the request for
  the first pending property, or none is and the retry timer runs; when none is pending there is neither. No
  property is tried more than three times, and one that is still pending has been tried less often.\<close>

theorem inventory_progress:
  assumes "reachable_gpu uuid_text d"
  defines "iv \<equiv> dev_inventory d"
  shows "inventory_requests (waiting_requests d) =
      (if retryTimer iv then []
       else case getNextPendingProperty iv of None \<Rightarrow> [] | Some p \<Rightarrow> [(InventoryCallback p, inventory_frame p)]) \<and>
    (getNextPendingProperty iv = None \<longleftrightarrow> (\<forall>p. \<not> pending iv p)) \<and>
    (retryTimer iv \<longrightarrow> (\<exists>p. pending iv p)) \<and>
    (\<forall>p info. properties iv p = Some info \<longrightarrow>
       retryCount info \<le> 3 \<and> (isPending info \<longrightarrow> retryCount info < 3))"
proof -
  have ok: "gpu_ok d" by (rule gpus.reach_inv [OF assms(1)])
  have inv: "inventory_ok iv (inventory_requests (waiting_requests d))" and core: "inventory_core iv"
    using device_parts(1,4) [OF ok] by (simp_all add: iv_def)
  have "\<forall>p info. properties iv p = Some info \<longrightarrow> info_ok info" using core unfolding inventory_core_def by blast
  then show ?thesis
    using inv next_none [OF core] by (auto simp: inventory_ok_def next_request_def info_ok_def maxRetryAttempts_def)
qed

theorem inventory_progress_witness:
  "inventory_requests (waiting_requests (demo_gpu demo_limits)) =
     [(InventoryCallback SERIAL_NUMBER, inventory_frame SERIAL_NUMBER)]"
  using inventory_progress [OF limits_reachable] after_run(3) [OF limits_run] by simp

text \<open>C39: reading the inventory ends. Whatever the device answers, and whatever else happens in between, a run
  has at most 75 events that concern the inventory, five for each of its fifteen properties: three
  answers and two waits of the retry timer.\<close>

theorem inventory_finishes:
  assumes "visits_all visit" and "gpu_run uuid_text es (new_gpu_device visit) = Some d"
  shows "inventory_events uuid_text es (new_gpu_device visit) \<le> 75"
  using run_potential [OF conjunct1 assms(2)] new_device [OF assms(1)] by fastforce

theorem inventory_finishes_witness:
  "inventory_events id demo_writes (new_gpu_device demo_visit) \<le> 75"
  by (rule inventory_finishes [OF demo_visits after_run(1) [OF writes_run]])

section \<open>The gates\<close>

text \<open>C35: one set request at a time, and no write is forgotten. In every reachable state the power control's gate
  is closed exactly if a SetPowerLimits is outstanding, of which there is never a second; the clock
  control's gate is closed exactly if either one SetClockLimit is outstanding, or its read-back is awaited
  and a GetClockLimit is outstanding. So a closed gate always has an answer coming that opens it. A write
  that is not yet dispatched has its debounce timer running, or expired with the handler to run.\<close>

theorem one_set_at_a_time:
  assumes "reachable_gpu uuid_text d"
  defines "q \<equiv> waiting_requests d" and "pc \<equiv> powerControl d" and "ck \<equiv> clockControl d"
  shows "waiting_for SetPowerCallback q = (if setPowerLimitInflight pc then 1 else 0) \<and>
    waiting_for SetClockCallback q =
      (if setClockLimitInflight ck \<and> \<not> setClockLimitReadbackPending ck then 1 else 0) \<and>
    (setClockLimitReadbackPending ck \<longrightarrow> setClockLimitInflight ck \<and> waiting_for GetClockCallback q > 0) \<and>
    (requestedPowerCapWatts pc \<noteq> None \<or> pendingEnable pc \<noteq> None \<longrightarrow> powerWait pc \<or> powerQueued pc > 0) \<and>
    (pendingMinHz ck \<noteq> None \<or> pendingMaxHz ck \<noteq> None \<longrightarrow> clockWait ck \<or> clockQueued ck > 0)"
proof -
  have ok: "gpu_ok d" by (rule gpus.reach_inv [OF assms(1)])
  have "power_ok pc (dev_inventory d) (waiting_for SetPowerCallback q)"
    and "clock_ok ck (dev_inventory d) (waiting_for SetClockCallback q) (waiting_for GetClockCallback q)"
    using device_parts(2,3) [OF ok] by (simp_all add: q_def pc_def ck_def)
  then show ?thesis
    unfolding power_ok_def clock_ok_def by (elim conjE, intro conjI) (simp_all split: if_splits)
qed

theorem one_set_at_a_time_witness:
  "waiting_for SetPowerCallback (waiting_requests (demo_gpu demo_writes)) = 0 \<and>
   waiting_for SetClockCallback (waiting_requests (demo_gpu demo_writes)) = 0"
  using one_set_at_a_time [OF writes_reachable] writes_facts by simp

section \<open>What is sent\<close>

lemma of_kind_none: "fst ` set rs \<subseteq> S \<Longrightarrow> cb \<notin> S \<Longrightarrow> of_kind cb rs = []"
  by (force simp: of_kind_def filter_empty_conv)

lemma sent_on [simp]:
  "sent (on_power f d) = sent d @ snd (f (powerControl d))"
  "sent (on_clock g d) = sent d @ snd (g (clockControl d))"
  "sent (on_inventory h d) = sent d @ snd (h (dev_inventory d))"
  by (simp_all add: on_power_def on_clock_def on_inventory_def submit_requests_def split: prod.split)

lemma quiet_operations:
  "cb \<noteq> GetPowerCallback \<Longrightarrow> of_kind cb (snd (sendGetPowerLimitsRequest pc)) = []"
  "cb \<noteq> GetClockCallback \<Longrightarrow> of_kind cb (snd (sendGetClockLimitRequest ck)) = []"
  "\<not> for_inventory cb \<Longrightarrow> of_kind cb (snd (processNextProperty iv)) = []"
  "cb \<noteq> GetPowerCallback \<Longrightarrow> of_kind cb (snd (handleSetPowerLimitsResponse ec buffer pc)) = []"
  "cb \<noteq> GetClockCallback \<Longrightarrow> of_kind cb (snd (handleSetClockLimitResponse ec buffer ck)) = []"
  "\<not> for_inventory cb \<Longrightarrow> of_kind cb (snd (handleInventoryPropertyResponse uuid_text p ec buffer iv)) = []"
  "cb \<notin> {GetClockCallback, SetClockCallback} \<Longrightarrow> of_kind cb (snd (clock_timer_handler ck)) = []"
  "cb \<notin> {GetPowerCallback, SetPowerCallback} \<Longrightarrow> of_kind cb (snd (power_timer_handler pc)) = []"
proof -
  show a: "of_kind cb (snd (sendGetPowerLimitsRequest pc)) = []" if "cb \<noteq> GetPowerCallback" for pc
    using that by (simp add: sendGetPowerLimitsRequest_def)
  show b: "of_kind cb (snd (sendGetClockLimitRequest ck)) = []" if "cb \<noteq> GetClockCallback" for ck
    using that by (simp add: sendGetClockLimitRequest_def)
  show c: "of_kind cb (snd (processNextProperty iv)) = []" if "\<not> for_inventory cb" for iv
    using that by (auto simp: processNextProperty_def sendInventoryPropertyRequest_def Let_def split: option.split prod.split)
  show "of_kind cb (snd (handleSetPowerLimitsResponse ec buffer pc)) = []" if "cb \<noteq> GetPowerCallback"
    using a [OF that] set_power_answer_cases [of ec buffer pc] by auto
  show "of_kind cb (snd (handleSetClockLimitResponse ec buffer ck)) = []" if "cb \<noteq> GetClockCallback"
    using b [OF that]
    by (cases ec; cases "decodeSetClockLimitResponse buffer 0 0") (simp_all add: handleSetClockLimitResponse_def Let_def)
  show "of_kind cb (snd (handleInventoryPropertyResponse uuid_text p ec buffer iv)) = []" if "\<not> for_inventory cb"
    using c [OF that]
    by (simp add: handleInventoryPropertyResponse_def Let_def split: option.split prod.split)
  show "of_kind cb (snd (clock_timer_handler ck)) = []" if "cb \<notin> {GetClockCallback, SetClockCallback}"
    using that by (auto simp: clock_timer_handler_def applyPendingClockLimit_def sendSetClockLimitRequest_def Let_def
        split: prod.split)
  show "of_kind cb (snd (power_timer_handler pc)) = []" if "cb \<notin> {GetPowerCallback, SetPowerCallback}"
    using that by (auto simp: power_timer_handler_def applyPendingPowerLimit_def sendSetPowerLimitsRequest_def Let_def
        split: prod.split option.split)
qed

text \<open>Only the handler of a control's timer sends a set request of that control.\<close>

lemma set_requests_sent:
  assumes e: "on_gpu_event uuid_text e d = Some d'" and cb: "cb = SetPowerCallback \<or> cb = SetClockCallback"
  shows "of_kind cb (sent d') = of_kind cb (sent d) @
    (if e = PowerHandlerRuns then of_kind cb (snd (power_timer_handler (powerControl d)))
     else if e = ClockHandlerRuns then of_kind cb (snd (clock_timer_handler (clockControl d)))
     else [])"
proof -
  have nc: "\<not> for_inventory cb" "cb \<noteq> GetPowerCallback" "cb \<noteq> GetClockCallback" using cb by auto
  note quiet = quiet_operations(1) [OF nc(2)] quiet_operations(2) [OF nc(3)] quiet_operations(3) [OF nc(1)]
    quiet_operations(4) [OF nc(2)] quiet_operations(5) [OF nc(3)] quiet_operations(6) [OF nc(1)]
  show ?thesis
  proof (cases e)
    case (Answered ec buffer)
    then obtain c fr rest where "d' = answer uuid_text c ec buffer (d\<lparr>waiting_requests := rest\<rparr>)"
      using e by (auto split: list.splits)
    then show ?thesis using Answered by (cases c) (simp_all add: answer_def quiet)
  qed (use e in \<open>auto simp: quiet retry_timer_expired_def device_read_def clock_update_def power_update_def
      split: if_splits sum.splits\<close>)
qed





text \<open>A limit that was never read is sent as zero. When a minimum clock is written while the requested
  maximum is still the initial 0, because no GetClockLimit has succeeded yet, and no maximum is written with it,
  the handler sends the minimum with a maximum of 0 MHz.\<close>

lemma unread_limit_sent_as_zero:
  assumes "reachable_gpu uuid_text d" and "clockQueued (clockControl d) > 0"
    and "\<not> setClockLimitInflight (clockControl d)" and "pendingMinHz (clockControl d) = Some v"
    and "pendingMaxHz (clockControl d) = None" and "requestedMaxHz (clockControl d) = 0"
  shows "\<exists>d'. on_gpu_event uuid_text ClockHandlerRuns d = Some d' \<and>
    sent d' = sent d @ [(SetClockCallback, set_clock_frame (of_nat (unat v div 1000000)) 0)]"
proof -
  have ok: "gpu_ok d" by (rule gpus.reach_inv [OF assms(1)])
  have "clock_order (clockControl d) = Some (unat v div 1000000, 0)"
    using assms by (simp add: clock_order_def min_to_send_def max_to_send_def)
  with clock_handler [OF device_parts(3,4) [OF ok]]
  have "snd (clock_timer_handler (clockControl d)) = [(SetClockCallback, set_clock_frame (of_nat (unat v div 1000000)) 0)]"
    by simp
  then show ?thesis using assms(2) by simp
qed

lemma unread_limit_sent_as_zero_witness:
  "\<exists>d'. on_gpu_event id ClockHandlerRuns (demo_gpu demo_writes) = Some d' \<and>
    sent d' = sent (demo_gpu demo_writes) @ [(SetClockCallback, set_clock_frame 600 0)]"
  using unread_limit_sent_as_zero [OF writes_reachable, of 600000000] writes_facts by simp

section \<open>What is shown\<close>

text \<open>
  How a number the device answers is shown, \<open>old\<close> being the memory speeds shown before: clocks in hertz, power in
  watts, the memory in KiB, and a memory clock as twice its megahertz in the lower or the upper
  place of the memory speeds, which have 16 bits.
\<close>

definition number_shown :: "u16 \<times> u16 \<Rightarrow> inventory_property_id \<Rightarrow> u32 \<Rightarrow> dbus_value \<Rightarrow> bool" where
  "number_shown old p w x \<longleftrightarrow>
     (if p \<in> {DEFAULT_BOOST_CLOCKS, DEFAULT_BASE_CLOCKS, MIN_GRAPHICS_CLOCK, MAX_GRAPHICS_CLOCK}
        then \<exists>hz. x = U64Val hz \<and> unat hz = unat w * 1000000
      else if p \<in> {MIN_DEVICE_POWER_LIMIT, MAX_DEVICE_POWER_LIMIT, RATED_DEVICE_POWER_LIMIT}
        then \<exists>watts. x = U32Val watts \<and> unat watts = unat w div 1000
      else if p = MIN_MEMORY_CLOCK then \<exists>mt. x = U16sVal [mt, snd old] \<and> unat mt = 2 * unat w mod 2 ^ 16
      else if p = MAX_MEMORY_CLOCK then \<exists>mt. x = U16sVal [fst old, mt] \<and> unat mt = 2 * unat w mod 2 ^ 16
      else \<exists>kib. x = U64Val kib \<and> unat kib = unat w * 1024)"

definition value_shown ::
  "(bytes \<Rightarrow> bytes) \<Rightarrow> u16 \<times> u16 \<Rightarrow> inventory_property_id \<Rightarrow> inventory_value \<Rightarrow> dbus_value \<Rightarrow> bool" where
  "value_shown uuid_text old p v x =
     (case v of InvString s \<Rightarrow> x = StrVal s
      | InvBytes guid \<Rightarrow> x = StrVal (uuid_text (take 16 guid))
      | InvU32 w \<Rightarrow> number_shown old p w x)"

lemma unat_doubled: "unat (ucast (w * 2 :: u32) :: u16) = 2 * unat w mod 2 ^ 16"
proof -
  have "unat (w * 2) = 2 * unat w mod 2 ^ 32" by (simp add: unat_word_ariths mult.commute)
  then have "unat (ucast (w * 2 :: u32) :: u16) = 2 * unat w mod 2 ^ 32 mod 2 ^ 16"
    by (simp add: unsigned_ucast_eq take_bit_eq_mod)
  also have "\<dots> = 2 * unat w mod 2 ^ 16" by (rule mod_mod_cancel) simp
  finally show ?thesis .
qed

lemma unat_kib: "unat (ucast (w :: u32) * 1024 :: u64) = unat w * 1024"
proof -
  have u: "unat (ucast w :: u64) = unat w"
    using u32_less [of w] by (simp add: unsigned_ucast_eq take_bit_nat_eq_self)
  have "unat (ucast w :: u64) * unat (1024 :: u64) < 2 ^ LENGTH(64)" using u32_less [of w] by (simp add: u)
  then have "unat (ucast w * 1024 :: u64) = unat (ucast w :: u64) * unat (1024 :: u64)"
    by (rule unat_mult_lem [THEN iffD1])
  then show ?thesis by (simp add: u)
qed

lemma published_by:
  "published (set_iface_property i nm x iv) (i, nm) = Some x"
  "published (publish_clock p info w iv) (info_interface info, propertyName info) =
     Some (U64Val (ucast w * mhzToHzFactor))"
  "published (publish_power p info w iv) (info_interface info, propertyName info) =
     Some (U32Val (w div milliwattsPerWatt))"
  by (simp_all add: publish_clock_def publish_power_def set_iface_property_def Let_def)

lemma stored_value_shown:
  assumes v: "inventory_parses (inventory_kind_of p) ds r v" and ds: "ds \<noteq> 0"
    and iv: "named iv" "properties iv p = Some info"
    and guid: "\<forall>g. v = InvBytes g \<longrightarrow> length g \<ge> 16 \<and> uuid_text (take 16 g) \<noteq> []"
  shows "\<exists>iv' x. store_value uuid_text p info v iv = (True, iv') \<and>
    published iv' (info_name info) = Some x \<and> value_shown uuid_text (speeds_shown iv) p v x"
proof (cases "inventory_kind_of p")
  case StringKind
  then obtain s where s: "v = InvString s" "length s = unat ds" using v by auto
  then have "s \<noteq> []" using ds by (auto simp: unat_eq_0)
  moreover have "p \<in> {BOARD_PART_NUMBER, SERIAL_NUMBER, MARKETING_NAME, DEVICE_PART_NUMBER}"
    using StringKind by (simp only: inventory_kind_of_def split: if_split_asm; simp)
  ultimately show ?thesis
    by (simp only: store_value_def if_True s inventory_value.case publish_text_def simp_thms prod.inject value_shown_def)
      (auto simp: published_by info_name_def)
next
  case BytesKind
  then obtain g where g: "v = InvBytes g" using v by auto
  have "p = DEVICE_GUID" using BytesKind by (simp only: inventory_kind_of_def split: if_split_asm; simp)
  with g guid show ?thesis by (simp add: store_value_def publish_text_def value_shown_def published_by info_name_def)
next
  case NumberKind
  then obtain w where w: "v = InvU32 w" using v by auto
  consider "p \<in> {DEFAULT_BOOST_CLOCKS, DEFAULT_BASE_CLOCKS, MIN_GRAPHICS_CLOCK, MAX_GRAPHICS_CLOCK}"
    | "p \<in> {MIN_DEVICE_POWER_LIMIT, MAX_DEVICE_POWER_LIMIT, RATED_DEVICE_POWER_LIMIT}" | "p = MAX_MEMORY_CAPACITY"
    | "p \<in> memory_clocks"
    using NumberKind by (auto simp: memory_clocks_def inventory_kind_of_def split: if_split_asm)
  then show ?thesis
  proof cases
    case 4
    then have "info_name info = speeds_name" using named_property [OF iv] speeds_only [of p] by simp
    moreover have "hasDram iv" "allowedSpeedsMT iv = speeds_shown iv" using iv(1) by (simp_all add: named_def)
    ultimately show ?thesis
      using 4 by (auto simp: memory_clocks_def store_value_def w value_shown_def number_shown_def memory_clock_published
          unat_doubled)
  qed (auto simp: store_value_def w value_shown_def number_shown_def published_by info_name_def unat_hertz unat_watts
      unat_kib)
next
  case UnknownKind
  then show ?thesis using v by simp
qed


text \<open>C40: what the device answers is what the inventory shows. When the answer to the outstanding inventory
  request is a successful response with 1 to 256 bytes of data that hold a value of the property's kind, then that value
  is shown under the D-Bus name of the property, and the property is not asked for again: text as it is; a UUID, which
  needs at least 16 bytes and a text form that is not empty, in its text form; clocks as a million times the
  megahertz, power as a thousandth of the milliwatts rounded down and the memory as 1024 times the MiB, all without
  overflow; and a memory clock as twice its megahertz, cut to 16 bits, in its place of the two memory speeds, the
  other one staying as it was shown (or 0).\<close>

theorem inventory_answer_shown:
  assumes "reachable_gpu uuid_text d" and q: "waiting_requests d = (InventoryCallback p, fr) # rest"
    and frame: "response_id mid" "0 < ds" "unat ds \<le> 256"
      "buffer = success_frame PLATFORM_ENVIRONMENTAL (platform_environmental_code GET_INVENTORY_INFORMATION) mid reason ds r"
    and v: "inventory_parses (inventory_kind_of p) ds r v"
    and guid: "\<forall>g. v = InvBytes g \<longrightarrow> length g \<ge> 16 \<and> uuid_text (take 16 g) \<noteq> []"
  shows "\<exists>d' place x. on_gpu_event uuid_text (Answered None buffer) d = Some d' \<and>
    map_of gpu_names p = Some place \<and> published (dev_inventory d') place = Some x \<and>
    value_shown uuid_text (speeds_shown (dev_inventory d)) p v x \<and> \<not> pending (dev_inventory d') p"
proof -
  let ?iv = "dev_inventory d"
  note ok = device_parts(1,4) [OF gpus.reach_inv [OF assms(1)]]
  note core = ok(2)
  have "pending ?iv p"
    using ok(1) q next_pending [of ?iv] by (auto simp: inventory_ok_def next_request_def split: if_splits option.splits)
  then obtain info where info: "properties ?iv p = Some info" by (auto simp: pending_def split: option.splits)
  have named: "named ?iv" by (rule gpu_places.reach_inv [OF assms(1)])
  have ds: "ds \<noteq> 0" using frame(2) by simp
  obtain iv1 x where st: "store_value uuid_text p info v ?iv = (True, iv1)"
    and x: "published iv1 (info_name info) = Some x" "value_shown uuid_text (speeds_shown ?iv) p v x"
    using stored_value_shown [OF v ds named info guid] by blast
  have "decodeGetInventoryInformationResponse buffer 0 0 p (InvString []) = (0, CC_SUCCESS, 0, v)"
    unfolding decodeGetInventoryInformationResponse_exact using frame ds v by blast
  then have r: "receive_value uuid_text p info None buffer ?iv = (True, iv1)"
    by (simp add: receive_value_def st)
  let ?iv2 = "markPropertyProcessed p iv1"
  have "length (inv_requestBuffer ?iv2) = getInventoryInformationRequestSize"
    using core receive_value_frame [OF r] by (simp add: inventory_core_def markPropertyProcessed_def update_info_def)
  then obtain iv' rs where n: "processNextProperty ?iv2 = (iv', rs)"
    and same: "published iv' = published ?iv2" "pending iv' = pending ?iv2"
    using processNextProperty_eq [of ?iv2] by simp
  have "handleInventoryPropertyResponse uuid_text p None buffer ?iv = (iv', rs)"
    by (simp add: handleInventoryPropertyResponse_def info r n)
  then have "on_gpu_event uuid_text (Answered None buffer) d =
      Some (on_inventory (\<lambda>_. (iv', rs)) (d\<lparr>waiting_requests := rest\<rparr>))"
    by (simp add: q answer_def on_inventory_def)
  moreover have "published iv' = published iv1" by (simp add: same markPropertyProcessed_def update_info_def)
  moreover have "\<not> pending iv' p"
    by (simp add: same markPropertyProcessed_def update_info_pending split: option.split)
  ultimately show ?thesis
    using x named_property [OF named info] by (simp add: on_inventory_def submit_requests_def)
qed

text \<open>The device answers the first request, for its minimum power limit.\<close>

theorem inventory_answer_shown_witness:
  "\<exists>d' x. on_gpu_event id (Answered None (number_answer 100000)) (new_gpu_device demo_visit) = Some d' \<and>
    published (dev_inventory d') (PowerCapIface, ''MinPowerCapValue'') = Some x \<and>
    number_shown (speeds_shown (dev_inventory (new_gpu_device demo_visit))) MIN_DEVICE_POWER_LIMIT 100000 x"
proof -
  let ?d = "new_gpu_device demo_visit"
  have "case waiting_requests ?d of (InventoryCallback p, f) # rest \<Rightarrow> p = MIN_DEVICE_POWER_LIMIT | _ \<Rightarrow> False"
    by code_simp
  then obtain fr rest where q: "waiting_requests ?d = (InventoryCallback MIN_DEVICE_POWER_LIMIT, fr) # rest"
    by (auto split: list.splits prod.splits callback.splits)
  have "reachable_gpu id ?d" by (rule reach_init) (use demo_visits in blast)
  from inventory_answer_shown [OF this q, of 0 4 "number_answer 100000" 0 "le_bytes (100000 :: u32)" "InvU32 100000"]
  show ?thesis
    by (simp add: number_answer_def response_id_def inventory_kind_of_def value_shown_def gpu_names_def) blast
qed

end
