(* ===== verification/Spec2Isabelle.thy ===== *)
theory Spec2Isabelle
  imports Codec_Properties Reactive_Graph_Correct Mctp_Requester_Correct Long_Running Mctp_Device
    Mctp_Reactor_Faults Sensor_Correct Mctp_Config_Correct Sensor_Config_Correct Mctp_Health_Properties Wp_Properties
    Gpu_Device_Properties
begin

text \<open>
  A verification library for dbus-sensors, the daemons that read sensors and devices and publish them on
  D-Bus. It models the components whose logic the daemons rest on; file names are relative to src/src.

  \<^bold>\<open>The program.\<close> One process per kind of sensor, single threaded, on a boost::asio event loop. The GPU
  daemon (nvidia-gpu) encodes requests to a GPU, submits them to a scheduler that keeps one request per MCTP
  endpoint in flight, and decodes the responses; slow commands and events go through tables of their own. The
  MCTP daemon (mctp) builds devices from the configurations of the inventory and lets a reactor drive
  each one through set-up, loss, recovery and removal; a device watches the health of its endpoint and resets it
  itself. The firmware write protection (nvidia-fw-write-protect) combines GPIO inputs and remote D-Bus objects
  in named groups, evaluates them as a graph of boolean conditions and publishes the results as D-Bus objects. All the other sensors derive from the class of sensor.hpp, with the
  thresholds of Thresholds.cpp. A handler runs to its end before the next event, so every component is a state
  and a function per handler; histories of events are lists or inductively defined reachable states.

  \<^bold>\<open>The theories\<close>, a component per group:
  \<^item> Prelude: integer types, bytes in memory, error numbers, the collections of simplification rules.
    Fifo_Service: the contract of a component that serves requests in order, a locale that the scheduler's
    queues and the serial queue interpret. Text_Format: std::string::find, decimal numbers.
  \<^item> Pack_Buffer (nvidia-gpu/MessagePackUnpackUtils.hpp), Ocp_Vdm (OcpMctpVdm), Gpu_Requests, Gpu_Responses,
    Gpu_Aggregate (NvidiaGpuMctpVdm): the message codec, one definition per encoder and decoder, on the
    caller's memory as a list of bytes. Gpu_Response_Specs and Codec_Properties: what a request is on the
    wire and that every encoder writes it; that each decoder succeeds on exactly the frames of its
    command, size and layout; the error responses.
  \<^item> Mctp_Requester (MctpRequester.cpp, MctpAsioEndpoint.cpp), Mctp_Requester_Correct: the scheduler as a record of
    per-endpoint queues, instance ids, timers and outstanding socket operations. Order, at most one
    request in flight, exactly one answer, a bound of the call stack, and what goes wrong outside the stated
    conditions.
  \<^item> Serial_Queue, Event_Reporting, Long_Running (SerialQueue, NvidiaEventReporting, NvidiaLongRunningHandler,
    NvidiaGpuLongRunningCommand): exclusive use of a device, subscription to events and their dispatch,
    and commands answered later by an event.
  \<^item> Reactive_Graph, Reactive_Graph_Correct (nvidia-fw-write-protect/ReactiveGraph.cpp): the graph, that it stays
    acyclic, that propagation ends with every node consistent and notifies exactly the changed nodes.
  \<^item> Gpu_Inventory (Inventory.cpp), Gpu_Controls (NvidiaGpuPowerControl.cpp, NvidiaGpuClockSpeedControl.cpp, and
    what NvidiaGpuDevice.cpp does with the three): the properties of a GPU that are read one at a time with
    retries, the power cap and clock limits a user writes, and the requests they share, which are
    answered in order. An event is an answer, a timer, a handler, a write or a poll. Gpu_Inventory_Correct: the
    invariant of the inventory and the potential that every answer lowers. Gpu_Controls_Correct,
    Gpu_Device_Correct: the invariant of the controls and of the whole. Gpu_Device_Names: where the values of the
    inventory are shown. Gpu_Device_Properties: the inventory makes progress and finishes, one set request at a time and
    no write forgotten, what exactly is sent and that it is in range and does not overflow, what is shown of an
    answer, and a limit that is sent before it was read.
  \<^item> Wp_Manager (nvidia-fw-write-protect: DomainManager.cpp, Domain.cpp, GroupConfig.cpp, GpioInputConfig.cpp): the
    groups on the graph, with coroutines as tasks and the D-Bus objects as a store. Graph_Ports: the graph's
    operations as a client sees them. Wp_Tasks: what every event keeps, exceptions included. Wp_Manager_Correct,
    Wp_Manager_Safe: the invariant that ties names, nodes, pending links and objects together, and that every event
    keeps it. Wp_Runs, Wp_Properties: objects show their group, a group is the AND or OR of its named sources in any
    order of arrival, a change takes effect, a call succeeds exactly if the value read back is the requested one, and
    the two situations in which the first of these fail.
  \<^item> Mctp_Repository (mctp/MCTPDeviceRepository.hpp): the map of devices and its reverse index, refined to a
    plain map. Mctp_Device: endpoint ids and paths of a device (MCTPEndpoint.hpp). Mctp_Reactor,
    Mctp_Reactor_Correct, Mctp_Reactor_Faults (MCTPReactor.cpp): the life cycle of devices as a state machine,
    its invariant, and the executions that break it. Mctp_Health, Mctp_Health_Correct, Mctp_Health_Properties
    (MCTPDDevice and MCTPDEndpoint of MCTPEndpoint.cpp): set-up, discovery, the health checks of an endpoint and of
    the pool behind a bridge, recovery and removal as a state machine with its invariant.
  \<^item> Cpp_Double: binary64 with correct rounding. Sensor_Thresholds, Sensor, Sensor_Correct (Thresholds.cpp,
    sensor.hpp): alarms refine Schmitt triggers, readings, read errors, power state, initial properties.
  \<^item> Config_Value (VariantVisitors.hpp and the text functions of the standard library), Mctp_Config,
    Mctp_Config_Correct (the \<open>from\<close> functions of MCTPEndpoint.cpp, MCTPEndpointUtils.cpp), Sensor_Config,
    Sensor_Config_Correct (the parsers of Thresholds.cpp, the look-ups of Utils.cpp): configurations.

  \<^bold>\<open>Bounds.\<close> Integers are words of the width of the source; size_t and unsigned long have 64 bits. The mutual
  recursion of the scheduler has the fuel \<open>call_depth\<close> = 1024, the depth of the C++ call stack it may use; a
  theorem shows that 776 is enough whatever the clients do in their callbacks, so the fuel is never
  exhausted. The search for the next event source has a fuel of the number of sources. The graph's loops
  are functions with a termination proof or return None when they do not end, and theorems show they do.

  \<^bold>\<open>Abstractions.\<close> Callbacks of clients are parameters (what they submit before they return) or opaque values;
  observers of the graph do not call back into it. A timer that expires runs its handler at once, except
  in the GPU controls, where a completed wait may be overtaken. Indices the
  source uses unchecked are considered in range. Set-up failures that a device reports before \<open>setup\<close> returns are
  events after it. D-Bus interfaces are the values of their properties, and set_property is a parameter. Files and
  directories are parameters. Signs of zeros and NaNs are not distinguished. Log output is not modelled.

  \<^bold>\<open>Conditions.\<close> The properties of the write protection hold in states reached without an exception
  (\<open>reachable_wp False\<close>) in which no name is both a proxied D-Bus object and a group (\<open>no_clash\<close>), except where they say
  otherwise; runs of Wp_Properties show that both are needed. The properties of the MCTP reactor, except the one of the
  association server, are about \<open>expected\<close> events: they leave out a set-up that a device requests through its own
  callback, a set-up answered with AlreadyDiscovered and a subscription that fails; Mctp_Reactor_Faults shows what
  a failed subscription does. Those of the request scheduler are about its expected events in the same way.

  \<^bold>\<open>Documents.\<close> The code is modelled where it differs from its documents. DESIGN.md of the write protection lets a
  group without a working source have the identity of its operator, sets the graph to the requested value and lets the
  monitor go on after every error; in the code a failed source counts as false, the graph takes the value read back, and
  Unavailable ends the monitor. The comments on the ping of an endpoint speak of three timeouts in a row; the code
  logs a failure when the third one is a timeout.

  \<^bold>\<open>Not modelled.\<close> The protectors of the write protection, whose answers are events of its model; the
  sensors and metrics of the GPU daemon, whose handlers decode an answer and publish it; the MCTP custom devices
  and services, which are libusb, sysfs and D-Bus exchanges; the sensor daemons that poll sysfs, I2C, NVMe, IPMB or
  GPIO lines, whose logic beyond the sensor class is input and output; the identifiers of MCTP
  devices; findFiles, which needs std::regex; associations; instrumentation and the NVIDIA_SHMEM telemetry; the
  matches that follow the power state.
\<close>

end
